(* ===== verification/Prelude.thy ===== *)
theory Prelude
  imports Main "HOL-Library.Word" "HOL-Library.Monad_Syntax"
begin

text \<open>
  Shared vocabulary of the development: machine integers, the panic monad
  (\<open>None\<close> is a Rust panic), the slice and vector operations of the Rust standard
  library that the modelled code uses, and generic lemmas on lists and words.
\<close>

unbundle bit_operations_syntax

type_synonym u8 = "8 word"
type_synonym u16 = "16 word"
type_synonym u32 = "32 word"
type_synonym u64 = "64 word"
type_synonym bytes = "u8 list"

subsection \<open>The panic monad\<close>

text \<open>
  A computation that can panic (an index out of range, an unsigned subtraction below zero, a
  \<open>clamp\<close> with its bounds crossed) is an \<open>option\<close>; \<open>None\<close> is the panic, and the
  bind of \<open>Monad_Syntax\<close> is the sequencing of Rust.  \<open>runs m P\<close> is its weakest
  precondition: the computation returns, and its result satisfies \<open>P\<close>.  The rules below
  rewrite a goal about a composed computation into goals about its parts; the collection
  \<open>wp\<close> holds the rules of the single operations.
\<close>

definition runs :: "'a option \<Rightarrow> ('a \<Rightarrow> bool) \<Rightarrow> bool" where
  "runs m P \<longleftrightarrow> (\<exists>x. m = Some x \<and> P x)"

named_theorems wp

lemma runs_Some [simp]: "runs (Some x) P \<longleftrightarrow> P x"
  by (simp add: runs_def)

lemma runs_None [simp]: "\<not> runs None P"
  by (simp add: runs_def)

lemma runs_bind [simp]: "runs (m \<bind> f) P \<longleftrightarrow> runs m (\<lambda>x. runs (f x) P)"
  by (cases m) auto

lemma runs_if [simp]: "runs (if b then m else n) P \<longleftrightarrow> (if b then runs m P else runs n P)"
  by simp

lemma runs_case_prod [simp]:
  "runs (case p of (x, y) \<Rightarrow> f x y) P \<longleftrightarrow> (case p of (x, y) \<Rightarrow> runs (f x y) P)"
  by (cases p) simp

lemma runs_mono: "runs m P \<Longrightarrow> (\<And>x. P x \<Longrightarrow> Q x) \<Longrightarrow> runs m Q"
  by (auto simp: runs_def)

lemma runs_conjI: "runs m P \<Longrightarrow> runs m Q \<Longrightarrow> runs m (\<lambda>x. P x \<and> Q x)"
  by (auto simp: runs_def)

lemma runsD: "runs m P \<Longrightarrow> \<exists>x. m = Some x \<and> P x"
  by (simp add: runs_def)

lemma runsI: "m = Some x \<Longrightarrow> P x \<Longrightarrow> runs m P"
  by (simp add: runs_def)

text \<open>Running a panicking step over a list, left to right.\<close>

fun foldM :: "('s \<Rightarrow> 'a \<Rightarrow> 's option) \<Rightarrow> 's \<Rightarrow> 'a list \<Rightarrow> 's option" where
  "foldM f s [] = Some s"
| "foldM f s (x # xs) = do { s' \<leftarrow> f s x; foldM f s' xs }"

lemma foldM_append: "foldM f s (xs @ ys) = do { s' \<leftarrow> foldM f s xs; foldM f s' ys }"
  by (induction xs arbitrary: s) auto

text \<open>Mapping a panicking function over a list.\<close>

fun mapM :: "('a \<Rightarrow> 'b option) \<Rightarrow> 'a list \<Rightarrow> 'b list option" where
  "mapM f [] = Some []"
| "mapM f (x # xs) = do { y \<leftarrow> f x; ys \<leftarrow> mapM f xs; Some (y # ys) }"

lemma runs_mapM:
  "(\<And>x. x \<in> set xs \<Longrightarrow> runs (f x) (P x)) \<Longrightarrow> runs (mapM f xs) (\<lambda>ys. list_all2 P xs ys)"
proof (induction xs)
  case Nil
  then show ?case by simp
next
  case (Cons x xs)
  have "runs (f x) (P x)" "runs (mapM f xs) (list_all2 P xs)" using Cons by simp_all
  then show ?case by (auto simp: runs_def)
qed

lemma runs_foldM:
  assumes "P s" and "\<And>s x. P s \<Longrightarrow> x \<in> set xs \<Longrightarrow> runs (f s x) P"
  shows "runs (foldM f s xs) P"
  using assms
proof (induction xs arbitrary: s)
  case Nil
  then show ?case by simp
next
  case (Cons x xs)
  have "runs (f s x) P" using Cons.prems by simp
  then have "runs (f s x) (\<lambda>s'. runs (foldM f s' xs) P)"
    by (rule runs_mono) (rule Cons.IH, auto intro: Cons.prems(2))
  then show ?case by simp
qed

subsection \<open>Indexing, slices and vectors\<close>

text \<open>
  \<open>xs[i]\<close>, \<open>xs[i] = v\<close>, \<open>a - b\<close> on \<open>usize\<close>, \<open>&xs[a..b]\<close>,
  \<open>xs[a..b].fill(v)\<close>, \<open>xs.copy_within(a..b, d)\<close>, \<open>VecDeque::insert\<close> and
  \<open>Ord::clamp\<close>: each panics exactly where the standard library does.
\<close>

definition index :: "'a list \<Rightarrow> nat \<Rightarrow> 'a option" where
  "index xs i = (if i < length xs then Some (xs ! i) else None)"

definition store :: "'a list \<Rightarrow> nat \<Rightarrow> 'a \<Rightarrow> 'a list option" where
  "store xs i v = (if i < length xs then Some (xs[i := v]) else None)"

definition usub :: "nat \<Rightarrow> nat \<Rightarrow> nat option" where
  "usub a b = (if b \<le> a then Some (a - b) else None)"

definition slice :: "'a list \<Rightarrow> nat \<Rightarrow> nat \<Rightarrow> 'a list option" where
  "slice xs a b = (if a \<le> b \<and> b \<le> length xs then Some (take (b - a) (drop a xs)) else None)"

definition fill_range :: "'a list \<Rightarrow> nat \<Rightarrow> nat \<Rightarrow> 'a \<Rightarrow> 'a list option" where
  "fill_range xs a b v =
     (if a \<le> b \<and> b \<le> length xs then Some (take a xs @ replicate (b - a) v @ drop b xs) else None)"

definition copy_within :: "'a list \<Rightarrow> nat \<Rightarrow> nat \<Rightarrow> nat \<Rightarrow> 'a list option" where
  "copy_within xs a b d =
     (if a \<le> b \<and> b \<le> length xs \<and> d + (b - a) \<le> length xs
      then Some (take d xs @ take (b - a) (drop a xs) @ drop (d + (b - a)) xs) else None)"

definition insert_at :: "'a list \<Rightarrow> nat \<Rightarrow> 'a \<Rightarrow> 'a list option" where
  "insert_at xs i v = (if i \<le> length xs then Some (take i xs @ v # drop i xs) else None)"

text \<open>\<open>VecDeque::remove\<close> out of range is a no-op (its \<open>None\<close> is discarded by the code).\<close>

definition remove_at :: "'a list \<Rightarrow> nat \<Rightarrow> 'a list" where
  "remove_at xs i = take i xs @ drop (Suc i) xs"

text \<open>\<open>Vec::resize\<close>.\<close>

definition resize :: "'a list \<Rightarrow> nat \<Rightarrow> 'a \<Rightarrow> 'a list" where
  "resize xs n v = take n xs @ replicate (n - length xs) v"

definition clamp :: "'a::linorder \<Rightarrow> 'a \<Rightarrow> 'a \<Rightarrow> 'a option" where
  "clamp x lo hi = (if lo \<le> hi then Some (max lo (min x hi)) else None)"

text \<open>\<open>Iterator::rposition\<close>: the index of the last element with the property.\<close>

fun rposition :: "('a \<Rightarrow> bool) \<Rightarrow> 'a list \<Rightarrow> nat option" where
  "rposition p [] = None"
| "rposition p (x # xs) =
     (case rposition p xs of Some i \<Rightarrow> Some (Suc i) | None \<Rightarrow> if p x then Some 0 else None)"

text \<open>\<open>Iterator::position\<close>: the index of the first element with the property.\<close>

fun position :: "('a \<Rightarrow> bool) \<Rightarrow> 'a list \<Rightarrow> nat option" where
  "position p [] = None"
| "position p (x # xs) = (if p x then Some 0 else map_option Suc (position p xs))"

text \<open>
  \<open>slice::split\<close> on one separator, \<open>strip_prefix\<close>, \<open>Iterator::find_map\<close>, and a
  literal of the source as bytes.
\<close>

fun split_on :: "'a \<Rightarrow> 'a list \<Rightarrow> 'a list list" where
  "split_on sep [] = [[]]"
| "split_on sep (x # xs) =
     (if x = sep then [] # split_on sep xs
      else (case split_on sep xs of [] \<Rightarrow> [[x]] | p # ps \<Rightarrow> (x # p) # ps))"

definition strip_prefix :: "'a list \<Rightarrow> 'a list \<Rightarrow> 'a list option" where
  "strip_prefix p xs = (if take (length p) xs = p then Some (drop (length p) xs) else None)"

fun find_map :: "('a \<Rightarrow> 'b option) \<Rightarrow> 'a list \<Rightarrow> 'b option" where
  "find_map f [] = None"
| "find_map f (x # xs) = (case f x of Some y \<Rightarrow> Some y | None \<Rightarrow> find_map f xs)"

definition ascii :: "string \<Rightarrow> bytes" where
  "ascii s = map of_char s"

lemma runs_index [simp]: "runs (index xs i) P \<longleftrightarrow> i < length xs \<and> P (xs ! i)"
  by (auto simp: index_def)

lemma runs_store [simp]: "runs (store xs i v) P \<longleftrightarrow> i < length xs \<and> P (xs[i := v])"
  by (auto simp: store_def)

lemma runs_usub [simp]: "runs (usub a b) P \<longleftrightarrow> b \<le> a \<and> P (a - b)"
  by (auto simp: usub_def)

lemma runs_slice [simp]:
  "runs (slice xs a b) P \<longleftrightarrow> a \<le> b \<and> b \<le> length xs \<and> P (take (b - a) (drop a xs))"
  by (auto simp: slice_def)

lemma runs_fill_range [simp]:
  "runs (fill_range xs a b v) P \<longleftrightarrow>
     a \<le> b \<and> b \<le> length xs \<and> P (take a xs @ replicate (b - a) v @ drop b xs)"
  by (auto simp: fill_range_def)

lemma runs_copy_within [simp]:
  "runs (copy_within xs a b d) P \<longleftrightarrow>
     a \<le> b \<and> b \<le> length xs \<and> d + (b - a) \<le> length xs \<and>
     P (take d xs @ take (b - a) (drop a xs) @ drop (d + (b - a)) xs)"
  by (auto simp: copy_within_def)

lemma runs_insert_at [simp]:
  "runs (insert_at xs i v) P \<longleftrightarrow> i \<le> length xs \<and> P (take i xs @ v # drop i xs)"
  by (auto simp: insert_at_def)

lemma runs_clamp [simp]:
  "runs (clamp x lo hi) P \<longleftrightarrow> lo \<le> hi \<and> P (max lo (min x hi))"
  by (auto simp: clamp_def)

lemma length_resize [simp]: "length (resize xs n v) = n"
  by (simp add: resize_def)

lemma set_resize: "set (resize xs n v) \<subseteq> insert v (set xs)"
  by (auto simp: resize_def dest: in_set_takeD)

lemma rposition_Some: "rposition p xs = Some i \<Longrightarrow> i < length xs \<and> p (xs ! i)"
  by (induction xs arbitrary: i) (auto split: option.splits if_splits)

lemma rposition_None: "rposition p xs = None \<longleftrightarrow> (\<forall>x \<in> set xs. \<not> p x)"
  by (induction xs) (auto split: option.splits)

lemma rposition_last:
  "rposition p xs = Some i \<Longrightarrow> i < j \<Longrightarrow> j < length xs \<Longrightarrow> \<not> p (xs ! j)"
proof (induction xs arbitrary: i j)
  case Nil
  then show ?case by simp
next
  case (Cons x xs)
  then show ?case
    by (cases j) (auto simp: rposition_None split: option.splits if_splits)
qed

lemma position_Some: "position p xs = Some i \<Longrightarrow> i < length xs \<and> p (xs ! i)"
  by (induction xs arbitrary: i) (auto split: if_splits)

lemma position_first: "position p xs = Some i \<Longrightarrow> j < i \<Longrightarrow> \<not> p (xs ! j)"
proof (induction xs arbitrary: i j)
  case Nil
  then show ?case by simp
next
  case (Cons x xs)
  then show ?case by (cases j) (auto split: if_splits)
qed

lemma position_None: "position p xs = None \<longleftrightarrow> (\<forall>x \<in> set xs. \<not> p x)"
  by (induction xs) auto

lemma set_take_subset: "set (take n xs) \<subseteq> set xs"
  by (rule set_take_subset)

lemma in_set_update: "x \<in> set (xs[i := v]) \<Longrightarrow> x = v \<or> x \<in> set xs"
  using set_update_subset_insert by fastforce

subsection \<open>Single bits of a word\<close>

lemma and_bit_nonzero: "w AND 2 ^ n \<noteq> 0 \<longleftrightarrow> bit w n" for w :: "'a::len word"
  by (simp add: and_exp_eq_0_iff_not_bit)

lemma bit_small: "unat w < 2 ^ k \<Longrightarrow> k \<le> n \<Longrightarrow> \<not> bit w n" for w :: "'a::len word"
proof
  assume w: "unat w < 2 ^ k" and kn: "k \<le> n" and b: "bit w n"
  have "bit (unat w) n" using b by transfer (simp add: bit_nat_iff bit_simps)
  then have "2 ^ n \<le> unat w"
    by (metis bit_iff_odd div_less even_zero linorder_not_less)
  moreover have "(2::nat) ^ k \<le> 2 ^ n" using kn by simp
  ultimately show False using w by linarith
qed

end
