(* ===== verification/Rust_Std.thy ===== *)
theory Rust_Std
  imports Prelude
begin

text \<open>
  The parts of the Rust standard library on text that the modelled code relies on.  A Rust
  \<open>char\<close> is its scalar value (a \<open>u32\<close>); a \<open>String\<close> is its UTF-8 byte sequence, so that
  \<open>String::len\<close> is \<open>length\<close> and \<open>as_bytes\<close> is the identity.
\<close>

definition is_scalar :: "u32 \<Rightarrow> bool" where
  "is_scalar c \<longleftrightarrow> c < 0xD800 \<or> (0xDFFF < c \<and> c < 0x110000)"

text \<open>\<open>char::from_u32\<close>.\<close>

definition char_from_u32 :: "u32 \<Rightarrow> u32 option" where
  "char_from_u32 c = (if is_scalar c then Some c else None)"

definition replacement_char :: u32 where
  "replacement_char = 0xFFFD"

text \<open>\<open>char::encode_utf8\<close>.\<close>

definition encode_utf8 :: "u32 \<Rightarrow> bytes" where
  "encode_utf8 c =
     (if c < 0x80 then [ucast c]
      else if c < 0x800 then
        [0xC0 OR ucast (drop_bit 6 c), 0x80 OR (ucast c AND 0x3F)]
      else if c < 0x10000 then
        [0xE0 OR ucast (drop_bit 12 c), 0x80 OR (ucast (drop_bit 6 c) AND 0x3F),
         0x80 OR (ucast c AND 0x3F)]
      else
        [0xF0 OR ucast (drop_bit 18 c), 0x80 OR (ucast (drop_bit 12 c) AND 0x3F),
         0x80 OR (ucast (drop_bit 6 c) AND 0x3F), 0x80 OR (ucast c AND 0x3F)])"

text \<open>Decimal formatting of an unsigned integer (\<open>{}\<close> of \<open>format!\<close>, \<open>to_string\<close>).\<close>

fun dec :: "nat \<Rightarrow> bytes" where
  "dec n = (if n < 10 then [0x30 + of_nat n] else dec (n div 10) @ [0x30 + of_nat (n mod 10)])"

declare dec.simps [simp del]

subsection \<open>Words as numbers\<close>

lemma unat_or_push:
  fixes x y :: "'a::len word"
  assumes "unat x * 2 ^ n + unat y < 2 ^ LENGTH('a)" and "unat y < 2 ^ n"
  shows "unat (push_bit n x OR y) = unat x * 2 ^ n + unat y"
proof -
  have px: "unat (push_bit n x) = unat x * 2 ^ n"
    using assms(1) by (subst unsigned_push_bit_eq) (simp add: push_bit_eq_mult take_bit_eq_mod)
  have "unat (push_bit n x OR y) = push_bit n (unat x) OR unat y"
    using px by (simp add: unsigned_or_eq push_bit_eq_mult)
  also have "\<dots> = push_bit n (unat x) + unat y"
  proof (rule disjunctive_add [symmetric])
    fix k
    show "\<not> bit (push_bit n (unat x)) k \<or> \<not> bit (unat y) k"
    proof (cases "k < n")
      case True
      then show ?thesis by (simp add: bit_push_bit_iff)
    next
      case False
      then have "unat y < 2 ^ k"
        using assms(2) by (metis less_le_trans linorder_not_less one_le_numeral power_increasing)
      then show ?thesis by (simp add: bit_iff_odd)
    qed
  qed
  finally show ?thesis by (simp add: push_bit_eq_mult)
qed

lemma unat_and_mask: "unat (w AND mask n) = unat w mod 2 ^ n" for w :: "'a::len word"
  by (simp only: take_bit_eq_mask [symmetric] unsigned_take_bit_eq take_bit_eq_mod [where 'a = nat])

lemma unat_drop_bit_div: "unat (drop_bit n w) = unat w div 2 ^ n" for w :: "'a::len word"
  by (simp only: unat_drop_bit_eq drop_bit_eq_div [where 'a = nat])

lemma mask_numerals:
  "(0x3f :: 'a::len word) = mask 6" "(0x1f :: 'a::len word) = mask 5"
  "(0x0f :: 'a::len word) = mask 4" "(0x07 :: 'a::len word) = mask 3"
  by (simp_all add: mask_eq_exp_minus_1)

lemma unat_ucast8: "unat (ucast (w :: u32) :: u8) = unat w mod 256"
  by (simp add: unsigned_ucast_eq take_bit_eq_mod)

lemma unat_u8_less: "unat (w :: u8) < 256"
  using unsigned_less [of w, where 'a = nat] by simp

lemma unat_ucast32: "unat (ucast (w :: u8) :: u32) = unat w"
  using unat_u8_less [of w] by (simp add: unsigned_ucast_eq take_bit_eq_mod)

lemma lead_or:
  "unat y < 32 \<Longrightarrow> unat (0xC0 OR y) = 192 + unat y"
  "unat y < 16 \<Longrightarrow> unat (0xE0 OR y) = 224 + unat y"
  "unat y < 8 \<Longrightarrow> unat (0xF0 OR y) = 240 + unat y"
  "unat y < 64 \<Longrightarrow> unat (0x80 OR y) = 128 + unat y"
  for y :: u8
  using unat_or_push [of 6 5 y] unat_or_push [of 14 4 y] unat_or_push [of 30 3 y]
    unat_or_push [of 2 6 y]
  by (simp_all add: push_bit_eq_mult)

lemmas unat_bits = unat_ucast8 unat_ucast32 mask_numerals unat_and_mask unat_drop_bit_div

text \<open>The encoder as arithmetic on the scalar value.\<close>

lemma encode_utf8_nat:
  "map unat (encode_utf8 c) =
     (let n = unat c in
      if n < 0x80 then [n]
      else if n < 0x800 then [0xC0 + n div 64, 0x80 + n mod 64]
      else if n < 0x10000 then [0xE0 + n div 4096, 0x80 + n div 64 mod 64, 0x80 + n mod 64]
      else [0xF0 + n div 262144, 0x80 + n div 4096 mod 64, 0x80 + n div 64 mod 64,
            0x80 + n mod 64])"
  if "unat c < 0x200000"
  using that
  by (auto simp: encode_utf8_def Let_def word_less_nat_alt lead_or unat_bits mod_mod_cancel)

lemma map_unat_inject: "map unat xs = map unat ys \<longleftrightarrow> xs = ys" for xs ys :: bytes
  by (rule inj_map_eq_map) (auto simp: inj_on_def word_unat_eq_iff)

lemma is_scalar_nat: "is_scalar c \<longleftrightarrow> unat c < 0xD800 \<or> (0xDFFF < unat c \<and> unat c < 0x110000)"
  by (simp add: is_scalar_def word_less_nat_alt)

lemma length_encode_utf8: "length (encode_utf8 c) \<le> 4" "encode_utf8 c \<noteq> []"
  by (simp_all add: encode_utf8_def)

subsection \<open>Lossy conversion\<close>

text \<open>
  One step of \<open>String::from_utf8_lossy\<close>: how many bytes the next chunk takes and whether it is
  a character; an ill-formed chunk is the longest prefix of a well-formed sequence.
\<close>

definition is_cont :: "u8 \<Rightarrow> bool" where
  "is_cont b \<longleftrightarrow> 0x80 \<le> b \<and> b \<le> 0xBF"

definition second_ok :: "u8 \<Rightarrow> u8 \<Rightarrow> bool" where
  "second_ok b0 b1 \<longleftrightarrow>
     (if b0 = 0xE0 then 0xA0 \<le> b1 \<and> b1 \<le> 0xBF
      else if b0 = 0xED then 0x80 \<le> b1 \<and> b1 \<le> 0x9F
      else if b0 = 0xF0 then 0x90 \<le> b1 \<and> b1 \<le> 0xBF
      else if b0 = 0xF4 then 0x80 \<le> b1 \<and> b1 \<le> 0x8F
      else is_cont b1)"

definition seq_width :: "u8 \<Rightarrow> nat" where
  "seq_width b =
     (if b < 0x80 then 1 else if 0xC2 \<le> b \<and> b \<le> 0xDF then 2
      else if 0xE0 \<le> b \<and> b \<le> 0xEF then 3 else if 0xF0 \<le> b \<and> b \<le> 0xF4 then 4 else 0)"

fun lossy_chunk :: "bytes \<Rightarrow> nat \<times> bool" where
  "lossy_chunk [] = (0, False)"
| "lossy_chunk (b0 # bs) =
     (if seq_width b0 \<le> 1 then (1, seq_width b0 = 1)
      else case bs of
        [] \<Rightarrow> (1, False)
      | b1 # cs \<Rightarrow>
        (if \<not> second_ok b0 b1 then (1, False)
         else if seq_width b0 = 2 then (2, True)
         else case cs of
           [] \<Rightarrow> (2, False)
         | b2 # ds \<Rightarrow>
           (if \<not> is_cont b2 then (2, False)
            else if seq_width b0 = 3 then (3, True)
            else case ds of
              [] \<Rightarrow> (3, False)
            | b3 # _ \<Rightarrow> if is_cont b3 then (4, True) else (3, False))))"

lemma lossy_chunk_pos: "bs \<noteq> [] \<Longrightarrow> 0 < fst (lossy_chunk bs)"
  by (cases bs) (auto split: list.splits)

function from_utf8_lossy :: "bytes \<Rightarrow> bytes" where
  "from_utf8_lossy bs =
     (if bs = [] then []
      else (if snd (lossy_chunk bs) then take (fst (lossy_chunk bs)) bs
            else encode_utf8 replacement_char)
           @ from_utf8_lossy (drop (fst (lossy_chunk bs)) bs))"
  by pat_completeness auto
termination
proof (relation "measure length", goal_cases)
  case 1
  then show ?case by simp
next
  case (2 bs)
  then show ?case using lossy_chunk_pos [of bs] by (cases bs) auto
qed

declare from_utf8_lossy.simps [simp del]

end
