(* ===== verification/Vt_Parser.thy ===== *)
theory Vt_Parser
  imports Rust_Std
begin

text \<open>
  The byte-level escape-sequence parser of \<open>src/src/screen_replay/parser.rs\<close>: the CSI
  parameter list, the incremental UTF-8 decoder and the DEC/ECMA-48 state machine.  The trait
  \<open>Perform\<close> is the type of events; a callback of the source is an event of the model, in the
  order the source makes the calls.
\<close>

subsection \<open>CSI parameters\<close>

definition MAX_PARAMS :: nat where "MAX_PARAMS = 32"

definition MAX_PARAM_VALUE :: int where "MAX_PARAM_VALUE = 0xffff"

definition MAX_OSC_BYTES :: nat where "MAX_OSC_BYTES = 4096"

definition MULTIPLE_INTERMEDIATES :: u8 where "MULTIPLE_INTERMEDIATES = 0xff"

text \<open>
  \<open>Params\<close>: the fixed array of 32 slots with its fill count is the list of its filled slots
  (\<open>values[..len]\<close>); slots past the fill count are never read.
\<close>

record params =
  par_values :: "int list"
  par_nonfinal :: u32
  par_current :: int
  par_started :: bool

definition params_new :: params where
  "params_new = \<lparr>par_values = [], par_nonfinal = 0, par_current = -1, par_started = False\<rparr>"

definition params_clear :: "params \<Rightarrow> params" where
  "params_clear p =
     p\<lparr>par_nonfinal := 0, par_values := [], par_current := -1, par_started := False\<rparr>"

definition push_digit :: "params \<Rightarrow> int \<Rightarrow> params" where
  "push_digit p digit =
     (let value = (if par_current p < 0 then 0 else par_current p)
      in p\<lparr>par_started := True, par_current := min (value * 10 + digit) MAX_PARAM_VALUE\<rparr>)"

definition finish_param :: "params \<Rightarrow> bool \<Rightarrow> params" where
  "finish_param p colon =
     (let q = p\<lparr>par_started := True\<rparr>;
          r = (if length (par_values q) < MAX_PARAMS
               then q\<lparr>par_values := par_values q @ [par_current q],
                      par_nonfinal := (if colon then par_nonfinal q OR push_bit (length (par_values q)) 1
                                       else par_nonfinal q)\<rparr>
               else q)
      in r\<lparr>par_current := -1\<rparr>)"

definition params_seal :: "params \<Rightarrow> params" where
  "params_seal p = (if par_started p then finish_param p False else p)"

definition params_len :: "params \<Rightarrow> nat" where
  "params_len p = length (par_values p)"

definition params_raw :: "params \<Rightarrow> nat \<Rightarrow> int" where
  "params_raw p idx = (if idx < params_len p then par_values p ! idx else -1)"

definition params_get :: "params \<Rightarrow> nat \<Rightarrow> int \<Rightarrow> int" where
  "params_get p idx dflt = (let v = params_raw p idx in if v = -1 then dflt else v)"

definition is_nonfinal :: "params \<Rightarrow> nat \<Rightarrow> bool" where
  "is_nonfinal p idx \<longleftrightarrow> idx < params_len p \<and> par_nonfinal p AND push_bit idx 1 \<noteq> 0"

function params_next :: "params \<Rightarrow> nat \<Rightarrow> nat" where
  "params_next p idx = (if is_nonfinal p idx then params_next p (idx + 1) else idx + 1)"
  by pat_completeness auto
termination
  by (relation "measure (\<lambda>(p, idx). params_len p - idx)") (auto simp: is_nonfinal_def)

declare params_next.simps [simp del]

definition collect1 :: "params \<Rightarrow> nat \<Rightarrow> int \<Rightarrow> int \<Rightarrow> int \<Rightarrow> int" where
  "collect1 p idx dflt lo hi = max (min (params_get p idx dflt) hi) lo"

subsection \<open>The UTF-8 decoder\<close>

text \<open>\<open>Utf8\<close>; the array \<open>pending\<close> with its fill count is the list of its filled bytes.\<close>

record utf8 =
  ucode :: u32
  uneed :: nat
  ulower :: u8
  uupper :: u8
  upending :: bytes

definition utf8_default :: utf8 where
  "utf8_default = \<lparr>ucode = 0, uneed = 0, ulower = 0, uupper = 0, upending = []\<rparr>"

datatype utf8_step = Pending | Char u32 | Invalid bool

definition utf8_idle :: "utf8 \<Rightarrow> bool" where
  "utf8_idle u \<longleftrightarrow> uneed u = 0"

text \<open>The table of lead bytes: continuation bytes needed, range of the first one, code bits.\<close>

definition utf8_lead :: "u8 \<Rightarrow> (nat \<times> u8 \<times> u8 \<times> u32) option" where
  "utf8_lead b =
     (if 0xc2 \<le> b \<and> b \<le> 0xdf then Some (1, 0x80, 0xbf, ucast (b AND 0x1f))
      else if b = 0xe0 then Some (2, 0xa0, 0xbf, ucast (b AND 0x0f))
      else if (0xe1 \<le> b \<and> b \<le> 0xec) \<or> (0xee \<le> b \<and> b \<le> 0xef)
        then Some (2, 0x80, 0xbf, ucast (b AND 0x0f))
      else if b = 0xed then Some (2, 0x80, 0x9f, ucast (b AND 0x0f))
      else if b = 0xf0 then Some (3, 0x90, 0xbf, ucast (b AND 0x07))
      else if 0xf1 \<le> b \<and> b \<le> 0xf3 then Some (3, 0x80, 0xbf, ucast (b AND 0x07))
      else if b = 0xf4 then Some (3, 0x80, 0x8f, ucast (b AND 0x07))
      else None)"

definition utf8_push :: "utf8 \<Rightarrow> u8 \<Rightarrow> utf8 \<times> utf8_step" where
  "utf8_push u b =
     (if uneed u = 0 then
        (if b \<le> 0x7f then (u, Char (ucast b))
         else case utf8_lead b of
           None \<Rightarrow> (u, Invalid False)
         | Some (need, lower, upper, code) \<Rightarrow>
             (\<lparr>ucode = code, uneed = need, ulower = lower, uupper = upper, upending = [b]\<rparr>, Pending))
      else if b < ulower u \<or> uupper u < b then (utf8_default, Invalid True)
      else
        (let code = push_bit 6 (ucode u) OR ucast (b AND 0x3f); need = uneed u - 1
         in if need = 0 then (utf8_default, Char code)
            else (\<lparr>ucode = code, uneed = need, ulower = 0x80, uupper = 0xbf,
                   upending = upending u @ [b]\<rparr>, Pending)))"

subsection \<open>The state machine\<close>

datatype pstate = Ground | Escape | EscapeIntermediate | CsiEntry | CsiParam | CsiIntermediate
  | CsiIgnore | Osc | IgnoredString | StringEscape bool

text \<open>The calls of the trait \<open>Perform\<close>.\<close>

datatype event = EvPrintAscii bytes | EvPrint u32 | EvExecute u32
  | EvCsi params u8 u8 u8 | EvEsc u8 u8 | EvOsc bytes

record parser =
  p_state :: pstate
  p_utf8 :: utf8
  p_params :: params
  p_prefix :: u8
  p_inter :: u8
  p_osc :: bytes
  p_overflow :: bool

definition parser_new :: parser where
  "parser_new = \<lparr>p_state = Ground, p_utf8 = utf8_default, p_params = params_new, p_prefix = 0,
     p_inter = 0, p_osc = [], p_overflow = False\<rparr>"

definition clear_sequence :: "parser \<Rightarrow> parser" where
  "clear_sequence p = p\<lparr>p_params := params_clear (p_params p), p_prefix := 0, p_inter := 0\<rparr>"

definition collect_intermediate :: "parser \<Rightarrow> u8 \<Rightarrow> parser" where
  "collect_intermediate p b =
     p\<lparr>p_inter := (if p_inter p = 0 then b else MULTIPLE_INTERMEDIATES)\<rparr>"

definition start_string :: "parser \<Rightarrow> bool \<Rightarrow> parser" where
  "start_string p osc =
     (if osc then p\<lparr>p_osc := [], p_overflow := False, p_state := Osc\<rparr>
      else p\<lparr>p_state := IgnoredString\<rparr>)"

definition finish_string :: "parser \<Rightarrow> bool \<Rightarrow> parser \<times> event list" where
  "finish_string p osc =
     (p\<lparr>p_osc := [], p_state := Ground\<rparr>,
      if osc \<and> \<not> p_overflow p then [EvOsc (p_osc p)] else [])"

text \<open>Transitions that apply in every state; \<open>None\<close> when none does.\<close>

definition anywhere :: "parser \<Rightarrow> u32 \<Rightarrow> (parser \<times> event list) option" where
  "anywhere p code =
     (if code = 0x18 \<or> code = 0x1a then
        Some (p\<lparr>p_osc := [], p_state := Ground\<rparr>,
              if code = 0x1a then [EvPrint replacement_char] else [])
      else if code = 0x1b then
        Some (case p_state p of
                Osc \<Rightarrow> p\<lparr>p_state := StringEscape True\<rparr>
              | IgnoredString \<Rightarrow> p\<lparr>p_state := StringEscape False\<rparr>
              | _ \<Rightarrow> (clear_sequence p)\<lparr>p_state := Escape\<rparr>, [])
      else if code = 0x9c \<and> (p_state p = Osc \<or> p_state p = IgnoredString) then
        Some (finish_string p (p_state p = Osc))
      else if 0x80 \<le> code \<and> code \<le> 0x9f then
        (let q = (clear_sequence (p\<lparr>p_osc := []\<rparr>))\<lparr>p_state := Ground\<rparr>
         in if code = 0x90 \<or> code = 0x98 \<or> code = 0x9e \<or> code = 0x9f then
              Some (start_string q False, [])
            else if code = 0x9b then Some (q\<lparr>p_state := CsiEntry\<rparr>, [])
            else if code = 0x9d then Some (start_string q True, [])
            else if code = 0x9c then Some (q, [])
            else Some (q, [EvExecute code]))
      else None)"

definition ground_state :: "parser \<Rightarrow> u32 \<Rightarrow> parser \<times> event list" where
  "ground_state p code =
     (if code \<le> 0x1f then (p, [EvExecute code])
      else if code = 0x7f then (p, [])
      else (p, [EvPrint (case char_from_u32 code of Some c \<Rightarrow> c | None \<Rightarrow> replacement_char)]))"

definition escape_state :: "parser \<Rightarrow> u32 \<Rightarrow> parser \<times> event list" where
  "escape_state p code =
     (if code \<le> 0x1f then (p, [EvExecute code])
      else if code \<le> 0x2f then
        ((collect_intermediate p (ucast code))\<lparr>p_state := EscapeIntermediate\<rparr>, [])
      else if code = 0x5b then ((clear_sequence p)\<lparr>p_state := CsiEntry\<rparr>, [])
      else if code = 0x5d then (start_string p True, [])
      else if code = 0x50 \<or> code = 0x58 \<or> code = 0x5e \<or> code = 0x5f then (start_string p False, [])
      else if code \<le> 0x7e then (p\<lparr>p_state := Ground\<rparr>, [EvEsc 0 (ucast code)])
      else if code = 0x7f then (p, [])
      else (p\<lparr>p_state := Ground\<rparr>, []))"

definition escape_intermediate_state :: "parser \<Rightarrow> u32 \<Rightarrow> parser \<times> event list" where
  "escape_intermediate_state p code =
     (if code \<le> 0x1f then (p, [EvExecute code])
      else if code \<le> 0x2f then (collect_intermediate p (ucast code), [])
      else if code \<le> 0x7e then (p\<lparr>p_state := Ground\<rparr>, [EvEsc (p_inter p) (ucast code)])
      else if code = 0x7f then (p, [])
      else (p\<lparr>p_state := Ground\<rparr>, []))"

definition csi_param_state :: "parser \<Rightarrow> u32 \<Rightarrow> parser \<times> event list" where
  "csi_param_state p code =
     (if code \<le> 0x1f then (p, [EvExecute code])
      else if 0x30 \<le> code \<and> code \<le> 0x39 then
        (p\<lparr>p_params := push_digit (p_params p) (uint (code - 0x30)), p_state := CsiParam\<rparr>, [])
      else if code = 0x3a then
        (p\<lparr>p_params := finish_param (p_params p) True, p_state := CsiParam\<rparr>, [])
      else if code = 0x3b then
        (p\<lparr>p_params := finish_param (p_params p) False, p_state := CsiParam\<rparr>, [])
      else if 0x3c \<le> code \<and> code \<le> 0x3f then
        (if p_state p = CsiEntry then p\<lparr>p_prefix := ucast code, p_state := CsiParam\<rparr>
         else p\<lparr>p_state := CsiIgnore\<rparr>, [])
      else if code \<le> 0x2f then
        ((collect_intermediate (p\<lparr>p_params := params_seal (p_params p)\<rparr>) (ucast code))
           \<lparr>p_state := CsiIntermediate\<rparr>, [])
      else if code \<le> 0x7e then
        (let q = p\<lparr>p_params := params_seal (p_params p), p_state := Ground\<rparr>
         in (q, [EvCsi (p_params q) (p_prefix q) (p_inter q) (ucast code)]))
      else if code = 0x7f then (p, [])
      else (p\<lparr>p_state := CsiIgnore\<rparr>, []))"

definition csi_intermediate_state :: "parser \<Rightarrow> u32 \<Rightarrow> parser \<times> event list" where
  "csi_intermediate_state p code =
     (if code \<le> 0x1f then (p, [EvExecute code])
      else if code \<le> 0x2f then (collect_intermediate p (ucast code), [])
      else if 0x40 \<le> code \<and> code \<le> 0x7e then
        (p\<lparr>p_state := Ground\<rparr>, [EvCsi (p_params p) (p_prefix p) (p_inter p) (ucast code)])
      else if code = 0x7f then (p, [])
      else (p\<lparr>p_state := CsiIgnore\<rparr>, []))"

definition csi_ignore_state :: "parser \<Rightarrow> u32 \<Rightarrow> parser \<times> event list" where
  "csi_ignore_state p code =
     (if code \<le> 0x1f then (p, [EvExecute code])
      else if 0x40 \<le> code \<and> code \<le> 0x7e then (p\<lparr>p_state := Ground\<rparr>, [])
      else (p, []))"

definition osc_state :: "parser \<Rightarrow> u32 \<Rightarrow> parser \<times> event list" where
  "osc_state p code =
     (if code = 0x07 then finish_string p True
      else if code \<le> 0x1f then (p, [])
      else if MAX_OSC_BYTES < length (p_osc p) + 4 then (p\<lparr>p_overflow := True\<rparr>, [])
      else case char_from_u32 code of
          Some c \<Rightarrow> (p\<lparr>p_osc := p_osc p @ encode_utf8 c\<rparr>, [])
        | None \<Rightarrow> (p, []))"

function code_point :: "parser \<Rightarrow> u32 \<Rightarrow> parser \<times> event list" where
  "code_point p code =
     (case anywhere p code of
        Some r \<Rightarrow> r
      | None \<Rightarrow>
        (case p_state p of
           Ground \<Rightarrow> ground_state p code
         | Escape \<Rightarrow> escape_state p code
         | EscapeIntermediate \<Rightarrow> escape_intermediate_state p code
         | CsiEntry \<Rightarrow> csi_param_state p code
         | CsiParam \<Rightarrow> csi_param_state p code
         | CsiIntermediate \<Rightarrow> csi_intermediate_state p code
         | CsiIgnore \<Rightarrow> csi_ignore_state p code
         | Osc \<Rightarrow> osc_state p code
         | IgnoredString \<Rightarrow> (p, [])
         | StringEscape osc \<Rightarrow>
             (if code = 0x5c then finish_string p osc
              else code_point ((clear_sequence (p\<lparr>p_osc := []\<rparr>))\<lparr>p_state := Escape\<rparr>) code)))"
  by pat_completeness auto
termination
  by (relation "measure (\<lambda>(p, code). case p_state p of StringEscape _ \<Rightarrow> 1 | _ \<Rightarrow> 0)") auto

declare code_point.simps [simp del]

lemmas parser_op_defs =
  finish_string_def start_string_def clear_sequence_def collect_intermediate_def Let_def

lemmas state_defs =
  ground_state_def escape_state_def escape_intermediate_state_def csi_param_state_def
  csi_intermediate_state_def csi_ignore_state_def osc_state_def

lemma anywhere_utf8: "anywhere p code = Some r \<Longrightarrow> p_utf8 (fst r) = p_utf8 p"
  by (auto simp: anywhere_def parser_op_defs split: if_splits pstate.splits)

lemma states_utf8:
  "p_utf8 (fst (ground_state p code)) = p_utf8 p"
  "p_utf8 (fst (escape_state p code)) = p_utf8 p"
  "p_utf8 (fst (escape_intermediate_state p code)) = p_utf8 p"
  "p_utf8 (fst (csi_param_state p code)) = p_utf8 p"
  "p_utf8 (fst (csi_intermediate_state p code)) = p_utf8 p"
  "p_utf8 (fst (csi_ignore_state p code)) = p_utf8 p"
  "p_utf8 (fst (osc_state p code)) = p_utf8 p"
  by (simp_all add: state_defs parser_op_defs split: option.split)

lemma code_point_cases:
  "code_point p code =
     (case anywhere p code of
        Some r \<Rightarrow> r
      | None \<Rightarrow>
        (case p_state p of
           Ground \<Rightarrow> ground_state p code
         | Escape \<Rightarrow> escape_state p code
         | EscapeIntermediate \<Rightarrow> escape_intermediate_state p code
         | CsiEntry \<Rightarrow> csi_param_state p code
         | CsiParam \<Rightarrow> csi_param_state p code
         | CsiIntermediate \<Rightarrow> csi_intermediate_state p code
         | CsiIgnore \<Rightarrow> csi_ignore_state p code
         | Osc \<Rightarrow> osc_state p code
         | IgnoredString \<Rightarrow> (p, [])
         | StringEscape osc \<Rightarrow>
             (if code = 0x5c then finish_string p osc
              else escape_state ((clear_sequence (p\<lparr>p_osc := []\<rparr>))\<lparr>p_state := Escape\<rparr>) code)))"
proof (cases "\<exists>osc. p_state p = StringEscape osc \<and> anywhere p code = None \<and> code \<noteq> 0x5c")
  case True
  then obtain osc where st: "p_state p = StringEscape osc" and none: "anywhere p code = None"
    and code: "code \<noteq> 0x5c" by blast
  let ?q = "(clear_sequence (p\<lparr>p_osc := []\<rparr>))\<lparr>p_state := Escape\<rparr>"
  have "anywhere ?q code = None"
    using none by (auto simp: anywhere_def parser_op_defs split: if_splits)
  then have "code_point ?q code = escape_state ?q code"
    by (subst code_point.simps) simp
  then show ?thesis
    by (subst code_point.simps) (simp add: st none code)
next
  case False
  then show ?thesis
    by (subst code_point.simps) (auto split: option.split pstate.split)
qed

lemma code_point_utf8: "p_utf8 (fst (code_point p code)) = p_utf8 p"
proof (cases "anywhere p code")
  case None
  have "p_utf8 ((clear_sequence (p\<lparr>p_osc := []\<rparr>))\<lparr>p_state := Escape\<rparr>) = p_utf8 p"
    and "p_utf8 (fst (finish_string p osc)) = p_utf8 p" for osc
    by (simp_all add: parser_op_defs)
  with None show ?thesis
    by (simp add: code_point_cases states_utf8 split: pstate.split)
next
  case (Some r)
  then show ?thesis by (simp add: code_point_cases anywhere_utf8)
qed

definition printable_ascii :: "u8 \<Rightarrow> bool" where
  "printable_ascii b \<longleftrightarrow> 0x20 \<le> b \<and> b < 0x7f"

lemma retry_decreases:
  assumes "(u, Invalid True) = utf8_push (p_utf8 p) b"
    and "(q, es) = code_point (p\<lparr>p_utf8 := u\<rparr>) c"
  shows "uneed (p_utf8 q) < uneed (p_utf8 p)"
proof -
  have "p_utf8 q = u"
    using code_point_utf8 [of "p\<lparr>p_utf8 := u\<rparr>" c] assms(2) [symmetric] by simp
  then show ?thesis
    using assms(1)
    by (auto simp: utf8_push_def Let_def utf8_default_def split: if_splits option.splits)
qed

text \<open>The guard of the hot path.\<close>

definition in_run :: "parser \<Rightarrow> u8 \<Rightarrow> bool" where
  "in_run p b \<longleftrightarrow> p_state p = Ground \<and> utf8_idle (p_utf8 p) \<and> printable_ascii b"

text \<open>
  \<open>Parser::advance\<close>: in the ground state between characters a maximal run of printable ASCII
  goes out at once; any other byte goes through the decoder, and a byte that interrupted a
  multi-byte character is decoded again.
\<close>

function advance :: "parser \<Rightarrow> bytes \<Rightarrow> parser \<times> event list" where
  "advance p [] = (p, [])"
| "advance p (b # bs) =
     (if in_run p b then
        (let (q, es) = advance p (dropWhile printable_ascii bs)
         in (q, EvPrintAscii (b # takeWhile printable_ascii bs) # es))
      else
        (case utf8_push (p_utf8 p) b of
           (u, Pending) \<Rightarrow> advance (p\<lparr>p_utf8 := u\<rparr>) bs
         | (u, Char code) \<Rightarrow>
             (let (q, es) = code_point (p\<lparr>p_utf8 := u\<rparr>) code; (r, fs) = advance q bs
              in (r, es @ fs))
         | (u, Invalid retry) \<Rightarrow>
             (let (q, es) = code_point (p\<lparr>p_utf8 := u\<rparr>) 0xfffd;
                  (r, fs) = advance q (if retry then b # bs else bs)
              in (r, es @ fs))))"
  by pat_completeness auto
termination
proof (relation "measures [\<lambda>(p, bs). length bs, \<lambda>(p, bs). uneed (p_utf8 p)]", goal_cases)
  case (2 p b bs)
  then show ?case using length_dropWhile_le [of printable_ascii bs] by simp
qed (auto dest: retry_decreases)

declare advance.simps(2) [simp del]

text \<open>One unfolding of \<open>advance\<close> per branch.\<close>

lemma advance_run:
  "in_run p b \<Longrightarrow> advance p (b # bs) =
     (fst (advance p (dropWhile printable_ascii bs)),
      EvPrintAscii (b # takeWhile printable_ascii bs) #
        snd (advance p (dropWhile printable_ascii bs)))"
  by (simp add: advance.simps(2) split: prod.split)

lemma advance_pending:
  "\<not> in_run p b \<Longrightarrow> utf8_push (p_utf8 p) b = (u, Pending) \<Longrightarrow>
     advance p (b # bs) = advance (p\<lparr>p_utf8 := u\<rparr>) bs"
  by (simp add: advance.simps(2))

lemma advance_char:
  "\<not> in_run p b \<Longrightarrow> utf8_push (p_utf8 p) b = (u, Char c) \<Longrightarrow>
     advance p (b # bs) =
       (let r = code_point (p\<lparr>p_utf8 := u\<rparr>) c
        in (fst (advance (fst r) bs), snd r @ snd (advance (fst r) bs)))"
  by (simp add: advance.simps(2) Let_def split: prod.split)

lemma advance_invalid:
  "\<not> in_run p b \<Longrightarrow> utf8_push (p_utf8 p) b = (u, Invalid False) \<Longrightarrow>
     advance p (b # bs) =
       (let r = code_point (p\<lparr>p_utf8 := u\<rparr>) 0xfffd
        in (fst (advance (fst r) bs), snd r @ snd (advance (fst r) bs)))"
  by (simp add: advance.simps(2) Let_def split: prod.split)

lemma advance_retry:
  "\<not> in_run p b \<Longrightarrow> utf8_push (p_utf8 p) b = (u, Invalid True) \<Longrightarrow>
     advance p (b # bs) =
       (let r = code_point (p\<lparr>p_utf8 := u\<rparr>) 0xfffd
        in (fst (advance (fst r) (b # bs)), snd r @ snd (advance (fst r) (b # bs))))"
  by (subst advance.simps(2)) (simp add: Let_def split: prod.split)

subsection \<open>Continuation\<close>

text \<open>
  \<open>continuation\<close>: the bytes that bring a fresh parser to this state (side-effect strings are
  replaced by ignored ones).
\<close>

definition append_intermediate :: "parser \<Rightarrow> bytes" where
  "append_intermediate p =
     (if p_inter p = 0 then []
      else if p_inter p = MULTIPLE_INTERMEDIATES then [0x21, 0x21] else [p_inter p])"

definition continuation_params :: "bool \<Rightarrow> params \<Rightarrow> bytes" where
  "continuation_params sealed ps =
     concat (map (\<lambda>i.
         (if 0 \<le> par_values ps ! i then dec (nat (par_values ps ! i)) else [])
         @ (if \<not> sealed \<or> i + 1 < params_len ps then [if is_nonfinal ps i then 0x3a else 0x3b]
            else []))
       [0..<params_len ps])
     @ (if \<not> sealed \<and> 0 \<le> par_current ps then dec (nat (par_current ps)) else [])"

definition continuation_csi :: "parser \<Rightarrow> bool \<Rightarrow> bytes" where
  "continuation_csi p sealed =
     [0x1b, 0x5b] @ (if p_prefix p \<noteq> 0 then [p_prefix p] else [])
     @ continuation_params sealed (p_params p)
     @ (if sealed then append_intermediate p else [])"

definition continuation_osc :: "parser \<Rightarrow> bytes" where
  "continuation_osc p =
     [0x1b, 0x5d]
     @ (if \<not> p_overflow p \<and>
           (p_osc p = [] \<or> p_osc p = ascii ''8'' \<or> take 2 (p_osc p) = ascii ''8;'')
        then p_osc p else ascii ''777;jterm-ignored;'')"

definition continuation :: "parser \<Rightarrow> bytes" where
  "continuation p =
     (case p_state p of
        Ground \<Rightarrow> []
      | Escape \<Rightarrow> [0x1b]
      | EscapeIntermediate \<Rightarrow> 0x1b # append_intermediate p
      | CsiEntry \<Rightarrow> continuation_csi p False
      | CsiParam \<Rightarrow> continuation_csi p False
      | CsiIntermediate \<Rightarrow> continuation_csi p True
      | CsiIgnore \<Rightarrow> [0x1b, 0x5b, 0x30, 0x3f]
      | Osc \<Rightarrow> continuation_osc p
      | StringEscape osc \<Rightarrow>
          (if osc then continuation_osc p else [0x1b, 0x50]) @ [0x1b]
      | IgnoredString \<Rightarrow> [0x1b, 0x50])
     @ upending (p_utf8 p)"

end
