(* ===== verification/Sgr_Pen.thy ===== *)
theory Sgr_Pen
  imports Vt_Parser
begin

text \<open>
  Character attributes, \<open>src/src/screen_replay/pen.rs\<close>: what SGR selects, and the SGR codes
  that turn one style into another.
\<close>

subsection \<open>Colours and the pen\<close>

datatype color = DefaultColor | Legacy u8 | Indexed u8 | Rgb u8 u8 u8

definition BOLD :: u16 where "BOLD = 1"
definition DIM :: u16 where "DIM = 2"
definition ITALIC :: u16 where "ITALIC = 4"
definition BLINK :: u16 where "BLINK = 8"
definition REVERSE :: u16 where "REVERSE = 16"
definition INVISIBLE :: u16 where "INVISIBLE = 32"
definition STRIKE :: u16 where "STRIKE = 64"
definition OVERLINE :: u16 where "OVERLINE = 128"
definition UNDERLINE_SHIFT :: nat where "UNDERLINE_SHIFT = 8"
definition UNDERLINE_MASK :: u16 where "UNDERLINE_MASK = push_bit UNDERLINE_SHIFT 7"

lemmas flag_defs = BOLD_def DIM_def ITALIC_def BLINK_def REVERSE_def INVISIBLE_def STRIKE_def
  OVERLINE_def UNDERLINE_SHIFT_def UNDERLINE_MASK_def

text \<open>Indices into the interning tables are \<open>u32\<close> in the source and naturals here; the tables
  stay far below \<open>2 ^ 32\<close> entries because they are compacted.\<close>

record pen =
  pen_fg :: color
  pen_bg :: color
  pen_ul :: color
  pen_flags :: u16
  pen_link :: nat

definition pen_default :: pen where
  "pen_default = \<lparr>pen_fg = DefaultColor, pen_bg = DefaultColor, pen_ul = DefaultColor,
     pen_flags = 0, pen_link = 0\<rparr>"

definition underline :: "pen \<Rightarrow> u16" where
  "underline p = drop_bit UNDERLINE_SHIFT (pen_flags p AND UNDERLINE_MASK)"

definition set_underline :: "pen \<Rightarrow> u16 \<Rightarrow> pen" where
  "set_underline p style =
     p\<lparr>pen_flags := (pen_flags p AND NOT UNDERLINE_MASK) OR push_bit UNDERLINE_SHIFT (style AND 7)\<rparr>"

definition pen_erase :: "pen \<Rightarrow> pen" where
  "pen_erase p = pen_default\<lparr>pen_bg := pen_bg p\<rparr>"

definition pen_blank_is_visible :: "pen \<Rightarrow> bool" where
  "pen_blank_is_visible p \<longleftrightarrow>
     pen_bg p \<noteq> DefaultColor \<or> pen_flags p AND (REVERSE OR STRIKE OR OVERLINE) \<noteq> 0 \<or>
     underline p \<noteq> 0"

definition same_style :: "pen \<Rightarrow> pen \<Rightarrow> bool" where
  "same_style p q \<longleftrightarrow>
     pen_fg p = pen_fg q \<and> pen_bg p = pen_bg q \<and> pen_ul p = pen_ul q \<and> pen_flags p = pen_flags q"

definition is_plain :: "pen \<Rightarrow> bool" where
  "is_plain p \<longleftrightarrow> same_style p pen_default"

subsection \<open>Applying SGR\<close>

text \<open>\<open>u8::try_from\<close>.\<close>

definition u8_try :: "int \<Rightarrow> u8 option" where
  "u8_try v = (if 0 \<le> v \<and> v \<le> 255 then Some (of_int v) else None)"

definition rgb :: "int \<Rightarrow> int \<Rightarrow> int \<Rightarrow> color option" where
  "rgb r g b =
     do { r' \<leftarrow> u8_try r; g' \<leftarrow> u8_try g; b' \<leftarrow> u8_try b; Some (Rgb r' g' b') }"

text \<open>\<open>parse_color\<close>: the index it leaves behind and the colour.\<close>

definition parse_color_colon :: "params \<Rightarrow> nat \<Rightarrow> nat \<times> color option" where
  "parse_color_colon ps i =
     (let idx = i + 1; group_end = params_next ps (idx - 1) in
      if params_raw ps idx = 2 then
        (let n = group_end - idx in
         if n < 4 then (idx, None)
         else
           (let idx' = (if 4 < n then idx + 1 else idx) in
            if 4 < n \<and> params_raw ps idx' \<noteq> -1 then (idx', None)
            else (idx' + 3, rgb (params_raw ps (idx' + 1)) (params_raw ps (idx' + 2))
                              (params_raw ps (idx' + 3)))))
      else if params_raw ps idx = 5 then
        (if group_end - idx < 2 then (idx, None)
         else (idx + 1, map_option Indexed (u8_try (params_raw ps (idx + 1)))))
      else (idx, None))"

definition parse_color_semicolon :: "params \<Rightarrow> nat \<Rightarrow> nat \<times> color option" where
  "parse_color_semicolon ps i =
     (let idx = params_next ps i in
      if params_raw ps idx = 2 then
        (let ri = params_next ps idx; gi = params_next ps ri; bi = params_next ps gi
         in (bi, rgb (params_raw ps ri) (params_raw ps gi) (params_raw ps bi)))
      else if params_raw ps idx = 5 then
        (let ni = params_next ps idx in (ni, map_option Indexed (u8_try (params_raw ps ni))))
      else (idx, None))"

definition parse_color :: "params \<Rightarrow> nat \<Rightarrow> nat \<times> color option" where
  "parse_color ps i =
     (if is_nonfinal ps i then parse_color_colon ps i else parse_color_semicolon ps i)"

definition sgr_reset :: "pen \<Rightarrow> pen" where
  "sgr_reset p = pen_default\<lparr>pen_link := pen_link p\<rparr>"

text \<open>The underline style SGR 4 selects; \<open>None\<close> for a style out of range.\<close>

definition sgr_underline :: "params \<Rightarrow> nat \<Rightarrow> u16 option" where
  "sgr_underline ps i =
     (if is_nonfinal ps i then
        (let v = params_get ps (i + 1) 1 in if 0 \<le> v \<and> v \<le> 5 then Some (of_int v) else None)
      else Some 1)"

text \<open>One turn of the loop of \<open>apply_sgr\<close>: the code at index \<open>i\<close>.\<close>

definition sgr_step :: "pen \<Rightarrow> params \<Rightarrow> nat \<Rightarrow> pen \<times> nat" where
  "sgr_step p ps i =
     (let v = params_raw ps i in
      if v = -1 \<or> v = 0 then (sgr_reset p, i)
      else if v = 1 then (p\<lparr>pen_flags := pen_flags p OR BOLD\<rparr>, i)
      else if v = 2 then (p\<lparr>pen_flags := pen_flags p OR DIM\<rparr>, i)
      else if v = 3 then (p\<lparr>pen_flags := pen_flags p OR ITALIC\<rparr>, i)
      else if v = 4 then
        (case sgr_underline ps i of Some style \<Rightarrow> set_underline p style | None \<Rightarrow> p, i)
      else if v = 5 \<or> v = 6 then (p\<lparr>pen_flags := pen_flags p OR BLINK\<rparr>, i)
      else if v = 7 then (p\<lparr>pen_flags := pen_flags p OR REVERSE\<rparr>, i)
      else if v = 8 then (p\<lparr>pen_flags := pen_flags p OR INVISIBLE\<rparr>, i)
      else if v = 9 then (p\<lparr>pen_flags := pen_flags p OR STRIKE\<rparr>, i)
      else if v = 21 then (set_underline p 2, i)
      else if v = 22 then (p\<lparr>pen_flags := pen_flags p AND NOT (BOLD OR DIM)\<rparr>, i)
      else if v = 23 then (p\<lparr>pen_flags := pen_flags p AND NOT ITALIC\<rparr>, i)
      else if v = 24 then (set_underline p 0, i)
      else if v = 25 then (p\<lparr>pen_flags := pen_flags p AND NOT BLINK\<rparr>, i)
      else if v = 27 then (p\<lparr>pen_flags := pen_flags p AND NOT REVERSE\<rparr>, i)
      else if v = 28 then (p\<lparr>pen_flags := pen_flags p AND NOT INVISIBLE\<rparr>, i)
      else if v = 29 then (p\<lparr>pen_flags := pen_flags p AND NOT STRIKE\<rparr>, i)
      else if 30 \<le> v \<and> v \<le> 37 then (p\<lparr>pen_fg := Legacy (of_int (v - 30))\<rparr>, i)
      else if v = 38 then
        (let (j, c) = parse_color ps i
         in (case c of Some c' \<Rightarrow> p\<lparr>pen_fg := c'\<rparr> | None \<Rightarrow> p, j))
      else if v = 39 then (p\<lparr>pen_fg := DefaultColor\<rparr>, i)
      else if 40 \<le> v \<and> v \<le> 47 then (p\<lparr>pen_bg := Legacy (of_int (v - 40))\<rparr>, i)
      else if v = 48 then
        (let (j, c) = parse_color ps i
         in (case c of Some c' \<Rightarrow> p\<lparr>pen_bg := c'\<rparr> | None \<Rightarrow> p, j))
      else if v = 49 then (p\<lparr>pen_bg := DefaultColor\<rparr>, i)
      else if v = 53 then (p\<lparr>pen_flags := pen_flags p OR OVERLINE\<rparr>, i)
      else if v = 55 then (p\<lparr>pen_flags := pen_flags p AND NOT OVERLINE\<rparr>, i)
      else if v = 58 then
        (let (j, c) = parse_color ps i
         in (case c of Some c' \<Rightarrow> p\<lparr>pen_ul := c'\<rparr> | None \<Rightarrow> p, j))
      else if v = 59 then (p\<lparr>pen_ul := DefaultColor\<rparr>, i)
      else if 90 \<le> v \<and> v \<le> 97 then (p\<lparr>pen_fg := Legacy (of_int (v - 90 + 8))\<rparr>, i)
      else if 100 \<le> v \<and> v \<le> 107 then (p\<lparr>pen_bg := Legacy (of_int (v - 100 + 8))\<rparr>, i)
      else (p, i))"

lemma params_next_gt: "i < params_next ps i"
  by (induction ps i rule: params_next.induct, subst params_next.simps) (auto intro: Suc_lessD)

lemma parse_color_ge: "i \<le> fst (parse_color ps i)"
  using params_next_gt [of i ps] params_next_gt [of "params_next ps i" ps]
    params_next_gt [of "params_next ps (params_next ps i)" ps]
    params_next_gt [of "params_next ps (params_next ps (params_next ps i))" ps]
  by (simp add: parse_color_def parse_color_colon_def parse_color_semicolon_def Let_def)

lemma sgr_step_ge: "i \<le> snd (sgr_step p ps i)"
  using parse_color_ge [of i ps] by (cases "parse_color ps i") (simp add: sgr_step_def Let_def)

function sgr_loop :: "pen \<Rightarrow> params \<Rightarrow> nat \<Rightarrow> pen" where
  "sgr_loop p ps i =
     (if i < params_len ps
      then sgr_loop (fst (sgr_step p ps i)) ps (params_next ps (snd (sgr_step p ps i)))
      else p)"
  by pat_completeness auto
termination
proof (relation "measure (\<lambda>(p, ps, i). params_len ps - i)", goal_cases)
  case 1
  then show ?case by simp
next
  case (2 p ps i)
  then show ?case
    using sgr_step_ge [of i p ps] params_next_gt [of "snd (sgr_step p ps i)" ps] by simp
qed

declare sgr_loop.simps [simp del]

definition apply_sgr :: "pen \<Rightarrow> params \<Rightarrow> pen" where
  "apply_sgr p ps = (if params_len ps = 0 then sgr_reset p else sgr_loop p ps 0)"

subsection \<open>Writing SGR\<close>

text \<open>\<open>SgrCodes\<close>: a list of codes separated by semicolons; \<open>buf\<close> is its text.\<close>

definition codes_push :: "bytes \<Rightarrow> bytes \<Rightarrow> bytes" where
  "codes_push buf code = (if buf = [] then code else buf @ [0x3b] @ code)"

definition push_color :: "bytes \<Rightarrow> color \<Rightarrow> nat \<Rightarrow> bytes" where
  "push_color buf c base =
     (case c of
        DefaultColor \<Rightarrow> codes_push buf (dec (base + 9))
      | Legacy n \<Rightarrow>
          (if n < 8 \<and> base \<noteq> 50 then codes_push buf (dec (base + unat n))
           else if n < 16 \<and> base \<noteq> 50 then codes_push buf (dec (base + 60 + unat n - 8))
           else codes_push buf (dec (base + 8) @ [0x3b, 0x35, 0x3b] @ dec (unat n)))
      | Indexed n \<Rightarrow> codes_push buf (dec (base + 8) @ [0x3b, 0x35, 0x3b] @ dec (unat n))
      | Rgb r g b \<Rightarrow>
          codes_push buf (dec (base + 8) @ [0x3b, 0x32, 0x3b] @ dec (unat r) @ [0x3b]
            @ dec (unat g) @ [0x3b] @ dec (unat b)))"

definition push_underline :: "bytes \<Rightarrow> u16 \<Rightarrow> bytes" where
  "push_underline buf style =
     (if style = 0 then codes_push buf (dec 24)
      else if style = 1 then codes_push buf (dec 4)
      else codes_push buf ([0x34, 0x3a] @ dec (unat style)))"

definition FLAG_CODES :: "(u16 \<times> nat \<times> nat) list" where
  "FLAG_CODES = [(BOLD, 1, 22), (DIM, 2, 22), (ITALIC, 3, 23), (BLINK, 5, 25), (REVERSE, 7, 27),
     (INVISIBLE, 8, 28), (STRIKE, 9, 29), (OVERLINE, 53, 55)]"

definition sgr_absolute :: "pen \<Rightarrow> bytes" where
  "sgr_absolute p =
     (let b0 = codes_push [] (dec 0);
          b1 = foldl (\<lambda>b (flag, on, off).
                 if pen_flags p AND flag \<noteq> 0 then codes_push b (dec on) else b) b0 FLAG_CODES;
          b2 = (if underline p \<noteq> 0 then push_underline b1 (underline p) else b1);
          b3 = (if pen_fg p \<noteq> DefaultColor then push_color b2 (pen_fg p) 30 else b2);
          b4 = (if pen_bg p \<noteq> DefaultColor then push_color b3 (pen_bg p) 40 else b3)
      in if pen_ul p \<noteq> DefaultColor then push_color b4 (pen_ul p) 50 else b4)"

definition relative_intensity :: "pen \<Rightarrow> pen \<Rightarrow> bytes" where
  "relative_intensity p q =
     (let intensity = BOLD OR DIM in
      if pen_flags p AND intensity \<noteq> pen_flags q AND intensity then
        (if pen_flags p AND intensity AND NOT (pen_flags q) \<noteq> 0 then
           (let b0 = codes_push [] (dec 22);
                b1 = (if pen_flags q AND BOLD \<noteq> 0 then codes_push b0 (dec 1) else b0)
            in if pen_flags q AND DIM \<noteq> 0 then codes_push b1 (dec 2) else b1)
         else
           (let b1 = (if pen_flags q AND BOLD \<noteq> 0 \<and> pen_flags p AND BOLD = 0
                      then codes_push [] (dec 1) else [])
            in if pen_flags q AND DIM \<noteq> 0 \<and> pen_flags p AND DIM = 0
               then codes_push b1 (dec 2) else b1))
      else [])"

definition sgr_relative :: "pen \<Rightarrow> pen \<Rightarrow> bytes" where
  "sgr_relative p q =
     (let intensity = BOLD OR DIM;
          b0 = relative_intensity p q;
          b1 = foldl (\<lambda>b (flag, on, off).
                 if flag AND intensity = 0 \<and> pen_flags p AND flag \<noteq> pen_flags q AND flag
                 then codes_push b (dec (if pen_flags q AND flag \<noteq> 0 then on else off))
                 else b) b0 FLAG_CODES;
          b2 = (if underline p \<noteq> underline q then push_underline b1 (underline q) else b1);
          b3 = (if pen_fg p \<noteq> pen_fg q then push_color b2 (pen_fg q) 30 else b2);
          b4 = (if pen_bg p \<noteq> pen_bg q then push_color b3 (pen_bg q) 40 else b3)
      in if pen_ul p \<noteq> pen_ul q then push_color b4 (pen_ul q) 50 else b4)"

definition sgr_transition :: "pen \<Rightarrow> pen \<Rightarrow> bytes" where
  "sgr_transition p q =
     (if same_style p q then []
      else if is_plain q then [0x1b, 0x5b, 0x30, 0x6d]
      else
        (let codes = (if length (sgr_relative p q) \<le> length (sgr_absolute q)
                      then sgr_relative p q else sgr_absolute q)
         in [0x1b, 0x5b] @ codes @ [0x6d]))"

text \<open>\<open>write_sgr_transition\<close>.\<close>

definition write_sgr_transition :: "bytes \<Rightarrow> pen \<Rightarrow> pen \<Rightarrow> bytes" where
  "write_sgr_transition out p q = out @ sgr_transition p q"

end
