(* ===== verification/Replay_Grid.thy ===== *)
theory Replay_Grid
  imports Sgr_Pen
begin

text \<open>
  Cells, rows and one screen of the replay, \<open>src/src/screen_replay/grid.rs\<close>.  Where the source
  indexes with a bound it has just checked (\<open>cells.get(..)\<close>, a loop counter below it), the
  model reads the list directly; every other index goes through the panic monad.
\<close>

subsection \<open>Cells\<close>

definition FRAGMENT :: u32 where "FRAGMENT = push_bit 31 1"
definition WIDE :: u32 where "WIDE = push_bit 30 1"
definition CLUSTER :: u32 where "CLUSTER = push_bit 29 1"
definition VALUE_MASK :: u32 where "VALUE_MASK = CLUSTER - 1"
definition TAB :: u32 where "TAB = 9"
definition SPACE :: u32 where "SPACE = 32"
definition TAB_WIDTH_MAX :: nat where "TAB_WIDTH_MAX = 15"

record cell =
  c_code :: u32
  c_pen :: nat

definition BLANK :: cell where "BLANK = \<lparr>c_code = 0, c_pen = 0\<rparr>"

definition blank_cell :: "nat \<Rightarrow> cell" where "blank_cell p = \<lparr>c_code = 0, c_pen = p\<rparr>"

definition is_fragment :: "cell \<Rightarrow> bool" where
  "is_fragment c \<longleftrightarrow> c_code c AND FRAGMENT \<noteq> 0"

definition is_tab_head :: "cell \<Rightarrow> bool" where
  "is_tab_head c \<longleftrightarrow> c_code c = TAB"

definition is_tab_head_fragment :: "cell \<Rightarrow> bool" where
  "is_tab_head_fragment c \<longleftrightarrow> c_code c = FRAGMENT OR TAB"

definition is_blank :: "cell \<Rightarrow> bool" where
  "is_blank c \<longleftrightarrow> c_code c = 0 \<or> c_code c = SPACE \<or> c_code c = TAB \<or> c_code c = FRAGMENT OR TAB"

subsection \<open>Rows\<close>

record row =
  r_cells :: "cell list"
  r_wrapped :: bool
  r_touched :: bool

definition row_default :: row where
  "row_default = \<lparr>r_cells = [], r_wrapped = False, r_touched = False\<rparr>"

definition row_filled :: "nat \<Rightarrow> cell \<Rightarrow> row" where
  "row_filled cols c = row_default\<lparr>r_cells := replicate cols c\<rparr>"

definition fill_with :: "row \<Rightarrow> nat \<Rightarrow> cell \<Rightarrow> row" where
  "fill_with r len c =
     (if length (r_cells r) < len then r\<lparr>r_cells := resize (r_cells r) len c\<rparr> else r)"

definition fill_to :: "row \<Rightarrow> nat \<Rightarrow> row" where
  "fill_to r len = fill_with r len BLANK"

text \<open>
  \<open>cleanup_fragments\<close>: the head of the character or tab that covers column \<open>end\<close>, found by
  walking left; the spaces written from a cut character back to its head.
\<close>

fun head_before :: "cell list \<Rightarrow> nat \<Rightarrow> nat" where
  "head_before cells 0 = 0"
| "head_before cells (Suc i) = (if is_fragment (cells ! i) then head_before cells i else i)"

fun space_back :: "cell list \<Rightarrow> nat \<Rightarrow> cell list" where
  "space_back cells 0 = cells"
| "space_back cells (Suc i) =
     (let cells' = cells[i := (cells ! i)\<lparr>c_code := SPACE\<rparr>]
      in if is_fragment (cells ! i) then space_back cells' i else cells')"

definition cleanup_end :: "cell list \<Rightarrow> nat \<Rightarrow> cell list" where
  "cleanup_end cells e =
     (if e < length cells \<and> is_fragment (cells ! e)
      then cells[e := (cells ! e)\<lparr>c_code :=
             (if is_tab_head (cells ! head_before cells e) then TAB else SPACE)\<rparr>]
      else cells)"

definition cleanup_cells :: "cell list \<Rightarrow> nat \<Rightarrow> nat \<Rightarrow> cell list" where
  "cleanup_cells cells s e =
     (let start_is_fragment = (s < length cells \<and> is_fragment (cells ! s));
          cells' = cleanup_end cells e
      in if start_is_fragment then space_back cells' s else cells')"

definition cleanup_fragments :: "row \<Rightarrow> nat \<Rightarrow> nat \<Rightarrow> row" where
  "cleanup_fragments r s e = r\<lparr>r_cells := cleanup_cells (r_cells r) s e\<rparr>"

text \<open>\<open>tab_width\<close>; slicing past the end panics.\<close>

definition tab_width :: "row \<Rightarrow> nat \<Rightarrow> nat option" where
  "tab_width r col =
     do { rest \<leftarrow> slice (r_cells r) (col + 1) (length (r_cells r));
          Some (1 + length (takeWhile is_tab_head_fragment rest)) }"

text \<open>
  \<open>trim_invisible_tail\<close>; the test for a visible blank looks a pen up, which can panic, and is
  made only for empty cells, from the right up to the first one that stays.
\<close>

fun keep_len :: "(nat \<Rightarrow> bool option) \<Rightarrow> cell list \<Rightarrow> nat option" where
  "keep_len vis [] = Some 0"
| "keep_len vis (c # rev_cells) =
     (if c_code c \<noteq> 0 then Some (Suc (length rev_cells))
      else do { v \<leftarrow> vis (c_pen c); if v then Some (Suc (length rev_cells)) else keep_len vis rev_cells })"

definition trim_invisible_tail :: "(nat \<Rightarrow> bool option) \<Rightarrow> row \<Rightarrow> row option" where
  "trim_invisible_tail vis r =
     (if r_wrapped r then Some r
      else do { keep \<leftarrow> keep_len vis (rev (r_cells r)); Some (r\<lparr>r_cells := take keep (r_cells r)\<rparr>) })"

subsection \<open>Screens\<close>

record saved_cursor =
  sv_row :: nat
  sv_col :: nat
  sv_pen :: pen
  sv_origin :: bool
  sv_charsets :: "bool \<times> bool"
  sv_shift_out :: bool

definition saved_default :: saved_cursor where
  "saved_default = \<lparr>sv_row = 0, sv_col = 0, sv_pen = pen_default, sv_origin = False,
     sv_charsets = (False, False), sv_shift_out = False\<rparr>"

record screen =
  s_lines :: "row list"
  s_rows :: nat
  s_history_cells :: nat
  s_keeps_history :: bool
  s_row :: nat
  s_col :: nat
  s_saved :: saved_cursor

definition screen_new :: "nat \<Rightarrow> bool \<Rightarrow> screen" where
  "screen_new rows keeps =
     \<lparr>s_lines = replicate rows row_default, s_rows = rows, s_history_cells = 0,
      s_keeps_history = keeps, s_row = 0, s_col = 0, s_saved = saved_default\<rparr>"

definition history_len :: "screen \<Rightarrow> nat option" where
  "history_len s = usub (length (s_lines s)) (s_rows s)"

text \<open>An update through \<open>row_mut(r)\<close> and \<open>cursor_row_mut()\<close>.\<close>

definition modify_line :: "screen \<Rightarrow> nat \<Rightarrow> (row \<Rightarrow> row option) \<Rightarrow> screen option" where
  "modify_line s i f =
     do { old \<leftarrow> index (s_lines s) i;
          new \<leftarrow> f old;
          lines \<leftarrow> store (s_lines s) i new;
          Some (s\<lparr>s_lines := lines\<rparr>) }"

definition row_mut :: "screen \<Rightarrow> nat \<Rightarrow> (row \<Rightarrow> row option) \<Rightarrow> screen option" where
  "row_mut s r f = do { base \<leftarrow> history_len s; modify_line s (base + r) f }"

definition cursor_row_mut :: "screen \<Rightarrow> (row \<Rightarrow> row option) \<Rightarrow> screen option" where
  "cursor_row_mut s f = row_mut s (s_row s) f"

definition screen_clear_history :: "screen \<Rightarrow> screen option" where
  "screen_clear_history s =
     do { history \<leftarrow> history_len s;
          Some (s\<lparr>s_lines := drop history (s_lines s), s_history_cells := 0\<rparr>) }"

end
