(* ===== verification/Replay_Tables.thy ===== *)
theory Replay_Tables
  imports Replay_Grid
begin

text \<open>
  The interning tables of \<open>src/src/screen_replay/tables.rs\<close>: pens, OSC 8 hyperlinks and
  combining-character clusters, and their compaction.  The hash function only speeds up the
  reverse map, which is a map here.
\<close>

definition COMPACT_FLOOR :: nat where "COMPACT_FLOOR = 4096"

subsection \<open>One table\<close>

record 'a interner =
  i_values :: "'a list"
  i_ids :: "'a \<Rightarrow> nat option"
  i_limit :: nat

definition with_first :: "'a \<Rightarrow> 'a interner" where
  "with_first x = \<lparr>i_values = [x], i_ids = [x \<mapsto> 0], i_limit = COMPACT_FLOOR\<rparr>"

definition intern :: "'a interner \<Rightarrow> 'a \<Rightarrow> 'a interner \<times> nat" where
  "intern t x =
     (case i_ids t x of
        Some i \<Rightarrow> (t, i)
      | None \<Rightarrow>
          (let i = length (i_values t)
           in (t\<lparr>i_values := i_values t @ [x], i_ids := (i_ids t)(x \<mapsto> i)\<rparr>, i)))"

definition over_limit :: "'a interner \<Rightarrow> bool" where
  "over_limit t \<longleftrightarrow> i_limit t < length (i_values t)"

text \<open>
  \<open>retain\<close>: the loop over the old entries, with the entries kept so far, their reverse map and
  the old-to-new index map (\<open>0\<close> for a dropped entry).
\<close>

fun retain_loop :: "bool list \<Rightarrow> nat \<Rightarrow> 'a list \<Rightarrow> 'a list \<times> ('a \<Rightarrow> nat option) \<times> nat list \<Rightarrow>
    ('a list \<times> ('a \<Rightarrow> nat option) \<times> nat list) option" where
  "retain_loop live old [] acc = Some acc"
| "retain_loop live old (x # xs) (kept, ids, remap) =
     do { keep \<leftarrow> (if old = 0 then Some True else index live old);
          retain_loop live (Suc old) xs
            (if keep then (kept @ [x], ids(x \<mapsto> length kept), remap @ [length kept])
             else (kept, ids, remap @ [0])) }"

definition retain :: "'a interner \<Rightarrow> bool list \<Rightarrow> ('a interner \<times> nat list) option" where
  "retain t live =
     do { (kept, ids, remap) \<leftarrow> retain_loop live 0 (i_values t) ([], Map.empty, []);
          Some (\<lparr>i_values = kept, i_ids = ids, i_limit = max COMPACT_FLOOR (length kept * 2)\<rparr>,
                remap) }"

subsection \<open>The three tables\<close>

record tables =
  t_pens :: "pen interner"
  t_links :: "bytes interner"
  t_clusters :: "bytes interner"

definition tables_default :: tables where
  "tables_default = \<lparr>t_pens = with_first pen_default, t_links = with_first [],
     t_clusters = with_first []\<rparr>"

definition pen_at :: "tables \<Rightarrow> nat \<Rightarrow> pen option" where
  "pen_at t i = index (i_values (t_pens t)) i"

definition link_at :: "tables \<Rightarrow> nat \<Rightarrow> bytes option" where
  "link_at t i = index (i_values (t_links t)) i"

definition cluster_at :: "tables \<Rightarrow> nat \<Rightarrow> bytes option" where
  "cluster_at t i = index (i_values (t_clusters t)) i"

definition intern_pen :: "tables \<Rightarrow> pen \<Rightarrow> tables \<times> nat" where
  "intern_pen t p = (let (ps, i) = intern (t_pens t) p in (t\<lparr>t_pens := ps\<rparr>, i))"

definition intern_link :: "tables \<Rightarrow> bytes \<Rightarrow> tables \<times> nat" where
  "intern_link t l = (let (ls, i) = intern (t_links t) l in (t\<lparr>t_links := ls\<rparr>, i))"

definition intern_cluster :: "tables \<Rightarrow> bytes \<Rightarrow> tables \<times> nat" where
  "intern_cluster t c = (let (cs, i) = intern (t_clusters t) c in (t\<lparr>t_clusters := cs\<rparr>, i))"

definition needs_compaction :: "tables \<Rightarrow> bool" where
  "needs_compaction t \<longleftrightarrow>
     over_limit (t_pens t) \<or> over_limit (t_links t) \<or> over_limit (t_clusters t)"

subsection \<open>Compaction\<close>

definition is_cluster_code :: "u32 \<Rightarrow> bool" where
  "is_cluster_code code \<longleftrightarrow> code AND (CLUSTER OR FRAGMENT) = CLUSTER"

definition cluster_index :: "u32 \<Rightarrow> nat" where
  "cluster_index code = unat (code AND VALUE_MASK)"

definition mark_cell :: "bool list \<times> bool list \<Rightarrow> cell \<Rightarrow> (bool list \<times> bool list) option" where
  "mark_cell live c =
     do { pens \<leftarrow> store (fst live) (c_pen c) True;
          clusters \<leftarrow> (if is_cluster_code (c_code c)
                       then store (snd live) (cluster_index (c_code c)) True else Some (snd live));
          Some (pens, clusters) }"

text \<open>The links of the live pens, then the links of the roots.\<close>

fun mark_pen_links :: "bool list \<Rightarrow> nat \<Rightarrow> pen list \<Rightarrow> bool list \<Rightarrow> bool list option" where
  "mark_pen_links live_pens i [] live_links = Some live_links"
| "mark_pen_links live_pens i (p # ps) live_links =
     do { live \<leftarrow> index live_pens i;
          links \<leftarrow> (if live then store live_links (pen_link p) True else Some live_links);
          mark_pen_links live_pens (Suc i) ps links }"

definition mark_root :: "bool list \<Rightarrow> pen \<Rightarrow> bool list option" where
  "mark_root live_links p = store live_links (pen_link p) True"

definition relink :: "nat list \<Rightarrow> pen \<Rightarrow> pen option" where
  "relink remap p = do { l \<leftarrow> index remap (pen_link p); Some (p\<lparr>pen_link := l\<rparr>) }"

definition remap_cell :: "nat list \<Rightarrow> nat list \<Rightarrow> cell \<Rightarrow> cell option" where
  "remap_cell pen_remap cluster_remap c =
     do { p \<leftarrow> index pen_remap (c_pen c);
          code \<leftarrow> (if is_cluster_code (c_code c)
                   then do { new \<leftarrow> index cluster_remap (cluster_index (c_code c));
                             Some ((c_code c AND NOT VALUE_MASK) OR of_nat new) }
                   else Some (c_code c));
          Some \<lparr>c_code = code, c_pen = p\<rparr> }"

definition remap_row :: "nat list \<Rightarrow> nat list \<Rightarrow> row \<Rightarrow> row option" where
  "remap_row pen_remap cluster_remap r =
     do { cells \<leftarrow> mapM (remap_cell pen_remap cluster_remap) (r_cells r);
          Some (r\<lparr>r_cells := cells\<rparr>) }"

text \<open>
  \<open>Tables::compact\<close> over the rows of both screens and the root pens: the new tables, the
  rewritten grids and the rewritten roots.
\<close>

definition compact :: "tables \<Rightarrow> row list \<Rightarrow> row list \<Rightarrow> pen list \<Rightarrow>
    (tables \<times> row list \<times> row list \<times> pen list) option" where
  "compact t grid1 grid2 roots =
     do { (live_pens, live_clusters) \<leftarrow>
            foldM mark_cell (replicate (length (i_values (t_pens t))) False,
                             replicate (length (i_values (t_clusters t))) False)
              (concat (map r_cells (grid1 @ grid2)));
          live_links0 \<leftarrow> mark_pen_links live_pens 0 (i_values (t_pens t))
            (replicate (length (i_values (t_links t))) False);
          live_links \<leftarrow> foldM mark_root live_links0 roots;
          (links, link_remap) \<leftarrow> retain (t_links t) live_links;
          pens \<leftarrow> mapM (relink link_remap) (i_values (t_pens t));
          roots' \<leftarrow> mapM (relink link_remap) roots;
          (pens', pen_remap) \<leftarrow> retain ((t_pens t)\<lparr>i_values := pens\<rparr>) live_pens;
          (clusters, cluster_remap) \<leftarrow> retain (t_clusters t) live_clusters;
          g1 \<leftarrow> mapM (remap_row pen_remap cluster_remap) grid1;
          g2 \<leftarrow> mapM (remap_row pen_remap cluster_remap) grid2;
          Some (\<lparr>t_pens = pens', t_links = links, t_clusters = clusters\<rparr>, g1, g2, roots') }"

end
