(* ===== verification/Replay_Text.thy ===== *)
theory Replay_Text
  imports Replay_Tables
begin

text \<open>
  What a cell and a row show: \<open>cell_text\<close> of \<open>src/src/screen_replay/emulator.rs\<close> and the text
  helpers of \<open>src/src/screen_replay/mod.rs\<close> that the emulator's snapshot and the replay's
  output share.
\<close>

definition char_or_replacement :: "u32 \<Rightarrow> bytes" where
  "char_or_replacement code =
     encode_utf8 (case char_from_u32 code of Some c \<Rightarrow> c | None \<Rightarrow> replacement_char)"

definition cell_text :: "tables \<Rightarrow> cell \<Rightarrow> bytes option" where
  "cell_text t c =
     (if c_code c AND CLUSTER \<noteq> 0 \<and> \<not> is_fragment c
      then cluster_at t (unat (c_code c AND VALUE_MASK))
      else if c_code c AND VALUE_MASK = 0 then Some [0x20]
      else Some (char_or_replacement (c_code c AND VALUE_MASK)))"

text \<open>The bytes \<open>push_cell_text\<close> appends.\<close>

definition push_cell_text :: "tables \<Rightarrow> cell \<Rightarrow> bytes option" where
  "push_cell_text t c =
     (if c_code c AND CLUSTER \<noteq> 0 then cell_text t c
      else if c_code c AND VALUE_MASK = 0 then Some [0x20]
      else Some (char_or_replacement (c_code c AND VALUE_MASK)))"

definition blank_visible :: "tables \<Rightarrow> nat \<Rightarrow> bool option" where
  "blank_visible t p = map_option pen_blank_is_visible (pen_at t p)"

definition cell_is_visible :: "tables \<Rightarrow> cell \<Rightarrow> bool option" where
  "cell_is_visible t c = (if is_blank c then blank_visible t (c_pen c) else Some True)"

text \<open>
  \<open>visible_len\<close>: the last visible head, searched from the right (only the cells that are
  inspected look a pen up), then the fragments that follow it.
\<close>

fun last_visible :: "tables \<Rightarrow> cell list \<Rightarrow> nat option option" where
  "last_visible t [] = Some None"
| "last_visible t (c # rev_cells) =
     (if \<not> is_fragment c \<or> is_tab_head_fragment c then
        do { v \<leftarrow> cell_is_visible t c;
             if v then Some (Some (length rev_cells)) else last_visible t rev_cells }
      else last_visible t rev_cells)"

definition fragments_end :: "cell list \<Rightarrow> nat \<Rightarrow> nat" where
  "fragments_end cells e = e + length (takeWhile (\<lambda>c. c_code c = FRAGMENT) (drop e cells))"

definition visible_len :: "tables \<Rightarrow> row \<Rightarrow> nat option" where
  "visible_len t r =
     do { last \<leftarrow> last_visible t (rev (r_cells r));
          Some (case last of None \<Rightarrow> 0 | Some i \<Rightarrow> fragments_end (r_cells r) (i + 1)) }"

definition row_is_visible :: "tables \<Rightarrow> row \<Rightarrow> bool option" where
  "row_is_visible t r = map_option (\<lambda>n. 0 < n) (visible_len t r)"

definition tab_ends_on_default_stop :: "nat \<Rightarrow> nat \<Rightarrow> bool" where
  "tab_ends_on_default_stop col width \<longleftrightarrow> col + width = (col div 8 + 1) * 8"

end
