(* ===== verification/Kitty_Keyboard.thy ===== *)
theory Kitty_Keyboard
  imports Rust_Std
begin

text \<open>
  The kitty keyboard protocol of \<open>src/src/kitty_keyboard.rs\<close>: the flag stacks of the two
  screens, the key encoder and the joiner of split Alt chords.
\<close>

subsection \<open>Flag stacks\<close>

definition DISAMBIGUATE :: u8 where "DISAMBIGUATE = 1"
definition ALL_FLAGS :: u8 where "ALL_FLAGS = 0x1f"
definition SUPPORTED_FLAGS :: u8 where "SUPPORTED_FLAGS = DISAMBIGUATE"
definition MAX_STACK_DEPTH :: nat where "MAX_STACK_DEPTH = 16"

datatype kitty_op = KPush u8 | KPop u8 | KSet u8 u8

record kitty_stacks =
  k_main :: "u8 list"
  k_alt :: "u8 list"
  k_on_alt :: bool

definition kitty_new :: kitty_stacks where
  "kitty_new = \<lparr>k_main = [], k_alt = [], k_on_alt = False\<rparr>"

definition screen_stack :: "kitty_stacks \<Rightarrow> bool \<Rightarrow> u8 list" where
  "screen_stack s alternate = (if alternate then k_alt s else k_main s)"

definition kitty_active :: "kitty_stacks \<Rightarrow> u8 list" where
  "kitty_active s = (if k_on_alt s then k_alt s else k_main s)"

definition kitty_set_active :: "kitty_stacks \<Rightarrow> u8 list \<Rightarrow> kitty_stacks" where
  "kitty_set_active s st = (if k_on_alt s then s\<lparr>k_alt := st\<rparr> else s\<lparr>k_main := st\<rparr>)"

definition kitty_flags :: "kitty_stacks \<Rightarrow> u8" where
  "kitty_flags s =
     (if kitty_active s = [] then 0 else last (kitty_active s)) AND SUPPORTED_FLAGS"

definition active_flags :: "kitty_stacks \<Rightarrow> bool" where
  "active_flags s \<longleftrightarrow> kitty_flags s \<noteq> 0"

text \<open>\<open>apply\<close> on the active stack, oldest entry first.\<close>

fun stack_apply :: "u8 list \<Rightarrow> kitty_op \<Rightarrow> u8 list" where
  "stack_apply st (KPush flags) =
     (if MAX_STACK_DEPTH \<le> length st then tl st else st) @ [flags AND ALL_FLAGS]"
| "stack_apply st (KPop count) =
     (let n = min (unat (max count 1)) (length st) in take (length st - n) st)"
| "stack_apply st (KSet flags mode) =
     (let f = flags AND ALL_FLAGS;
          st' = (if st = [] then [0] else st);
          top = last st';
          top' = (if mode = 2 then top OR f else if mode = 3 then top AND NOT f else f)
      in butlast st' @ [top'])"

definition kitty_apply :: "kitty_stacks \<Rightarrow> kitty_op \<Rightarrow> kitty_stacks" where
  "kitty_apply s op = kitty_set_active s (stack_apply (kitty_active s) op)"

definition enter_alt_screen :: "kitty_stacks \<Rightarrow> kitty_stacks" where
  "enter_alt_screen s = s\<lparr>k_on_alt := True\<rparr>"

definition leave_alt_screen :: "kitty_stacks \<Rightarrow> kitty_stacks" where
  "leave_alt_screen s = s\<lparr>k_alt := [], k_on_alt := False\<rparr>"

definition kitty_reset :: "kitty_stacks \<Rightarrow> kitty_stacks" where
  "kitty_reset s = kitty_new"

text \<open>\<open>query_reply\<close>: \<open>ESC [ ? flags u\<close>.\<close>

definition query_reply :: "u8 \<Rightarrow> bytes" where
  "query_reply flags = [0x1b, 0x5b, 0x3f] @ dec (unat (flags AND SUPPORTED_FLAGS)) @ [0x75]"

subsection \<open>Keys\<close>

datatype kitty_key = KUnicode u32 | KUnicodeWithText u32 u32 | KEscape | KEnter | KTab
  | KBackspace | KSpace | KFunctional

record modifiers =
  m_shift :: bool
  m_alt :: bool
  m_ctrl :: bool
  m_super :: bool

definition mods_non_shift :: "modifiers \<Rightarrow> bool" where
  "mods_non_shift m \<longleftrightarrow> m_alt m \<or> m_ctrl m \<or> m_super m"

definition mods_any :: "modifiers \<Rightarrow> bool" where
  "mods_any m \<longleftrightarrow> m_shift m \<or> mods_non_shift m"

definition mods_parameter :: "modifiers \<Rightarrow> u8" where
  "mods_parameter m =
     1 + of_bool (m_shift m) + push_bit 1 (of_bool (m_alt m)) + push_bit 2 (of_bool (m_ctrl m))
       + push_bit 3 (of_bool (m_super m))"

text \<open>
  \<open>unicode_key\<close>.  The lower-case mapping of a character is the Unicode table of the standard
  library, a parameter \<open>lower\<close> here.
\<close>

definition char_is_control :: "u32 \<Rightarrow> bool" where
  "char_is_control c \<longleftrightarrow> c < 0x20 \<or> (0x7f \<le> c \<and> c \<le> 0x9f)"

definition unicode_key :: "(u32 \<Rightarrow> u32 list) \<Rightarrow> u32 \<Rightarrow> u32 option \<Rightarrow> kitty_key" where
  "unicode_key lower base text =
     (case text of
        Some t \<Rightarrow> if \<not> char_is_control t \<and> lower t \<noteq> [base] then KUnicodeWithText base t
                  else KUnicode base
      | None \<Rightarrow> KUnicode base)"

text \<open>\<open>csi_u\<close>: \<open>ESC [ code u\<close>, or \<open>ESC [ code ; mods u\<close> when a modifier is held.\<close>

definition csi_u :: "u32 \<Rightarrow> modifiers \<Rightarrow> bytes" where
  "csi_u code m =
     (if mods_parameter m = 1 then [0x1b, 0x5b] @ dec (unat code) @ [0x75]
      else [0x1b, 0x5b] @ dec (unat code) @ [0x3b] @ dec (unat (mods_parameter m)) @ [0x75])"

definition key_code :: "kitty_key \<Rightarrow> modifiers \<Rightarrow> u32 option" where
  "key_code key m =
     (case key of
        KEscape \<Rightarrow> Some 27
      | KEnter \<Rightarrow> if mods_any m then Some 13 else None
      | KTab \<Rightarrow> if mods_any m then Some 9 else None
      | KBackspace \<Rightarrow> if mods_any m then Some 127 else None
      | KSpace \<Rightarrow> if mods_non_shift m then Some 32 else None
      | KUnicode ch \<Rightarrow> if mods_non_shift m then Some ch else None
      | KUnicodeWithText base _ \<Rightarrow> if mods_non_shift m then Some base else None
      | KFunctional \<Rightarrow> None)"

definition encode_key :: "kitty_key \<Rightarrow> modifiers \<Rightarrow> u8 \<Rightarrow> bytes option" where
  "encode_key key m flags =
     (if flags AND DISAMBIGUATE = 0 then None
      else map_option (\<lambda>code. csi_u code m) (key_code key m))"

text \<open>
  \<open>legacy_form_matches\<close>; \<open>lower\<close> is the lower-case mapping of a string, undefined (\<open>None\<close>)
  on bytes that are not UTF-8.
\<close>

definition is_c0 :: "bytes \<Rightarrow> bool" where
  "is_c0 bs \<longleftrightarrow> length bs = 1 \<and> hd bs < 0x20"

definition same_text :: "(bytes \<Rightarrow> bytes option) \<Rightarrow> bytes \<Rightarrow> bytes \<Rightarrow> bool" where
  "same_text lower text bs \<longleftrightarrow> lower bs = Some text"

definition unicode_matches :: "(bytes \<Rightarrow> bytes option) \<Rightarrow> u32 \<Rightarrow> bytes \<Rightarrow> bool" where
  "unicode_matches lower ch legacy \<longleftrightarrow>
     is_c0 legacy \<or> same_text lower (encode_utf8 ch) legacy \<or>
     (legacy \<noteq> [] \<and> hd legacy = 0x1b \<and> 1 < length legacy \<and>
      (is_c0 (tl legacy) \<or> same_text lower (encode_utf8 ch) (tl legacy)))"

definition legacy_form_matches :: "(bytes \<Rightarrow> bytes option) \<Rightarrow> kitty_key \<Rightarrow> bytes \<Rightarrow> bool" where
  "legacy_form_matches lower key legacy =
     (case key of
        KEscape \<Rightarrow> legacy = [0x1b]
      | KEnter \<Rightarrow> legacy \<in> {[0x0d], [0x0a], [0x0d, 0x0a], [0x1b, 0x0d]}
      | KTab \<Rightarrow> legacy \<in> {[0x09], [0x1b, 0x5b, 0x5a], [0x1b, 0x09]}
      | KBackspace \<Rightarrow> legacy \<in> {[0x7f], [0x08], [0x1b, 0x7f], [0x1b, 0x08]}
      | KSpace \<Rightarrow> legacy \<in> {[0x20], [0x00], [0x1b, 0x20], [0x1b, 0x00]}
      | KUnicode ch \<Rightarrow> unicode_matches lower ch legacy
      | KUnicodeWithText base text \<Rightarrow>
          unicode_matches lower base legacy \<or> legacy = encode_utf8 text \<or>
          legacy = 0x1b # encode_utf8 text
      | KFunctional \<Rightarrow> False)"

definition rewrite_commit ::
  "(bytes \<Rightarrow> bytes option) \<Rightarrow> kitty_key \<Rightarrow> modifiers \<Rightarrow> bytes \<Rightarrow> u8 \<Rightarrow> bytes option" where
  "rewrite_commit lower key m legacy flags =
     (case encode_key key m flags of
        None \<Rightarrow> None
      | Some encoded \<Rightarrow>
          (let alt_escape = (key = KEscape \<and> m_alt m \<and> legacy = [0x1b, 0x1b])
           in if legacy_form_matches lower key legacy \<or> alt_escape then Some encoded else None))"

subsection \<open>The Alt chord joiner\<close>

datatype join_step = JHold | JEmit bytes

type_synonym joiner = bool

definition on_commit ::
  "joiner \<Rightarrow> (kitty_key \<times> modifiers) option \<Rightarrow> bytes \<Rightarrow> joiner \<times> join_step" where
  "on_commit holding recorded commit =
     (if holding then (False, JEmit (0x1b # commit))
      else
        (let alt_prefix = (commit = [0x1b] \<and>
               (case recorded of Some (key, m) \<Rightarrow> m_alt m \<and> key \<noteq> KEscape | None \<Rightarrow> False))
         in if alt_prefix then (True, JHold) else (False, JEmit commit)))"

definition take_held :: "joiner \<Rightarrow> joiner \<times> bytes option" where
  "take_held holding = (False, if holding then Some [0x1b] else None)"

end
