(* ===== verification/Replay_Emulator.thy ===== *)
theory Replay_Emulator
  imports Replay_Text Kitty_Keyboard
begin

text \<open>
  The terminal state machine of \<open>src/src/screen_replay/emulator.rs\<close>: every operation of
  \<open>Emulator\<close> and the dispatch of the parser's callbacks, in the panic monad.  \<open>usize\<close> values
  are natural numbers (they count cells and rows held in memory), \<open>i32\<close> parameters are
  integers.  The width table of the crate \<open>unicode-width\<close> is the parameter \<open>uw\<close>.
\<close>

subsection \<open>State\<close>

definition ROW_OVERHEAD_CELLS :: nat where "ROW_OVERHEAD_CELLS = 8"
definition MAX_CLUSTER_BYTES :: nat where "MAX_CLUSTER_BYTES = 64"
definition HYPERLINK_ID_MAX :: nat where "HYPERLINK_ID_MAX = 250"
definition HYPERLINK_URI_MAX :: nat where "HYPERLINK_URI_MAX = 2083"

definition LIVE_MODES :: "int list" where
  "LIVE_MODES = [1, 25, 66, 1000, 1002, 1003, 1004, 1005, 1006, 1015, 2004, 2026, 2027]"

definition LINE_DRAWING :: "u32 list" where
  "LINE_DRAWING =
     [0x20, 0x25c6, 0x2592, 0x2409, 0x240c, 0x240d, 0x240a, 0xb0, 0xb1, 0x2424, 0x240b, 0x2518,
      0x2510, 0x250c, 0x2514, 0x253c, 0x23ba, 0x23bb, 0x2500, 0x23bc, 0x23bd, 0x251c, 0x2524,
      0x2534, 0x252c, 0x2502, 0x2264, 0x2265, 0x3c0, 0x2260, 0xa3, 0xb7]"

definition char_width :: "(u32 \<Rightarrow> nat option) \<Rightarrow> u32 \<Rightarrow> nat" where
  "char_width uw c =
     (if c < 0x80 then 1 else min (case uw c of Some w \<Rightarrow> w | None \<Rightarrow> 0) 2)"

record emulator =
  e_cols :: nat
  e_rows :: nat
  e_normal :: screen
  e_alternate :: screen
  e_active :: bool
  e_pen :: pen
  e_pen_id :: "nat option"
  e_erase_id :: "nat option"
  e_tables :: tables
  e_top :: nat
  e_bottom :: nat
  e_autowrap :: bool
  e_origin :: bool
  e_insert :: bool
  e_lr_margins :: bool
  e_charsets :: "bool \<times> bool"
  e_shift_out :: bool
  e_tabstops :: "bool list"
  e_last_graphic :: "u32 option"
  e_budget :: nat
  e_head_dropped :: bool
  e_live_modes :: "bool list"
  e_keyboard :: kitty_stacks
  e_cursor_style :: u8

definition default_tabstops :: "nat \<Rightarrow> bool list" where
  "default_tabstops cols = map (\<lambda>c. c mod 8 = 0) [0..<cols]"

definition default_live_modes :: "bool list" where
  "default_live_modes = [False, True, False, False, False, False, False, False, False, False,
     False, False, False]"

definition emulator_new :: "nat \<Rightarrow> nat \<Rightarrow> nat \<Rightarrow> emulator option" where
  "emulator_new cols rows budget =
     do { last_row \<leftarrow> usub rows 1;
          Some \<lparr>e_cols = cols, e_rows = rows, e_normal = screen_new rows True,
            e_alternate = screen_new rows False, e_active = False, e_pen = pen_default,
            e_pen_id = None, e_erase_id = None, e_tables = tables_default, e_top = 0,
            e_bottom = last_row, e_autowrap = True, e_origin = False, e_insert = False,
            e_lr_margins = False, e_charsets = (False, False), e_shift_out = False,
            e_tabstops = default_tabstops cols, e_last_graphic = None, e_budget = budget,
            e_head_dropped = False, e_live_modes = default_live_modes, e_keyboard = kitty_new,
            e_cursor_style = 0\<rparr> }"

text \<open>The active screen, read and written; \<open>True\<close> is the alternate screen.\<close>

definition scr :: "emulator \<Rightarrow> screen" where
  "scr e = (if e_active e then e_alternate e else e_normal e)"

definition set_scr :: "emulator \<Rightarrow> screen \<Rightarrow> emulator" where
  "set_scr e s = (if e_active e then e\<lparr>e_alternate := s\<rparr> else e\<lparr>e_normal := s\<rparr>)"

definition set_col :: "emulator \<Rightarrow> nat \<Rightarrow> emulator" where
  "set_col e c = set_scr e ((scr e)\<lparr>s_col := c\<rparr>)"

definition set_row :: "emulator \<Rightarrow> nat \<Rightarrow> emulator" where
  "set_row e r = set_scr e ((scr e)\<lparr>s_row := r\<rparr>)"

definition on_cursor_row :: "emulator \<Rightarrow> (row \<Rightarrow> row option) \<Rightarrow> emulator option" where
  "on_cursor_row e f = do { s \<leftarrow> cursor_row_mut (scr e) f; Some (set_scr e s) }"

definition xterm_col :: "emulator \<Rightarrow> nat option" where
  "xterm_col e = do { last \<leftarrow> usub (e_cols e) 1; Some (min (s_col (scr e)) last) }"

definition retreat :: "emulator \<Rightarrow> emulator option" where
  "retreat e = do { last \<leftarrow> usub (e_cols e) 1; Some (set_col e (min (s_col (scr e)) last)) }"

text \<open>\<open>pen_id\<close>, \<open>erase_cell\<close> and \<open>bg_fill\<close>: interned once and cached until the pen changes.\<close>

definition take_pen_id :: "emulator \<Rightarrow> emulator \<times> nat" where
  "take_pen_id e =
     (case e_pen_id e of
        Some i \<Rightarrow> (e, i)
      | None \<Rightarrow>
          (let (t, i) = intern_pen (e_tables e) (e_pen e)
           in (e\<lparr>e_tables := t, e_pen_id := Some i\<rparr>, i)))"

definition erase_cell :: "emulator \<Rightarrow> emulator \<times> cell" where
  "erase_cell e =
     (case e_erase_id e of
        Some i \<Rightarrow> (e, blank_cell i)
      | None \<Rightarrow>
          (let (t, i) = intern_pen (e_tables e) (pen_erase (e_pen e))
           in (e\<lparr>e_tables := t, e_erase_id := Some i\<rparr>, blank_cell i)))"

definition bg_fill :: "emulator \<Rightarrow> emulator \<times> cell option" where
  "bg_fill e =
     (if pen_bg (e_pen e) \<noteq> DefaultColor then (let (e', c) = erase_cell e in (e', Some c))
      else (e, None))"

definition set_pen :: "emulator \<Rightarrow> pen \<Rightarrow> emulator" where
  "set_pen e p = e\<lparr>e_pen := p, e_pen_id := None, e_erase_id := None\<rparr>"

definition maybe_compact :: "emulator \<Rightarrow> emulator option" where
  "maybe_compact e =
     (if \<not> needs_compaction (e_tables e) then Some e
      else
        do { (t, g1, g2, roots) \<leftarrow>
               compact (e_tables e) (s_lines (e_normal e)) (s_lines (e_alternate e))
                 [e_pen e, sv_pen (s_saved (e_normal e)), sv_pen (s_saved (e_alternate e))];
             Some (e\<lparr>e_tables := t,
               e_pen := roots ! 0,
               e_normal := (e_normal e)\<lparr>s_lines := g1,
                 s_saved := (s_saved (e_normal e))\<lparr>sv_pen := roots ! 1\<rparr>\<rparr>,
               e_alternate := (e_alternate e)\<lparr>s_lines := g2,
                 s_saved := (s_saved (e_alternate e))\<lparr>sv_pen := roots ! 2\<rparr>\<rparr>,
               e_pen_id := None, e_erase_id := None\<rparr>) })"

subsection \<open>Scrolling\<close>

definition new_row :: "emulator \<Rightarrow> bool \<Rightarrow> emulator \<times> row" where
  "new_row e fill =
     (case (if fill then bg_fill e else (e, None)) of
        (e', Some c) \<Rightarrow> (e', row_filled (e_cols e') c)
      | (e', None) \<Rightarrow> (e', row_default))"

definition clear_wrap :: "row \<Rightarrow> row option" where
  "clear_wrap r = Some (r\<lparr>r_wrapped := False\<rparr>)"

definition set_hard_wrapped :: "emulator \<Rightarrow> int \<Rightarrow> emulator option" where
  "set_hard_wrapped e r =
     do { base \<leftarrow> history_len (scr e);
          s \<leftarrow> (if r < 0 then
                  (if 0 < base then modify_line (scr e) (base - 1) clear_wrap else Some (scr e))
                else if nat r < s_rows (scr e) then modify_line (scr e) (base + nat r) clear_wrap
                else Some (scr e));
          Some (set_scr e s) }"

text \<open>
  \<open>enforce_budget\<close>: oldest rows go while there is history and the cells exceed the budget.
  \<open>sub\<close> is the subtraction of the accounting: checked here, saturating in \<open>resize\<close>.
\<close>

fun evict :: "(nat \<Rightarrow> nat \<Rightarrow> nat option) \<Rightarrow> nat \<Rightarrow> nat \<Rightarrow> nat \<Rightarrow> row list \<Rightarrow> nat \<Rightarrow> bool \<Rightarrow>
    (row list \<times> nat \<times> bool) option" where
  "evict sub rows screen_cells budget [] h dropped =
     do { history \<leftarrow> usub 0 rows; Some ([], h, dropped) }"
| "evict sub rows screen_cells budget (r # rs) h dropped =
     do { history \<leftarrow> usub (length (r # rs)) rows;
          if 0 < history \<and> budget < h + screen_cells
          then do { h' \<leftarrow> sub h (length (r_cells r) + ROW_OVERHEAD_CELLS);
                    evict sub rows screen_cells budget rs h' True }
          else Some (r # rs, h, dropped) }"

definition enforce_budget :: "emulator \<Rightarrow> emulator option" where
  "enforce_budget e =
     do { (lines, h, dropped) \<leftarrow>
            evict usub (s_rows (e_normal e)) (e_rows e * e_cols e) (e_budget e)
              (s_lines (e_normal e)) (s_history_cells (e_normal e)) (e_head_dropped e);
          Some (e\<lparr>e_normal := (e_normal e)\<lparr>s_lines := lines, s_history_cells := h\<rparr>,
                  e_head_dropped := dropped\<rparr>) }"

definition freeze_row :: "tables \<Rightarrow> screen \<Rightarrow> nat \<Rightarrow> screen option" where
  "freeze_row t s i =
     do { old \<leftarrow> index (s_lines s) i;
          new \<leftarrow> trim_invisible_tail (blank_visible t) old;
          lines \<leftarrow> store (s_lines s) i new;
          Some (s\<lparr>s_lines := lines,
            s_history_cells := s_history_cells s + (length (r_cells new) + ROW_OVERHEAD_CELLS)\<rparr>) }"

definition freeze_into_history :: "emulator \<Rightarrow> nat \<Rightarrow> nat \<Rightarrow> emulator option" where
  "freeze_into_history e first count =
     (if \<not> s_keeps_history (scr e) then
        do { history \<leftarrow> history_len (scr e);
             Some (set_scr e ((scr e)\<lparr>s_lines := drop history (s_lines (scr e))\<rparr>)) }
      else
        do { s \<leftarrow> foldM (freeze_row (e_tables e)) (scr e) [first..<first + count];
             enforce_budget (set_scr e s) })"

text \<open>One row that scrolls in: inserted at a line, or replacing the line removed.\<close>

definition insert_new_row :: "bool \<Rightarrow> emulator \<Rightarrow> nat \<Rightarrow> emulator option" where
  "insert_new_row fill e i =
     do { let (e', row) = new_row e fill;
          lines \<leftarrow> insert_at (s_lines (scr e')) i row;
          Some (set_scr e' ((scr e')\<lparr>s_lines := lines\<rparr>)) }"

definition rotate_row :: "bool \<Rightarrow> nat \<Rightarrow> nat \<Rightarrow> emulator \<Rightarrow> emulator option" where
  "rotate_row fill from_row to_row e =
     do { let (e', row) = new_row e fill;
          base \<leftarrow> history_len (scr e');
          lines \<leftarrow> insert_at (remove_at (s_lines (scr e')) (base + from_row)) (base + to_row) row;
          Some (set_scr e' ((scr e')\<lparr>s_lines := lines\<rparr>)) }"

definition scroll_into_history :: "bool \<Rightarrow> nat \<Rightarrow> nat \<Rightarrow> emulator \<Rightarrow> emulator option" where
  "scroll_into_history fill bottom amount e =
     do { first \<leftarrow> history_len (scr e);
          e1 \<leftarrow> foldM (\<lambda>e k. insert_new_row fill e (first + bottom + 1 + k)) e [0..<amount];
          freeze_into_history e1 first amount }"

definition scroll_up :: "emulator \<Rightarrow> nat \<Rightarrow> nat \<Rightarrow> nat \<Rightarrow> bool \<Rightarrow> emulator option" where
  "scroll_up e tp bottom amount0 fill =
     do { span \<leftarrow> usub bottom tp;
          amount \<leftarrow> clamp amount0 1 (span + 1);
          if tp = 0 then
            do { last_row \<leftarrow> usub (e_rows e) 1;
                 e1 \<leftarrow> (if bottom \<noteq> last_row then set_hard_wrapped e (int bottom) else Some e);
                 scroll_into_history fill bottom amount e1 }
          else
            do { e1 \<leftarrow> set_hard_wrapped e (int tp - 1);
                 e2 \<leftarrow> set_hard_wrapped e1 (int bottom);
                 foldM (\<lambda>e k. rotate_row fill tp bottom e) e2 [0..<amount] } }"

definition scroll_down :: "emulator \<Rightarrow> nat \<Rightarrow> nat \<Rightarrow> nat \<Rightarrow> bool \<Rightarrow> emulator option" where
  "scroll_down e tp bottom amount0 fill =
     do { span \<leftarrow> usub bottom tp;
          amount \<leftarrow> clamp amount0 1 (span + 1);
          e1 \<leftarrow> foldM (\<lambda>e k. rotate_row fill bottom tp e) e [0..<amount];
          e2 \<leftarrow> set_hard_wrapped e1 (int tp - 1);
          set_hard_wrapped e2 (int bottom) }"

definition cursor_down_with_scrolling :: "emulator \<Rightarrow> bool \<Rightarrow> emulator option" where
  "cursor_down_with_scrolling e fill =
     (if s_row (scr e) = e_bottom e then scroll_up e (e_top e) (e_bottom e) 1 fill
      else if s_row (scr e) + 1 < e_rows e then Some (set_row e (s_row (scr e) + 1))
      else Some e)"

definition cursor_up_with_scrolling :: "emulator \<Rightarrow> bool \<Rightarrow> emulator option" where
  "cursor_up_with_scrolling e fill =
     (if s_row (scr e) = e_top e then scroll_down e (e_top e) (e_bottom e) 1 fill
      else if 0 < s_row (scr e) then Some (set_row e (s_row (scr e) - 1))
      else Some e)"

definition touch :: "row \<Rightarrow> row option" where
  "touch r = Some (r\<lparr>r_touched := True\<rparr>)"

definition line_feed :: "emulator \<Rightarrow> emulator option" where
  "line_feed e =
     do { e1 \<leftarrow> retreat e; e2 \<leftarrow> on_cursor_row e1 touch; cursor_down_with_scrolling e2 True }"

definition next_line :: "emulator \<Rightarrow> emulator option" where
  "next_line e =
     do { e1 \<leftarrow> on_cursor_row e touch;
          e2 \<leftarrow> cursor_down_with_scrolling e1 True;
          Some (set_col e2 0) }"

definition reverse_index :: "emulator \<Rightarrow> emulator option" where
  "reverse_index e = do { e1 \<leftarrow> retreat e; cursor_up_with_scrolling e1 True }"

end
