(* ===== verification/Replay_Print.thy ===== *)
theory Replay_Print
  imports Replay_Emulator
begin

text \<open>
  Printing in \<open>src/src/screen_replay/emulator.rs\<close>: the bulk path for ASCII, the per-character
  path, combining marks, and the row shifts of insert and delete.
\<close>

text \<open>\<open>autowrap_newline\<close>.\<close>

definition wrap_and_touch :: "row \<Rightarrow> row option" where
  "wrap_and_touch r = Some (r\<lparr>r_wrapped := True, r_touched := True\<rparr>)"

definition autowrap_newline :: "emulator \<Rightarrow> emulator option" where
  "autowrap_newline e =
     do { e1 \<leftarrow> on_cursor_row (set_col e 0) wrap_and_touch;
          cursor_down_with_scrolling e1 False }"

subsection \<open>Row edits\<close>

definition truncate_row :: "row \<Rightarrow> nat \<Rightarrow> row" where
  "truncate_row r n = r\<lparr>r_cells := take n (r_cells r)\<rparr>"

text \<open>The step shared by the erases: drop the cells from column \<open>n\<close>, repairing what is cut.\<close>

definition cut_row :: "row \<Rightarrow> nat \<Rightarrow> row" where
  "cut_row r n =
     (if n < length (r_cells r)
      then truncate_row (cleanup_fragments r n (length (r_cells r))) n else r)"

definition shift_right :: "row \<Rightarrow> nat \<Rightarrow> nat \<Rightarrow> nat \<Rightarrow> cell \<Rightarrow> row option" where
  "shift_right r left right amount0 fill =
     do { span \<leftarrow> usub right left;
          amount \<leftarrow> clamp amount0 1 (span + 1);
          let r1 = cleanup_fragments (fill_to r (right + 1)) left left;
          cut \<leftarrow> usub (right + 1) amount;
          let r2 = cleanup_fragments r1 cut (right + 1);
          c1 \<leftarrow> copy_within (r_cells r2) left cut (left + amount);
          c2 \<leftarrow> fill_range c1 left (left + amount) fill;
          Some (r2\<lparr>r_cells := c2\<rparr>) }"

definition shift_left :: "row \<Rightarrow> nat \<Rightarrow> nat \<Rightarrow> nat \<Rightarrow> cell \<Rightarrow> row option" where
  "shift_left r left right amount0 fill =
     do { span \<leftarrow> usub right left;
          amount \<leftarrow> clamp amount0 1 (span + 1);
          let r1 = cleanup_fragments (fill_to r (right + 1)) left (left + amount);
          let r2 = cleanup_fragments r1 (right + 1) (right + 1);
          cut \<leftarrow> usub (right + 1) amount;
          c1 \<leftarrow> copy_within (r_cells r2) (left + amount) (right + 1) left;
          c2 \<leftarrow> fill_range c1 cut (right + 1) fill;
          Some (r2\<lparr>r_cells := c2, r_wrapped := False\<rparr>) }"

subsection \<open>One character\<close>

definition charset_active :: "emulator \<Rightarrow> bool" where
  "charset_active e = (if e_shift_out e then snd (e_charsets e) else fst (e_charsets e))"

definition map_charset :: "emulator \<Rightarrow> u32 \<Rightarrow> u32 option" where
  "map_charset e c =
     (if charset_active e \<and> 0x5f \<le> c \<and> c \<le> 0x7e
      then index LINE_DRAWING (unat (c - 0x5f)) else Some c)"

text \<open>
  \<open>combine\<close>: the loop to the head of the character under the cursor is the walk of
  \<open>cleanup_fragments\<close>.
\<close>

definition combine_target :: "screen \<Rightarrow> (nat \<times> nat) option option" where
  "combine_target s =
     do { base \<leftarrow> history_len s;
          let line = base + s_row s;
          if s_col s = 0 then
            (if line = 0 then Some None
             else do { prev \<leftarrow> index (s_lines s) (line - 1);
                       if r_wrapped prev then Some (Some (line - 1, length (r_cells prev)))
                       else Some None })
          else Some (Some (line, s_col s)) }"

definition combine_cell :: "emulator \<Rightarrow> u32 \<Rightarrow> nat \<Rightarrow> nat \<Rightarrow> cell \<Rightarrow> emulator option" where
  "combine_cell e mark line col c =
     do { text \<leftarrow> cell_text (e_tables e) c;
          if MAX_CLUSTER_BYTES \<le> length text then Some e
          else
            do { let (t, i) = intern_cluster (e_tables e) (text @ encode_utf8 mark);
                 s \<leftarrow> modify_line (scr e) line (\<lambda>r. Some (r\<lparr>r_cells :=
                        (r_cells r)[col := c\<lparr>c_code := (c_code c AND WIDE) OR CLUSTER OR of_nat i\<rparr>]\<rparr>));
                 Some (set_scr (e\<lparr>e_tables := t\<rparr>) s) } }"

definition combine_before :: "emulator \<Rightarrow> u32 \<Rightarrow> nat \<Rightarrow> nat \<Rightarrow> emulator option" where
  "combine_before e mark line col =
     (if col = 0 then Some e
      else
        do { row \<leftarrow> index (s_lines (scr e)) line;
             if length (r_cells row) < col then Some e
             else
               (let head = head_before (r_cells row) col; c = r_cells row ! head in
                if is_fragment c \<or> is_tab_head c then Some e
                else combine_cell e mark line head c) })"

definition combine :: "emulator \<Rightarrow> u32 \<Rightarrow> emulator option" where
  "combine e mark =
     do { target \<leftarrow> combine_target (scr e);
          case target of
            None \<Rightarrow> Some e
          | Some (line, col) \<Rightarrow> combine_before e mark line col }"

definition put_char :: "bool \<Rightarrow> nat \<Rightarrow> nat \<Rightarrow> nat \<Rightarrow> u32 \<Rightarrow> nat \<Rightarrow> row \<Rightarrow> row option" where
  "put_char ins cols col width code pen r =
     do { r1 \<leftarrow> (if ins
                then do { last \<leftarrow> usub cols 1; shift_right r col last width BLANK }
                else Some (fill_to (cleanup_fragments r col (col + width)) (col + width)));
          c1 \<leftarrow> store (r_cells r1) col \<lparr>c_code = code, c_pen = pen\<rparr>;
          c2 \<leftarrow> (if width = 2 then store c1 (col + 1) \<lparr>c_code = FRAGMENT, c_pen = pen\<rparr>
                 else Some c1);
          Some ((cut_row (r1\<lparr>r_cells := c2\<rparr>) cols)\<lparr>r_touched := True\<rparr>) }"

text \<open>The two halves of \<open>print_char\<close>: the wrap before the character, and its cells.\<close>

definition make_room :: "emulator \<Rightarrow> nat \<Rightarrow> emulator option" where
  "make_room e width =
     (if e_cols e < s_col (scr e) + width then
        (if e_autowrap e then autowrap_newline e
         else do { k \<leftarrow> usub (e_cols e) width; Some (set_col e k) })
      else Some e)"

definition place_char :: "emulator \<Rightarrow> u32 \<Rightarrow> nat \<Rightarrow> emulator option" where
  "place_char e c width =
     do { let (e1, pen) = take_pen_id e;
          let code = (if width = 2 then WIDE OR c else c);
          let col = s_col (scr e1);
          e2 \<leftarrow> on_cursor_row e1 (put_char (e_insert e1) (e_cols e1) col width code pen);
          Some (set_col e2 (col + width)) }"

definition print_char :: "(u32 \<Rightarrow> nat option) \<Rightarrow> emulator \<Rightarrow> u32 \<Rightarrow> emulator option" where
  "print_char uw e unmapped =
     do { c \<leftarrow> map_charset e unmapped;
          if char_width uw c = 0 then combine e c
          else
            do { let e1 = e\<lparr>e_last_graphic := Some unmapped\<rparr>;
                 let width = min (char_width uw c) (e_cols e1);
                 e2 \<leftarrow> make_room e1 width;
                 place_char e2 c width } }"

subsection \<open>ASCII in bulk\<close>

definition ascii_cell :: "nat \<Rightarrow> u8 \<Rightarrow> cell" where
  "ascii_cell pen b = \<lparr>c_code = ucast b, c_pen = pen\<rparr>"

definition write_run :: "nat \<Rightarrow> nat \<Rightarrow> nat \<Rightarrow> bytes \<Rightarrow> row \<Rightarrow> row option" where
  "write_run pen col n rest r =
     do { let r1 = fill_to (cleanup_fragments r col (col + n)) col;
          let overwrite = min (length (r_cells r1) - col) n;
          old \<leftarrow> slice (r_cells r1) col (col + overwrite);
          extra \<leftarrow> slice rest overwrite n;
          Some (r1\<lparr>r_cells := take col (r_cells r1) @ map (ascii_cell pen) (take overwrite rest)
                    @ drop (col + overwrite) (r_cells r1) @ map (ascii_cell pen) extra,
                  r_touched := True\<rparr>) }"

text \<open>
  One turn of the loop of \<open>print_ascii_run\<close>: the wrap at a full row (without autowrap only the
  last character survives), then as many characters as the row has room for.
\<close>

definition ascii_wrap :: "emulator \<Rightarrow> bytes \<Rightarrow> (emulator \<times> bytes) option" where
  "ascii_wrap e rest =
     (if e_cols e \<le> s_col (scr e) then
        (if e_autowrap e then do { e1 \<leftarrow> autowrap_newline e; Some (e1, rest) }
         else do { last \<leftarrow> usub (e_cols e) 1;
                   from_last \<leftarrow> usub (length rest) 1;
                   Some (set_col e last, drop from_last rest) })
      else Some (e, rest))"

definition ascii_chunk :: "nat \<Rightarrow> emulator \<Rightarrow> bytes \<Rightarrow> (emulator \<times> bytes) option" where
  "ascii_chunk pen e0 rest0 =
     do { (e, rest) \<leftarrow> ascii_wrap e0 rest0;
          let col = s_col (scr e);
          room \<leftarrow> usub (e_cols e) col;
          let n = min (length rest) room;
          e1 \<leftarrow> on_cursor_row e (write_run pen col n rest);
          Some (set_col e1 (col + n), drop n rest) }"

partial_function (option) ascii_loop :: "nat \<Rightarrow> emulator \<Rightarrow> bytes \<Rightarrow> emulator option" where
  "ascii_loop pen e rest =
     (if rest = [] then Some e
      else do { (e1, rest1) \<leftarrow> ascii_chunk pen e rest; ascii_loop pen e1 rest1 })"

definition print_ascii_run :: "(u32 \<Rightarrow> nat option) \<Rightarrow> emulator \<Rightarrow> bytes \<Rightarrow> emulator option" where
  "print_ascii_run uw e run =
     (if e_insert e \<or> charset_active e then foldM (\<lambda>e b. print_char uw e (ucast b)) e run
      else if run = [] then Some e
      else
        (let (e1, pen) = take_pen_id (e\<lparr>e_last_graphic := Some (ucast (last run))\<rparr>)
         in ascii_loop pen e1 run))"

end
