(* ===== verification/Replay_Edit.thy ===== *)
theory Replay_Edit
  imports Replay_Print
begin

text \<open>
  Cursor movement, tabs, erasing and editing in \<open>src/src/screen_replay/emulator.rs\<close>.
\<close>

subsection \<open>Cursor movement\<close>

definition set_cursor_col :: "emulator \<Rightarrow> int \<Rightarrow> emulator option" where
  "set_cursor_col e col = do { last \<leftarrow> usub (e_cols e) 1; Some (set_col e (min (nat col) last)) }"

definition set_cursor_row :: "emulator \<Rightarrow> int \<Rightarrow> emulator option" where
  "set_cursor_row e row =
     do { (tp, bottom) \<leftarrow> (if e_origin e then Some (e_top e, e_bottom e)
                          else do { last \<leftarrow> usub (e_rows e) 1; Some (0, last) });
          Some (set_row e (min (nat row + tp) bottom)) }"

definition home :: "emulator \<Rightarrow> emulator option" where
  "home e = do { e1 \<leftarrow> set_cursor_col e 0; set_cursor_row e1 0 }"

definition move_up :: "emulator \<Rightarrow> int \<Rightarrow> emulator option" where
  "move_up e count0 =
     do { count \<leftarrow> clamp count0 1 (int (e_rows e));
          e1 \<leftarrow> retreat e;
          let tp = (if e_top e1 \<le> s_row (scr e1) then e_top e1 else 0);
          Some (set_row e1 (max (s_row (scr e1) - nat count) tp)) }"

definition move_down :: "emulator \<Rightarrow> int \<Rightarrow> emulator option" where
  "move_down e count0 =
     do { count \<leftarrow> clamp count0 1 (int (e_rows e));
          e1 \<leftarrow> retreat e;
          bottom \<leftarrow> (if s_row (scr e1) \<le> e_bottom e1 then Some (e_bottom e1)
                     else usub (e_rows e1) 1);
          Some (set_row e1 (min (s_row (scr e1) + nat count) bottom)) }"

definition move_forward :: "emulator \<Rightarrow> int \<Rightarrow> emulator option" where
  "move_forward e count0 =
     do { count \<leftarrow> clamp count0 1 (int (e_cols e));
          e1 \<leftarrow> retreat e;
          last \<leftarrow> usub (e_cols e1) 1;
          Some (set_col e1 (min (s_col (scr e1) + nat count) last)) }"

definition move_backward :: "emulator \<Rightarrow> int \<Rightarrow> emulator option" where
  "move_backward e count0 =
     do { count \<leftarrow> clamp count0 1 (int (e_cols e));
          e1 \<leftarrow> retreat e;
          Some (set_col e1 (s_col (scr e1) - nat count)) }"

subsection \<open>Tabs\<close>

text \<open>The first tab stop among some columns, in the order they are tried.\<close>

fun find_stop :: "bool list \<Rightarrow> nat list \<Rightarrow> nat option option" where
  "find_stop stops [] = Some None"
| "find_stop stops (c # cs) =
     do { set \<leftarrow> index stops c; if set then Some (Some c) else find_stop stops cs }"

fun tab_forward_loop :: "bool list \<Rightarrow> nat \<Rightarrow> nat \<Rightarrow> nat \<Rightarrow> nat option" where
  "tab_forward_loop stops stop next_col 0 = Some next_col"
| "tab_forward_loop stops stop next_col (Suc n) =
     do { found \<leftarrow> find_stop stops [next_col + 1..<stop + 1];
          case found of Some c \<Rightarrow> tab_forward_loop stops stop c n | None \<Rightarrow> Some stop }"

fun tab_backward_loop :: "bool list \<Rightarrow> nat \<Rightarrow> nat \<Rightarrow> nat option" where
  "tab_backward_loop stops col 0 = Some col"
| "tab_backward_loop stops col (Suc n) =
     do { found \<leftarrow> find_stop stops (rev [0..<col]);
          case found of Some c \<Rightarrow> tab_backward_loop stops c n | None \<Rightarrow> Some 0 }"

text \<open>The \<open>smart tab\<close>: columns past the end of the row become one tab cell.\<close>

definition write_tab :: "nat \<Rightarrow> nat \<Rightarrow> row \<Rightarrow> row option" where
  "write_tab col next_col r =
     (let old_len = length (r_cells r); r1 = fill_to r next_col in
      if old_len \<le> col \<and> next_col - col \<le> TAB_WIDTH_MAX then
        do { c1 \<leftarrow> store (r_cells r1) col \<lparr>c_code = TAB, c_pen = 0\<rparr>;
             c2 \<leftarrow> fill_range c1 (col + 1) next_col \<lparr>c_code = FRAGMENT OR TAB, c_pen = 0\<rparr>;
             Some (r1\<lparr>r_cells := c2\<rparr>) }
      else Some r1)"

definition tab_forward :: "emulator \<Rightarrow> int \<Rightarrow> emulator option" where
  "tab_forward e count =
     (if count \<le> 0 then Some e
      else
        do { col \<leftarrow> xterm_col e;
             if col < s_col (scr e) then Some e
             else
               do { stop \<leftarrow> usub (e_cols e) 1;
                    next_col \<leftarrow> tab_forward_loop (e_tabstops e) stop col (nat count);
                    if next_col = col then Some e
                    else do { e1 \<leftarrow> on_cursor_row e (write_tab col next_col);
                              Some (set_col e1 next_col) } } })"

definition tab_backward :: "emulator \<Rightarrow> int \<Rightarrow> emulator option" where
  "tab_backward e count =
     (if count \<le> 0 then Some e
      else
        do { col \<leftarrow> xterm_col e;
             to_col \<leftarrow> tab_backward_loop (e_tabstops e) col (nat count);
             Some (set_col e to_col) })"

subsection \<open>Erasing and editing\<close>

definition fill_opt :: "nat \<Rightarrow> cell option \<Rightarrow> row \<Rightarrow> row" where
  "fill_opt cols fill r = (case fill of Some c \<Rightarrow> fill_with r cols c | None \<Rightarrow> r)"

definition erase_row :: "row \<Rightarrow> row" where
  "erase_row r = r\<lparr>r_cells := []\<rparr>"

definition clear_to_eol :: "emulator \<Rightarrow> emulator option" where
  "clear_to_eol e =
     (let (e1, fill) = bg_fill e; col = s_col (scr e1)
      in on_cursor_row e1 (\<lambda>r.
           Some ((fill_opt (e_cols e) fill (cut_row (fill_to r col) col))\<lparr>r_wrapped := False\<rparr>)))"

definition clear_to_bol :: "emulator \<Rightarrow> emulator option" where
  "clear_to_bol e =
     do { e1 \<leftarrow> retreat e;
          let (e2, erase) = erase_cell e1;
          let col = s_col (scr e2);
          on_cursor_row e2 (\<lambda>r.
            do { let r1 = fill_with (cleanup_fragments r 0 (col + 1)) (col + 1) erase;
                 cells \<leftarrow> fill_range (r_cells r1) 0 (col + 1) erase;
                 Some (r1\<lparr>r_cells := cells\<rparr>) }) }"

definition clear_line :: "emulator \<Rightarrow> emulator option" where
  "clear_line e =
     do { e1 \<leftarrow> retreat e;
          let (e2, erase) = erase_cell e1;
          on_cursor_row e2 (\<lambda>r.
            Some ((fill_with (erase_row r) (e_cols e) erase)\<lparr>r_wrapped := False\<rparr>)) }"

definition clear_below :: "emulator \<Rightarrow> emulator option" where
  "clear_below e =
     do { e1 \<leftarrow> retreat e;
          let (e2, fill) = bg_fill e1;
          let cur = s_row (scr e2);
          let col = s_col (scr e2);
          s1 \<leftarrow> row_mut (scr e2) cur (\<lambda>r. Some (cut_row r col));
          s2 \<leftarrow> foldM (\<lambda>s i. row_mut s i (\<lambda>r.
                  Some ((fill_opt (e_cols e) fill (if cur < i then erase_row r else r))
                          \<lparr>r_wrapped := False\<rparr>))) s1 [cur..<e_rows e];
          Some (set_scr e2 s2) }"

definition clear_above :: "emulator \<Rightarrow> emulator option" where
  "clear_above e =
     do { let (e1, erase) = erase_cell e;
          e2 \<leftarrow> set_hard_wrapped e1 (-1);
          s \<leftarrow> foldM (\<lambda>s i. row_mut s i (\<lambda>r.
                 Some ((fill_with (erase_row r) (e_cols e) erase)\<lparr>r_wrapped := False\<rparr>)))
               (scr e2) [0..<s_row (scr e2)];
          clear_to_bol (set_scr e2 s) }"

definition clear_screen :: "emulator \<Rightarrow> emulator option" where
  "clear_screen e =
     do { e1 \<leftarrow> retreat e;
          let (e2, fill) = bg_fill e1;
          e3 \<leftarrow> set_hard_wrapped e2 (-1);
          s \<leftarrow> foldM (\<lambda>s i. row_mut s i (\<lambda>r.
                 Some (fill_opt (e_cols e) fill
                   ((erase_row r)\<lparr>r_wrapped := False, r_touched := False\<rparr>))))
               (scr e3) [0..<s_rows (scr e3)];
          Some (set_scr e3 s) }"

definition clear_history :: "emulator \<Rightarrow> emulator option" where
  "clear_history e =
     do { s \<leftarrow> screen_clear_history (e_normal e); Some (e\<lparr>e_normal := s\<rparr>) }"

definition erase_chars :: "emulator \<Rightarrow> int \<Rightarrow> emulator option" where
  "erase_chars e count0 =
     do { e1 \<leftarrow> retreat e;
          let (e2, erase) = erase_cell e1;
          let col = s_col (scr e2);
          room \<leftarrow> usub (e_cols e) col;
          let count = min (nat (max count0 1)) room;
          on_cursor_row e2 (\<lambda>r.
            do { let r1 = fill_with (fill_to (cleanup_fragments r col (col + count)) col)
                            (col + count) erase;
                 cells \<leftarrow> fill_range (r_cells r1) col (col + count) erase;
                 Some (r1\<lparr>r_cells := cells\<rparr>) }) }"

definition insert_chars :: "emulator \<Rightarrow> int \<Rightarrow> emulator option" where
  "insert_chars e count =
     do { e1 \<leftarrow> retreat e;
          last \<leftarrow> usub (e_cols e) 1;
          let (e2, erase) = erase_cell e1;
          let col = s_col (scr e2);
          on_cursor_row e2 (\<lambda>r. shift_right r col last (nat (max count 1)) erase) }"

definition delete_chars :: "emulator \<Rightarrow> int \<Rightarrow> emulator option" where
  "delete_chars e count =
     do { e1 \<leftarrow> retreat e;
          last \<leftarrow> usub (e_cols e) 1;
          let (e2, erase) = erase_cell e1;
          let col = s_col (scr e2);
          on_cursor_row e2 (\<lambda>r. shift_left r col last (nat (max count 1)) erase) }"

definition insert_lines :: "emulator \<Rightarrow> int \<Rightarrow> emulator option" where
  "insert_lines e count =
     (let row = s_row (scr e) in
      if row < e_top e \<or> e_bottom e < row then Some e
      else scroll_down (set_col e 0) row (e_bottom e) (nat (max count 1)) True)"

definition delete_lines :: "emulator \<Rightarrow> int \<Rightarrow> emulator option" where
  "delete_lines e count =
     (let row = s_row (scr e) in
      if row < e_top e \<or> e_bottom e < row then Some e
      else scroll_up (set_col e 0) row (e_bottom e) (nat (max count 1)) True)"

definition repeat_char :: "(u32 \<Rightarrow> nat option) \<Rightarrow> emulator \<Rightarrow> params \<Rightarrow> emulator option" where
  "repeat_char uw e ps =
     (case e_last_graphic e of
        None \<Rightarrow> Some e
      | Some c \<Rightarrow>
          foldM (print_char uw) e
            (replicate (nat (collect1 ps 0 1 1 (int (e_cols e - s_col (scr e))))) c))"

end
