(* ===== verification/Replay_Perform.thy ===== *)
theory Replay_Perform
  imports Replay_Edit
begin

text \<open>
  Modes, margins, resets, hyperlinks, resizing and the dispatch of the parser's callbacks in
  \<open>src/src/screen_replay/emulator.rs\<close>.
\<close>

subsection \<open>Saved state and modes\<close>

definition save_cursor :: "emulator \<Rightarrow> emulator" where
  "save_cursor e =
     set_scr e ((scr e)\<lparr>s_saved := \<lparr>sv_row = s_row (scr e), sv_col = s_col (scr e),
       sv_pen = e_pen e, sv_origin = e_origin e, sv_charsets = e_charsets e,
       sv_shift_out = e_shift_out e\<rparr>\<rparr>)"

definition restore_cursor :: "emulator \<Rightarrow> emulator option" where
  "restore_cursor e =
     do { last_row \<leftarrow> usub (e_rows e) 1;
          let saved = s_saved (scr e);
          let e1 = set_scr e ((scr e)\<lparr>s_col := sv_col saved, s_row := min (sv_row saved) last_row\<rparr>);
          Some (set_pen (e1\<lparr>e_origin := sv_origin saved, e_charsets := sv_charsets saved,
                  e_shift_out := sv_shift_out saved\<rparr>) (sv_pen saved)) }"

definition switch_screen :: "emulator \<Rightarrow> bool \<Rightarrow> emulator" where
  "switch_screen e to_alt =
     (let row = s_row (scr e); col = s_col (scr e);
          e1 = e\<lparr>e_active := to_alt\<rparr>;
          e2 = set_scr e1 ((scr e1)\<lparr>s_row := row, s_col := col\<rparr>)
      in if pen_link (e_pen e2) \<noteq> 0 then set_pen e2 ((e_pen e2)\<lparr>pen_link := 0\<rparr>) else e2)"

definition alternate_screen :: "emulator \<Rightarrow> int \<Rightarrow> bool \<Rightarrow> emulator option" where
  "alternate_screen e mode on =
     (if on then
        (let e1 = e\<lparr>e_keyboard := enter_alt_screen (e_keyboard e)\<rparr>;
             e2 = (if mode = 1049 then save_cursor e1 else e1);
             e3 = switch_screen e2 True
         in if mode = 1049 then clear_screen e3 else Some e3)
      else
        do { let e1 = e\<lparr>e_keyboard := leave_alt_screen (e_keyboard e)\<rparr>;
             e2 \<leftarrow> (if mode = 1047 \<and> e_active e1 then clear_screen e1 else Some e1);
             let e3 = switch_screen e2 False;
             if mode = 1049 then restore_cursor e3 else Some e3 })"

text \<open>The first parameter of each group, in order.\<close>

function param_starts :: "params \<Rightarrow> nat \<Rightarrow> nat list" where
  "param_starts ps i = (if i < params_len ps then i # param_starts ps (params_next ps i) else [])"
  by pat_completeness auto
termination
proof (relation "measure (\<lambda>(ps, i). params_len ps - i)", goal_cases)
  case 1
  then show ?case by simp
next
  case (2 ps i)
  then show ?case using params_next_gt [of i ps] by simp
qed

declare param_starts.simps [simp del]

definition live_mode_set :: "emulator \<Rightarrow> int \<Rightarrow> bool \<Rightarrow> emulator option" where
  "live_mode_set e mode on =
     (case position (\<lambda>m. m = mode) LIVE_MODES of
        Some i \<Rightarrow> do { modes \<leftarrow> store (e_live_modes e) i on; Some (e\<lparr>e_live_modes := modes\<rparr>) }
      | None \<Rightarrow> Some e)"

definition private_mode :: "bool \<Rightarrow> emulator \<Rightarrow> int \<Rightarrow> emulator option" where
  "private_mode on e0 mode =
     do { e \<leftarrow> live_mode_set e0 mode on;
          if mode = 6 then home (e\<lparr>e_origin := on\<rparr>)
          else if mode = 7 then Some (e\<lparr>e_autowrap := on\<rparr>)
          else if mode = 69 then Some (e\<lparr>e_lr_margins := on\<rparr>)
          else if mode = 47 \<or> mode = 1047 \<or> mode = 1049 then alternate_screen e mode on
          else if mode = 1048 then (if on then Some (save_cursor e) else restore_cursor e)
          else Some e }"

definition set_private_modes :: "emulator \<Rightarrow> params \<Rightarrow> bool \<Rightarrow> emulator option" where
  "set_private_modes e ps on =
     foldM (private_mode on) e (map (params_raw ps) (param_starts ps 0))"

definition set_ansi_modes :: "emulator \<Rightarrow> params \<Rightarrow> bool \<Rightarrow> emulator" where
  "set_ansi_modes e ps on =
     foldl (\<lambda>e mode. if mode = 4 then e\<lparr>e_insert := on\<rparr> else e) e
       (map (params_raw ps) (param_starts ps 0))"

definition set_margins :: "emulator \<Rightarrow> params \<Rightarrow> emulator option" where
  "set_margins e ps =
     (let rows = int (e_rows e);
          tp = collect1 ps 0 1 1 rows;
          bottom = collect1 ps (params_next ps 0) rows 1 rows
      in if bottom \<le> tp then Some e
         else home (e\<lparr>e_top := nat (tp - 1), e_bottom := nat (bottom - 1)\<rparr>))"

definition reset_modes :: "emulator \<Rightarrow> emulator option" where
  "reset_modes e =
     do { last_row \<leftarrow> usub (e_rows e) 1;
          Some ((set_pen (e\<lparr>e_autowrap := True, e_origin := False, e_insert := False,
              e_lr_margins := False, e_charsets := (False, False), e_shift_out := False,
              e_top := 0, e_bottom := last_row\<rparr>) pen_default)
              \<lparr>e_live_modes := default_live_modes\<rparr>) }"

definition soft_reset :: "emulator \<Rightarrow> emulator option" where
  "soft_reset e =
     do { e1 \<leftarrow> reset_modes e;
          let e2 = save_cursor (e1\<lparr>e_active := False\<rparr>);
          let e3 = save_cursor (e2\<lparr>e_active := True\<rparr>);
          Some (e3\<lparr>e_active := e_active e1\<rparr>) }"

definition hard_reset :: "emulator \<Rightarrow> emulator option" where
  "hard_reset e =
     do { e1 \<leftarrow> reset_modes e;
          Some (e1\<lparr>e_normal := screen_new (e_rows e1) True,
            e_alternate := screen_new (e_rows e1) False, e_active := False,
            e_tabstops := default_tabstops (e_cols e1), e_last_graphic := None,
            e_keyboard := kitty_reset (e_keyboard e1), e_cursor_style := 0\<rparr>) }"

definition screen_alignment :: "emulator \<Rightarrow> emulator option" where
  "screen_alignment e =
     do { last_row \<leftarrow> usub (e_rows e) 1;
          let e1 = e\<lparr>e_top := 0, e_bottom := last_row\<rparr>;
          s \<leftarrow> foldM (\<lambda>s i. row_mut s i (\<lambda>r.
                 Some ((row_filled (e_cols e) \<lparr>c_code = 0x45, c_pen = 0\<rparr>)\<lparr>r_touched := True\<rparr>)))
               (scr e1) [0..<s_rows (scr e1)];
          home (set_scr e1 s) }"

subsection \<open>Hyperlinks\<close>

definition link_id :: "bytes \<Rightarrow> bytes option" where
  "link_id ps =
     (case find_map (strip_prefix (ascii ''id='')) (split_on 0x3a ps) of
        Some i \<Rightarrow> if i \<noteq> [] \<and> length i \<le> HYPERLINK_ID_MAX then Some i else None
      | None \<Rightarrow> None)"

definition link_text :: "bytes \<Rightarrow> bytes \<Rightarrow> bytes" where
  "link_text ps uri =
     (case link_id ps of
        Some i \<Rightarrow> ascii ''id='' @ from_utf8_lossy i @ [0x3b] @ from_utf8_lossy uri
      | None \<Rightarrow> 0x3b # from_utf8_lossy uri)"

definition set_hyperlink :: "emulator \<Rightarrow> bytes \<Rightarrow> emulator" where
  "set_hyperlink e rest =
     (case position (\<lambda>b. b = 0x3b) rest of
        None \<Rightarrow> e
      | Some split \<Rightarrow>
          (let ps = take split rest; uri = drop (split + 1) rest;
               (t, link) = (if uri = [] \<or> HYPERLINK_URI_MAX < length uri then (e_tables e, 0)
                            else intern_link (e_tables e) (link_text ps uri))
           in set_pen (e\<lparr>e_tables := t\<rparr>) ((e_pen e)\<lparr>pen_link := link\<rparr>)))"

subsection \<open>Resizing\<close>

definition clip_row :: "nat \<Rightarrow> row \<Rightarrow> row" where
  "clip_row cols r =
     (if cols < length (r_cells r) then truncate_row (cleanup_fragments r cols cols) cols else r)"

definition row_cost :: "row \<Rightarrow> nat" where
  "row_cost r = length (r_cells r) + ROW_OVERHEAD_CELLS"

definition resize_screen :: "nat \<Rightarrow> nat \<Rightarrow> nat \<Rightarrow> screen \<Rightarrow> bool \<Rightarrow> (screen \<times> bool) option" where
  "resize_screen cols rows budget s dropped =
     do { history \<leftarrow> history_len s;
          let lines1 = (if rows < s_rows s then take (history + rows) (s_lines s)
                        else s_lines s @ replicate (rows - s_rows s) row_default);
          let lines2 = map (clip_row cols) lines1;
          last_row \<leftarrow> usub rows 1;
          last_col \<leftarrow> usub cols 1;
          (lines3, h, dropped') \<leftarrow>
            evict (\<lambda>a b. Some (a - b)) rows (cols * rows) budget lines2
              (sum_list (map row_cost (take history lines2))) dropped;
          Some (s\<lparr>s_lines := lines3, s_rows := rows, s_history_cells := h,
                  s_row := min (s_row s) last_row, s_col := min (s_col s) last_col,
                  s_saved := (s_saved s)\<lparr>sv_row := min (sv_row (s_saved s)) last_row,
                    sv_col := min (sv_col (s_saved s)) last_col\<rparr>\<rparr>, dropped') }"

definition resize_tabstops :: "nat \<Rightarrow> bool list \<Rightarrow> bool list" where
  "resize_tabstops cols stops =
     foldl (\<lambda>ts c. if c mod 8 = 0 then ts[c := True] else ts) (resize stops cols False)
       [length stops..<cols]"

definition emulator_resize :: "emulator \<Rightarrow> nat \<Rightarrow> nat \<Rightarrow> emulator option" where
  "emulator_resize e cols rows =
     (if cols = e_cols e \<and> rows = e_rows e then Some e
      else
        do { (n, d1) \<leftarrow> resize_screen cols rows (e_budget e) (e_normal e) (e_head_dropped e);
             (a, d2) \<leftarrow> resize_screen cols rows (e_budget e) (e_alternate e) d1;
             last_row \<leftarrow> usub rows 1;
             Some (e\<lparr>e_normal := n, e_alternate := a, e_head_dropped := d2, e_cols := cols,
               e_rows := rows, e_top := 0, e_bottom := last_row,
               e_tabstops := resize_tabstops cols (e_tabstops e)\<rparr>) })"

subsection \<open>Dispatch\<close>

definition set_tabstop :: "emulator \<Rightarrow> bool \<Rightarrow> emulator option" where
  "set_tabstop e on =
     do { col \<leftarrow> xterm_col e;
          stops \<leftarrow> store (e_tabstops e) col on;
          Some (e\<lparr>e_tabstops := stops\<rparr>) }"

definition execute :: "emulator \<Rightarrow> u32 \<Rightarrow> emulator option" where
  "execute e control =
     (if control = 0x08 then move_backward e 1
      else if control = 0x09 then tab_forward e 1
      else if (0x0a \<le> control \<and> control \<le> 0x0c) \<or> control = 0x84 then line_feed e
      else if control = 0x0d then Some (set_col e 0)
      else if control = 0x0e then Some (e\<lparr>e_shift_out := True\<rparr>)
      else if control = 0x0f then Some (e\<lparr>e_shift_out := False\<rparr>)
      else if control = 0x85 then next_line e
      else if control = 0x88 then set_tabstop e True
      else if control = 0x8d then reverse_index e
      else Some e)"

definition I32_MIN :: int where "I32_MIN = - (2 ^ 31)"
definition I32_MAX :: int where "I32_MAX = 2 ^ 31 - 1"

definition csi_count :: "params \<Rightarrow> int" where
  "csi_count ps = collect1 ps 0 1 I32_MIN I32_MAX"

text \<open>\<open>v.clamp(lo, hi) as u8\<close> between constants in order.\<close>

definition clamp_u8 :: "int \<Rightarrow> int \<Rightarrow> int \<Rightarrow> u8" where
  "clamp_u8 v lo hi = of_int (max lo (min v hi))"

definition erase_display :: "emulator \<Rightarrow> int \<Rightarrow> emulator option" where
  "erase_display e mode =
     (if mode = -1 \<or> mode = 0 then clear_below e
      else if mode = 1 then clear_above e
      else if mode = 2 then clear_screen e
      else if mode = 3 then clear_history e
      else Some e)"

definition erase_line :: "emulator \<Rightarrow> int \<Rightarrow> emulator option" where
  "erase_line e mode =
     (if mode = -1 \<or> mode = 0 then clear_to_eol e
      else if mode = 1 then clear_to_bol e
      else if mode = 2 then clear_line e
      else Some e)"

definition clear_tabstops :: "emulator \<Rightarrow> int \<Rightarrow> emulator option" where
  "clear_tabstops e mode =
     (if mode = -1 \<or> mode = 0 then set_tabstop e False
      else if mode = 2 \<or> mode = 3 \<or> mode = 5 then
        Some (e\<lparr>e_tabstops := replicate (length (e_tabstops e)) False\<rparr>)
      else Some e)"

text \<open>The arms of \<open>csi\<close> without a private prefix or an intermediate byte, by final byte.\<close>

definition csi_plain ::
  "(u32 \<Rightarrow> nat option) \<Rightarrow> emulator \<Rightarrow> params \<Rightarrow> u8 \<Rightarrow> emulator option" where
  "csi_plain uw e ps fin =
     (let rows = int (e_rows e); cols = int (e_cols e); count = csi_count ps in
      if fin = 0x40 then insert_chars e count
      else if fin = 0x41 then move_up e count
      else if fin = 0x42 then move_down e count
      else if fin = 0x43 then move_forward e count
      else if fin = 0x44 then move_backward e count
      else if fin = 0x45 then move_down (set_col e 0) count
      else if fin = 0x46 then move_up (set_col e 0) count
      else if fin = 0x47 \<or> fin = 0x60 then set_cursor_col e (collect1 ps 0 1 1 cols - 1)
      else if fin = 0x48 \<or> fin = 0x66 then
        do { e1 \<leftarrow> set_cursor_col e (collect1 ps (params_next ps 0) 1 1 cols - 1);
             set_cursor_row e1 (collect1 ps 0 1 1 rows - 1) }
      else if fin = 0x49 then tab_forward e count
      else if fin = 0x4a then erase_display e (params_raw ps 0)
      else if fin = 0x4b then erase_line e (params_raw ps 0)
      else if fin = 0x4c then insert_lines e count
      else if fin = 0x4d then delete_lines e count
      else if fin = 0x50 then delete_chars e count
      else if fin = 0x53 then scroll_up e (e_top e) (e_bottom e) (nat (max count 1)) True
      else if fin = 0x54 then
        (if params_len ps < 5
         then scroll_down e (e_top e) (e_bottom e) (nat (max count 1)) True else Some e)
      else if fin = 0x58 then erase_chars e count
      else if fin = 0x5a then tab_backward e count
      else if fin = 0x62 then repeat_char uw e ps
      else if fin = 0x64 then
        do { e1 \<leftarrow> retreat e; set_cursor_row e1 (collect1 ps 0 1 1 rows - 1) }
      else if fin = 0x67 then clear_tabstops e (params_raw ps 0)
      else if fin = 0x68 then Some (set_ansi_modes e ps True)
      else if fin = 0x6c then Some (set_ansi_modes e ps False)
      else if fin = 0x6d then Some (set_pen e (apply_sgr (e_pen e) ps))
      else if fin = 0x72 then set_margins e ps
      else if fin = 0x73 then Some (if e_lr_margins e then e else save_cursor e)
      else if fin = 0x75 then restore_cursor e
      else Some e)"

definition csi_private :: "emulator \<Rightarrow> params \<Rightarrow> u8 \<Rightarrow> emulator option" where
  "csi_private e ps fin =
     (if fin = 0x4a then erase_display e (params_raw ps 0)
      else if fin = 0x4b then erase_line e (params_raw ps 0)
      else if fin = 0x68 then set_private_modes e ps True
      else if fin = 0x6c then set_private_modes e ps False
      else Some e)"

definition keyboard_op :: "emulator \<Rightarrow> kitty_op \<Rightarrow> emulator" where
  "keyboard_op e op = e\<lparr>e_keyboard := kitty_apply (e_keyboard e) op\<rparr>"

definition csi ::
  "(u32 \<Rightarrow> nat option) \<Rightarrow> emulator \<Rightarrow> params \<Rightarrow> u8 \<Rightarrow> u8 \<Rightarrow> u8 \<Rightarrow> emulator option" where
  "csi uw e ps prefix intermediate fin =
     (if prefix = 0 \<and> intermediate = 0 then csi_plain uw e ps fin
      else if prefix = 0x3f \<and> intermediate = 0 then csi_private e ps fin
      else if prefix = 0x3e \<and> intermediate = 0 \<and> fin = 0x75 then
        Some (keyboard_op e (KPush (clamp_u8 (params_get ps 0 0) 0 255)))
      else if prefix = 0x3c \<and> intermediate = 0 \<and> fin = 0x75 then
        Some (keyboard_op e (KPop (clamp_u8 (params_get ps 0 1) 1 255)))
      else if prefix = 0x3d \<and> intermediate = 0 \<and> fin = 0x75 then
        Some (keyboard_op e (KSet (clamp_u8 (params_get ps 0 0) 0 255)
          (clamp_u8 (params_get ps (params_next ps 0) 1) 1 3)))
      else if prefix = 0 \<and> intermediate = 0x20 \<and> fin = 0x71 then
        Some (e\<lparr>e_cursor_style := clamp_u8 (params_get ps 0 0) 0 6\<rparr>)
      else if prefix = 0 \<and> intermediate = 0x21 \<and> fin = 0x70 then soft_reset e
      else Some e)"

definition keypad_mode :: "emulator \<Rightarrow> bool \<Rightarrow> emulator option" where
  "keypad_mode e on =
     do { modes \<leftarrow> store (e_live_modes e) 2 on; Some (e\<lparr>e_live_modes := modes\<rparr>) }"

definition esc :: "emulator \<Rightarrow> u8 \<Rightarrow> u8 \<Rightarrow> emulator option" where
  "esc e intermediate fin =
     (if intermediate = 0 then
        (if fin = 0x37 then Some (save_cursor e)
         else if fin = 0x38 then restore_cursor e
         else if fin = 0x44 then line_feed e
         else if fin = 0x45 then next_line e
         else if fin = 0x48 then set_tabstop e True
         else if fin = 0x4d then reverse_index e
         else if fin = 0x63 then hard_reset e
         else if fin = 0x3d then keypad_mode e True
         else if fin = 0x3e then keypad_mode e False
         else Some e)
      else if intermediate = 0x23 then (if fin = 0x38 then screen_alignment e else Some e)
      else if intermediate = 0x28 then Some (e\<lparr>e_charsets := (fin = 0x30, snd (e_charsets e))\<rparr>)
      else if intermediate = 0x29 then Some (e\<lparr>e_charsets := (fst (e_charsets e), fin = 0x30)\<rparr>)
      else Some e)"

definition osc :: "emulator \<Rightarrow> bytes \<Rightarrow> emulator" where
  "osc e payload =
     (case strip_prefix [0x38, 0x3b] payload of Some rest \<Rightarrow> set_hyperlink e rest | None \<Rightarrow> e)"

text \<open>The implementation of the trait \<open>Perform\<close>: every callback compacts first.\<close>

fun perform_event :: "(u32 \<Rightarrow> nat option) \<Rightarrow> emulator \<Rightarrow> event \<Rightarrow> emulator option" where
  "perform_event uw e (EvPrintAscii run) = print_ascii_run uw e run"
| "perform_event uw e (EvPrint c) = print_char uw e c"
| "perform_event uw e (EvExecute control) = execute e control"
| "perform_event uw e (EvCsi ps prefix intermediate fin) = csi uw e ps prefix intermediate fin"
| "perform_event uw e (EvEsc intermediate fin) = esc e intermediate fin"
| "perform_event uw e (EvOsc payload) = Some (osc e payload)"

definition perform :: "(u32 \<Rightarrow> nat option) \<Rightarrow> emulator \<Rightarrow> event \<Rightarrow> emulator option" where
  "perform uw e ev = do { e1 \<leftarrow> maybe_compact e; perform_event uw e1 ev }"

end
