(* ===== verification/Replay_Tables_Facts.thy ===== *)
theory Replay_Tables_Facts
  imports Replay_Text
begin

text \<open>
  What the interning tables promise: a contract of an interning table stated as a locale and
  proved for pens, hyperlinks and clusters; and compaction, which renumbers the entries without
  changing what any cell of the grid refers to.
\<close>

subsection \<open>The contract of an interning table\<close>

text \<open>
  \<open>add\<close> interns a value and returns its number, \<open>get\<close> looks a number up, \<open>ok\<close> is the table's
  invariant.
\<close>

locale interning =
  fixes add :: "'t \<Rightarrow> 'v \<Rightarrow> 't \<times> nat"
    and get :: "'t \<Rightarrow> nat \<Rightarrow> 'v option"
    and ok :: "'t \<Rightarrow> bool"
  assumes add_ok: "ok t \<Longrightarrow> ok (fst (add t x))"
    and add_get: "ok t \<Longrightarrow> get (fst (add t x)) (snd (add t x)) = Some x"
    and add_keeps: "ok t \<Longrightarrow> get t i = Some y \<Longrightarrow> get (fst (add t x)) i = Some y"
    and add_known: "ok t \<Longrightarrow> get t i = Some x \<Longrightarrow> fst (add t x) = t"
begin

definition add_all :: "'t \<Rightarrow> 'v list \<Rightarrow> 't" where
  "add_all t xs = foldl (\<lambda>t x. fst (add t x)) t xs"

lemma add_all_simps [simp]:
  "add_all t [] = t"
  "add_all t (x # xs) = add_all (fst (add t x)) xs"
  by (simp_all add: add_all_def)

lemma add_all_ok: "ok t \<Longrightarrow> ok (add_all t xs)"
  by (induction xs arbitrary: t) (simp_all add: add_ok)

lemma add_all_keeps: "ok t \<Longrightarrow> get t i = Some y \<Longrightarrow> get (add_all t xs) i = Some y"
  by (induction xs arbitrary: t) (simp_all add: add_ok add_keeps)

text \<open>A number handed out stays valid however many values are interned after it.\<close>

lemma number_stable:
  "ok t \<Longrightarrow> get (add_all (fst (add t x)) ys) (snd (add t x)) = Some x"
  by (rule add_all_keeps) (simp_all add: add_ok add_get)

text \<open>Numbers of different values differ.\<close>

lemma numbers_differ:
  assumes "ok t" and "x \<noteq> y"
  shows "snd (add t x) \<noteq> snd (add (add_all (fst (add t x)) zs) y)"
proof
  assume same: "snd (add t x) = snd (add (add_all (fst (add t x)) zs) y)"
  let ?u = "add_all (fst (add t x)) zs"
  have "ok ?u" using assms(1) by (simp add: add_ok add_all_ok)
  then have "get (fst (add ?u y)) (snd (add ?u y)) = Some y"
    and "get (fst (add ?u y)) (snd (add t x)) = Some x"
    using number_stable [OF assms(1), of x zs] by (simp_all add: add_get add_keeps)
  with same assms(2) show False by simp
qed

text \<open>Interning a value twice adds nothing the second time.\<close>

lemma add_twice:
  assumes "ok t"
  shows "fst (add (add_all (fst (add t x)) ys) x) = add_all (fst (add t x)) ys"
  using number_stable [OF assms, of x ys] add_known [of "add_all (fst (add t x)) ys"]
  by (simp add: assms add_ok add_all_ok)

end

subsection \<open>One interner\<close>

definition wf_interner :: "'a interner \<Rightarrow> bool" where
  "wf_interner t \<longleftrightarrow>
     i_values t \<noteq> [] \<and>
     (\<forall>x i. i_ids t x = Some i \<longrightarrow> i < length (i_values t) \<and> i_values t ! i = x) \<and>
     set (i_values t) = dom (i_ids t)"

lemma wf_internerD:
  assumes "wf_interner t"
  shows "i_ids t x = Some i \<Longrightarrow> i < length (i_values t) \<and> i_values t ! i = x"
    and "x \<in> set (i_values t) \<Longrightarrow> \<exists>i. i_ids t x = Some i"
    and "i_values t \<noteq> []"
  using assms by (auto simp: wf_interner_def)

lemma wf_with_first: "wf_interner (with_first x)"
  by (simp add: wf_interner_def with_first_def)

lemma intern_cases:
  assumes "wf_interner t"
  obtains (old) i where "intern t x = (t, i)" "i < length (i_values t)" "i_values t ! i = x"
  | (new) "intern t x =
        (t\<lparr>i_values := i_values t @ [x], i_ids := (i_ids t)(x \<mapsto> length (i_values t))\<rparr>,
         length (i_values t))" "x \<notin> set (i_values t)"
proof (cases "i_ids t x")
  case None
  then have "x \<notin> set (i_values t)" using wf_internerD(2) [OF assms] by force
  then show ?thesis using None new by (simp add: intern_def Let_def)
next
  case (Some i)
  then show ?thesis using old wf_internerD(1) [OF assms Some] by (simp add: intern_def)
qed

lemma wf_intern: "wf_interner t \<Longrightarrow> wf_interner (fst (intern t x))"
proof (rule intern_cases [of t x], assumption)
  assume wf: "wf_interner t" and new: "x \<notin> set (i_values t)" and
    eq: "intern t x = (t\<lparr>i_values := i_values t @ [x],
           i_ids := (i_ids t)(x \<mapsto> length (i_values t))\<rparr>, length (i_values t))"
  have old: "i_ids t y = Some j \<Longrightarrow> j < length (i_values t) \<and> i_values t ! j = y" for y j
    using wf_internerD(1) [OF wf] .
  have dom: "set (i_values t) = dom (i_ids t)" using wf by (simp add: wf_interner_def)
  show ?thesis
    unfolding eq wf_interner_def
    by (auto simp: nth_append dom dest!: old split: if_splits)
qed auto

lemma intern_nth:
  "wf_interner t \<Longrightarrow> snd (intern t x) < length (i_values (fst (intern t x))) \<and>
     i_values (fst (intern t x)) ! snd (intern t x) = x"
  by (rule intern_cases [of t x]) auto

lemma intern_extends:
  "wf_interner t \<Longrightarrow> \<exists>ys. i_values (fst (intern t x)) = i_values t @ ys \<and> set ys \<subseteq> {x}"
  by (rule intern_cases [of t x]) auto

lemma intern_old_nth:
  "wf_interner t \<Longrightarrow> i < length (i_values t) \<Longrightarrow>
     i < length (i_values (fst (intern t x))) \<and>
     i_values (fst (intern t x)) ! i = i_values t ! i"
  using intern_extends [of t x] by (auto simp: nth_append)

lemma intern_known: "wf_interner t \<Longrightarrow> x \<in> set (i_values t) \<Longrightarrow> fst (intern t x) = t"
  using wf_internerD(2) [of t x] by (auto simp: intern_def)

subsection \<open>The three tables\<close>

definition npens :: "tables \<Rightarrow> nat" where "npens t = length (i_values (t_pens t))"
definition nlinks :: "tables \<Rightarrow> nat" where "nlinks t = length (i_values (t_links t))"
definition nclusters :: "tables \<Rightarrow> nat" where "nclusters t = length (i_values (t_clusters t))"

lemmas table_sizes = npens_def nlinks_def nclusters_def

definition wf_tables :: "tables \<Rightarrow> bool" where
  "wf_tables t \<longleftrightarrow>
     wf_interner (t_pens t) \<and> wf_interner (t_links t) \<and> wf_interner (t_clusters t) \<and>
     (\<forall>p \<in> set (i_values (t_pens t)). pen_link p < nlinks t) \<and>
     i_values (t_pens t) ! 0 = pen_default \<and> i_values (t_links t) ! 0 = [] \<and>
     i_values (t_clusters t) ! 0 = []"

lemma wf_tables_default: "wf_tables tables_default"
  by (simp add: wf_tables_def tables_default_def wf_with_first nlinks_def)
    (simp add: with_first_def pen_default_def)

lemma wf_tablesD:
  assumes "wf_tables t"
  shows "wf_interner (t_pens t)" "wf_interner (t_links t)" "wf_interner (t_clusters t)"
    "0 < npens t" "0 < nlinks t" "0 < nclusters t"
    "p \<in> set (i_values (t_pens t)) \<Longrightarrow> pen_link p < nlinks t"
  using assms by (auto simp: wf_tables_def table_sizes wf_interner_def)

lemma intern_nth_zero:
  "wf_interner t \<Longrightarrow> i_values (fst (intern t x)) ! 0 = i_values t ! 0"
  using intern_extends [of t x] wf_internerD(3) [of t] by (auto simp: nth_append)

lemma fst_intern_pen: "fst (intern_pen t p) = t\<lparr>t_pens := fst (intern (t_pens t) p)\<rparr>"
  by (simp add: intern_pen_def split: prod.split)

lemma fst_intern_link: "fst (intern_link t l) = t\<lparr>t_links := fst (intern (t_links t) l)\<rparr>"
  by (simp add: intern_link_def split: prod.split)

lemma fst_intern_cluster:
  "fst (intern_cluster t c) = t\<lparr>t_clusters := fst (intern (t_clusters t) c)\<rparr>"
  by (simp add: intern_cluster_def split: prod.split)

lemma snd_interns:
  "snd (intern_pen t p) = snd (intern (t_pens t) p)"
  "snd (intern_link t l) = snd (intern (t_links t) l)"
  "snd (intern_cluster t c) = snd (intern (t_clusters t) c)"
  by (simp_all add: intern_pen_def intern_link_def intern_cluster_def split: prod.split)

lemmas interns = fst_intern_pen fst_intern_link fst_intern_cluster snd_interns

lemma intern_length: "wf_interner t \<Longrightarrow> length (i_values t) \<le> length (i_values (fst (intern t x)))"
  using intern_extends [of t x] by auto

lemma intern_set: "wf_interner t \<Longrightarrow> set (i_values (fst (intern t x))) \<subseteq> insert x (set (i_values t))"
  using intern_extends [of t x] by auto

lemma wf_intern_pen:
  assumes "wf_tables t" "pen_link p < nlinks t"
  shows "wf_tables (fst (intern_pen t p))"
  using assms wf_intern [of "t_pens t" p] intern_nth_zero [of "t_pens t" p]
    intern_set [of "t_pens t" p]
  by (auto simp: wf_tables_def fst_intern_pen nlinks_def)

lemma wf_intern_link:
  assumes "wf_tables t"
  shows "wf_tables (fst (intern_link t l))"
  using assms wf_intern [of "t_links t" l] intern_nth_zero [of "t_links t" l]
    intern_length [of "t_links t" l]
  by (auto simp: wf_tables_def fst_intern_link nlinks_def)

lemma wf_intern_cluster:
  assumes "wf_tables t"
  shows "wf_tables (fst (intern_cluster t c))"
  using assms wf_intern [of "t_clusters t" c] intern_nth_zero [of "t_clusters t" c]
  by (auto simp: wf_tables_def fst_intern_cluster nlinks_def)

text \<open>The tables as interning tables; a pen must name a link the table has.\<close>

interpretation links: interning intern_link link_at wf_tables
proof
  fix t x i y
  assume t: "wf_tables t"
  show "wf_tables (fst (intern_link t x))" using t by (rule wf_intern_link)
  show "link_at (fst (intern_link t x)) (snd (intern_link t x)) = Some x"
    using intern_nth [OF wf_tablesD(2) [OF t], of x] by (simp add: interns link_at_def index_def)
  show "link_at t i = Some y \<Longrightarrow> link_at (fst (intern_link t x)) i = Some y"
    using intern_old_nth [OF wf_tablesD(2) [OF t], of i x]
    by (auto simp: interns link_at_def index_def split: if_splits)
  show "link_at t i = Some x \<Longrightarrow> fst (intern_link t x) = t"
    using intern_known [OF wf_tablesD(2) [OF t], of x]
    by (auto simp: interns link_at_def index_def split: if_splits)
qed

interpretation clusters: interning intern_cluster cluster_at wf_tables
proof
  fix t x i y
  assume t: "wf_tables t"
  show "wf_tables (fst (intern_cluster t x))" using t by (rule wf_intern_cluster)
  show "cluster_at (fst (intern_cluster t x)) (snd (intern_cluster t x)) = Some x"
    using intern_nth [OF wf_tablesD(3) [OF t], of x] by (simp add: interns cluster_at_def index_def)
  show "cluster_at t i = Some y \<Longrightarrow> cluster_at (fst (intern_cluster t x)) i = Some y"
    using intern_old_nth [OF wf_tablesD(3) [OF t], of i x]
    by (auto simp: interns cluster_at_def index_def split: if_splits)
  show "cluster_at t i = Some x \<Longrightarrow> fst (intern_cluster t x) = t"
    using intern_known [OF wf_tablesD(3) [OF t], of x]
    by (auto simp: interns cluster_at_def index_def split: if_splits)
qed

interpretation pens: interning intern_pen pen_at "\<lambda>t :: tables. wf_interner (t_pens t)"
proof
  fix t :: tables and x i y
  assume t: "wf_interner (t_pens t)"
  show "wf_interner (t_pens (fst (intern_pen t x)))" using t by (simp add: interns wf_intern)
  show "pen_at (fst (intern_pen t x)) (snd (intern_pen t x)) = Some x"
    using intern_nth [OF t, of x] by (simp add: interns pen_at_def index_def)
  show "pen_at t i = Some y \<Longrightarrow> pen_at (fst (intern_pen t x)) i = Some y"
    using intern_old_nth [OF t, of i x]
    by (auto simp: interns pen_at_def index_def split: if_splits)
  show "pen_at t i = Some x \<Longrightarrow> fst (intern_pen t x) = t"
    using intern_known [OF t, of x]
    by (auto simp: interns pen_at_def index_def split: if_splits)
qed

subsection \<open>Growing tables\<close>

definition tables_le :: "tables \<Rightarrow> tables \<Rightarrow> bool" where
  "tables_le t u \<longleftrightarrow>
     (\<exists>ps ls cs. i_values (t_pens u) = i_values (t_pens t) @ ps \<and>
        i_values (t_links u) = i_values (t_links t) @ ls \<and>
        i_values (t_clusters u) = i_values (t_clusters t) @ cs)"

lemma tables_le_refl [simp]: "tables_le t t"
  by (simp add: tables_le_def)

lemma tables_le_trans: "tables_le t u \<Longrightarrow> tables_le u v \<Longrightarrow> tables_le t v"
  by (auto simp: tables_le_def)

lemma tables_le_sizes:
  "tables_le t u \<Longrightarrow> npens t \<le> npens u \<and> nlinks t \<le> nlinks u \<and> nclusters t \<le> nclusters u"
  by (auto simp: tables_le_def table_sizes)

lemma tables_le_at:
  "tables_le t u \<Longrightarrow> pen_at t i = Some p \<Longrightarrow> pen_at u i = Some p"
  "tables_le t u \<Longrightarrow> i < npens t \<Longrightarrow> pen_at u i = pen_at t i"
  by (auto simp: tables_le_def pen_at_def index_def nth_append npens_def split: if_splits)

lemma tables_le_intern:
  "wf_interner (t_pens t) \<Longrightarrow> tables_le t (fst (intern_pen t p))"
  "wf_tables t \<Longrightarrow> tables_le t (fst (intern_link t l))"
  "wf_tables t \<Longrightarrow> tables_le t (fst (intern_cluster t c))"
  using intern_extends [of "t_pens t" p] intern_extends [of "t_links t" l]
    intern_extends [of "t_clusters t" c] wf_tablesD [of t]
  by (auto simp: tables_le_def interns)

lemma runs_pen_at [simp]:
  "runs (pen_at t i) P \<longleftrightarrow> i < npens t \<and> P (i_values (t_pens t) ! i)"
  by (simp add: pen_at_def npens_def)

lemma runs_link_at [simp]:
  "runs (link_at t i) P \<longleftrightarrow> i < nlinks t \<and> P (i_values (t_links t) ! i)"
  by (simp add: link_at_def nlinks_def)

lemma runs_cluster_at [simp]:
  "runs (cluster_at t i) P \<longleftrightarrow> i < nclusters t \<and> P (i_values (t_clusters t) ! i)"
  by (simp add: cluster_at_def nclusters_def)

subsection \<open>What \<open>retain\<close> keeps\<close>

definition kept_at :: "bool list \<Rightarrow> nat \<Rightarrow> bool" where
  "kept_at live i \<longleftrightarrow> i = 0 \<or> live ! i"

text \<open>The state of the loop of \<open>retain\<close> after the entries \<open>old\<close>.\<close>

definition retained :: "bool list \<Rightarrow> 'a list \<Rightarrow> 'a list \<times> ('a \<Rightarrow> nat option) \<times> nat list \<Rightarrow> bool" where
  "retained live old acc \<longleftrightarrow>
     (case acc of (kept, ids, remap) \<Rightarrow>
        length remap = length old \<and>
        length kept = length (filter (kept_at live) [0..<length old]) \<and>
        set kept = dom ids \<and> set kept \<subseteq> set old \<and>
        (\<forall>x i. ids x = Some i \<longrightarrow> i < length kept \<and> kept ! i = x) \<and>
        (\<forall>i < length old. remap ! i \<le> i \<and>
           (if kept_at live i then remap ! i < length kept \<and> kept ! (remap ! i) = old ! i
            else remap ! i = 0)) \<and>
        (old \<noteq> [] \<longrightarrow> kept \<noteq> [] \<and> kept ! 0 = old ! 0))"

lemma retained_step:
  assumes r: "retained live old (kept, ids, remap)"
  shows "retained live (old @ [x])
     (if kept_at live (length old)
      then (kept @ [x], ids(x \<mapsto> length kept), remap @ [length kept])
      else (kept, ids, remap @ [0]))"
proof -
  have len: "length remap = length old"
    and count: "length kept = length (filter (kept_at live) [0..<length old])"
    and sub: "set kept \<subseteq> set old"
    and ids: "set kept = dom ids" "\<And>x i. ids x = Some i \<Longrightarrow> i < length kept \<and> kept ! i = x"
    and at: "\<And>i. i < length old \<Longrightarrow> remap ! i \<le> i \<and>
           (if kept_at live i then remap ! i < length kept \<and> kept ! (remap ! i) = old ! i
            else remap ! i = 0)"
    and first: "old \<noteq> [] \<Longrightarrow> kept \<noteq> [] \<and> kept ! 0 = old ! 0"
    using r by (auto simp: retained_def)
  have short: "length kept \<le> length old"
    using count length_filter_le [of "kept_at live" "[0..<length old]"] by simp
  show ?thesis
  proof (cases "kept_at live (length old)")
    case True
    have "retained live (old @ [x]) (kept @ [x], ids(x \<mapsto> length kept), remap @ [length kept])"
      unfolding retained_def prod.case
    proof (intro conjI allI impI)
      fix i assume "i < length (old @ [x])"
      then show "(remap @ [length kept]) ! i \<le> i"
        "if kept_at live i then (remap @ [length kept]) ! i < length (kept @ [x]) \<and>
           (kept @ [x]) ! ((remap @ [length kept]) ! i) = (old @ [x]) ! i
         else (remap @ [length kept]) ! i = 0"
        using at [of i] True short
        by (cases "i < length old"; force simp: nth_append len less_Suc_eq split: if_splits)+
    next
      fix y i assume "(ids(x \<mapsto> length kept)) y = Some i"
      then show "i < length (kept @ [x])" "(kept @ [x]) ! i = y"
        using ids(2) [of y i] by (auto simp: nth_append split: if_splits)
    next
      assume "old @ [x] \<noteq> []"
      show "(kept @ [x]) ! 0 = (old @ [x]) ! 0"
        using first len short by (cases "old = []") (auto simp: nth_append)
    qed (use sub in \<open>auto simp: len count ids(1) True\<close>)
    with True show ?thesis by simp
  next
    case False
    then have ne: "old \<noteq> []" by (auto simp: kept_at_def)
    have "retained live (old @ [x]) (kept, ids, remap @ [0])"
      unfolding retained_def prod.case
    proof (intro conjI allI impI)
      fix i assume "i < length (old @ [x])"
      then show "(remap @ [0]) ! i \<le> i"
        "if kept_at live i then (remap @ [0]) ! i < length kept \<and>
           kept ! ((remap @ [0]) ! i) = (old @ [x]) ! i else (remap @ [0]) ! i = 0"
        using at [of i] False
        by (cases "i < length old"; force simp: nth_append len less_Suc_eq split: if_splits)+
    qed (use first ne False ids sub in \<open>auto simp: len count nth_append\<close>)
    with False show ?thesis by simp
  qed
qed

lemma retain_loop_retained:
  "retained live old acc \<Longrightarrow> length old + length xs \<le> length live \<Longrightarrow>
     runs (retain_loop live (length old) xs acc) (retained live (old @ xs))"
proof (induction xs arbitrary: old acc)
  case Nil
  then show ?case by (cases acc) simp
next
  case (Cons x xs)
  obtain kept ids remap where acc: "acc = (kept, ids, remap)" by (cases acc)
  let ?new = "if kept_at live (length old)
      then (kept @ [x], ids(x \<mapsto> length kept), remap @ [length kept])
      else (kept, ids, remap @ [0])"
  have step: "retained live (old @ [x]) ?new"
    using retained_step Cons.prems(1) unfolding acc .
  have "runs (retain_loop live (length (old @ [x])) xs ?new) (retained live ((old @ [x]) @ xs))"
    by (rule Cons.IH [OF step]) (use Cons.prems(2) in simp)
  then show ?case
    using Cons.prems(2) unfolding acc kept_at_def
    by (cases "length old = 0"; cases "live ! length old") simp_all
qed

lemma retain_retained:
  assumes "length live = length (i_values t)"
  shows "runs (retain t live) (\<lambda>(u, remap).
     retained live (i_values t) (i_values u, i_ids u, remap) \<and>
     i_limit u = max COMPACT_FLOOR (length (i_values u) * 2))"
proof -
  have "retained live [] ([], Map.empty, [])" by (simp add: retained_def)
  from retain_loop_retained [OF this, of "i_values t"] assms
  show ?thesis by (auto simp: retain_def elim!: runs_mono)
qed

lemma retained_wf:
  "retained live old (i_values u, i_ids u, remap) \<Longrightarrow> old \<noteq> [] \<Longrightarrow> wf_interner u"
  by (auto simp: retained_def wf_interner_def)

end
