(* ===== verification/Replay_Compaction.thy ===== *)
theory Replay_Compaction
  imports Replay_Tables_Facts
begin

text \<open>
  Compaction (\<open>Tables::compact\<close> in \<open>src/src/screen_replay/tables.rs\<close>) never panics on a
  well-formed grid, renumbers without changing what a cell shows, and leaves tables no larger
  than the grid they serve.
\<close>

subsection \<open>Bits of a cell code\<close>

lemmas code_bit_defs = FRAGMENT_def WIDE_def CLUSTER_def VALUE_MASK_def

lemma value_mask: "VALUE_MASK = mask 29"
  by (simp add: code_bit_defs mask_eq_exp_minus_1 push_bit_eq_mult)

lemma code_bits:
  "bit FRAGMENT i \<longleftrightarrow> i = 31" "bit WIDE i \<longleftrightarrow> i = 30" "bit CLUSTER i \<longleftrightarrow> i = 29"
  "bit VALUE_MASK i \<longleftrightarrow> i < 29"
proof -
  show "bit FRAGMENT i \<longleftrightarrow> i = 31" "bit WIDE i \<longleftrightarrow> i = 30" "bit CLUSTER i \<longleftrightarrow> i = 29"
    unfolding code_bit_defs bit_push_bit_iff by (auto simp: bit_1_iff)
  show "bit VALUE_MASK i \<longleftrightarrow> i < 29" unfolding value_mask bit_mask_iff by auto
qed

lemma is_fragment_bit: "is_fragment c \<longleftrightarrow> bit (c_code c) 31"
  using and_bit_nonzero [of "c_code c" 31] by (simp add: is_fragment_def code_bit_defs push_bit_eq_mult)

lemma cluster_bit: "code AND CLUSTER \<noteq> 0 \<longleftrightarrow> bit code 29"
  using and_bit_nonzero [of code 29] by (simp add: code_bit_defs push_bit_eq_mult)

lemma is_cluster_code_bit: "is_cluster_code code \<longleftrightarrow> bit code 29 \<and> \<not> bit code 31"
proof
  assume "is_cluster_code code"
  then have "bit (code AND (CLUSTER OR FRAGMENT)) i = bit CLUSTER i" for i
    by (simp add: is_cluster_code_def)
  from this [of 29] this [of 31] show "bit code 29 \<and> \<not> bit code 31"
    by (simp add: bit_and_iff bit_or_iff code_bits)
next
  assume "bit code 29 \<and> \<not> bit code 31"
  then show "is_cluster_code code"
    unfolding is_cluster_code_def
    by (intro bit_eqI) (auto simp: bit_and_iff bit_or_iff code_bits)
qed

lemma cluster_index_small: "cluster_index code < 2 ^ 29"
  unfolding cluster_index_def value_mask unat_and_mask by simp

lemma replace_index_bits:
  fixes code :: u32
  assumes "n < 2 ^ 29"
  defines "new \<equiv> (code AND NOT VALUE_MASK) OR of_nat n"
  shows "cluster_index new = n" "new AND NOT VALUE_MASK = code AND NOT VALUE_MASK"
    "is_cluster_code new = is_cluster_code code"
proof -
  have un: "unat (of_nat n :: u32) = n"
    using assms(1) by (simp add: unat_of_nat take_bit_eq_mod)
  then have small: "\<not> bit (of_nat n :: u32) i" if "29 \<le> i" for i
    using bit_small [of "of_nat n :: u32" 29 i] that assms(1) by simp
  have bits: "bit new i \<longleftrightarrow> (if i < 29 then bit (of_nat n :: u32) i else bit code i)" for i
    using small [of i] by (auto simp: new_def bit_or_iff bit_and_iff bit_not_iff code_bits
        dest: bit_imp_le_length)
  have "new AND VALUE_MASK = of_nat n"
    by (rule bit_eqI) (use small bits in \<open>auto simp: bit_and_iff code_bits linorder_not_less\<close>)
  then show "cluster_index new = n" by (simp add: cluster_index_def un)
  show "new AND NOT VALUE_MASK = code AND NOT VALUE_MASK"
    by (rule bit_eqI) (auto simp: bit_and_iff bit_not_iff code_bits bits)
  show "is_cluster_code new = is_cluster_code code"
    by (simp add: is_cluster_code_bit bits)
qed

subsection \<open>Well-formed cells\<close>

definition wf_cell :: "tables \<Rightarrow> cell \<Rightarrow> bool" where
  "wf_cell t c \<longleftrightarrow>
     c_pen c < npens t \<and> (is_cluster_code (c_code c) \<longrightarrow> cluster_index (c_code c) < nclusters t)"

lemma wf_cell_mono: "wf_cell t c \<Longrightarrow> tables_le t u \<Longrightarrow> wf_cell u c"
  using tables_le_sizes [of t u] by (auto simp: wf_cell_def)

lemma runs_cell_text [simp]:
  "wf_cell t c \<Longrightarrow> runs (cell_text t c) (\<lambda>x. True)"
  by (auto simp: cell_text_def wf_cell_def is_cluster_code_bit is_fragment_bit cluster_bit
      cluster_index_def)

lemma runs_push_cell_text [simp]:
  "wf_cell t c \<Longrightarrow> runs (push_cell_text t c) (\<lambda>x. True)"
  by (auto simp: push_cell_text_def)

subsection \<open>Marking\<close>

definition trues :: "bool list \<Rightarrow> nat" where
  "trues bs = length (filter id bs)"

lemma trues_set: "i < length bs \<Longrightarrow> trues (bs[i := True]) \<le> Suc (trues bs)"
proof (induction bs arbitrary: i)
  case (Cons b bs)
  then show ?case by (cases i) (auto simp: trues_def)
qed simp

lemma trues_replicate [simp]: "trues (replicate n False) = 0"
  by (simp add: trues_def)

text \<open>Marks are only added, at most one per step.\<close>

definition marks_le :: "nat \<Rightarrow> bool list \<Rightarrow> bool list \<Rightarrow> bool" where
  "marks_le n xs ys \<longleftrightarrow>
     length ys = length xs \<and> (\<forall>i < length xs. xs ! i \<longrightarrow> ys ! i) \<and> trues ys \<le> n + trues xs"

lemma marks_le_refl [simp]: "marks_le n xs xs"
  by (simp add: marks_le_def)

lemma marks_le_trans: "marks_le m xs ys \<Longrightarrow> marks_le n ys zs \<Longrightarrow> marks_le (m + n) xs zs"
  by (auto simp: marks_le_def)

lemma marks_le_set: "i < length xs \<Longrightarrow> marks_le (Suc 0) xs (xs[i := True])"
  using trues_set [of i xs] by (auto simp: marks_le_def nth_list_update)

lemma marks_leD: "marks_le n xs ys \<Longrightarrow> i < length xs \<Longrightarrow> xs ! i \<Longrightarrow> ys ! i"
  by (simp add: marks_le_def)

definition marked :: "bool list \<times> bool list \<Rightarrow> cell \<Rightarrow> bool" where
  "marked live c \<longleftrightarrow>
     fst live ! c_pen c \<and> (is_cluster_code (c_code c) \<longrightarrow> snd live ! cluster_index (c_code c))"

lemma mark_cells:
  assumes "\<forall>c \<in> set cells. c_pen c < length (fst live) \<and>
      (is_cluster_code (c_code c) \<longrightarrow> cluster_index (c_code c) < length (snd live))"
  shows "runs (foldM mark_cell live cells) (\<lambda>live'.
      marks_le (length cells) (fst live) (fst live') \<and>
      marks_le (length cells) (snd live) (snd live') \<and> (\<forall>c \<in> set cells. marked live' c))"
  using assms
proof (induction cells arbitrary: live)
  case Nil
  then show ?case by simp
next
  case (Cons c cells)
  let ?P = "\<lambda>live'. marks_le (Suc 0) (fst live) (fst live') \<and>
      marks_le (Suc 0) (snd live) (snd live') \<and> marked live' c"
  have "runs (mark_cell live c) ?P"
    using Cons.prems by (auto simp: mark_cell_def marked_def marks_le_set)
  then have "runs (mark_cell live c) (\<lambda>live1. runs (foldM mark_cell live1 cells) (\<lambda>live'.
      marks_le (length (c # cells)) (fst live) (fst live') \<and>
      marks_le (length (c # cells)) (snd live) (snd live') \<and>
      (\<forall>c \<in> set (c # cells). marked live' c)))"
  proof (rule runs_mono)
    fix live1 assume 1: "?P live1"
    then have len: "length (fst live1) = length (fst live)" "length (snd live1) = length (snd live)"
      by (simp_all add: marks_le_def)
    have "runs (foldM mark_cell live1 cells) (\<lambda>live'.
      marks_le (length cells) (fst live1) (fst live') \<and>
      marks_le (length cells) (snd live1) (snd live') \<and> (\<forall>c \<in> set cells. marked live' c))"
      by (rule Cons.IH) (use Cons.prems len in auto)
    then show "runs (foldM mark_cell live1 cells) (\<lambda>live'.
      marks_le (length (c # cells)) (fst live) (fst live') \<and>
      marks_le (length (c # cells)) (snd live) (snd live') \<and>
      (\<forall>c \<in> set (c # cells). marked live' c))"
    proof (rule runs_mono)
      fix live2 assume 2: "marks_le (length cells) (fst live1) (fst live2) \<and>
        marks_le (length cells) (snd live1) (snd live2) \<and> (\<forall>c \<in> set cells. marked live2 c)"
      then have "marked live2 c"
        using 1 Cons.prems len by (auto simp: marked_def dest: marks_leD)
      with 1 2 show "marks_le (length (c # cells)) (fst live) (fst live2) \<and>
        marks_le (length (c # cells)) (snd live) (snd live2) \<and>
        (\<forall>c \<in> set (c # cells). marked live2 c)"
        using marks_le_trans [of "Suc 0" "fst live" "fst live1" "length cells" "fst live2"]
          marks_le_trans [of "Suc 0" "snd live" "snd live1" "length cells" "snd live2"]
        by simp
    qed
  qed
  then show ?case by simp
qed

lemma mark_pens:
  assumes "\<forall>p \<in> set ps. pen_link p < length links" and "i + length ps \<le> length live"
  shows "runs (mark_pen_links live i ps links) (\<lambda>links'.
      marks_le (trues (take (length ps) (drop i live))) links links' \<and>
      (\<forall>k < length ps. live ! (i + k) \<longrightarrow> links' ! pen_link (ps ! k)))"
  using assms
proof (induction ps arbitrary: i links)
  case Nil
  then show ?case by simp
next
  case (Cons p ps)
  let ?l = "if live ! i then links[pen_link p := True] else links"
  have i: "i < length live" using Cons.prems by simp
  have tr: "trues (take (length (p # ps)) (drop i live)) =
      (if live ! i then 1 else 0) + trues (take (length ps) (drop (Suc i) live))"
    using i by (simp add: Cons_nth_drop_Suc [symmetric] trues_def)
  have one: "marks_le (if live ! i then 1 else 0) links ?l"
    using Cons.prems marks_le_set [of "pen_link p" links] by simp
  have "runs (mark_pen_links live (Suc i) ps ?l) (\<lambda>links'.
      marks_le (trues (take (length ps) (drop (Suc i) live))) ?l links' \<and>
      (\<forall>k < length ps. live ! (Suc i + k) \<longrightarrow> links' ! pen_link (ps ! k)))"
    by (rule Cons.IH) (use Cons.prems in auto)
  then have "runs (mark_pen_links live (Suc i) ps ?l) (\<lambda>links'.
      marks_le (trues (take (length (p # ps)) (drop i live))) links links' \<and>
      (\<forall>k < length (p # ps). live ! (i + k) \<longrightarrow> links' ! pen_link ((p # ps) ! k)))"
  proof (rule runs_mono)
    fix links'
    assume l: "marks_le (trues (take (length ps) (drop (Suc i) live))) ?l links' \<and>
      (\<forall>k < length ps. live ! (Suc i + k) \<longrightarrow> links' ! pen_link (ps ! k))"
    have "live ! i \<Longrightarrow> links' ! pen_link p"
      using marks_leD [OF conjunct1 [OF l], of "pen_link p"] Cons.prems by simp
    then have "live ! (i + k) \<longrightarrow> links' ! pen_link ((p # ps) ! k)" if "k < length (p # ps)" for k
      using l that by (cases k) auto
    then show "marks_le (trues (take (length (p # ps)) (drop i live))) links links' \<and>
      (\<forall>k < length (p # ps). live ! (i + k) \<longrightarrow> links' ! pen_link ((p # ps) ! k))"
      using marks_le_trans [OF one conjunct1 [OF l]] unfolding tr by simp
  qed
  then show ?case using i Cons.prems by (cases "live ! i") simp_all
qed

lemma mark_roots:
  assumes "\<forall>p \<in> set ps. pen_link p < length links"
  shows "runs (foldM mark_root links ps) (\<lambda>links'.
      marks_le (length ps) links links' \<and> (\<forall>p \<in> set ps. links' ! pen_link p))"
  using assms
proof (induction ps arbitrary: links)
  case Nil
  then show ?case by simp
next
  case (Cons p ps)
  let ?l = "links[pen_link p := True]"
  have one: "marks_le (Suc 0) links ?l" using Cons.prems by (simp add: marks_le_set)
  have "runs (foldM mark_root ?l ps) (\<lambda>links'.
      marks_le (length ps) ?l links' \<and> (\<forall>p \<in> set ps. links' ! pen_link p))"
    by (rule Cons.IH) (use Cons.prems in simp)
  then have "runs (foldM mark_root ?l ps) (\<lambda>links'.
      marks_le (length (p # ps)) links links' \<and> (\<forall>p \<in> set (p # ps). links' ! pen_link p))"
    using marks_le_trans [OF one] Cons.prems
    by (elim runs_mono) (auto dest: marks_leD [of _ ?l _ "pen_link p"])
  then show ?case using Cons.prems by (simp add: mark_root_def [of links])
qed

subsection \<open>Renumbering\<close>

text \<open>
  Two pens, cells, rows that show the same under the tables before and after: same style, same
  link text, same cluster text, same code otherwise.
\<close>

definition same_pen :: "tables \<Rightarrow> tables \<Rightarrow> pen \<Rightarrow> pen \<Rightarrow> bool" where
  "same_pen t u p q \<longleftrightarrow>
     same_style p q \<and> pen_link q < nlinks u \<and>
     i_values (t_links u) ! pen_link q = i_values (t_links t) ! pen_link p"

definition same_cell :: "tables \<Rightarrow> tables \<Rightarrow> cell \<Rightarrow> cell \<Rightarrow> bool" where
  "same_cell t u c d \<longleftrightarrow>
     wf_cell u d \<and>
     same_pen t u (i_values (t_pens t) ! c_pen c) (i_values (t_pens u) ! c_pen d) \<and>
     is_cluster_code (c_code d) = is_cluster_code (c_code c) \<and>
     c_code d AND NOT VALUE_MASK = c_code c AND NOT VALUE_MASK \<and>
     (if is_cluster_code (c_code c)
      then i_values (t_clusters u) ! cluster_index (c_code d) =
           i_values (t_clusters t) ! cluster_index (c_code c)
      else c_code d = c_code c)"

definition same_row :: "tables \<Rightarrow> tables \<Rightarrow> row \<Rightarrow> row \<Rightarrow> bool" where
  "same_row t u r s \<longleftrightarrow>
     list_all2 (same_cell t u) (r_cells r) (r_cells s) \<and> r_wrapped s = r_wrapped r \<and>
     r_touched s = r_touched r"

lemma relink_all:
  "\<forall>p \<in> set ps. pen_link p < length remap \<Longrightarrow>
     mapM (relink remap) ps = Some (map (\<lambda>p. p\<lparr>pen_link := remap ! pen_link p\<rparr>) ps)"
  by (induction ps) (auto simp: relink_def index_def)

definition remapped :: "nat list \<Rightarrow> nat list \<Rightarrow> cell \<Rightarrow> cell" where
  "remapped pens clusters c =
     \<lparr>c_code = (if is_cluster_code (c_code c)
        then (c_code c AND NOT VALUE_MASK) OR of_nat (clusters ! cluster_index (c_code c))
        else c_code c), c_pen = pens ! c_pen c\<rparr>"

lemma remap_cells:
  "\<forall>c \<in> set cells. c_pen c < length pens \<and>
      (is_cluster_code (c_code c) \<longrightarrow> cluster_index (c_code c) < length clusters) \<Longrightarrow>
     mapM (remap_cell pens clusters) cells = Some (map (remapped pens clusters) cells)"
  by (induction cells) (auto simp: remap_cell_def remapped_def index_def)

lemma remap_rows:
  "\<forall>r \<in> set rows. \<forall>c \<in> set (r_cells r). c_pen c < length pens \<and>
      (is_cluster_code (c_code c) \<longrightarrow> cluster_index (c_code c) < length clusters) \<Longrightarrow>
     mapM (remap_row pens clusters) rows =
       Some (map (\<lambda>r. r\<lparr>r_cells := map (remapped pens clusters) (r_cells r)\<rparr>) rows)"
  by (induction rows) (auto simp: remap_row_def remap_cells)

lemma retainedD:
  assumes "retained live old (kept, ids, remap)"
  shows "length remap = length old"
    and "i < length old \<Longrightarrow> remap ! i \<le> i"
    and "i < length old \<Longrightarrow> live ! i \<Longrightarrow> remap ! i < length kept \<and> kept ! (remap ! i) = old ! i"
    and "old \<noteq> [] \<Longrightarrow> kept \<noteq> [] \<and> kept ! 0 = old ! 0"
    and "i < length old \<Longrightarrow> remap ! i < length kept"
    and "length kept = length (filter (kept_at live) [0..<length old])"
    and "x \<in> set kept \<Longrightarrow> x \<in> set old"
proof -
  have at: "\<forall>i < length old. remap ! i \<le> i \<and>
      (if kept_at live i then remap ! i < length kept \<and> kept ! (remap ! i) = old ! i
       else remap ! i = 0)"
    and first: "old \<noteq> [] \<longrightarrow> kept \<noteq> [] \<and> kept ! 0 = old ! 0"
    using assms unfolding retained_def prod.case by blast+
  show "length remap = length old" "length kept = length (filter (kept_at live) [0..<length old])"
    "x \<in> set kept \<Longrightarrow> x \<in> set old"
    using assms by (auto simp: retained_def)
  show "old \<noteq> [] \<Longrightarrow> kept \<noteq> [] \<and> kept ! 0 = old ! 0" using first by simp
  show "i < length old \<Longrightarrow> remap ! i \<le> i" using at by simp
  show "i < length old \<Longrightarrow> live ! i \<Longrightarrow> remap ! i < length kept \<and> kept ! (remap ! i) = old ! i"
    using at by (simp only: kept_at_def simp_thms if_True)
  show "i < length old \<Longrightarrow> remap ! i < length kept"
    using at first by (cases "kept_at live i") (auto dest: spec [of _ i])
qed

abbreviation relinked :: "nat list \<Rightarrow> pen \<Rightarrow> pen" where
  "relinked remap p \<equiv> p\<lparr>pen_link := remap ! pen_link p\<rparr>"

abbreviation renumbered :: "nat list \<Rightarrow> nat list \<Rightarrow> row \<Rightarrow> row" where
  "renumbered pens clusters r \<equiv> r\<lparr>r_cells := map (remapped pens clusters) (r_cells r)\<rparr>"

lemma retainE:
  assumes "length live = length (i_values t)"
  obtains u remap where "retain t live = Some (u, remap)"
    and "retained live (i_values t) (i_values u, i_ids u, remap)"
    and "i_limit u = max COMPACT_FLOOR (length (i_values u) * 2)"
  using runsD [OF retain_retained [OF assms]] by auto

text \<open>The whole pass, with the marks and the three renumberings it uses.\<close>

lemma compactE:
  assumes t: "wf_tables t"
    and cells: "\<forall>r \<in> set (g1 @ g2). \<forall>c \<in> set (r_cells r). wf_cell t c"
    and roots: "\<forall>p \<in> set roots. pen_link p < nlinks t"
  obtains u lp lc ll pr cr lr where
    "compact t g1 g2 roots =
       Some (u, map (renumbered pr cr) g1, map (renumbered pr cr) g2, map (relinked lr) roots)"
    and "\<forall>r \<in> set (g1 @ g2). \<forall>c \<in> set (r_cells r). marked (lp, lc) c"
    and "\<forall>i < npens t. lp ! i \<longrightarrow> ll ! pen_link (i_values (t_pens t) ! i)"
    and "\<forall>p \<in> set roots. ll ! pen_link p"
    and "trues lp \<le> length (concat (map r_cells (g1 @ g2)))"
    and "trues lc \<le> length (concat (map r_cells (g1 @ g2)))"
    and "trues ll \<le> trues lp + length roots"
    and "length lp = npens t" "length lc = nclusters t" "length ll = nlinks t"
    and "retained lp (map (relinked lr) (i_values (t_pens t)))
           (i_values (t_pens u), i_ids (t_pens u), pr)"
    and "retained lc (i_values (t_clusters t)) (i_values (t_clusters u), i_ids (t_clusters u), cr)"
    and "retained ll (i_values (t_links t)) (i_values (t_links u), i_ids (t_links u), lr)"
    and "\<not> needs_compaction u"
proof -
  let ?P = "i_values (t_pens t)" and ?all = "concat (map r_cells (g1 @ g2))"
  let ?p0 = "replicate (npens t) False" and ?c0 = "replicate (nclusters t) False"
  have "\<forall>c \<in> set ?all. c_pen c < length (fst (?p0, ?c0)) \<and>
      (is_cluster_code (c_code c) \<longrightarrow> cluster_index (c_code c) < length (snd (?p0, ?c0)))"
    using cells by (auto simp: wf_cell_def)
  from runsD [OF mark_cells [OF this]] obtain lp lc where
    m: "foldM mark_cell (?p0, ?c0) ?all = Some (lp, lc)"
      "marks_le (length ?all) ?p0 lp" "marks_le (length ?all) ?c0 lc"
      "\<forall>c \<in> set ?all. marked (lp, lc) c"
    by auto
  have len: "length lp = npens t" "length lc = nclusters t"
    and tr: "trues lp \<le> length ?all" "trues lc \<le> length ?all"
    using m(2,3) by (simp_all add: marks_le_def)
  have "\<forall>p \<in> set ?P. pen_link p < length (replicate (nlinks t) False)"
    using wf_tablesD(7) [OF t] by simp
  from runsD [OF mark_pens [OF this, of 0 lp]] len(1) obtain l1 where
    l1: "mark_pen_links lp 0 ?P (replicate (nlinks t) False) = Some l1"
      "marks_le (trues lp) (replicate (nlinks t) False) l1"
      "\<forall>k < npens t. lp ! k \<longrightarrow> l1 ! pen_link (?P ! k)"
    by (auto simp: npens_def)
  have len1: "length l1 = nlinks t" using l1(2) by (simp add: marks_le_def)
  have "\<forall>p \<in> set roots. pen_link p < length l1" using roots len1 by simp
  from runsD [OF mark_roots [OF this]] obtain ll where
    ll: "foldM mark_root l1 roots = Some ll" "marks_le (length roots) l1 ll"
      "\<forall>p \<in> set roots. ll ! pen_link p"
    by auto
  have lenl: "length ll = nlinks t" and trl: "trues ll \<le> trues lp + length roots"
    using ll(2) l1(2) len1 by (simp_all add: marks_le_def)
  have live_links: "\<forall>i < npens t. lp ! i \<longrightarrow> ll ! pen_link (?P ! i)"
    using l1(3) ll(2) wf_tablesD(7) [OF t] len1 by (auto simp: marks_le_def npens_def)
  obtain ul lr where rl: "retain (t_links t) ll = Some (ul, lr)"
    "retained ll (i_values (t_links t)) (i_values ul, i_ids ul, lr)"
    "i_limit ul = max COMPACT_FLOOR (length (i_values ul) * 2)"
    using retainE [of ll "t_links t"] lenl by (auto simp: nlinks_def)
  have lenr: "length lr = nlinks t" using retainedD(1) [OF rl(2)] by (simp add: nlinks_def)
  have rp: "mapM (relink lr) ?P = Some (map (relinked lr) ?P)"
    "mapM (relink lr) roots = Some (map (relinked lr) roots)"
    using relink_all [of ?P lr] relink_all [of roots lr] roots wf_tablesD(7) [OF t] lenr by auto
  obtain up pr where rpen: "retain ((t_pens t)\<lparr>i_values := map (relinked lr) ?P\<rparr>) lp = Some (up, pr)"
    "retained lp (map (relinked lr) ?P) (i_values up, i_ids up, pr)"
    "i_limit up = max COMPACT_FLOOR (length (i_values up) * 2)"
    using retainE [of lp "(t_pens t)\<lparr>i_values := map (relinked lr) ?P\<rparr>"] len(1)
    by (auto simp: npens_def)
  obtain uc cr where rc: "retain (t_clusters t) lc = Some (uc, cr)"
    "retained lc (i_values (t_clusters t)) (i_values uc, i_ids uc, cr)"
    "i_limit uc = max COMPACT_FLOOR (length (i_values uc) * 2)"
    using retainE [of lc "t_clusters t"] len(2) by (auto simp: nclusters_def)
  have lens: "length pr = npens t" "length cr = nclusters t"
    using retainedD(1) [OF rpen(2)] retainedD(1) [OF rc(2)] by (simp_all add: table_sizes)
  have rr: "mapM (remap_row pr cr) g1 = Some (map (renumbered pr cr) g1)"
    "mapM (remap_row pr cr) g2 = Some (map (renumbered pr cr) g2)"
    using cells lens by (auto simp: wf_cell_def ball_Un intro!: remap_rows)
  let ?u = "\<lparr>t_pens = up, t_links = ul, t_clusters = uc\<rparr>"
  have "compact t g1 g2 roots =
      Some (?u, map (renumbered pr cr) g1, map (renumbered pr cr) g2, map (relinked lr) roots)"
    using m(1) l1(1) ll(1) rl(1) rp rpen(1) rc(1) rr
    by (simp add: compact_def table_sizes)
  moreover have "\<not> needs_compaction ?u"
    using rl(3) rpen(3) rc(3) by (simp add: needs_compaction_def over_limit_def max_def)
  ultimately show ?thesis
    using m(4) live_links ll(3) tr trl len lenl rpen(2) rc(2) rl(2)
    by (intro that [of ?u pr cr lr lp lc ll]) auto
qed

theorem compact_same:
  assumes t: "wf_tables t"
    and cells: "\<forall>r \<in> set (g1 @ g2). \<forall>c \<in> set (r_cells r). wf_cell t c"
    and roots: "\<forall>p \<in> set roots. pen_link p < nlinks t"
  shows "runs (compact t g1 g2 roots) (\<lambda>(u, h1, h2, roots').
      wf_tables u \<and> \<not> needs_compaction u \<and>
      list_all2 (same_row t u) g1 h1 \<and> list_all2 (same_row t u) g2 h2 \<and>
      list_all2 (same_pen t u) roots roots')"
proof -
  obtain u lp lc ll pr cr lr where
    eq: "compact t g1 g2 roots =
       Some (u, map (renumbered pr cr) g1, map (renumbered pr cr) g2, map (relinked lr) roots)"
    and marks: "\<forall>r \<in> set (g1 @ g2). \<forall>c \<in> set (r_cells r). marked (lp, lc) c"
    and live: "\<forall>i < npens t. lp ! i \<longrightarrow> ll ! pen_link (i_values (t_pens t) ! i)"
      "\<forall>p \<in> set roots. ll ! pen_link p"
    and P: "retained lp (map (relinked lr) (i_values (t_pens t)))
           (i_values (t_pens u), i_ids (t_pens u), pr)"
    and C: "retained lc (i_values (t_clusters t)) (i_values (t_clusters u), i_ids (t_clusters u), cr)"
    and L: "retained ll (i_values (t_links t)) (i_values (t_links u), i_ids (t_links u), lr)"
    and small: "\<not> needs_compaction u"
    by (rule compactE [OF t cells roots])
  have link: "same_pen t u p (relinked lr p)" if "pen_link p < nlinks t" "ll ! pen_link p" for p
    using retainedD(3) [OF L, of "pen_link p"] that
    by (simp add: same_pen_def same_style_def nlinks_def)
  have any_link: "pen_link p < nlinks u" if p: "p \<in> set (i_values (t_pens u))" for p
  proof -
    obtain q where "q \<in> set (i_values (t_pens t))" "p = relinked lr q"
      using retainedD(7) [OF P p] by auto
    then show ?thesis
      using retainedD(5) [OF L, of "pen_link q"] wf_tablesD(7) [OF t, of q]
      by (simp add: nlinks_def)
  qed
  have zero: "lr ! 0 = 0" using retainedD(2) [OF L, of 0] wf_tablesD(5) [OF t] by (simp add: nlinks_def)
  have ne: "i_values (t_pens t) \<noteq> []" "i_values (t_links t) \<noteq> []" "i_values (t_clusters t) \<noteq> []"
    using wf_tablesD(4-6) [OF t] by (simp_all add: table_sizes)
  have wf: "wf_tables u"
    unfolding wf_tables_def
    using retained_wf [OF P] retained_wf [OF L] retained_wf [OF C] ne any_link
      retainedD(4) [OF P] retainedD(4) [OF L] retainedD(4) [OF C] t zero
    by (simp add: wf_tables_def pen_default_def)
  have cell: "same_cell t u c (remapped pr cr c)"
    if r: "r \<in> set (g1 @ g2)" and c: "c \<in> set (r_cells r)" for r c
  proof -
    have wfc: "wf_cell t c" and m: "marked (lp, lc) c" using cells marks r c by blast+
    then have p: "c_pen c < npens t" "lp ! c_pen c" by (simp_all add: wf_cell_def marked_def)
    let ?q = "i_values (t_pens t) ! c_pen c"
    have pen: "pr ! c_pen c < npens u" "i_values (t_pens u) ! (pr ! c_pen c) = relinked lr ?q"
      using retainedD(3) [OF P, of "c_pen c"] p by (simp_all add: npens_def)
    have "same_pen t u ?q (relinked lr ?q)"
      using live(1) p wf_tablesD(7) [OF t, of ?q] by (intro link) (simp_all add: npens_def)
    then show ?thesis
    proof (cases "is_cluster_code (c_code c)")
      case False
      then show ?thesis
        using pen \<open>same_pen t u ?q (relinked lr ?q)\<close>
        by (simp add: same_cell_def wf_cell_def remapped_def)
    next
      case True
      let ?i = "cluster_index (c_code c)"
      have i: "?i < nclusters t" "lc ! ?i" using True wfc m by (simp_all add: wf_cell_def marked_def)
      have new: "cr ! ?i < nclusters u"
        "i_values (t_clusters u) ! (cr ! ?i) = i_values (t_clusters t) ! ?i" "cr ! ?i < 2 ^ 29"
        using retainedD(3) [OF C, of ?i] retainedD(2) [OF C, of ?i] cluster_index_small [of "c_code c"]
          i by (simp_all add: nclusters_def)
      show ?thesis
        using pen \<open>same_pen t u ?q (relinked lr ?q)\<close> True new
          replace_index_bits [OF new(3), of "c_code c"]
        by (simp add: same_cell_def wf_cell_def remapped_def)
    qed
  qed
  have rows: "list_all2 (same_row t u) g (map (renumbered pr cr) g)" if "set g \<subseteq> set (g1 @ g2)" for g
    using cell that by (auto simp: list_all2_map2 same_row_def list_all2_same)
  have "list_all2 (same_pen t u) roots (map (relinked lr) roots)"
    using link live(2) roots by (auto simp: list_all2_conv_all_nth)
  then show ?thesis
    using eq wf small rows [of g1] rows [of g2] by simp
qed

end
