(* ===== verification/Replay_Invariant.thy ===== *)
theory Replay_Invariant
  imports Replay_Perform Replay_Compaction
begin

text \<open>
  The invariant of the emulator and its preservation by the scrolling operations: the geometry
  of both screens, the indices every cell holds, the accounting of the history against the
  budget.  Each lemma has the form \<open>runs op P\<close>: the operation does not panic and its result
  satisfies \<open>P\<close>.
\<close>

subsection \<open>Rows\<close>

definition wf_row :: "tables \<Rightarrow> nat \<Rightarrow> row \<Rightarrow> bool" where
  "wf_row t c r \<longleftrightarrow> length (r_cells r) \<le> c \<and> (\<forall>x \<in> set (r_cells r). wf_cell t x)"

lemma wf_rowI: "length (r_cells r) \<le> c \<Longrightarrow> \<forall>x \<in> set (r_cells r). wf_cell t x \<Longrightarrow> wf_row t c r"
  by (simp add: wf_row_def)

lemma wf_row_mono: "wf_row t c r \<Longrightarrow> tables_le t u \<Longrightarrow> wf_row u c r"
  by (auto simp: wf_row_def intro: wf_cell_mono)

lemma small_code: "unat code < 2 ^ 29 \<Longrightarrow> \<not> is_cluster_code code"
  using bit_small [of code 29 29] by (simp add: is_cluster_code_bit)

lemma wf_cell_small: "c_pen c < npens t \<Longrightarrow> unat (c_code c) < 2 ^ 29 \<Longrightarrow> wf_cell t c"
  by (simp add: wf_cell_def small_code)

lemma wf_cell_space: "wf_cell t c \<Longrightarrow> wf_cell t (c\<lparr>c_code := SPACE\<rparr>)"
  "wf_cell t c \<Longrightarrow> wf_cell t (c\<lparr>c_code := TAB\<rparr>)"
  by (simp_all add: wf_cell_def SPACE_def TAB_def small_code)

lemma fragment_not_cluster: "\<not> is_cluster_code FRAGMENT" "\<not> is_cluster_code (FRAGMENT OR TAB)"
  by (simp_all add: is_cluster_code_bit bit_or_iff code_bits)

lemma wf_BLANK: "wf_tables t \<Longrightarrow> wf_cell t BLANK"
  using wf_tablesD(4) [of t] by (simp add: wf_cell_small BLANK_def)

lemma wf_blank_cell: "i < npens t \<Longrightarrow> wf_cell t (blank_cell i)"
  by (simp add: wf_cell_small blank_cell_def)

lemma cells_update:
  "\<forall>x \<in> set cs. wf_cell t x \<Longrightarrow> wf_cell t v \<Longrightarrow> \<forall>x \<in> set (cs[i := v]). wf_cell t x"
  by (auto dest: in_set_update)

lemma length_space_back [simp]: "length (space_back cells i) = length cells"
  by (induction cells i rule: space_back.induct) (auto simp: Let_def)

lemma length_cleanup_end [simp]: "length (cleanup_end cells e) = length cells"
  by (simp add: cleanup_end_def)

lemma length_cleanup_cells [simp]: "length (cleanup_cells cells s e) = length cells"
  by (simp add: cleanup_cells_def Let_def)

lemma length_cleanup [simp]: "length (r_cells (cleanup_fragments r s e)) = length (r_cells r)"
  by (simp add: cleanup_fragments_def)

lemma cells_space_back:
  "\<forall>x \<in> set cells. wf_cell t x \<Longrightarrow> i \<le> length cells \<Longrightarrow> \<forall>x \<in> set (space_back cells i). wf_cell t x"
proof (induction cells i rule: space_back.induct)
  case (2 cells i)
  have "\<forall>x \<in> set (cells[i := (cells ! i)\<lparr>c_code := SPACE\<rparr>]). wf_cell t x"
    using 2 by (intro cells_update wf_cell_space) auto
  then show ?case using 2 by (simp add: Let_def)
qed simp

lemma wf_row_cleanup [simp]: "wf_row t c r \<Longrightarrow> wf_row t c (cleanup_fragments r s e)"
proof (rule wf_rowI)
  assume wf: "wf_row t c r"
  then have cells: "\<forall>x \<in> set (r_cells r). wf_cell t x" by (simp add: wf_row_def)
  have e: "\<forall>x \<in> set (cleanup_end (r_cells r) e). wf_cell t x"
    using cells by (auto simp: cleanup_end_def wf_cell_space dest!: in_set_update)
  show "\<forall>x \<in> set (r_cells (cleanup_fragments r s e)). wf_cell t x"
    using e cells_space_back [OF e, of s]
    by (auto simp: cleanup_fragments_def cleanup_cells_def Let_def)
qed (simp add: wf_row_def)

lemma length_fill_with [simp]: "length (r_cells (fill_with r n v)) = max n (length (r_cells r))"
  by (simp add: fill_with_def)

lemma length_fill_to [simp]: "length (r_cells (fill_to r n)) = max n (length (r_cells r))"
  by (simp add: fill_to_def)

lemma wf_row_fill_with [simp]:
  "wf_row t c r \<Longrightarrow> wf_cell t v \<Longrightarrow> n \<le> c \<Longrightarrow> wf_row t c (fill_with r n v)"
  using set_resize [of "r_cells r" n v] by (auto simp: wf_row_def fill_with_def)

lemma wf_row_fill_to [simp]:
  "wf_row t c r \<Longrightarrow> wf_tables t \<Longrightarrow> n \<le> c \<Longrightarrow> wf_row t c (fill_to r n)"
  by (simp add: fill_to_def wf_BLANK)

lemma wf_row_take:
  "wf_row t c r \<Longrightarrow> n \<le> c \<Longrightarrow> wf_row t n (r\<lparr>r_cells := take n (r_cells r)\<rparr>)"
  by (auto simp: wf_row_def dest: in_set_takeD)

lemma wf_row_take' [simp]: "wf_row t c r \<Longrightarrow> wf_row t c (r\<lparr>r_cells := take n (r_cells r)\<rparr>)"
  by (auto simp: wf_row_def dest: in_set_takeD)

lemma wf_row_default [simp]: "wf_row t c row_default"
  by (simp add: wf_row_def row_default_def)

lemma wf_row_filled [simp]: "wf_cell t v \<Longrightarrow> wf_row t c (row_filled c v)"
  by (simp add: wf_row_def row_filled_def)

lemma wf_row_flags [simp]:
  "wf_row t c (r\<lparr>r_wrapped := w\<rparr>) = wf_row t c r"
  "wf_row t c (r\<lparr>r_touched := w\<rparr>) = wf_row t c r"
  by (simp_all add: wf_row_def)

lemma wf_row_erase [simp]: "wf_row t c (r\<lparr>r_cells := []\<rparr>)"
  by (simp add: wf_row_def)

lemma wf_row_cut [simp]: "wf_row t c r \<Longrightarrow> wf_row t c (cut_row r n)"
  by (simp add: cut_row_def truncate_row_def)

lemma keep_len_runs:
  assumes "\<forall>c \<in> set cells. runs (vis (c_pen c)) (\<lambda>_. True)"
  shows "runs (keep_len vis cells) (\<lambda>n. n \<le> length cells)"
  using assms
proof (induction cells)
  case (Cons c cells)
  then have "runs (keep_len vis cells) (\<lambda>n. n \<le> length cells)" by simp
  with Cons.prems show ?case by (auto simp: runs_def)
qed simp

lemma runs_blank_visible [simp]:
  "runs (blank_visible t p) P \<longleftrightarrow> p < npens t \<and> P (pen_blank_is_visible (i_values (t_pens t) ! p))"
  by (auto simp: blank_visible_def runs_def pen_at_def index_def npens_def split: if_splits)

lemma trim_runs:
  assumes "wf_row t c r"
  shows "runs (trim_invisible_tail (blank_visible t) r) (wf_row t c)"
proof -
  have "runs (keep_len (blank_visible t) (rev (r_cells r))) (\<lambda>n. n \<le> length (rev (r_cells r)))"
    using assms by (intro keep_len_runs) (simp add: wf_row_def wf_cell_def)
  then show ?thesis
    using assms by (auto simp: trim_invisible_tail_def elim!: runs_mono)
qed

subsection \<open>Screens\<close>

definition wf_screen :: "tables \<Rightarrow> nat \<Rightarrow> nat \<Rightarrow> screen \<Rightarrow> bool" where
  "wf_screen t c r s \<longleftrightarrow>
     s_rows s = r \<and> r \<le> length (s_lines s) \<and> s_row s < r \<and> s_col s \<le> c \<and>
     (\<forall>x \<in> set (s_lines s). wf_row t c x) \<and>
     sv_row (s_saved s) < r \<and> sv_col (s_saved s) \<le> c \<and> pen_link (sv_pen (s_saved s)) < nlinks t"

definition history_cost :: "nat \<Rightarrow> screen \<Rightarrow> nat" where
  "history_cost n s = sum_list (map row_cost (take n (s_lines s)))"

text \<open>
  The accounting of the history: the charge of the screen is the cost of its history rows, and
  there is no history or it fits the budget beside one full screen.  The alternate screen has
  no history.
\<close>

definition wf_scr :: "tables \<Rightarrow> nat \<Rightarrow> nat \<Rightarrow> nat \<Rightarrow> bool \<Rightarrow> screen \<Rightarrow> bool" where
  "wf_scr t c r b alt s \<longleftrightarrow>
     wf_screen t c r s \<and> s_keeps_history s = (\<not> alt) \<and>
     (if alt then length (s_lines s) = r
      else s_history_cells s = history_cost (length (s_lines s) - r) s \<and>
        (length (s_lines s) = r \<or> s_history_cells s + r * c \<le> b))"

lemma wf_screenD:
  assumes "wf_screen t c r s"
  shows "s_rows s = r" "r \<le> length (s_lines s)" "s_row s < r" "s_col s \<le> c"
    "x \<in> set (s_lines s) \<Longrightarrow> wf_row t c x" "i < length (s_lines s) \<Longrightarrow> wf_row t c (s_lines s ! i)"
    "pen_link (sv_pen (s_saved s)) < nlinks t" "sv_row (s_saved s) < r" "sv_col (s_saved s) \<le> c"
  using assms by (simp_all add: wf_screen_def)

lemma wf_scr_screen: "wf_scr t c r b alt s \<Longrightarrow> wf_screen t c r s"
  by (simp add: wf_scr_def)

lemma wf_screen_mono: "wf_screen t c r s \<Longrightarrow> tables_le t u \<Longrightarrow> wf_screen u c r s"
  using tables_le_sizes [of t u] by (auto simp: wf_screen_def intro: wf_row_mono)

lemma wf_scr_mono: "wf_scr t c r b alt s \<Longrightarrow> tables_le t u \<Longrightarrow> wf_scr u c r b alt s"
  by (auto simp: wf_scr_def intro: wf_screen_mono)

lemma wf_scr_pos [simp]:
  "wf_scr t c r b alt s \<Longrightarrow> x < r \<Longrightarrow> wf_scr t c r b alt (s\<lparr>s_row := x\<rparr>)"
  "wf_scr t c r b alt s \<Longrightarrow> y \<le> c \<Longrightarrow> wf_scr t c r b alt (s\<lparr>s_col := y\<rparr>)"
  by (auto simp: wf_scr_def wf_screen_def history_cost_def)

lemma wf_scr_lines:
  assumes wf: "wf_scr t c r b alt s"
    and len: "length lines = length (s_lines s)"
    and rows: "\<forall>x \<in> set lines. wf_row t c x"
    and cost: "map row_cost (take (length (s_lines s) - r) lines) =
      map row_cost (take (length (s_lines s) - r) (s_lines s))"
  shows "wf_scr t c r b alt (s\<lparr>s_lines := lines\<rparr>)"
  using assms by (auto simp: wf_scr_def wf_screen_def history_cost_def)

lemma wf_scr_update:
  assumes wf: "wf_scr t c r b alt s" and i: "i < length (s_lines s)" and x: "wf_row t c x"
    and cost: "i < length (s_lines s) - r \<Longrightarrow>
      length (r_cells x) = length (r_cells (s_lines s ! i))"
  shows "wf_scr t c r b alt (s\<lparr>s_lines := (s_lines s)[i := x]\<rparr>)"
proof (rule wf_scr_lines [OF wf])
  show "\<forall>y \<in> set ((s_lines s)[i := x]). wf_row t c y"
    using wf_screenD(5) [OF wf_scr_screen [OF wf]] x by (auto dest: in_set_update)
  show "map row_cost (take (length (s_lines s) - r) ((s_lines s)[i := x])) =
      map row_cost (take (length (s_lines s) - r) (s_lines s))"
    using cost i by (intro nth_equalityI) (auto simp: nth_list_update row_cost_def)
qed simp

lemma runs_history_len [simp]:
  "wf_screen t c r s \<Longrightarrow> runs (history_len s) P \<longleftrightarrow> P (length (s_lines s) - r)"
  by (auto simp: history_len_def wf_screen_def)

lemma modify_line_wf:
  assumes "wf_scr t c r b alt s" and "i < length (s_lines s)"
    and "\<And>x. wf_row t c x \<Longrightarrow> x = s_lines s ! i \<Longrightarrow> runs (f x) (\<lambda>y. wf_row t c y \<and>
      (i < length (s_lines s) - r \<longrightarrow> length (r_cells y) = length (r_cells x)))"
  shows "runs (modify_line s i f) (\<lambda>s'. wf_scr t c r b alt s' \<and>
    (\<exists>lines. s' = s\<lparr>s_lines := lines\<rparr> \<and> length lines = length (s_lines s)))"
proof -
  have "wf_row t c (s_lines s ! i)"
    using wf_screenD(6) [OF wf_scr_screen [OF assms(1)] assms(2)] .
  from assms(3) [OF this] show ?thesis
    using assms(2) by (auto simp: modify_line_def intro: wf_scr_update [OF assms(1,2)] elim!: runs_mono)
qed

lemma row_mut_wf:
  assumes "wf_scr t c r b alt s" and "i < r"
    and "\<And>x. wf_row t c x \<Longrightarrow> runs (f x) (wf_row t c)"
  shows "runs (row_mut s i f) (\<lambda>s'. wf_scr t c r b alt s' \<and>
    (\<exists>lines. s' = s\<lparr>s_lines := lines\<rparr> \<and> length lines = length (s_lines s)))"
proof -
  have r: "r \<le> length (s_lines s)" using wf_screenD(2) [OF wf_scr_screen [OF assms(1)]] .
  let ?i = "length (s_lines s) - r + i"
  have "runs (modify_line s ?i f) (\<lambda>s'. wf_scr t c r b alt s' \<and>
    (\<exists>lines. s' = s\<lparr>s_lines := lines\<rparr> \<and> length lines = length (s_lines s)))"
    using assms(2) r by (intro modify_line_wf [OF assms(1)]) (auto elim!: runs_mono [OF assms(3)])
  then show ?thesis by (simp add: row_mut_def runs_history_len [OF wf_scr_screen [OF assms(1)]])
qed

subsection \<open>The emulator\<close>

definition wf_core :: "nat \<Rightarrow> nat \<Rightarrow> nat \<Rightarrow> emulator \<Rightarrow> bool" where
  "wf_core c r b e \<longleftrightarrow>
     1 \<le> c \<and> 1 \<le> r \<and> e_cols e = c \<and> e_rows e = r \<and> e_budget e = b \<and>
     e_top e \<le> e_bottom e \<and> e_bottom e < r \<and> length (e_tabstops e) = c \<and>
     length (e_live_modes e) = 13 \<and> wf_tables (e_tables e) \<and>
     pen_link (e_pen e) < nlinks (e_tables e) \<and>
     (\<forall>x. e_last_graphic e = Some x \<longrightarrow> is_scalar x) \<and>
     (\<forall>i. e_pen_id e = Some i \<longrightarrow> pen_at (e_tables e) i = Some (e_pen e)) \<and>
     (\<forall>i. e_erase_id e = Some i \<longrightarrow> pen_at (e_tables e) i = Some (pen_erase (e_pen e)))"

definition wf_emu :: "nat \<Rightarrow> nat \<Rightarrow> nat \<Rightarrow> emulator \<Rightarrow> bool" where
  "wf_emu c r b e \<longleftrightarrow>
     wf_core c r b e \<and> wf_scr (e_tables e) c r b False (e_normal e) \<and>
     wf_scr (e_tables e) c r b True (e_alternate e)"

lemma wf_coreD:
  assumes "wf_core c r b e"
  shows "1 \<le> c" "1 \<le> r" "e_cols e = c" "e_rows e = r" "e_budget e = b"
    "e_top e \<le> e_bottom e" "e_bottom e < r" "length (e_tabstops e) = c"
    "length (e_live_modes e) = 13" "wf_tables (e_tables e)" "pen_link (e_pen e) < nlinks (e_tables e)"
    "0 < c" "0 < r" "e_last_graphic e = Some x \<Longrightarrow> is_scalar x"
  using assms by (simp_all add: wf_core_def)

lemma wf_emu_core: "wf_emu c r b e \<Longrightarrow> wf_core c r b e"
  by (simp add: wf_emu_def)

lemmas wfD = wf_coreD [OF wf_emu_core]

lemma wf_scrD: "wf_emu c r b e \<Longrightarrow> wf_scr (e_tables e) c r b (e_active e) (scr e)"
  by (simp add: wf_emu_def scr_def)

lemma wf_scr_screenD: "wf_emu c r b e \<Longrightarrow> wf_screen (e_tables e) c r (scr e)"
  by (rule wf_scr_screen) (rule wf_scrD)

lemmas wf_posD = wf_screenD [OF wf_scr_screenD]

text \<open>What scrolling and row edits leave alone.\<close>

definition frame :: "emulator \<Rightarrow> _" where
  "frame e = (e_active e, e_pen e, (e_top e, e_bottom e),
     (e_autowrap e, e_origin e, e_insert e, e_lr_margins e), e_charsets e, e_shift_out e,
     e_last_graphic e, (s_row (scr e), s_col (scr e)), (e_tabstops e, e_live_modes e),
     e_keyboard e, e_pen_id e)"

lemma frameD:
  assumes "frame e' = frame e"
  shows "e_active e' = e_active e" "e_pen e' = e_pen e" "e_top e' = e_top e"
    "e_bottom e' = e_bottom e" "e_autowrap e' = e_autowrap e" "e_origin e' = e_origin e"
    "e_insert e' = e_insert e" "e_charsets e' = e_charsets e" "e_shift_out e' = e_shift_out e"
    "e_last_graphic e' = e_last_graphic e" "s_row (scr e') = s_row (scr e)"
    "s_col (scr e') = s_col (scr e)" "e_lr_margins e' = e_lr_margins e"
    "e_pen_id e' = e_pen_id e"
  using assms by (simp_all add: frame_def)

lemma scr_set_scr [simp]: "scr (set_scr e s) = s"
  by (simp add: scr_def set_scr_def)

lemma set_scr_fields [simp]:
  "e_tables (set_scr e s) = e_tables e" "e_active (set_scr e s) = e_active e"
  "e_cols (set_scr e s) = e_cols e" "e_rows (set_scr e s) = e_rows e"
  "e_pen (set_scr e s) = e_pen e" "e_pen_id (set_scr e s) = e_pen_id e"
  "e_erase_id (set_scr e s) = e_erase_id e" "e_top (set_scr e s) = e_top e"
  "e_bottom (set_scr e s) = e_bottom e" "e_autowrap (set_scr e s) = e_autowrap e"
  "e_origin (set_scr e s) = e_origin e" "e_insert (set_scr e s) = e_insert e"
  "e_charsets (set_scr e s) = e_charsets e" "e_shift_out (set_scr e s) = e_shift_out e"
  "e_last_graphic (set_scr e s) = e_last_graphic e" "e_tabstops (set_scr e s) = e_tabstops e"
  "e_live_modes (set_scr e s) = e_live_modes e" "e_budget (set_scr e s) = e_budget e"
  "e_lr_margins (set_scr e s) = e_lr_margins e" "e_keyboard (set_scr e s) = e_keyboard e"
  "e_head_dropped (set_scr e s) = e_head_dropped e"
  by (simp_all add: set_scr_def)

lemma set_scr_scr [simp]: "set_scr e (scr e) = e" "set_scr (set_scr e s) s' = set_scr e s'"
  by (simp_all add: set_scr_def scr_def)

lemma wf_core_set_scr [simp]: "wf_core c r b (set_scr e s) = wf_core c r b e"
  by (simp add: wf_core_def)

lemma wf_set_scr:
  "wf_emu c r b e \<Longrightarrow> wf_scr (e_tables e) c r b (e_active e) s \<Longrightarrow> wf_emu c r b (set_scr e s)"
  by (auto simp: wf_emu_def set_scr_def wf_core_def)

lemma frame_set_scr:
  "s_row s = s_row (scr e) \<Longrightarrow> s_col s = s_col (scr e) \<Longrightarrow> frame (set_scr e s) = frame e"
  by (simp add: frame_def)

lemma wf_set_col [simp]: "wf_emu c r b e \<Longrightarrow> y \<le> c \<Longrightarrow> wf_emu c r b (set_col e y)"
  by (simp add: set_col_def wf_set_scr wf_scrD)

lemma wf_set_row [simp]: "wf_emu c r b e \<Longrightarrow> x < r \<Longrightarrow> wf_emu c r b (set_row e x)"
  by (simp add: set_row_def wf_set_scr wf_scrD)

lemma scr_set_pos [simp]:
  "scr (set_col e y) = (scr e)\<lparr>s_col := y\<rparr>" "scr (set_row e x) = (scr e)\<lparr>s_row := x\<rparr>"
  by (simp_all add: set_col_def set_row_def)

lemma wf_grow:
  assumes "wf_emu c r b e" and "wf_tables u" and "tables_le (e_tables e) u"
  shows "wf_emu c r b (e\<lparr>e_tables := u\<rparr>)"
  using assms tables_le_sizes [OF assms(3)]
  by (auto simp: wf_emu_def wf_core_def intro: wf_scr_mono tables_le_at)

lemma on_cursor_row_wf:
  assumes "wf_emu c r b e"
    and "\<And>x. wf_row (e_tables e) c x \<Longrightarrow> runs (f x) (wf_row (e_tables e) c)"
  shows "runs (on_cursor_row e f)
    (\<lambda>e'. wf_emu c r b e' \<and> frame e' = frame e \<and> e_tables e' = e_tables e)"
proof -
  have "runs (row_mut (scr e) (s_row (scr e)) f) (\<lambda>s'. wf_scr (e_tables e) c r b (e_active e) s' \<and>
    (\<exists>lines. s' = (scr e)\<lparr>s_lines := lines\<rparr> \<and> length lines = length (s_lines (scr e))))"
    using assms wf_posD(3) [OF assms(1)] by (intro row_mut_wf wf_scrD) auto
  then show ?thesis
    using assms(1)
    by (auto simp: on_cursor_row_def cursor_row_mut_def frame_set_scr intro: wf_set_scr
        elim!: runs_mono)
qed

subsection \<open>Cached pens\<close>

lemma pen_erase_link [simp]: "pen_link (pen_erase p) = 0"
  by (simp add: pen_erase_def pen_default_def)

lemma take_pen_id_wf:
  assumes "wf_emu c r b e"
  shows "wf_emu c r b (fst (take_pen_id e))"
    and "pen_at (e_tables (fst (take_pen_id e))) (snd (take_pen_id e)) = Some (e_pen e)"
    and "snd (take_pen_id e) < npens (e_tables (fst (take_pen_id e)))"
    and "e_pen_id (fst (take_pen_id e)) = Some (snd (take_pen_id e))"
    and "scr (fst (take_pen_id e)) = scr e"
    and "tables_le (e_tables e) (e_tables (fst (take_pen_id e)))"
proof -
  note t = wfD(10) [OF assms]
  note l = wfD(11) [OF assms]
  let ?u = "fst (intern_pen (e_tables e) (e_pen e))"
  have u: "wf_tables ?u" "tables_le (e_tables e) ?u"
    "pen_at ?u (snd (intern_pen (e_tables e) (e_pen e))) = Some (e_pen e)"
    using wf_intern_pen [OF t l] tables_le_intern(1) pens.add_get wf_tablesD(1) [OF t] by auto
  have g: "wf_emu c r b (e\<lparr>e_tables := ?u\<rparr>)" using wf_grow [OF assms u(1,2)] .
  show "wf_emu c r b (fst (take_pen_id e))"
    using g u(3) assms by (auto simp: take_pen_id_def wf_emu_def wf_core_def split: option.split prod.split)
  show p: "pen_at (e_tables (fst (take_pen_id e))) (snd (take_pen_id e)) = Some (e_pen e)"
    using u(3) assms by (auto simp: take_pen_id_def wf_emu_def wf_core_def split: option.split prod.split)
  show "snd (take_pen_id e) < npens (e_tables (fst (take_pen_id e)))"
    using p by (auto simp: pen_at_def index_def npens_def split: if_splits)
  show "e_pen_id (fst (take_pen_id e)) = Some (snd (take_pen_id e))"
    "scr (fst (take_pen_id e)) = scr e"
    by (auto simp: take_pen_id_def scr_def split: option.split prod.split)
  show "tables_le (e_tables e) (e_tables (fst (take_pen_id e)))"
    using u(2) by (auto simp: take_pen_id_def split: option.split prod.split)
qed

text \<open>
  The erase cell only touches the pen table and its cache, so its effect is stated on the part
  of the invariant that leaves the screens out; \<open>grown\<close> says that nothing else changed.
\<close>

definition grown :: "emulator \<Rightarrow> emulator \<Rightarrow> bool" where
  "grown e e' \<longleftrightarrow>
     tables_le (e_tables e) (e_tables e') \<and> frame e' = frame e \<and>
     e_normal e' = e_normal e \<and> e_alternate e' = e_alternate e"

lemma grown_refl [simp]: "grown e e"
  by (simp add: grown_def)

lemma grown_scr: "grown e e' \<Longrightarrow> scr e' = scr e"
  by (simp add: grown_def frame_def scr_def)

lemma wf_grown: "wf_emu c r b e \<Longrightarrow> wf_core c r b e' \<Longrightarrow> grown e e' \<Longrightarrow> wf_emu c r b e'"
  by (auto simp: wf_emu_def grown_def intro: wf_scr_mono)

lemma erase_cell_core:
  assumes "wf_core c r b e"
  shows "wf_core c r b (fst (erase_cell e)) \<and> grown e (fst (erase_cell e)) \<and>
    wf_cell (e_tables (fst (erase_cell e))) (snd (erase_cell e))"
proof -
  note t = wf_coreD(10) [OF assms]
  let ?u = "fst (intern_pen (e_tables e) (pen_erase (e_pen e)))"
  let ?i = "snd (intern_pen (e_tables e) (pen_erase (e_pen e)))"
  have u: "wf_tables ?u" "tables_le (e_tables e) ?u" "pen_at ?u ?i = Some (pen_erase (e_pen e))"
    using wf_intern_pen [OF t] wf_tablesD(5) [OF t] tables_le_intern(1) pens.add_get
      wf_tablesD(1) [OF t] by auto
  have core: "wf_core c r b (fst (erase_cell e))"
    using u assms tables_le_sizes [OF u(2)] tables_le_at(1) [OF u(2)]
    by (auto simp: erase_cell_def wf_core_def split: option.split prod.split)
  have "pen_at (e_tables (fst (erase_cell e))) (c_pen (snd (erase_cell e))) =
      Some (pen_erase (e_pen e))"
    using u(3) assms
    by (auto simp: erase_cell_def wf_core_def blank_cell_def split: option.split prod.split)
  then have "c_pen (snd (erase_cell e)) < npens (e_tables (fst (erase_cell e)))"
    by (auto simp: pen_at_def index_def npens_def split: if_splits)
  then have "wf_cell (e_tables (fst (erase_cell e))) (snd (erase_cell e))"
    by (intro wf_cell_small) (auto simp: erase_cell_def blank_cell_def split: option.split prod.split)
  moreover have "grown e (fst (erase_cell e))"
    using u(2) by (auto simp: erase_cell_def grown_def frame_def scr_def
        split: option.split prod.split)
  ultimately show ?thesis using core by simp
qed

lemma bg_fill_core:
  assumes "wf_core c r b e"
  shows "wf_core c r b (fst (bg_fill e)) \<and> grown e (fst (bg_fill e)) \<and>
    (\<forall>x. snd (bg_fill e) = Some x \<longrightarrow> wf_cell (e_tables (fst (bg_fill e))) x)"
  using assms erase_cell_core [OF assms]
  by (auto simp: bg_fill_def split: prod.split)

lemma new_row_core:
  assumes "wf_core c r b e"
  shows "wf_core c r b (fst (new_row e fill)) \<and> grown e (fst (new_row e fill)) \<and>
    wf_row (e_tables (fst (new_row e fill))) c (snd (new_row e fill))"
proof -
  have "length (r_cells (row_filled (e_cols (fst (bg_fill e))) x)) \<le> c" for x
    using bg_fill_core [OF assms] by (simp add: row_filled_def wf_core_def)
  then show ?thesis
    using assms bg_fill_core [OF assms]
    by (auto simp: new_row_def wf_row_def row_filled_def row_default_def wf_core_def
        split: prod.split option.split)
qed

lemma erase_cell_wf:
  assumes "wf_emu c r b e"
  shows "wf_emu c r b (fst (erase_cell e))"
    and "wf_cell (e_tables (fst (erase_cell e))) (snd (erase_cell e))"
    and "frame (fst (erase_cell e)) = frame e" and "scr (fst (erase_cell e)) = scr e"
  using erase_cell_core [OF wf_emu_core [OF assms]] wf_grown [OF assms] grown_scr
  by (auto simp: grown_def)

lemma bg_fill_wf:
  assumes "wf_emu c r b e"
  shows "wf_emu c r b (fst (bg_fill e))"
    and "\<forall>x. snd (bg_fill e) = Some x \<longrightarrow> wf_cell (e_tables (fst (bg_fill e))) x"
    and "frame (fst (bg_fill e)) = frame e" and "scr (fst (bg_fill e)) = scr e"
  using bg_fill_core [OF wf_emu_core [OF assms]] wf_grown [OF assms] grown_scr
  by (auto simp: grown_def)

end
