(* ===== verification/Replay_Scroll_Facts.thy ===== *)
theory Replay_Scroll_Facts
  imports Replay_Invariant
begin

text \<open>
  Scrolling keeps the invariant: rows that scroll in and out, the history that grows by what
  leaves the top, and the eviction that keeps it within the budget.
\<close>

lemma sum_list_take_update:
  "i < length xs \<Longrightarrow> n \<le> i \<Longrightarrow> take n (xs[i := x]) = take n xs"
  by simp

subsection \<open>Hard breaks\<close>

lemma set_hard_wrapped_wf:
  assumes wf: "wf_emu c r b e"
  shows "runs (set_hard_wrapped e k) (\<lambda>e'. wf_emu c r b e' \<and> frame e' = frame e \<and>
    e_tables e' = e_tables e \<and> length (s_lines (scr e')) = length (s_lines (scr e)))"
proof -
  note s = wf_scrD [OF wf] and sc = wf_scr_screenD [OF wf]
  let ?n = "length (s_lines (scr e))"
  let ?P = "\<lambda>s'. wf_scr (e_tables e) c r b (e_active e) s' \<and>
    (\<exists>lines. s' = (scr e)\<lparr>s_lines := lines\<rparr> \<and> length lines = ?n)"
  have mod: "runs (modify_line (scr e) i clear_wrap) ?P" if "i < ?n" for i
    by (rule modify_line_wf [OF s that]) (simp add: clear_wrap_def)
  have r: "r \<le> ?n" "0 < r" "s_rows (scr e) = r"
    using wf_posD(2,1) [OF wf] wfD(13) [OF wf] by auto
  have keep: "?P (scr e)" using s by (auto intro: exI [of _ "s_lines (scr e)"])
  have "runs (if k < 0 then
                  (if 0 < ?n - r then modify_line (scr e) (?n - r - 1) clear_wrap else Some (scr e))
                else if nat k < s_rows (scr e) then modify_line (scr e) (?n - r + nat k) clear_wrap
                else Some (scr e)) ?P"
    using keep mod [of "?n - r - 1"] mod [of "?n - r + nat k"] r(1,2)
    unfolding r(3) by (cases "k < 0"; cases "r < ?n"; cases "nat k < r") simp_all
  then show ?thesis
    unfolding set_hard_wrapped_def runs_bind runs_history_len [OF sc]
    by (rule runs_mono) (auto simp: wf frame_set_scr intro: wf_set_scr)
qed

subsection \<open>Eviction\<close>

lemma evict_runs:
  assumes sub: "\<And>x y. y \<le> x \<Longrightarrow> sub x y = Some (x - y)"
    and len: "length lines = n + r" and h: "h = sum_list (map row_cost (take n lines))"
  shows "runs (evict sub r sc b lines h d) (\<lambda>(lines', h', d').
     \<exists>k \<le> n. lines' = drop k lines \<and> h' = sum_list (map row_cost (take (n - k) lines')) \<and>
       (n = k \<or> h' + sc \<le> b) \<and> d' = (d \<or> 0 < k))"
  using len h
proof (induction lines arbitrary: n h d)
  case Nil
  then show ?case by simp
next
  case (Cons x lines)
  show ?case
  proof (cases "0 < n \<and> b < h + sc")
    case False
    then show ?thesis using Cons.prems by (auto intro!: exI [of _ 0])
  next
    case True
    then obtain m where n: "n = Suc m" by (cases n) auto
    then have h: "h = row_cost x + sum_list (map row_cost (take m lines))"
      using Cons.prems(2) by simp
    let ?h = "h - (length (r_cells x) + ROW_OVERHEAD_CELLS)"
    have h': "?h = sum_list (map row_cost (take m lines))" using h by (simp add: row_cost_def)
    have s: "sub h (length (r_cells x) + ROW_OVERHEAD_CELLS) = Some ?h"
      using h by (intro sub) (simp add: row_cost_def)
    have "runs (evict sub r sc b lines ?h True) (\<lambda>(lines', h', d').
     \<exists>k \<le> m. lines' = drop k lines \<and> h' = sum_list (map row_cost (take (m - k) lines')) \<and>
       (m = k \<or> h' + sc \<le> b) \<and> d' = (True \<or> 0 < k))"
      using Cons.prems(1) h' n by (intro Cons.IH) auto
    then have "runs (evict sub r sc b lines ?h True) (\<lambda>(lines', h', d').
     \<exists>k \<le> n. lines' = drop k (x # lines) \<and> h' = sum_list (map row_cost (take (n - k) lines')) \<and>
       (n = k \<or> h' + sc \<le> b) \<and> d' = (d \<or> 0 < k))"
    proof (rule runs_mono, clarify)
      fix k assume k: "k \<le> m"
        "m = k \<or> sum_list (map row_cost (take (m - k) (drop k lines))) + sc \<le> b"
      show "\<exists>k' \<le> n. drop k lines = drop k' (x # lines) \<and>
          sum_list (map row_cost (take (m - k) (drop k lines))) =
            sum_list (map row_cost (take (n - k') (drop k lines))) \<and>
          (n = k' \<or> sum_list (map row_cost (take (m - k) (drop k lines))) + sc \<le> b) \<and>
          (True \<or> 0 < k) = (d \<or> 0 < k')"
        by (rule exI [of _ "Suc k"]) (use k n in auto)
    qed
    then show ?thesis using True Cons.prems(1) s by simp
  qed
qed

text \<open>
  A screen in the middle of a scroll: \<open>n\<close> rows above the screen, of which the first \<open>first\<close>
  are accounted for.
\<close>

definition pending_scr :: "tables \<Rightarrow> nat \<Rightarrow> nat \<Rightarrow> bool \<Rightarrow> nat \<Rightarrow> nat \<Rightarrow> screen \<Rightarrow> bool" where
  "pending_scr t c r alt first n s \<longleftrightarrow>
     wf_screen t c r s \<and> s_keeps_history s = (\<not> alt) \<and> length (s_lines s) = n + r \<and>
     first \<le> n \<and> (\<not> alt \<longrightarrow> s_history_cells s = history_cost first s)"

definition other_scr :: "emulator \<Rightarrow> screen" where
  "other_scr e = (if e_active e then e_normal e else e_alternate e)"

definition pending :: "nat \<Rightarrow> nat \<Rightarrow> nat \<Rightarrow> nat \<Rightarrow> nat \<Rightarrow> emulator \<Rightarrow> bool" where
  "pending c r b first n e \<longleftrightarrow>
     wf_core c r b e \<and> pending_scr (e_tables e) c r (e_active e) first n (scr e) \<and>
     wf_scr (e_tables e) c r b (\<not> e_active e) (other_scr e)"

lemma pending_start:
  "wf_emu c r b e \<Longrightarrow> length (s_lines (scr e)) = n + r \<Longrightarrow> pending c r b n n e"
  by (auto simp: wf_emu_def pending_def pending_scr_def wf_scr_def scr_def other_scr_def)

lemma pending_done:
  assumes p: "pending c r b n n e" and fits: "n = 0 \<or> (\<not> e_active e \<and> s_history_cells (scr e) + r * c \<le> b)"
  shows "wf_emu c r b e"
proof -
  have "wf_scr (e_tables e) c r b (e_active e) (scr e)"
    using assms by (auto simp: pending_def pending_scr_def wf_scr_def)
  then show ?thesis
    using p by (auto simp: wf_emu_def pending_def scr_def other_scr_def split: if_splits)
qed

lemma pending_screenD: "pending c r b first n e \<Longrightarrow> wf_screen (e_tables e) c r (scr e)"
  by (simp add: pending_def pending_scr_def)

lemma pending_set_scr:
  "pending c r b first n e \<Longrightarrow> pending_scr (e_tables e) c r (e_active e) first' n' s \<Longrightarrow>
     pending c r b first' n' (set_scr e s)"
  by (auto simp: pending_def other_scr_def set_scr_def wf_core_def scr_def split: if_splits)

lemma pending_grown:
  assumes "pending c r b first n e" "wf_core c r b e'" "grown e e'"
  shows "pending c r b first n e'"
proof -
  have le: "tables_le (e_tables e) (e_tables e')" and act: "e_active e' = e_active e"
    using assms(3) by (auto simp: grown_def frame_def)
  have "other_scr e' = other_scr e" "scr e' = scr e"
    using assms(3) act by (simp_all add: other_scr_def scr_def grown_def)
  with assms le act show ?thesis
    by (auto simp: pending_def pending_scr_def intro: wf_screen_mono wf_scr_mono)
qed

lemma wf_screen_lines:
  "wf_screen t c r s \<Longrightarrow> r \<le> length lines \<Longrightarrow> \<forall>x \<in> set lines. wf_row t c x \<Longrightarrow>
     wf_screen t c r (s\<lparr>s_lines := lines\<rparr>)"
  by (simp add: wf_screen_def)

lemma wf_screen_history [simp]: "wf_screen t c r (s\<lparr>s_history_cells := h\<rparr>) = wf_screen t c r s"
  by (simp add: wf_screen_def)

lemma insert_new_row_pending:
  assumes p: "pending c r b first n e" and i: "first \<le> i" "i \<le> n + r"
  shows "runs (insert_new_row fill e i) (\<lambda>e'. pending c r b first (n + 1) e' \<and> frame e' = frame e)"
proof -
  let ?e = "fst (new_row e fill)" and ?x = "snd (new_row e fill)"
  have core: "wf_core c r b e" using p by (simp add: pending_def)
  note n = new_row_core [OF core, of fill]
  have p': "pending c r b first n ?e" using pending_grown [OF p] n by blast
  have len: "length (s_lines (scr ?e)) = n + r" using p' by (simp add: pending_def pending_scr_def)
  let ?lines = "take i (s_lines (scr ?e)) @ ?x # drop i (s_lines (scr ?e))"
  have rows: "\<forall>x \<in> set ?lines. wf_row (e_tables ?e) c x"
    using n wf_screenD(5) [OF pending_screenD [OF p']] by (auto dest!: in_set_takeD in_set_dropD)
  have "pending_scr (e_tables ?e) c r (e_active ?e) first (n + 1) ((scr ?e)\<lparr>s_lines := ?lines\<rparr>)"
    using p' i len rows
    by (auto simp: pending_def pending_scr_def history_cost_def min_absorb2
        intro!: wf_screen_lines)
  from pending_set_scr [OF p' this] show ?thesis
    using i len n by (auto simp: insert_new_row_def grown_def frame_set_scr split: prod.split)
qed

lemma insert_rows_pending:
  assumes "pending c r b first first e" and "bottom < r"
  shows "runs (foldM (\<lambda>e k. insert_new_row fill e (first + bottom + 1 + k)) e [0..<amount])
    (\<lambda>e'. pending c r b first (first + amount) e' \<and> frame e' = frame e)"
proof (induction amount)
  case 0
  then show ?case using assms by simp
next
  case (Suc k)
  then show ?case
    unfolding upt_Suc_append [OF le0] foldM_append runs_bind
  proof (rule runs_mono)
    fix e' assume e': "pending c r b first (first + k) e' \<and> frame e' = frame e"
    then have "runs (insert_new_row fill e' (first + bottom + 1 + k))
      (\<lambda>e''. pending c r b first (first + k + 1) e'' \<and> frame e'' = frame e')"
      using assms(2) by (intro insert_new_row_pending) auto
    then show "runs (foldM (\<lambda>e k. insert_new_row fill e (first + bottom + 1 + k)) e' [k])
        (\<lambda>e'. pending c r b first (first + Suc k) e' \<and> frame e' = frame e)"
      using e' by (auto elim!: runs_mono)
  qed
qed

lemma freeze_row_pending:
  assumes p: "pending_scr t c r False i n s" and i: "i < n"
  shows "runs (freeze_row t s i) (\<lambda>s'. pending_scr t c r False (i + 1) n s' \<and>
    s_row s' = s_row s \<and> s_col s' = s_col s)"
proof -
  have len: "length (s_lines s) = n + r" and sc: "wf_screen t c r s"
    using p by (simp_all add: pending_scr_def)
  have "wf_row t c (s_lines s ! i)" using wf_screenD(6) [OF sc, of i] i len by simp
  from trim_runs [OF this] show ?thesis
    unfolding freeze_row_def runs_bind runs_index
    using i len p sc
    by (auto simp: pending_scr_def history_cost_def take_Suc_conv_app_nth row_cost_def
        intro!: wf_screen_lines dest: in_set_update wf_screenD(5) elim!: runs_mono)
qed

lemma freeze_rows_pending:
  assumes "pending_scr t c r False first n s" and "first + count \<le> n"
  shows "runs (foldM (freeze_row t) s [first..<first + count])
    (\<lambda>s'. pending_scr t c r False (first + count) n s' \<and> s_row s' = s_row s \<and> s_col s' = s_col s)"
  using assms(2)
proof (induction count)
  case 0
  then show ?case using assms by simp
next
  case (Suc k)
  then have "runs (foldM (freeze_row t) s [first..<first + k])
    (\<lambda>s'. pending_scr t c r False (first + k) n s' \<and> s_row s' = s_row s \<and> s_col s' = s_col s)"
    by simp
  then have "runs (foldM (freeze_row t) s [first..<first + k]) (\<lambda>s1.
    runs (freeze_row t s1 (first + k)) (\<lambda>s'. pending_scr t c r False (first + Suc k) n s' \<and>
      s_row s' = s_row s \<and> s_col s' = s_col s))"
  proof (rule runs_mono)
    fix s1 assume s1: "pending_scr t c r False (first + k) n s1 \<and> s_row s1 = s_row s \<and>
      s_col s1 = s_col s"
    then show "runs (freeze_row t s1 (first + k)) (\<lambda>s'. pending_scr t c r False (first + Suc k) n s' \<and>
      s_row s' = s_row s \<and> s_col s' = s_col s)"
      using Suc.prems freeze_row_pending [of t c r "first + k" n s1] by (auto elim!: runs_mono)
  qed
  then show ?case by (simp add: foldM_append)
qed

lemma enforce_budget_pending:
  assumes p: "pending c r b n n e" and act: "\<not> e_active e"
  shows "runs (enforce_budget e) (\<lambda>e'. wf_emu c r b e' \<and> frame e' = frame e)"
proof -
  have scr: "scr e = e_normal e" using act by (simp add: scr_def)
  have ps: "pending_scr (e_tables e) c r False n n (e_normal e)"
    using p act by (simp add: pending_def scr)
  then have len: "length (s_lines (e_normal e)) = n + r"
    and h: "s_history_cells (e_normal e) = sum_list (map row_cost (take n (s_lines (e_normal e))))"
    and sc: "wf_screen (e_tables e) c r (e_normal e)"
    by (simp_all add: pending_scr_def history_cost_def)
  have core: "wf_core c r b e" using p by (simp add: pending_def)
  have "runs (evict usub r (r * c) b (s_lines (e_normal e)) (s_history_cells (e_normal e))
      (e_head_dropped e)) (\<lambda>(lines', h', d'). \<exists>k \<le> n. lines' = drop k (s_lines (e_normal e)) \<and>
       h' = sum_list (map row_cost (take (n - k) lines')) \<and> (n = k \<or> h' + r * c \<le> b) \<and>
       d' = (e_head_dropped e \<or> 0 < k))"
    by (rule evict_runs [OF _ len h]) (simp add: usub_def)
  then show ?thesis
    unfolding enforce_budget_def wf_screenD(1) [OF sc] wf_coreD(3-5) [OF core] runs_bind
  proof (rule runs_mono, clarsimp)
    fix k assume k: "k \<le> n" "n = k \<or>
        sum_list (map row_cost (take (n - k) (drop k (s_lines (e_normal e))))) + r * c \<le> b"
    let ?s = "(e_normal e)\<lparr>s_lines := drop k (s_lines (e_normal e)),
      s_history_cells := sum_list (map row_cost (take (n - k) (drop k (s_lines (e_normal e)))))\<rparr>"
    let ?e = "e\<lparr>e_normal := ?s, e_head_dropped := e_head_dropped e \<or> 0 < k\<rparr>"
    have "pending_scr (e_tables e) c r False (n - k) (n - k) ?s"
      using ps k by (auto simp: pending_scr_def history_cost_def wf_screen_def dest: in_set_dropD)
    then have "pending c r b (n - k) (n - k) ?e"
      using p act by (simp add: pending_def scr_def other_scr_def wf_core_def)
    from pending_done [OF this] have "wf_emu c r b ?e"
      using k act by (auto simp: scr_def)
    moreover have "frame ?e = frame e" using act by (simp add: frame_def scr_def)
    ultimately show "wf_emu c r b ?e \<and> frame ?e = frame e" by simp
  qed
qed

lemma freeze_into_history_pending:
  assumes p: "pending c r b first (first + count) e" and first: "e_active e \<Longrightarrow> first = 0"
  shows "runs (freeze_into_history e first count) (\<lambda>e'. wf_emu c r b e' \<and> frame e' = frame e)"
proof (cases "e_active e")
  case True
  note sc = pending_screenD [OF p]
  let ?n = "length (s_lines (scr e)) - r"
  have "pending_scr (e_tables e) c r True 0 0 ((scr e)\<lparr>s_lines := drop ?n (s_lines (scr e))\<rparr>)"
    using p True by (auto simp: pending_def pending_scr_def wf_screen_def dest: in_set_dropD)
  then have "pending c r b 0 0 (set_scr e ((scr e)\<lparr>s_lines := drop ?n (s_lines (scr e))\<rparr>))"
    using pending_set_scr [OF p, of 0 0] True by simp
  then have "wf_emu c r b (set_scr e ((scr e)\<lparr>s_lines := drop ?n (s_lines (scr e))\<rparr>))"
    by (rule pending_done) simp
  moreover have "\<not> s_keeps_history (scr e)" using p True by (simp add: pending_def pending_scr_def)
  ultimately show ?thesis
    by (simp add: freeze_into_history_def runs_history_len [OF sc] frame_set_scr)
next
  case False
  have "pending_scr (e_tables e) c r False first (first + count) (scr e)"
    using p False by (simp add: pending_def)
  from freeze_rows_pending [OF this]
  have "runs (foldM (freeze_row (e_tables e)) (scr e) [first..<first + count])
    (\<lambda>s'. pending_scr (e_tables e) c r False (first + count) (first + count) s' \<and>
      s_row s' = s_row (scr e) \<and> s_col s' = s_col (scr e))"
    by simp
  then have "runs (foldM (freeze_row (e_tables e)) (scr e) [first..<first + count])
    (\<lambda>s. runs (enforce_budget (set_scr e s)) (\<lambda>e'. wf_emu c r b e' \<and> frame e' = frame e))"
  proof (rule runs_mono)
    fix s assume s: "pending_scr (e_tables e) c r False (first + count) (first + count) s \<and>
      s_row s = s_row (scr e) \<and> s_col s = s_col (scr e)"
    then have "pending c r b (first + count) (first + count) (set_scr e s)"
      using pending_set_scr [OF p] False by simp
    from enforce_budget_pending [OF this] show
      "runs (enforce_budget (set_scr e s)) (\<lambda>e'. wf_emu c r b e' \<and> frame e' = frame e)"
      using False s by (simp add: frame_set_scr)
  qed
  moreover have "s_keeps_history (scr e)" using p False by (simp add: pending_def pending_scr_def)
  ultimately show ?thesis by (simp add: freeze_into_history_def)
qed

subsection \<open>Scrolling a region\<close>

lemma take_remove_insert:
  assumes "k \<le> i" "k \<le> j" "i < length xs" "j \<le> length xs - 1"
  shows "take k (take j (remove_at xs i) @ x # drop j (remove_at xs i)) = take k xs"
  using assms by (simp add: remove_at_def min_def)

lemma length_insert: "length (take k xs @ x # drop k xs) = Suc (length xs)"
  by simp

lemma rotate_row_wf:
  assumes wf: "wf_emu c r b e" and i: "i < r" and j: "j < r"
  shows "runs (rotate_row fill i j e) (\<lambda>e'. wf_emu c r b e' \<and> frame e' = frame e)"
proof -
  let ?e = "fst (new_row e fill)" and ?x = "snd (new_row e fill)"
  note n = new_row_core [OF wf_emu_core [OF wf], of fill]
  have wf': "wf_emu c r b ?e" using wf_grown [OF wf] n by blast
  note sc = wf_scr_screenD [OF wf']
  let ?ls = "s_lines (scr ?e)"
  let ?h = "length ?ls - r"
  have len: "r \<le> length ?ls" using wf_screenD(2) [OF sc] .
  have rm: "length (remove_at ?ls (?h + i)) = length ?ls - 1"
    using i len by (simp add: remove_at_def)
  have j': "?h + j \<le> length ?ls - 1" using j len by linarith
  let ?lines = "take (?h + j) (remove_at ?ls (?h + i)) @ ?x # drop (?h + j) (remove_at ?ls (?h + i))"
  have "set (remove_at ?ls (?h + i)) \<subseteq> set ?ls"
    by (auto simp: remove_at_def dest: in_set_takeD in_set_dropD)
  then have rows: "\<forall>x \<in> set ?lines. wf_row (e_tables ?e) c x"
    using n wf_screenD(5) [OF sc] by (auto dest!: in_set_takeD in_set_dropD)
  have "take ?h ?lines = take ?h ?ls"
    using take_remove_insert [of ?h "?h + i" "?h + j" ?ls ?x] i len j' by simp
  then have "wf_scr (e_tables ?e) c r b (e_active ?e) ((scr ?e)\<lparr>s_lines := ?lines\<rparr>)"
    using rows length_insert [of "?h + j" "remove_at ?ls (?h + i)" ?x] rm len i
    by (intro wf_scr_lines wf_scrD [OF wf']) auto
  from wf_set_scr [OF wf' this] show ?thesis
    using rm j' n runs_history_len [OF sc]
    by (simp add: rotate_row_def grown_def frame_set_scr split_beta)
qed

lemma rotate_rows_wf:
  assumes wf: "wf_emu c r b e" and i: "i < r" and j: "j < r"
  shows "runs (foldM (\<lambda>e k. rotate_row fill i j e) e ks) (\<lambda>e'. wf_emu c r b e' \<and> frame e' = frame e)"
proof (rule runs_foldM)
  fix s x assume s: "wf_emu c r b s \<and> frame s = frame e"
  then show "runs (rotate_row fill i j s) (\<lambda>e'. wf_emu c r b e' \<and> frame e' = frame e)"
    using rotate_row_wf [of c r b s i j fill] i j by (auto elim!: runs_mono)
qed (use wf in simp)

lemma wf_history_alt: "wf_emu c r b e \<Longrightarrow> e_active e \<Longrightarrow> length (s_lines (scr e)) = r"
  by (simp add: wf_emu_def wf_scr_def scr_def)

lemma scroll_into_history_wf:
  assumes wf: "wf_emu c r b e" and bottom: "bottom < r"
  shows "runs (scroll_into_history fill bottom n e) (\<lambda>e'. wf_emu c r b e' \<and> frame e' = frame e)"
proof -
  note sc = wf_scr_screenD [OF wf]
  let ?h = "length (s_lines (scr e)) - r"
  have "pending c r b ?h ?h e"
    using wf_screenD(2) [OF sc] by (intro pending_start [OF wf]) simp
  from insert_rows_pending [OF this bottom] show ?thesis
    unfolding scroll_into_history_def runs_bind runs_history_len [OF sc]
  proof (rule runs_mono)
    fix e1 assume e1: "pending c r b ?h (?h + n) e1 \<and> frame e1 = frame e"
    then have "e_active e1 \<Longrightarrow> ?h = 0"
      using wf_history_alt [OF wf] frameD(1) [of e1 e] by simp
    then show "runs (freeze_into_history e1 ?h n) (\<lambda>e'. wf_emu c r b e' \<and> frame e' = frame e)"
      using runs_mono [OF freeze_into_history_pending [of c r b ?h n e1]] e1 by auto
  qed
qed

lemma scroll_up_wf:
  assumes wf: "wf_emu c r b e" and m: "tp \<le> bottom" "bottom < r"
  shows "runs (scroll_up e tp bottom amount fill) (\<lambda>e'. wf_emu c r b e' \<and> frame e' = frame e)"
proof (cases "tp = 0")
  case True
  let ?n = "max 1 (min amount (bottom + 1))"
  have "runs (if bottom \<noteq> r - 1 then set_hard_wrapped e (int bottom) else Some e)
     (\<lambda>e'. wf_emu c r b e' \<and> frame e' = frame e)"
    using wf runs_mono [OF set_hard_wrapped_wf [OF wf, of "int bottom"]] by simp
  then have "runs (if bottom \<noteq> r - 1 then set_hard_wrapped e (int bottom) else Some e)
     (\<lambda>e1. runs (scroll_into_history fill bottom ?n e1) (\<lambda>e'. wf_emu c r b e' \<and> frame e' = frame e))"
    by (rule runs_mono) (use runs_mono [OF scroll_into_history_wf [OF _ m(2)]] in auto)
  then show ?thesis
    using True m wfD(2,4) [OF wf] by (cases "bottom = r - 1") (simp_all add: scroll_up_def)
next
  case False
  have rest: "runs (foldM (\<lambda>e k. rotate_row fill tp bottom e) e2 ks)
      (\<lambda>e'. wf_emu c r b e' \<and> frame e' = frame e)" if "wf_emu c r b e2" "frame e2 = frame e" for e2 ks
    using rotate_rows_wf [OF that(1), of tp bottom] m that(2) by (auto elim!: runs_mono)
  have two: "runs (set_hard_wrapped e1 (int bottom)) (\<lambda>e2. wf_emu c r b e2 \<and> frame e2 = frame e)"
    if "wf_emu c r b e1" "frame e1 = frame e" for e1
    using runs_mono [OF set_hard_wrapped_wf [OF that(1)]] that(2) by simp
  have one: "runs (set_hard_wrapped e (int tp - 1)) (\<lambda>e1. wf_emu c r b e1 \<and> frame e1 = frame e)"
    using runs_mono [OF set_hard_wrapped_wf [OF wf]] by simp
  show ?thesis
    using False m
    by (auto simp: scroll_up_def intro!: runs_mono [OF one] runs_mono [OF two] rest)
qed

lemma scroll_down_wf:
  assumes wf: "wf_emu c r b e" and m: "tp \<le> bottom" "bottom < r"
  shows "runs (scroll_down e tp bottom amount fill) (\<lambda>e'. wf_emu c r b e' \<and> frame e' = frame e)"
proof -
  have shw: "runs (set_hard_wrapped e1 k) (\<lambda>e2. wf_emu c r b e2 \<and> frame e2 = frame e)"
    if "wf_emu c r b e1" "frame e1 = frame e" for e1 k
    using runs_mono [OF set_hard_wrapped_wf [OF that(1)]] that(2) by simp
  show ?thesis
    using m
    by (auto simp: scroll_down_def intro!: runs_mono [OF rotate_rows_wf [OF wf]]
        runs_mono [OF shw] shw)
qed

subsection \<open>Line movement\<close>

lemma cursor_down_wf:
  assumes wf: "wf_emu c r b e"
  shows "runs (cursor_down_with_scrolling e fill)
    (\<lambda>e'. wf_emu c r b e' \<and> s_col (scr e') = s_col (scr e) \<and> e_active e' = e_active e \<and>
       e_pen_id e' = e_pen_id e)"
proof (cases "s_row (scr e) = e_bottom e")
  case True
  then show ?thesis
    using scroll_up_wf [OF wf wfD(6,7) [OF wf], of 1 fill]
    by (auto simp: cursor_down_with_scrolling_def dest: frameD elim!: runs_mono)
next
  case False
  then show ?thesis
    using wf wfD(4) [OF wf] by (simp add: cursor_down_with_scrolling_def set_row_def wf_set_scr wf_scrD)
qed

lemma cursor_up_wf:
  assumes wf: "wf_emu c r b e"
  shows "runs (cursor_up_with_scrolling e fill)
    (\<lambda>e'. wf_emu c r b e' \<and> s_col (scr e') = s_col (scr e) \<and> e_active e' = e_active e \<and>
       e_pen_id e' = e_pen_id e)"
proof (cases "s_row (scr e) = e_top e")
  case True
  then show ?thesis
    using scroll_down_wf [OF wf wfD(6,7) [OF wf], of 1 fill]
    by (auto simp: cursor_up_with_scrolling_def dest: frameD elim!: runs_mono)
next
  case False
  then show ?thesis
    using wf wf_posD(3) [OF wf]
    by (simp add: cursor_up_with_scrolling_def set_row_def wf_set_scr wf_scrD)
qed

lemma retreat_wf:
  assumes wf: "wf_emu c r b e"
  shows "runs (retreat e) (\<lambda>e'. wf_emu c r b e' \<and> s_col (scr e') < c)"
  using wf wfD(1,3) [OF wf] by (auto simp: retreat_def)

end
