(* ===== verification/Replay_Edit_Facts.thy ===== *)
theory Replay_Edit_Facts
  imports Replay_Scroll_Facts
begin

text \<open>
  Printing, cursor movement, erasing and editing keep the invariant; in particular none of them
  panics.
\<close>

subsection \<open>Row edits\<close>

lemma wf_row_cells_iff:
  "wf_row t c (r\<lparr>r_cells := cs\<rparr>) \<longleftrightarrow> length cs \<le> c \<and> (\<forall>x \<in> set cs. wf_cell t x)"
  by (simp add: wf_row_def)

lemma wf_row_fill_range:
  assumes "wf_row t c r" "wf_cell t v" "a \<le> b" "b \<le> length (r_cells r)"
  shows "wf_row t c (r\<lparr>r_cells := take a (r_cells r) @ replicate (b - a) v @ drop b (r_cells r)\<rparr>)"
  using assms by (auto simp: wf_row_def dest: in_set_takeD in_set_dropD)

lemma wf_row_copy_within:
  assumes "wf_row t c r" "a \<le> b" "b \<le> length (r_cells r)" "d + (b - a) \<le> length (r_cells r)"
  shows "wf_row t c (r\<lparr>r_cells := take d (r_cells r) @ take (b - a) (drop a (r_cells r))
     @ drop (d + (b - a)) (r_cells r)\<rparr>)"
  using assms by (auto simp: wf_row_def dest!: in_set_takeD in_set_dropD)

lemma ball_fill:
  "\<forall>x \<in> set cs. P x \<Longrightarrow> P v \<Longrightarrow> \<forall>x \<in> set (take f cs @ replicate k v @ drop g cs). P x"
  by (auto dest: in_set_takeD in_set_dropD)

lemma length_fill: "f \<le> g \<Longrightarrow> g \<le> length cs \<Longrightarrow>
    length (take f cs @ replicate (g - f) v @ drop g cs) = length cs"
  by simp

lemma length_copy: "a \<le> b \<Longrightarrow> b \<le> length cs \<Longrightarrow> d + (b - a) \<le> length cs \<Longrightarrow>
    length (take d cs @ take (b - a) (drop a cs) @ drop (d + (b - a)) cs) = length cs"
  by simp

lemma copy_fill_runs:
  assumes "wf_row t c r" "wf_cell t v" "length (r_cells r) = n"
    and "a \<le> b" "b \<le> n" "d + (b - a) \<le> n" "f \<le> g" "g \<le> n"
    and "\<And>cs. wf_row t c (r\<lparr>r_cells := cs\<rparr>) \<Longrightarrow> length cs = n \<Longrightarrow> Q cs"
  shows "runs (copy_within (r_cells r) a b d) (\<lambda>c1. runs (fill_range c1 f g v) Q)"
proof -
  let ?C = "take d (r_cells r) @ take (b - a) (drop a (r_cells r)) @ drop (d + (b - a)) (r_cells r)"
  let ?D = "take f ?C @ replicate (g - f) v @ drop g ?C"
  have len: "length ?C = n" using length_copy [of a b "r_cells r" d] assms(3-6) by blast
  have "wf_row t c (r\<lparr>r_cells := ?C\<rparr>)" using wf_row_copy_within assms(1,3-6) by blast
  then have C: "length ?C \<le> c" "\<forall>x \<in> set ?C. wf_cell t x" unfolding wf_row_cells_iff by blast+
  have D: "length ?D = n" using length_fill [OF assms(7), of ?C v] assms(8) len by blast
  have "wf_row t c (r\<lparr>r_cells := ?D\<rparr>)"
    unfolding wf_row_cells_iff D using ball_fill [OF C(2) assms(2)] C(1) len by blast
  moreover note D
  ultimately have "Q ?D" using assms(9) by blast
  then show ?thesis
    unfolding runs_copy_within runs_fill_range len assms(3) using assms(4-8) by blast
qed

lemma shift_body_runs:
  assumes "wf_row t c r" "wf_cell t v" "left + k \<le> right + 1" "right + 1 \<le> length (r_cells r)"
  shows "runs (copy_within (r_cells r) left (right + 1 - k) (left + k))
     (\<lambda>c1. runs (fill_range c1 left (left + k) v)
     (\<lambda>c2. wf_row t c (r\<lparr>r_cells := c2\<rparr>) \<and> right < length (r_cells (r\<lparr>r_cells := c2\<rparr>))))"
    and "runs (copy_within (r_cells r) (left + k) (right + 1) left)
     (\<lambda>c1. runs (fill_range c1 (right + 1 - k) (right + 1) v)
     (\<lambda>c2. wf_row t c (r\<lparr>r_cells := c2, r_wrapped := False\<rparr>)))"
  by (rule copy_fill_runs [OF assms(1,2) refl]; use assms(3,4) in \<open>simp add: wf_row_cells_iff\<close>)+

lemma shift_right_runs:
  assumes r: "wf_row t c r" and t: "wf_tables t" and v: "wf_cell t v"
    and bounds: "left \<le> right" "right < c"
  shows "runs (shift_right r left right amount v) (\<lambda>r'. wf_row t c r' \<and> right < length (r_cells r'))"
proof -
  let ?n = "max 1 (min amount (right - left + 1))"
  let ?r1 = "cleanup_fragments (fill_to r (right + 1)) left left"
  let ?r2 = "cleanup_fragments ?r1 (right + 1 - ?n) (right + 1)"
  have n: "left + ?n \<le> right + 1" using bounds by auto
  have wf2: "wf_row t c ?r2" using r t bounds by simp
  have len: "right + 1 \<le> length (r_cells ?r2)" by simp
  have "runs (copy_within (r_cells ?r2) left (right + 1 - ?n) (left + ?n))
     (\<lambda>c1. runs (fill_range c1 left (left + ?n) v)
     (\<lambda>c2. wf_row t c (?r2\<lparr>r_cells := c2\<rparr>) \<and> right < length (r_cells (?r2\<lparr>r_cells := c2\<rparr>))))"
    by (rule shift_body_runs(1) [OF wf2 v n len])
  moreover have "?n \<le> right + 1" "1 \<le> right - left + 1" using n by simp_all
  ultimately show ?thesis
    unfolding shift_right_def Let_def runs_bind runs_usub runs_clamp runs_Some
    using bounds(1) by blast
qed

lemma shift_left_runs:
  assumes r: "wf_row t c r" and t: "wf_tables t" and v: "wf_cell t v"
    and bounds: "left \<le> right" "right < c"
  shows "runs (shift_left r left right amount v) (wf_row t c)"
proof -
  let ?n = "max 1 (min amount (right - left + 1))"
  let ?r1 = "cleanup_fragments (fill_to r (right + 1)) left (left + ?n)"
  let ?r2 = "cleanup_fragments ?r1 (right + 1) (right + 1)"
  have n: "left + ?n \<le> right + 1" using bounds by auto
  have wf2: "wf_row t c ?r2" using r t bounds by simp
  have len: "right + 1 \<le> length (r_cells ?r2)" by simp
  have "?n \<le> right + 1" "1 \<le> right - left + 1" using n by simp_all
  with shift_body_runs(2) [OF wf2 v n len] show ?thesis
    unfolding shift_left_def Let_def runs_bind runs_usub runs_clamp runs_Some
    using bounds(1) by blast
qed

lemma fill_cells_runs:
  assumes "wf_row t c r" "wf_cell t v" "a \<le> b" "b \<le> length (r_cells r)"
  shows "runs (fill_range (r_cells r) a b v) (\<lambda>cs. wf_row t c (r\<lparr>r_cells := cs\<rparr>))"
  using wf_row_fill_range [OF assms] assms by simp

subsection \<open>Characters\<close>

lemma is_scalar_bound: "is_scalar x \<Longrightarrow> unat x < 0x110000"
  by (auto simp: is_scalar_nat)

lemma wf_cell_char:
  assumes "is_scalar x" "p < npens t"
  shows "wf_cell t \<lparr>c_code = x, c_pen = p\<rparr>" "wf_cell t \<lparr>c_code = WIDE OR x, c_pen = p\<rparr>"
proof -
  show "wf_cell t \<lparr>c_code = x, c_pen = p\<rparr>"
    using is_scalar_bound [OF assms(1)] assms(2) by (simp add: wf_cell_small)
  have "\<not> bit x 29" using bit_small [of x 29 29] is_scalar_bound [OF assms(1)] by simp
  then show "wf_cell t \<lparr>c_code = WIDE OR x, c_pen = p\<rparr>"
    using assms(2) by (simp add: wf_cell_def is_cluster_code_bit bit_or_iff code_bits)
qed

lemma LINE_DRAWING_scalar: "x \<in> set LINE_DRAWING \<Longrightarrow> is_scalar x"
  by (auto simp: LINE_DRAWING_def is_scalar_nat)

lemma map_charset_runs:
  assumes "is_scalar x"
  shows "runs (map_charset e x) is_scalar"
proof -
  have "unat (x - 0x5f) < length LINE_DRAWING" if "0x5f \<le> x" "x \<le> 0x7e"
    using that by (simp add: LINE_DRAWING_def unat_sub word_le_nat_alt)
  then show ?thesis
    using assms nth_mem LINE_DRAWING_scalar by (fastforce simp: map_charset_def)
qed

lemma ascii_scalar: "printable_ascii b \<Longrightarrow> is_scalar (ucast b)"
  using unat_u8_less [of b] by (simp add: is_scalar_nat unat_ucast32)

lemma put_char_runs:
  assumes r: "wf_row t c r" and t: "wf_tables t" and col: "col + width \<le> c" "1 \<le> width"
    and x: "wf_cell t \<lparr>c_code = code, c_pen = p\<rparr>"
  shows "runs (put_char ins c col width code p r) (wf_row t c)"
proof -
  let ?P = "\<lambda>r1. wf_row t c r1 \<and> (width = 2 \<longrightarrow> col + 1 < length (r_cells r1)) \<and>
    col < length (r_cells r1)"
  have "runs (shift_right r col (c - 1) width BLANK) (\<lambda>r'. wf_row t c r' \<and> c - 1 < length (r_cells r'))"
    using r t col by (intro shift_right_runs wf_BLANK) auto
  then have "runs (shift_right r col (c - 1) width BLANK) ?P"
    using col by (elim runs_mono) auto
  then have one: "runs (if ins then do { last \<leftarrow> usub c 1; shift_right r col last width BLANK }
                else Some (fill_to (cleanup_fragments r col (col + width)) (col + width))) ?P"
    using r t col by (simp add: less_max_iff_disj)
  have frag: "wf_cell t \<lparr>c_code = FRAGMENT, c_pen = p\<rparr>"
    using x by (simp add: wf_cell_def fragment_not_cluster)
  have two: "wf_row t c (cut_row (r1\<lparr>r_cells := (r_cells r1)[col := \<lparr>c_code = code, c_pen = p\<rparr>]\<rparr>) c)"
    "wf_row t c (cut_row (r1\<lparr>r_cells := (r_cells r1)[col := \<lparr>c_code = code, c_pen = p\<rparr>,
       Suc col := \<lparr>c_code = FRAGMENT, c_pen = p\<rparr>]\<rparr>) c)" if r1: "?P r1" for r1
    using r1 x frag
    by (auto simp: wf_row_cells_iff wf_row_def [of t c r1] dest!: in_set_update intro!: wf_row_cut)
  show ?thesis
    unfolding put_char_def runs_bind [of "if ins then _ else _"]
    by (rule runs_mono [OF one]) (use two in simp)
qed

lemma write_run_runs:
  assumes r: "wf_row t c r" and t: "wf_tables t" and n: "n \<le> length rest" "col + n \<le> c"
    and p: "p < npens t" and printable: "\<forall>b \<in> set rest. printable_ascii b"
  shows "runs (write_run p col n rest r) (wf_row t c)"
proof -
  let ?r1 = "fill_to (cleanup_fragments r col (col + n)) col"
  have "wf_row t c ?r1" using r t n by simp
  then have r1: "length (r_cells ?r1) \<le> c" "\<forall>x \<in> set (r_cells ?r1). wf_cell t x"
    unfolding wf_row_def by blast+
  have ascii: "wf_cell t (ascii_cell p b)" if "b \<in> set rest" for b
    using wf_cell_char(1) [OF ascii_scalar p] printable that by (simp add: ascii_cell_def)
  show ?thesis
    using n r1 ascii
    by (auto simp: write_run_def Let_def wf_row_def dest!: in_set_takeD in_set_dropD)
qed

subsection \<open>Printing\<close>

text \<open>A row edit at the cursor, followed by nothing or by a move of the column.\<close>

lemma on_cursor_row_runs:
  assumes "wf_emu c r b e" "\<And>x. wf_row (e_tables e) c x \<Longrightarrow> runs (f x) (wf_row (e_tables e) c)"
  shows "runs (on_cursor_row e f) (wf_emu c r b)"
  using runs_mono [OF on_cursor_row_wf [OF assms]] by simp

lemma autowrap_newline_wf:
  assumes wf: "wf_emu c r b e"
  shows "runs (autowrap_newline e) (\<lambda>e'. wf_emu c r b e' \<and> s_col (scr e') = 0 \<and>
     e_pen_id e' = e_pen_id e)"
proof -
  have w0: "wf_emu c r b (set_col e 0)" using wf by simp
  have "runs (on_cursor_row (set_col e 0) wrap_and_touch)
    (\<lambda>e1. wf_emu c r b e1 \<and> frame e1 = frame (set_col e 0) \<and> e_tables e1 = e_tables (set_col e 0))"
    by (rule on_cursor_row_wf [OF w0]) (simp add: wrap_and_touch_def wf_row_def)
  then show ?thesis
    unfolding autowrap_newline_def runs_bind
  proof (rule runs_mono)
    fix e1 assume e1: "wf_emu c r b e1 \<and> frame e1 = frame (set_col e 0) \<and>
      e_tables e1 = e_tables (set_col e 0)"
    then have "s_col (scr e1) = 0" "e_pen_id e1 = e_pen_id e"
      using frameD(12,14) [of e1 "set_col e 0"] by (simp_all add: set_col_def)
    then show "runs (cursor_down_with_scrolling e1 False)
       (\<lambda>e'. wf_emu c r b e' \<and> s_col (scr e') = 0 \<and> e_pen_id e' = e_pen_id e)"
      using runs_mono [OF cursor_down_wf [of c r b e1 False]] e1 by simp
  qed
qed

lemma combine_target_runs:
  assumes wf: "wf_emu c r b e"
  shows "runs (combine_target (scr e)) (\<lambda>x. case x of None \<Rightarrow> True
     | Some (line, col) \<Rightarrow> line < length (s_lines (scr e)))"
  using wf_posD(2,3) [OF wf]
  by (auto simp: combine_target_def runs_history_len [OF wf_scr_screenD [OF wf]] Let_def)

lemma head_before_le: "head_before cells col \<le> col - 1"
  by (induction cells col rule: head_before.induct) auto

lemma combined_cell:
  assumes "wf_cell t x" "tables_le t u" "i < nclusters u"
  shows "wf_cell u (x\<lparr>c_code := (c_code x AND WIDE) OR CLUSTER OR of_nat i\<rparr>)"
proof -
  let ?code = "(c_code x AND WIDE) OR CLUSTER OR of_nat i"
  have "?code AND VALUE_MASK = of_nat i AND mask 29"
    by (rule bit_eqI)
      (auto simp: value_mask bit_and_iff bit_or_iff bit_mask_iff code_bits [unfolded value_mask])
  then have "cluster_index ?code = unat (of_nat i :: u32) mod 2 ^ 29"
    by (simp only: cluster_index_def unat_and_mask)
  also have "\<dots> \<le> i" by (simp add: unat_of_nat take_bit_eq_mod mod_mod_cancel)
  finally show ?thesis
    using assms tables_le_sizes [OF assms(2)] by (auto simp: wf_cell_def)
qed

lemma combine_cell_wf:
  assumes wf: "wf_emu c r b e" and x: "wf_cell (e_tables e) x"
    and line: "line < length (s_lines (scr e))"
  shows "runs (combine_cell e mark line col x) (wf_emu c r b)"
proof -
  note t = wfD(10) [OF wf]
  have step: "runs (modify_line (scr e) line (\<lambda>r. Some (r\<lparr>r_cells :=
        (r_cells r)[col := x\<lparr>c_code := (c_code x AND WIDE) OR CLUSTER OR
           of_nat (snd (intern_cluster (e_tables e) y))\<rparr>]\<rparr>)))
     (\<lambda>s. wf_emu c r b (set_scr (e\<lparr>e_tables := fst (intern_cluster (e_tables e) y)\<rparr>) s))"
    for y
  proof -
    let ?u = "fst (intern_cluster (e_tables e) y)" and ?i = "snd (intern_cluster (e_tables e) y)"
    let ?x = "x\<lparr>c_code := (c_code x AND WIDE) OR CLUSTER OR of_nat ?i\<rparr>"
    have u: "wf_tables ?u" "tables_le (e_tables e) ?u" "?i < nclusters ?u"
      using wf_intern_cluster [OF t] tables_le_intern(3) [OF t]
        intern_nth [OF wf_tablesD(3) [OF t], of y]
      by (auto simp: interns nclusters_def)
    have wf': "wf_emu c r b (e\<lparr>e_tables := ?u\<rparr>)" using wf_grow [OF wf u(1,2)] .
    have "wf_scr ?u c r b (e_active e) (scr e)"
      using wf_scr_mono [OF wf_scrD [OF wf] u(2)] .
    then have "runs (modify_line (scr e) line (\<lambda>r. Some (r\<lparr>r_cells := (r_cells r)[col := ?x]\<rparr>)))
      (\<lambda>s'. wf_scr ?u c r b (e_active e) s' \<and>
        (\<exists>lines. s' = (scr e)\<lparr>s_lines := lines\<rparr> \<and> length lines = length (s_lines (scr e))))"
      using line combined_cell [OF x u(2,3)]
      by (intro modify_line_wf) (auto simp: wf_row_def dest!: in_set_update)
    then show ?thesis
      by (rule runs_mono) (use wf_set_scr [OF wf'] in auto)
  qed
  show ?thesis
    unfolding combine_cell_def runs_bind [of "cell_text _ _"]
    by (rule runs_mono [OF runs_cell_text [OF x]])
      (use wf step in \<open>simp add: split_beta\<close>)
qed

lemma combine_before_wf:
  assumes wf: "wf_emu c r b e" and line: "line < length (s_lines (scr e))"
  shows "runs (combine_before e mark line col) (wf_emu c r b)"
proof -
  let ?row = "s_lines (scr e) ! line"
  have "wf_cell (e_tables e) (r_cells ?row ! head_before (r_cells ?row) col)"
    if "col \<noteq> 0" "\<not> length (r_cells ?row) < col"
  proof -
    have "head_before (r_cells ?row) col < length (r_cells ?row)"
      using head_before_le [of "r_cells ?row" col] that by linarith
    then show ?thesis using wf_posD(6) [OF wf line] by (simp add: wf_row_def)
  qed
  then show ?thesis
    using wf line by (simp add: combine_before_def Let_def combine_cell_wf)
qed

lemma combine_wf:
  assumes wf: "wf_emu c r b e"
  shows "runs (combine e mark) (wf_emu c r b)"
  unfolding combine_def runs_bind
  by (rule runs_mono [OF combine_target_runs [OF wf]])
    (use wf combine_before_wf [OF wf] in \<open>auto split: option.splits\<close>)

lemma wf_last_graphic:
  "wf_emu c r b e \<Longrightarrow> is_scalar x \<Longrightarrow> wf_emu c r b (e\<lparr>e_last_graphic := Some x\<rparr>)"
  by (simp add: wf_emu_def wf_core_def)

lemma scr_last_graphic [simp]: "scr (e\<lparr>e_last_graphic := x\<rparr>) = scr e"
  by (simp add: scr_def)

text \<open>The wrap before a character of \<open>width\<close> columns leaves room for it.\<close>

lemma make_room_wf:
  assumes wf: "wf_emu c r b e" and width: "width \<le> c"
  shows "runs (make_room e width) (\<lambda>e'. wf_emu c r b e' \<and> s_col (scr e') + width \<le> c)"
  using wf width runs_mono [OF autowrap_newline_wf [OF wf]] wfD(3) [OF wf]
  by (auto simp: make_room_def)

lemma place_char_wf:
  assumes wf: "wf_emu c r b e" and room: "s_col (scr e) + width \<le> c" "1 \<le> width"
    and y: "is_scalar y"
  shows "runs (place_char e y width) (wf_emu c r b)"
proof -
  note p = take_pen_id_wf [OF wf]
  let ?e = "fst (take_pen_id e)"
  have "runs (on_cursor_row ?e (put_char (e_insert ?e) (e_cols ?e) (s_col (scr ?e)) width
      (if width = 2 then WIDE OR y else y) (snd (take_pen_id e)))) (wf_emu c r b)"
    unfolding wfD(3) [OF p(1)] p(5)
  proof (rule on_cursor_row_runs [OF p(1)])
    fix z assume z: "wf_row (e_tables ?e) c z"
    show "runs (put_char (e_insert ?e) c (s_col (scr e)) width
        (if width = 2 then WIDE OR y else y) (snd (take_pen_id e)) z) (wf_row (e_tables ?e) c)"
      using room wf_cell_char [OF y p(3)]
      by (intro put_char_runs [OF z wfD(10) [OF p(1)]]) auto
  qed
  then have "runs (on_cursor_row ?e (put_char (e_insert ?e) (e_cols ?e) (s_col (scr ?e)) width
      (if width = 2 then WIDE OR y else y) (snd (take_pen_id e))))
      (\<lambda>e2. wf_emu c r b (set_col e2 (s_col (scr ?e) + width)))"
    using room p(5) by (elim runs_mono) simp
  then show ?thesis by (simp add: place_char_def split_beta Let_def)
qed

lemma print_char_wf:
  assumes wf: "wf_emu c r b e" and x: "is_scalar x"
  shows "runs (print_char uw e x) (wf_emu c r b)"
  unfolding print_char_def runs_bind [of "map_charset _ _"]
proof (rule runs_mono [OF map_charset_runs [OF x]])
  fix y assume y: "is_scalar y"
  let ?e = "e\<lparr>e_last_graphic := Some x\<rparr>" and ?w = "min (char_width uw y) c"
  have w: "wf_emu c r b ?e" using wf_last_graphic [OF wf x] .
  have "runs (make_room ?e ?w) (\<lambda>e2. runs (place_char e2 y ?w) (wf_emu c r b))"
    if "char_width uw y \<noteq> 0"
    by (rule runs_mono [OF make_room_wf [OF w]])
      (use that wfD(1) [OF wf] place_char_wf y in auto)
  then show "runs (if char_width uw y = 0 then combine e y
          else do { let e1 = ?e; let width = min (char_width uw y) (e_cols e1);
                 e2 \<leftarrow> make_room e1 width; place_char e2 y width }) (wf_emu c r b)"
    using combine_wf [OF wf] wfD(3) [OF wf] by (simp add: Let_def)
qed

text \<open>The bulk loop ends: every turn writes at least one character.\<close>

lemma ascii_wrap_wf:
  assumes wf: "wf_emu c r b e" and rest: "rest \<noteq> []"
  shows "runs (ascii_wrap e rest) (\<lambda>(e', rest'). wf_emu c r b e' \<and> s_col (scr e') < c \<and>
     rest' \<noteq> [] \<and> length rest' \<le> length rest \<and> set rest' \<subseteq> set rest \<and> e_pen_id e' = e_pen_id e)"
proof -
  have "runs (autowrap_newline e) (\<lambda>e'. wf_emu c r b e' \<and> s_col (scr e') < c \<and>
      e_pen_id e' = e_pen_id e)"
    using runs_mono [OF autowrap_newline_wf [OF wf]] wfD(12) [OF wf] by simp
  moreover have "drop (length rest - 1) rest \<noteq> []" "1 \<le> length rest"
    using rest by (cases rest rule: rev_cases; simp)+
  ultimately show ?thesis
    using wf rest wfD(3,12) [OF wf]
    by (auto simp: ascii_wrap_def Suc_leI set_col_def [of e] dest: in_set_dropD elim!: runs_mono
        intro!: wf_set_col [unfolded set_col_def])
qed

lemma ascii_chunk_wf:
  assumes wf: "wf_emu c r b e" and rest: "rest \<noteq> []" and p: "e_pen_id e = Some p"
    and printable: "\<forall>b \<in> set rest. printable_ascii b"
  shows "runs (ascii_chunk p e rest) (\<lambda>(e', rest'). wf_emu c r b e' \<and> e_pen_id e' = Some p \<and>
     length rest' < length rest \<and> set rest' \<subseteq> set rest)"
  unfolding ascii_chunk_def runs_bind [of "ascii_wrap _ _"] runs_case_prod
proof (rule runs_mono [OF ascii_wrap_wf [OF wf rest]], unfold split_paired_all prod.case, elim conjE)
  fix e' rest'
  assume e': "wf_emu c r b e'" and room: "s_col (scr e') < c" and r': "rest' \<noteq> []"
    "length rest' \<le> length rest" "set rest' \<subseteq> set rest" and p': "e_pen_id e' = e_pen_id e"
  let ?col = "s_col (scr e')"
  let ?n = "min (length rest') (c - ?col)"
  have "pen_at (e_tables e') p = Some (e_pen e')"
    using e' p p' by (simp add: wf_emu_def wf_core_def)
  then have pn: "p < npens (e_tables e')" by (auto simp: pen_at_def index_def npens_def split: if_splits)
  have "runs (on_cursor_row e' (write_run p ?col ?n rest')) (\<lambda>e1. wf_emu c r b e1 \<and>
      frame e1 = frame e' \<and> e_tables e1 = e_tables e')"
    using room r' printable
    by (intro on_cursor_row_wf [OF e'] write_run_runs [OF _ wfD(10) [OF e'] _ _ pn]) auto
  then have "runs (on_cursor_row e' (write_run p ?col ?n rest')) (\<lambda>e1.
      wf_emu c r b (set_col e1 (?col + ?n)) \<and> e_pen_id (set_col e1 (?col + ?n)) = Some p)"
    by (rule runs_mono) (use room p p' in \<open>auto simp: frame_def set_col_def [of _ "_ + _"]
        intro!: wf_set_col [unfolded set_col_def]\<close>)
  moreover have "length rest' - ?n < length rest"
  proof -
    have "0 < ?n" "0 < length rest'" using room r' by simp_all
    then show ?thesis using r'(2) by linarith
  qed
  ultimately show "runs (do { let col = s_col (scr e'); room \<leftarrow> usub (e_cols e') col;
          let n = min (length rest') room;
          e1 \<leftarrow> on_cursor_row e' (write_run p col n rest');
          Some (set_col e1 (col + n), drop n rest') })
     (\<lambda>(e', rest'). wf_emu c r b e' \<and> e_pen_id e' = Some p \<and>
        length rest' < length rest \<and> set rest' \<subseteq> set rest)"
    using room r' wfD(3) [OF e']
    by (auto simp: Let_def dest: in_set_dropD elim!: runs_mono)
qed

lemma ascii_loop_wf:
  assumes "wf_emu c r b e" "e_pen_id e = Some p" "\<forall>b \<in> set rest. printable_ascii b"
  shows "runs (ascii_loop p e rest) (wf_emu c r b)"
  using assms
proof (induction "length rest" arbitrary: e rest rule: less_induct)
  case less
  show ?case
  proof (cases "rest = []")
    case True
    then show ?thesis using less.prems by (simp add: ascii_loop.simps)
  next
    case False
    have "runs (ascii_chunk p e rest) (\<lambda>(e1, rest1). runs (ascii_loop p e1 rest1) (wf_emu c r b))"
      by (rule runs_mono [OF ascii_chunk_wf [OF less.prems(1) False less.prems(2,3)]])
        (use less in auto)
    then show ?thesis using False
      by (subst ascii_loop.simps) simp
  qed
qed

lemma print_ascii_run_wf:
  assumes wf: "wf_emu c r b e" and printable: "\<forall>b \<in> set run. printable_ascii b"
  shows "runs (print_ascii_run uw e run) (wf_emu c r b)"
proof -
  have "runs (foldM (\<lambda>e b. print_char uw e (ucast b)) e run) (wf_emu c r b)"
    using wf printable by (intro runs_foldM print_char_wf ascii_scalar) auto
  moreover have "runs (ascii_loop (snd (take_pen_id e1)) (fst (take_pen_id e1)) run) (wf_emu c r b)"
    if "wf_emu c r b e1" for e1
    using take_pen_id_wf [OF that] printable by (intro ascii_loop_wf) auto
  ultimately show ?thesis
    using wf printable wf_last_graphic [OF wf ascii_scalar, of "last run"]
    by (simp add: print_ascii_run_def split_beta)
qed

subsection \<open>Cursor movement\<close>

lemma set_cursor_col_wf: "wf_emu c r b e \<Longrightarrow> runs (set_cursor_col e k) (wf_emu c r b)"
  using wfD(1,3) [of c r b e] by (auto simp: set_cursor_col_def)

lemma set_cursor_row_wf: "wf_emu c r b e \<Longrightarrow> runs (set_cursor_row e k) (wf_emu c r b)"
  using wfD(2,4,7) [of c r b e] by (auto simp: set_cursor_row_def split_beta)

lemma home_wf: "wf_emu c r b e \<Longrightarrow> runs (home e) (wf_emu c r b)"
  by (auto simp: home_def intro: runs_mono [OF set_cursor_col_wf] set_cursor_row_wf)

lemma move_vertical_wf:
  assumes wf: "wf_emu c r b e"
  shows "runs (move_up e k) (wf_emu c r b)" "runs (move_down e k) (wf_emu c r b)"
proof -
  have tops: "wf_emu c r b e1 \<Longrightarrow> e_top e1 < r" "wf_emu c r b e1 \<Longrightarrow> e_bottom e1 < r"
    "wf_emu c r b e1 \<Longrightarrow> 0 < r" for e1
    using wfD(6,7,13) [of c r b e1] by auto
  have rows: "wf_emu c r b e1 \<Longrightarrow> e_rows e1 = r" for e1
    using wfD(4) .
  have up: "wf_emu c r b e1 \<Longrightarrow> t < r \<Longrightarrow> wf_emu c r b (set_row e1 (max (s_row (scr e1) - n) t))"
    and down: "wf_emu c r b e1 \<Longrightarrow> t < r \<Longrightarrow> wf_emu c r b (set_row e1 (min (s_row (scr e1) + n) t))"
    and up0: "wf_emu c r b e1 \<Longrightarrow> wf_emu c r b (set_row e1 (s_row (scr e1) - n))"
    for e1 t n
    using wf_posD(3) [of c r b e1] by (auto intro!: wf_set_row)
  show "runs (move_up e k) (wf_emu c r b)" "runs (move_down e k) (wf_emu c r b)"
    using tops(3) [OF wf] wf
    by (auto simp: move_up_def move_down_def Let_def rows tops Suc_leI intro!: up up0 down tops
        runs_mono [OF retreat_wf [OF wf]])
qed

lemma move_horizontal_wf:
  assumes wf: "wf_emu c r b e"
  shows "runs (move_forward e k) (wf_emu c r b)" "runs (move_backward e k) (wf_emu c r b)"
proof -
  have cols: "wf_emu c r b e1 \<Longrightarrow> e_cols e1 = c" "wf_emu c r b e1 \<Longrightarrow> 0 < c" for e1
    using wfD(3,12) [of c r b e1] by auto
  have fwd: "wf_emu c r b e1 \<Longrightarrow> wf_emu c r b (set_col e1 (min (s_col (scr e1) + n) (c - Suc 0)))"
    and bwd: "wf_emu c r b e1 \<Longrightarrow> wf_emu c r b (set_col e1 (s_col (scr e1) - n))" for e1 n
    using wf_posD(4) [of c r b e1] by (auto intro!: wf_set_col)
  show "runs (move_forward e k) (wf_emu c r b)" "runs (move_backward e k) (wf_emu c r b)"
    using cols(2) [OF wf] wf
    by (auto simp: move_forward_def move_backward_def cols Suc_leI intro!: fwd bwd
        runs_mono [OF retreat_wf [OF wf]])
qed

end
