(* ===== verification/Replay_Erase_Facts.thy ===== *)
theory Replay_Erase_Facts
  imports Replay_Edit_Facts
begin

text \<open>
  Tabs, erasing, and the insertion and deletion of characters and lines keep the invariant.
\<close>

subsection \<open>Tabs\<close>

lemma find_stop_runs:
  "\<forall>k \<in> set cs. k < length stops \<Longrightarrow>
     runs (find_stop stops cs) (\<lambda>found. \<forall>k. found = Some k \<longrightarrow> k \<in> set cs \<and> stops ! k)"
  by (induction cs) (auto elim!: runs_mono)

lemma tab_forward_loop_runs:
  assumes "stop < length stops" "col \<le> stop"
  shows "runs (tab_forward_loop stops stop col n) (\<lambda>k. col \<le> k \<and> k \<le> stop)"
  using assms(2)
proof (induction n arbitrary: col)
  case 0
  then show ?case by simp
next
  case (Suc n)
  have "runs (find_stop stops [col + 1..<stop + 1])
      (\<lambda>found. \<forall>k. found = Some k \<longrightarrow> k \<in> set [col + 1..<stop + 1] \<and> stops ! k)"
    using assms(1) by (intro find_stop_runs) auto
  then have "runs (find_stop stops [col + 1..<stop + 1]) (\<lambda>found. runs
      (case found of Some c \<Rightarrow> tab_forward_loop stops stop c n | None \<Rightarrow> Some stop)
      (\<lambda>k. col \<le> k \<and> k \<le> stop))"
  proof (rule runs_mono)
    fix found assume f: "\<forall>k. found = Some k \<longrightarrow> k \<in> set [col + 1..<stop + 1] \<and> stops ! k"
    show "runs (case found of Some c \<Rightarrow> tab_forward_loop stops stop c n | None \<Rightarrow> Some stop)
      (\<lambda>k. col \<le> k \<and> k \<le> stop)"
    proof (cases found)
      case None
      then show ?thesis using Suc.prems by simp
    next
      case (Some k)
      then have k: "col < k" "k \<le> stop" using f by auto
      then show ?thesis using Some runs_mono [OF Suc.IH [OF k(2)]] by simp
    qed
  qed
  then show ?case by simp
qed

lemma tab_backward_loop_runs:
  assumes "col \<le> length stops"
  shows "runs (tab_backward_loop stops col n) (\<lambda>k. k \<le> col)"
  using assms
proof (induction n arbitrary: col)
  case 0
  then show ?case by simp
next
  case (Suc n)
  have "runs (find_stop stops (rev [0..<col]))
      (\<lambda>found. \<forall>k. found = Some k \<longrightarrow> k \<in> set (rev [0..<col]) \<and> stops ! k)"
    using Suc.prems by (intro find_stop_runs) auto
  then have "runs (find_stop stops (rev [0..<col])) (\<lambda>found. runs
      (case found of Some c \<Rightarrow> tab_backward_loop stops c n | None \<Rightarrow> Some 0) (\<lambda>k. k \<le> col))"
  proof (rule runs_mono)
    fix found assume f: "\<forall>k. found = Some k \<longrightarrow> k \<in> set (rev [0..<col]) \<and> stops ! k"
    show "runs (case found of Some c \<Rightarrow> tab_backward_loop stops c n | None \<Rightarrow> Some 0) (\<lambda>k. k \<le> col)"
    proof (cases found)
      case None
      then show ?thesis by simp
    next
      case (Some k)
      then have k: "k < col" using f by auto
      then show ?thesis using Some runs_mono [OF Suc.IH [of k]] Suc.prems by simp
    qed
  qed
  then show ?case by simp
qed

lemma xterm_col_runs:
  assumes wf: "wf_emu c r b e"
  shows "runs (xterm_col e) (\<lambda>k. k < c \<and> k = min (s_col (scr e)) (c - 1))"
  using wfD(1,3) [OF wf] by (auto simp: xterm_col_def)

lemma write_tab_runs:
  assumes r: "wf_row t c r" and t: "wf_tables t" and k: "col < k" "k < c"
  shows "runs (write_tab col k r) (wf_row t c)"
proof -
  have cells: "wf_cell t \<lparr>c_code = TAB, c_pen = 0\<rparr>" "wf_cell t \<lparr>c_code = FRAGMENT OR TAB, c_pen = 0\<rparr>"
    using wf_tablesD(4) [OF t] fragment_not_cluster small_code [of TAB]
    by (simp_all add: wf_cell_def TAB_def [THEN arg_cong [where f = unat]])
  let ?r1 = "fill_to r k"
  have r1: "wf_row t c ?r1" using r t k by simp
  then have len: "length (r_cells ?r1) \<le> c" "\<forall>x \<in> set (r_cells ?r1). wf_cell t x"
    unfolding wf_row_def by blast+
  let ?c1 = "(r_cells ?r1)[col := \<lparr>c_code = TAB, c_pen = 0\<rparr>]"
  have c1: "\<forall>x \<in> set ?c1. wf_cell t x" by (rule cells_update [OF len(2) cells(1)])
  have kl: "k \<le> length (r_cells ?r1)" by simp
  have "wf_row t c (?r1\<lparr>r_cells := ?c1\<rparr>)" using len(1) c1 by (simp add: wf_row_cells_iff)
  then have "runs (fill_range ?c1 (col + 1) k \<lparr>c_code = FRAGMENT OR TAB, c_pen = 0\<rparr>)
      (\<lambda>cs. wf_row t c (?r1\<lparr>r_cells := cs\<rparr>))"
    using fill_cells_runs [OF _ cells(2), of c "?r1\<lparr>r_cells := ?c1\<rparr>" "col + 1" k] k
    by (simp del: runs_fill_range)
  then show ?thesis
    using r1 k kl by (simp add: write_tab_def Let_def del: runs_fill_range)
qed

lemma tab_forward_wf:
  assumes wf: "wf_emu c r b e"
  shows "runs (tab_forward e n) (wf_emu c r b)"
proof -
  have "runs (tab_forward_loop (e_tabstops e) (c - 1) col (nat n)) (\<lambda>k. k \<noteq> col \<longrightarrow>
     runs (on_cursor_row e (write_tab col k)) (\<lambda>e1. wf_emu c r b (set_col e1 k)))"
    if col: "col < c" for col
  proof -
    have "runs (tab_forward_loop (e_tabstops e) (c - 1) col (nat n)) (\<lambda>k. col \<le> k \<and> k \<le> c - 1)"
      using col wfD(8,12) [OF wf] by (intro tab_forward_loop_runs) auto
    then show ?thesis
    proof (rule runs_mono, intro impI)
      fix k assume k: "col \<le> k \<and> k \<le> c - 1" "k \<noteq> col"
      then have "col < k" "k < c" using wfD(12) [OF wf] by auto
      then show "runs (on_cursor_row e (write_tab col k)) (\<lambda>e1. wf_emu c r b (set_col e1 k))"
        by (intro runs_mono [OF on_cursor_row_runs [OF wf write_tab_runs [OF _ wfD(10) [OF wf]]]]) auto
    qed
  qed
  then show ?thesis
    using wf wfD(1,3) [OF wf] unfolding tab_forward_def
    by (auto intro!: runs_mono [OF xterm_col_runs [OF wf]])
qed

lemma tab_backward_wf:
  assumes wf: "wf_emu c r b e"
  shows "runs (tab_backward e n) (wf_emu c r b)"
proof -
  have "runs (tab_backward_loop (e_tabstops e) col (nat n)) (\<lambda>k. wf_emu c r b (set_col e k))"
    if col: "col < c" for col
    by (rule runs_mono [OF tab_backward_loop_runs]) (use col wf wfD(8) [OF wf] in auto)
  then show ?thesis
    using wf unfolding tab_backward_def
    by (auto intro!: runs_mono [OF xterm_col_runs [OF wf]])
qed

subsection \<open>Erasing\<close>

lemma wf_row_fill_opt:
  "wf_row t c r \<Longrightarrow> \<forall>x. fill = Some x \<longrightarrow> wf_cell t x \<Longrightarrow> wf_row t c (fill_opt c fill r)"
  by (auto simp: fill_opt_def split: option.split)

text \<open>A loop over visible rows.\<close>

lemma rows_loop_wf:
  assumes s: "wf_scr t c r b alt s" and idx: "\<forall>i \<in> set ks. i < r"
    and f: "\<And>i x. i \<in> set ks \<Longrightarrow> wf_row t c x \<Longrightarrow> runs (f i x) (wf_row t c)"
  shows "runs (foldM (\<lambda>s i. row_mut s i (f i)) s ks)
    (\<lambda>s'. wf_scr t c r b alt s' \<and> (\<exists>lines. s' = s\<lparr>s_lines := lines\<rparr>))"
proof (rule runs_foldM)
  show "wf_scr t c r b alt s \<and> (\<exists>lines. s = s\<lparr>s_lines := lines\<rparr>)"
    using s by (auto intro: exI [of _ "s_lines s"])
next
  fix s' i assume s': "wf_scr t c r b alt s' \<and> (\<exists>lines. s' = s\<lparr>s_lines := lines\<rparr>)" "i \<in> set ks"
  then have "wf_scr t c r b alt s'" "i < r" using idx by auto
  then have "runs (row_mut s' i (f i)) (\<lambda>s''. wf_scr t c r b alt s'' \<and>
      (\<exists>lines. s'' = s'\<lparr>s_lines := lines\<rparr> \<and> length lines = length (s_lines s')))"
    by (rule row_mut_wf) (rule f [OF s'(2)])
  then show "runs (row_mut s' i (f i))
     (\<lambda>s'. wf_scr t c r b alt s' \<and> (\<exists>lines. s' = s\<lparr>s_lines := lines\<rparr>))"
    using s' by (auto elim!: runs_mono)
qed

lemma clear_to_eol_wf:
  assumes wf: "wf_emu c r b e"
  shows "runs (clear_to_eol e) (wf_emu c r b)"
proof -
  note g = bg_fill_wf [OF wf]
  let ?e = "fst (bg_fill e)"
  have "runs (on_cursor_row ?e (\<lambda>x. Some ((fill_opt (e_cols e) (snd (bg_fill e))
      (cut_row (fill_to x (s_col (scr ?e))) (s_col (scr ?e))))\<lparr>r_wrapped := False\<rparr>))) (wf_emu c r b)"
    using g wfD(3) [OF wf] wf_posD(4) [OF wf] wfD(10) [OF g(1)]
    by (intro on_cursor_row_runs [OF g(1)]) (simp add: wf_row_fill_opt)
  then show ?thesis by (simp add: clear_to_eol_def split_beta Let_def)
qed

lemma clear_to_bol_wf:
  assumes wf: "wf_emu c r b e"
  shows "runs (clear_to_bol e) (wf_emu c r b)"
  unfolding clear_to_bol_def runs_bind [of "retreat e"]
proof (rule runs_mono [OF retreat_wf [OF wf]])
  fix e1 assume e1: "wf_emu c r b e1 \<and> s_col (scr e1) < c"
  then have w1: "wf_emu c r b e1" and col: "s_col (scr e1) < c" by auto
  note g = erase_cell_wf [OF w1]
  let ?e = "fst (erase_cell e1)" and ?x = "snd (erase_cell e1)" and ?k = "s_col (scr e1) + 1"
  have row: "runs (fill_range (r_cells (fill_with (cleanup_fragments y 0 ?k) ?k ?x)) 0 ?k ?x)
      (\<lambda>cells. wf_row (e_tables ?e) c
        ((fill_with (cleanup_fragments y 0 ?k) ?k ?x)\<lparr>r_cells := cells\<rparr>))"
    if "wf_row (e_tables ?e) c y" for y
    using that g(2) col by (intro fill_cells_runs) auto
  have "runs (on_cursor_row ?e (\<lambda>y. do {
        let r1 = fill_with (cleanup_fragments y 0 ?k) ?k ?x;
        cells \<leftarrow> fill_range (r_cells r1) 0 ?k ?x; Some (r1\<lparr>r_cells := cells\<rparr>) })) (wf_emu c r b)"
    using row by (intro on_cursor_row_runs [OF g(1)]) (simp add: Let_def)
  then show "runs (do { let (e2, erase) = erase_cell e1; let col = s_col (scr e2);
          on_cursor_row e2 (\<lambda>r.
            do { let r1 = fill_with (cleanup_fragments r 0 (col + 1)) (col + 1) erase;
                 cells \<leftarrow> fill_range (r_cells r1) 0 (col + 1) erase;
                 Some (r1\<lparr>r_cells := cells\<rparr>) }) }) (wf_emu c r b)"
    using g(4) by (simp add: split_beta Let_def)
qed

lemma clear_line_wf:
  assumes wf: "wf_emu c r b e"
  shows "runs (clear_line e) (wf_emu c r b)"
  unfolding clear_line_def runs_bind [of "retreat e"]
proof (rule runs_mono [OF retreat_wf [OF wf]])
  fix e1 assume e1: "wf_emu c r b e1 \<and> s_col (scr e1) < c"
  then have w1: "wf_emu c r b e1" by simp
  note g = erase_cell_wf [OF w1]
  have "runs (on_cursor_row (fst (erase_cell e1)) (\<lambda>x. Some ((fill_with (erase_row x) (e_cols e)
      (snd (erase_cell e1)))\<lparr>r_wrapped := False\<rparr>))) (wf_emu c r b)"
    using g wfD(3) [OF wf] by (intro on_cursor_row_runs [OF g(1)]) (simp add: erase_row_def)
  then show "runs (do { let (e2, erase) = erase_cell e1;
      on_cursor_row e2 (\<lambda>r. Some ((fill_with (erase_row r) (e_cols e) erase)\<lparr>r_wrapped := False\<rparr>)) })
      (wf_emu c r b)"
    by (simp add: split_beta)
qed

lemma clear_below_wf:
  assumes wf: "wf_emu c r b e"
  shows "runs (clear_below e) (wf_emu c r b)"
  unfolding clear_below_def runs_bind [of "retreat e"]
proof (rule runs_mono [OF retreat_wf [OF wf]])
  fix e1 assume e1: "wf_emu c r b e1 \<and> s_col (scr e1) < c"
  then have w1: "wf_emu c r b e1" by simp
  note g = bg_fill_wf [OF w1]
  let ?e = "fst (bg_fill e1)"
  let ?f = "\<lambda>i x. Some ((fill_opt (e_cols e) (snd (bg_fill e1))
      (if s_row (scr ?e) < i then erase_row x else x))\<lparr>r_wrapped := False\<rparr>)"
  have rows: "runs (foldM (\<lambda>s i. row_mut s i (?f i)) s1 [s_row (scr ?e)..<e_rows e])
      (\<lambda>s2. wf_emu c r b (set_scr ?e s2))"
    if "wf_scr (e_tables ?e) c r b (e_active ?e) s1" for s1
  proof (rule runs_mono [OF rows_loop_wf [OF that]])
    show "\<forall>i \<in> set [s_row (scr ?e)..<e_rows e]. i < r" using wfD(4) [OF wf] by simp
    show "runs (?f i x) (wf_row (e_tables ?e) c)" if "wf_row (e_tables ?e) c x" for i x
      using that g(2) wfD(3) [OF wf] by (simp add: wf_row_fill_opt erase_row_def)
  qed (use wf_set_scr [OF g(1)] in auto)
  have first: "runs (row_mut (scr ?e) (s_row (scr ?e)) (\<lambda>x. Some (cut_row x (s_col (scr ?e)))))
      (\<lambda>s1. wf_scr (e_tables ?e) c r b (e_active ?e) s1)"
    by (rule runs_mono [OF row_mut_wf [OF wf_scrD [OF g(1)] wf_posD(3) [OF g(1)]]]) simp_all
  then have "runs (row_mut (scr ?e) (s_row (scr ?e)) (\<lambda>x. Some (cut_row x (s_col (scr ?e)))))
      (\<lambda>s1. runs (foldM (\<lambda>s i. row_mut s i (?f i)) s1 [s_row (scr ?e)..<e_rows e])
      (\<lambda>s2. wf_emu c r b (set_scr ?e s2)))"
    by (rule runs_mono) (rule rows)
  then show "runs (do { let (e2, fill) = bg_fill e1; let cur = s_row (scr e2);
          let col = s_col (scr e2);
          s1 \<leftarrow> row_mut (scr e2) cur (\<lambda>r. Some (cut_row r col));
          s2 \<leftarrow> foldM (\<lambda>s i. row_mut s i (\<lambda>r.
                  Some ((fill_opt (e_cols e) fill (if cur < i then erase_row r else r))
                          \<lparr>r_wrapped := False\<rparr>))) s1 [cur..<e_rows e];
          Some (set_scr e2 s2) }) (wf_emu c r b)"
    by (simp add: split_beta Let_def)
qed

lemma clear_above_wf:
  assumes wf: "wf_emu c r b e"
  shows "runs (clear_above e) (wf_emu c r b)"
proof -
  note g = erase_cell_wf [OF wf]
  let ?e = "fst (erase_cell e)" and ?x = "snd (erase_cell e)"
  let ?f = "\<lambda>(i::nat) r. Some ((fill_with (erase_row r) (e_cols e) ?x)\<lparr>r_wrapped := False\<rparr>)"
  have "runs (set_hard_wrapped ?e (-1)) (\<lambda>e2. runs
     (foldM (\<lambda>s i. row_mut s i (?f i)) (scr e2) [0..<s_row (scr e2)])
     (\<lambda>s. runs (clear_to_bol (set_scr e2 s)) (wf_emu c r b)))"
  proof (rule runs_mono [OF set_hard_wrapped_wf [OF g(1)]])
    fix e2 assume e2: "wf_emu c r b e2 \<and> frame e2 = frame ?e \<and> e_tables e2 = e_tables ?e \<and>
       length (s_lines (scr e2)) = length (s_lines (scr ?e))"
    then have w2: "wf_emu c r b e2" and t2: "e_tables e2 = e_tables ?e" by auto
    show "runs (foldM (\<lambda>s i. row_mut s i (?f i)) (scr e2) [0..<s_row (scr e2)])
     (\<lambda>s. runs (clear_to_bol (set_scr e2 s)) (wf_emu c r b))"
    proof (rule runs_mono [OF rows_loop_wf [OF wf_scrD [OF w2]]])
      show "\<forall>i \<in> set [0..<s_row (scr e2)]. i < r" using wf_posD(3) [OF w2] by auto
      show "runs (?f i x) (wf_row (e_tables e2) c)" if "wf_row (e_tables e2) c x" for i x
        using that g(2) t2 wfD(3) [OF wf] by (simp add: erase_row_def)
    qed (use wf_set_scr [OF w2] clear_to_bol_wf in auto)
  qed
  then show ?thesis by (simp add: clear_above_def split_beta)
qed

lemma clear_screen_wf:
  assumes wf: "wf_emu c r b e"
  shows "runs (clear_screen e) (wf_emu c r b)"
  unfolding clear_screen_def runs_bind [of "retreat e"]
proof (rule runs_mono [OF retreat_wf [OF wf]])
  fix e1 assume e1: "wf_emu c r b e1 \<and> s_col (scr e1) < c"
  then have w1: "wf_emu c r b e1" by simp
  note g = bg_fill_wf [OF w1]
  let ?e = "fst (bg_fill e1)"
  let ?f = "\<lambda>(i::nat) r. Some (fill_opt (e_cols e) (snd (bg_fill e1))
      ((erase_row r)\<lparr>r_wrapped := False, r_touched := False\<rparr>))"
  have "runs (set_hard_wrapped ?e (-1)) (\<lambda>e3. runs
     (foldM (\<lambda>s i. row_mut s i (?f i)) (scr e3) [0..<s_rows (scr e3)])
     (\<lambda>s. wf_emu c r b (set_scr e3 s)))"
  proof (rule runs_mono [OF set_hard_wrapped_wf [OF g(1)]])
    fix e3 assume e3: "wf_emu c r b e3 \<and> frame e3 = frame ?e \<and> e_tables e3 = e_tables ?e \<and>
       length (s_lines (scr e3)) = length (s_lines (scr ?e))"
    then have w3: "wf_emu c r b e3" and t3: "e_tables e3 = e_tables ?e" by auto
    show "runs (foldM (\<lambda>s i. row_mut s i (?f i)) (scr e3) [0..<s_rows (scr e3)])
     (\<lambda>s. wf_emu c r b (set_scr e3 s))"
    proof (rule runs_mono [OF rows_loop_wf [OF wf_scrD [OF w3]]])
      show "\<forall>i \<in> set [0..<s_rows (scr e3)]. i < r" using wf_posD(1) [OF w3] by simp
      show "runs (?f i x) (wf_row (e_tables e3) c)" if "wf_row (e_tables e3) c x" for i x
        using that g(2) t3 wfD(3) [OF wf] by (simp add: wf_row_fill_opt erase_row_def)
    qed (use wf_set_scr [OF w3] in auto)
  qed
  then show "runs (do { let (e2, fill) = bg_fill e1; e3 \<leftarrow> set_hard_wrapped e2 (-1);
          s \<leftarrow> foldM (\<lambda>s i. row_mut s i (\<lambda>r. Some (fill_opt (e_cols e) fill
                   ((erase_row r)\<lparr>r_wrapped := False, r_touched := False\<rparr>))))
               (scr e3) [0..<s_rows (scr e3)];
          Some (set_scr e3 s) }) (wf_emu c r b)"
    by (simp add: split_beta)
qed

lemma clear_history_wf:
  assumes wf: "wf_emu c r b e"
  shows "runs (clear_history e) (wf_emu c r b)"
proof -
  have n: "wf_scr (e_tables e) c r b False (e_normal e)" using wf by (simp add: wf_emu_def)
  note sc = wf_scr_screen [OF n]
  let ?s = "(e_normal e)\<lparr>s_lines := drop (length (s_lines (e_normal e)) - r) (s_lines (e_normal e)),
    s_history_cells := 0\<rparr>"
  have "wf_scr (e_tables e) c r b False ?s"
    using n wf_screenD(2) [OF sc]
    by (auto simp: wf_scr_def wf_screen_def history_cost_def dest: in_set_dropD)
  then have "wf_emu c r b (e\<lparr>e_normal := ?s\<rparr>)" using wf by (simp add: wf_emu_def wf_core_def)
  then show ?thesis
    by (simp add: clear_history_def screen_clear_history_def runs_history_len [OF sc])
qed

subsection \<open>Editing\<close>

lemma erase_chars_wf:
  assumes wf: "wf_emu c r b e"
  shows "runs (erase_chars e n) (wf_emu c r b)"
  unfolding erase_chars_def runs_bind [of "retreat e"]
proof (rule runs_mono [OF retreat_wf [OF wf]])
  fix e1 assume e1: "wf_emu c r b e1 \<and> s_col (scr e1) < c"
  then have w1: "wf_emu c r b e1" and col: "s_col (scr e1) < c" by auto
  note g = erase_cell_wf [OF w1]
  let ?e = "fst (erase_cell e1)" and ?x = "snd (erase_cell e1)"
  let ?col = "s_col (scr e1)"
  let ?n = "min (nat (max n 1)) (c - ?col)"
  let ?r1 = "\<lambda>y. fill_with (fill_to (cleanup_fragments y ?col (?col + ?n)) ?col) (?col + ?n) ?x"
  have row: "runs (fill_range (r_cells (?r1 y)) ?col (?col + ?n) ?x)
      (\<lambda>cells. wf_row (e_tables ?e) c ((?r1 y)\<lparr>r_cells := cells\<rparr>))"
    if y: "wf_row (e_tables ?e) c y" for y
  proof (rule fill_cells_runs)
    have "?col + ?n \<le> c" using col by simp
    then show "wf_row (e_tables ?e) c (?r1 y)"
      using y g(2) wfD(10) [OF g(1)] col by simp
  qed (use g(2) in simp_all)
  have "runs (on_cursor_row ?e (\<lambda>y. do { let r1 = ?r1 y;
        cells \<leftarrow> fill_range (r_cells r1) ?col (?col + ?n) ?x; Some (r1\<lparr>r_cells := cells\<rparr>) }))
      (wf_emu c r b)"
    using row by (intro on_cursor_row_runs [OF g(1)]) (simp add: Let_def del: runs_fill_range)
  then show "runs (do { let (e2, erase) = erase_cell e1; let col = s_col (scr e2);
          room \<leftarrow> usub (e_cols e) col; let count = min (nat (max n 1)) room;
          on_cursor_row e2 (\<lambda>r.
            do { let r1 = fill_with (fill_to (cleanup_fragments r col (col + count)) col)
                            (col + count) erase;
                 cells \<leftarrow> fill_range (r_cells r1) col (col + count) erase;
                 Some (r1\<lparr>r_cells := cells\<rparr>) }) }) (wf_emu c r b)"
    using g(4) col wfD(3) [OF wf] by (simp add: split_beta Let_def)
qed

lemma shift_chars_wf:
  assumes wf: "wf_emu c r b e"
  shows "runs (insert_chars e n) (wf_emu c r b)" "runs (delete_chars e n) (wf_emu c r b)"
proof -
  have right: "runs (on_cursor_row (fst (erase_cell e1)) (\<lambda>y. shift_right y (s_col (scr e1))
        (c - 1) k (snd (erase_cell e1)))) (wf_emu c r b)"
    and left: "runs (on_cursor_row (fst (erase_cell e1)) (\<lambda>y. shift_left y (s_col (scr e1))
        (c - 1) k (snd (erase_cell e1)))) (wf_emu c r b)"
    if e1: "wf_emu c r b e1" "s_col (scr e1) < c" for e1 k
  proof -
    note g = erase_cell_wf [OF e1(1)]
    have "runs (shift_right y (s_col (scr e1)) (c - 1) k (snd (erase_cell e1)))
        (wf_row (e_tables (fst (erase_cell e1))) c)"
      if "wf_row (e_tables (fst (erase_cell e1))) c y" for y
      by (rule runs_mono [OF shift_right_runs [OF that wfD(10) [OF g(1)] g(2)]]) (use e1(2) in auto)
    then show "runs (on_cursor_row (fst (erase_cell e1)) (\<lambda>y. shift_right y (s_col (scr e1))
        (c - 1) k (snd (erase_cell e1)))) (wf_emu c r b)"
      by (rule on_cursor_row_runs [OF g(1)])
    have "runs (shift_left y (s_col (scr e1)) (c - 1) k (snd (erase_cell e1)))
        (wf_row (e_tables (fst (erase_cell e1))) c)"
      if "wf_row (e_tables (fst (erase_cell e1))) c y" for y
      by (rule shift_left_runs [OF that wfD(10) [OF g(1)] g(2)]) (use e1(2) in auto)
    then show "runs (on_cursor_row (fst (erase_cell e1)) (\<lambda>y. shift_left y (s_col (scr e1))
        (c - 1) k (snd (erase_cell e1)))) (wf_emu c r b)"
      by (rule on_cursor_row_runs [OF g(1)])
  qed
  have ins: "runs (do { last \<leftarrow> usub c 1; let (e2, erase) = erase_cell e1; let col = s_col (scr e2);
          on_cursor_row e2 (\<lambda>r. shift_right r col last k erase) }) (wf_emu c r b)"
    and del: "runs (do { last \<leftarrow> usub c 1; let (e2, erase) = erase_cell e1; let col = s_col (scr e2);
          on_cursor_row e2 (\<lambda>r. shift_left r col last k erase) }) (wf_emu c r b)"
    if "wf_emu c r b e1 \<and> s_col (scr e1) < c" for e1 k
    using that right [of e1] left [of e1] erase_cell_wf(4) [of c r b e1]
    by (auto simp: split_beta Let_def)
  show "runs (insert_chars e n) (wf_emu c r b)" "runs (delete_chars e n) (wf_emu c r b)"
    unfolding insert_chars_def delete_chars_def wfD(3) [OF wf] runs_bind [of "retreat e"]
    using runs_mono [OF retreat_wf [OF wf] ins] runs_mono [OF retreat_wf [OF wf] del] by simp_all
qed

lemma line_ops_wf:
  assumes wf: "wf_emu c r b e"
  shows "runs (insert_lines e n) (wf_emu c r b)" "runs (delete_lines e n) (wf_emu c r b)"
  using wf wfD(7) [OF wf]
  by (auto simp: insert_lines_def delete_lines_def Let_def
      intro!: runs_mono [OF scroll_down_wf] runs_mono [OF scroll_up_wf])

lemma repeat_char_wf:
  assumes wf: "wf_emu c r b e"
  shows "runs (repeat_char uw e ps) (wf_emu c r b)"
  using wf wfD(14) [OF wf]
  by (auto simp: repeat_char_def split: option.split intro!: runs_foldM print_char_wf)

lemma line_feed_wf:
  assumes wf: "wf_emu c r b e"
  shows "runs (line_feed e) (wf_emu c r b)" "runs (next_line e) (wf_emu c r b)"
    "runs (reverse_index e) (wf_emu c r b)"
proof -
  have touch: "runs (on_cursor_row e1 touch) (wf_emu c r b)" if "wf_emu c r b e1" for e1
    by (rule on_cursor_row_runs [OF that]) (simp add: touch_def)
  have down: "runs (cursor_down_with_scrolling e1 fill) (\<lambda>e2. wf_emu c r b e2 \<and> wf_emu c r b (set_col e2 0))"
    and up: "runs (cursor_up_with_scrolling e1 fill) (wf_emu c r b)" if "wf_emu c r b e1" for e1 fill
    using runs_mono [OF cursor_down_wf [OF that]] runs_mono [OF cursor_up_wf [OF that]] by auto
  show "runs (line_feed e) (wf_emu c r b)"
    by (auto simp: line_feed_def intro!: runs_mono [OF retreat_wf [OF wf]] runs_mono [OF touch]
        runs_mono [OF down])
  show "runs (next_line e) (wf_emu c r b)"
    by (auto simp: next_line_def intro!: runs_mono [OF touch [OF wf]] runs_mono [OF down])
  show "runs (reverse_index e) (wf_emu c r b)"
    by (auto simp: reverse_index_def intro!: runs_mono [OF retreat_wf [OF wf]] up)
qed

end
