(* ===== verification/Rust_Str.thy ===== *)
theory Rust_Str
  imports Rust_Std
begin

text \<open>
  Strings of the standard library: a \<open>str\<close> is the list of its scalar values, and its bytes are
  their UTF-8 encodings.  \<open>len\<close>, \<open>truncate\<close> and the searches of the code count bytes.
\<close>

type_synonym str = "u32 list"

definition str_bytes :: "str \<Rightarrow> bytes" where
  "str_bytes s = concat (map encode_utf8 s)"

definition str_len :: "str \<Rightarrow> nat" where
  "str_len s = length (str_bytes s)"

definition char_len :: "u32 \<Rightarrow> nat" where
  "char_len c = length (encode_utf8 c)"

definition str_ok :: "str \<Rightarrow> bool" where
  "str_ok s \<longleftrightarrow> list_all is_scalar s"

definition lit :: "string \<Rightarrow> str" where
  "lit s = map of_char s"

text \<open>\<open>String::truncate\<close>: panics inside a character, does nothing past the end.\<close>

fun str_truncate :: "str \<Rightarrow> nat \<Rightarrow> str option" where
  "str_truncate [] n = Some []"
| "str_truncate (c # s) n =
     (if n = 0 then Some []
      else if n < char_len c then None
      else map_option ((#) c) (str_truncate s (n - char_len c)))"

definition ends_with :: "'a list \<Rightarrow> 'a list \<Rightarrow> bool" where
  "ends_with xs ys \<longleftrightarrow> length ys \<le> length xs \<and> drop (length xs - length ys) xs = ys"

definition starts_with :: "'a list \<Rightarrow> 'a list \<Rightarrow> bool" where
  "starts_with xs ys \<longleftrightarrow> take (length ys) xs = ys"

text \<open>\<open>char::is_control\<close> (the category Cc) and \<open>char::is_whitespace\<close> (White_Space).\<close>

definition is_control :: "u32 \<Rightarrow> bool" where
  "is_control c \<longleftrightarrow> c \<le> 0x1f \<or> (0x7f \<le> c \<and> c \<le> 0x9f)"

definition is_whitespace :: "u32 \<Rightarrow> bool" where
  "is_whitespace c \<longleftrightarrow>
     (0x09 \<le> c \<and> c \<le> 0x0d) \<or> c = 0x20 \<or> c = 0x85 \<or> c = 0xa0 \<or> c = 0x1680 \<or>
     (0x2000 \<le> c \<and> c \<le> 0x200a) \<or> c = 0x2028 \<or> c = 0x2029 \<or> c = 0x202f \<or> c = 0x205f \<or>
     c = 0x3000"

definition str_trim :: "str \<Rightarrow> str" where
  "str_trim s = rev (dropWhile is_whitespace (rev (dropWhile is_whitespace s)))"

text \<open>\<open>str::replace\<close> of one character by another, and of a pair by one character.\<close>

definition replace_char :: "u32 \<Rightarrow> u32 \<Rightarrow> str \<Rightarrow> str" where
  "replace_char a b s = map (\<lambda>c. if c = a then b else c) s"

fun replace_pair :: "u32 \<Rightarrow> u32 \<Rightarrow> u32 \<Rightarrow> str \<Rightarrow> str" where
  "replace_pair a1 a2 b (x # y # s) =
     (if x = a1 \<and> y = a2 then b # replace_pair a1 a2 b s else x # replace_pair a1 a2 b (y # s))"
| "replace_pair a1 a2 b s = s"

subsection \<open>Laws\<close>

lemma str_bytes_simps [simp]:
  "str_bytes [] = []" "str_bytes (c # s) = encode_utf8 c @ str_bytes s"
  "str_bytes (s @ t) = str_bytes s @ str_bytes t"
  by (simp_all add: str_bytes_def)

lemma str_len_simps [simp]:
  "str_len [] = 0" "str_len (c # s) = char_len c + str_len s" "str_len (s @ t) = str_len s + str_len t"
  by (simp_all add: str_len_def char_len_def)

lemma char_len_pos: "1 \<le> char_len c" "char_len c \<le> 4"
  using length_encode_utf8 [of c] by (cases "encode_utf8 c"; simp add: char_len_def)+

lemma str_ok_simps [simp]:
  "str_ok []" "str_ok (c # s) \<longleftrightarrow> is_scalar c \<and> str_ok s" "str_ok (s @ t) \<longleftrightarrow> str_ok s \<and> str_ok t"
  by (simp_all add: str_ok_def)

lemma truncate_append: "str_truncate (s @ t) (str_len s) = Some s"
proof (induction s)
  case Nil
  show ?case by (cases t) simp_all
next
  case (Cons c s)
  then show ?case using char_len_pos [of c] by simp
qed

lemma encode_ascii: "c < 0x80 \<Longrightarrow> encode_utf8 c = [ucast c]"
  by (simp add: encode_utf8_def)

text \<open>
  An encoding is one byte that does not continue a character and then continuation bytes, all of
  them at least \<open>0x80\<close> when there is more than one.
\<close>

lemma encode_lead:
  assumes "is_scalar c"
  obtains b cs where "encode_utf8 c = b # cs" "\<not> is_cont b" "\<forall>x \<in> set cs. is_cont x"
    "cs \<noteq> [] \<longrightarrow> 0x80 \<le> b"
proof -
  let ?n = "unat c"
  have n: "?n < 0x200000" using assms unfolding is_scalar_nat by linarith
  have cont: "is_cont x \<longleftrightarrow> 128 \<le> unat x \<and> unat x \<le> 191" for x
    by (simp add: is_cont_def word_le_nat_alt)
  obtain b cs where e: "encode_utf8 c = b # cs"
    using length_encode_utf8(2) [of c] by (cases "encode_utf8 c") auto
  have m: "map unat (b # cs) = (let n = ?n in
      if n < 0x80 then [n]
      else if n < 0x800 then [0xC0 + n div 64, 0x80 + n mod 64]
      else if n < 0x10000 then [0xE0 + n div 4096, 0x80 + n div 64 mod 64, 0x80 + n mod 64]
      else [0xF0 + n div 262144, 0x80 + n div 4096 mod 64, 0x80 + n div 64 mod 64,
            0x80 + n mod 64])"
    using encode_utf8_nat [OF n] e by simp
  have "(unat b < 128 \<and> cs = []) \<or> (192 \<le> unat b \<and> (\<forall>x \<in> set cs. is_cont x))"
  proof -
    have lt: "k mod 64 < 64" for k :: nat by simp
    have "\<forall>y \<in> set (map unat cs). 128 \<le> y \<and> y \<le> 191"
      using m lt [of ?n] lt [of "?n div 64"] lt [of "?n div 4096"]
      by (auto simp: Let_def split: if_splits)
    moreover have "(unat b < 128 \<and> cs = []) \<or> 192 \<le> unat b"
      using m by (auto simp: Let_def split: if_splits)
    ultimately show ?thesis by (auto simp: cont)
  qed
  then show ?thesis
    using that [OF e] by (auto simp: cont word_le_nat_alt)
qed

text \<open>A byte that does not continue a character starts one.\<close>

lemma boundary_at_lead:
  "str_ok s \<Longrightarrow> str_bytes s = pre @ b # post \<Longrightarrow> \<not> is_cont b \<Longrightarrow>
     \<exists>s1 s2. s = s1 @ s2 \<and> str_bytes s1 = pre"
proof (induction s arbitrary: pre)
  case Nil
  then show ?case by simp
next
  case (Cons c s)
  show ?case
  proof (cases pre)
    case Nil
    then have "c # s = [] @ (c # s) \<and> str_bytes [] = pre" by simp
    then show ?thesis by blast
  next
    case (Cons x pre')
    have "is_scalar c" using Cons.prems(1) by simp
    then obtain l cs where e: "encode_utf8 c = l # cs" "\<forall>x \<in> set cs. is_cont x"
      by (rule encode_lead)
    have bytes: "cs @ str_bytes s = pre' @ b # post" and lx: "l = x"
      using Cons.prems(2) e(1) Cons by simp_all
    have "\<exists>q. pre' = cs @ q \<and> str_bytes s = q @ b # post"
    proof -
      from bytes obtain us where "cs = pre' @ us \<and> us @ str_bytes s = b # post \<or>
          cs @ us = pre' \<and> str_bytes s = us @ b # post"
        by (auto simp: append_eq_append_conv2)
      then show ?thesis
      proof
        assume a: "cs = pre' @ us \<and> us @ str_bytes s = b # post"
        show ?thesis
        proof (cases us)
          case Nil
          then show ?thesis using a by auto
        next
          case (Cons y ys)
          then show ?thesis using a e(2) \<open>\<not> is_cont b\<close> by auto
        qed
      qed auto
    qed
    then obtain q where q: "pre' = cs @ q" "str_bytes s = q @ b # post" by blast
    obtain s1 s2 where "s = s1 @ s2" "str_bytes s1 = q"
      using Cons.IH [OF _ q(2)] Cons.prems by auto
    then have "c # s = (c # s1) @ s2 \<and> str_bytes (c # s1) = pre"
      using q(1) e(1) lx Cons by simp
    then show ?thesis by blast
  qed
qed

end
