(* ===== verification/Rust_Parse.thy ===== *)
theory Rust_Parse
  imports Rust_Str
begin

text \<open>
  Reading text with the standard library: \<open>str::from_utf8\<close>, \<open>str::parse\<close> of the integer
  types, \<open>split_once\<close>, \<open>splitn\<close>, \<open>char::to_digit\<close>, comparison without ASCII case, and
  the saturating fold with which the code reads decimal parameters.
\<close>

subsection \<open>UTF-8\<close>

text \<open>The scalar value of a well-formed sequence.\<close>

fun seq_char :: "bytes \<Rightarrow> u32" where
  "seq_char [a] = ucast a"
| "seq_char [a, b] = push_bit 6 (ucast (a AND 0x1f)) OR ucast (b AND 0x3f)"
| "seq_char [a, b, c] =
     push_bit 6 (push_bit 6 (ucast (a AND 0x0f)) OR ucast (b AND 0x3f)) OR ucast (c AND 0x3f)"
| "seq_char [a, b, c, d] =
     push_bit 6 (push_bit 6 (push_bit 6 (ucast (a AND 0x07)) OR ucast (b AND 0x3f))
       OR ucast (c AND 0x3f)) OR ucast (d AND 0x3f)"
| "seq_char _ = replacement_char"

function from_utf8 :: "bytes \<Rightarrow> str option" where
  "from_utf8 bs =
     (if bs = [] then Some []
      else if snd (lossy_chunk bs)
        then map_option ((#) (seq_char (take (fst (lossy_chunk bs)) bs)))
               (from_utf8 (drop (fst (lossy_chunk bs)) bs))
      else None)"
  by pat_completeness auto
termination
proof (relation "measure length", goal_cases)
  case 1
  then show ?case by simp
next
  case (2 bs)
  then show ?case using lossy_chunk_pos [of bs] by (cases bs) auto
qed

declare from_utf8.simps [simp del]

subsection \<open>Pieces of text\<close>

definition split_once :: "'a \<Rightarrow> 'a list \<Rightarrow> ('a list \<times> 'a list) option" where
  "split_once sep s = map_option (\<lambda>i. (take i s, drop (Suc i) s)) (position (\<lambda>c. c = sep) s)"

text \<open>\<open>splitn\<close>: at most \<open>n\<close> pieces, the last one the unsplit rest.\<close>

fun splitn :: "nat \<Rightarrow> 'a \<Rightarrow> 'a list \<Rightarrow> 'a list list" where
  "splitn 0 sep s = []"
| "splitn (Suc n) sep s =
     (if n = 0 then [s]
      else (case split_once sep s of None \<Rightarrow> [s] | Some (a, b) \<Rightarrow> a # splitn n sep b))"

text \<open>The next element of an iterator, and what is left.\<close>

fun iter_next :: "'a list \<Rightarrow> 'a option \<times> 'a list" where
  "iter_next [] = (None, [])"
| "iter_next (x # xs) = (Some x, xs)"

definition ascii_lower :: "u32 \<Rightarrow> u32" where
  "ascii_lower c = (if 0x41 \<le> c \<and> c \<le> 0x5a then c + 0x20 else c)"

definition eq_ignore_ascii_case :: "str \<Rightarrow> str \<Rightarrow> bool" where
  "eq_ignore_ascii_case a b \<longleftrightarrow> map ascii_lower a = map ascii_lower b"

subsection \<open>Integers\<close>

definition is_ascii_digit :: "u8 \<Rightarrow> bool" where
  "is_ascii_digit b \<longleftrightarrow> 0x30 \<le> b \<and> b \<le> 0x39"

text \<open>The digits of \<open>parse\<close>; the value is not bounded here, the types bound it below.\<close>

fun parse_digits :: "nat \<Rightarrow> str \<Rightarrow> nat option" where
  "parse_digits acc [] = Some acc"
| "parse_digits acc (c # s) =
     (if 0x30 \<le> c \<and> c \<le> 0x39 then parse_digits (acc * 10 + (unat c - 48)) s else None)"

definition parse_magnitude :: "str \<Rightarrow> nat option" where
  "parse_magnitude s = (if s = [] then None else parse_digits 0 s)"

text \<open>
  \<open>parse\<close> of an unsigned type with the given number of values: an optional plus sign, at least
  one digit, and an error on overflow.
\<close>

definition parse_unsigned :: "nat \<Rightarrow> str \<Rightarrow> nat option" where
  "parse_unsigned values s =
     (let digits = (case s of [] \<Rightarrow> s | c # s' \<Rightarrow> if c = 0x2b then s' else s)
      in case parse_magnitude digits of
           Some n \<Rightarrow> if n < values then Some n else None
         | None \<Rightarrow> None)"

definition parse_u8 :: "str \<Rightarrow> u8 option" where
  "parse_u8 s = map_option of_nat (parse_unsigned (2 ^ 8) s)"

definition parse_u32 :: "str \<Rightarrow> nat option" where
  "parse_u32 s = parse_unsigned (2 ^ 32) s"

definition parse_u64 :: "str \<Rightarrow> u64 option" where
  "parse_u64 s = map_option of_nat (parse_unsigned (2 ^ 64) s)"

definition parse_i32 :: "str \<Rightarrow> int option" where
  "parse_i32 s =
     (case s of
        [] \<Rightarrow> None
      | c # s' \<Rightarrow>
          if c = 0x2d then
            (case parse_magnitude s' of
               Some n \<Rightarrow> if n \<le> 2 ^ 31 then Some (- int n) else None | None \<Rightarrow> None)
          else (case parse_magnitude (if c = 0x2b then s' else s) of
               Some n \<Rightarrow> if n < 2 ^ 31 then Some (int n) else None | None \<Rightarrow> None))"

text \<open>\<open>fold(0, |v, d| v.saturating_mul(10).saturating_add(d - b'0'))\<close> with the type's largest value.\<close>

definition sat_decimal :: "nat \<Rightarrow> bytes \<Rightarrow> nat" where
  "sat_decimal largest ds =
     foldl (\<lambda>v d. min largest (min largest (v * 10) + (unat d - 48))) 0 ds"

text \<open>\<open>(b as char).to_digit(16)\<close>.\<close>

definition hex_digit :: "u8 \<Rightarrow> u8 option" where
  "hex_digit b =
     (if 0x30 \<le> b \<and> b \<le> 0x39 then Some (b - 0x30)
      else if 0x61 \<le> b \<and> b \<le> 0x66 then Some (b - 0x61 + 10)
      else if 0x41 \<le> b \<and> b \<le> 0x46 then Some (b - 0x41 + 10)
      else None)"

end
