(* ===== verification/Rust_Utf8.thy ===== *)
theory Rust_Utf8
  imports Rust_Parse
begin

text \<open>
  UTF-8 as arithmetic: the encodings of two, three and four bytes and the ranges of their bytes.
\<close>

lemma mod_in_block: "k * m \<le> n \<Longrightarrow> n < k * m + m \<Longrightarrow> n mod m = n - k * m" for n :: nat
proof -
  assume a: "k * m \<le> n" "n < k * m + m"
  have "n mod m = ((n - k * m) + k * m) mod m" using a(1) by simp
  also have "\<dots> = (n - k * m) mod m" by (rule mod_mult_self1)
  also have "\<dots> = n - k * m" using a by (intro mod_less) linarith
  finally show ?thesis .
qed

lemma code_shift:
  "unat x < 0x4000000 \<Longrightarrow> is_cont b \<Longrightarrow>
     unat (push_bit 6 x OR ucast (b AND 0x3f)) = unat x * 64 + (unat b - 128)" for x :: u32
proof -
  assume x: "unat x < 0x4000000" and b: "is_cont b"
  have "unat b mod 64 = unat b - 128"
    using b mod_in_block [of 2 64 "unat b"] by (simp add: is_cont_def word_le_nat_alt)
  then have "unat (ucast (b AND 0x3f) :: u32) = unat b - 128"
    by (simp add: unat_bits)
  moreover have "unat b - 128 < 64"
    using b by (auto simp: is_cont_def word_le_nat_alt)
  ultimately show ?thesis
    using unat_or_push [of x 6 "ucast (b AND 0x3f)"] x by simp
qed

lemma lead_bits:
  "192 \<le> n \<Longrightarrow> n \<le> 223 \<Longrightarrow> n mod 32 = n - 192"
  "224 \<le> n \<Longrightarrow> n \<le> 239 \<Longrightarrow> n mod 16 = n - 224"
  "240 \<le> n \<Longrightarrow> n \<le> 247 \<Longrightarrow> n mod 8 = n - 240" for n :: nat
  using mod_in_block [of 6 32 n] mod_in_block [of 14 16 n] mod_in_block [of 30 8 n] by simp_all

lemma block_div: "r < m \<Longrightarrow> (q * m + r) div m = q" for q m r :: nat
  by simp

lemma block_mod: "r < m \<Longrightarrow> (q * m + r) mod m = r" for q m r :: nat
  by simp

text \<open>Sequences of two, three and four bytes are the encodings of their scalar values.\<close>

lemma encode2:
  assumes "i < 32" "2 \<le> i" "j < 64" "unat c = i * 64 + j"
  shows "map unat (encode_utf8 c) = [192 + i, 128 + j] \<and> is_scalar c"
  using assms by (simp add: encode_utf8_nat is_scalar_nat Let_def)

lemma encode3:
  assumes "i < 16" "j < 64" "k < 64" "unat c = i * 4096 + j * 64 + k"
    and "i = 0 \<longrightarrow> 32 \<le> j" and "i = 13 \<longrightarrow> j < 32"
  shows "map unat (encode_utf8 c) = [224 + i, 128 + j, 128 + k] \<and> is_scalar c"
proof -
  have n: "unat c = (i * 64 + j) * 64 + k" using assms(4) by simp
  have d: "unat c div 64 = i * 64 + j" "unat c mod 64 = k"
    unfolding n using assms(3) by (simp_all only: block_div block_mod)
  have "unat c div 4096 = unat c div 64 div 64" by (simp add: div_mult2_eq [symmetric])
  then have d2: "unat c div 4096 = i" "unat c div 64 mod 64 = j"
    unfolding d using assms(2) by (simp_all only: block_div block_mod)
  consider "i \<le> 12" | "i = 13" | "14 \<le> i" by linarith
  then have "is_scalar c"
    unfolding is_scalar_nat using assms by cases auto
  moreover have "0x800 \<le> unat c" "unat c < 0x10000"
    using assms by auto
  then have "map unat (encode_utf8 c) = [224 + unat c div 4096, 128 + unat c div 64 mod 64,
      128 + unat c mod 64]"
    by (simp add: encode_utf8_nat Let_def)
  ultimately show ?thesis by (simp only: d(2) d2)
qed

lemma encode4:
  assumes "i < 5" "j < 64" "k < 64" "l < 64" "unat c = i * 262144 + j * 4096 + k * 64 + l"
    and "i = 0 \<longrightarrow> 16 \<le> j" and "i = 4 \<longrightarrow> j < 16"
  shows "map unat (encode_utf8 c) = [240 + i, 128 + j, 128 + k, 128 + l] \<and> is_scalar c"
proof -
  have n: "unat c = ((i * 64 + j) * 64 + k) * 64 + l" using assms(5) by simp
  have d: "unat c div 64 = (i * 64 + j) * 64 + k" "unat c mod 64 = l"
    unfolding n using assms(4) by (simp_all only: block_div block_mod)
  have "unat c div 4096 = unat c div 64 div 64" by (simp add: div_mult2_eq [symmetric])
  then have d2: "unat c div 4096 = i * 64 + j" "unat c div 64 mod 64 = k"
    unfolding d using assms(3) by (simp_all only: block_div block_mod)
  have "unat c div 262144 = unat c div 4096 div 64" by (simp add: div_mult2_eq [symmetric])
  then have d3: "unat c div 262144 = i" "unat c div 4096 mod 64 = j"
    unfolding d2 using assms(2) by (simp_all only: block_div block_mod)
  have "0x10000 \<le> unat c" "unat c < 0x110000" "is_scalar c"
    unfolding is_scalar_nat using assms by auto
  then have "map unat (encode_utf8 c) = [240 + unat c div 262144, 128 + unat c div 4096 mod 64,
      128 + unat c div 64 mod 64, 128 + unat c mod 64]"
    by (simp add: encode_utf8_nat Let_def)
  then show ?thesis using \<open>is_scalar c\<close> by (simp only: d(2) d2(2) d3)
qed

lemma second_ok_cont: "second_ok b0 b1 \<Longrightarrow> is_cont b1"
  by (auto simp: second_ok_def is_cont_def word_le_nat_alt split: if_splits)

lemma is_cont_nat: "is_cont b \<Longrightarrow> 128 \<le> unat b \<and> unat b \<le> 191"
  by (simp add: is_cont_def word_le_nat_alt)

lemma seq_width_nat:
  "seq_width b = 2 \<Longrightarrow> 194 \<le> unat b \<and> unat b \<le> 223"
  "seq_width b = 3 \<Longrightarrow> 224 \<le> unat b \<and> unat b \<le> 239"
  "seq_width b = 4 \<Longrightarrow> 240 \<le> unat b \<and> unat b \<le> 244"
  by (auto simp: seq_width_def word_le_nat_alt split: if_splits)

lemma second_ok_nat:
  assumes "second_ok b0 b1"
  shows "unat b0 = 224 \<longrightarrow> 160 \<le> unat b1" "unat b0 = 237 \<longrightarrow> unat b1 < 160"
    "unat b0 = 240 \<longrightarrow> 144 \<le> unat b1" "unat b0 = 244 \<longrightarrow> unat b1 < 144"
  using assms
  by (auto simp: second_ok_def word_le_nat_alt word_unat_eq_iff split: if_splits)

subsection \<open>Reading UTF-8\<close>

lemma ucast_u32_u8: "ucast (ucast b :: u32) = b" for b :: u8
  using unat_u8_less [of b] by (simp add: word_unat_eq_iff unat_ucast8 unat_ucast32)

lemma ucast_cont: "is_cont b \<Longrightarrow> unat (ucast (b AND 0x3f) :: u32) = unat b - 128"
  using code_shift [of 0 b] by (simp add: is_cont_def)

lemma lead_ucast:
  "192 \<le> unat a \<Longrightarrow> unat a \<le> 223 \<Longrightarrow> unat (ucast (a AND 0x1f) :: u32) = unat a - 192"
  "224 \<le> unat a \<Longrightarrow> unat a \<le> 239 \<Longrightarrow> unat (ucast (a AND 0x0f) :: u32) = unat a - 224"
  "240 \<le> unat a \<Longrightarrow> unat a \<le> 247 \<Longrightarrow> unat (ucast (a AND 0x07) :: u32) = unat a - 240" for a :: u8
  by (simp_all add: unat_bits lead_bits)

lemma lead_small: "unat (ucast (a AND m) :: u32) < 0x4000000" for a m :: u8
  using unat_u8_less [of "a AND m"] by (simp add: unat_ucast32)

lemma code_small:
  "x \<le> 4 \<Longrightarrow> y \<le> 63 \<Longrightarrow> z \<le> 63 \<Longrightarrow>
     x * 64 + y < 0x4000000 \<and> (x * 64 + y) * 64 + z < 0x4000000" for x y z :: nat
  by auto

lemma horner64:
  "(x * 64 + y) * 64 + z = x * 4096 + y * 64 + z"
  "((x * 64 + y) * 64 + z) * 64 + w = x * 262144 + y * 4096 + z * 64 + w" for x y z w :: nat
  by simp_all

lemma chunk_is_char:
  assumes "lossy_chunk bs = (n, True)"
  shows "is_scalar (seq_char (take n bs))" "encode_utf8 (seq_char (take n bs)) = take n bs"
    "n \<le> length bs" "0 < n"
proof -
  have "is_scalar (seq_char (take n bs)) \<and> encode_utf8 (seq_char (take n bs)) = take n bs \<and>
      n \<le> length bs \<and> 0 < n"
  proof (cases bs)
    case Nil
    then show ?thesis using assms by simp
  next
    case (Cons a as)
    consider "seq_width a = 1" | "seq_width a = 2" | "seq_width a = 3" | "seq_width a = 4"
      using assms Cons by (auto simp: seq_width_def split: if_splits list.splits)
    then show ?thesis
    proof cases
      case 1
      then have a: "a < 0x80" by (auto simp: seq_width_def split: if_splits)
      then have "ucast a < (0x80 :: u32)" "is_scalar (ucast a)"
        by (simp_all add: word_less_nat_alt unat_ucast32 is_scalar_nat)
      moreover have "n = 1" using assms Cons 1 by simp
      ultimately show ?thesis using Cons by (simp add: encode_ascii ucast_u32_u8)
    next
      case 2
      then obtain b cs where as: "as = b # cs" "second_ok a b" "n = 2"
        using assms Cons by (auto split: list.splits if_splits)
      note r = seq_width_nat(1) [OF 2] is_cont_nat [OF second_ok_cont [OF as(2)]]
      have "unat (seq_char [a, b]) = (unat a - 192) * 64 + (unat b - 128)"
        using r unfolding seq_char.simps
        by (subst code_shift [OF lead_small second_ok_cont [OF as(2)]], subst lead_ucast(1)) auto
      then have "map unat (encode_utf8 (seq_char [a, b])) = [192 + (unat a - 192), 128 + (unat b - 128)]
          \<and> is_scalar (seq_char [a, b])"
        using r by (intro encode2) auto
      then have "map unat (encode_utf8 (seq_char [a, b])) = map unat [a, b]" "is_scalar (seq_char [a, b])"
        using r by auto
      then show ?thesis using Cons as by (simp only: map_unat_inject) simp
    next
      case 3
      then obtain b c ds where as: "as = b # c # ds" "second_ok a b" "is_cont c" "n = 3"
        using assms Cons by (auto split: list.splits if_splits)
      note r = seq_width_nat(2) [OF 3] is_cont_nat [OF second_ok_cont [OF as(2)]]
        is_cont_nat [OF as(3)] second_ok_nat [OF as(2)]
      have x: "unat (push_bit 6 (ucast (a AND 0x0f)) OR ucast (b AND 0x3f) :: u32) =
          (unat a - 224) * 64 + (unat b - 128)"
        using r unfolding seq_char.simps
        by (subst code_shift [OF lead_small second_ok_cont [OF as(2)]], subst lead_ucast(2)) auto
      have lt: "(unat a - 224) * 64 + (unat b - 128) < 0x4000000" using r by linarith
      have e: "unat (seq_char [a, b, c]) =
          ((unat a - 224) * 64 + (unat b - 128)) * 64 + (unat c - 128)"
        using lt unfolding seq_char.simps by (subst code_shift [OF _ as(3)]) (simp_all only: x)
      have "map unat (encode_utf8 (seq_char [a, b, c])) =
          [224 + (unat a - 224), 128 + (unat b - 128), 128 + (unat c - 128)]
          \<and> is_scalar (seq_char [a, b, c])"
        by (rule encode3 [OF _ _ _ e [unfolded horner64(1)]]) (use r in auto)
      then have "map unat (encode_utf8 (seq_char [a, b, c])) = map unat [a, b, c]" "is_scalar (seq_char [a, b, c])"
        using r by auto
      then show ?thesis using Cons as by (simp only: map_unat_inject) simp
    next
      case 4
      then obtain b c d es where as: "as = b # c # d # es" "second_ok a b" "is_cont c" "is_cont d"
          "n = 4"
        using assms Cons by (auto split: list.splits if_splits)
      note r = seq_width_nat(3) [OF 4] is_cont_nat [OF second_ok_cont [OF as(2)]]
        is_cont_nat [OF as(3)] is_cont_nat [OF as(4)] second_ok_nat [OF as(2)]
      have x: "unat (push_bit 6 (ucast (a AND 0x07)) OR ucast (b AND 0x3f) :: u32) =
          (unat a - 240) * 64 + (unat b - 128)"
        using r unfolding seq_char.simps
        by (subst code_shift [OF lead_small second_ok_cont [OF as(2)]], subst lead_ucast(3)) auto
      have "unat a - 240 \<le> 4" "unat b - 128 \<le> 63" "unat c - 128 \<le> 63" using r by auto
      note small = code_small [OF this]
      have lt: "(unat a - 240) * 64 + (unat b - 128) < 0x4000000"
          "((unat a - 240) * 64 + (unat b - 128)) * 64 + (unat c - 128) < 0x4000000"
        using small by blast+
      have y: "unat (push_bit 6 (push_bit 6 (ucast (a AND 0x07)) OR ucast (b AND 0x3f))
            OR ucast (c AND 0x3f) :: u32) =
          ((unat a - 240) * 64 + (unat b - 128)) * 64 + (unat c - 128)"
        using lt(1) code_shift [OF _ as(3), of "push_bit 6 (ucast (a AND 0x07)) OR ucast (b AND 0x3f)"]
        by (simp only: x)
      have e: "unat (seq_char [a, b, c, d]) =
          (((unat a - 240) * 64 + (unat b - 128)) * 64 + (unat c - 128)) * 64 + (unat d - 128)"
        using lt(2) code_shift [OF _ as(4), of "push_bit 6 (push_bit 6 (ucast (a AND 0x07))
            OR ucast (b AND 0x3f)) OR ucast (c AND 0x3f)"]
        by (simp only: y seq_char.simps)
      have "map unat (encode_utf8 (seq_char [a, b, c, d])) =
          [240 + (unat a - 240), 128 + (unat b - 128), 128 + (unat c - 128), 128 + (unat d - 128)]
          \<and> is_scalar (seq_char [a, b, c, d])"
        by (rule encode4 [OF _ _ _ _ e [unfolded horner64(2)]]) (use r in auto)
      then have "map unat (encode_utf8 (seq_char [a, b, c, d])) = map unat [a, b, c, d]" "is_scalar (seq_char [a, b, c, d])"
        using r by auto
      then show ?thesis using Cons as by (simp only: map_unat_inject) simp
    qed
  qed
  then show "is_scalar (seq_char (take n bs))" "encode_utf8 (seq_char (take n bs)) = take n bs"
    "n \<le> length bs" "0 < n" by blast+
qed

lemma split64: "n div 64 = m div 64 \<Longrightarrow> n mod 64 = m mod 64 \<Longrightarrow> n = m" for n m :: nat
  by (metis div_mod_decomp)

lemma encode_inj:
  assumes "is_scalar c" "is_scalar d" "encode_utf8 c = encode_utf8 d"
  shows "c = d"
proof -
  have n: "unat c < 0x200000" "unat d < 0x200000" using assms unfolding is_scalar_nat by linarith+
  have d4: "k div 4096 = k div 64 div 64" "k div 262144 = k div 64 div 64 div 64" for k :: nat
    by (simp_all add: div_mult2_eq [symmetric])
  have "map unat (encode_utf8 c) = map unat (encode_utf8 d)" using assms(3) by simp
  then have "unat c = unat d"
    unfolding encode_utf8_nat [OF n(1)] encode_utf8_nat [OF n(2)] Let_def d4
    by (simp split: if_splits) (metis split64)+
  then show ?thesis by (simp add: word_unat_eq_iff)
qed

lemma seq_widthI:
  "unat b < 128 \<Longrightarrow> seq_width b = 1"
  "194 \<le> unat b \<Longrightarrow> unat b \<le> 223 \<Longrightarrow> seq_width b = 2"
  "224 \<le> unat b \<Longrightarrow> unat b \<le> 239 \<Longrightarrow> seq_width b = 3"
  "240 \<le> unat b \<Longrightarrow> unat b \<le> 244 \<Longrightarrow> seq_width b = 4"
  by (auto simp: seq_width_def word_le_nat_alt word_less_nat_alt)

lemma is_contI: "128 \<le> unat b \<Longrightarrow> unat b \<le> 191 \<Longrightarrow> is_cont b"
  by (simp add: is_cont_def word_le_nat_alt)

lemma second_okI:
  "is_cont b1 \<Longrightarrow> (unat b0 = 224 \<longrightarrow> 160 \<le> unat b1) \<Longrightarrow> (unat b0 = 237 \<longrightarrow> unat b1 < 160) \<Longrightarrow>
     (unat b0 = 240 \<longrightarrow> 144 \<le> unat b1) \<Longrightarrow> (unat b0 = 244 \<longrightarrow> unat b1 < 144) \<Longrightarrow> second_ok b0 b1"
  by (auto simp: second_ok_def is_cont_def word_le_nat_alt word_unat_eq_iff)

lemma div_bounds: "0 < d \<Longrightarrow> m * d \<le> k \<Longrightarrow> k < n * d \<Longrightarrow> m \<le> k div d \<and> k div d < n" for k :: nat
  by (simp add: less_eq_div_iff_mult_less_eq div_less_iff_less_mult)

lemma div_exact: "k div d = m \<Longrightarrow> 0 < d \<Longrightarrow> m * d \<le> k \<and> k < Suc m * d" for k :: nat
  using div_less_iff_less_mult [of d k "Suc m"] less_eq_div_iff_mult_less_eq [of d m k] by simp

lemma block_ranges:
  "0x80 \<le> k \<Longrightarrow> k < 0x800 \<Longrightarrow> 2 \<le> k div 64 \<and> k div 64 \<le> 31"
  "k < 0x10000 \<Longrightarrow> k div 4096 \<le> 15"
  "0x800 \<le> k \<Longrightarrow> k div 4096 = 0 \<Longrightarrow> 32 \<le> k div 64 mod 64"
  "k < 0xD800 \<or> 0xDFFF < k \<Longrightarrow> k div 4096 = 13 \<Longrightarrow> k div 64 mod 64 < 32"
  "0x10000 \<le> k \<Longrightarrow> k div 262144 = 0 \<Longrightarrow> 16 \<le> k div 4096 mod 64"
  "k < 0x110000 \<Longrightarrow> k div 262144 \<le> 4"
  "k < 0x110000 \<Longrightarrow> k div 262144 = 4 \<Longrightarrow> k div 4096 mod 64 < 16" for k :: nat
proof -
  show "0x80 \<le> k \<Longrightarrow> k < 0x800 \<Longrightarrow> 2 \<le> k div 64 \<and> k div 64 \<le> 31"
    using div_bounds [of 64 2 k 32] by simp
  show "k < 0x10000 \<Longrightarrow> k div 4096 \<le> 15" using div_bounds [of 4096 0 k 16] by simp
  show "k < 0x110000 \<Longrightarrow> k div 262144 \<le> 4" using div_bounds [of 262144 0 k 5] by simp
  show "32 \<le> k div 64 mod 64" if "0x800 \<le> k" "k div 4096 = 0"
    using that div_exact [of k 4096 0] div_bounds [of 64 32 k 64] by simp
  show "16 \<le> k div 4096 mod 64" if "0x10000 \<le> k" "k div 262144 = 0"
    using that div_exact [of k 262144 0] div_bounds [of 4096 16 k 64] by simp
  show "k div 64 mod 64 < 32" if "k < 0xD800 \<or> 0xDFFF < k" "k div 4096 = 13"
    using that div_exact [of k 4096 13] div_bounds [of 64 832 k 864]
      mod_in_block [of 13 64 "k div 64"] by simp
  show "k div 4096 mod 64 < 16" if "k < 0x110000" "k div 262144 = 4"
    using that div_exact [of k 262144 4] div_bounds [of 4096 256 k 272]
      mod_in_block [of 4 64 "k div 4096"] by simp
qed

lemma chunk_of_char:
  assumes "is_scalar c"
  shows "lossy_chunk (encode_utf8 c @ rest) = (char_len c, True)"
proof -
  let ?n = "unat c"
  have s: "?n < 0xD800 \<or> (0xDFFF < ?n \<and> ?n < 0x110000)" using assms by (simp add: is_scalar_nat)
  then have n: "?n < 0x200000" by linarith
  have lt: "k mod 64 < 64" for k :: nat by simp
  note e = encode_utf8_nat [OF n, unfolded Let_def]
  consider "?n < 0x80" | "0x80 \<le> ?n" "?n < 0x800" | "0x800 \<le> ?n" "?n < 0x10000" | "0x10000 \<le> ?n"
    by linarith
  then show ?thesis
  proof cases
    case 1
    then obtain a where "encode_utf8 c = [a]" "unat a = ?n" using e by auto
    then show ?thesis using 1 by (simp add: char_len_def seq_widthI)
  next
    case 2
    then obtain a b where ab: "encode_utf8 c = [a, b]" "unat a = 192 + ?n div 64"
        "unat b = 128 + ?n mod 64" using e by auto
    have "seq_width a = 2" using block_ranges(1) [OF 2] ab(2) by (intro seq_widthI) simp_all
    moreover have "second_ok a b"
      using ab block_ranges(1) [OF 2] lt [of ?n] by (intro second_okI is_contI) simp_all
    ultimately show ?thesis using ab(1) by (simp add: char_len_def)
  next
    case 3
    then obtain a b b2 where ab: "encode_utf8 c = [a, b, b2]" "unat a = 224 + ?n div 4096"
        "unat b = 128 + ?n div 64 mod 64" "unat b2 = 128 + ?n mod 64" using e by auto
    have "seq_width a = 3" using block_ranges(2) [OF 3(2)] ab(2) by (intro seq_widthI) simp_all
    moreover have "second_ok a b"
      using ab block_ranges(2-4) [of ?n] 3 s lt [of "?n div 64"]
      by (intro second_okI is_contI) auto
    moreover have "is_cont b2" using ab lt [of ?n] by (intro is_contI) linarith+
    ultimately show ?thesis using ab(1) by (simp add: char_len_def)
  next
    case 4
    then obtain a b b2 b3 where ab: "encode_utf8 c = [a, b, b2, b3]" "unat a = 240 + ?n div 262144"
        "unat b = 128 + ?n div 4096 mod 64" "unat b2 = 128 + ?n div 64 mod 64"
        "unat b3 = 128 + ?n mod 64" using e by auto
    have "seq_width a = 4" using block_ranges(6) [of ?n] 4 s ab(2) by (intro seq_widthI) auto
    moreover have "second_ok a b"
      using ab block_ranges(5-7) [of ?n] 4 s lt [of "?n div 4096"]
      by (intro second_okI is_contI) auto
    moreover have "is_cont b2" "is_cont b3"
      using ab lt [of ?n] lt [of "?n div 64"] by (intro is_contI; linarith)+
    ultimately show ?thesis using ab(1) by (simp add: char_len_def)
  qed
qed

lemma seq_char_encode: "is_scalar c \<Longrightarrow> seq_char (encode_utf8 c) = c"
  using chunk_of_char [of c "[]"] chunk_is_char [of "encode_utf8 c" "char_len c"]
  by (auto simp: char_len_def intro: encode_inj)

text \<open>\<open>from_utf8\<close> is the inverse of the encoding, and fails on everything else.\<close>

lemma from_utf8_Nil [simp]: "from_utf8 [] = Some []"
  by (subst from_utf8.simps) simp

lemma from_utf8_char [simp]:
  "is_scalar c \<Longrightarrow> from_utf8 (encode_utf8 c @ bs) = map_option ((#) c) (from_utf8 bs)"
  using length_encode_utf8(2) [of c]
  by (subst from_utf8.simps) (simp add: chunk_of_char char_len_def seq_char_encode)

lemma from_utf8_bytes: "str_ok s \<Longrightarrow> from_utf8 (str_bytes s) = Some s"
  by (induction s) auto

lemma from_utf8_Some: "from_utf8 bs = Some s \<Longrightarrow> str_ok s \<and> str_bytes s = bs"
proof (induction bs arbitrary: s rule: from_utf8.induct)
  case (1 bs)
  show ?case
  proof (cases "bs = []")
    case True
    then show ?thesis using 1(2) by simp
  next
    case False
    obtain n ok where ch: "lossy_chunk bs = (n, ok)" by (cases "lossy_chunk bs")
    then obtain t where ok: "ok" and t: "from_utf8 (drop n bs) = Some t" "s = seq_char (take n bs) # t"
      using 1(2) False by (subst (asm) from_utf8.simps) (auto split: if_splits)
    have "str_ok t \<and> str_bytes t = drop n bs" using 1(1) False ch ok t(1) by simp
    then show ?thesis using chunk_is_char [of bs n] ch ok t(2) by simp
  qed
qed

lemma from_utf8_iff: "from_utf8 bs = Some s \<longleftrightarrow> str_ok s \<and> str_bytes s = bs"
  using from_utf8_Some from_utf8_bytes by blast

subsection \<open>ASCII text and decimals\<close>

lemma str_bytes_ascii: "list_all (\<lambda>b. b < 0x80) bs \<Longrightarrow> str_bytes (map ucast bs) = bs"
proof (induction bs)
  case Nil
  then show ?case by simp
next
  case (Cons b bs)
  then have "ucast b < (0x80 :: u32)" by (simp add: word_less_nat_alt unat_ucast32)
  then show ?case using Cons by (simp add: encode_ascii ucast_u32_u8)
qed

lemma str_ok_ascii: "list_all (\<lambda>b. b < 0x80) bs \<Longrightarrow> str_ok (map ucast bs)" for bs :: bytes
  by (induction bs) (auto simp: is_scalar_nat word_less_nat_alt unat_ucast32)

lemma digit_byte: "d < 10 \<Longrightarrow> unat (0x30 + of_nat d :: u8) = 48 + d"
  by (simp add: unat_word_ariths unat_of_nat take_bit_eq_mod)

lemma dec_digits: "list_all (\<lambda>b. 48 \<le> unat b \<and> unat b \<le> 57) (dec n)"
proof (induction n rule: dec.induct)
  case (1 n)
  show ?case
    using 1 digit_byte [of n] digit_byte [of "n mod 10"] by (subst dec.simps) auto
qed

lemma parse_digits_append:
  "parse_digits acc (xs @ ys) = Option.bind (parse_digits acc xs) (\<lambda>v. parse_digits v ys)"
  by (induction acc xs rule: parse_digits.induct) auto

lemma parse_digit: "d < 10 \<Longrightarrow> parse_digits acc [ucast (0x30 + of_nat d :: u8)] = Some (acc * 10 + d)"
  using digit_byte [of d] by (simp add: word_le_nat_alt unat_ucast32)

lemma parse_dec: "parse_digits 0 (map ucast (dec n)) = Some n"
proof (induction n rule: dec.induct)
  case (1 n)
  show ?case
  proof (cases "n < 10")
    case True
    then show ?thesis using parse_digit [of n 0] by (simp add: dec.simps [of n])
  next
    case False
    then have "parse_digits 0 (map ucast (dec (n div 10))) = Some (n div 10)" using 1 by blast
    then show ?thesis
      using False parse_digit [of "n mod 10" "n div 10"]
      by (simp add: dec.simps [of n] parse_digits_append del: parse_digits.simps)
  qed
qed

lemma dec_ascii: "list_all (\<lambda>b. b < 0x80) (dec n)"
  using dec_digits [of n] by (auto simp: list_all_iff word_less_nat_alt)

lemma from_utf8_dec: "from_utf8 (dec n) = Some (map ucast (dec n))"
  using str_bytes_ascii [OF dec_ascii] str_ok_ascii [OF dec_ascii] by (simp add: from_utf8_iff)

lemma dec_not_in: "list_all (\<lambda>b. b \<noteq> 0x3b \<and> b \<noteq> 0x3f \<and> b \<noteq> 0x2b) (dec n)"
  using dec_digits [of n] by (auto simp: list_all_iff word_unat_eq_iff)

lemma dec_not_empty: "dec n \<noteq> []"
  by (subst dec.simps) simp

lemma parse_u32_dec: "n < 2 ^ 32 \<Longrightarrow> parse_u32 (map ucast (dec n)) = Some n"
proof -
  assume n: "n < 2 ^ 32"
  obtain d ds where d: "dec n = d # ds" using dec_not_empty by (cases "dec n") auto
  then have "ucast d \<noteq> (0x2b :: u32)"
    using dec_digits [of n] by (auto simp: word_unat_eq_iff unat_ucast32)
  then show ?thesis
    using n parse_dec [of n] d by (simp add: parse_u32_def parse_unsigned_def parse_magnitude_def Let_def)
qed

lemma split_on_none: "x \<notin> set xs \<Longrightarrow> split_on x xs = [xs]"
  by (induction xs) auto

lemma sat_decimal_le: "sat_decimal largest ds \<le> largest"
  by (cases ds rule: rev_cases) (simp_all add: sat_decimal_def)

lemma mapM_all: "mapM f xs = Some ys \<Longrightarrow> (\<And>x y. f x = Some y \<Longrightarrow> P y) \<Longrightarrow> list_all P ys"
  by (induction xs arbitrary: ys) (auto simp: bind_eq_Some_conv)

end
