(* ===== verification/Vt_Parser_Facts.thy ===== *)
theory Vt_Parser_Facts
  imports Vt_Parser Rust_Utf8
begin

text \<open>
  What the byte-level parser guarantees: the decoder inverts \<open>encode_utf8\<close> exactly, chunk
  boundaries do not matter, and its buffers stay within their bounds.
\<close>

subsection \<open>The UTF-8 decoder is exact\<close>

text \<open>
  The states the decoder can be in: idle, or holding a proper prefix of a well-formed sequence
  with the bits and the range of the next byte that prefix determines.
\<close>

definition utf8_ok :: "utf8 \<Rightarrow> bool" where
  "utf8_ok u \<longleftrightarrow>
     (if uneed u = 0 then u = utf8_default
      else (case upending u of
          [] \<Rightarrow> False
        | b0 # bs \<Rightarrow>
          (case bs of
             [] \<Rightarrow> utf8_lead b0 = Some (uneed u, ulower u, uupper u, ucode u)
           | b1 # cs \<Rightarrow>
             ulower u = 0x80 \<and> uupper u = 0xbf \<and> second_ok b0 b1 \<and>
             (case cs of
                [] \<Rightarrow> (uneed u = 1 \<and> seq_width b0 = 3 \<and>
                        unat (ucode u) = (unat b0 - 224) * 64 + (unat b1 - 128)) \<or>
                      (uneed u = 2 \<and> seq_width b0 = 4 \<and>
                        unat (ucode u) = (unat b0 - 240) * 64 + (unat b1 - 128))
              | b2 # ds \<Rightarrow> ds = [] \<and> uneed u = 1 \<and> seq_width b0 = 4 \<and> is_cont b2 \<and>
                  unat (ucode u) = (unat b0 - 240) * 4096 + (unat b1 - 128) * 64 + (unat b2 - 128)))))"

lemma utf8_ok_default: "utf8_ok utf8_default"
  by (simp add: utf8_ok_def utf8_default_def)

lemma lead_facts:
  assumes "utf8_lead b = Some (need, lower, upper, code)"
  shows "Suc need = seq_width b" "2 \<le> seq_width b" "seq_width b \<le> 4"
    "lower \<le> c \<and> c \<le> upper \<longleftrightarrow> second_ok b c"
  using assms
  by (auto simp: utf8_lead_def seq_width_def second_ok_def is_cont_def word_le_nat_alt
      word_less_nat_alt split: if_splits)

lemma lead_code:
  assumes "utf8_lead b = Some (need, lower, upper, code)"
  shows "unat code = unat b - (if need = 1 then 192 else if need = 2 then 224 else 240)"
  using assms
  by (auto simp: utf8_lead_def word_le_nat_alt unat_bits lead_bits split: if_splits)

text \<open>The four shapes of a decoder state, for case analysis.\<close>

lemma utf8_ok_cases [consumes 1, case_names idle one two3 two4 three]:
  assumes "utf8_ok u"
  obtains "u = utf8_default"
  | b0 where "0 < uneed u" "upending u = [b0]"
      "utf8_lead b0 = Some (uneed u, ulower u, uupper u, ucode u)"
  | b0 b1 where "uneed u = 1" "upending u = [b0, b1]" "ulower u = 0x80" "uupper u = 0xbf"
      "second_ok b0 b1" "seq_width b0 = 3"
      "unat (ucode u) = (unat b0 - 224) * 64 + (unat b1 - 128)"
  | b0 b1 where "uneed u = 2" "upending u = [b0, b1]" "ulower u = 0x80" "uupper u = 0xbf"
      "second_ok b0 b1" "seq_width b0 = 4"
      "unat (ucode u) = (unat b0 - 240) * 64 + (unat b1 - 128)"
  | b0 b1 b2 where "uneed u = 1" "upending u = [b0, b1, b2]" "ulower u = 0x80" "uupper u = 0xbf"
      "second_ok b0 b1" "seq_width b0 = 4" "is_cont b2"
      "unat (ucode u) = (unat b0 - 240) * 4096 + (unat b1 - 128) * 64 + (unat b2 - 128)"
  using assms by (auto simp: utf8_ok_def split: if_splits list.splits)

text \<open>What a continuation byte does in each shape.\<close>

lemma utf8_push_next:
  "0 < uneed u \<Longrightarrow> ulower u \<le> b \<and> b \<le> uupper u \<Longrightarrow> unat (ucode u) < 0x4000000 \<Longrightarrow> is_cont b \<Longrightarrow>
     \<exists>c. unat c = unat (ucode u) * 64 + (unat b - 128) \<and>
       utf8_push u b =
         (if uneed u = 1 then (utf8_default, Char c)
          else (\<lparr>ucode = c, uneed = uneed u - 1, ulower = 0x80, uupper = 0xbf,
                 upending = upending u @ [b]\<rparr>, Pending))"
  using code_shift [of "ucode u" b]
  by (intro exI [of _ "push_bit 6 (ucode u) OR ucast (b AND 0x3f)"])
    (auto simp: utf8_push_def Let_def not_less)

lemma utf8_push_reject:
  "0 < uneed u \<Longrightarrow> \<not> (ulower u \<le> b \<and> b \<le> uupper u) \<Longrightarrow>
     utf8_push u b = (utf8_default, Invalid True)"
  by (auto simp: utf8_push_def)

lemma bytes_eq_2: "map unat xs = [x, y] \<Longrightarrow> unat a = x \<Longrightarrow> unat b = y \<Longrightarrow> xs = [a, b]" for xs :: bytes
  by (simp flip: map_unat_inject)

text \<open>
  One step of the decoder: it keeps its invariant, and a character it delivers is a scalar value
  whose encoding is exactly the bytes consumed for it.
\<close>

lemma utf8_push_exact:
  assumes "utf8_ok u"
  shows "case utf8_push u b of
      (u', Pending) \<Rightarrow> utf8_ok u' \<and> upending u' = upending u @ [b] \<and> 0 < uneed u'
    | (u', Char c) \<Rightarrow> u' = utf8_default \<and> is_scalar c \<and> encode_utf8 c = upending u @ [b]
    | (u', Invalid r) \<Rightarrow> u' = utf8_default \<and> r = (upending u \<noteq> [])"
  using assms
proof (cases rule: utf8_ok_cases)
  case idle
  then have u: "uneed u = 0" "upending u = []" by (simp_all add: utf8_default_def)
  show ?thesis
  proof (cases "b \<le> 0x7f")
    case True
    then have n: "unat b \<le> 127" by (simp add: word_le_nat_alt)
    then have "map unat (encode_utf8 (ucast b)) = map unat [b]"
      by (simp add: encode_utf8_nat unat_bits Let_def)
    then have "encode_utf8 (ucast b) = [b]" by (simp only: map_unat_inject)
    moreover have "is_scalar (ucast b)" using n by (simp add: is_scalar_nat unat_bits)
    moreover have "utf8_push u b = (u, Char (ucast b))" using True u by (simp add: utf8_push_def)
    ultimately show ?thesis using u idle by simp
  next
    case False
    then show ?thesis
      using u idle lead_facts [of b]
      by (cases "utf8_lead b") (auto simp: utf8_push_def utf8_ok_def)
  qed
next
  case (one b0)
  note lead = lead_facts [OF one(3)] lead_code [OF one(3)]
  show ?thesis
  proof (cases "second_ok b0 b")
    case False
    then show ?thesis using one lead(4) [of b] by (simp add: utf8_push_reject)
  next
    case True
    note bounds = is_cont_nat [OF second_ok_cont [OF True]] second_ok_nat [OF True]
    have "unat (ucode u) < 0x4000000" using lead(5) unat_u8_less [of b0] by simp
    then obtain c where c: "unat c = unat (ucode u) * 64 + (unat b - 128)"
      and push: "utf8_push u b =
         (if uneed u = 1 then (utf8_default, Char c)
          else (\<lparr>ucode = c, uneed = uneed u - 1, ulower = 0x80, uupper = 0xbf,
                 upending = upending u @ [b]\<rparr>, Pending))"
      using utf8_push_next [OF one(1) _ _ second_ok_cont [OF True]] lead(4) [of b] True by blast
    consider "uneed u = 1" "seq_width b0 = 2" | "uneed u = 2" "seq_width b0 = 3"
      | "uneed u = 3" "seq_width b0 = 4" using one(1) lead(1-3) by linarith
    then show ?thesis
    proof cases
      case 1
      have "map unat (encode_utf8 c) = [192 + (unat b0 - 192), 128 + (unat b - 128)] \<and> is_scalar c"
        using seq_width_nat(1) [OF 1(2)] bounds c lead(5) 1 by (intro encode2) auto
      then show ?thesis
        using 1 one push bounds seq_width_nat(1) [OF 1(2)] by (simp add: bytes_eq_2)
    next
      case 2
      then show ?thesis using one push True lead(5) c by (simp add: utf8_ok_def)
    next
      case 3
      then show ?thesis using one push True lead(5) c by (simp add: utf8_ok_def)
    qed
  qed
next
  case (two3 b0 b1)
  note bounds = is_cont_nat [OF second_ok_cont [OF two3(5)]] second_ok_nat [OF two3(5)]
    seq_width_nat(2) [OF two3(6)]
  show ?thesis
  proof (cases "is_cont b")
    case False
    then show ?thesis using two3 by (simp add: utf8_push_reject is_cont_def)
  next
    case True
    have "unat b0 - 224 \<le> 15" "unat b1 - 128 \<le> 63" using bounds by linarith+
    then have "unat (ucode u) < 0x4000000" using two3(7) by linarith
    then obtain c where c: "unat c = unat (ucode u) * 64 + (unat b - 128)"
      and push: "utf8_push u b = (utf8_default, Char c)"
      using utf8_push_next [of u b] two3(1,3,4) True by (auto simp: is_cont_def)
    have "map unat (encode_utf8 c) =
        [224 + (unat b0 - 224), 128 + (unat b1 - 128), 128 + (unat b - 128)] \<and> is_scalar c"
    proof (rule encode3)
      show "unat c = (unat b0 - 224) * 4096 + (unat b1 - 128) * 64 + (unat b - 128)"
        using c two3(7) by linarith
    qed (use bounds is_cont_nat [OF True] in auto)
    then show ?thesis
      using bounds is_cont_nat [OF True] two3(2) push by (simp flip: map_unat_inject)
  qed
next
  case (two4 b0 b1)
  show ?thesis
  proof (cases "is_cont b")
    case False
    then show ?thesis using two4 by (simp add: utf8_push_reject is_cont_def)
  next
    case True
    have "unat b0 - 240 \<le> 4" "unat b1 - 128 \<le> 63"
      using is_cont_nat [OF second_ok_cont [OF two4(5)]] seq_width_nat(3) [OF two4(6)] by linarith+
    then have "unat (ucode u) < 0x4000000" using two4(7) by linarith
    then obtain c where c: "unat c = unat (ucode u) * 64 + (unat b - 128)"
      and push: "utf8_push u b = (\<lparr>ucode = c, uneed = 1, ulower = 0x80, uupper = 0xbf,
                 upending = upending u @ [b]\<rparr>, Pending)"
      using utf8_push_next [of u b] two4(1,3,4) True by (auto simp: is_cont_def)
    then show ?thesis using two4 True by (simp add: utf8_ok_def)
  qed
next
  case (three b0 b1 b2)
  note bounds = is_cont_nat [OF second_ok_cont [OF three(5)]] second_ok_nat [OF three(5)]
    seq_width_nat(3) [OF three(6)] is_cont_nat [OF three(7)]
  show ?thesis
  proof (cases "is_cont b")
    case False
    then show ?thesis using three by (simp add: utf8_push_reject is_cont_def)
  next
    case True
    have "unat b0 - 240 \<le> 4" "unat b1 - 128 \<le> 63" "unat b2 - 128 \<le> 63"
      using bounds by linarith+
    then have "unat (ucode u) < 0x4000000" using three(8) by linarith
    then obtain c where c: "unat c = unat (ucode u) * 64 + (unat b - 128)"
      and push: "utf8_push u b = (utf8_default, Char c)"
      using utf8_push_next [of u b] three(1,3,4) True by (auto simp: is_cont_def)
    have "map unat (encode_utf8 c) =
        [240 + (unat b0 - 240), 128 + (unat b1 - 128), 128 + (unat b2 - 128), 128 + (unat b - 128)]
        \<and> is_scalar c"
    proof (rule encode4)
      show "unat c = (unat b0 - 240) * 262144 + (unat b1 - 128) * 4096 + (unat b2 - 128) * 64
          + (unat b - 128)"
        using c three(8) by linarith
    qed (use bounds is_cont_nat [OF True] in auto)
    then show ?thesis
      using bounds is_cont_nat [OF True] three(2) push by (simp flip: map_unat_inject)
  qed
qed

subsection \<open>Chunk boundaries\<close>

text \<open>
  The run of printable ASCII that goes out at once depends on where a chunk ends; one event per
  byte is the common form of both.
\<close>

fun atomize :: "event \<Rightarrow> event list" where
  "atomize (EvPrintAscii run) = map (\<lambda>b. EvPrintAscii [b]) run"
| "atomize e = [e]"

definition atoms :: "event list \<Rightarrow> event list" where
  "atoms es = concat (map atomize es)"

lemma atoms_simps [simp]:
  "atoms [] = []" "atoms (e # es) = atomize e @ atoms es" "atoms (es @ fs) = atoms es @ atoms fs"
  by (simp_all add: atoms_def)

text \<open>Two runs of the parser that end in the same state and make the same calls.\<close>

definition same_run :: "parser \<times> event list \<Rightarrow> parser \<times> event list \<Rightarrow> bool" where
  "same_run r s \<longleftrightarrow> fst r = fst s \<and> atoms (snd r) = atoms (snd s)"

text \<open>Running on from the result of an earlier run.\<close>

definition continue :: "parser \<times> event list \<Rightarrow> bytes \<Rightarrow> parser \<times> event list" where
  "continue r bs = (fst (advance (fst r) bs), snd r @ snd (advance (fst r) bs))"

lemma advance_run_split:
  assumes "in_run p b"
  shows "same_run (advance p (b # bs)) (continue (advance p [b]) bs)"
proof (cases "bs = [] \<or> \<not> printable_ascii (hd bs)")
  case True
  then have "dropWhile printable_ascii bs = bs" "takeWhile printable_ascii bs = []"
    by (cases bs; simp)+
  then show ?thesis using assms by (simp add: same_run_def continue_def advance_run)
next
  case False
  then obtain c cs where bs: "bs = c # cs" "printable_ascii c" by (cases bs) auto
  then have "in_run p c" using assms by (simp add: in_run_def)
  then show ?thesis using assms bs by (simp add: same_run_def continue_def advance_run)
qed

lemma advance_idle_split:
  assumes "uneed (p_utf8 p) = 0"
  shows "same_run (advance p (b # bs)) (continue (advance p [b]) bs)"
proof (cases "in_run p b")
  case True
  then show ?thesis by (rule advance_run_split)
next
  case False
  obtain u st where push: "utf8_push (p_utf8 p) b = (u, st)" by fastforce
  have "st \<noteq> Invalid True"
    using assms push by (auto simp: utf8_push_def split: option.splits if_splits)
  then show ?thesis using False push
    by (cases st)
      (auto simp: same_run_def continue_def Let_def advance_pending advance_char advance_invalid)
qed

lemma advance_split:
  "same_run (advance p (b # bs)) (continue (advance p [b]) bs)"
proof (cases "uneed (p_utf8 p) = 0")
  case True
  then show ?thesis by (rule advance_idle_split)
next
  case False
  then have run: "\<not> in_run p b" by (simp add: in_run_def utf8_idle_def)
  obtain u st where push: "utf8_push (p_utf8 p) b = (u, st)" by fastforce
  show ?thesis
  proof (cases "st = Invalid True")
    case True
    let ?r = "code_point (p\<lparr>p_utf8 := u\<rparr>) 0xfffd"
    have "uneed u = 0"
      using push True False by (auto simp: utf8_push_def utf8_default_def Let_def split: if_splits)
    then have "same_run (advance (fst ?r) (b # bs)) (continue (advance (fst ?r) [b]) bs)"
      by (intro advance_idle_split) (simp add: code_point_utf8)
    then show ?thesis
      using advance_retry [OF run push [unfolded True]]
      by (simp add: same_run_def continue_def Let_def)
  next
    case False
    then show ?thesis using run push
      by (cases st)
        (auto simp: same_run_def continue_def Let_def advance_pending advance_char advance_invalid)
  qed
qed

lemma advance_append:
  "same_run (advance p (xs @ ys)) (continue (advance p xs) ys)"
proof (induction xs arbitrary: p)
  case Nil
  then show ?case by (simp add: same_run_def continue_def)
next
  case (Cons b xs)
  have "same_run (advance p (b # xs @ ys)) (continue (advance p [b]) (xs @ ys))"
    and "same_run (advance p (b # xs)) (continue (advance p [b]) xs)"
    by (rule advance_split)+
  then show ?case
    using Cons.IH [of "fst (advance p [b])"] by (simp add: same_run_def continue_def)
qed

subsection \<open>Bounds\<close>

definition params_ok :: "params \<Rightarrow> bool" where
  "params_ok p \<longleftrightarrow> length (par_values p) \<le> MAX_PARAMS \<and>
     (\<forall>v \<in> set (par_values p). -1 \<le> v \<and> v \<le> MAX_PARAM_VALUE) \<and>
     -1 \<le> par_current p \<and> par_current p \<le> MAX_PARAM_VALUE"

definition parser_ok :: "parser \<Rightarrow> bool" where
  "parser_ok p \<longleftrightarrow> utf8_ok (p_utf8 p) \<and> params_ok (p_params p) \<and> length (p_osc p) \<le> MAX_OSC_BYTES"

text \<open>What a callback may rely on.\<close>

fun event_ok :: "event \<Rightarrow> bool" where
  "event_ok (EvPrintAscii run) = (run \<noteq> [] \<and> (\<forall>b \<in> set run. printable_ascii b))"
| "event_ok (EvPrint c) = is_scalar c"
| "event_ok (EvExecute c) = (c \<le> 0x1f \<or> (0x80 \<le> c \<and> c \<le> 0x9f))"
| "event_ok (EvCsi ps pre im fin) = (params_ok ps \<and> 0x40 \<le> fin \<and> fin \<le> 0x7e)"
| "event_ok (EvEsc im fin) = (0x30 \<le> fin \<and> fin \<le> 0x7e)"
| "event_ok (EvOsc payload) = (length payload \<le> MAX_OSC_BYTES)"

text \<open>A step of the state machine keeps the buffers in bounds and makes proper calls.\<close>

definition step_ok :: "parser \<times> event list \<Rightarrow> bool" where
  "step_ok r \<longleftrightarrow> parser_ok (fst r) \<and> list_all event_ok (snd r)"

lemma params_ok_clear: "params_ok (params_clear p)"
  by (simp add: params_ok_def params_clear_def MAX_PARAM_VALUE_def)

lemma params_ok_push: "params_ok p \<Longrightarrow> 0 \<le> d \<Longrightarrow> params_ok (push_digit p d)"
  by (auto simp: params_ok_def push_digit_def Let_def MAX_PARAM_VALUE_def)

lemma params_ok_finish: "params_ok p \<Longrightarrow> params_ok (finish_param p colon)"
  by (auto simp: params_ok_def finish_param_def Let_def MAX_PARAM_VALUE_def)

lemma params_ok_seal: "params_ok p \<Longrightarrow> params_ok (params_seal p)"
  by (simp add: params_seal_def params_ok_finish)

lemma parser_ok_upd [simp]:
  "parser_ok p \<Longrightarrow> parser_ok (p\<lparr>p_state := st\<rparr>)"
  "parser_ok p \<Longrightarrow> params_ok ps \<Longrightarrow> parser_ok (p\<lparr>p_params := ps\<rparr>)"
  "parser_ok p \<Longrightarrow> utf8_ok u \<Longrightarrow> parser_ok (p\<lparr>p_utf8 := u\<rparr>)"
  "parser_ok p \<Longrightarrow> parser_ok (p\<lparr>p_prefix := b\<rparr>)"
  "parser_ok p \<Longrightarrow> parser_ok (p\<lparr>p_inter := b\<rparr>)"
  "parser_ok p \<Longrightarrow> parser_ok (p\<lparr>p_overflow := o'\<rparr>)"
  "parser_ok p \<Longrightarrow> length os \<le> MAX_OSC_BYTES \<Longrightarrow> parser_ok (p\<lparr>p_osc := os\<rparr>)"
  by (simp_all add: parser_ok_def)

lemma parser_ok_clear [simp]: "parser_ok p \<Longrightarrow> parser_ok (clear_sequence p)"
  by (simp add: clear_sequence_def params_ok_clear)

lemma parser_ok_collect [simp]: "parser_ok p \<Longrightarrow> parser_ok (collect_intermediate p b)"
  by (simp add: collect_intermediate_def)

lemma parser_ok_start [simp]: "parser_ok p \<Longrightarrow> parser_ok (start_string p osc)"
  by (simp add: start_string_def)

lemma step_ok_finish: "parser_ok p \<Longrightarrow> step_ok (finish_string p osc)"
  by (auto simp: finish_string_def step_ok_def) (simp add: parser_ok_def)

lemma parser_okD: "parser_ok p \<Longrightarrow> params_ok (p_params p)"
  by (simp add: parser_ok_def)

lemma ucast_range:
  "c \<le> 0x7e \<Longrightarrow> (k :: u32) \<le> c \<Longrightarrow> k \<le> 0x7e \<Longrightarrow> (ucast k :: u8) \<le> ucast c \<and> (ucast c :: u8) \<le> 0x7e" for c :: u32
  by (simp add: word_le_nat_alt unat_bits)

lemma is_scalar_replacement: "is_scalar replacement_char"
  by (simp add: is_scalar_def replacement_char_def)

lemma anywhere_ok: "parser_ok p \<Longrightarrow> anywhere p code = Some r \<Longrightarrow> step_ok r"
  by (auto simp: anywhere_def step_ok_def is_scalar_replacement Let_def
      step_ok_finish [unfolded step_ok_def] split: if_splits pstate.splits)

lemma states_ok:
  assumes "parser_ok p"
  shows "code < 0x80 \<or> 0x9f < code \<Longrightarrow> step_ok (ground_state p code)"
    "step_ok (escape_state p code)"
    "step_ok (escape_intermediate_state p code)"
    "step_ok (csi_param_state p code)"
    "step_ok (csi_intermediate_state p code)"
    "step_ok (csi_ignore_state p code)"
    "step_ok (osc_state p code)"
proof -
  show "code < 0x80 \<or> 0x9f < code \<Longrightarrow> step_ok (ground_state p code)"
    using assms by (auto simp: ground_state_def step_ok_def char_from_u32_def is_scalar_replacement)
  show "step_ok (escape_state p code)" "step_ok (escape_intermediate_state p code)"
    "step_ok (csi_ignore_state p code)"
    using assms ucast_range [of code "0x30"]
    by (auto simp: state_defs step_ok_def not_le word_le_nat_alt word_less_nat_alt)
  show "step_ok (csi_param_state p code)" "step_ok (csi_intermediate_state p code)"
    using assms ucast_range [of code "0x40"]
    by (auto simp: state_defs step_ok_def Let_def not_le word_le_nat_alt word_less_nat_alt
        word_unat_eq_iff [where 'a = 32] params_ok_push params_ok_finish params_ok_seal parser_okD)
  show "step_ok (osc_state p code)"
    using assms step_ok_finish [OF assms] length_encode_utf8(1) [of code]
    by (auto simp: osc_state_def step_ok_def char_from_u32_def)
qed


lemma code_point_ok:
  assumes "parser_ok p"
  shows "step_ok (code_point p code)"
proof (cases "anywhere p code")
  case None
  then have "code < 0x80 \<or> 0x9f < code"
    by (auto simp: anywhere_def not_le not_less Let_def split: if_splits)
  then show ?thesis
    using None assms states_ok step_ok_finish
    by (auto simp: code_point_cases step_ok_def split: pstate.split)
next
  case (Some r)
  then show ?thesis using anywhere_ok [OF assms Some] by (simp add: code_point_cases)
qed

lemma utf8_push_ok: "utf8_ok u \<Longrightarrow> utf8_ok (fst (utf8_push u b))"
  using utf8_push_exact [of u b] utf8_ok_default by (auto split: prod.splits utf8_step.splits)

lemma advance_ok:
  assumes "parser_ok p"
  shows "step_ok (advance p bs)"
  using assms
proof (induction p bs rule: advance.induct)
  case (1 p)
  then show ?case by (simp add: step_ok_def)
next
  case (2 p b bs)
  obtain u st where push: "utf8_push (p_utf8 p) b = (u, st)" by fastforce
  have u: "utf8_ok u" using utf8_push_ok [of "p_utf8 p" b] 2(5) push by (simp add: parser_ok_def)
  let ?cp = "code_point (p\<lparr>p_utf8 := u\<rparr>)"
  have cp: "step_ok (?cp c)" for c using u 2(5) by (intro code_point_ok) simp
  show ?case
  proof (cases "in_run p b")
    case True
    then have "step_ok (advance p (dropWhile printable_ascii bs))" using 2(1,5) by simp
    moreover have "\<forall>c \<in> set (takeWhile printable_ascii bs). printable_ascii c"
      by (auto dest: set_takeWhileD)
    ultimately show ?thesis using True by (simp add: advance_run step_ok_def in_run_def)
  next
    case False
    show ?thesis
    proof (cases st)
      case Pending
      then show ?thesis
        using 2(2) [OF False push [symmetric] Pending] push False u 2(5) by (simp add: advance_pending)
    next
      case (Char c)
      then have "step_ok (advance (fst (?cp c)) bs)"
        using 2(3) [OF False push [symmetric] Char, of "?cp c"] cp [of c]
        by (cases "?cp c") (simp add: step_ok_def)
      then show ?thesis
        using push False cp [of c] Char by (simp add: advance_char step_ok_def Let_def)
    next
      case (Invalid retry)
      then have "step_ok (advance (fst (?cp 0xfffd)) (if retry then b # bs else bs))"
        using 2(4) [OF False push [symmetric] Invalid, of "?cp 0xfffd"] cp [of "0xfffd"]
        by (cases "?cp 0xfffd") (simp add: step_ok_def)
      then show ?thesis
        using push False cp [of "0xfffd"] Invalid
        by (cases retry) (simp_all add: advance_invalid advance_retry step_ok_def Let_def)
    qed
  qed
qed

lemma parser_ok_new: "parser_ok parser_new"
  by (simp add: parser_ok_def parser_new_def utf8_ok_default params_ok_def params_new_def
      MAX_PARAM_VALUE_def)

end
