(* ===== verification/Replay_Perform_Facts.thy ===== *)
theory Replay_Perform_Facts
  imports Replay_Erase_Facts Vt_Parser_Facts
begin

text \<open>
  Compaction, modes, resets, hyperlinks, resizing and the dispatch of the parser's callbacks keep
  the invariant: the emulator handles every callback the parser can make without panicking.
\<close>

subsection \<open>Compaction\<close>

lemma same_rows_wf:
  assumes "list_all2 (same_row t u) g h" "\<forall>x \<in> set g. wf_row t c x"
  shows "length h = length g" "\<forall>x \<in> set h. wf_row u c x" "map row_cost h = map row_cost g"
proof -
  show "length h = length g" using assms(1) by (simp add: list_all2_lengthD)
  have one: "wf_row u c y \<and> row_cost y = row_cost x" if "same_row t u x y" "wf_row t c x" for x y
  proof -
    have l: "list_all2 (same_cell t u) (r_cells x) (r_cells y)" using that(1) by (simp add: same_row_def)
    then have "length (r_cells y) = length (r_cells x)" by (simp add: list_all2_lengthD)
    moreover have "\<forall>d \<in> set (r_cells y). wf_cell u d"
      using l by (auto simp: list_all2_conv_all_nth in_set_conv_nth same_cell_def)
    ultimately show ?thesis using that(2) by (simp add: wf_row_def row_cost_def)
  qed
  have at: "\<forall>i < length h. wf_row u c (h ! i) \<and> row_cost (h ! i) = row_cost (g ! i)"
  proof (intro allI impI)
    fix i assume i: "i < length h"
    then have "same_row t u (g ! i) (h ! i)" "g ! i \<in> set g"
      using assms(1) by (simp_all add: list_all2_conv_all_nth)
    then show "wf_row u c (h ! i) \<and> row_cost (h ! i) = row_cost (g ! i)"
      using one assms(2) by blast
  qed
  then show "\<forall>x \<in> set h. wf_row u c x" by (auto simp: in_set_conv_nth)
  show "map row_cost h = map row_cost g"
    using at \<open>length h = length g\<close> by (intro nth_equalityI) auto
qed

lemma same_pens_three:
  "list_all2 (same_pen t u) [p, q, x] ys \<Longrightarrow>
     pen_link (ys ! 0) < nlinks u \<and> pen_link (ys ! 1) < nlinks u \<and> pen_link (ys ! 2) < nlinks u"
  by (auto simp: list_all2_Cons1 same_pen_def)

lemma wf_scr_compacted:
  assumes s: "wf_scr t c r b alt s" and h: "list_all2 (same_row t u) (s_lines s) h"
    and p: "pen_link p < nlinks u"
  shows "wf_scr u c r b alt (s\<lparr>s_lines := h, s_saved := (s_saved s)\<lparr>sv_pen := p\<rparr>\<rparr>)"
proof -
  have rows: "\<forall>x \<in> set (s_lines s). wf_row t c x" using s by (simp add: wf_scr_def wf_screen_def)
  note f = same_rows_wf [OF h rows]
  show ?thesis
    using s f p by (auto simp: wf_scr_def wf_screen_def history_cost_def take_map [symmetric])
qed

lemma wf_lines_cells:
  "wf_screen t c r s \<Longrightarrow> x \<in> set (s_lines s) \<Longrightarrow> y \<in> set (r_cells x) \<Longrightarrow> wf_cell t y"
  by (auto simp: wf_screen_def wf_row_def)

lemma maybe_compact_runs:
  assumes wf: "wf_emu c r b e"
  shows "runs (maybe_compact e) (\<lambda>e'. wf_emu c r b e' \<and> \<not> needs_compaction (e_tables e'))"
proof (cases "needs_compaction (e_tables e)")
  case False
  then show ?thesis using wf by (simp add: maybe_compact_def)
next
  case True
  let ?t = "e_tables e"
  have n: "wf_scr ?t c r b False (e_normal e)" and a: "wf_scr ?t c r b True (e_alternate e)"
    and core: "wf_core c r b e"
    using wf by (simp_all add: wf_emu_def)
  note ns = wf_scr_screen [OF n] and as = wf_scr_screen [OF a]
  have cells: "\<forall>x \<in> set (s_lines (e_normal e) @ s_lines (e_alternate e)). \<forall>y \<in> set (r_cells x). wf_cell ?t y"
    using wf_lines_cells [OF ns] wf_lines_cells [OF as] by auto
  have roots: "\<forall>p \<in> set [e_pen e, sv_pen (s_saved (e_normal e)), sv_pen (s_saved (e_alternate e))].
      pen_link p < nlinks ?t"
    using wfD(11) [OF wf] wf_screenD(7) [OF ns] wf_screenD(7) [OF as] by simp
  have "runs (compact ?t (s_lines (e_normal e)) (s_lines (e_alternate e))
      [e_pen e, sv_pen (s_saved (e_normal e)), sv_pen (s_saved (e_alternate e))])
      (\<lambda>(u, g1, g2, roots). wf_emu c r b (e\<lparr>e_tables := u, e_pen := roots ! 0,
               e_normal := (e_normal e)\<lparr>s_lines := g1,
                 s_saved := (s_saved (e_normal e))\<lparr>sv_pen := roots ! 1\<rparr>\<rparr>,
               e_alternate := (e_alternate e)\<lparr>s_lines := g2,
                 s_saved := (s_saved (e_alternate e))\<lparr>sv_pen := roots ! 2\<rparr>\<rparr>,
               e_pen_id := None, e_erase_id := None\<rparr>) \<and> \<not> needs_compaction u)"
  proof (rule runs_mono [OF compact_same [OF wfD(10) [OF wf] cells roots]],
      unfold split_paired_all prod.case, elim conjE)
    fix u g1 g2 rs
    assume u: "wf_tables u" "\<not> needs_compaction u" and g1: "list_all2 (same_row ?t u) (s_lines (e_normal e)) g1"
      and g2: "list_all2 (same_row ?t u) (s_lines (e_alternate e)) g2"
      and rs: "list_all2 (same_pen ?t u)
        [e_pen e, sv_pen (s_saved (e_normal e)), sv_pen (s_saved (e_alternate e))] rs"
    note links = same_pens_three [OF rs]
    show "wf_emu c r b (e\<lparr>e_tables := u, e_pen := rs ! 0,
               e_normal := (e_normal e)\<lparr>s_lines := g1,
                 s_saved := (s_saved (e_normal e))\<lparr>sv_pen := rs ! 1\<rparr>\<rparr>,
               e_alternate := (e_alternate e)\<lparr>s_lines := g2,
                 s_saved := (s_saved (e_alternate e))\<lparr>sv_pen := rs ! 2\<rparr>\<rparr>,
               e_pen_id := None, e_erase_id := None\<rparr>) \<and> \<not> needs_compaction u"
      using core u links wf_scr_compacted [OF n g1] wf_scr_compacted [OF a g2]
      by (auto simp: wf_emu_def wf_core_def)
  qed
  then show ?thesis
    using True by (auto simp: maybe_compact_def split_beta elim!: runs_mono)
qed

subsection \<open>Saved cursors and screens\<close>

lemma wf_set_pen:
  "wf_emu c r b e \<Longrightarrow> pen_link p < nlinks (e_tables e) \<Longrightarrow> wf_emu c r b (set_pen e p)"
  by (simp add: set_pen_def wf_emu_def wf_core_def)

lemma save_cursor_wf:
  assumes wf: "wf_emu c r b e"
  shows "wf_emu c r b (save_cursor e)"
  using wf_scrD [OF wf] wfD(11) [OF wf] unfolding save_cursor_def
  by (intro wf_set_scr [OF wf]) (auto simp: wf_scr_def wf_screen_def history_cost_def)

lemma wf_origin_charsets:
  "wf_emu c r b (e\<lparr>e_origin := x, e_charsets := y, e_shift_out := z\<rparr>) = wf_emu c r b e"
  by (simp add: wf_emu_def wf_core_def)

lemma restore_cursor_wf:
  assumes wf: "wf_emu c r b e"
  shows "runs (restore_cursor e) (wf_emu c r b)"
proof -
  let ?sv = "s_saved (scr e)"
  let ?e1 = "set_scr e ((scr e)\<lparr>s_col := sv_col ?sv, s_row := min (sv_row ?sv) (r - 1)\<rparr>)"
  have "wf_emu c r b ?e1"
    using wf_posD(8,9) [OF wf] wf_scrD [OF wf] by (intro wf_set_scr [OF wf]) simp
  then have "wf_emu c r b (?e1\<lparr>e_origin := sv_origin ?sv, e_charsets := sv_charsets ?sv,
      e_shift_out := sv_shift_out ?sv\<rparr>)"
    by (simp only: wf_origin_charsets)
  then have "wf_emu c r b (set_pen (?e1\<lparr>e_origin := sv_origin ?sv, e_charsets := sv_charsets ?sv,
      e_shift_out := sv_shift_out ?sv\<rparr>) (sv_pen ?sv))"
    by (rule wf_set_pen) (use wf_posD(7) [OF wf] in simp)
  then show ?thesis
    using wfD(2,4) [OF wf] by (simp add: restore_cursor_def Let_def)
qed

lemma switch_screen_wf:
  assumes wf: "wf_emu c r b e"
  shows "wf_emu c r b (switch_screen e alt)"
proof -
  let ?e1 = "e\<lparr>e_active := alt\<rparr>"
  let ?e2 = "set_scr ?e1 ((scr ?e1)\<lparr>s_row := s_row (scr e), s_col := s_col (scr e)\<rparr>)"
  have w1: "wf_emu c r b ?e1" using wf by (simp add: wf_emu_def wf_core_def)
  have w2: "wf_emu c r b ?e2"
    using wf_posD(3,4) [OF wf] wf_scrD [OF w1] by (intro wf_set_scr [OF w1]) simp
  then show ?thesis
    using wf_set_pen [OF w2, of "(e_pen e)\<lparr>pen_link := 0\<rparr>"] wf_tablesD(5) [OF wfD(10) [OF wf]]
    by (simp add: switch_screen_def Let_def)
qed

lemma wf_keyboard [simp]: "wf_emu c r b (e\<lparr>e_keyboard := k\<rparr>) = wf_emu c r b e"
  by (simp add: wf_emu_def wf_core_def)

lemma alternate_screen_wf:
  assumes wf: "wf_emu c r b e"
  shows "runs (alternate_screen e mode on) (wf_emu c r b)"
proof -
  have leave: "runs (if mode = 1049 then restore_cursor (switch_screen e1 False)
      else Some (switch_screen e1 False)) (wf_emu c r b)" if "wf_emu c r b e1" for e1
    using restore_cursor_wf switch_screen_wf [OF that] by simp
  have cl: "runs (if mode = 1047 \<and> e_active e then clear_screen (e\<lparr>e_keyboard := k\<rparr>)
      else Some (e\<lparr>e_keyboard := k\<rparr>)) (\<lambda>e1. runs (if mode = 1049 then
        restore_cursor (switch_screen e1 False) else Some (switch_screen e1 False)) (wf_emu c r b))" for k
  proof (cases "mode = 1047 \<and> e_active e")
    case True
    have "runs (clear_screen (e\<lparr>e_keyboard := k\<rparr>)) (\<lambda>e1. runs (if mode = 1049 then
        restore_cursor (switch_screen e1 False) else Some (switch_screen e1 False)) (wf_emu c r b))"
      by (rule runs_mono [OF clear_screen_wf [of c r b]]) (use wf leave in \<open>auto simp: split del: if_split\<close>)
    then show ?thesis using True by simp
  next
    case False
    then show ?thesis using wf leave [of "e\<lparr>e_keyboard := k\<rparr>"] by auto
  qed
  have "runs (clear_screen (switch_screen e1 True)) (wf_emu c r b)"
    "wf_emu c r b (switch_screen e1 True)" if "wf_emu c r b e1" for e1
    using clear_screen_wf switch_screen_wf [OF that] by auto
  then show ?thesis
    using wf cl save_cursor_wf [of c r b "e\<lparr>e_keyboard := k\<rparr>" for k]
    by (cases on; cases "mode = 1049") (simp_all add: alternate_screen_def Let_def split del: if_split)
qed

subsection \<open>Modes and resets\<close>

lemma wf_flags [simp]:
  "wf_emu c r b (e\<lparr>e_origin := x\<rparr>) = wf_emu c r b e"
  "wf_emu c r b (e\<lparr>e_autowrap := x\<rparr>) = wf_emu c r b e"
  "wf_emu c r b (e\<lparr>e_insert := x\<rparr>) = wf_emu c r b e"
  "wf_emu c r b (e\<lparr>e_lr_margins := x\<rparr>) = wf_emu c r b e"
  "wf_emu c r b (e\<lparr>e_shift_out := x\<rparr>) = wf_emu c r b e"
  "wf_emu c r b (e\<lparr>e_charsets := y\<rparr>) = wf_emu c r b e"
  "wf_emu c r b (e\<lparr>e_cursor_style := z\<rparr>) = wf_emu c r b e"
  by (simp_all add: wf_emu_def wf_core_def)

lemma wf_live_modes:
  "wf_emu c r b e \<Longrightarrow> length m = 13 \<Longrightarrow> wf_emu c r b (e\<lparr>e_live_modes := m\<rparr>)"
  by (simp add: wf_emu_def wf_core_def)

lemma wf_tabstops:
  "wf_emu c r b e \<Longrightarrow> length ts = c \<Longrightarrow> wf_emu c r b (e\<lparr>e_tabstops := ts\<rparr>)"
  by (simp add: wf_emu_def wf_core_def)

lemma wf_margins:
  "wf_emu c r b e \<Longrightarrow> t \<le> bm \<Longrightarrow> bm < r \<Longrightarrow> wf_emu c r b (e\<lparr>e_top := t, e_bottom := bm\<rparr>)"
  by (simp add: wf_emu_def wf_core_def)

lemma live_mode_set_wf:
  assumes wf: "wf_emu c r b e"
  shows "runs (live_mode_set e mode on) (wf_emu c r b)"
proof (cases "position (\<lambda>m. m = mode) LIVE_MODES")
  case None
  then show ?thesis using wf by (simp add: live_mode_set_def)
next
  case (Some i)
  then have "i < length LIVE_MODES" using position_Some [OF Some] by simp
  then have "i < 13" by (simp add: LIVE_MODES_def)
  then show ?thesis
    using Some wf wfD(9) [OF wf] wf_live_modes [OF wf] by (simp add: live_mode_set_def)
qed

lemma private_mode_wf:
  assumes wf: "wf_emu c r b e"
  shows "runs (private_mode on e mode) (wf_emu c r b)"
proof -
  have "runs (if mode = 6 then home (e1\<lparr>e_origin := on\<rparr>)
          else if mode = 7 then Some (e1\<lparr>e_autowrap := on\<rparr>)
          else if mode = 69 then Some (e1\<lparr>e_lr_margins := on\<rparr>)
          else if mode = 47 \<or> mode = 1047 \<or> mode = 1049 then alternate_screen e1 mode on
          else if mode = 1048 then (if on then Some (save_cursor e1) else restore_cursor e1)
          else Some e1) (wf_emu c r b)" if "wf_emu c r b e1" for e1
    using that home_wf [of c r b "e1\<lparr>e_origin := on\<rparr>"] alternate_screen_wf [OF that]
      save_cursor_wf [OF that] restore_cursor_wf [OF that] by simp
  then show ?thesis
    unfolding private_mode_def runs_bind by (rule runs_mono [OF live_mode_set_wf [OF wf]])
qed

lemma set_ansi_modes_wf:
  "wf_emu c r b e \<Longrightarrow> wf_emu c r b (set_ansi_modes e ps on)"
proof -
  have "wf_emu c r b e \<Longrightarrow>
      wf_emu c r b (foldl (\<lambda>e mode. if mode = 4 then e\<lparr>e_insert := on\<rparr> else e) e (ms :: int list))"
    for ms
    by (induction ms arbitrary: e) auto
  then show "wf_emu c r b e \<Longrightarrow> ?thesis" by (simp add: set_ansi_modes_def)
qed

lemma collect1_range: "lo \<le> hi \<Longrightarrow> lo \<le> collect1 ps i d lo hi \<and> collect1 ps i d lo hi \<le> hi"
  by (simp add: collect1_def)

lemma set_margins_wf:
  assumes wf: "wf_emu c r b e"
  shows "runs (set_margins e ps) (wf_emu c r b)"
proof -
  let ?t = "collect1 ps 0 1 1 (int r)" and ?b = "collect1 ps (params_next ps 0) (int r) 1 (int r)"
  have "1 \<le> ?t" "?b \<le> int r" using wfD(2) [OF wf] collect1_range by simp_all
  then have "wf_emu c r b (e\<lparr>e_top := nat (?t - 1), e_bottom := nat (?b - 1)\<rparr>)" if "?t < ?b"
    using that by (intro wf_margins [OF wf]) linarith+
  then show ?thesis
    using wf home_wf wfD(4) [OF wf] by (simp add: set_margins_def Let_def)
qed

lemma pen_default_link [simp]: "pen_link pen_default = 0"
  by (simp add: pen_default_def)

lemma reset_modes_wf:
  assumes wf: "wf_emu c r b e"
  shows "runs (reset_modes e) (\<lambda>e'. wf_emu c r b e' \<and> e_active e' = e_active e)"
  using wf wfD(2,4) [OF wf] wf_tablesD(5) [OF wfD(10) [OF wf]]
  by (auto simp: reset_modes_def set_pen_def wf_emu_def wf_core_def default_live_modes_def)

lemma wf_active: "wf_emu c r b (e\<lparr>e_active := a\<rparr>) = wf_emu c r b e"
  by (simp add: wf_emu_def wf_core_def)

lemma soft_reset_wf:
  assumes wf: "wf_emu c r b e"
  shows "runs (soft_reset e) (wf_emu c r b)"
  unfolding soft_reset_def runs_bind
  by (rule runs_mono [OF reset_modes_wf [OF wf]]) (simp add: Let_def wf_active save_cursor_wf)

lemma wf_screen_new:
  "0 < r \<Longrightarrow> wf_tables t \<Longrightarrow> wf_scr t c r b alt (screen_new r (\<not> alt))"
  using wf_tablesD(5) [of t]
  by (simp add: wf_scr_def wf_screen_def screen_new_def saved_default_def history_cost_def)

lemma hard_reset_wf:
  assumes wf: "wf_emu c r b e"
  shows "runs (hard_reset e) (wf_emu c r b)"
  unfolding hard_reset_def runs_bind
proof (rule runs_mono [OF reset_modes_wf [OF wf]])
  fix e1 assume "wf_emu c r b e1 \<and> e_active e1 = e_active e"
  then have w1: "wf_emu c r b e1" by simp
  have "length (default_tabstops c) = c" by (simp add: default_tabstops_def)
  then show "runs (Some (e1\<lparr>e_normal := screen_new (e_rows e1) True,
            e_alternate := screen_new (e_rows e1) False, e_active := False,
            e_tabstops := default_tabstops (e_cols e1), e_last_graphic := None,
            e_keyboard := kitty_reset (e_keyboard e1), e_cursor_style := 0\<rparr>)) (wf_emu c r b)"
    using w1 wf_screen_new [of r "e_tables e1" c b False] wf_screen_new [of r "e_tables e1" c b True]
      wfD(3,4,10,13) [OF w1]
    by (simp add: wf_emu_def wf_core_def)
qed

lemma screen_alignment_wf:
  assumes wf: "wf_emu c r b e"
  shows "runs (screen_alignment e) (wf_emu c r b)"
proof -
  let ?e = "e\<lparr>e_top := 0, e_bottom := r - 1\<rparr>"
  let ?f = "\<lambda>(i::nat) (x::row). Some ((row_filled c \<lparr>c_code = 0x45, c_pen = 0\<rparr>)\<lparr>r_touched := True\<rparr>)"
  have w: "wf_emu c r b ?e" using wfD(13) [OF wf] by (intro wf_margins [OF wf]) auto
  have cell: "wf_cell (e_tables e) \<lparr>c_code = 0x45, c_pen = 0\<rparr>"
    using wf_tablesD(4) [OF wfD(10) [OF wf]] by (simp add: wf_cell_small)
  have "runs (foldM (\<lambda>s i. row_mut s i (?f i)) (scr ?e) [0..<s_rows (scr ?e)])
      (\<lambda>s. wf_emu c r b (set_scr ?e s))"
  proof (rule runs_mono [OF rows_loop_wf [OF wf_scrD [OF w]]])
    show "\<forall>i \<in> set [0..<s_rows (scr ?e)]. i < r" using wf_posD(1) [OF w] by simp
    show "runs (?f i x) (wf_row (e_tables ?e) c)" for i x using cell by simp
  qed (use wf_set_scr [OF w] in auto)
  then have "runs (foldM (\<lambda>s i. row_mut s i (?f i)) (scr ?e) [0..<s_rows (scr ?e)])
      (\<lambda>s. runs (home (set_scr ?e s)) (wf_emu c r b))"
    by (rule runs_mono) (rule home_wf)
  then show ?thesis
    using wfD(2,3,4) [OF wf] by (simp add: screen_alignment_def Let_def)
qed

lemma set_hyperlink_wf:
  assumes wf: "wf_emu c r b e"
  shows "wf_emu c r b (set_hyperlink e rest)"
proof -
  note t = wfD(10) [OF wf]
  have "wf_emu c r b (set_pen (e\<lparr>e_tables := fst (intern_link (e_tables e) l)\<rparr>)
      ((e_pen e)\<lparr>pen_link := snd (intern_link (e_tables e) l)\<rparr>))" for l
    using intern_nth [OF wf_tablesD(2) [OF t], of l]
    by (intro wf_set_pen wf_grow [OF wf wf_intern_link [OF t] tables_le_intern(2) [OF t]])
      (simp add: interns nlinks_def)
  moreover have "wf_emu c r b (set_pen (e\<lparr>e_tables := e_tables e\<rparr>) ((e_pen e)\<lparr>pen_link := 0\<rparr>))"
    using wf_tablesD(5) [OF t] by (intro wf_set_pen) (simp_all add: wf)
  ultimately show ?thesis
    using wf by (auto simp: set_hyperlink_def Let_def split_beta split: option.split)
qed

subsection \<open>Callbacks\<close>

lemma set_tabstop_wf:
  assumes wf: "wf_emu c r b e"
  shows "runs (set_tabstop e on) (wf_emu c r b)"
  unfolding set_tabstop_def runs_bind
  by (rule runs_mono [OF xterm_col_runs [OF wf]]) (use wfD(8) [OF wf] wf_tabstops [OF wf] in auto)

lemma execute_wf:
  assumes wf: "wf_emu c r b e"
  shows "runs (execute e control) (wf_emu c r b)"
  using wf move_horizontal_wf [OF wf] tab_forward_wf [OF wf] line_feed_wf [OF wf]
    set_tabstop_wf [OF wf]
  by (simp add: execute_def)

lemma erase_display_wf:
  assumes wf: "wf_emu c r b e"
  shows "runs (erase_display e mode) (wf_emu c r b)" "runs (erase_line e mode) (wf_emu c r b)"
    "runs (clear_tabstops e mode) (wf_emu c r b)"
  using wf clear_below_wf [OF wf] clear_above_wf [OF wf] clear_screen_wf [OF wf]
    clear_history_wf [OF wf] clear_to_eol_wf [OF wf] clear_to_bol_wf [OF wf] clear_line_wf [OF wf]
    set_tabstop_wf [OF wf] wf_tabstops [OF wf] wfD(8) [OF wf]
  by (simp_all add: erase_display_def erase_line_def clear_tabstops_def)

lemma set_private_modes_wf:
  "wf_emu c r b e \<Longrightarrow> runs (set_private_modes e ps on) (wf_emu c r b)"
  by (auto simp: set_private_modes_def intro!: runs_foldM private_mode_wf)

lemma sgr_step_link: "pen_link (fst (sgr_step p ps i)) = pen_link p"
  by (simp add: sgr_step_def sgr_reset_def set_underline_def sgr_underline_def pen_default_def Let_def
      split: prod.split option.split)

lemma apply_sgr_link: "pen_link (apply_sgr p ps) = pen_link p"
proof -
  have "pen_link (sgr_loop p ps i) = pen_link p" for i
    by (induction p ps i rule: sgr_loop.induct) (subst sgr_loop.simps, simp add: sgr_step_link)
  then show ?thesis by (simp add: apply_sgr_def sgr_reset_def pen_default_def)
qed

lemma move_position_wf:
  assumes wf: "wf_emu c r b e"
  shows "runs (do { e1 \<leftarrow> set_cursor_col e x; set_cursor_row e1 y }) (wf_emu c r b)"
    "runs (do { e1 \<leftarrow> retreat e; set_cursor_row e1 y }) (wf_emu c r b)"
  using runs_mono [OF set_cursor_col_wf [OF wf] set_cursor_row_wf]
    runs_mono [OF retreat_wf [OF wf], of "\<lambda>e1. runs (set_cursor_row e1 y) (wf_emu c r b)"]
    set_cursor_row_wf
  by simp_all

lemma scroll_region_wf:
  assumes wf: "wf_emu c r b e"
  shows "runs (scroll_up e (e_top e) (e_bottom e) n fill) (wf_emu c r b)"
    "runs (scroll_down e (e_top e) (e_bottom e) n fill) (wf_emu c r b)"
  using runs_mono [OF scroll_up_wf [OF wf wfD(6,7) [OF wf]]]
    runs_mono [OF scroll_down_wf [OF wf wfD(6,7) [OF wf]]] by simp_all

lemma csi_plain_wf:
  assumes wf: "wf_emu c r b e"
  shows "runs (csi_plain uw e ps fin) (wf_emu c r b)"
proof -
  have "wf_emu c r b (set_pen e (apply_sgr (e_pen e) ps))"
    using wf wfD(11) [OF wf] by (simp add: wf_set_pen apply_sgr_link)
  then show ?thesis
    using wf shift_chars_wf [OF wf] move_vertical_wf [OF wf] move_horizontal_wf [OF wf]
      move_vertical_wf [of c r b "set_col e 0"] set_cursor_col_wf [OF wf] move_position_wf [OF wf]
      tab_forward_wf [OF wf] tab_backward_wf [OF wf] erase_display_wf [OF wf] line_ops_wf [OF wf]
      scroll_region_wf [OF wf] erase_chars_wf [OF wf] repeat_char_wf [OF wf]
      set_ansi_modes_wf [OF wf] set_margins_wf [OF wf] save_cursor_wf [OF wf] restore_cursor_wf [OF wf]
    unfolding csi_plain_def Let_def by (simp del: runs_bind)
qed

lemma csi_wf:
  assumes wf: "wf_emu c r b e"
  shows "runs (csi uw e ps prefix im fin) (wf_emu c r b)"
  using wf csi_plain_wf [OF wf] erase_display_wf [OF wf] set_private_modes_wf [OF wf]
    soft_reset_wf [OF wf]
  by (simp add: csi_def csi_private_def keyboard_op_def)

lemma esc_wf:
  assumes wf: "wf_emu c r b e"
  shows "runs (esc e im fin) (wf_emu c r b)"
  using wf save_cursor_wf [OF wf] restore_cursor_wf [OF wf] line_feed_wf [OF wf]
    set_tabstop_wf [OF wf] hard_reset_wf [OF wf] screen_alignment_wf [OF wf]
    wf_live_modes [OF wf] wfD(9) [OF wf]
  by (simp add: esc_def keypad_mode_def)

lemma osc_wf: "wf_emu c r b e \<Longrightarrow> wf_emu c r b (osc e payload)"
  by (simp add: osc_def set_hyperlink_wf split: option.split)

lemma perform_event_wf:
  assumes wf: "wf_emu c r b e" and ev: "event_ok ev"
  shows "runs (perform_event uw e ev) (wf_emu c r b)"
  using ev wf print_ascii_run_wf print_char_wf execute_wf csi_wf esc_wf osc_wf
  by (cases ev) simp_all

lemma perform_wf:
  assumes wf: "wf_emu c r b e" and ev: "event_ok ev"
  shows "runs (perform uw e ev) (wf_emu c r b)"
  unfolding perform_def runs_bind
  by (rule runs_mono [OF maybe_compact_runs [OF wf]]) (use perform_event_wf ev in blast)

subsection \<open>Creation and resizing\<close>

lemma emulator_new_wf:
  assumes "0 < c" "0 < r"
  shows "runs (emulator_new c r b) (wf_emu c r b)"
  using assms wf_tables_default wf_screen_new [of r tables_default c b False]
    wf_screen_new [of r tables_default c b True] wf_tablesD(5) [OF wf_tables_default]
  by (auto simp: emulator_new_def wf_emu_def wf_core_def default_tabstops_def
      default_live_modes_def)

lemma wf_row_clip: "wf_row t c0 x \<Longrightarrow> wf_row t c (clip_row c x)"
proof (cases "c < length (r_cells x)")
  case True
  assume "wf_row t c0 x"
  then have "\<forall>y \<in> set (r_cells (cleanup_fragments x c c)). wf_cell t y"
    using wf_row_cleanup [of t c0 x c c] by (simp add: wf_row_def)
  then show ?thesis
    using True by (auto simp: clip_row_def truncate_row_def wf_row_def dest: in_set_takeD)
qed (simp add: clip_row_def wf_row_def)

lemma resize_screen_wf:
  assumes s: "wf_scr t c0 r0 b alt s" and pos: "0 < c" "0 < r"
  shows "runs (resize_screen c r b s d) (\<lambda>(s', d'). wf_scr t c r b alt s')"
proof -
  note sc = wf_scr_screen [OF s]
  let ?h = "length (s_lines s) - r0"
  let ?l1 = "if r < r0 then take (?h + r) (s_lines s)
      else s_lines s @ replicate (r - r0) row_default"
  let ?l2 = "map (clip_row c) ?l1"
  have r0: "r0 \<le> length (s_lines s)" using wf_screenD(2) [OF sc] .
  then have len: "length ?l2 = ?h + r" by auto
  have rows: "\<forall>x \<in> set ?l2. wf_row t c x"
  proof -
    have "\<forall>x \<in> set ?l1. wf_row t c0 x"
      using wf_screenD(5) [OF sc] by (auto dest: in_set_takeD)
    then show ?thesis by (auto intro: wf_row_clip)
  qed
  have "runs (evict (\<lambda>a b. Some (a - b)) r (c * r) b ?l2 (sum_list (map row_cost (take ?h ?l2))) d)
      (\<lambda>(lines', h', d'). wf_scr t c r b alt (s\<lparr>s_lines := lines', s_rows := r, s_history_cells := h',
                  s_row := min (s_row s) (r - 1), s_col := min (s_col s) (c - 1),
                  s_saved := (s_saved s)\<lparr>sv_row := min (sv_row (s_saved s)) (r - 1),
                    sv_col := min (sv_col (s_saved s)) (c - 1)\<rparr>\<rparr>))"
  proof (rule runs_mono [OF evict_runs [OF _ len refl]],
      simp, unfold split_paired_all prod.case, elim exE conjE)
    fix lines' h' d' k
    assume k: "k \<le> ?h" and l: "lines' = drop k ?l2"
      and h': "h' = sum_list (map row_cost (take (?h - k) lines'))" and fits: "?h = k \<or> h' + c * r \<le> b"
    have len': "length lines' = (?h - k) + r" using l len k by simp
    have "\<forall>x \<in> set lines'. wf_row t c x" using rows set_drop_subset [of k ?l2] unfolding l by blast
    moreover have "alt \<Longrightarrow> ?h = 0" using s by (simp add: wf_scr_def)
    ultimately show "wf_scr t c r b alt (s\<lparr>s_lines := lines', s_rows := r, s_history_cells := h',
                  s_row := min (s_row s) (r - 1), s_col := min (s_col s) (c - 1),
                  s_saved := (s_saved s)\<lparr>sv_row := min (sv_row (s_saved s)) (r - 1),
                    sv_col := min (sv_col (s_saved s)) (c - 1)\<rparr>\<rparr>)"
      using s h' fits k len' pos
      by (auto simp: wf_scr_def wf_screen_def history_cost_def mult.commute)
  qed
  then show ?thesis
    using pos wf_screenD(1) [OF sc] runs_history_len [OF sc]
    by (simp add: resize_screen_def Let_def Suc_leI cong: if_cong split del: if_split)
qed

lemma length_resize_tabstops [simp]: "length (resize_tabstops c stops) = c"
proof -
  have "length (foldl (\<lambda>ts k. if k mod 8 = 0 then ts[k := True] else ts) xs ks) = length xs"
    for xs :: "bool list" and ks :: "nat list"
    by (induction ks arbitrary: xs) auto
  then show ?thesis by (simp add: resize_tabstops_def)
qed

lemma emulator_resize_wf:
  assumes wf: "wf_emu c0 r0 b e" and pos: "0 < c" "0 < r"
  shows "runs (emulator_resize e c r) (wf_emu c r b)"
proof (cases "c = e_cols e \<and> r = e_rows e")
  case True
  then show ?thesis using wf wfD(3,4) [OF wf] by (simp add: emulator_resize_def)
next
  case False
  have n: "wf_scr (e_tables e) c0 r0 b False (e_normal e)"
    and a: "wf_scr (e_tables e) c0 r0 b True (e_alternate e)" and core: "wf_core c0 r0 b e"
    using wf by (simp_all add: wf_emu_def)
  have "runs (resize_screen c r b (e_normal e) (e_head_dropped e)) (\<lambda>(n, d1).
     runs (resize_screen c r b (e_alternate e) d1) (\<lambda>(a, d2).
       wf_emu c r b (e\<lparr>e_normal := n, e_alternate := a, e_head_dropped := d2, e_cols := c,
               e_rows := r, e_top := 0, e_bottom := r - 1,
               e_tabstops := resize_tabstops c (e_tabstops e)\<rparr>)))"
  proof (rule runs_mono [OF resize_screen_wf [OF n pos]], unfold split_paired_all prod.case)
    fix n' d1 assume n': "wf_scr (e_tables e) c r b False n'"
    show "runs (resize_screen c r b (e_alternate e) d1) (\<lambda>(a, d2).
       wf_emu c r b (e\<lparr>e_normal := n', e_alternate := a, e_head_dropped := d2, e_cols := c,
               e_rows := r, e_top := 0, e_bottom := r - 1,
               e_tabstops := resize_tabstops c (e_tabstops e)\<rparr>))"
      by (rule runs_mono [OF resize_screen_wf [OF a pos]])
        (use core n' pos in \<open>auto simp: wf_emu_def wf_core_def\<close>)
  qed
  then show ?thesis
    using False wfD(5) [OF wf] pos by (simp add: emulator_resize_def if_not_P [OF False] Suc_leI)
qed

end
