(* ===== verification/Replay_Run_Facts.thy ===== *)
theory Replay_Run_Facts
  imports Replay_Perform_Facts
begin

text \<open>
  The bulk path for ASCII against its definition: \<open>print_ascii_run\<close> of
  \<open>src/src/screen_replay/emulator.rs\<close> writes a run of characters exactly as printing them one at
  a time does.
\<close>

subsection \<open>The cells of a run\<close>

definition overwrite :: "cell list \<Rightarrow> nat \<Rightarrow> cell list \<Rightarrow> cell list" where
  "overwrite cells col new =
     (let c = cleanup_cells cells col (col + length new)
      in take col c @ replicate (col - length c) BLANK @ new @ drop (col + length new) c)"

lemma nth_space_back_above: "n \<le> j \<Longrightarrow> space_back cells n ! j = cells ! j"
  by (induction n arbitrary: cells) (simp_all add: Let_def)

lemma take_space_back: "n \<le> m \<Longrightarrow> take m (space_back cells n) = space_back (take m cells) n"
  by (induction n arbitrary: cells) (simp_all add: Let_def take_update_swap)

lemma length_overwrite:
  "length (overwrite cells col new) = max (col + length new) (length cells)"
  by (auto simp: overwrite_def Let_def)

lemma nth_overwrite:
  "j < max (col + length new) (length cells) \<Longrightarrow>
   overwrite cells col new ! j =
     (if j < col then (if j < length cells then cleanup_cells cells col (col + length new) ! j else BLANK)
      else if j < col + length new then new ! (j - col)
      else cleanup_cells cells col (col + length new) ! j)"
  by (auto simp: overwrite_def Let_def nth_append min_def)

text \<open>Cleaning up changes no cell between the two ends, and beyond the end only the end.\<close>

lemma nth_cleanup_end: "j \<noteq> e \<Longrightarrow> cleanup_end cells e ! j = cells ! j"
  by (simp add: cleanup_end_def)

lemma nth_cleanup_after:
  "s \<le> j \<Longrightarrow> cleanup_cells cells s e ! j = cleanup_end cells e ! j"
  by (simp add: cleanup_cells_def Let_def nth_space_back_above)

lemma take_cleanup_end: "s \<le> e \<Longrightarrow> take s (cleanup_end cells e) = take s cells"
  by (simp add: cleanup_end_def)

lemma take_cleanup: "s \<le> e \<Longrightarrow> take s (cleanup_cells cells s e) =
    (if s < length cells \<and> is_fragment (cells ! s) then space_back (take s cells) s else take s cells)"
  by (simp add: cleanup_cells_def Let_def take_space_back take_cleanup_end)

lemma head_before_Suc:
  "head_before cells (Suc i) = (if is_fragment (cells ! i) then head_before cells i else i)"
  by simp

text \<open>The run grown by one cell.\<close>

lemma cleanup_end_overwrite:
  assumes new: "new \<noteq> []" and k: "k = col + length new"
  shows "k < length cells \<Longrightarrow> \<not> is_fragment (overwrite cells col new ! k)"
    and "Suc k < length cells \<Longrightarrow>
      cleanup_end (overwrite cells col new) (Suc k) ! Suc k = cleanup_end cells (Suc k) ! Suc k"
proof -
  let ?w = "overwrite cells col new"
  have here: "?w ! k = cleanup_end cells k ! k" if "k < length cells"
    using that k by (simp add: nth_overwrite nth_cleanup_after)
  have next_cell: "?w ! Suc k = cells ! Suc k" if "Suc k < length cells"
    using that k by (simp add: nth_overwrite nth_cleanup_after nth_cleanup_end)
  show plain: "\<not> is_fragment (?w ! k)" if "k < length cells"
    using here [OF that] that
    by (auto simp: cleanup_end_def is_fragment_def FRAGMENT_def TAB_def SPACE_def and_bit_nonzero)
  show "cleanup_end ?w (Suc k) ! Suc k = cleanup_end cells (Suc k) ! Suc k" if l: "Suc k < length cells"
  proof -
    have kl: "k < length cells" using l by simp
    have "is_tab_head (?w ! head_before ?w (Suc k)) = is_tab_head (cells ! head_before cells (Suc k))"
      using plain [OF kl] here [OF kl] kl by (auto simp: cleanup_end_def is_tab_head_def SPACE_def TAB_def)
    then show ?thesis using next_cell [OF l] l k by (auto simp: cleanup_end_def length_overwrite)
  qed
qed

lemma overwrite_snoc:
  assumes new: "new \<noteq> []"
  shows "overwrite (overwrite cells col new) (col + length new) [x] = overwrite cells col (new @ [x])"
proof (rule nth_equalityI)
  let ?k = "col + length new" and ?w = "overwrite cells col new"
  show len: "length (overwrite ?w ?k [x]) = length (overwrite cells col (new @ [x]))"
    by (simp add: length_overwrite)
  fix j assume "j < length (overwrite ?w ?k [x])"
  then have j: "j < max (Suc ?k) (length cells)" by (simp add: length_overwrite)
  have frag: "\<not> (?k < length ?w \<and> is_fragment (?w ! ?k))"
    using cleanup_end_overwrite(1) [OF new refl, of col cells] by (auto simp: length_overwrite)
  have w: "cleanup_cells ?w ?k (Suc ?k) = cleanup_end ?w (Suc ?k)"
    unfolding cleanup_cells_def Let_def using frag by (simp only: if_False)
  consider "j < col" | "col \<le> j" "j < ?k" | "j = ?k" | "j = Suc ?k" | "Suc ?k < j" by linarith
  then show "overwrite ?w ?k [x] ! j = overwrite cells col (new @ [x]) ! j"
  proof cases
    case 1
    then have "overwrite ?w ?k [x] ! j = take col ?w ! j"
      using j by (simp add: nth_overwrite length_overwrite w nth_cleanup_end)
    also have "\<dots> = (if j < length cells then take col (cleanup_cells cells col ?k) ! j else BLANK)"
      using 1 by (simp add: nth_overwrite)
    also have "take col (cleanup_cells cells col ?k) = take col (cleanup_cells cells col (Suc ?k))"
      by (simp add: take_cleanup)
    finally show ?thesis using 1 j by (simp add: nth_overwrite)
  next
    case 2
    then show ?thesis
      using j by (simp add: nth_overwrite length_overwrite w nth_cleanup_end nth_append)
  next
    case 3
    then show ?thesis by (simp add: nth_overwrite length_overwrite)
  next
    case 4
    then show ?thesis
      using j cleanup_end_overwrite(2) [OF new refl, of col cells]
      by (simp add: nth_overwrite length_overwrite w nth_cleanup_after)
  next
    case 5
    then show ?thesis
      using j by (simp add: nth_overwrite length_overwrite w nth_cleanup_after nth_cleanup_end)
  qed
qed

text \<open>At the last column the last write wins.\<close>

lemma overwrite_again:
  assumes "length cells \<le> Suc col" and "\<not> is_fragment x"
  shows "overwrite (overwrite cells col [x]) col [y] = overwrite cells col [y]"
proof (rule nth_equalityI)
  let ?w = "overwrite cells col [x]"
  show "length (overwrite ?w col [y]) = length (overwrite cells col [y])"
    by (simp add: length_overwrite)
  fix j assume "j < length (overwrite ?w col [y])"
  then have j: "j \<le> col" using assms(1) by (simp add: length_overwrite)
  have "?w ! col = x" by (simp add: nth_overwrite)
  then have "cleanup_cells ?w col (Suc col) = ?w"
    using assms by (simp add: cleanup_cells_def cleanup_end_def length_overwrite)
  then show "overwrite ?w col [y] ! j = overwrite cells col [y] ! j"
    using j by (cases "j = col") (auto simp: nth_overwrite length_overwrite)
qed

subsection \<open>The rows of a run\<close>

definition write_cells :: "nat \<Rightarrow> cell list \<Rightarrow> row \<Rightarrow> row" where
  "write_cells col new r = r\<lparr>r_cells := overwrite (r_cells r) col new, r_touched := True\<rparr>"

lemma write_cells_snoc:
  "new \<noteq> [] \<Longrightarrow> write_cells (col + length new) [x] (write_cells col new r) = write_cells col (new @ [x]) r"
  by (simp add: write_cells_def overwrite_snoc)

lemma write_cells_again:
  "length (r_cells r) \<le> Suc col \<Longrightarrow> \<not> is_fragment x \<Longrightarrow>
     write_cells col [y] (write_cells col [x] r) = write_cells col [y] r"
  by (simp add: write_cells_def overwrite_again)

lemma put_char_plain:
  assumes "length (r_cells r) \<le> cols" and "col < cols"
  shows "put_char False cols col 1 code pen r = Some (write_cells col [\<lparr>c_code = code, c_pen = pen\<rparr>] r)"
proof -
  let ?c = "cleanup_cells (r_cells r) col (Suc col)"
  have fill: "r_cells (fill_to (cleanup_fragments r col (Suc col)) (Suc col)) =
      ?c @ replicate (Suc col - length ?c) BLANK"
    by (simp add: fill_to_def fill_with_def cleanup_fragments_def resize_def)
  let ?x = "\<lparr>c_code = code, c_pen = pen\<rparr>"
  have "(?c @ replicate (Suc col - length ?c) BLANK)[col := ?x] =
      take col ?c @ replicate (col - length ?c) BLANK @ [?x] @ drop (Suc col) ?c"
    by (rule nth_equalityI) (auto simp: nth_append nth_list_update min_def)
  also have "\<dots> = overwrite (r_cells r) col [?x]" by (simp add: overwrite_def Let_def)
  finally have st: "store (r_cells (fill_to (cleanup_fragments r col (Suc col)) (Suc col))) col ?x =
      Some (overwrite (r_cells r) col [?x])"
    unfolding fill store_def by simp
  have "length (overwrite (r_cells r) col [?x]) \<le> cols"
    using assms by (simp add: length_overwrite)
  then have "cut_row (z\<lparr>r_cells := overwrite (r_cells r) col [?x]\<rparr>) cols =
      z\<lparr>r_cells := overwrite (r_cells r) col [?x]\<rparr>" for z
    by (simp add: cut_row_def)
  then show ?thesis using st
    by (simp add: put_char_def write_cells_def)
      (simp add: fill_to_def fill_with_def cleanup_fragments_def)
qed

lemma write_run_plain:
  assumes "n \<le> length rest"
  shows "write_run pen col n rest r = Some (write_cells col (map (ascii_cell pen) (take n rest)) r)"
proof -
  let ?c = "cleanup_cells (r_cells r) col (col + n)"
  let ?f = "?c @ replicate (col - length ?c) BLANK"
  have fill: "fill_to (cleanup_fragments r col (col + n)) col = r\<lparr>r_cells := ?f\<rparr>"
    by (simp add: fill_to_def fill_with_def cleanup_fragments_def resize_def)
  let ?k = "min (length ?f - col) n"
  have "take ?k rest @ take (n - ?k) (drop ?k rest) = take n rest"
    by (metis le_add_diff_inverse min.cobounded2 take_add)
  then have runs_on: "map (ascii_cell pen) (take ?k rest) @ map (ascii_cell pen) (take (n - ?k) (drop ?k rest)) =
      map (ascii_cell pen) (take n rest)"
    by (metis map_append)
  have swap: "drop (col + ?k) ?f @ map (ascii_cell pen) (take (n - ?k) (drop ?k rest)) =
      map (ascii_cell pen) (take (n - ?k) (drop ?k rest)) @ drop (col + ?k) ?f"
  proof (cases "length ?f - col \<le> n")
    case True
    then have "?k = length ?f - col" by (rule min_absorb1)
    then have "drop (col + ?k) ?f = []" by (simp only: drop_eq_Nil)
    then show ?thesis by (simp only: append_Nil append_Nil2)
  next
    case False
    then have "n - ?k = 0" by simp
    then show ?thesis by (simp only: take_0 list.map append_Nil append_Nil2)
  qed
  have tail: "drop (col + ?k) ?f = drop (col + n) ?c" by (auto simp: min_def)
  have front: "take col ?f = take col ?c @ replicate (col - length ?c) BLANK" by (auto simp: min_def)
  have sl: "slice ?f col (col + ?k) = Some (take ?k (drop col ?f))" "slice rest ?k n = Some (take (n - ?k) (drop ?k rest))"
    using assms by (auto simp: slice_def min_def)
  have new: "overwrite (r_cells r) col (map (ascii_cell pen) (take n rest)) =
      take col ?c @ replicate (col - length ?c) BLANK @ map (ascii_cell pen) (take n rest) @ drop (col + n) ?c"
    using assms by (simp add: overwrite_def Let_def min_absorb2)
  have all: "take col ?f @ map (ascii_cell pen) (take ?k rest) @ drop (col + ?k) ?f
      @ map (ascii_cell pen) (take (n - ?k) (drop ?k rest)) =
    overwrite (r_cells r) col (map (ascii_cell pen) (take n rest))"
    unfolding swap new unfolding tail front runs_on [symmetric] by (simp only: append_assoc)
  have rc: "r_cells (fill_to (cleanup_fragments r col (col + n)) col) = ?f" by (simp add: fill)
  show ?thesis
    by (simp only: write_run_def Let_def rc sl all bind.bind_lunit) (simp add: fill write_cells_def)
qed

subsection \<open>Editing the cursor line\<close>

definition cursor_line :: "emulator \<Rightarrow> nat" where
  "cursor_line e = length (s_lines (scr e)) - s_rows (scr e) + s_row (scr e)"

definition edit :: "(row \<Rightarrow> row) \<Rightarrow> emulator \<Rightarrow> emulator" where
  "edit f e = set_scr e ((scr e)\<lparr>s_lines := (s_lines (scr e))[cursor_line e :=
     f (s_lines (scr e) ! cursor_line e)]\<rparr>)"

lemma cursor_line_less: "wf_emu c r b e \<Longrightarrow> cursor_line e < length (s_lines (scr e))"
  using wf_posD(1-3) [of c r b e] by (simp add: cursor_line_def)

lemma on_cursor_row_edit:
  assumes wf: "wf_emu c r b e" and f: "f (s_lines (scr e) ! cursor_line e) = Some y"
    and g: "g (s_lines (scr e) ! cursor_line e) = y"
  shows "on_cursor_row e f = Some (edit g e)"
  using wf_posD(1-3) [OF wf] cursor_line_less [OF wf] f g
  by (simp add: on_cursor_row_def cursor_row_mut_def row_mut_def modify_line_def history_len_def
      usub_def index_def store_def edit_def cursor_line_def)

lemma set_scr_last_graphic [simp]:
  "set_scr (e\<lparr>e_last_graphic := g\<rparr>) s = (set_scr e s)\<lparr>e_last_graphic := g\<rparr>"
  by (simp add: set_scr_def)

lemma screen_updates: "s\<lparr>s_col := k, s_lines := l\<rparr> = s\<lparr>s_lines := l, s_col := k\<rparr>" for s :: screen
  by (cases s) simp

lemma edit_simps [simp]:
  "s_rows (scr (edit f e)) = s_rows (scr e)" "s_row (scr (edit f e)) = s_row (scr e)"
  "s_col (scr (edit f e)) = s_col (scr e)" "length (s_lines (scr (edit f e))) = length (s_lines (scr e))"
  "cursor_line (edit f e) = cursor_line e"
  "edit f (e\<lparr>e_last_graphic := g\<rparr>) = (edit f e)\<lparr>e_last_graphic := g\<rparr>"
  "cursor_line (set_col e k) = cursor_line e" "cursor_line (e\<lparr>e_last_graphic := g\<rparr>) = cursor_line e"
  "edit f (set_col e k) = set_col (edit f e) k"
  "set_col (set_col e k) l = set_col e l" "set_col (e\<lparr>e_last_graphic := g\<rparr>) k = (set_col e k)\<lparr>e_last_graphic := g\<rparr>"
  "s_col (scr (set_col e k)) = k" "s_lines (scr (set_col e k)) = s_lines (scr e)"
  by (simp_all add: edit_def cursor_line_def set_col_def screen_updates)

lemma edit_edit: "cursor_line e < length (s_lines (scr e)) \<Longrightarrow> edit g (edit f e) = edit (\<lambda>x. g (f x)) e"
  by (simp add: edit_def cursor_line_def)

lemma edit_at: "cursor_line e < length (s_lines (scr e)) \<Longrightarrow>
    s_lines (scr (edit f e)) ! cursor_line e = f (s_lines (scr e) ! cursor_line e)"
  by (simp add: edit_def)

lemma edit_fields [simp]:
  "e_insert (edit f e) = e_insert e" "e_pen_id (edit f e) = e_pen_id e" "e_cols (edit f e) = e_cols e"
  "charset_active (edit f e) = charset_active e" "e_autowrap (edit f e) = e_autowrap e"
  "e_insert (set_col e k) = e_insert e" "e_pen_id (set_col e k) = e_pen_id e"
  "e_cols (set_col e k) = e_cols e" "charset_active (set_col e k) = charset_active e"
  "e_autowrap (set_col e k) = e_autowrap e"
  "charset_active (e\<lparr>e_last_graphic := g\<rparr>) = charset_active e"
  by (simp_all add: edit_def set_col_def charset_active_def)

subsection \<open>One character, and a run that fits\<close>

text \<open>The state in which the bulk path runs: the pen interned, no insert mode, no line drawing.\<close>

definition bulk_ready :: "nat \<Rightarrow> nat \<Rightarrow> nat \<Rightarrow> nat \<Rightarrow> emulator \<Rightarrow> bool" where
  "bulk_ready c r b p e \<longleftrightarrow>
     wf_emu c r b e \<and> e_pen_id e = Some p \<and> \<not> e_insert e \<and> \<not> charset_active e"

lemma ascii_byte: "printable_ascii x \<Longrightarrow> (ucast x :: u32) < 0x80"
  using unat_ucast32 [of x] by (simp add: printable_ascii_def word_less_nat_alt word_le_nat_alt)

lemma cursor_row_width: "wf_emu c r b e \<Longrightarrow> length (r_cells (s_lines (scr e) ! cursor_line e)) \<le> c"
  using wf_posD(6) [of c r b e "cursor_line e"] cursor_line_less [of c r b e] by (simp add: wf_row_def)

lemma print_char_fits:
  assumes ready: "bulk_ready c r b p e" and room: "s_col (scr e) < c" and x: "printable_ascii x"
  shows "print_char uw e (ucast x) =
    Some (set_col (edit (write_cells (s_col (scr e)) [ascii_cell p x]) (e\<lparr>e_last_graphic := Some (ucast x)\<rparr>))
      (s_col (scr e) + 1))"
proof -
  have wf: "wf_emu c r b e" and cols: "e_cols e = c" "1 \<le> c"
    using ready wfD(1,3) [of c r b e] by (simp_all add: bulk_ready_def)
  let ?e = "e\<lparr>e_last_graphic := Some (ucast x)\<rparr>"
  have wf': "wf_emu c r b ?e" using wf_last_graphic [OF wf ascii_scalar] x by blast
  have w: "char_width uw (ucast x) = 1" using ascii_byte [OF x] by (simp add: char_width_def)
  have pen: "take_pen_id ?e = (?e, p)" using ready by (simp add: take_pen_id_def bulk_ready_def)
  have row: "on_cursor_row ?e (put_char False c (s_col (scr e)) 1 (ucast x) p) =
      Some (edit (write_cells (s_col (scr e)) [ascii_cell p x]) ?e)"
    using cursor_row_width [OF wf] room
    by (intro on_cursor_row_edit [OF wf' _ refl]) (simp add: put_char_plain [simplified] ascii_cell_def)
  show ?thesis
    using ready room cols w pen row
    by (simp add: print_char_def map_charset_def make_room_def place_char_def bulk_ready_def min_def Let_def)
qed

abbreviation print_byte :: "(u32 \<Rightarrow> nat option) \<Rightarrow> emulator \<Rightarrow> u8 \<Rightarrow> emulator option" where
  "print_byte uw e x \<equiv> print_char uw e (ucast x)"

abbreviation graphic :: "u8 \<Rightarrow> emulator \<Rightarrow> emulator" where
  "graphic x e \<equiv> e\<lparr>e_last_graphic := Some (ucast x)\<rparr>"

lemma bulk_ready_keeps:
  assumes ready: "bulk_ready c r b p e" and room: "s_col (scr e) < c" and x: "printable_ascii x"
    and e': "print_byte uw e x = Some e'"
  shows "bulk_ready c r b p e'"
  using print_char_fits [OF ready room x, of uw] e' ready
    runsD [OF print_char_wf [of c r b e "ucast x" uw]] ascii_scalar [OF x]
  by (auto simp: bulk_ready_def)

lemma print_run_fits:
  assumes "bulk_ready c r b p e" and "xs \<noteq> []" and "s_col (scr e) + length xs \<le> c"
    and "\<forall>x \<in> set xs. printable_ascii x"
  shows "foldM (print_byte uw) e xs = Some (set_col
      (edit (write_cells (s_col (scr e)) (map (ascii_cell p) xs)) (graphic (last xs) e))
      (s_col (scr e) + length xs)) \<and>
    bulk_ready c r b p (set_col (edit (write_cells (s_col (scr e)) (map (ascii_cell p) xs))
      (graphic (last xs) e)) (s_col (scr e) + length xs))"
  using assms(2-)
proof (induction xs rule: rev_nonempty_induct)
  case (single x)
  then show ?case
    using print_char_fits [OF assms(1), of x uw] bulk_ready_keeps [OF assms(1), of x uw] by simp
next
  case (snoc x xs)
  let ?col = "s_col (scr e)"
  let ?e1 = "set_col (edit (write_cells ?col (map (ascii_cell p) xs)) (graphic (last xs) e)) (?col + length xs)"
  have run: "foldM (print_byte uw) e xs = Some ?e1" and ready: "bulk_ready c r b p ?e1"
    using snoc by simp_all
  have room: "s_col (scr ?e1) < c" and x: "printable_ascii x" using snoc.prems by simp_all
  have line: "cursor_line e < length (s_lines (scr e))"
    using assms(1) cursor_line_less by (auto simp: bulk_ready_def)
  have "(\<lambda>y. write_cells (?col + length xs) [ascii_cell p x] (write_cells ?col (map (ascii_cell p) xs) y)) =
      write_cells ?col (map (ascii_cell p) (xs @ [x]))"
    using write_cells_snoc [of "map (ascii_cell p) xs" ?col "ascii_cell p x"] snoc.hyps by (simp add: fun_eq_iff)
  then have "print_byte uw ?e1 x = Some (set_col (edit (write_cells ?col (map (ascii_cell p) (xs @ [x])))
      (graphic x e)) (?col + length (xs @ [x])))"
    using print_char_fits [OF ready room x, of uw] line by (simp add: edit_edit add.assoc)
  then show ?case
    using run bulk_ready_keeps [OF ready room x, of uw] by (simp add: foldM_append)
qed

subsection \<open>Wrapping\<close>

text \<open>
  Wrapping scrolls without a fill, so it neither reads nor changes the pen, its cache or the last
  character, and of the tables only the pens of rows that enter the history.
\<close>

definition restyle :: "tables \<Rightarrow> nat option \<Rightarrow> u32 option \<Rightarrow> emulator \<Rightarrow> emulator" where
  "restyle t i g e = e\<lparr>e_tables := t, e_pen_id := i, e_last_graphic := g\<rparr>"

lemma restyle_simps [simp]:
  "scr (restyle t i g e) = scr e" "set_scr (restyle t i g e) s = restyle t i g (set_scr e s)"
  "set_col (restyle t i g e) k = restyle t i g (set_col e k)"
  "set_row (restyle t i g e) k = restyle t i g (set_row e k)"
  "e_cols (restyle t i g e) = e_cols e" "e_rows (restyle t i g e) = e_rows e"
  "e_top (restyle t i g e) = e_top e" "e_bottom (restyle t i g e) = e_bottom e"
  "e_tables (restyle t i g e) = t" "e_autowrap (restyle t i g e) = e_autowrap e"
  "e_pen (restyle t i g e) = e_pen e" "e_pen_id (restyle t i g e) = i"
  "restyle t i g (restyle t' i' g' e) = restyle t i g e"
  by (simp_all add: restyle_def scr_def set_scr_def set_col_def set_row_def)

lemma restyle_same: "restyle (e_tables e) (e_pen_id e) (e_last_graphic e) e = e"
  by (simp add: restyle_def)

lemma restyle_eq_iff:
  "e = restyle t i g e \<longleftrightarrow> e_tables e = t \<and> e_pen_id e = i \<and> e_last_graphic e = g"
  by (cases e) (auto simp: restyle_def)

lemma restyle_bind:
  "(map_option (restyle t i g) m \<bind> f) = (m \<bind> (\<lambda>e. f (restyle t i g e)))"
  by (cases m) auto

lemma map_option_bind: "map_option f (m \<bind> k) = (m \<bind> (\<lambda>x. map_option f (k x)))"
  by (cases m) auto

lemma on_cursor_row_restyle:
  "on_cursor_row (restyle t i g e) f = map_option (restyle t i g) (on_cursor_row e f)"
  by (simp add: on_cursor_row_def map_option_bind)

lemma set_hard_wrapped_restyle:
  "set_hard_wrapped (restyle t i g e) k = map_option (restyle t i g) (set_hard_wrapped e k)"
  by (simp add: set_hard_wrapped_def map_option_bind cong: if_cong)

lemma enforce_budget_restyle:
  "enforce_budget (restyle t i g e) = map_option (restyle t i g) (enforce_budget e)"
  by (cases e) (auto simp: enforce_budget_def restyle_def map_option_bind intro!: Option.bind_cong)

lemma insert_new_row_restyle:
  "insert_new_row False (restyle t i g e) k = map_option (restyle t i g) (insert_new_row False e k)"
  by (simp add: insert_new_row_def new_row_def map_option_bind)

lemma rotate_row_restyle:
  "rotate_row False k l (restyle t i g e) = map_option (restyle t i g) (rotate_row False k l e)"
  by (simp add: rotate_row_def new_row_def map_option_bind)

text \<open>A row that enters the history is trimmed alike under larger tables.\<close>

lemma trim_le:
  assumes "tables_le t u" and "wf_row t c x"
  shows "trim_invisible_tail (blank_visible u) x = trim_invisible_tail (blank_visible t) x"
proof -
  have "keep_len (blank_visible u) cells = keep_len (blank_visible t) cells"
    if "\<forall>y \<in> set cells. wf_cell t y" for cells
    using that
  proof (induction cells)
    case (Cons y cells)
    then show ?case
      using tables_le_at(2) [OF assms(1), of "c_pen y"] by (simp add: blank_visible_def wf_cell_def cong: if_cong)
  qed simp
  then show ?thesis using assms(2) by (simp add: trim_invisible_tail_def wf_row_def)
qed

lemma freeze_row_le:
  assumes "tables_le t u" and "wf_screen t c r s"
  shows "freeze_row u s i = freeze_row t s i"
proof (cases "i < length (s_lines s)")
  case True
  then show ?thesis
    using trim_le [OF assms(1) wf_screenD(6) [OF assms(2) True]] by (simp add: freeze_row_def index_def)
next
  case False
  then show ?thesis by (simp add: freeze_row_def index_def)
qed

lemma freeze_restyle:
  assumes "tables_le (e_tables e) t" and "wf_screen (e_tables e) c r (scr e)"
  shows "freeze_into_history (restyle t i g e) k 1 = map_option (restyle t i g) (freeze_into_history e k 1)"
  using freeze_row_le [OF assms]
  by (simp add: freeze_into_history_def map_option_bind enforce_budget_restyle)

lemma scroll_into_history_restyle:
  assumes wf: "wf_emu c r b e" and le: "tables_le (e_tables e) t" and bottom: "bottom < r"
  shows "scroll_into_history False bottom 1 (restyle t i g e) =
    map_option (restyle t i g) (scroll_into_history False bottom 1 e)"
proof -
  let ?h = "length (s_lines (scr e)) - r"
  have h: "history_len (scr e) = Some ?h" and sz: "length (s_lines (scr e)) = ?h + r"
    using wf_posD(1,2) [OF wf] by (simp_all add: history_len_def usub_def)
  obtain e1 where e1: "insert_new_row False e (?h + bottom + 1) = Some e1" and p: "pending c r b ?h (?h + 1) e1"
    using insert_new_row_pending [OF pending_start [OF wf sz], of "?h + bottom + 1" False] bottom
    by (auto simp: runs_def)
  have t: "e_tables e1 = e_tables e"
    using e1 by (auto simp: insert_new_row_def new_row_def bind_eq_Some_conv)
  have w: "wf_screen (e_tables e1) c r (scr e1)" using p by (simp add: pending_def pending_scr_def)
  show ?thesis
    using e1 freeze_restyle [OF _ w, of t i g ?h] le t
    by (simp add: scroll_into_history_def h insert_new_row_restyle)
qed

lemma scroll_up_restyle:
  assumes wf: "wf_emu c r b e" and le: "tables_le (e_tables e) t" and m: "tp \<le> bottom" "bottom < r"
  shows "scroll_up (restyle t i g e) tp bottom 1 False =
    map_option (restyle t i g) (scroll_up e tp bottom 1 False)"
proof -
  have one: "clamp 1 1 (bottom - tp + 1) = Some 1" "usub bottom tp = Some (bottom - tp)"
    using m by (simp_all add: clamp_def usub_def)
  have rows: "e_rows e = r" "usub r 1 = Some (r - 1)"
    using wfD(2,4) [OF wf] by (simp_all add: usub_def)
  have into: "scroll_into_history False bottom 1 (restyle t i g e1) =
      map_option (restyle t i g) (scroll_into_history False bottom 1 e1)"
    if "wf_emu c r b e1" "e_tables e1 = e_tables e" for e1
    using scroll_into_history_restyle [OF that(1) _ m(2)] le that(2) by simp
  obtain e1 where e1: "set_hard_wrapped e (int bottom) = Some e1" "wf_emu c r b e1" "e_tables e1 = e_tables e"
    using set_hard_wrapped_wf [OF wf, of "int bottom"] by (auto simp: runs_def)
  show ?thesis
    using into [OF e1(2,3)] into [OF wf refl] e1(1)
    by (simp add: scroll_up_def one [simplified] rows [simplified] set_hard_wrapped_restyle restyle_bind
        rotate_row_restyle map_option_bind) auto
qed

lemma cursor_down_restyle:
  assumes wf: "wf_emu c r b e" and le: "tables_le (e_tables e) t"
  shows "cursor_down_with_scrolling (restyle t i g e) False =
    map_option (restyle t i g) (cursor_down_with_scrolling e False)"
  using scroll_up_restyle [OF wf le wfD(6,7) [OF wf], of i g]
  by (simp add: cursor_down_with_scrolling_def)

lemma autowrap_restyle:
  assumes wf: "wf_emu c r b e" and le: "tables_le (e_tables e) t"
  shows "autowrap_newline (restyle t i g e) = map_option (restyle t i g) (autowrap_newline e)"
proof -
  have "runs (on_cursor_row (set_col e 0) wrap_and_touch)
    (\<lambda>e1. wf_emu c r b e1 \<and> frame e1 = frame (set_col e 0) \<and> e_tables e1 = e_tables (set_col e 0))"
    using wf by (intro on_cursor_row_wf) (simp_all add: wrap_and_touch_def wf_row_def)
  then obtain e1 where e1: "on_cursor_row (set_col e 0) wrap_and_touch = Some e1" "wf_emu c r b e1"
    "e_tables e1 = e_tables e"
    by (auto simp: runs_def set_col_def)
  then show ?thesis
    using cursor_down_restyle [OF e1(2)] le by (simp add: autowrap_newline_def on_cursor_row_restyle)
qed

lemma cursor_down_keeps:
  assumes wf: "wf_emu c r b e"
  shows "runs (cursor_down_with_scrolling e fill) (\<lambda>e'. e_insert e' = e_insert e \<and>
    charset_active e' = charset_active e \<and> e_pen e' = e_pen e \<and> e_autowrap e' = e_autowrap e)"
proof -
  have "runs (scroll_up e (e_top e) (e_bottom e) 1 fill) (\<lambda>e'. e_insert e' = e_insert e \<and>
      charset_active e' = charset_active e \<and> e_pen e' = e_pen e \<and> e_autowrap e' = e_autowrap e)"
    by (rule runs_mono [OF scroll_up_wf [OF wf wfD(6,7) [OF wf]]])
      (simp add: frame_def charset_active_def)
  then show ?thesis by (simp add: cursor_down_with_scrolling_def set_row_def charset_active_def)
qed

lemma autowrap_keeps:
  assumes wf: "wf_emu c r b e"
  shows "\<exists>e'. autowrap_newline e = Some e' \<and> wf_emu c r b e' \<and> s_col (scr e') = 0 \<and>
    e_tables e' = e_tables e \<and> e_pen_id e' = e_pen_id e \<and> e_pen e' = e_pen e \<and>
    e_last_graphic e' = e_last_graphic e \<and> e_insert e' = e_insert e \<and>
    charset_active e' = charset_active e \<and> e_autowrap e' = e_autowrap e"
proof -
  let ?own = "restyle (e_tables e) (e_pen_id e) (e_last_graphic e)"
  obtain e' where e': "autowrap_newline e = Some e'" "wf_emu c r b e'" "s_col (scr e') = 0"
    using autowrap_newline_wf [OF wf] by (auto simp: runs_def)
  have "autowrap_newline e = map_option ?own (autowrap_newline e)"
    using autowrap_restyle [OF wf tables_le_refl, of "e_pen_id e" "e_last_graphic e"] by (simp only: restyle_same)
  then have "e' = ?own e'" using e'(1) by simp
  then have own: "e_tables e' = e_tables e" "e_pen_id e' = e_pen_id e" "e_last_graphic e' = e_last_graphic e"
    by (simp_all add: restyle_eq_iff)
  have "runs (on_cursor_row (set_col e 0) wrap_and_touch)
    (\<lambda>e1. wf_emu c r b e1 \<and> frame e1 = frame (set_col e 0) \<and> e_tables e1 = e_tables (set_col e 0))"
    using wf by (intro on_cursor_row_wf) (simp_all add: wrap_and_touch_def wf_row_def)
  then obtain e1 where e1: "on_cursor_row (set_col e 0) wrap_and_touch = Some e1" "wf_emu c r b e1"
    "frame e1 = frame (set_col e 0)"
    by (auto simp: runs_def)
  have "e_insert e' = e_insert e1 \<and> charset_active e' = charset_active e1 \<and> e_pen e' = e_pen e1 \<and>
      e_autowrap e' = e_autowrap e1"
    using cursor_down_keeps [OF e1(2), of False] e'(1) e1(1) by (simp add: autowrap_newline_def runs_def)
  then show ?thesis
    using e' own frameD [OF e1(3)] by (auto simp: charset_active_def set_col_def)
qed

lemma graphic_restyle: "e\<lparr>e_last_graphic := g\<rparr> = restyle (e_tables e) (e_pen_id e) g e"
  by (simp add: restyle_def)

lemma autowrap_graphic:
  assumes wf: "wf_emu c r b e" and e': "autowrap_newline e = Some e'"
  shows "autowrap_newline (e\<lparr>e_last_graphic := g\<rparr>) = Some (e'\<lparr>e_last_graphic := g\<rparr>)"
  using autowrap_keeps [OF wf] e' autowrap_restyle [OF wf tables_le_refl, of "e_pen_id e" g]
  by (simp add: graphic_restyle)

lemma print_wraps:
  assumes wf: "wf_emu c r b e" and full: "s_col (scr e) = c" and plain: "\<not> charset_active e" "e_autowrap e"
    and x: "printable_ascii x" and e': "autowrap_newline e = Some e'"
  shows "print_byte uw e x = print_byte uw e' x"
proof -
  have w: "char_width uw (ucast x) = 1" using ascii_byte [OF x] by (simp add: char_width_def)
  have k: "wf_emu c r b e'" "s_col (scr e') = 0" "\<not> charset_active e'"
    using autowrap_keeps [OF wf] e' plain by auto
  show ?thesis
    using autowrap_graphic [OF wf e', of "Some (ucast x)"] w k plain full wfD(1,3) [OF wf] wfD(3) [OF k(1)]
    by (simp add: print_char_def map_charset_def make_room_def min_def)
qed

lemma print_at_margin:
  assumes wf: "wf_emu c r b e" and full: "s_col (scr e) = c" and plain: "\<not> charset_active e" "\<not> e_autowrap e"
    and x: "printable_ascii x"
  shows "print_byte uw e x = print_byte uw (set_col e (c - 1)) x"
proof -
  have w: "char_width uw (ucast x) = 1" using ascii_byte [OF x] by (simp add: char_width_def)
  show ?thesis
    using w plain full wfD(1,3) [OF wf]
    by (simp add: print_char_def map_charset_def make_room_def min_def usub_def)
qed

text \<open>Interning the pen before the character or with it comes to the same.\<close>

lemma make_room_restyle:
  assumes wf: "wf_emu c r b e" and le: "tables_le (e_tables e) t"
  shows "make_room (restyle t i g e) w = map_option (restyle t i g) (make_room e w)"
  using autowrap_restyle [OF wf le] by (simp add: make_room_def map_option_bind)

lemma make_room_keeps:
  assumes wf: "wf_emu c r b e"
  shows "\<exists>e'. make_room e 1 = Some e' \<and> e_tables e' = e_tables e \<and> e_pen e' = e_pen e \<and>
    e_pen_id e' = e_pen_id e \<and> e_last_graphic e' = e_last_graphic e"
  using autowrap_keeps [OF wf] wfD(1,3) [OF wf] by (auto simp: make_room_def usub_def set_col_def)

lemma print_interns:
  assumes wf: "wf_emu c r b e" and plain: "\<not> charset_active e" and x: "printable_ascii x"
  shows "print_byte uw e x = print_byte uw (fst (take_pen_id e)) x"
proof (cases "e_pen_id e")
  case (Some i)
  then show ?thesis by (simp add: take_pen_id_def)
next
  case None
  obtain t i where ti: "intern_pen (e_tables e) (e_pen e) = (t, i)" by fastforce
  have w: "char_width uw (ucast x) = 1" using ascii_byte [OF x] by (simp add: char_width_def)
  have wf': "wf_emu c r b (graphic x e)" using wf_last_graphic [OF wf ascii_scalar [OF x]] .
  have first: "fst (take_pen_id e) = restyle t (Some i) (e_last_graphic e) e"
    using None ti by (simp add: take_pen_id_def restyle_def)
  have le: "tables_le (e_tables e) t" using take_pen_id_wf(6) [OF wf] first by simp
  obtain e2 where e2: "make_room (graphic x e) 1 = Some e2" "e_tables e2 = e_tables e" "e_pen e2 = e_pen e"
    "e_pen_id e2 = None" "e_last_graphic e2 = Some (ucast x)"
    using make_room_keeps [OF wf'] None by auto
  let ?e3 = "restyle t (Some i) (Some (ucast x)) e2"
  have room: "make_room (restyle t (Some i) (Some (ucast x)) e) 1 = Some ?e3"
    using make_room_restyle [OF wf', of t "Some i" "Some (ucast x)" 1] le e2(1)
    by (simp add: graphic_restyle)
  have pens: "take_pen_id e2 = (?e3, i)" "take_pen_id ?e3 = (?e3, i)"
    using e2 ti by (simp_all add: take_pen_id_def restyle_def)
  have "graphic x (restyle t (Some i) (e_last_graphic e) e) = restyle t (Some i) (Some (ucast x)) e"
    by (simp add: restyle_def)
  moreover have "charset_active (restyle t (Some i) (e_last_graphic e) e) = charset_active e"
    by (simp add: restyle_def charset_active_def)
  moreover have "place_char e2 (ucast x) 1 = place_char ?e3 (ucast x) 1"
    unfolding place_char_def pens by simp
  ultimately show ?thesis
    using w plain e2(1) room wfD(1,3) [OF wf]
    by (simp add: print_char_def map_charset_def first min_def)
qed

subsection \<open>The bulk loop\<close>

lemma foldM_at_margin:
  assumes ready: "bulk_ready c r b p e" and full: "s_col (scr e) = c" and plain: "\<not> e_autowrap e"
    and xs: "xs \<noteq> []" "\<forall>x \<in> set xs. printable_ascii x"
  shows "foldM (print_byte uw) e xs = print_byte uw e (last xs)"
  using xs
proof (induction xs rule: rev_nonempty_induct)
  case (snoc x xs)
  have wf: "wf_emu c r b e" and ch: "\<not> charset_active e" and c: "0 < c"
    using ready wfD(12) by (auto simp: bulk_ready_def)
  let ?m = "set_col e (c - 1)" and ?y = "last xs"
  have m: "bulk_ready c r b p ?m" using ready c by (simp add: bulk_ready_def)
  have py: "printable_ascii ?y" "printable_ascii x" using snoc by simp_all
  have at: "print_byte uw e z = Some (set_col (edit (write_cells (c - 1) [ascii_cell p z]) (graphic z e)) c)"
    if "printable_ascii z" for z
    using print_at_margin [OF wf full ch plain that] print_char_fits [OF m _ that, of uw] c by simp
  let ?e1 = "set_col (edit (write_cells (c - 1) [ascii_cell p ?y]) (graphic ?y e)) c"
  have ready1: "bulk_ready c r b p ?e1"
    using bulk_ready_keeps [OF m _ py(1), of uw ?e1] print_at_margin [OF wf full ch plain py(1)] at [OF py(1)] c
    by simp
  have wf1: "wf_emu c r b ?e1" using ready1 by (simp add: bulk_ready_def)
  have m1: "bulk_ready c r b p (set_col ?e1 (c - 1))"
    using ready1 wf_set_col [OF wf1, of "c - 1"] by (simp add: bulk_ready_def)
  have plainy: "\<not> is_fragment (ascii_cell p ?y)"
    using and_bit_nonzero [of "ucast ?y :: u32" 31] bit_imp_le_length [of ?y 31]
    by (auto simp: is_fragment_def ascii_cell_def FRAGMENT_def bit_simps)
  have line: "cursor_line e < length (s_lines (scr e))" using cursor_line_less [OF wf] .
  have "edit (\<lambda>z. write_cells (c - 1) [ascii_cell p x] (write_cells (c - 1) [ascii_cell p ?y] z)) e =
      edit (write_cells (c - 1) [ascii_cell p x]) e"
    using write_cells_again [OF _ plainy, of "s_lines (scr e) ! cursor_line e" "c - 1" "ascii_cell p x"]
      cursor_row_width [OF wf] c
    by (simp add: edit_def)
  then have "print_byte uw ?e1 x = print_byte uw e x"
    using print_at_margin [OF wf1 _ _ _ py(2), of uw] print_char_fits [OF m1 _ py(2), of uw] at [OF py(2)]
      ch plain c line
    by (simp add: edit_edit)
  then show ?case using snoc at [OF py(1)] by (simp add: foldM_append)
qed simp

text \<open>One turn of the loop on a row with room, and the turns before it that only wrap.\<close>

lemma ascii_chunk_room:
  assumes wf: "wf_emu c r b e" and room: "s_col (scr e) < c" and xs: "xs \<noteq> []"
  shows "ascii_chunk p e xs =
    (let n = min (length xs) (c - s_col (scr e))
     in Some (set_col (edit (write_cells (s_col (scr e)) (map (ascii_cell p) (take n xs))) e)
          (s_col (scr e) + n), drop n xs))"
proof -
  let ?n = "min (length xs) (c - s_col (scr e))"
  have "on_cursor_row e (write_run p (s_col (scr e)) ?n xs) =
      Some (edit (write_cells (s_col (scr e)) (map (ascii_cell p) (take ?n xs))) e)"
    by (intro on_cursor_row_edit [OF wf _ refl]) (simp only: write_run_plain [OF min.cobounded1])
  then show ?thesis
    using room wfD(3) [OF wf] by (simp add: ascii_chunk_def ascii_wrap_def usub_def Let_def)
qed

lemma bulk_loop:
  assumes "bulk_ready c r b p e" and "xs \<noteq> []" and "\<forall>x \<in> set xs. printable_ascii x"
  shows "foldM (print_byte uw) e xs = ascii_loop p (graphic (last xs) e) xs"
  using assms
proof (induction "length xs" arbitrary: e xs rule: less_induct)
  case less
  have wf: "wf_emu c r b e" and ch: "\<not> charset_active e" and c: "0 < c" and cols: "e_cols e = c"
    using less.prems wfD(3,12) by (auto simp: bulk_ready_def)
  have pl: "printable_ascii (last xs)" using less.prems by simp
  have fits: "foldM (print_byte uw) e xs = ascii_loop p (graphic (last xs) e) xs"
    if e: "bulk_ready c r b p e" and room: "s_col (scr e) < c" for e
  proof -
    let ?n = "min (length xs) (c - s_col (scr e))" and ?col = "s_col (scr e)"
    let ?run = "take ?n xs"
    have ne: "?run \<noteq> []" using less.prems(2) room by simp
    have len: "length ?run = ?n" "?col + length ?run \<le> c" using room by (auto simp: min_def)
    let ?e1 = "set_col (edit (write_cells ?col (map (ascii_cell p) ?run)) (graphic (last ?run) e)) (?col + length ?run)"
    have head: "foldM (print_byte uw) e ?run = Some ?e1" and e1: "bulk_ready c r b p ?e1"
      using print_run_fits [OF e ne len(2)] less.prems(3) by (auto dest: in_set_takeD)
    have chunk: "ascii_chunk p (graphic (last xs) e) xs = Some (graphic (last xs) ?e1, drop ?n xs)"
      using ascii_chunk_room [OF wf_last_graphic [OF _ ascii_scalar [OF pl]], of c r b e xs p] e room less.prems(2) len(1)
      by (simp add: bulk_ready_def Let_def)
    have whole: "foldM (print_byte uw) e xs = foldM (print_byte uw) ?e1 (drop ?n xs)"
      using head foldM_append [of "print_byte uw" e ?run "drop ?n xs"] by simp
    show ?thesis
    proof (cases "drop ?n xs = []")
      case True
      then have "last ?run = last xs" by (metis append_Nil2 append_take_drop_id)
      then have "graphic (last xs) ?e1 = ?e1" by simp
      then show ?thesis
        using whole chunk True less.prems(2) by (simp add: ascii_loop.simps [of p "graphic _ e"] ascii_loop.simps [of p _ "[]"])
    next
      case False
      have "0 < ?n" using ne by simp
      then have shorter: "length (drop ?n xs) < length xs" using less.prems(2) by simp
      have "foldM (print_byte uw) ?e1 (drop ?n xs) = ascii_loop p (graphic (last (drop ?n xs)) ?e1) (drop ?n xs)"
        using less.prems(3) by (intro less.hyps [OF shorter e1 False]) (auto dest: in_set_dropD)
      then show ?thesis
        using whole chunk False less.prems(2) by (simp add: ascii_loop.simps [of p "graphic _ e"] last_drop)
    qed
  qed
  show ?case
  proof (cases "s_col (scr e) < c")
    case True
    then show ?thesis by (intro fits less.prems(1))
  next
    case False
    then have full: "s_col (scr e) = c" using wf_posD(4) [OF wf] by simp
    show ?thesis
    proof (cases "e_autowrap e")
      case True
      obtain e' where e': "autowrap_newline e = Some e'" "bulk_ready c r b p e'" "s_col (scr e') = 0"
        using autowrap_keeps [OF wf] less.prems(1) by (auto simp: bulk_ready_def)
      have wf': "wf_emu c r b e'" using e'(2) by (simp add: bulk_ready_def)
      have "foldM (print_byte uw) e xs = foldM (print_byte uw) e' xs"
        using print_wraps [OF wf full ch True _ e'(1)] less.prems(2,3) by (cases xs) simp_all
      moreover have "ascii_chunk p (graphic (last xs) e) xs = ascii_chunk p (graphic (last xs) e') xs"
        using autowrap_graphic [OF wf e'(1)] True full e'(3) c cols wfD(3) [OF wf']
        by (simp add: ascii_chunk_def ascii_wrap_def)
      then have "ascii_loop p (graphic (last xs) e) xs = ascii_loop p (graphic (last xs) e') xs"
        using less.prems(2) by (simp add: ascii_loop.simps [of p "graphic _ _"])
      ultimately show ?thesis using fits [OF e'(2)] e'(3) c by simp
    next
      case False
      let ?m = "set_col e (c - 1)"
      have m: "bulk_ready c r b p ?m" using less.prems(1) c by (simp add: bulk_ready_def)
      have wfm: "wf_emu c r b (graphic (last xs) ?m)"
        using wf_last_graphic [OF _ ascii_scalar [OF pl]] m by (simp add: bulk_ready_def)
      have "drop (length xs - 1) xs = [last xs]"
        using less.prems(2) by (cases xs rule: rev_cases) simp_all
      moreover have "\<not> c \<le> c - Suc 0" using c by simp
      ultimately have "ascii_chunk p (graphic (last xs) e) xs = ascii_chunk p (graphic (last xs) ?m) [last xs]"
        using full False c cols less.prems(2) by (simp add: ascii_chunk_def ascii_wrap_def usub_def Suc_leI)
      then have "ascii_loop p (graphic (last xs) e) xs = foldM (print_byte uw) ?m [last xs]"
        using less.prems(2) ascii_chunk_room [OF wfm, of "[last xs]" p] print_char_fits [OF m _ pl, of uw] c
        by (simp add: ascii_loop.simps [of p "graphic _ e"] ascii_loop.simps [of p _ "[]"] Let_def)
      then show ?thesis
        using foldM_at_margin [OF less.prems(1) full False less.prems(2,3)]
          print_at_margin [OF wf full ch False pl] by simp
    qed
  qed
qed

lemma print_ascii_run_chars:
  assumes wf: "wf_emu c r b e" and printable: "\<forall>x \<in> set run. printable_ascii x"
  shows "print_ascii_run uw e run = foldM (print_byte uw) e run"
proof (cases "e_insert e \<or> charset_active e \<or> run = []")
  case True
  then show ?thesis by (auto simp: print_ascii_run_def)
next
  case False
  then obtain x xs where run: "run = x # xs" by (cases run) auto
  note p = take_pen_id_wf [OF wf]
  have keep: "e_insert (fst (take_pen_id e)) = e_insert e" "charset_active (fst (take_pen_id e)) = charset_active e"
    by (auto simp: take_pen_id_def charset_active_def split: option.split prod.split)
  have ready: "bulk_ready c r b (snd (take_pen_id e)) (fst (take_pen_id e))"
    using p(1,4) keep False by (simp add: bulk_ready_def)
  have late: "take_pen_id (e\<lparr>e_last_graphic := g\<rparr>) =
      ((fst (take_pen_id e))\<lparr>e_last_graphic := g\<rparr>, snd (take_pen_id e))" for g
    by (auto simp: take_pen_id_def split: option.split prod.split)
  have "foldM (print_byte uw) e run = foldM (print_byte uw) (fst (take_pen_id e)) run"
    using print_interns [OF wf, of x uw] False printable run by simp
  then show ?thesis
    using bulk_loop [OF ready, of run uw] False printable
    by (simp add: print_ascii_run_def late)
qed

end
