(* ===== verification/Replay_Snapshot.thy ===== *)
theory Replay_Snapshot
  imports Replay_Perform
begin

text \<open>
  The viewport snapshot of \<open>src/src/screen_replay/emulator.rs\<close>.  A result has two levels: the
  outer \<open>None\<close> is a panic, the inner one the refusal when the text passes the limit.
\<close>

definition USIZE_MAX :: nat where "USIZE_MAX = 2 ^ 64 - 1"

text \<open>\<open>ESC [ ...\<close>, and the final byte of a mode sequence.\<close>

definition csi_bytes :: "bytes \<Rightarrow> bytes" where
  "csi_bytes body = [0x1b, 0x5b] @ body"

definition set_or_reset :: "bool \<Rightarrow> bytes" where
  "set_or_reset on = (if on then ascii ''h'' else ascii ''l'')"

definition cursor_to :: "nat \<Rightarrow> nat \<Rightarrow> bytes" where
  "cursor_to line col = csi_bytes (dec line @ [0x3b] @ dec col @ ascii ''H'')"

definition link_open :: "tables \<Rightarrow> nat \<Rightarrow> bytes option" where
  "link_open t link =
     do { target \<leftarrow> (if link = 0 then Some [0x3b] else link_at t link);
          Some ([0x1b, 0x5d, 0x38, 0x3b] @ target @ [0x1b, 0x5c]) }"

definition link_close :: bytes where
  "link_close = [0x1b, 0x5d, 0x38, 0x3b, 0x3b, 0x1b, 0x5c]"

definition snapshot_cell :: "tables \<Rightarrow> bytes \<times> pen \<Rightarrow> cell \<Rightarrow> (bytes \<times> pen) option" where
  "snapshot_cell t st c =
     (case st of (out, pen) \<Rightarrow>
        do { next \<leftarrow> pen_at t (c_pen c);
             out1 \<leftarrow> (if pen_link pen \<noteq> pen_link next
                     then do { l \<leftarrow> link_open t (pen_link next); Some (out @ l) } else Some out);
             let out2 = write_sgr_transition out1 pen next;
             txt \<leftarrow> (if is_tab_head c \<or> is_tab_head_fragment c then Some [0x20]
                    else push_cell_text t c);
             Some (out2 @ txt, next) })"

fun snapshot_cells :: "tables \<Rightarrow> nat \<Rightarrow> cell list \<Rightarrow> bytes \<times> pen \<Rightarrow> bytes option option" where
  "snapshot_cells t limit [] st = Some (Some (fst st))"
| "snapshot_cells t limit (c # cs) st =
     (if is_fragment c \<and> \<not> is_tab_head_fragment c then snapshot_cells t limit cs st
      else do { st' \<leftarrow> snapshot_cell t st c;
                if limit < length (fst st') then Some None else snapshot_cells t limit cs st' })"

fun snapshot_rows ::
  "tables \<Rightarrow> nat \<Rightarrow> nat \<Rightarrow> nat \<Rightarrow> row list \<Rightarrow> bytes \<Rightarrow> bytes option option" where
  "snapshot_rows t cols limit line [] out = Some (Some out)"
| "snapshot_rows t cols limit line (r # rs) out =
     do { let out1 = out @ cursor_to (line + 1) 1 @ csi_bytes (ascii ''0m'');
          len \<leftarrow> visible_len t r;
          result \<leftarrow> snapshot_cells t limit (take (min len cols) (r_cells r)) (out1, pen_default);
          case result of
            None \<Rightarrow> Some None
          | Some out2 \<Rightarrow>
              (if limit < length (out2 @ link_close) then Some None
               else snapshot_rows t cols limit (line + 1) rs (out2 @ link_close)) }"

text \<open>The cell a parked cursor follows: the head at or before the last column.\<close>

fun parked_head :: "cell list \<Rightarrow> nat \<Rightarrow> nat" where
  "parked_head cells 0 = 0"
| "parked_head cells (Suc i) =
     (if Suc i < length cells \<and> is_fragment (cells ! Suc i) then parked_head cells i else Suc i)"

definition snapshot_cursor :: "emulator \<Rightarrow> bytes \<Rightarrow> screen \<Rightarrow> nat \<Rightarrow> nat \<Rightarrow> pen \<Rightarrow> bool \<Rightarrow>
    bool \<times> bool \<Rightarrow> bool \<Rightarrow> bytes option" where
  "snapshot_cursor e out s row col pen origin charsets shift_out =
     do { let t = e_tables e;
          let display_row = (if origin then row - e_top e else row);
          last_col \<leftarrow> usub (e_cols e) 1;
          let out1 = out
            @ csi_bytes (dec (e_top e + 1) @ [0x3b] @ dec (e_bottom e + 1) @ ascii ''r'')
            @ csi_bytes (ascii ''?6'' @ set_or_reset origin)
            @ csi_bytes (ascii ''?7h'') @ csi_bytes (ascii ''4l'')
            @ [0x1b, 0x28, 0x42, 0x1b, 0x29, 0x42, 0x0f] @ csi_bytes (ascii ''0m'')
            @ cursor_to (display_row + 1) (min col last_col + 1);
          (out2, before) \<leftarrow>
            (if e_cols e \<le> col then
               do { base \<leftarrow> history_len s;
                    last_row \<leftarrow> usub (s_rows s) 1;
                    line \<leftarrow> index (s_lines s) (base + min row last_row);
                    let cells = r_cells line;
                    let at = parked_head cells last_col;
                    let placed = out1 @ cursor_to (display_row + 1) (at + 1);
                    if at < length cells then
                      do { p \<leftarrow> pen_at t (c_pen (cells ! at));
                           txt \<leftarrow> push_cell_text t (cells ! at);
                           Some (write_sgr_transition placed pen_default p @ txt, p) }
                    else Some (placed @ [0x20], pen_default) }
             else Some (out1, pen_default));
          let out3 = write_sgr_transition out2 before pen;
          l \<leftarrow> link_open t (pen_link pen);
          Some (out3 @ l
            @ [0x1b, 0x28, if fst charsets then 0x30 else 0x42]
            @ [0x1b, 0x29, if snd charsets then 0x30 else 0x42]
            @ [if shift_out then 0x0e else 0x0f]) }"

definition keyboard_pushes :: "u8 list \<Rightarrow> bytes" where
  "keyboard_pushes stack =
     concat (map (\<lambda>flags. csi_bytes (ascii ''>'' @ dec (unat flags) @ ascii ''u'')) stack)"

text \<open>One pass of the loop over the two screens.\<close>

definition snapshot_screen :: "emulator \<Rightarrow> nat \<Rightarrow> bool \<Rightarrow> bytes \<Rightarrow> bytes option option" where
  "snapshot_screen e limit alt out0 =
     do { let out1 = (if alt then out0 @ csi_bytes (ascii ''?47h'') @ csi_bytes (ascii ''2J'')
                      else out0)
            @ csi_bytes (ascii ''?6l'') @ csi_bytes (ascii ''?7l'') @ csi_bytes (ascii ''4l'')
            @ [0x1b, 0x28, 0x42, 0x1b, 0x29, 0x42, 0x0f];
          let s = (if alt then e_alternate e else e_normal e);
          history \<leftarrow> history_len s;
          result \<leftarrow> snapshot_rows (e_tables e) (e_cols e) limit 0 (drop history (s_lines s)) out1;
          case result of
            None \<Rightarrow> Some None
          | Some out2 \<Rightarrow>
              (let sv = s_saved s in
               do { out3 \<leftarrow> snapshot_cursor e out2 s (sv_row sv) (sv_col sv) (sv_pen sv)
                              (sv_origin sv) (sv_charsets sv) (sv_shift_out sv);
                    Some (Some (out3 @ [0x1b, 0x37]
                      @ keyboard_pushes (screen_stack (e_keyboard e) alt))) }) }"

definition tabstop_bytes :: "bool list \<Rightarrow> bytes" where
  "tabstop_bytes stops =
     concat (map (\<lambda>(col, on). if on then cursor_to 1 (col + 1) @ [0x1b, 0x48] else [])
       (enumerate 0 stops))"

definition live_mode_bytes :: "bool list \<Rightarrow> bytes" where
  "live_mode_bytes modes =
     concat (map (\<lambda>(mode, on).
         if mode \<noteq> 2026 then csi_bytes (ascii ''?'' @ dec (nat mode) @ set_or_reset on) else [])
       (zip LIVE_MODES modes))"

definition snapshot_ansi_with_limit :: "emulator \<Rightarrow> nat \<Rightarrow> bytes option option" where
  "snapshot_ansi_with_limit e limit =
     do { let out0 = csi_bytes (ascii ''?2026l'') @ [0x1b, 0x63] @ csi_bytes (ascii ''?7l'')
            @ csi_bytes (ascii ''?6l'') @ csi_bytes (ascii ''4l'');
          normal \<leftarrow> snapshot_screen e limit False out0;
          both \<leftarrow> (case normal of None \<Rightarrow> Some None
                  | Some out1 \<Rightarrow> snapshot_screen e limit True out1);
          case both of
            None \<Rightarrow> Some None
          | Some out2 \<Rightarrow>
              do { keypad \<leftarrow> index (e_live_modes e) 2;
                   sync \<leftarrow> index (e_live_modes e) 11;
                   let out3 = (if e_active e then out2 else out2 @ csi_bytes (ascii ''?47l''))
                     @ csi_bytes (ascii ''3g'') @ tabstop_bytes (e_tabstops e)
                     @ csi_bytes (dec (e_top e + 1) @ [0x3b] @ dec (e_bottom e + 1) @ ascii ''r'')
                     @ csi_bytes (ascii ''?6'' @ set_or_reset (e_origin e))
                     @ csi_bytes (ascii ''?7'' @ set_or_reset (e_autowrap e))
                     @ csi_bytes (ascii ''4'' @ set_or_reset (e_insert e))
                     @ csi_bytes (ascii ''?69'' @ set_or_reset (e_lr_margins e))
                     @ live_mode_bytes (e_live_modes e)
                     @ [0x1b, if keypad then 0x3d else 0x3e]
                     @ csi_bytes (dec (unat (e_cursor_style e)) @ ascii '' q'');
                   out4 \<leftarrow> snapshot_cursor e out3 (scr e) (s_row (scr e)) (s_col (scr e)) (e_pen e)
                     (e_origin e) (e_charsets e) (e_shift_out e);
                   let out5 = out4 @ csi_bytes (ascii ''?7'' @ set_or_reset (e_autowrap e))
                     @ csi_bytes (ascii ''4'' @ set_or_reset (e_insert e))
                     @ (if sync then csi_bytes (ascii ''?2026h'') else []);
                   Some (if length out5 \<le> limit then Some out5 else None) } }"

text \<open>\<open>snapshot_ansi\<close>: the refusal would be an \<open>expect\<close> failure, a panic.\<close>

definition emulator_snapshot :: "emulator \<Rightarrow> bytes option" where
  "emulator_snapshot e =
     do { result \<leftarrow> snapshot_ansi_with_limit e USIZE_MAX; result }"

end
