(* ===== verification/Screen_Replay.thy ===== *)
theory Screen_Replay
  imports Replay_Snapshot
begin

text \<open>
  The public interface of \<open>src/src/screen_replay/mod.rs\<close>: feeding a stream, resizing, finishing,
  the two output formats, and the scans of a captured byte stream.
\<close>

subsection \<open>The replay\<close>

definition DEFAULT_CELL_BUDGET :: nat where "DEFAULT_CELL_BUDGET = 2 * 1024 * 1024"
definition MAX_COLS :: nat where "MAX_COLS = 4096"
definition MAX_ROWS :: nat where "MAX_ROWS = 1024"

record screen_replay =
  sr_parser :: parser
  sr_emulator :: emulator

definition with_budget :: "nat \<Rightarrow> nat \<Rightarrow> nat \<Rightarrow> screen_replay option" where
  "with_budget cols0 rows0 budget =
     do { cols \<leftarrow> clamp cols0 1 MAX_COLS;
          rows \<leftarrow> clamp rows0 1 MAX_ROWS;
          e \<leftarrow> emulator_new cols rows budget;
          Some \<lparr>sr_parser = parser_new, sr_emulator = e\<rparr> }"

definition replay_new :: "nat \<Rightarrow> nat \<Rightarrow> screen_replay option" where
  "replay_new cols rows = with_budget cols rows DEFAULT_CELL_BUDGET"

text \<open>The parser's callbacks are its events, performed in order.\<close>

definition feed ::
  "(u32 \<Rightarrow> nat option) \<Rightarrow> screen_replay \<Rightarrow> bytes \<Rightarrow> screen_replay option" where
  "feed uw sr bs =
     (let (p, events) = advance (sr_parser sr) bs
      in do { e \<leftarrow> foldM (perform uw) (sr_emulator sr) events;
              Some \<lparr>sr_parser = p, sr_emulator = e\<rparr> })"

definition snapshot_ansi :: "screen_replay \<Rightarrow> bytes option" where
  "snapshot_ansi sr =
     do { body \<leftarrow> emulator_snapshot (sr_emulator sr); Some (body @ continuation (sr_parser sr)) }"

definition snapshot_ansi_bounded :: "screen_replay \<Rightarrow> nat \<Rightarrow> bytes option option" where
  "snapshot_ansi_bounded sr max_bytes =
     do { result \<leftarrow> snapshot_ansi_with_limit (sr_emulator sr) max_bytes;
          Some (case result of
              None \<Rightarrow> None
            | Some body \<Rightarrow>
                (let rest = continuation (sr_parser sr)
                 in if max_bytes < length body + length rest then None else Some (body @ rest))) }"

definition replay_resize :: "screen_replay \<Rightarrow> nat \<Rightarrow> nat \<Rightarrow> screen_replay option" where
  "replay_resize sr cols0 rows0 =
     do { cols \<leftarrow> clamp cols0 1 MAX_COLS;
          rows \<leftarrow> clamp rows0 1 MAX_ROWS;
          e \<leftarrow> emulator_resize (sr_emulator sr) cols rows;
          Some (sr\<lparr>sr_emulator := e\<rparr>) }"

subsection \<open>Finishing\<close>

record replay =
  rp_rows :: "row list"
  rp_cols :: nat
  rp_tables :: tables
  rp_head_dropped :: bool

definition row_is_used :: "tables \<Rightarrow> row \<Rightarrow> bool option" where
  "row_is_used t r = (if r_touched r then Some True else row_is_visible t r)"

text \<open>\<open>position\<close> and \<open>rposition\<close> with a test that can panic.\<close>

fun find_first :: "('a \<Rightarrow> bool option) \<Rightarrow> 'a list \<Rightarrow> nat option option" where
  "find_first p [] = Some None"
| "find_first p (x # xs) =
     do { b \<leftarrow> p x;
          if b then Some (Some 0)
          else do { i \<leftarrow> find_first p xs; Some (map_option Suc i) } }"

fun find_last_rev :: "('a \<Rightarrow> bool option) \<Rightarrow> 'a list \<Rightarrow> nat option option" where
  "find_last_rev p [] = Some None"
| "find_last_rev p (x # rev_xs) =
     do { b \<leftarrow> p x; if b then Some (Some (length rev_xs)) else find_last_rev p rev_xs }"

definition clear_last_wrap :: "row list \<Rightarrow> row list" where
  "clear_last_wrap rows =
     (if rows = [] then [] else butlast rows @ [(last rows)\<lparr>r_wrapped := False\<rparr>])"

definition finish :: "screen_replay \<Rightarrow> replay option" where
  "finish sr =
     do { let e = sr_emulator sr;
          let lines = s_lines (e_normal e);
          first_used \<leftarrow> find_first (row_is_used (e_tables e)) lines;
          let first = (case first_used of Some i \<Rightarrow> i | None \<Rightarrow> length lines);
          last_visible_row \<leftarrow> find_last_rev (row_is_visible (e_tables e)) (rev lines);
          let past = (case last_visible_row of Some i \<Rightarrow> max (i + 1) first | None \<Rightarrow> first);
          Some \<lparr>rp_rows = clear_last_wrap (take (past - first) (drop first lines)),
            rp_cols = e_cols e, rp_tables = e_tables e, rp_head_dropped = e_head_dropped e\<rparr> }"

definition row_count :: "replay \<Rightarrow> nat" where
  "row_count rp = length (rp_rows rp)"

subsection \<open>Plain text\<close>

definition is_blank_byte :: "u8 \<Rightarrow> bool" where
  "is_blank_byte b \<longleftrightarrow> b = 0x20 \<or> b = 0x09"

definition trim_trailing_blanks :: "bytes \<Rightarrow> nat \<Rightarrow> bytes" where
  "trim_trailing_blanks out start =
     take start out @ rev (dropWhile is_blank_byte (rev (drop start out)))"

definition plain_cell :: "tables \<Rightarrow> cell \<Rightarrow> bytes option" where
  "plain_cell t c =
     (if is_fragment c then Some [] else if is_tab_head c then Some [0x09] else push_cell_text t c)"

definition plain_row :: "tables \<Rightarrow> row \<Rightarrow> bytes option" where
  "plain_row t r = map_option concat (mapM (plain_cell t) (r_cells r))"

fun plain_rows :: "tables \<Rightarrow> row list \<Rightarrow> bytes \<Rightarrow> nat \<Rightarrow> bytes option" where
  "plain_rows t [] out line_start = Some out"
| "plain_rows t (r # rs) out line_start =
     do { txt \<leftarrow> plain_row t r;
          let out1 = out @ txt;
          if r_wrapped r \<and> rs \<noteq> [] then plain_rows t rs out1 line_start
          else
            (let out2 = trim_trailing_blanks out1 line_start;
                 out3 = (if rs \<noteq> [] then out2 @ [0x0a] else out2)
             in plain_rows t rs out3 (length out3)) }"

definition to_plain :: "replay \<Rightarrow> bytes option" where
  "to_plain rp = plain_rows (rp_tables rp) (rp_rows rp) [] 0"

subsection \<open>Terminal output\<close>

record ansi_state =
  a_out :: bytes
  a_pen :: pen
  a_link :: nat
  a_skip :: nat

definition starts_wide :: "row \<Rightarrow> bool" where
  "starts_wide r \<longleftrightarrow>
     (case r_cells r of [] \<Rightarrow> False | c # _ \<Rightarrow> c_code c AND WIDE \<noteq> 0 \<and> \<not> is_fragment c)"

definition row_continued :: "nat \<Rightarrow> nat option \<Rightarrow> row \<Rightarrow> bool" where
  "row_continued cols prev_wrapped_len r \<longleftrightarrow>
     (case prev_wrapped_len of
        None \<Rightarrow> False
      | Some len \<Rightarrow> len = cols \<or> (starts_wide r \<and> len + 1 = cols))"

definition ansi_cell ::
  "tables \<Rightarrow> row \<Rightarrow> bool \<Rightarrow> ansi_state \<Rightarrow> nat \<times> cell \<Rightarrow> ansi_state option" where
  "ansi_cell t r continued st ic =
     (case ic of (col, c) \<Rightarrow>
        if col < a_skip st \<or> (is_fragment c \<and> \<not> is_tab_head_fragment c) then Some st
        else
          do { p \<leftarrow> pen_at t (c_pen c);
               st1 \<leftarrow> (if pen_link p \<noteq> a_link st then
                         do { l \<leftarrow> link_open t (pen_link p);
                              Some (st\<lparr>a_out := a_out st @ l, a_link := pen_link p\<rparr>) }
                       else Some st);
               let st2 = (if same_style (a_pen st1) p then st1
                          else st1\<lparr>a_out := write_sgr_transition (a_out st1) (a_pen st1) p, a_pen := p\<rparr>);
               width \<leftarrow> (if is_tab_head c then tab_width r col else Some 0);
               if 0 < width \<and> \<not> (continued \<and> col = 0) \<and> tab_ends_on_default_stop col width
               then Some (st2\<lparr>a_out := a_out st2 @ [0x09], a_skip := col + width\<rparr>)
               else
                 do { txt \<leftarrow> (if is_tab_head c \<or> is_tab_head_fragment c then Some [0x20]
                             else push_cell_text t c);
                      Some (st2\<lparr>a_out := a_out st2 @ txt\<rparr>) } })"

text \<open>A row's end: its link is closed, and a visible background does not reach the next row.\<close>

definition ansi_row_end :: "ansi_state \<Rightarrow> ansi_state" where
  "ansi_row_end st =
     (let st1 = (if a_link st \<noteq> 0 then st\<lparr>a_out := a_out st @ link_close, a_link := 0\<rparr> else st)
      in if pen_bg (a_pen st1) \<noteq> DefaultColor \<or> pen_flags (a_pen st1) AND REVERSE \<noteq> 0
         then st1\<lparr>a_out := write_sgr_transition (a_out st1) (a_pen st1) pen_default,
                  a_pen := pen_default\<rparr>
         else st1)"

fun ansi_rows :: "tables \<Rightarrow> nat \<Rightarrow> nat \<Rightarrow> nat option \<Rightarrow> row list \<Rightarrow> ansi_state \<Rightarrow> ansi_state option" where
  "ansi_rows t cols i prev [] st = Some st"
| "ansi_rows t cols i prev (r # rs) st =
     do { let continued = row_continued cols prev r;
          let st1 = (if 0 < i \<and> \<not> continued then st\<lparr>a_out := a_out st @ [0x0d, 0x0a]\<rparr> else st);
          past \<leftarrow> (if r_wrapped r then Some (length (r_cells r)) else visible_len t r);
          cells \<leftarrow> slice (r_cells r) 0 past;
          st2 \<leftarrow> foldM (ansi_cell t r continued) (st1\<lparr>a_skip := 0\<rparr>) (enumerate 0 cells);
          ansi_rows t cols (i + 1) (if r_wrapped r then Some past else None) rs (ansi_row_end st2) }"

definition to_ansi :: "replay \<Rightarrow> bytes option" where
  "to_ansi rp =
     do { st \<leftarrow> ansi_rows (rp_tables rp) (rp_cols rp) 0 None (rp_rows rp)
            \<lparr>a_out = [], a_pen = pen_default, a_link = 0, a_skip = 0\<rparr>;
          Some (if is_plain (a_pen st) then a_out st else a_out st @ [0x1b, 0x5b, 0x30, 0x6d]) }"

subsection \<open>Scanning a captured stream\<close>

datatype csi_scan = Needs | Unterminated | Plain bytes

definition screen_finals :: "u8 list" where
  "screen_finals = ascii ''@ABCDEFGHIfdJLMPSTXZ`ru''"

text \<open>
  \<open>csi_needs_screen_replay\<close>, on the suffix that starts at the parameters; \<open>Plain\<close> carries the
  suffix where scanning resumes.
\<close>

definition csi_needs_screen_replay :: "bytes \<Rightarrow> csi_scan" where
  "csi_needs_screen_replay body =
     (let private = (body \<noteq> [] \<and> 0x3c \<le> hd body \<and> hd body \<le> 0x3f);
          stops = (\<lambda>b. (0x40 \<le> b \<and> b \<le> 0x7e) \<or> b = 0x1b);
          params = takeWhile (\<lambda>b. \<not> stops b) body;
          rest = dropWhile (\<lambda>b. \<not> stops b) body
      in case rest of
           [] \<Rightarrow> Unterminated
         | fin # _ \<Rightarrow>
             (let intermediate = (\<exists>b \<in> set params. 0x20 \<le> b \<and> b \<le> 0x2f);
                  decsed = (private \<and> hd body = 0x3f \<and> fin = 0x4a)
              in if (\<not> private \<or> decsed) \<and> \<not> intermediate \<and> fin \<in> set screen_finals
                 then Needs else Plain rest))"

text \<open>What follows an ESC or a C2 byte: an answer, a CSI body, or neither.\<close>

datatype intro = IntroNeeds | IntroCsi bytes | IntroNone

definition introducer :: "u8 \<Rightarrow> bytes \<Rightarrow> intro" where
  "introducer b rest =
     (if b = 0xc2 then
        (case rest of
           [] \<Rightarrow> IntroNone
         | x # body \<Rightarrow>
             if x = 0x84 \<or> x = 0x85 \<or> x = 0x8d then IntroNeeds
             else if x = 0x9b then IntroCsi body else IntroNone)
      else
        (case rest of
           [] \<Rightarrow> IntroNone
         | x # body \<Rightarrow>
             if x = 0x44 \<or> x = 0x45 \<or> x = 0x4d \<or> x = 0x38 \<or> x = 0x63 then IntroNeeds
             else if x = 0x23 \<and> body \<noteq> [] \<and> hd body = 0x38 then IntroNeeds
             else if x = 0x5b then IntroCsi body else IntroNone))"

lemma csi_scan_suffix:
  "csi_needs_screen_replay body = Plain tail \<Longrightarrow> length tail \<le> length body"
  by (auto simp: csi_needs_screen_replay_def Let_def length_dropWhile_le
      split: list.splits if_splits)

lemma introducer_suffix: "introducer b rest = IntroCsi body \<Longrightarrow> length body < length rest"
  by (auto simp: introducer_def split: list.splits if_splits)

definition from_introducer :: "bytes \<Rightarrow> bytes" where
  "from_introducer bs = dropWhile (\<lambda>b. b \<noteq> 0x1b \<and> b \<noteq> 0xc2) bs"

lemma from_introducer_length: "length (from_introducer bs) \<le> length bs"
  by (simp add: from_introducer_def length_dropWhile_le)

function stream_needs_screen_replay :: "bytes \<Rightarrow> bool" where
  "stream_needs_screen_replay bs =
     (case from_introducer bs of
        [] \<Rightarrow> False
      | b # rest \<Rightarrow>
          (case introducer b rest of
             IntroNeeds \<Rightarrow> True
           | IntroNone \<Rightarrow> stream_needs_screen_replay rest
           | IntroCsi body \<Rightarrow>
               (case csi_needs_screen_replay body of
                  Needs \<Rightarrow> True
                | Unterminated \<Rightarrow> False
                | Plain tail \<Rightarrow> stream_needs_screen_replay tail)))"
  by pat_completeness auto
termination
proof (relation "measure length", goal_cases)
  case 1
  then show ?case by simp
next
  case (2 bs b rest body tail)
  have "length body < length rest" "length tail \<le> length body"
    using introducer_suffix csi_scan_suffix 2 by blast+
  then show ?case using from_introducer_length [of bs] 2(1) by simp
next
  case (3 bs b rest)
  then show ?case using from_introducer_length [of bs] by simp
qed

declare stream_needs_screen_replay.simps [simp del]

definition resync_ring_head :: "bytes \<Rightarrow> bytes" where
  "resync_ring_head bs =
     (let after_lf = map_option Suc (position (\<lambda>b. b = 0x0a) bs);
          esc_at = position (\<lambda>b. b = 0x1b) bs;
          start = (case esc_at of
              Some i \<Rightarrow> (case after_lf of Some l \<Rightarrow> min i l | None \<Rightarrow> i)
            | None \<Rightarrow>
                (case after_lf of
                   Some l \<Rightarrow> l
                 | None \<Rightarrow>
                     (case position (\<lambda>b. b AND 0xc0 \<noteq> 0x80) bs of
                        Some i \<Rightarrow> i | None \<Rightarrow> length bs)))
      in drop start bs)"

end
