(* ===== verification/Replay_Feed_Facts.thy ===== *)
theory Replay_Feed_Facts
  imports Screen_Replay Replay_Perform_Facts
begin

text \<open>
  The parser driving a handler of its callbacks (the trait \<open>Perform\<close> of
  \<open>src/src/screen_replay/parser.rs\<close>), as an interface: what a handler must promise for a whole
  stream to be processed without a panic, and for the chunks of a stream not to matter.  The
  emulator provides both promises.
\<close>

subsection \<open>The interface\<close>

definition drive :: "('s \<Rightarrow> event \<Rightarrow> 's option) \<Rightarrow> parser \<times> 's \<Rightarrow> bytes \<Rightarrow> (parser \<times> 's) option" where
  "drive step ps bs =
     (let (p, events) = advance (fst ps) bs
      in do { s \<leftarrow> foldM step (snd ps) events; Some (p, s) })"

text \<open>A handler that accepts every proper callback.\<close>

locale event_sink =
  fixes step :: "'s \<Rightarrow> event \<Rightarrow> 's option" and inv :: "'s \<Rightarrow> bool"
  assumes step_runs: "inv s \<Longrightarrow> event_ok ev \<Longrightarrow> runs (step s ev) inv"
begin

lemma events_run: "inv s \<Longrightarrow> list_all event_ok evs \<Longrightarrow> runs (foldM step s evs) inv"
  by (rule runs_foldM) (auto simp: list_all_iff intro: step_runs)

lemma drive_runs:
  assumes "parser_ok p" "inv s"
  shows "runs (drive step (p, s) bs) (\<lambda>(p', s'). parser_ok p' \<and> inv s')"
proof -
  have "parser_ok (fst (advance p bs))" "list_all event_ok (snd (advance p bs))"
    using advance_ok [OF assms(1), of bs] by (simp_all add: step_ok_def)
  then show ?thesis
    using events_run [OF assms(2)] by (auto simp: drive_def split_beta elim: runs_mono)
qed

lemma chunks_run:
  assumes "parser_ok p" "inv s"
  shows "runs (foldM (drive step) (p, s) chunks) (\<lambda>(p', s'). parser_ok p' \<and> inv s')"
  by (rule runs_foldM) (use assms drive_runs in auto)

end

text \<open>A handler for which a run of ASCII text is its characters, one at a time.\<close>

locale run_splitting_sink = event_sink +
  assumes run_split: "inv s \<Longrightarrow> event_ok ev \<Longrightarrow> step s ev = foldM step s (atomize ev)"
begin

lemma foldM_atoms: "inv s \<Longrightarrow> list_all event_ok evs \<Longrightarrow> foldM step s (atoms evs) = foldM step s evs"
proof (induction evs arbitrary: s)
  case Nil
  then show ?case by simp
next
  case (Cons ev evs)
  obtain t where t: "step s ev = Some t" "inv t"
    using step_runs [of s ev] Cons.prems by (auto simp: runs_def)
  have "foldM step s (atomize ev) = Some t" using run_split [of s ev] t(1) Cons.prems by simp
  then show ?case using t Cons.IH [of t] Cons.prems by (simp add: foldM_append)
qed

lemma drive_append:
  assumes p: "parser_ok p" and s: "inv s"
  shows "drive step (p, s) (xs @ ys) = (drive step (p, s) xs \<bind> (\<lambda>ps. drive step ps ys))"
proof -
  have same: "same_run (advance p (xs @ ys)) (continue (advance p xs) ys)"
    by (rule advance_append)
  have one: "parser_ok (fst (advance p xs))" "list_all event_ok (snd (advance p xs))"
    using advance_ok [OF p, of xs] by (simp_all add: step_ok_def)
  have two: "list_all event_ok (snd (advance (fst (advance p xs)) ys))"
    using advance_ok [OF one(1), of ys] by (simp add: step_ok_def)
  have all: "list_all event_ok (snd (advance p (xs @ ys)))"
    using advance_ok [OF p, of "xs @ ys"] by (simp add: step_ok_def)
  have both: "list_all event_ok (snd (continue (advance p xs) ys))"
    using one two by (simp add: continue_def)
  have "foldM step s (snd (advance p (xs @ ys))) = foldM step s (snd (continue (advance p xs) ys))"
    using same foldM_atoms [OF s all] foldM_atoms [OF s both] by (simp add: same_run_def)
  then show ?thesis
    using same by (simp add: drive_def split_beta same_run_def continue_def foldM_append bind_assoc)
qed

end

subsection \<open>The emulator is such a handler\<close>

interpretation emu: event_sink "perform uw" "wf_emu c r b" for uw c r b
  by unfold_locales (rule perform_wf)

lemma feed_drive:
  "feed uw sr bs = map_option (\<lambda>(p, e). \<lparr>sr_parser = p, sr_emulator = e\<rparr>)
     (drive (perform uw) (sr_parser sr, sr_emulator sr) bs)"
  by (simp add: feed_def drive_def split_beta map_conv_bind_option)

definition wf_replay :: "nat \<Rightarrow> nat \<Rightarrow> nat \<Rightarrow> screen_replay \<Rightarrow> bool" where
  "wf_replay c r b sr \<longleftrightarrow> parser_ok (sr_parser sr) \<and> wf_emu c r b (sr_emulator sr)"

lemma runs_map_option [simp]: "runs (map_option f m) P \<longleftrightarrow> runs m (\<lambda>x. P (f x))"
  by (cases m) auto

lemma feed_wf: "wf_replay c r b sr \<Longrightarrow> runs (feed uw sr bs) (wf_replay c r b)"
  using emu.drive_runs [of "sr_parser sr" c r b "sr_emulator sr" uw bs]
  by (auto simp: feed_drive wf_replay_def split_beta elim: runs_mono)

definition clamped :: "nat \<Rightarrow> nat \<Rightarrow> nat" where
  "clamped n most = max 1 (min n most)"

lemma clamped_bounds: "1 \<le> m \<Longrightarrow> 1 \<le> clamped n m \<and> clamped n m \<le> m"
  by (simp add: clamped_def)

lemma with_budget_wf:
  "runs (with_budget cols rows b) (wf_replay (clamped cols MAX_COLS) (clamped rows MAX_ROWS) b)"
  using emulator_new_wf [of "clamped cols MAX_COLS" "clamped rows MAX_ROWS" b]
  by (simp add: with_budget_def wf_replay_def clamped_def parser_ok_new MAX_COLS_def MAX_ROWS_def)

lemma replay_resize_wf:
  "wf_replay c r b sr \<Longrightarrow>
     runs (replay_resize sr cols rows) (wf_replay (clamped cols MAX_COLS) (clamped rows MAX_ROWS) b)"
  using emulator_resize_wf [of c r b "sr_emulator sr" "clamped cols MAX_COLS" "clamped rows MAX_ROWS"]
  by (simp add: replay_resize_def wf_replay_def clamped_def MAX_COLS_def MAX_ROWS_def)

subsection \<open>A session\<close>

text \<open>What an owner of a replay does between its creation and its end, in any order.\<close>

datatype action = Feed bytes | Resize nat nat

fun act :: "(u32 \<Rightarrow> nat option) \<Rightarrow> screen_replay \<Rightarrow> action \<Rightarrow> screen_replay option" where
  "act uw sr (Feed bs) = feed uw sr bs"
| "act uw sr (Resize cols rows) = replay_resize sr cols rows"

definition live_replay :: "nat \<Rightarrow> screen_replay \<Rightarrow> bool" where
  "live_replay b sr \<longleftrightarrow> (\<exists>c r. c \<le> MAX_COLS \<and> r \<le> MAX_ROWS \<and> wf_replay c r b sr)"

lemma live_replayI:
  "runs m (wf_replay (clamped cols MAX_COLS) (clamped rows MAX_ROWS) b) \<Longrightarrow> runs m (live_replay b)"
  by (erule runs_mono)
    (use clamped_bounds [of MAX_COLS] clamped_bounds [of MAX_ROWS] in
      \<open>auto simp: live_replay_def MAX_COLS_def MAX_ROWS_def\<close>)

lemma act_live: "live_replay b sr \<Longrightarrow> runs (act uw sr a) (live_replay b)"
proof (cases a)
  case (Feed bs)
  assume "live_replay b sr"
  then obtain c r where cr: "c \<le> MAX_COLS" "r \<le> MAX_ROWS" "wf_replay c r b sr"
    by (auto simp: live_replay_def)
  show ?thesis
    unfolding Feed act.simps
    by (rule runs_mono [OF feed_wf [OF cr(3)]]) (use cr(1,2) in \<open>unfold live_replay_def, blast\<close>)
next
  case (Resize cols rows)
  assume "live_replay b sr"
  then obtain c r where "wf_replay c r b sr" by (auto simp: live_replay_def)
  then show ?thesis
    using live_replayI [OF replay_resize_wf] Resize by simp
qed

lemma session_live:
  "runs (with_budget cols rows b) (\<lambda>sr. runs (foldM (act uw) sr actions) (live_replay b))"
  by (rule runs_mono [OF live_replayI [OF with_budget_wf]])
    (auto intro: runs_foldM act_live)

end
