(* ===== verification/Replay_Output_Facts.thy ===== *)
theory Replay_Output_Facts
  imports Replay_Feed_Facts
begin

text \<open>
  The outputs of a replay: finishing, plain text, terminal output and the viewport snapshot never
  panic on a state the emulator can reach, and what they promise about their text.
\<close>

subsection \<open>Visibility\<close>

lemma runs_cell_is_visible [simp]: "wf_cell t c \<Longrightarrow> runs (cell_is_visible t c) (\<lambda>_. True)"
  by (simp add: cell_is_visible_def wf_cell_def)

lemma last_visible_runs:
  "\<forall>c \<in> set cs. wf_cell t c \<Longrightarrow>
     runs (last_visible t cs) (\<lambda>i. \<forall>k. i = Some k \<longrightarrow> k < length cs)"
proof (induction cs)
  case (Cons c cs)
  have rest: "runs (last_visible t cs) (\<lambda>i. \<forall>k. i = Some k \<longrightarrow> k < length (c # cs))"
    using Cons by (auto elim!: runs_mono)
  have "runs (cell_is_visible t c) (\<lambda>v. runs (if v then Some (Some (length cs)) else last_visible t cs)
      (\<lambda>i. \<forall>k. i = Some k \<longrightarrow> k < length (c # cs)))"
    by (rule runs_mono [of _ "\<lambda>_. True"]) (use Cons.prems rest in auto)
  then show ?case using rest by simp
qed simp

lemma fragments_end_le: "e \<le> length cells \<Longrightarrow> fragments_end cells e \<le> length cells"
  using length_takeWhile_le [of "\<lambda>c. c_code c = FRAGMENT" "drop e cells"]
  by (simp add: fragments_end_def)

lemma visible_len_runs:
  "wf_row t c r \<Longrightarrow> runs (visible_len t r) (\<lambda>n. n \<le> length (r_cells r))"
  using last_visible_runs [of "rev (r_cells r)" t]
  by (auto simp: visible_len_def wf_row_def fragments_end_le Suc_le_eq elim!: runs_mono
      split: option.split)

lemma row_is_visible_runs: "wf_row t c r \<Longrightarrow> runs (row_is_visible t r) (\<lambda>_. True)"
  using runs_mono [OF visible_len_runs [of t c r]] by (simp add: row_is_visible_def)

lemma row_is_used_runs: "wf_row t c r \<Longrightarrow> runs (row_is_used t r) (\<lambda>_. True)"
  by (simp add: row_is_used_def row_is_visible_runs)

subsection \<open>Finishing\<close>

text \<open>The first and the last element with a property, and that there is none.\<close>

definition is_first :: "('a \<Rightarrow> bool option) \<Rightarrow> 'a list \<Rightarrow> nat option \<Rightarrow> bool" where
  "is_first p xs i \<longleftrightarrow>
     (case i of
        None \<Rightarrow> \<forall>x \<in> set xs. p x = Some False
      | Some k \<Rightarrow> k < length xs \<and> p (xs ! k) = Some True \<and> (\<forall>j < k. p (xs ! j) = Some False))"

definition is_last :: "('a \<Rightarrow> bool option) \<Rightarrow> 'a list \<Rightarrow> nat option \<Rightarrow> bool" where
  "is_last p xs i \<longleftrightarrow>
     (case i of
        None \<Rightarrow> \<forall>x \<in> set xs. p x = Some False
      | Some k \<Rightarrow> k < length xs \<and> p (xs ! k) = Some True \<and>
          (\<forall>j < length xs. k < j \<longrightarrow> p (xs ! j) = Some False))"

lemma is_first_Cons:
  "p x = Some False \<Longrightarrow> is_first p xs i \<Longrightarrow> is_first p (x # xs) (map_option Suc i)"
  by (auto simp: is_first_def nth_Cons split: option.splits nat.split)

lemma is_last_snoc:
  "p x = Some False \<Longrightarrow> is_last p xs i \<Longrightarrow> is_last p (xs @ [x]) i"
  by (auto simp: is_last_def nth_append less_Suc_eq split: option.splits)

lemma find_first_runs:
  assumes "\<forall>x \<in> set xs. runs (p x) (\<lambda>_. True)"
  shows "runs (find_first p xs) (is_first p xs)"
  using assms
proof (induction xs)
  case Nil
  then show ?case by (simp add: is_first_def)
next
  case (Cons x xs)
  then obtain b where b: "p x = Some b" by (auto simp: runs_def)
  have "runs (find_first p xs) (is_first p xs)" using Cons by simp
  then have "runs (find_first p xs) (\<lambda>i. \<not> b \<longrightarrow> is_first p (x # xs) (map_option Suc i))"
    by (rule runs_mono) (simp add: is_first_Cons b)
  moreover have "b \<Longrightarrow> is_first p (x # xs) (Some 0)" by (simp add: is_first_def b)
  ultimately show ?case by (cases b) (simp_all add: b)
qed

lemma find_last_runs:
  assumes "\<forall>x \<in> set xs. runs (p x) (\<lambda>_. True)"
  shows "runs (find_last_rev p (rev xs)) (is_last p xs)"
  using assms
proof (induction xs rule: rev_induct)
  case Nil
  then show ?case by (simp add: is_last_def)
next
  case (snoc x xs)
  then obtain b where b: "p x = Some b" by (auto simp: runs_def)
  have "runs (find_last_rev p (rev xs)) (is_last p xs)" using snoc by simp
  then have "runs (find_last_rev p (rev xs)) (\<lambda>i. \<not> b \<longrightarrow> is_last p (xs @ [x]) i)"
    by (rule runs_mono) (simp add: is_last_snoc b)
  moreover have "b \<Longrightarrow> is_last p (xs @ [x]) (Some (length xs))" by (simp add: is_last_def b)
  ultimately show ?case by (cases b) (simp_all add: b)
qed

definition wf_output :: "nat \<Rightarrow> replay \<Rightarrow> bool" where
  "wf_output c rp \<longleftrightarrow>
     rp_cols rp = c \<and> wf_tables (rp_tables rp) \<and> (\<forall>r \<in> set (rp_rows rp). wf_row (rp_tables rp) c r)"

lemma set_clear_last_wrap:
  "x \<in> set (clear_last_wrap rows) \<Longrightarrow> \<exists>y \<in> set rows. x = y \<or> x = y\<lparr>r_wrapped := False\<rparr>"
  by (auto simp: clear_last_wrap_def split: if_splits dest: in_set_butlastD)

lemma length_clear_last_wrap [simp]: "length (clear_last_wrap rows) = length rows"
  by (simp add: clear_last_wrap_def)

text \<open>The output is a window of the normal screen's rows, whose last row does not wrap.\<close>

definition window :: "row list \<Rightarrow> nat \<Rightarrow> nat \<Rightarrow> row list" where
  "window rows first past = clear_last_wrap (take (past - first) (drop first rows))"

lemma finish_runs:
  assumes wf: "wf_emu c r b (sr_emulator sr)"
  defines "lines \<equiv> s_lines (e_normal (sr_emulator sr))" and "t \<equiv> e_tables (sr_emulator sr)"
  shows "runs (finish sr) (\<lambda>rp. wf_output c rp \<and> rp_tables rp = t \<and>
    (\<exists>first past. first \<le> past \<and> past \<le> length lines \<and> rp_rows rp = window lines first past \<and>
       (\<forall>i < first. row_is_used t (lines ! i) = Some False) \<and>
       (first < length lines \<longrightarrow> row_is_used t (lines ! first) = Some True) \<and>
       (\<forall>i < length lines. past \<le> i \<longrightarrow> row_is_visible t (lines ! i) = Some False) \<and>
       (first < past \<longrightarrow> row_is_visible t (lines ! (past - 1)) = Some True)))"
proof -
  let ?e = "sr_emulator sr"
  have n: "wf_scr t c r b False (e_normal ?e)" and core: "wf_core c r b ?e"
    using wf by (simp_all add: wf_emu_def t_def)
  have rows: "\<forall>x \<in> set lines. wf_row t c x"
    using wf_screenD(5) [OF wf_scr_screen [OF n]] by (auto simp: lines_def)
  have "runs (find_first (row_is_used t) lines) (is_first (row_is_used t) lines)"
    using rows by (intro find_first_runs) (auto intro: row_is_used_runs)
  then obtain ff where ff: "find_first (row_is_used t) lines = Some ff"
    "is_first (row_is_used t) lines ff" by (auto simp: runs_def)
  have "runs (find_last_rev (row_is_visible t) (rev lines)) (is_last (row_is_visible t) lines)"
    using rows by (intro find_last_runs) (auto intro: row_is_visible_runs)
  then obtain fl where fl: "find_last_rev (row_is_visible t) (rev lines) = Some fl"
    "is_last (row_is_visible t) lines fl" by (auto simp: runs_def)
  obtain first where first: "first = (case ff of Some i \<Rightarrow> i | None \<Rightarrow> length lines)" by blast
  obtain past where past: "past = (case fl of Some i \<Rightarrow> max (i + 1) first | None \<Rightarrow> first)" by blast
  have eq: "finish sr = Some \<lparr>rp_rows = window lines first past,
            rp_cols = e_cols ?e, rp_tables = t, rp_head_dropped = e_head_dropped ?e\<rparr>"
    using ff(1) fl(1)
    by (cases ff; cases fl) (simp_all add: finish_def Let_def lines_def t_def first past window_def)
  have unused: "row_is_used t (lines ! i) = Some False" if "i < first" for i
    using ff(2) that by (auto simp: first is_first_def split: option.splits)
  have used: "row_is_used t (lines ! first) = Some True" if "first < length lines"
    using ff(2) that by (auto simp: first is_first_def split: option.splits)
  have fle: "first \<le> length lines" using ff(2) by (auto simp: first is_first_def split: option.splits)
  have vis_used: "row_is_visible t x = Some True \<Longrightarrow> row_is_used t x = Some True" for x
    by (simp add: row_is_used_def)
  have last: "first \<le> k \<and> past = k + 1" if k: "fl = Some k" for k
  proof -
    have "row_is_visible t (lines ! k) = Some True" using fl(2) k by (simp add: is_last_def)
    then have "\<not> k < first" using unused [of k] vis_used [of "lines ! k"] by auto
    then show ?thesis using k by (simp add: past)
  qed
  have bounds: "first \<le> past \<and> past \<le> length lines"
  proof (cases fl)
    case None
    then show ?thesis using fle by (simp add: past)
  next
    case (Some k)
    then have "k < length lines" using fl(2) by (simp add: is_last_def)
    then show ?thesis using last [OF Some] by simp
  qed
  have hidden: "row_is_visible t (lines ! i) = Some False" if "i < length lines" "past \<le> i" for i
    using fl(2) last that by (cases fl) (auto simp: past is_last_def)
  have shown: "row_is_visible t (lines ! (past - 1)) = Some True" if "first < past"
    using fl(2) last that by (cases fl) (auto simp: past is_last_def)
  have "wf_row t c x" if "x \<in> set (window lines first past)" for x
    using set_clear_last_wrap [of x] that rows
    by (force simp: window_def dest: in_set_takeD in_set_dropD)
  then have "wf_output c \<lparr>rp_rows = window lines first past,
            rp_cols = e_cols ?e, rp_tables = t, rp_head_dropped = e_head_dropped ?e\<rparr>"
    using core by (simp add: wf_output_def wf_core_def t_def)
  then show ?thesis
    unfolding eq runs_Some using unused used bounds hidden shown by auto
qed

subsection \<open>Plain text\<close>

lemma plain_row_runs: "wf_row t c r \<Longrightarrow> runs (plain_row t r) (\<lambda>_. True)"
proof -
  assume wf: "wf_row t c r"
  have "runs (plain_cell t x) (\<lambda>_. True)" if "x \<in> set (r_cells r)" for x
    using wf that by (simp add: plain_cell_def wf_row_def)
  then have "runs (mapM (plain_cell t) (r_cells r)) (list_all2 (\<lambda>_ _. True) (r_cells r))"
    by (rule runs_mapM)
  then show ?thesis by (auto simp: plain_row_def elim: runs_mono)
qed

lemma plain_rows_runs:
  "\<forall>r \<in> set rs. wf_row t c r \<Longrightarrow> runs (plain_rows t rs out start) (\<lambda>_. True)"
proof (induction rs arbitrary: out start)
  case (Cons r rs)
  then show ?case
    using plain_row_runs [of t c r] by (auto simp: Let_def elim!: runs_mono)
qed simp

text \<open>
  The reference for plain text: the rows grouped into logical lines (a row that wraps continues
  on the next one), the text of each line without its trailing blanks, joined by line feeds.
\<close>

fun logical_lines :: "row list \<Rightarrow> row list list" where
  "logical_lines [] = []"
| "logical_lines (r # rs) =
     (if r_wrapped r
      then (case logical_lines rs of [] \<Rightarrow> [[r]] | g # gs \<Rightarrow> (r # g) # gs)
      else [r] # logical_lines rs)"

definition line_text :: "tables \<Rightarrow> row list \<Rightarrow> bytes option" where
  "line_text t g = map_option concat (mapM (plain_row t) g)"

definition rtrim :: "bytes \<Rightarrow> bytes" where
  "rtrim line = rev (dropWhile is_blank_byte (rev line))"

fun join_lines :: "bytes list \<Rightarrow> bytes" where
  "join_lines [] = []"
| "join_lines [l] = l"
| "join_lines (l # m # ls) = l @ 0x0a # join_lines (m # ls)"

definition plain_reference :: "tables \<Rightarrow> row list \<Rightarrow> bytes option" where
  "plain_reference t rows = map_option (join_lines \<circ> map rtrim) (mapM (line_text t) (logical_lines rows))"

lemma trim_rtrim: "trim_trailing_blanks (pre @ cur) (length pre) = pre @ rtrim cur"
  by (simp add: trim_trailing_blanks_def rtrim_def)

lemma logical_lines_eq_Nil [simp]: "logical_lines rs = [] \<longleftrightarrow> rs = []"
  by (cases rs) (auto split: list.split)

lemma line_text_Cons: "line_text t (r # g) = do { x \<leftarrow> plain_row t r; y \<leftarrow> line_text t g; Some (x @ y) }"
  by (cases "plain_row t r"; cases "mapM (plain_row t) g") (simp_all add: line_text_def)

text \<open>The text of an open line, in front of the lines that follow.\<close>

definition before_first :: "bytes \<Rightarrow> bytes list \<Rightarrow> bytes list" where
  "before_first cur ls = (case ls of [] \<Rightarrow> [] | l # ls' \<Rightarrow> (cur @ l) # ls')"

lemma mapM_length: "mapM f xs = Some ys \<Longrightarrow> length ys = length xs"
  by (induction xs arbitrary: ys) (auto split: bind_splits)

lemma lines_single:
  "mapM (line_text t) (logical_lines [r]) = map_option (\<lambda>x. [x]) (plain_row t r)"
  by (cases "plain_row t r") (simp_all add: line_text_def)

lemma lines_wrapped:
  assumes "r_wrapped r" "rs \<noteq> []"
  shows "mapM (line_text t) (logical_lines (r # rs)) =
    do { x \<leftarrow> plain_row t r; ls \<leftarrow> mapM (line_text t) (logical_lines rs); Some (before_first x ls) }"
proof -
  obtain g gs where "logical_lines rs = g # gs" using assms(2) by (cases "logical_lines rs") auto
  then show ?thesis
    using assms(1)
    by (cases "plain_row t r"; cases "line_text t g"; cases "mapM (line_text t) gs")
      (simp_all add: line_text_Cons before_first_def)
qed

lemma plain_rows_reference:
  "rs \<noteq> [] \<Longrightarrow> plain_rows t rs (pre @ cur) (length pre) =
     do { ls \<leftarrow> mapM (line_text t) (logical_lines rs);
          Some (pre @ join_lines (map rtrim (before_first cur ls))) }"
proof (induction rs arbitrary: pre cur)
  case Nil
  then show ?case by simp
next
  case (Cons r rs)
  show ?case
  proof (cases "plain_row t r")
    case None
    then have "mapM (line_text t) (logical_lines (r # rs)) = None"
      by (auto simp: line_text_Cons split: list.split)
    then show ?thesis using None by simp
  next
    case (Some x)
    show ?thesis
    proof (cases "rs = []")
      case True
      then show ?thesis
        using Some trim_rtrim [of pre "cur @ x"] lines_single [of t r]
        by (simp add: Let_def before_first_def)
    next
      case rs: False
      show ?thesis
      proof (cases "r_wrapped r")
        case True
        have "plain_rows t rs (pre @ cur @ x) (length pre) =
          do { ls \<leftarrow> mapM (line_text t) (logical_lines rs);
               Some (pre @ join_lines (map rtrim (before_first (cur @ x) ls))) }"
          using Cons.IH [OF rs, of pre "cur @ x"] by simp
        moreover have "before_first (cur @ x) ls = before_first cur (before_first x ls)" for ls
          by (simp add: before_first_def split: list.split)
        ultimately show ?thesis
          using True rs Some lines_wrapped [OF True rs, of t] by simp
      next
        case False
        have "plain_rows t rs (pre @ rtrim (cur @ x) @ [0x0a]) (length (pre @ rtrim (cur @ x) @ [0x0a])) =
          do { ls \<leftarrow> mapM (line_text t) (logical_lines rs);
               Some (pre @ rtrim (cur @ x) @ 0x0a # join_lines (map rtrim (before_first [] ls))) }"
          using Cons.IH [OF rs, of "pre @ rtrim (cur @ x) @ [0x0a]" "[]"] by simp
        moreover have "before_first [] ls = ls" for ls by (simp add: before_first_def split: list.split)
        moreover have "join_lines (rtrim (cur @ x) # map rtrim ls) =
            rtrim (cur @ x) @ 0x0a # join_lines (map rtrim ls)"
          if "mapM (line_text t) (logical_lines rs) = Some ls" for ls
          using mapM_length [OF that] rs by (cases ls) auto
        moreover have "line_text t [r] = Some x" using Some by (simp add: line_text_def)
        ultimately show ?thesis
          using False rs Some trim_rtrim [of pre "cur @ x"]
          by (cases "mapM (line_text t) (logical_lines rs)") (simp_all add: Let_def before_first_def)
      qed
    qed
  qed
qed

lemma to_plain_reference: "to_plain rp = plain_reference (rp_tables rp) (rp_rows rp)"
proof (cases "rp_rows rp = []")
  case False
  have "before_first [] ls = ls" for ls by (simp add: before_first_def split: list.split)
  then show ?thesis
    using plain_rows_reference [OF False, of "rp_tables rp" "[]" "[]"]
    by (simp add: to_plain_def plain_reference_def map_conv_bind_option comp_def)
qed (simp add: to_plain_def plain_reference_def)

lemma trimmed_rtrim: "rtrim line \<noteq> [] \<Longrightarrow> \<not> is_blank_byte (last (rtrim line))"
  using hd_dropWhile [of is_blank_byte "rev line"] by (simp add: rtrim_def last_rev)

lemma to_plain_runs: "wf_output c rp \<Longrightarrow> runs (to_plain rp) (\<lambda>_. True)"
  using plain_rows_runs [of "rp_rows rp" "rp_tables rp" c] by (simp add: to_plain_def wf_output_def)

subsection \<open>Terminal output\<close>

lemma runs_link_open: "wf_tables t \<Longrightarrow> l < nlinks t \<Longrightarrow> runs (link_open t l) (\<lambda>_. True)"
  by (simp add: link_open_def)

lemma link_open_pen:
  "wf_tables t \<Longrightarrow> i < npens t \<Longrightarrow> runs (link_open t (pen_link (i_values (t_pens t) ! i))) (\<lambda>_. True)"
  using wf_tablesD(7) [of t "i_values (t_pens t) ! i"] by (intro runs_link_open) (simp_all add: npens_def)

lemma ansi_cell_runs:
  assumes t: "wf_tables t" and r: "wf_row t c r" and i: "i < length (r_cells r)"
  shows "runs (ansi_cell t r continued st (i, r_cells r ! i)) (\<lambda>_. True)"
proof -
  let ?c = "r_cells r ! i"
  have wc: "wf_cell t ?c" using r i by (simp add: wf_row_def)
  then have p: "c_pen ?c < npens t" by (simp add: wf_cell_def)
  then obtain pn where pn: "pen_at t (c_pen ?c) = Some pn" "pen_link pn < nlinks t"
    using wf_tablesD(7) [OF t, of "i_values (t_pens t) ! c_pen ?c"]
    by (auto simp: pen_at_def index_def npens_def)
  obtain l where l: "link_open t (pen_link pn) = Some l"
    using runs_link_open [OF t pn(2)] by (auto simp: runs_def)
  obtain w where w: "tab_width r i = Some w" using i by (simp add: tab_width_def slice_def)
  obtain tx where tx: "push_cell_text t ?c = Some tx"
    using wc runs_push_cell_text [of t ?c] by (auto simp: runs_def)
  show ?thesis
    by (simp add: ansi_cell_def pn(1) l w tx Let_def)
qed

lemma ansi_cells_runs:
  assumes t: "wf_tables t" and r: "wf_row t c r"
  shows "runs (foldM (ansi_cell t r continued) st (enumerate 0 (take n (r_cells r)))) (\<lambda>_. True)"
proof (rule runs_foldM)
  fix st x assume x: "x \<in> set (enumerate 0 (take n (r_cells r)))"
  obtain i y where iy: "x = (i, y)" by fastforce
  then have "x = (i, r_cells r ! i)" "i < length (r_cells r)"
    using x by (auto simp: in_set_enumerate_eq)
  then show "runs (ansi_cell t r continued st x) (\<lambda>_. True)" using ansi_cell_runs [OF t r] by simp
qed simp

lemma ansi_rows_runs:
  "wf_tables t \<Longrightarrow> \<forall>r \<in> set rs. wf_row t c r \<Longrightarrow> runs (ansi_rows t cols i prev rs st) (\<lambda>_. True)"
proof (induction rs arbitrary: i prev st)
  case (Cons r rs)
  have r: "wf_row t c r" using Cons.prems by simp
  have tail: "runs (foldM (ansi_cell t r q) st (enumerate 0 (take n (r_cells r))))
      (\<lambda>st2. runs (ansi_rows t cols (i + 1) prev' rs (ansi_row_end st2)) (\<lambda>_. True))" for q st n prev'
    by (rule runs_mono [OF ansi_cells_runs [OF Cons.prems(1) r]]) (use Cons in simp)
  have past: "runs (if r_wrapped r then Some (length (r_cells r)) else visible_len t r)
      (\<lambda>n. n \<le> length (r_cells r))"
    using visible_len_runs [OF r] by simp
  show ?case
    unfolding ansi_rows.simps Let_def runs_bind
    by (rule runs_mono [OF past]) (use tail in simp)
qed simp

lemma to_ansi_runs: "wf_output c rp \<Longrightarrow> runs (to_ansi rp) (\<lambda>_. True)"
  using ansi_rows_runs [of "rp_tables rp" "rp_rows rp" c] by (simp add: to_ansi_def wf_output_def)

subsection \<open>The viewport snapshot\<close>

lemma snapshot_cell_runs:
  assumes "wf_tables t" "wf_cell t c"
  shows "runs (snapshot_cell t st c) (\<lambda>_. True)"
proof -
  obtain pn where pn: "pen_at t (c_pen c) = Some pn" "pen_link pn < nlinks t"
    using wf_tablesD(7) [OF assms(1), of "i_values (t_pens t) ! c_pen c"] assms(2)
    by (auto simp: pen_at_def index_def npens_def wf_cell_def)
  obtain l where l: "link_open t (pen_link pn) = Some l"
    using runs_link_open [OF assms(1) pn(2)] by (auto simp: runs_def)
  obtain tx where tx: "push_cell_text t c = Some tx"
    using assms(2) runs_push_cell_text [of t c] by (auto simp: runs_def)
  show ?thesis
    by (cases st) (simp add: snapshot_cell_def pn(1) l tx Let_def)
qed

lemma snapshot_cells_runs:
  "wf_tables t \<Longrightarrow> \<forall>c \<in> set cs. wf_cell t c \<Longrightarrow> runs (snapshot_cells t limit cs st) (\<lambda>_. True)"
proof (induction cs arbitrary: st)
  case (Cons c cs)
  have "runs (snapshot_cell t st c) (\<lambda>st'. runs (if limit < length (fst st') then Some None
      else snapshot_cells t limit cs st') (\<lambda>_. True))"
    by (rule runs_mono [OF snapshot_cell_runs]) (use Cons in auto)
  then show ?case using Cons by simp
qed simp

lemma runs_case_option:
  "runs (case x of None \<Rightarrow> m | Some y \<Rightarrow> f y) P \<longleftrightarrow>
     (case x of None \<Rightarrow> runs m P | Some y \<Rightarrow> runs (f y) P)"
  by (cases x) simp_all

lemma runs_choice: "(\<And>x. runs (g x) (\<lambda>_. True)) \<Longrightarrow> \<exists>f. \<forall>x. g x = Some (f x)"
  by (rule choice) (simp add: runs_def)

lemma snapshot_rows_runs:
  "wf_tables t \<Longrightarrow> \<forall>r \<in> set rs. wf_row t c r \<Longrightarrow>
     runs (snapshot_rows t cols limit line rs out) (\<lambda>_. True)"
proof (induction rs arbitrary: line out)
  case (Cons r rs)
  have r: "wf_row t c r" using Cons.prems by simp
  let ?next = "\<lambda>result. case result of None \<Rightarrow> Some None
    | Some out2 \<Rightarrow> (if limit < length (out2 @ link_close) then Some None
               else snapshot_rows t cols limit (line + 1) rs (out2 @ link_close))"
  have "runs (?next result) (\<lambda>_. True)" for result
    using Cons by (cases result) simp_all
  moreover have "runs (snapshot_cells t limit (take n (r_cells r)) st) (\<lambda>_. True)" for n st
    using r by (intro snapshot_cells_runs) (auto simp: Cons.prems wf_row_def dest: in_set_takeD)
  ultimately have "runs (snapshot_cells t limit (take n (r_cells r)) st)
      (\<lambda>result. runs (?next result) (\<lambda>_. True))" for n st
    by (auto elim: runs_mono)
  then show ?case
    unfolding snapshot_rows.simps Let_def runs_bind
    by (intro runs_mono [OF visible_len_runs [OF r]])
qed simp

lemma parked_head_le: "parked_head cells i \<le> i"
  by (induction i) (auto simp: le_Suc_eq)

lemma snapshot_cursor_runs:
  assumes wf: "wf_emu c r b e" and s: "wf_screen (e_tables e) c r s" and pen: "pen_link p < nlinks (e_tables e)"
  shows "runs (snapshot_cursor e out s row col p origin charsets so) (\<lambda>_. True)"
proof -
  let ?t = "e_tables e"
  note core = wfD [OF wf] and sd = wf_screenD [OF s]
  have t: "wf_tables ?t" and pos: "0 < c" "0 < r" "e_cols e = c"
    using wf by (auto simp: wf_emu_def wf_core_def)
  obtain l where l: "link_open ?t (pen_link p) = Some l"
    using runs_link_open [OF t pen] by (auto simp: runs_def)
  obtain base where base: "history_len s = Some base" "base = length (s_lines s) - r"
    using sd(1,2) by (simp add: history_len_def usub_def)
  have line: "base + min row (r - 1) < length (s_lines s)"
    "wf_row ?t c (s_lines s ! (base + min row (r - 1)))"
    using sd(2,6) base(2) pos by auto
  let ?cells = "r_cells (s_lines s ! (base + min row (r - 1)))"
  let ?at = "parked_head ?cells (c - 1)"
  have cell: "\<exists>q tx. pen_at ?t (c_pen (?cells ! ?at)) = Some q \<and> push_cell_text ?t (?cells ! ?at) = Some tx"
    if "?at < length ?cells"
  proof -
    have "wf_cell ?t (?cells ! ?at)" using line(2) that by (simp add: wf_row_def)
    then show ?thesis
      using runs_push_cell_text [of ?t "?cells ! ?at"]
      by (auto simp: runs_def wf_cell_def pen_at_def index_def npens_def)
  qed
  note facts = pos(3) sd(1) base(1) line(1) l
  show ?thesis
  proof (cases "?at < length ?cells")
    case True
    obtain q tx where "pen_at ?t (c_pen (?cells ! ?at)) = Some q"
      "push_cell_text ?t (?cells ! ?at) = Some tx" using cell [OF True] by blast
    with True pos show ?thesis by (simp add: snapshot_cursor_def usub_def index_def facts [simplified] Let_def)
  next
    case False
    then show ?thesis using pos by (simp add: snapshot_cursor_def usub_def index_def facts [simplified] Let_def)
  qed
qed

lemma snapshot_screen_runs:
  assumes wf: "wf_emu c r b e"
  shows "runs (snapshot_screen e limit alt out) (\<lambda>_. True)"
proof -
  let ?s = "if alt then e_alternate e else e_normal e"
  have s: "wf_screen (e_tables e) c r ?s"
    using wf by (auto simp: wf_emu_def dest: wf_scr_screen)
  have t: "wf_tables (e_tables e)" using wfD(10) [OF wf] .
  obtain history where h: "history_len ?s = Some history"
    using wf_screenD(1,2) [OF s] by (simp add: history_len_def usub_def)
  have "\<forall>x \<in> set (drop history (s_lines ?s)). wf_row (e_tables e) c x"
    using wf_screenD(5) [OF s] by (auto dest: in_set_dropD)
  note rows = this
  obtain result where res:
    "\<forall>o1. snapshot_rows (e_tables e) (e_cols e) limit 0 (drop history (s_lines ?s)) o1 = Some (result o1)"
    using runs_choice [of "snapshot_rows (e_tables e) (e_cols e) limit 0 (drop history (s_lines ?s))"]
      snapshot_rows_runs [OF t rows] by blast
  obtain cur where cur: "\<forall>o2. snapshot_cursor e o2 ?s (sv_row (s_saved ?s)) (sv_col (s_saved ?s))
      (sv_pen (s_saved ?s)) (sv_origin (s_saved ?s)) (sv_charsets (s_saved ?s))
      (sv_shift_out (s_saved ?s)) = Some (cur o2)"
    using runs_choice [of "\<lambda>o2. snapshot_cursor e o2 ?s (sv_row (s_saved ?s)) (sv_col (s_saved ?s))
      (sv_pen (s_saved ?s)) (sv_origin (s_saved ?s)) (sv_charsets (s_saved ?s))
      (sv_shift_out (s_saved ?s))"]
      snapshot_cursor_runs [OF wf s wf_screenD(7) [OF s]] by blast
  show ?thesis
    by (simp add: snapshot_screen_def Let_def h res runs_case_option cur split: option.split)
qed

text \<open>A snapshot that is not refused stays within the limit.\<close>

lemma snapshot_with_limit_runs:
  assumes wf: "wf_emu c r b e"
  shows "runs (snapshot_ansi_with_limit e limit) (\<lambda>x. \<forall>out. x = Some out \<longrightarrow> length out \<le> limit)"
proof -
  obtain norm where norm: "\<forall>o1. snapshot_screen e limit False o1 = Some (norm o1)"
    using runs_choice [of "snapshot_screen e limit False"] snapshot_screen_runs [OF wf] by blast
  obtain alt where alt: "\<forall>o1. snapshot_screen e limit True o1 = Some (alt o1)"
    using runs_choice [of "snapshot_screen e limit True"] snapshot_screen_runs [OF wf] by blast
  have s: "wf_screen (e_tables e) c r (scr e)"
    using wf_scrD [OF wf] by (rule wf_scr_screen)
  have pen: "pen_link (e_pen e) < nlinks (e_tables e)" and modes: "length (e_live_modes e) = 13"
    using wf by (simp_all add: wf_emu_def wf_core_def)
  obtain cur where cur: "\<forall>o2. snapshot_cursor e o2 (scr e) (s_row (scr e)) (s_col (scr e)) (e_pen e)
      (e_origin e) (e_charsets e) (e_shift_out e) = Some (cur o2)"
    using runs_choice [of "\<lambda>o2. snapshot_cursor e o2 (scr e) (s_row (scr e)) (s_col (scr e)) (e_pen e)
      (e_origin e) (e_charsets e) (e_shift_out e)"] snapshot_cursor_runs [OF wf s pen] by blast
  have two: "runs (case x of None \<Rightarrow> Some None | Some o1 \<Rightarrow> snapshot_screen e limit True o1) P \<longleftrightarrow>
      P (case x of None \<Rightarrow> None | Some o1 \<Rightarrow> alt o1)" for x P
    by (simp add: alt split: option.split)
  show ?thesis
    by (simp add: snapshot_ansi_with_limit_def Let_def norm two runs_case_option cur alt modes
        split: option.split)
qed

lemma snapshot_bounded_runs:
  assumes "wf_replay c r b sr"
  shows "runs (snapshot_ansi_bounded sr limit) (\<lambda>x. \<forall>out. x = Some out \<longrightarrow> length out \<le> limit)"
proof -
  have wf: "wf_emu c r b (sr_emulator sr)" using assms by (simp add: wf_replay_def)
  show ?thesis
    unfolding snapshot_ansi_bounded_def runs_bind
    by (rule runs_mono [OF snapshot_with_limit_runs [OF wf]]) (simp add: Let_def split: option.split)
qed

end
