(* ===== verification/Replay_Properties.thy ===== *)
theory Replay_Properties
  imports Replay_Output_Facts
begin

text \<open>
  What an owner of a screen replay can rely on, stated for every session: a replay created with
  any size and budget, then fed any bytes in any chunks and resized at any time.  The only
  parameter is \<open>uw\<close>, the width table of the \<open>unicode-width\<close> package.
\<close>

definition session ::
  "(u32 \<Rightarrow> nat option) \<Rightarrow> nat \<Rightarrow> nat \<Rightarrow> nat \<Rightarrow> action list \<Rightarrow> screen_replay option" where
  "session uw cols rows budget actions =
     do { sr \<leftarrow> with_budget cols rows budget; foldM (act uw) sr actions }"

lemma session_runs: "runs (session uw cols rows b actions) (live_replay b)"
  using session_live by (simp add: session_def)

lemma session_wf:
  "(\<And>c r sr. c \<le> MAX_COLS \<Longrightarrow> r \<le> MAX_ROWS \<Longrightarrow> wf_replay c r b sr \<Longrightarrow> P sr) \<Longrightarrow>
     runs (session uw cols rows b actions) P"
  by (rule runs_mono [OF session_runs]) (auto simp: live_replay_def)

lemma finish_replay_runs: "wf_replay c r b sr \<Longrightarrow> runs (finish sr) (wf_output c)"
  by (rule runs_mono [OF finish_runs]) (auto simp: wf_replay_def)

text \<open>
  C1: For every size, budget and sequence of feeds and resizes, with arbitrary bytes, a replay
  never panics: creation, each action, finishing, both output formats and the bounded snapshot
  all return.
\<close>

theorem session_total:
  "runs (session uw cols rows b actions) (\<lambda>sr.
     runs (snapshot_ansi_bounded sr limit) (\<lambda>_. True) \<and>
     runs (finish sr) (\<lambda>rp. runs (to_plain rp) (\<lambda>_. True) \<and> runs (to_ansi rp) (\<lambda>_. True)))"
proof (rule session_wf)
  fix c r sr
  assume wf: "wf_replay c r b sr"
  have "runs (snapshot_ansi_bounded sr limit) (\<lambda>_. True)"
    by (rule runs_mono [OF snapshot_bounded_runs [OF wf]]) simp
  moreover have "runs (finish sr) (\<lambda>rp. runs (to_plain rp) (\<lambda>_. True) \<and> runs (to_ansi rp) (\<lambda>_. True))"
    by (rule runs_mono [OF finish_replay_runs [OF wf]]) (simp add: to_plain_runs to_ansi_runs)
  ultimately show "runs (snapshot_ansi_bounded sr limit) (\<lambda>_. True) \<and>
     runs (finish sr) (\<lambda>rp. runs (to_plain rp) (\<lambda>_. True) \<and> runs (to_ansi rp) (\<lambda>_. True))" ..
qed

text \<open>
  C2: After any session the scrollback is within the cell budget: either the primary screen holds
  no history, or the cells and the per-row overhead of its history rows together with one full
  screen do not exceed the budget, and the replay's own running count is exactly that cost.
\<close>

theorem history_within_budget:
  "runs (session uw cols rows b actions) (\<lambda>sr.
     let e = sr_emulator sr; s = e_normal e; n = length (s_lines s) - e_rows e
     in s_history_cells s = sum_list (map row_cost (take n (s_lines s))) \<and>
        (n = 0 \<or> s_history_cells s + e_rows e * e_cols e \<le> b))"
proof (rule session_wf)
  fix c r sr
  assume "wf_replay c r b sr"
  then have "wf_scr (e_tables (sr_emulator sr)) c r b False (e_normal (sr_emulator sr))"
    "e_rows (sr_emulator sr) = r" "e_cols (sr_emulator sr) = c"
    by (simp_all add: wf_replay_def wf_emu_def wf_core_def)
  then show "let e = sr_emulator sr; s = e_normal e; n = length (s_lines s) - e_rows e
     in s_history_cells s = sum_list (map row_cost (take n (s_lines s))) \<and>
        (n = 0 \<or> s_history_cells s + e_rows e * e_cols e \<le> b)"
    by (auto simp: wf_scr_def history_cost_def Let_def)
qed

text \<open>
  C3: After any session the geometry holds: the size is within the limits, the cursor of each
  screen is on the screen (its column at most one past the last), no row is wider than the screen,
  the alternate screen has no history, and the scroll margins are in order and on the screen.
\<close>

theorem geometry_holds:
  "runs (session uw cols rows b actions) (\<lambda>sr.
     let e = sr_emulator sr
     in 1 \<le> e_cols e \<and> e_cols e \<le> MAX_COLS \<and> 1 \<le> e_rows e \<and> e_rows e \<le> MAX_ROWS \<and>
        e_top e \<le> e_bottom e \<and> e_bottom e < e_rows e \<and>
        length (s_lines (e_alternate e)) = e_rows e \<and> e_rows e \<le> length (s_lines (e_normal e)) \<and>
        list_all (\<lambda>s. s_row s < e_rows e \<and> s_col s \<le> e_cols e \<and>
            list_all (\<lambda>row. length (r_cells row) \<le> e_cols e) (s_lines s))
          [e_normal e, e_alternate e])"
proof (rule session_wf)
  fix c r sr
  assume cr: "c \<le> MAX_COLS" "r \<le> MAX_ROWS" and "wf_replay c r b sr"
  then have "wf_emu c r b (sr_emulator sr)" by (simp add: wf_replay_def)
  then show "let e = sr_emulator sr
     in 1 \<le> e_cols e \<and> e_cols e \<le> MAX_COLS \<and> 1 \<le> e_rows e \<and> e_rows e \<le> MAX_ROWS \<and>
        e_top e \<le> e_bottom e \<and> e_bottom e < e_rows e \<and>
        length (s_lines (e_alternate e)) = e_rows e \<and> e_rows e \<le> length (s_lines (e_normal e)) \<and>
        list_all (\<lambda>s. s_row s < e_rows e \<and> s_col s \<le> e_cols e \<and>
            list_all (\<lambda>row. length (r_cells row) \<le> e_cols e) (s_lines s))
          [e_normal e, e_alternate e]"
    using cr by (auto simp: wf_emu_def wf_core_def wf_scr_def wf_screen_def wf_row_def list_all_iff Let_def)
qed

text \<open>
  Finishing drops exactly the unused rows above and the invisible rows below: the result is
  a window of the primary screen's rows that starts at the first row that was touched or shows
  something and ends at the last row that shows something, whose last row no longer wraps.
\<close>

theorem finish_is_window:
  "runs (session uw cols rows b actions) (\<lambda>sr.
     let e = sr_emulator sr; t = e_tables e
     in runs (finish sr) (\<lambda>rp. \<exists>before kept after.
          s_lines (e_normal e) = before @ kept @ after \<and> rp_rows rp = clear_last_wrap kept \<and>
          list_all (\<lambda>row. row_is_used t row = Some False) before \<and>
          list_all (\<lambda>row. row_is_visible t row = Some False) after \<and>
          (kept = [] \<or> (row_is_used t (hd kept) = Some True \<and>
             row_is_visible t (last kept) = Some True))))"
proof (rule session_wf, unfold Let_def)
  fix c r and sr :: screen_replay
  let ?lines = "s_lines (e_normal (sr_emulator sr))" and ?t = "e_tables (sr_emulator sr)"
  assume "wf_replay c r b sr"
  then have wf: "wf_emu c r b (sr_emulator sr)" by (simp add: wf_replay_def)
  show "runs (finish sr) (\<lambda>rp. \<exists>before kept after.
          ?lines = before @ kept @ after \<and> rp_rows rp = clear_last_wrap kept \<and>
          list_all (\<lambda>row. row_is_used ?t row = Some False) before \<and>
          list_all (\<lambda>row. row_is_visible ?t row = Some False) after \<and>
          (kept = [] \<or> (row_is_used ?t (hd kept) = Some True \<and>
             row_is_visible ?t (last kept) = Some True)))"
  proof (rule runs_mono [OF finish_runs [OF wf]], elim conjE exE)
    fix rp first past
    let ?kept = "take (past - first) (drop first ?lines)"
    assume le: "first \<le> past" "past \<le> length ?lines" and rows: "rp_rows rp = window ?lines first past"
      and unused: "\<forall>i < first. row_is_used ?t (?lines ! i) = Some False"
      and used: "first < length ?lines \<longrightarrow> row_is_used ?t (?lines ! first) = Some True"
      and hidden: "\<forall>i < length ?lines. past \<le> i \<longrightarrow> row_is_visible ?t (?lines ! i) = Some False"
      and shown: "first < past \<longrightarrow> row_is_visible ?t (?lines ! (past - 1)) = Some True"
    have split: "?lines = take first ?lines @ ?kept @ drop past ?lines"
      using le by (metis add.commute append_take_drop_id drop_drop le_add_diff_inverse2)
    have "list_all (\<lambda>row. row_is_used ?t row = Some False) (take first ?lines)"
      "list_all (\<lambda>row. row_is_visible ?t row = Some False) (drop past ?lines)"
      using unused hidden le by (auto simp: list_all_length)
    moreover have "?kept = [] \<or> (row_is_used ?t (hd ?kept) = Some True \<and>
             row_is_visible ?t (last ?kept) = Some True)"
      using used shown le by (auto simp: hd_drop_conv_nth last_conv_nth hd_conv_nth)
    ultimately show "\<exists>before kept after. ?lines = before @ kept @ after \<and>
          rp_rows rp = clear_last_wrap kept \<and>
          list_all (\<lambda>row. row_is_used ?t row = Some False) before \<and>
          list_all (\<lambda>row. row_is_visible ?t row = Some False) after \<and>
          (kept = [] \<or> (row_is_used ?t (hd kept) = Some True \<and>
             row_is_visible ?t (last kept) = Some True))"
      using split rows unfolding window_def by blast
  qed
qed

text \<open>
  C4: The plain text is that of the logical lines: rows joined where they wrap, the trailing
  blanks of each logical line dropped, lines joined by line feeds, no line feed at the end.
\<close>

theorem plain_text_is_logical_lines:
  "to_plain rp = map_option (\<lambda>lines. join_lines (map rtrim lines))
     (mapM (line_text (rp_tables rp)) (logical_lines (rp_rows rp)))"
  by (simp add: to_plain_reference plain_reference_def comp_def)

text \<open>
  A bounded viewport snapshot is refused or within its limit, after any session.
\<close>

theorem snapshot_within_limit:
  "runs (session uw cols rows b actions) (\<lambda>sr.
     runs (snapshot_ansi_bounded sr limit)
       (\<lambda>result. case result of None \<Rightarrow> True | Some out \<Rightarrow> length out \<le> limit))"
  by (rule session_wf, rule runs_mono [OF snapshot_bounded_runs]) (auto split: option.split)

end
