(* ===== verification/Replay_Chunk_Properties.thy ===== *)
theory Replay_Chunk_Properties
  imports Replay_Run_Facts Replay_Properties
begin

text \<open>
  A stream may arrive in any chunks: the parser resumes where it stopped, and the emulator's bulk
  path for ASCII writes what printing the characters one at a time writes.
\<close>

interpretation dispatch: run_splitting_sink "perform_event uw" "wf_emu c r b" for uw c r b
proof unfold_locales
  fix e ev
  assume wf: "wf_emu c r b e" and ev: "event_ok ev"
  show "runs (perform_event uw e ev) (wf_emu c r b)" by (rule perform_event_wf [OF wf ev])
  show "perform_event uw e ev = foldM (perform_event uw) e (atomize ev)"
  proof (cases ev)
    case (EvPrintAscii run)
    have "\<forall>x \<in> set run. printable_ascii x" using ev EvPrintAscii by simp
    then have "foldM (perform_event uw) e (map (\<lambda>x. EvPrintAscii [x]) run) = foldM (print_byte uw) e run"
      using wf
    proof (induction run arbitrary: e)
      case (Cons x run)
      obtain e' where e': "print_byte uw e x = Some e'" "wf_emu c r b e'"
        using print_char_wf [OF Cons.prems(2) ascii_scalar, of x uw] Cons.prems(1) by (auto simp: runs_def)
      then show ?case using Cons print_ascii_run_chars [OF Cons.prems(2), of "[x]" uw] by simp
    qed simp
    then show ?thesis using ev EvPrintAscii print_ascii_run_chars [OF wf, of run uw] by simp
  qed (simp_all split: option.split)
qed

subsection \<open>Streams during which the tables are not compacted\<close>

text \<open>
  Before a callback the emulator may compact its interning tables, which renames the indices in
  the cells.  \<open>quiet\<close> says that no state on the way is due for it.
\<close>

fun quiet :: "(u32 \<Rightarrow> nat option) \<Rightarrow> emulator \<Rightarrow> event list \<Rightarrow> bool" where
  "quiet uw e [] = True"
| "quiet uw e (ev # evs) =
     (\<not> needs_compaction (e_tables e) \<and>
      (case perform_event uw e ev of None \<Rightarrow> True | Some e' \<Rightarrow> quiet uw e' evs))"

lemma foldM_quiet: "quiet uw e evs \<Longrightarrow> foldM (perform uw) e evs = foldM (perform_event uw) e evs"
  by (induction evs arbitrary: e) (auto simp: perform_def maybe_compact_def split: option.splits)

lemma quiet_append:
  "foldM (perform_event uw) e evs = Some e' \<Longrightarrow> quiet uw e (evs @ evs') \<longleftrightarrow> quiet uw e evs \<and> quiet uw e' evs'"
  by (induction evs arbitrary: e) (auto split: option.splits bind_splits)

lemma atomize_nonempty: "event_ok ev \<Longrightarrow> atomize ev \<noteq> []"
  by (cases ev) auto

lemma quiet_atoms:
  "wf_emu c r b e \<Longrightarrow> list_all event_ok evs \<Longrightarrow> quiet uw e (atoms evs) \<Longrightarrow> quiet uw e evs"
proof (induction evs arbitrary: e)
  case (Cons ev evs)
  obtain e' where e': "perform_event uw e ev = Some e'" "wf_emu c r b e'"
    using perform_event_wf [OF Cons.prems(1), of ev uw] Cons.prems(2) by (auto simp: runs_def)
  have "foldM (perform_event uw) e (atomize ev) = Some e'"
    using dispatch.run_split [OF Cons.prems(1), of ev uw] Cons.prems(2) e'(1) by simp
  then have q: "quiet uw e (atomize ev)" "quiet uw e' (atoms evs)"
    using Cons.prems(3) by (simp_all add: quiet_append)
  have "\<not> needs_compaction (e_tables e)"
    using q(1) atomize_nonempty [of ev] Cons.prems(2) by (cases "atomize ev") auto
  then show ?case using Cons.IH [OF e'(2)] Cons.prems(2) q(2) e'(1) by simp
qed simp

definition stream_quiet :: "(u32 \<Rightarrow> nat option) \<Rightarrow> screen_replay \<Rightarrow> bytes \<Rightarrow> bool" where
  "stream_quiet uw sr bs \<longleftrightarrow> quiet uw (sr_emulator sr) (atoms (snd (advance (sr_parser sr) bs)))"

lemma feed_quiet:
  assumes wf: "wf_replay c r b sr" and quiet: "stream_quiet uw sr bs"
  shows "feed uw sr bs = map_option (\<lambda>(p, e). \<lparr>sr_parser = p, sr_emulator = e\<rparr>)
    (drive (perform_event uw) (sr_parser sr, sr_emulator sr) bs)"
proof -
  have "list_all event_ok (snd (advance (sr_parser sr) bs))"
    using advance_ok [of "sr_parser sr" bs] wf by (simp add: step_ok_def wf_replay_def)
  then have "quiet uw (sr_emulator sr) (snd (advance (sr_parser sr) bs))"
    using quiet_atoms wf quiet by (auto simp: stream_quiet_def wf_replay_def)
  then show ?thesis by (simp add: feed_drive drive_def split_beta foldM_quiet)
qed

lemma feed_append:
  assumes wf: "wf_replay c r b sr" and quiet: "stream_quiet uw sr (xs @ ys)"
  shows "\<exists>sr'. feed uw sr xs = Some sr' \<and> wf_replay c r b sr' \<and> stream_quiet uw sr' ys \<and>
    feed uw sr (xs @ ys) = feed uw sr' ys"
proof -
  let ?p = "sr_parser sr" and ?e = "sr_emulator sr"
  have p: "parser_ok ?p" and e: "wf_emu c r b ?e" using wf by (simp_all add: wf_replay_def)
  obtain p1 evs where a: "advance ?p xs = (p1, evs)" by fastforce
  have ok: "list_all event_ok evs" using advance_ok [OF p, of xs] a by (simp add: step_ok_def)
  obtain sr' where sr': "feed uw sr xs = Some sr'" "wf_replay c r b sr'"
    using feed_wf [OF wf, of uw xs] by (auto simp: runs_def)
  have "same_run (advance ?p (xs @ ys)) (continue (p1, evs) ys)" using advance_append [of ?p xs ys] a by simp
  then have at: "atoms (snd (advance ?p (xs @ ys))) = atoms evs @ atoms (snd (advance p1 ys))"
    by (simp add: same_run_def continue_def)
  obtain e1 where e1: "foldM (perform_event uw) ?e (atoms evs) = Some e1"
    "foldM (perform_event uw) ?e evs = Some e1"
    using dispatch.events_run [OF e ok, of uw] dispatch.foldM_atoms [OF e ok, of uw] by (auto simp: runs_def)
  have q: "quiet uw ?e (atoms evs)" "quiet uw e1 (atoms (snd (advance p1 ys)))"
    using quiet at quiet_append [OF e1(1)] by (simp_all add: stream_quiet_def)
  have "stream_quiet uw sr xs" using q(1) a by (simp add: stream_quiet_def)
  then have eq: "sr' = \<lparr>sr_parser = p1, sr_emulator = e1\<rparr>"
    using feed_quiet [OF wf, of uw xs] sr'(1) a e1(2) by (simp add: drive_def)
  then have q': "stream_quiet uw sr' ys" using q(2) by (simp add: stream_quiet_def)
  have "drive (perform_event uw) (?p, ?e) (xs @ ys) = drive (perform_event uw) (p1, e1) ys"
    using dispatch.drive_append [OF p e, of uw xs ys] a e1(2) by (simp add: drive_def)
  then have "feed uw sr (xs @ ys) = feed uw sr' ys"
    using feed_quiet [OF wf quiet] feed_quiet [OF sr'(2) q'] eq by simp
  then show ?thesis using sr' q' by blast
qed

lemma feed_empty: "feed uw sr [] = Some sr"
  by (cases sr) (simp add: feed_def advance.simps)

lemma feed_chunks:
  "wf_replay c r b sr \<Longrightarrow> stream_quiet uw sr (concat chunks) \<Longrightarrow>
     foldM (feed uw) sr chunks = feed uw sr (concat chunks)"
proof (induction chunks arbitrary: sr)
  case (Cons x chunks)
  then show ?case using feed_append [of c r b sr uw x "concat chunks"] by auto
qed (simp add: feed_empty)

text \<open>
  C6: Bulk printing is printing: at any time of any session, a run of printable ASCII leaves exactly
  the emulator that printing its characters one by one leaves, whatever it overwrites, wherever it
  wraps and scrolls, with autowrap on or off.
\<close>

theorem bulk_is_one_by_one:
  assumes "\<forall>x \<in> set run. printable_ascii x"
  shows "runs (session uw cols rows budget actions) (\<lambda>sr.
    print_ascii_run uw (sr_emulator sr) run =
    foldM (\<lambda>e x. print_char uw e (ucast x)) (sr_emulator sr) run)"
proof (rule session_wf)
  fix c r sr
  assume "wf_replay c r budget sr"
  then have "wf_emu c r budget (sr_emulator sr)" by (simp add: wf_replay_def)
  then show "print_ascii_run uw (sr_emulator sr) run =
      foldM (\<lambda>e x. print_char uw e (ucast x)) (sr_emulator sr) run"
    using assms by (rule print_ascii_run_chars)
qed

theorem bulk_is_one_by_one_witness:
  "runs (session (\<lambda>_. None) 3 2 9 [Feed [0x1b, 0x5b, 0x3f, 0x37, 0x6c]]) (\<lambda>sr.
    print_ascii_run (\<lambda>_. None) (sr_emulator sr) [0x61, 0x62, 0x63, 0x64] =
    foldM (\<lambda>e (x :: u8). print_char (\<lambda>_. None) e (ucast x)) (sr_emulator sr) [0x61, 0x62, 0x63, 0x64])"
  by (rule bulk_is_one_by_one) (simp add: printable_ascii_def)

text \<open>
  C5: Chunks do not matter: at any time of any session, feeding a stream in pieces, cut anywhere,
  inside an escape sequence or a UTF-8 character, ends in the same replay as feeding it whole, as
  long as the interning tables do not become due for compaction on the way.
\<close>

theorem chunks_do_not_matter:
  "runs (session uw cols rows budget actions) (\<lambda>sr.
     stream_quiet uw sr (concat chunks) \<longrightarrow> foldM (feed uw) sr chunks = feed uw sr (concat chunks))"
  by (rule session_wf) (use feed_chunks in blast)

lemma stream_quiet_once:
  "\<not> needs_compaction (e_tables (sr_emulator sr)) \<Longrightarrow>
   length (atoms (snd (advance (sr_parser sr) bs))) \<le> 1 \<Longrightarrow> stream_quiet uw sr bs"
  by (cases "atoms (snd (advance (sr_parser sr) bs))") (auto simp: stream_quiet_def split: option.split)

theorem chunks_do_not_matter_witness:
  "runs (session (\<lambda>_. None) 3 2 9 []) (\<lambda>sr. stream_quiet (\<lambda>_. None) sr [0x1b, 0x5b, 0x31, 0x6d] \<and>
     foldM (feed (\<lambda>_. None)) sr [[0x1b, 0x5b], [0x31, 0x6d]] = feed (\<lambda>_. None) sr [0x1b, 0x5b, 0x31, 0x6d])"
proof -
  have "length (atoms (snd (advance parser_new [0x1b, 0x5b, 0x31, 0x6d]))) \<le> 1" by code_simp
  then have "runs (session (\<lambda>_. None) 3 2 9 []) (\<lambda>sr. stream_quiet (\<lambda>_. None) sr [0x1b, 0x5b, 0x31, 0x6d])"
    by (auto simp: session_def with_budget_def emulator_new_def clamp_def usub_def
      MAX_COLS_def MAX_ROWS_def needs_compaction_def over_limit_def tables_default_def with_first_def
      COMPACT_FLOOR_def
      intro!: stream_quiet_once)
  then show ?thesis
    using chunks_do_not_matter [of "\<lambda>_. None" 3 2 9 "[]" "[[0x1b, 0x5b], [0x31, 0x6d]]"]
    by (auto simp: runs_def)
qed

end
