(* ===== verification/Replay_Table_Properties.thy ===== *)
theory Replay_Table_Properties
  imports Replay_Properties
begin

text \<open>
  What a cell shows, apart from the indices of the interning tables, and that compacting the tables
  changes none of it.
\<close>

text \<open>The colours and flags of a pen with the hyperlink it points to.\<close>

definition pen_look :: "tables \<Rightarrow> pen \<Rightarrow> (color \<times> color \<times> color \<times> _) \<times> bytes option" where
  "pen_look t p = ((pen_fg p, pen_bg p, pen_ul p, pen_flags p), link_at t (pen_link p))"

definition cell_look :: "tables \<Rightarrow> cell \<Rightarrow> u32 \<times> bytes option \<times> _" where
  "cell_look t c =
     (c_code c AND NOT VALUE_MASK, cell_text t c, map_option (pen_look t) (pen_at t (c_pen c)))"

definition row_look :: "tables \<Rightarrow> row \<Rightarrow> _ list \<times> bool \<times> bool" where
  "row_look t r = (map (cell_look t) (r_cells r), r_wrapped r, r_touched r)"

definition screen_look :: "tables \<Rightarrow> screen \<Rightarrow> _" where
  "screen_look t s =
     (map (row_look t) (s_lines s), (s_row s, s_col s), s_history_cells s,
      pen_look t (sv_pen (s_saved s)), (sv_row (s_saved s), sv_col (s_saved s)))"

lemma same_pen_look:
  "same_pen t u p q \<Longrightarrow> pen_link p < nlinks t \<Longrightarrow> pen_look u q = pen_look t p"
  by (simp add: pen_look_def same_pen_def same_style_def link_at_def index_def nlinks_def)

lemma same_cell_look:
  assumes t: "wf_tables t" and c: "wf_cell t c" and same: "same_cell t u c d"
  shows "cell_look u d = cell_look t c"
proof -
  let ?p = "i_values (t_pens t) ! c_pen c"
  have p: "c_pen c < npens t" "c_pen d < npens u" using c same by (simp_all add: wf_cell_def same_cell_def)
  then have at: "pen_at t (c_pen c) = Some ?p" "pen_at u (c_pen d) = Some (i_values (t_pens u) ! c_pen d)"
    by (simp_all add: pen_at_def index_def npens_def)
  have "pen_link ?p < nlinks t" using t p(1) by (simp add: wf_tables_def npens_def)
  then have pen: "pen_look u (i_values (t_pens u) ! c_pen d) = pen_look t ?p"
    using same_pen_look same by (simp add: same_cell_def)
  have text_same: "cell_text u d = cell_text t c"
  proof (cases "is_cluster_code (c_code c)")
    case True
    then have "is_cluster_code (c_code d)" "cluster_index (c_code c) < nclusters t"
      "cluster_index (c_code d) < nclusters u"
      "i_values (t_clusters u) ! cluster_index (c_code d) = i_values (t_clusters t) ! cluster_index (c_code c)"
      using same c by (auto simp: same_cell_def wf_cell_def)
    then show ?thesis
      using True by (simp add: cell_text_def is_cluster_code_bit cluster_bit is_fragment_bit cluster_at_def
          cluster_index_def index_def nclusters_def)
  next
    case False
    then have "c_code d = c_code c" "\<not> is_cluster_code (c_code d)" using same by (simp_all add: same_cell_def)
    then show ?thesis using False
      by (auto simp: cell_text_def is_cluster_code_bit cluster_bit is_fragment_bit)
  qed
  show ?thesis using same pen text_same at by (simp add: cell_look_def same_cell_def)
qed

lemma same_rows_look:
  assumes t: "wf_tables t" and rows: "list_all2 (same_row t u) g h"
    and wf: "\<forall>r \<in> set g. \<forall>c \<in> set (r_cells r). wf_cell t c"
  shows "map (row_look u) h = map (row_look t) g"
  using rows wf
proof (induction rule: list_all2_induct)
  case (Cons r g s h)
  have "list_all2 (same_cell t u) (r_cells r) (r_cells s)" using Cons.hyps(1) by (simp add: same_row_def)
  then have "map (cell_look u) (r_cells s) = map (cell_look t) (r_cells r)"
    using Cons.prems same_cell_look [OF t] by (auto simp: list_all2_conv_all_nth intro!: nth_equalityI)
  then have "row_look u s = row_look t r" using Cons.hyps(1) by (simp add: row_look_def same_row_def)
  then show ?case using Cons by simp
qed simp

lemma maybe_compact_look:
  assumes wf: "wf_emu c r b e"
  shows "runs (maybe_compact e) (\<lambda>e'. \<not> needs_compaction (e_tables e') \<and>
    screen_look (e_tables e') (e_normal e') = screen_look (e_tables e) (e_normal e) \<and>
    screen_look (e_tables e') (e_alternate e') = screen_look (e_tables e) (e_alternate e) \<and>
    pen_look (e_tables e') (e_pen e') = pen_look (e_tables e) (e_pen e))"
proof (cases "needs_compaction (e_tables e)")
  case False
  then show ?thesis by (simp add: maybe_compact_def)
next
  case True
  let ?t = "e_tables e"
  let ?roots = "[e_pen e, sv_pen (s_saved (e_normal e)), sv_pen (s_saved (e_alternate e))]"
  have n: "wf_screen ?t c r (e_normal e)" and a: "wf_screen ?t c r (e_alternate e)"
    using wf by (auto simp: wf_emu_def wf_scr_def)
  have cells: "\<forall>x \<in> set (s_lines (e_normal e) @ s_lines (e_alternate e)). \<forall>y \<in> set (r_cells x). wf_cell ?t y"
    using wf_lines_cells [OF n] wf_lines_cells [OF a] by auto
  have roots: "\<forall>p \<in> set ?roots. pen_link p < nlinks ?t"
    using wfD(11) [OF wf] wf_screenD(7) [OF n] wf_screenD(7) [OF a] by simp
  have look: "map (row_look u) g1 = map (row_look ?t) (s_lines (e_normal e)) \<and>
      map (row_look u) g2 = map (row_look ?t) (s_lines (e_alternate e)) \<and>
      map (pen_look u) rs = map (pen_look ?t) ?roots \<and> length rs = 3"
    if "list_all2 (same_row ?t u) (s_lines (e_normal e)) g1"
      "list_all2 (same_row ?t u) (s_lines (e_alternate e)) g2" "list_all2 (same_pen ?t u) ?roots rs"
    for u g1 g2 rs
    using that(3) same_rows_look [OF wfD(10) [OF wf] that(1)] same_rows_look [OF wfD(10) [OF wf] that(2)]
      cells roots
    by (auto simp: list_all2_Cons1 same_pen_look)
  have "runs (compact ?t (s_lines (e_normal e)) (s_lines (e_alternate e)) ?roots)
      (\<lambda>(u, g1, g2, rs). \<not> needs_compaction u \<and>
         map (row_look u) g1 = map (row_look ?t) (s_lines (e_normal e)) \<and>
         map (row_look u) g2 = map (row_look ?t) (s_lines (e_alternate e)) \<and>
         map (pen_look u) rs = map (pen_look ?t) ?roots \<and> length rs = 3)"
    by (rule runs_mono [OF compact_same [OF wfD(10) [OF wf] cells roots]])
      (use look in \<open>unfold split_paired_all prod.case, blast\<close>)
  then show ?thesis
    using True
    by (auto simp: maybe_compact_def screen_look_def numeral_3_eq_3 length_Suc_conv elim!: runs_mono)
qed

text \<open>
  C7: Compacting the interning tables is invisible: at any time of any session it empties them below
  their limits and leaves both screens with their histories, the saved cursors and the current pen
  showing the same text, style and hyperlinks.
\<close>

theorem compaction_invisible:
  "runs (session uw cols rows budget actions) (\<lambda>sr. let e = sr_emulator sr in
     runs (maybe_compact e) (\<lambda>e'. \<not> needs_compaction (e_tables e') \<and>
       screen_look (e_tables e') (e_normal e') = screen_look (e_tables e) (e_normal e) \<and>
       screen_look (e_tables e') (e_alternate e') = screen_look (e_tables e) (e_alternate e) \<and>
       pen_look (e_tables e') (e_pen e') = pen_look (e_tables e) (e_pen e)))"
proof (rule session_wf)
  fix c r sr
  assume "wf_replay c r budget sr"
  then have "wf_emu c r budget (sr_emulator sr)" by (simp add: wf_replay_def)
  from maybe_compact_look [OF this] show "let e = sr_emulator sr in
     runs (maybe_compact e) (\<lambda>e'. \<not> needs_compaction (e_tables e') \<and>
       screen_look (e_tables e') (e_normal e') = screen_look (e_tables e) (e_normal e) \<and>
       screen_look (e_tables e') (e_alternate e') = screen_look (e_tables e) (e_alternate e) \<and>
       pen_look (e_tables e') (e_pen e') = pen_look (e_tables e) (e_pen e))"
    by (simp add: Let_def)
qed

end
