(* ===== verification/Vt_Decode_Facts.thy ===== *)
theory Vt_Decode_Facts
  imports Vt_Parser_Facts
begin

text \<open>
  The decoder of \<open>src/src/screen_replay/parser.rs\<close> against the standard library: the code points
  it hands to the state machine are those of \<open>String::from_utf8_lossy\<close>, ill-formed input
  included, and the parser of bytes is the state machine of code points run over them.
\<close>

function decode :: "utf8 \<Rightarrow> bytes \<Rightarrow> u32 list \<times> utf8" where
  "decode u [] = ([], u)"
| "decode u (b # bs) =
     (case utf8_push u b of
        (u', Pending) \<Rightarrow> decode u' bs
      | (u', Char c) \<Rightarrow> (let (cs, v) = decode u' bs in (c # cs, v))
      | (u', Invalid retry) \<Rightarrow>
          (let (cs, v) = decode u' (if retry then b # bs else bs) in (0xfffd # cs, v)))"
  by pat_completeness auto
termination
  by (relation "measures [\<lambda>(u, bs). length bs, \<lambda>(u, bs). uneed u]")
    (auto simp: utf8_push_def Let_def utf8_default_def split: if_splits option.splits)

declare decode.simps(2) [simp del]

lemma decode_pending: "utf8_push u b = (u', Pending) \<Longrightarrow> decode u (b # bs) = decode u' bs"
  by (simp add: decode.simps(2))

lemma decode_char:
  "utf8_push u b = (u', Char c) \<Longrightarrow>
     decode u (b # bs) = (c # fst (decode u' bs), snd (decode u' bs))"
  by (simp add: decode.simps(2) split: prod.split)

lemma decode_invalid:
  "utf8_push u b = (u', Invalid False) \<Longrightarrow>
     decode u (b # bs) = (0xfffd # fst (decode u' bs), snd (decode u' bs))"
  "utf8_push u b = (u', Invalid True) \<Longrightarrow>
     decode u (b # bs) = (0xfffd # fst (decode u' (b # bs)), snd (decode u' (b # bs)))"
  by (subst decode.simps(2), simp split: prod.split)+

subsection \<open>The chunks of the lossy conversion\<close>

lemma lead_second:
  assumes "utf8_lead b = Some (need, lower, upper, code)"
  shows "1 < seq_width b" "lower \<le> c \<and> c \<le> upper \<longleftrightarrow> second_ok b c"
  using lead_facts(2,4) [OF assms] by simp_all

lemma no_lead: "0x7f < b \<Longrightarrow> utf8_lead b = None \<Longrightarrow> seq_width b = 0"
  by (auto simp: utf8_lead_def seq_width_def word_less_nat_alt word_le_nat_alt word_unat_eq_iff
      split: if_splits)

lemma chunk_pending:
  assumes "utf8_ok u" and "0 < uneed u"
  shows "lossy_chunk (upending u) = (length (upending u), False)" and "upending u \<noteq> []"
  using assms
  by (cases rule: utf8_ok_cases, auto simp: utf8_default_def dest: lead_second lead_facts)+

lemma chunk_broken:
  assumes "utf8_ok u" and "0 < uneed u" and b: "\<not> (ulower u \<le> b \<and> b \<le> uupper u)"
  shows "lossy_chunk (upending u @ b # bs) = (length (upending u), False)"
  using assms(1)
proof (cases rule: utf8_ok_cases)
  case idle
  then show ?thesis using assms(2) by (simp add: utf8_default_def)
next
  case (one b0)
  then show ?thesis using lead_second [OF one(3)] b by simp
next
  case (two3 b0 b1)
  then have "\<not> is_cont b" using b by (simp add: is_cont_def)
  then show ?thesis using two3 by simp
next
  case (two4 b0 b1)
  then have "\<not> is_cont b" using b by (simp add: is_cont_def)
  then show ?thesis using two4 by simp
next
  case (three b0 b1 b2)
  then have "\<not> is_cont b" using b by (simp add: is_cont_def)
  then show ?thesis using three by simp
qed

lemma chunk_char:
  assumes "utf8_ok u" and push: "utf8_push u b = (u', Char c)"
  shows "lossy_chunk (upending u @ b # bs) = (Suc (length (upending u)), True)"
  using assms(1)
proof (cases rule: utf8_ok_cases)
  case idle
  then have "b \<le> 0x7f" using push by (auto simp: utf8_push_def utf8_default_def split: option.splits if_splits)
  then have "seq_width b = 1" by (auto simp: seq_width_def word_less_nat_alt word_le_nat_alt)
  then show ?thesis using idle by (simp add: utf8_default_def)
next
  case (one b0)
  then have need: "uneed u = 1" and b: "ulower u \<le> b \<and> b \<le> uupper u"
    using push by (auto simp: utf8_push_def Let_def not_less split: if_splits)
  have "second_ok b0 b" using lead_second(2) [OF one(3)] b by blast
  moreover have "seq_width b0 = 2" using lead_facts(1) [OF one(3)] need by simp
  ultimately show ?thesis using one by simp
next
  case (two3 b0 b1)
  then have "is_cont b"
    using push by (auto simp: utf8_push_def Let_def is_cont_def not_less split: if_splits)
  then show ?thesis using two3 by simp
next
  case (two4 b0 b1)
  then show ?thesis using push by (auto simp: utf8_push_def Let_def split: if_splits)
next
  case (three b0 b1 b2)
  then have "is_cont b"
    using push by (auto simp: utf8_push_def Let_def is_cont_def not_less split: if_splits)
  then show ?thesis using three by simp
qed

lemma chunk_invalid:
  assumes "utf8_ok u" and "utf8_push u b = (u', Invalid False)"
  shows "upending u = []" and "lossy_chunk (b # bs) = (1, False)"
  using assms no_lead [of b]
  by (auto simp: utf8_push_def utf8_ok_def utf8_default_def Let_def not_le split: if_splits option.splits)

lemma lossy_step:
  "lossy_chunk bs = (n, well) \<Longrightarrow> bs \<noteq> [] \<Longrightarrow>
     from_utf8_lossy bs = (if well then take n bs else encode_utf8 0xfffd) @ from_utf8_lossy (drop n bs)"
  by (subst from_utf8_lossy.simps) (simp add: replacement_char_def)

lemma lossy_Nil: "from_utf8_lossy [] = []"
  by (subst from_utf8_lossy.simps) simp

text \<open>The decoder delivers the lossy conversion, but for a last character still under way.\<close>

definition unfinished :: "utf8 \<Rightarrow> bytes" where
  "unfinished u = (if uneed u = 0 then [] else encode_utf8 0xfffd)"

lemma decode_lossy:
  "utf8_ok u \<Longrightarrow> from_utf8_lossy (upending u @ bs) =
     concat (map encode_utf8 (fst (decode u bs))) @ unfinished (snd (decode u bs))"
proof (induction u bs rule: decode.induct)
  case (1 u)
  show ?case
  proof (cases "uneed u = 0")
    case True
    then have "upending u = []" using 1 by (auto simp: utf8_ok_def utf8_default_def)
    then show ?thesis using True by (simp add: unfinished_def lossy_Nil)
  next
    case False
    then show ?thesis
      using lossy_step [OF chunk_pending [OF 1]] by (simp add: unfinished_def lossy_Nil)
  qed
next
  case (2 u b bs)
  obtain u' st where push: "utf8_push u b = (u', st)" by fastforce
  note exact = utf8_push_exact [OF 2(4), of b, unfolded push]
  show ?case
  proof (cases st)
    case Pending
    then show ?thesis using 2(1) [OF push [symmetric]] exact push by (simp add: decode_pending)
  next
    case (Char c)
    have "from_utf8_lossy (upending u @ b # bs) = (upending u @ [b]) @ from_utf8_lossy bs"
      using lossy_step [OF chunk_char [OF 2(4) push [unfolded Char]], of bs] by simp
    moreover have "upending u' = []" "utf8_ok u'" using exact Char by (simp_all add: utf8_default_def utf8_ok_default [unfolded utf8_default_def])
    ultimately show ?thesis
      using 2(2) [OF push [symmetric] Char] exact Char push by (simp add: decode_char)
  next
    case (Invalid retry)
    have clean: "upending u' = []" "utf8_ok u'"
      using exact Invalid by (simp_all add: utf8_default_def utf8_ok_default [unfolded utf8_default_def])
    show ?thesis
    proof (cases retry)
      case True
      have need: "0 < uneed u" "\<not> (ulower u \<le> b \<and> b \<le> uupper u)"
        using push Invalid True by (auto simp: utf8_push_def Let_def split: if_splits option.splits)
      have "from_utf8_lossy (upending u @ b # bs) = encode_utf8 0xfffd @ from_utf8_lossy (b # bs)"
        using lossy_step [OF chunk_broken [OF 2(4) need], of bs] by simp
      then show ?thesis
        using 2(3) [OF push [symmetric] Invalid clean(2)] True Invalid push clean by (simp add: decode_invalid)
    next
      case False
      note inv = chunk_invalid [OF 2(4) push [unfolded Invalid, simplified False]]
      have "from_utf8_lossy (upending u @ b # bs) = encode_utf8 0xfffd @ from_utf8_lossy bs"
        using lossy_step [OF inv(2)] inv(1) by simp
      then show ?thesis
        using 2(3) [OF push [symmetric] Invalid clean(2)] False Invalid push clean by (simp add: decode_invalid)
    qed
  qed
qed

subsection \<open>The state machine of code points\<close>

text \<open>
  One code point: the ground state prints ASCII through the bulk callback, everything else goes to
  \<open>code_point\<close>.
\<close>

definition run_point :: "parser \<Rightarrow> u32 \<Rightarrow> parser \<times> event list" where
  "run_point p c =
     (if p_state p = Ground \<and> 0x20 \<le> c \<and> c < 0x7f then (p, [EvPrintAscii [ucast c]])
      else code_point p c)"

fun run_points :: "parser \<Rightarrow> u32 list \<Rightarrow> parser \<times> event list" where
  "run_points p [] = (p, [])"
| "run_points p (c # cs) =
     (let (q, es) = run_point p c; (r, fs) = run_points q cs in (r, es @ fs))"

definition run_decoded :: "parser \<Rightarrow> u32 list \<times> utf8 \<Rightarrow> parser \<times> event list" where
  "run_decoded p d =
     (let (q, es) = run_points (p\<lparr>p_utf8 := utf8_default\<rparr>) (fst d) in (q\<lparr>p_utf8 := snd d\<rparr>, es))"

lemma run_points_Cons:
  "run_points p (c # cs) =
     (fst (run_points (fst (run_point p c)) cs),
      snd (run_point p c) @ snd (run_points (fst (run_point p c)) cs))"
  by (simp add: split_beta Let_def)

lemma run_point_utf8: "p_utf8 (fst (run_point p c)) = p_utf8 p"
  by (simp add: run_point_def code_point_utf8)

lemma upd_utf8_same: "p_utf8 p = u \<Longrightarrow> p\<lparr>p_utf8 := u\<rparr> = p" for p :: parser
  by (cases p) simp

lemma run_decoded_Cons:
  assumes "run_point (p\<lparr>p_utf8 := utf8_default\<rparr>) c = (q, es)"
  shows "run_decoded p (c # cs, v) =
    (fst (run_decoded q (cs, v)), es @ snd (run_decoded q (cs, v)))"
proof -
  have "p_utf8 q = utf8_default" using run_point_utf8 [of "p\<lparr>p_utf8 := utf8_default\<rparr>" c] assms by simp
  then have "q\<lparr>p_utf8 := utf8_default\<rparr> = q" by (rule upd_utf8_same)
  then show ?thesis using assms by (simp add: run_decoded_def run_points_Cons split_beta Let_def)
qed

text \<open>A printable byte at rest is decoded and printed as itself.\<close>

lemma push_ascii: "uneed u = 0 \<Longrightarrow> b \<le> 0x7f \<Longrightarrow> utf8_push u b = (u, Char (ucast b))"
  by (simp add: utf8_push_def)

lemma ucast_printable: "printable_ascii b \<longleftrightarrow> 0x20 \<le> (ucast b :: u32) \<and> (ucast b :: u32) < 0x7f"
  by (simp add: printable_ascii_def word_le_nat_alt word_less_nat_alt unat_ucast32)

lemma decode_printables:
  "\<forall>b \<in> set run. printable_ascii b \<Longrightarrow>
     decode utf8_default (run @ bs) =
       (map ucast run @ fst (decode utf8_default bs), snd (decode utf8_default bs))"
proof (induction run)
  case (Cons b run)
  have "b \<le> 0x7f" using Cons.prems by (simp add: printable_ascii_def word_less_nat_alt word_le_nat_alt)
  then have "utf8_push utf8_default b = (utf8_default, Char (ucast b))"
    by (intro push_ascii) (simp_all add: utf8_default_def)
  then show ?case using Cons by (simp add: decode_char)
qed simp

lemma atoms_singles: "atoms (map (\<lambda>b. EvPrintAscii [b]) run) = map (\<lambda>b. EvPrintAscii [b]) run"
  by (induction run) simp_all

lemma run_points_printables:
  "p_state p = Ground \<Longrightarrow> \<forall>b \<in> set run. printable_ascii b \<Longrightarrow>
     run_points p (map ucast run @ cs) =
       (fst (run_points p cs), map (\<lambda>b. EvPrintAscii [b]) run @ snd (run_points p cs))"
  by (induction run)
    (simp_all add: run_points_Cons run_point_def ucast_printable ucast_u32_u8 del: run_points.simps(2))

lemma run_decoded_printables:
  assumes "p_state p = Ground" and "\<forall>b \<in> set run. printable_ascii b"
  shows "run_decoded p (map ucast run @ cs, v) =
    (fst (run_decoded p (cs, v)), map (\<lambda>b. EvPrintAscii [b]) run @ snd (run_decoded p (cs, v)))"
  using run_points_printables [of "p\<lparr>p_utf8 := utf8_default\<rparr>" run cs] assms
  by (simp add: run_decoded_def split_beta)

text \<open>The calls of one code point are single already.\<close>

lemma atoms_anywhere: "anywhere p c = Some r \<Longrightarrow> atoms (snd r) = snd r"
  by (auto simp: anywhere_def parser_op_defs split: if_splits)

lemma atoms_states:
  "atoms (snd (ground_state p c)) = snd (ground_state p c)"
  "atoms (snd (escape_state p c)) = snd (escape_state p c)"
  "atoms (snd (escape_intermediate_state p c)) = snd (escape_intermediate_state p c)"
  "atoms (snd (csi_param_state p c)) = snd (csi_param_state p c)"
  "atoms (snd (csi_intermediate_state p c)) = snd (csi_intermediate_state p c)"
  "atoms (snd (csi_ignore_state p c)) = snd (csi_ignore_state p c)"
  "atoms (snd (osc_state p c)) = snd (osc_state p c)"
  "atoms (snd (finish_string p osc)) = snd (finish_string p osc)"
  by (simp_all add: state_defs parser_op_defs split: option.split)

lemma atoms_code_point: "atoms (snd (code_point p c)) = snd (code_point p c)"
  by (auto simp: code_point_cases atoms_anywhere atoms_states split: option.split pstate.split)

lemma run_decoded_upd [simp]: "run_decoded (p\<lparr>p_utf8 := u\<rparr>) d = run_decoded p d"
  by (simp add: run_decoded_def)

text \<open>A code point that did not come from a byte at rest in the ground state is not printed in bulk.\<close>

lemma run_point_char:
  assumes u: "utf8_ok (p_utf8 p)" and run: "\<not> in_run p b" and push: "utf8_push (p_utf8 p) b = (u', Char c)"
  shows "run_point (p\<lparr>p_utf8 := utf8_default\<rparr>) c = code_point (p\<lparr>p_utf8 := utf8_default\<rparr>) c"
proof -
  have False if c: "p_state p = Ground" "0x20 \<le> c" "c < 0x7f"
  proof -
    have e: "encode_utf8 c = upending (p_utf8 p) @ [b]" using utf8_push_exact [OF u, of b] push by simp
    have "unat c < 127" using c(3) by (simp add: word_less_nat_alt)
    then have one: "encode_utf8 c = [ucast c]" by (simp add: encode_utf8_def word_less_nat_alt)
    then have b: "b = ucast c" and "upending (p_utf8 p) = []" using e by simp_all
    then have "uneed (p_utf8 p) = 0" using chunk_pending(2) [OF u] by auto
    moreover have "printable_ascii b"
      using c(2,3) b by (simp add: printable_ascii_def word_le_nat_alt word_less_nat_alt unat_ucast8)
    ultimately show False using run c(1) by (simp add: in_run_def utf8_idle_def)
  qed
  then show ?thesis by (auto simp: run_point_def)
qed

lemma run_point_invalid: "run_point p 0xfffd = code_point p 0xfffd"
  by (simp add: run_point_def)

lemma decoded_step:
  assumes cp: "code_point (p\<lparr>p_utf8 := utf8_default\<rparr>) c = (q, es)"
    and rp: "run_point (p\<lparr>p_utf8 := utf8_default\<rparr>) c = code_point (p\<lparr>p_utf8 := utf8_default\<rparr>) c"
    and IH: "same_run (advance q bs) (run_decoded q (decode utf8_default bs))"
  shows "same_run (fst (advance q bs), es @ snd (advance q bs))
    (run_decoded p (c # fst (decode utf8_default bs), snd (decode utf8_default bs)))"
  using run_decoded_Cons [OF rp [unfolded cp], of "fst (decode utf8_default bs)" "snd (decode utf8_default bs)"]
    IH atoms_code_point [of "p\<lparr>p_utf8 := utf8_default\<rparr>" c] cp
  by (simp add: same_run_def)

lemma advance_decoded:
  "utf8_ok (p_utf8 p) \<Longrightarrow> same_run (advance p bs) (run_decoded p (decode (p_utf8 p) bs))"
proof (induction p bs rule: advance.induct)
  case (1 p)
  show ?case by (simp add: same_run_def run_decoded_def)
next
  case (2 p b bs)
  show ?case
  proof (cases "in_run p b")
    case True
    let ?run = "b # takeWhile printable_ascii bs" and ?rest = "dropWhile printable_ascii bs"
    have u: "p_utf8 p = utf8_default"
      using 2(5) True by (auto simp: in_run_def utf8_idle_def utf8_ok_def)
    have run: "\<forall>x \<in> set ?run. printable_ascii x" and g: "p_state p = Ground"
      using True by (auto simp: in_run_def dest: set_takeWhileD)
    have "decode utf8_default (?run @ ?rest) =
        (map ucast ?run @ fst (decode utf8_default ?rest), snd (decode utf8_default ?rest))"
      by (rule decode_printables [OF run])
    then have d: "decode (p_utf8 p) (b # bs) =
        (map ucast ?run @ fst (decode utf8_default ?rest), snd (decode utf8_default ?rest))"
      by (simp add: u)
    show ?thesis
      unfolding d run_decoded_printables [OF g run]
      using 2(1) [OF True] 2(5) u True by (simp add: same_run_def advance_run atoms_singles)
  next
    case False
    obtain u' st where push: "utf8_push (p_utf8 p) b = (u', st)" by fastforce
    note exact = utf8_push_exact [OF 2(5), of b, unfolded push]
    show ?thesis
    proof (cases st)
      case Pending
      then show ?thesis
        using 2(2) [OF False push [symmetric] Pending] exact advance_pending [OF False] push
        by (simp add: decode_pending)
    next
      case (Char c)
      have u': "u' = utf8_default" using exact Char by simp
      obtain q es where cp: "code_point (p\<lparr>p_utf8 := utf8_default\<rparr>) c = (q, es)" by fastforce
      have "p_utf8 q = utf8_default" using code_point_utf8 [of "p\<lparr>p_utf8 := utf8_default\<rparr>" c] cp by simp
      then have "same_run (advance q bs) (run_decoded q (decode utf8_default bs))"
        using 2(3) [OF False push [symmetric] Char] cp u' utf8_ok_default by simp
      from decoded_step [OF cp run_point_char [OF 2(5) False push [unfolded Char]] this]
      show ?thesis using advance_char [OF False push [unfolded Char]] push Char cp u'
        by (simp add: decode_char Let_def)
    next
      case (Invalid retry)
      have u': "u' = utf8_default" using exact Invalid by simp
      obtain q es where cp: "code_point (p\<lparr>p_utf8 := utf8_default\<rparr>) 0xfffd = (q, es)" by fastforce
      have "p_utf8 q = utf8_default"
        using code_point_utf8 [of "p\<lparr>p_utf8 := utf8_default\<rparr>" "0xfffd"] cp by simp
      then have IH: "same_run (advance q (if retry then b # bs else bs))
          (run_decoded q (decode utf8_default (if retry then b # bs else bs)))"
        using 2(4) [OF False push [symmetric] Invalid] cp u' utf8_ok_default by simp
      note step = decoded_step [OF cp run_point_invalid IH]
      show ?thesis
      proof (cases retry)
        case True
        then show ?thesis
          using step advance_retry [OF False] push Invalid cp u' by (simp add: decode_invalid Let_def)
      next
        case no: False
        then show ?thesis
          using step advance_invalid [OF False] push Invalid cp u' by (simp add: decode_invalid Let_def)
      qed
    qed
  qed
qed

subsection \<open>What holds of every stream\<close>

lemma advance_new_ok: "parser_ok (fst (advance parser_new bs))" "list_all event_ok (snd (advance parser_new bs))"
  using advance_ok [OF parser_ok_new, of bs] by (simp_all add: step_ok_def)

text \<open>
  C8: Bytes are decoded as the standard library does: after any input before it, a chunk of bytes
  makes the parser do what the state machine of code points does over the decoded chunk, and the
  decoded code points are \<open>String::from_utf8_lossy\<close> of the chunk, preceded by the bytes of the
  character the chunk before it broke off, up to a last character still unfinished.
\<close>

theorem bytes_are_lossy_text:
  "let p = fst (advance parser_new before); d = decode (p_utf8 p) bs
   in same_run (advance p bs) (run_decoded p d) \<and>
      from_utf8_lossy (upending (p_utf8 p) @ bs) =
        concat (map encode_utf8 (fst d)) @ unfinished (snd d)"
proof -
  have "utf8_ok (p_utf8 (fst (advance parser_new before)))"
    using advance_new_ok(1) by (simp add: parser_ok_def)
  then show ?thesis by (simp add: Let_def advance_decoded decode_lossy)
qed

text \<open>
  Whatever bytes arrive, the parser's memory is bounded: at most 32 parameters, each at most its
  limit, an operating system command of at most its limit and at most three bytes of an unfinished
  character; and every callback gets a well-formed argument (runs are printable ASCII, characters
  are scalar values, final bytes are in range).
\<close>

theorem parser_memory_bounded:
  "let (p, events) = advance parser_new bs
   in length (par_values (p_params p)) \<le> MAX_PARAMS \<and>
      list_all (\<lambda>v. v \<le> MAX_PARAM_VALUE) (par_current (p_params p) # par_values (p_params p)) \<and>
      length (p_osc p) \<le> MAX_OSC_BYTES \<and> length (upending (p_utf8 p)) \<le> 3 \<and>
      list_all event_ok events"
proof -
  have ok: "parser_ok (fst (advance parser_new bs))" by (rule advance_new_ok)
  then have "utf8_ok (p_utf8 (fst (advance parser_new bs)))" by (simp add: parser_ok_def)
  then have "length (upending (p_utf8 (fst (advance parser_new bs)))) \<le> 3"
    by (cases rule: utf8_ok_cases) (simp_all add: utf8_default_def)
  then show ?thesis
    using ok advance_new_ok(2) by (simp add: split_beta parser_ok_def params_ok_def list_all_iff)
qed

end
