(* ===== verification/Kitty_Facts.thy ===== *)
theory Kitty_Facts
  imports Kitty_Keyboard
begin

text \<open>
  The kitty keyboard state of \<open>src/src/kitty_keyboard.rs\<close>: reachable stacks, isolation of the two
  screens, pushing and popping, what is rewritten, and the joiner of Alt chords.
\<close>

subsection \<open>Reachable stacks\<close>

definition stack_ok :: "u8 list \<Rightarrow> bool" where
  "stack_ok st \<longleftrightarrow> length st \<le> MAX_STACK_DEPTH \<and> list_all (\<lambda>f. f AND ALL_FLAGS = f) st"

text \<open>One call of the public interface, and what calls can lead to.\<close>

inductive kitty_step :: "kitty_stacks \<Rightarrow> kitty_stacks \<Rightarrow> bool" where
  Apply: "kitty_step s (kitty_apply s op)"
| Enter: "kitty_step s (enter_alt_screen s)"
| Leave: "kitty_step s (leave_alt_screen s)"
| Reset: "kitty_step s (kitty_reset s)"

inductive kitty_reachable :: "kitty_stacks \<Rightarrow> bool" where
  Start: "kitty_reachable kitty_new"
| Step: "kitty_reachable s \<Longrightarrow> kitty_step s t \<Longrightarrow> kitty_reachable t"

inductive_cases kitty_stepE: "kitty_step s t"

lemma masked_or: "f AND ALL_FLAGS = f \<Longrightarrow> g AND ALL_FLAGS = g \<Longrightarrow> (f OR g) AND ALL_FLAGS = f OR g"
  by (metis bit.conj_disj_distrib2)

lemma masked_and: "f AND ALL_FLAGS = f \<Longrightarrow> (f AND g) AND ALL_FLAGS = f AND g"
  by (metis and.assoc and.commute)

lemma masked [simp]: "(f AND ALL_FLAGS) AND ALL_FLAGS = f AND ALL_FLAGS"
  by (simp add: and.assoc)

lemma list_all_take: "list_all P xs \<Longrightarrow> list_all P (take n xs)"
  by (auto simp: list_all_iff dest: in_set_takeD)

lemma list_all_butlast: "list_all P xs \<Longrightarrow> list_all P (butlast xs)"
  by (auto simp: list_all_iff dest: in_set_butlastD)

lemma stack_ok_apply:
  assumes "stack_ok st"
  shows "stack_ok (stack_apply st op)"
proof (cases op)
  case (KPush f)
  have "list_all (\<lambda>f. f AND ALL_FLAGS = f) (tl st)"
    using assms by (cases st) (simp_all add: stack_ok_def)
  then show ?thesis using assms KPush by (auto simp: stack_ok_def MAX_STACK_DEPTH_def)
next
  case (KPop count)
  then show ?thesis using assms by (auto simp: stack_ok_def Let_def list_all_take)
next
  case (KSet f mode)
  let ?st = "if st = [] then [0] else st"
  have ok: "list_all (\<lambda>f. f AND ALL_FLAGS = f) ?st" "?st \<noteq> []" "length ?st \<le> MAX_STACK_DEPTH"
    using assms by (auto simp: stack_ok_def MAX_STACK_DEPTH_def)
  then have "last ?st AND ALL_FLAGS = last ?st" by (auto simp: list_all_iff simp del: last.simps)
  then have "(last ?st OR (f AND ALL_FLAGS)) AND ALL_FLAGS = last ?st OR (f AND ALL_FLAGS)"
    "(last ?st AND NOT (f AND ALL_FLAGS)) AND ALL_FLAGS = last ?st AND NOT (f AND ALL_FLAGS)"
    by (simp_all add: masked_or masked_and)
  then show ?thesis
    using ok list_all_butlast [OF ok(1)] KSet
    by (auto simp: stack_ok_def Let_def MAX_STACK_DEPTH_def split: if_splits)
qed

definition stacks_ok :: "kitty_stacks \<Rightarrow> bool" where
  "stacks_ok s \<longleftrightarrow> stack_ok (k_main s) \<and> stack_ok (k_alt s) \<and> (k_on_alt s \<or> k_alt s = [])"

lemma stack_ok_empty [simp]: "stack_ok []"
  by (simp add: stack_ok_def)

lemma stacks_ok_step: "kitty_step s t \<Longrightarrow> stacks_ok s \<Longrightarrow> stacks_ok t"
  by (cases "k_on_alt s"; erule kitty_stepE)
    (simp_all add: stacks_ok_def kitty_apply_def kitty_set_active_def kitty_active_def
      enter_alt_screen_def leave_alt_screen_def kitty_reset_def kitty_new_def stack_ok_apply)

lemma stacks_ok_reachable: "kitty_reachable s \<Longrightarrow> stacks_ok s"
  by (induction rule: kitty_reachable.induct)
    (auto simp: stacks_ok_def kitty_new_def stacks_ok_step [unfolded stacks_ok_def])

text \<open>
  C9: In every reachable state the stack of each screen has at most sixteen entries of known
  flags only, the primary screen never sees a leftover alternate stack, and the flags in force
  are among those this implementation supports.
\<close>

theorem kitty_reachable_ok:
  assumes "kitty_reachable s"
  shows "length (k_main s) \<le> 16 \<and> length (k_alt s) \<le> 16 \<and>
     list_all (\<lambda>f. f AND ALL_FLAGS = f) (k_main s @ k_alt s) \<and>
     (k_on_alt s \<or> k_alt s = []) \<and> (kitty_flags s = 0 \<or> kitty_flags s = DISAMBIGUATE)"
proof -
  have "w AND 1 = 0 \<or> w AND 1 = 1" for w :: u8
    by (simp add: and_one_eq mod2_eq_if)
  then have "kitty_flags s = 0 \<or> kitty_flags s = DISAMBIGUATE"
    unfolding kitty_flags_def SUPPORTED_FLAGS_def DISAMBIGUATE_def .
  then show ?thesis
    using stacks_ok_reachable [OF assms]
    by (simp add: stacks_ok_def stack_ok_def MAX_STACK_DEPTH_def)
qed

theorem kitty_reachable_ok_witness:
  "let s = kitty_apply (enter_alt_screen (kitty_apply kitty_new (KPush 0xff))) (KSet 1 2)
   in length (k_main s) \<le> 16 \<and> length (k_alt s) \<le> 16 \<and>
      list_all (\<lambda>f. f AND ALL_FLAGS = f) (k_main s @ k_alt s) \<and>
      (k_on_alt s \<or> k_alt s = []) \<and> (kitty_flags s = 0 \<or> kitty_flags s = DISAMBIGUATE)"
  unfolding Let_def
  by (rule kitty_reachable_ok [OF Step [OF Step [OF Step [OF Start Apply] Enter] Apply]])

subsection \<open>The two screens\<close>

lemma on_alt_ops:
  "k_on_alt s \<Longrightarrow> k_main (foldl kitty_apply s ops) = k_main s \<and> k_on_alt (foldl kitty_apply s ops)"
  by (induction ops arbitrary: s) (simp_all add: kitty_apply_def kitty_set_active_def)

text \<open>
  A program that enters the alternate screen, applies any operations there and leaves gives
  the primary screen its stack back unchanged and leaves an empty alternate stack behind.
\<close>

theorem alternate_screen_isolated:
  "leave_alt_screen (foldl kitty_apply (enter_alt_screen s) ops) =
     s\<lparr>k_alt := [], k_on_alt := False\<rparr>"
  using on_alt_ops [of "enter_alt_screen s" ops]
  by (simp add: leave_alt_screen_def enter_alt_screen_def)

subsection \<open>Pushing and popping\<close>

lemma push_once: "length st < MAX_STACK_DEPTH \<Longrightarrow> stack_apply st (KPush f) = st @ [f AND ALL_FLAGS]"
  by simp

lemma push_many:
  "length st + length fs \<le> MAX_STACK_DEPTH \<Longrightarrow>
     foldl stack_apply st (map KPush fs) = st @ map (\<lambda>f. f AND ALL_FLAGS) fs"
  by (induction fs arbitrary: st) simp_all

text \<open>
  Pushes that fit and one pop of as many entries cancel: the stack is as it was before.
\<close>

theorem push_pop:
  assumes "length st + length fs \<le> MAX_STACK_DEPTH" and "fs \<noteq> []"
  shows "stack_apply (foldl stack_apply st (map KPush fs)) (KPop (of_nat (length fs))) = st"
proof -
  have n: "unat (of_nat (length fs) :: u8) = length fs"
    using assms(1) by (simp add: MAX_STACK_DEPTH_def unat_of_nat)
  then have "max (of_nat (length fs)) (1 :: u8) = of_nat (length fs)"
    using assms(2) by (intro max_absorb1) (simp add: word_le_nat_alt Suc_le_eq)
  then show ?thesis using assms n by (simp add: push_many Let_def)
qed

theorem push_pop_witness:
  "stack_apply (foldl stack_apply [1, 3] (map KPush [5, 0xff])) (KPop (of_nat (length [5, 0xff :: u8])))
     = [1, 3]"
  by (rule push_pop) (simp_all add: MAX_STACK_DEPTH_def)

subsection \<open>What is rewritten\<close>

text \<open>
  Without the disambiguate flag nothing is rewritten; and whatever the flags, a key that the
  legacy encoding reports unambiguously (a character, Enter, Tab, Backspace or Space with no
  modifier, and any function key) is left alone.
\<close>

theorem legacy_keys_untouched:
  "rewrite_commit lower key m legacy 0 = None \<and>
   rewrite_commit lower KFunctional m legacy flags = None \<and>
   rewrite_commit lower key \<lparr>m_shift = False, m_alt = False, m_ctrl = False, m_super = False\<rparr>
       legacy flags =
     (if key = KEscape \<and> flags AND DISAMBIGUATE \<noteq> 0 \<and> legacy = [0x1b]
      then Some [0x1b, 0x5b, 0x32, 0x37, 0x75] else None)"
  by (cases key)
    (auto simp: rewrite_commit_def encode_key_def key_code_def mods_any_def mods_non_shift_def
      legacy_form_matches_def csi_u_def mods_parameter_def dec.simps)

subsection \<open>Alt chords\<close>

text \<open>The bytes a host writes for a sequence of commits, and the ESC it may still hold.\<close>

definition step_bytes :: "join_step \<Rightarrow> bytes" where
  "step_bytes st = (case st of JHold \<Rightarrow> [] | JEmit bs \<Rightarrow> bs)"

fun join_commits ::
  "joiner \<Rightarrow> ((kitty_key \<times> modifiers) option \<times> bytes) list \<Rightarrow> joiner \<times> bytes" where
  "join_commits holding [] = (holding, [])"
| "join_commits holding ((recorded, commit) # rest) =
     (let (h, st) = on_commit holding recorded commit; (h', out) = join_commits h rest
      in (h', step_bytes st @ out))"

lemma on_commit_bytes:
  "(if holding then [0x1b] else []) @ commit =
     step_bytes (snd (on_commit holding recorded commit)) @
     (if fst (on_commit holding recorded commit) then [0x1b] else [])"
  by (auto simp: on_commit_def step_bytes_def Let_def)

text \<open>
  The joiner neither loses nor adds nor reorders a byte: over any sequence of commits, what it
  emits followed by what \<open>take_held\<close> releases is exactly what was committed, after the ESC that
  was held at the start.
\<close>

theorem joiner_keeps_bytes:
  "let (h, out) = join_commits holding commits
   in out @ (case snd (take_held h) of Some bs \<Rightarrow> bs | None \<Rightarrow> []) =
      (if holding then [0x1b] else []) @ concat (map snd commits)"
proof (induction commits arbitrary: holding)
  case Nil
  then show ?case by (simp add: take_held_def)
next
  case (Cons c commits)
  obtain recorded commit where c: "c = (recorded, commit)" by fastforce
  obtain h st where st: "on_commit holding recorded commit = (h, st)" by fastforce
  obtain h' out where rest: "join_commits h commits = (h', out)" by fastforce
  have "(if holding then [0x1b] else []) @ commit = step_bytes st @ (if h then [0x1b] else [])"
    using on_commit_bytes [of holding commit recorded] st by simp
  then show ?case using Cons.IH [of h] c st rest by simp
qed

text \<open>
  A chord that arrives in two commits leaves in one: the ESC of an Alt press is held, and the
  next commit goes out with the ESC in front, in a single emission.
\<close>

theorem joiner_joins_chord:
  assumes "m_alt m" and "key \<noteq> KEscape"
  shows "on_commit False (Some (key, m)) [0x1b] = (True, JHold) \<and>
     on_commit True recorded rest = (False, JEmit (0x1b # rest))"
  using assms by (simp add: on_commit_def)

theorem joiner_joins_chord_witness:
  "let m = \<lparr>m_shift = False, m_alt = True, m_ctrl = False, m_super = False\<rparr>
   in on_commit False (Some (KUnicode 0x62, m)) [0x1b] = (True, JHold) \<and>
      on_commit True (Some (KUnicode 0x62, m)) [0x62] = (False, JEmit [0x1b, 0x62])"
  using joiner_joins_chord [of "\<lparr>m_shift = False, m_alt = True, m_ctrl = False, m_super = False\<rparr>"
      "KUnicode 0x62" "Some (KUnicode 0x62, \<lparr>m_shift = False, m_alt = True, m_ctrl = False, m_super = False\<rparr>)"
      "[0x62]"] by simp

end
