(* ===== verification/Review_Input.thy ===== *)
theory Review_Input
  imports Rust_Str
begin

text \<open>
  The boundary for text inserted into a live shell editor for review, \<open>src/src/review_input.rs\<close>.
  Which characters are invisible is decided by the package \<open>jagent\<close>: the parameter
  \<open>invisible\<close> stands for its \<open>is_unsafe_invisible_char\<close>.
\<close>

definition MAX_REVIEW_INPUT_BYTES :: nat where "MAX_REVIEW_INPUT_BYTES = 256 * 1024"

datatype review_input_error = EmptyInput | TooLarge | ControlCharacter | VisualSpoof

text \<open>The loop of \<open>validate\<close>: a control character ends it, an invisible one is remembered.\<close>

fun validate_chars :: "(u32 \<Rightarrow> bool) \<Rightarrow> str \<Rightarrow> bool \<Rightarrow> review_input_error + bool" where
  "validate_chars invisible [] spoof = Inr spoof"
| "validate_chars invisible (ch # s) spoof =
     (if is_control ch then Inl ControlCharacter
      else validate_chars invisible s (spoof \<or> invisible ch))"

definition validate :: "(u32 \<Rightarrow> bool) \<Rightarrow> str \<Rightarrow> review_input_error + str" where
  "validate invisible s =
     (if MAX_REVIEW_INPUT_BYTES < str_len s then Inl TooLarge
      else if str_trim s = [] then Inl EmptyInput
      else (case validate_chars invisible s False of
              Inl e \<Rightarrow> Inl e
            | Inr spoof \<Rightarrow> if spoof then Inl VisualSpoof else Inr s))"

definition contains_visual_spoofing :: "(u32 \<Rightarrow> bool) \<Rightarrow> str \<Rightarrow> bool" where
  "contains_visual_spoofing invisible s \<longleftrightarrow> list_ex invisible s"

definition contains_noncontrol_visual_spoofing :: "(u32 \<Rightarrow> bool) \<Rightarrow> str \<Rightarrow> bool" where
  "contains_noncontrol_visual_spoofing invisible s \<longleftrightarrow>
     list_ex (\<lambda>ch. \<not> is_control ch \<and> invisible ch) s"

definition is_terminal_visual_spoofing_character :: "(u32 \<Rightarrow> bool) \<Rightarrow> u32 \<Rightarrow> bool" where
  "is_terminal_visual_spoofing_character invisible ch \<longleftrightarrow>
     invisible ch \<or> (0xfff9 \<le> ch \<and> ch \<le> 0xfffb)"

subsection \<open>Safe display\<close>

definition render_char :: "(u32 \<Rightarrow> bool) \<Rightarrow> bool \<Rightarrow> u32 \<Rightarrow> u32" where
  "render_char invisible multiline ch =
     (if multiline \<and> (ch = 0x0a \<or> ch = 0x09) then ch
      else if is_control ch \<or> invisible ch then replacement_char else ch)"

text \<open>The loop: the rendered text and whether it was cut.\<close>

fun render_loop :: "(u32 \<Rightarrow> bool) \<Rightarrow> bool \<Rightarrow> nat \<Rightarrow> str \<Rightarrow> str \<Rightarrow> str \<times> bool" where
  "render_loop invisible multiline max_bytes [] out = (out, False)"
| "render_loop invisible multiline max_bytes (ch # s) out =
     (let r = render_char invisible multiline ch
      in if max_bytes < str_len out + char_len r then (out, True)
         else render_loop invisible multiline max_bytes s (out @ [r]))"

definition ellipsis :: u32 where "ellipsis = 0x2026"

text \<open>Characters are dropped from the end until the ellipsis fits.\<close>

function make_room_for_ellipsis :: "nat \<Rightarrow> str \<Rightarrow> str" where
  "make_room_for_ellipsis max_bytes out =
     (if max_bytes < str_len out + char_len ellipsis \<and> out \<noteq> []
      then make_room_for_ellipsis max_bytes (butlast out) else out)"
  by pat_completeness auto
termination by (relation "measure (\<lambda>(m, out). length out)") auto

declare make_room_for_ellipsis.simps [simp del]

definition safe_display :: "(u32 \<Rightarrow> bool) \<Rightarrow> str \<Rightarrow> nat \<Rightarrow> bool \<Rightarrow> str" where
  "safe_display invisible s max_bytes multiline =
     (if max_bytes = 0 then []
      else (let (out, truncated) = render_loop invisible multiline max_bytes s []
            in if truncated \<and> char_len ellipsis \<le> max_bytes
               then make_room_for_ellipsis max_bytes out @ [ellipsis] else out))"

definition safe_inline_display :: "(u32 \<Rightarrow> bool) \<Rightarrow> str \<Rightarrow> nat \<Rightarrow> str" where
  "safe_inline_display invisible s max_bytes = safe_display invisible s max_bytes False"

definition safe_multiline_display :: "(u32 \<Rightarrow> bool) \<Rightarrow> str \<Rightarrow> nat \<Rightarrow> str" where
  "safe_multiline_display invisible s max_bytes = safe_display invisible s max_bytes True"

subsection \<open>What they promise\<close>

lemma validate_chars_result:
  "validate_chars invisible s spoof =
     (if list_ex is_control s then Inl ControlCharacter else Inr (spoof \<or> list_ex invisible s))"
  by (induction s arbitrary: spoof) auto

lemma render_loop_fits:
  "str_len out \<le> m \<Longrightarrow> str_len (fst (render_loop invis ml m s out)) \<le> m"
  by (induction s arbitrary: out) (auto simp: Let_def)

definition shown :: "(u32 \<Rightarrow> bool) \<Rightarrow> bool \<Rightarrow> u32 \<Rightarrow> bool" where
  "shown invis ml c \<longleftrightarrow> c = replacement_char \<or> c = ellipsis \<or> (ml \<and> (c = 0x0a \<or> c = 0x09)) \<or>
     (\<not> is_control c \<and> \<not> invis c)"

lemma render_loop_shown:
  "list_all (shown invis ml) out \<Longrightarrow> list_all (shown invis ml) (fst (render_loop invis ml m s out))"
  by (induction s arbitrary: out) (auto simp: Let_def render_char_def shown_def)

lemma make_room_fits:
  "char_len ellipsis \<le> m \<Longrightarrow>
     str_len (make_room_for_ellipsis m out) + char_len ellipsis \<le> m \<and>
     (\<exists>t. out = make_room_for_ellipsis m out @ t)"
proof (induction m out rule: make_room_for_ellipsis.induct)
  case (1 m out)
  show ?case
  proof (cases "m < str_len out + char_len ellipsis \<and> out \<noteq> []")
    case True
    let ?r = "make_room_for_ellipsis m (butlast out)"
    obtain t where t: "butlast out = ?r @ t" and fits: "str_len ?r + char_len ellipsis \<le> m"
      using 1 True by blast
    have "out = ?r @ (t @ [last out])" using t True by (metis append.assoc append_butlast_last_id)
    then have "\<exists>t. out = ?r @ t" by blast
    then show ?thesis using True fits by (simp add: make_room_for_ellipsis.simps [of m out])
  next
    case False
    then show ?thesis using 1(2) by (auto simp: make_room_for_ellipsis.simps [of m out])
  qed
qed

lemma safe_display_ok:
  "str_len (safe_display invis s m ml) \<le> m \<and> list_all (shown invis ml) (safe_display invis s m ml)"
proof (cases "m = 0")
  case True
  then show ?thesis by (simp add: safe_display_def)
next
  case False
  obtain out cut where r: "render_loop invis ml m s [] = (out, cut)" by fastforce
  have out: "str_len out \<le> m" "list_all (shown invis ml) out"
    using render_loop_fits [of "[]" m invis ml s] render_loop_shown [of invis ml "[]" m s] r by simp_all
  show ?thesis
  proof (cases "cut \<and> char_len ellipsis \<le> m")
    case True
    obtain t where t: "out = make_room_for_ellipsis m out @ t"
      using make_room_fits [of m out] True by blast
    have "list_all (shown invis ml) (make_room_for_ellipsis m out)"
      using out(2) by (subst (asm) t) simp
    then show ?thesis
      using False True r make_room_fits [of m out] by (simp add: safe_display_def shown_def)
  next
    case cut: False
    then show ?thesis using False r out by (auto simp: safe_display_def)
  qed
qed

text \<open>
  What \<open>validate\<close> accepts is returned unchanged and can be put on a prompt without running:
  it is within the limit, shows something, and has no control character (so no line break) and no
  invisible one; anything else is refused with the first reason in the documented order.
\<close>

theorem validate_exact:
  "validate invisible s =
     (if MAX_REVIEW_INPUT_BYTES < str_len s then Inl TooLarge
      else if list_all is_whitespace s then Inl EmptyInput
      else if list_ex is_control s then Inl ControlCharacter
      else if contains_visual_spoofing invisible s then Inl VisualSpoof
      else Inr s)"
proof -
  have "str_trim s = [] \<longleftrightarrow> list_all is_whitespace s"
  proof
    assume t: "str_trim s = []"
    have "dropWhile is_whitespace s = []"
    proof (rule ccontr)
      assume ne: "dropWhile is_whitespace s \<noteq> []"
      have "\<forall>x \<in> set (dropWhile is_whitespace s). is_whitespace x"
        using t by (simp add: str_trim_def dropWhile_eq_Nil_conv)
      then show False using hd_dropWhile [OF ne] ne by simp
    qed
    then show "list_all is_whitespace s" by (simp add: dropWhile_eq_Nil_conv list_all_iff)
  next
    assume "list_all is_whitespace s"
    then have "dropWhile is_whitespace s = []" by (simp add: list_all_iff)
    then show "str_trim s = []" by (simp only: str_trim_def rev.simps dropWhile.simps)
  qed
  then show ?thesis
    by (simp add: validate_def validate_chars_result contains_visual_spoofing_def)
qed

text \<open>
  A text rendered for display never exceeds its limit in bytes, and every character of it is
  an ordinary visible one, a line feed or tab where those are kept, the replacement character, or
  the final ellipsis.
\<close>

theorem safe_display_bounded:
  "str_len (safe_inline_display invisible s m) \<le> m \<and>
   list_all (shown invisible False) (safe_inline_display invisible s m) \<and>
   str_len (safe_multiline_display invisible s m) \<le> m \<and>
   list_all (shown invisible True) (safe_multiline_display invisible s m)"
  using safe_display_ok [of invisible s m] by (simp add: safe_inline_display_def safe_multiline_display_def)

end
