(* ===== verification/Pty_Input.thy ===== *)
theory Pty_Input
  imports Review_Input
begin

text \<open>
  What a frontend writes to a shell, \<open>src/src/pty_input.rs\<close>: the encoder of pasted text, the
  interpretation of admitted bytes, and the guard at the boundary of the terminal.
\<close>

subsection \<open>Markers and policies\<close>

definition PASTE_START :: bytes where "PASTE_START = [0x1b, 0x5b, 0x32, 0x30, 0x30, 0x7e]"
definition PASTE_END :: bytes where "PASTE_END = [0x1b, 0x5b, 0x32, 0x30, 0x31, 0x7e]"
definition KILL_LINE :: u8 where "KILL_LINE = 0x15"
definition C1_PASTE_START :: bytes where "C1_PASTE_START = [0x9b, 0x32, 0x30, 0x30, 0x7e]"
definition C1_PASTE_END :: bytes where "C1_PASTE_END = [0x9b, 0x32, 0x30, 0x31, 0x7e]"
definition C1_PASTE_START_UTF8 :: bytes where
  "C1_PASTE_START_UTF8 = [0xc2, 0x9b, 0x32, 0x30, 0x30, 0x7e]"
definition C1_PASTE_END_UTF8 :: bytes where
  "C1_PASTE_END_UTF8 = [0xc2, 0x9b, 0x32, 0x30, 0x31, 0x7e]"

datatype unbracketed_multiline = FirstLineOnly | SendVerbatim

record paste_policy =
  pp_multiline :: unbracketed_multiline
  pp_strip_controls :: bool
  pp_submit :: bool

definition clipboard_policy :: "unbracketed_multiline \<Rightarrow> paste_policy" where
  "clipboard_policy m = \<lparr>pp_multiline = m, pp_strip_controls = True, pp_submit = False\<rparr>"

definition prompt_insert_policy :: "unbracketed_multiline \<Rightarrow> paste_policy" where
  "prompt_insert_policy m = \<lparr>pp_multiline = m, pp_strip_controls = True, pp_submit = False\<rparr>"

record paste_risk =
  pr_lines :: nat
  pr_bytes :: nat
  pr_marker :: bool
  pr_controls :: bool
  pr_spoofing :: bool
  pr_review_limit :: bool
  pr_truncated :: bool

record paste =
  ps_bytes :: bytes
  ps_echo :: str
  ps_risk :: paste_risk

definition paste_is_empty :: "paste \<Rightarrow> bool" where
  "paste_is_empty p \<longleftrightarrow> ps_bytes p = []"

definition normalize_newlines :: "str \<Rightarrow> str" where
  "normalize_newlines s = replace_char 0x0d 0x0a (replace_pair 0x0d 0x0a 0x0a s)"

subsection \<open>Removing markers\<close>

definition first_len :: "(bytes \<Rightarrow> bool) \<Rightarrow> bytes list \<Rightarrow> nat option" where
  "first_len p markers = map_option length (find p markers)"

definition marker_len_at_end :: "bytes \<Rightarrow> nat option" where
  "marker_len_at_end data =
     first_len (ends_with data) [PASTE_START, PASTE_END, C1_PASTE_START_UTF8, C1_PASTE_END_UTF8,
       C1_PASTE_START, C1_PASTE_END]"

definition marker_len_at_end_str :: "str \<Rightarrow> nat option" where
  "marker_len_at_end_str s =
     first_len (ends_with (str_bytes s))
       [PASTE_START, PASTE_END, C1_PASTE_START_UTF8, C1_PASTE_END_UTF8]"

definition opening_marker_len :: "bytes \<Rightarrow> nat option" where
  "opening_marker_len data =
     first_len (starts_with data) [PASTE_START, C1_PASTE_START, C1_PASTE_START_UTF8]"

definition closing_marker_len :: "bytes \<Rightarrow> nat option" where
  "closing_marker_len data =
     first_len (starts_with data) [PASTE_END, C1_PASTE_END_UTF8, C1_PASTE_END]"

text \<open>Pass 1 of \<open>defang\<close>: the text so far and whether a marker was removed.\<close>

definition defang_push :: "str \<times> bool \<Rightarrow> u32 \<Rightarrow> (str \<times> bool) option" where
  "defang_push st ch =
     (case st of (stripped0, had_marker) \<Rightarrow>
        let stripped = stripped0 @ [ch] in
        if ch = 0x7e then
          (case marker_len_at_end_str stripped of
             Some len \<Rightarrow>
               do { n \<leftarrow> usub (str_len stripped) len;
                    s \<leftarrow> str_truncate stripped n;
                    Some (s, True) }
           | None \<Rightarrow> Some (stripped, had_marker))
        else Some (stripped, had_marker))"

text \<open>Pass 2: control characters other than tab and line feed.\<close>

definition is_paste_control :: "u32 \<Rightarrow> bool" where
  "is_paste_control ch \<longleftrightarrow>
     ch \<le> 0x08 \<or> (0x0b \<le> ch \<and> ch \<le> 0x1f) \<or> ch = 0x7f \<or> (0x80 \<le> ch \<and> ch \<le> 0x9f)"

definition defang :: "str \<Rightarrow> bool \<Rightarrow> (str \<times> bool \<times> bool) option" where
  "defang s strip_controls =
     do { (stripped, had_marker) \<leftarrow> foldM defang_push ([], False) s;
          let out = (if strip_controls then filter (\<lambda>ch. \<not> is_paste_control ch) stripped
                     else stripped);
          Some (out, had_marker, list_ex is_paste_control stripped) }"

subsection \<open>Encoding a paste\<close>

definition body_risk :: "(u32 \<Rightarrow> bool) \<Rightarrow> str \<Rightarrow> bool \<Rightarrow> bool \<Rightarrow> paste_risk" where
  "body_risk invisible body had_marker had_controls =
     \<lparr>pr_lines = length (split_on 0x0a body), pr_bytes = str_len body, pr_marker = had_marker,
      pr_controls = had_controls,
      pr_spoofing = contains_noncontrol_visual_spoofing invisible body,
      pr_review_limit = (MAX_REVIEW_INPUT_BYTES < str_len body), pr_truncated = False\<rparr>"

definition classify_paste :: "(u32 \<Rightarrow> bool) \<Rightarrow> str \<Rightarrow> paste_risk option" where
  "classify_paste invisible s =
     do { (body, had_marker, had_controls) \<leftarrow> defang (normalize_newlines s) False;
          Some (body_risk invisible body had_marker had_controls) }"

definition should_confirm :: "paste_risk \<Rightarrow> nat \<Rightarrow> bool" where
  "should_confirm risk threshold_bytes \<longleftrightarrow>
     1 < pr_lines risk \<or> threshold_bytes < pr_bytes risk \<or> pr_marker risk \<or> pr_spoofing risk \<or>
     pr_review_limit risk"

definition encode_paste ::
  "(u32 \<Rightarrow> bool) \<Rightarrow> str \<Rightarrow> bool \<Rightarrow> paste_policy \<Rightarrow> paste option" where
  "encode_paste invisible s bracketed policy =
     do { (body0, had_marker, had_controls) \<leftarrow> defang (normalize_newlines s) (pp_strip_controls policy);
          let risk0 = body_risk invisible body0 had_marker had_controls;
          (body1, risk) \<leftarrow>
            (if \<not> bracketed \<and> pp_multiline policy = FirstLineOnly then
               (let first = hd (split_on 0x0a body0)
                in if str_len first \<noteq> str_len body0 then
                     do { b \<leftarrow> str_truncate body0 (str_len first);
                          Some (b, risk0\<lparr>pr_truncated := True\<rparr>) }
                   else Some (body0, risk0))
             else Some (body0, risk0));
          body \<leftarrow>
            (if pp_submit policy \<and> ends_with body1 [0x0a] then str_truncate body1 (str_len body1 - 1)
             else Some body1);
          if body = [] then Some \<lparr>ps_bytes = [], ps_echo = body, ps_risk = risk\<rparr>
          else
            Some \<lparr>ps_bytes =
                (if bracketed then PASTE_START @ str_bytes body @ PASTE_END else str_bytes body)
                @ (if pp_submit policy then [0x0d] else []),
              ps_echo = body, ps_risk = risk\<rparr> }"

definition encode_prompt_insert ::
  "(u32 \<Rightarrow> bool) \<Rightarrow> str \<Rightarrow> bool \<Rightarrow> paste_policy \<Rightarrow> bool \<Rightarrow> paste option" where
  "encode_prompt_insert invisible s bracketed policy clear_line_first =
     do { p \<leftarrow> encode_paste invisible s bracketed policy;
          Some (if pr_spoofing (ps_risk p) \<or> pr_review_limit (ps_risk p)
                then p\<lparr>ps_bytes := [], ps_echo := []\<rparr>
                else if clear_line_first \<and> ps_bytes p \<noteq> [] then p\<lparr>ps_bytes := KILL_LINE # ps_bytes p\<rparr>
                else p) }"

subsection \<open>Admitted input\<close>

record admission =
  ai_wire_bytes :: nat
  ai_editor_bytes :: bytes
  ai_submits_line :: bool
  ai_input_after_submission :: bool
  ai_had_framing :: bool

definition has_effective_editor_input :: "admission \<Rightarrow> bool" where
  "has_effective_editor_input a \<longleftrightarrow> list_ex (\<lambda>b. \<not> (b = 0x03 \<or> b = 0x04)) (ai_editor_bytes a)"

definition taints_editor :: "admission \<Rightarrow> bool" where
  "taints_editor a \<longleftrightarrow> ai_had_framing a \<or> ai_editor_bytes a \<noteq> []"

definition is_newline :: "u8 \<Rightarrow> bool" where
  "is_newline b \<longleftrightarrow> b = 0x0d \<or> b = 0x0a"

definition other_newline :: "u8 \<Rightarrow> u8" where
  "other_newline b = (if b = 0x0d then 0x0a else 0x0d)"

text \<open>One byte that is not part of a marker; the pair is the newline a submission may still absorb.\<close>

definition admit_byte ::
  "bool \<Rightarrow> admission \<times> u8 option \<Rightarrow> u8 \<Rightarrow> admission \<times> u8 option" where
  "admit_byte in_frame st b =
     (case st of (r0, paired) \<Rightarrow>
        let r = r0\<lparr>ai_editor_bytes := ai_editor_bytes r0 @ [b]\<rparr> in
        if in_frame \<or> \<not> is_newline b then
          (if ai_submits_line r \<and> \<not> (b = 0x03 \<or> b = 0x04) then r\<lparr>ai_input_after_submission := True\<rparr>
           else r,
           if is_newline b then paired else None)
        else if \<not> ai_submits_line r then
          (r\<lparr>ai_submits_line := True\<rparr>, Some (other_newline b))
        else if paired = Some b then (r, None)
        else (r\<lparr>ai_input_after_submission := True\<rparr>, Some (other_newline b)))"

lemma first_len_pos:
  assumes "first_len p ms = Some n" "[] \<notin> set ms"
  shows "0 < n"
  using assms by (auto simp: first_len_def find_Some_iff in_set_conv_nth)

lemma marker_len_pos:
  "opening_marker_len d = Some n \<Longrightarrow> 0 < n" "closing_marker_len d = Some n \<Longrightarrow> 0 < n"
  unfolding opening_marker_len_def closing_marker_len_def
  by (erule first_len_pos, simp add: PASTE_START_def PASTE_END_def C1_PASTE_START_def
      C1_PASTE_END_def C1_PASTE_START_UTF8_def C1_PASTE_END_UTF8_def)+

function admit_loop ::
  "bytes \<Rightarrow> bool \<Rightarrow> admission \<times> u8 option \<Rightarrow> admission \<times> bool" where
  "admit_loop data in_frame st =
     (case data of
        [] \<Rightarrow> (fst st, in_frame)
      | b # rest \<Rightarrow>
          (case opening_marker_len data of
             Some len \<Rightarrow> admit_loop (drop len data) True ((fst st)\<lparr>ai_had_framing := True\<rparr>, snd st)
           | None \<Rightarrow>
               (case closing_marker_len data of
                  Some len \<Rightarrow> admit_loop (drop len data) False ((fst st)\<lparr>ai_had_framing := True\<rparr>, snd st)
                | None \<Rightarrow> admit_loop rest in_frame (admit_byte in_frame st b))))"
  by pat_completeness auto
termination
  by (relation "measure (\<lambda>(data, f, st). length data)") (auto dest: marker_len_pos)

declare admit_loop.simps [simp del]

definition admitted_input :: "bytes \<Rightarrow> bool \<Rightarrow> admission" where
  "admitted_input data initially_in_frame =
     fst (admit_loop data initially_in_frame
       (\<lparr>ai_wire_bytes = length data, ai_editor_bytes = [], ai_submits_line = False,
         ai_input_after_submission = False, ai_had_framing = initially_in_frame\<rparr>, None))"

subsection \<open>The guard\<close>

definition terminator_len_at_end :: "bytes \<Rightarrow> nat option" where
  "terminator_len_at_end data =
     first_len (ends_with data) [PASTE_END, C1_PASTE_END_UTF8, C1_PASTE_END]"

definition ends_with_terminator :: "bytes \<Rightarrow> bool" where
  "ends_with_terminator data \<longleftrightarrow> terminator_len_at_end data \<noteq> None"

text \<open>
  The scan of the body.  The state is the bytes kept so far (the chunk's own prefix until the
  first marker, the rewritten buffer after it) and whether anything changed; the markers of the
  unchanged prefix are looked for from \<open>body_start\<close> on.
\<close>

definition guard_push :: "nat \<Rightarrow> bytes \<times> bool \<Rightarrow> u8 \<Rightarrow> bytes \<times> bool" where
  "guard_push body_start st b =
     (case st of (out0, changed) \<Rightarrow>
        let out = out0 @ [b] in
        if b = 0x7e then
          (case marker_len_at_end (if changed then out else drop body_start out) of
             Some len \<Rightarrow> (take (length out - len) out, True)
           | None \<Rightarrow> (out, changed))
        else (out, changed))"

definition apply_multiline_policy :: "bytes \<Rightarrow> bool \<Rightarrow> paste_policy \<Rightarrow> bytes" where
  "apply_multiline_policy data bracketed policy =
     (let submitted_tail = (ends_with data [0x0d] \<or> ends_with data [0x0a]);
          scan_end = (if submitted_tail then length data - 1 else length data)
      in case position is_newline (take scan_end data) of
           None \<Rightarrow> data
         | Some first_break \<Rightarrow>
             (if bracketed then
                (let body = (if submitted_tail then take (length data - 1) data else data);
                     tail = (if submitted_tail then drop (length data - 1) data else [])
                 in PASTE_START @ body @ PASTE_END @ tail)
              else (case pp_multiline policy of
                      FirstLineOnly \<Rightarrow> take first_break data
                    | SendVerbatim \<Rightarrow> data)))"

text \<open>The parts of a chunk: where its body starts and ends, and what that says about frames.\<close>

record chunk_parts =
  cp_body_start :: nat
  cp_body_end :: nat
  cp_framed :: bool
  cp_trailing_close :: bool

definition chunk_of :: "bool \<Rightarrow> bytes \<Rightarrow> chunk_parts" where
  "chunk_of in_frame data =
     (let prefix_len = (if \<not> in_frame \<and> data \<noteq> [] \<and> hd data = KILL_LINE \<and>
            opening_marker_len (tl data) \<noteq> None then 1 else 0);
          opener_len = opening_marker_len (drop prefix_len data);
          framed = (in_frame \<or> opener_len \<noteq> None);
          submit_len = (if framed \<and> is_newline (last data) \<and> ends_with_terminator (butlast data)
            then 1 else 0);
          frame_end = length data - submit_len;
          trailing_close = (framed \<and> ends_with_terminator (take frame_end data));
          body_end = (case terminator_len_at_end (take frame_end data) of
              Some len \<Rightarrow> if trailing_close then frame_end - len else length data
            | None \<Rightarrow> length data);
          body_start = (case opener_len of Some len \<Rightarrow> prefix_len + len | None \<Rightarrow> 0)
      in \<lparr>cp_body_start = body_start, cp_body_end = body_end, cp_framed = framed,
          cp_trailing_close = trailing_close\<rparr>)"

text \<open>\<open>filter\<close>: the guard's new state and the bytes to write.\<close>

definition guard_filter ::
  "bool \<Rightarrow> bytes \<Rightarrow> bool \<Rightarrow> paste_policy \<Rightarrow> bool \<times> bytes" where
  "guard_filter in_frame data bracketed policy =
     (if data = [] then (in_frame, [])
      else
        (let p = chunk_of in_frame data;
             (out, changed) = foldl (guard_push (cp_body_start p))
               (take (cp_body_start p) data, False)
               (take (cp_body_end p - cp_body_start p) (drop (cp_body_start p) data));
             in_frame' = (if cp_trailing_close p then False else cp_framed p);
             rewritten = (if changed then out @ drop (cp_body_end p) data else data)
         in (in_frame', if cp_framed p then rewritten
                        else apply_multiline_policy rewritten bracketed policy)))"

end
