(* ===== verification/Pty_Input_Facts.thy ===== *)
theory Pty_Input_Facts
  imports Pty_Input "HOL-Library.Sublist"
begin

text \<open>
  Pasted and outgoing text: markers are removed whatever removing one splices together, the
  encoder's frame holds exactly the text it echoes, and what the guard lets through.
\<close>

subsection \<open>Markers\<close>

definition text_markers :: "bytes list" where
  "text_markers = [PASTE_START, PASTE_END, C1_PASTE_START_UTF8, C1_PASTE_END_UTF8]"

definition wire_markers :: "bytes list" where
  "wire_markers = text_markers @ [C1_PASTE_START, C1_PASTE_END]"

definition marker_free :: "bytes list \<Rightarrow> bytes \<Rightarrow> bool" where
  "marker_free ms data \<longleftrightarrow> list_all (\<lambda>m. \<not> sublist m data) ms"

lemmas marker_defs = PASTE_START_def PASTE_END_def C1_PASTE_START_def C1_PASTE_END_def
  C1_PASTE_START_UTF8_def C1_PASTE_END_UTF8_def

text \<open>A marker has one tilde, its last byte, and starts with a byte that starts a character.\<close>

definition marker_like :: "bytes \<Rightarrow> bool" where
  "marker_like m \<longleftrightarrow> m \<noteq> [] \<and> last m = 0x7e \<and> 0x7e \<notin> set (butlast m)"

lemma markers_like: "m \<in> set wire_markers \<Longrightarrow> marker_like m"
  by (auto simp: wire_markers_def text_markers_def marker_like_def marker_defs)

lemma text_markers_wire: "m \<in> set text_markers \<Longrightarrow> m \<in> set wire_markers"
  by (simp add: wire_markers_def)

lemma ends_with_suffix: "ends_with xs ys \<longleftrightarrow> suffix ys xs"
  by (auto simp: ends_with_def suffix_def) (metis append_take_drop_id)

lemma marker_free_prefix: "marker_free ms (xs @ ys) \<Longrightarrow> marker_free ms xs"
  by (auto simp: marker_free_def list_all_iff sublist_append)

lemma marker_free_Nil: "\<forall>m \<in> set ms. marker_like m \<Longrightarrow> marker_free ms []"
  by (auto simp: marker_free_def list_all_iff marker_like_def)

lemma marker_free_snoc:
  assumes "\<forall>m \<in> set ms. marker_like m" "marker_free ms xs"
    and "b = 0x7e \<Longrightarrow> first_len (ends_with (xs @ [b])) ms = None"
  shows "marker_free ms (xs @ [b])"
proof -
  have "\<not> suffix m (xs @ [b])" if m: "m \<in> set ms" for m
  proof
    assume suf: "suffix m (xs @ [b])"
    have like: "marker_like m" using assms(1) m by simp
    then have "last m = b" using suf by (auto simp: suffix_def marker_like_def) (metis last_appendR last_snoc)
    then have "b = 0x7e" using like by (simp add: marker_like_def)
    then have "find (ends_with (xs @ [b])) ms = None" using assms(3) by (simp add: first_len_def)
    then have "\<not> ends_with (xs @ [b]) m" using m by (auto simp: find_None_iff)
    then show False using suf unfolding ends_with_suffix ..
  qed
  then show ?thesis using assms(2) by (simp add: marker_free_def list_all_iff sublist_snoc)
qed

lemma marker_free_no_tilde:
  assumes "\<forall>m \<in> set ms. marker_like m" "marker_free ms xs" "0x7e \<notin> set bs"
  shows "marker_free ms (xs @ bs)"
  using assms(3)
proof (induction bs rule: rev_induct)
  case (snoc b bs)
  then show ?case using marker_free_snoc [OF assms(1), of "xs @ bs" b] by simp
qed (simp add: assms(2))

lemma first_len_Some:
  "first_len (ends_with xs) ms = Some n \<Longrightarrow> \<exists>m \<in> set ms. \<exists>pre. xs = pre @ m \<and> n = length m"
  by (auto simp: first_len_def find_Some_iff ends_with_suffix suffix_def)

lemma marker_len_str: "marker_len_at_end_str s = first_len (ends_with (str_bytes s)) text_markers"
  by (simp add: marker_len_at_end_str_def text_markers_def)

lemma marker_len_wire: "marker_len_at_end d = first_len (ends_with d) wire_markers"
  by (simp add: marker_len_at_end_def wire_markers_def text_markers_def)

lemma wire_like: "\<forall>m \<in> set wire_markers. marker_like m" "\<forall>m \<in> set text_markers. marker_like m"
  using markers_like text_markers_wire by blast+

subsection \<open>Defanging\<close>

lemma encode_no_tilde:
  assumes "is_scalar c" "c \<noteq> 0x7e"
  shows "0x7e \<notin> set (encode_utf8 c)"
proof (cases "c < 0x80")
  case True
  then have "unat (ucast c :: u8) = unat c"
    by (simp add: unat_ucast8 word_less_nat_alt)
  moreover have "unat c \<noteq> 126" using assms(2) word_unat_eq_iff [of c "0x7e"] by auto
  ultimately show ?thesis using True by (auto simp: encode_ascii word_unat_eq_iff)
next
  case False
  obtain b cs where e: "encode_utf8 c = b # cs" "\<not> is_cont b" "\<forall>x \<in> set cs. is_cont x"
    "cs \<noteq> [] \<longrightarrow> 0x80 \<le> b" using encode_lead [OF assms(1)] by metis
  moreover have "cs \<noteq> []" using False e(1) by (auto simp: encode_utf8_def split: if_splits)
  ultimately show ?thesis by (auto simp: is_cont_def word_le_nat_alt)
qed

lemma text_marker_lead: "m \<in> set text_markers \<Longrightarrow> \<exists>b post. m = b # post \<and> \<not> is_cont b"
  by (auto simp: text_markers_def marker_defs is_cont_def)

definition defang_ok :: "str \<times> bool \<Rightarrow> bool" where
  "defang_ok st \<longleftrightarrow> str_ok (fst st) \<and> marker_free text_markers (str_bytes (fst st))"

lemma defang_push_runs:
  assumes ok: "defang_ok (s, had)" and c: "is_scalar c"
  shows "runs (defang_push (s, had) c) defang_ok"
proof (cases "c = 0x7e")
  case False
  have "marker_free text_markers (str_bytes s @ encode_utf8 c)"
    using ok encode_no_tilde [OF c False] by (intro marker_free_no_tilde wire_like) (simp_all add: defang_ok_def)
  then show ?thesis using ok c False by (simp add: defang_push_def defang_ok_def Let_def)
next
  case True
  have bytes: "str_bytes (s @ [c]) = str_bytes s @ [0x7e]" using True by (simp add: encode_ascii)
  have sok: "str_ok (s @ [c])" using ok c by (simp add: defang_ok_def)
  show ?thesis
  proof (cases "marker_len_at_end_str (s @ [c])")
    case None
    then have "marker_free text_markers (str_bytes s @ [0x7e])"
      using ok bytes by (intro marker_free_snoc wire_like) (simp_all add: defang_ok_def marker_len_str)
    then show ?thesis using None True sok bytes by (simp add: defang_push_def defang_ok_def Let_def)
  next
    case (Some n)
    obtain m pre where m: "m \<in> set text_markers" "str_bytes (s @ [c]) = pre @ m" "n = length m"
      using first_len_Some Some unfolding marker_len_str by blast
    obtain b post where b: "m = b # post" "\<not> is_cont b" using text_marker_lead [OF m(1)] by blast
    obtain s1 s2 where s1: "s @ [c] = s1 @ s2" "str_bytes s1 = pre"
      using boundary_at_lead [OF sok _ b(2), of pre post] m(2) b(1) by auto
    have len: "str_len (s @ [c]) - n = str_len s1" "n \<le> str_len (s @ [c])"
      using m s1(2) by (simp_all add: str_len_def)
    have "str_truncate (s @ [c]) (str_len (s @ [c]) - n) = Some s1"
      unfolding len(1) by (subst s1(1)) (rule truncate_append)
    moreover have "marker_free text_markers (str_bytes s1)"
    proof -
      have "pre @ m = str_bytes s @ [0x7e]" using m(2) bytes by simp
      moreover have "m \<noteq> []" using b(1) by simp
      then obtain m' x where "m = m' @ [x]" by (metis rev_exhaust)
      ultimately have "str_bytes s = pre @ m'" by simp
      then show ?thesis using ok s1(2) marker_free_prefix [of text_markers pre m'] by (simp add: defang_ok_def)
    qed
    moreover have "str_ok s1" using sok s1(1) by (metis str_ok_simps(3))
    ultimately show ?thesis
      using Some True len(2) by (simp add: defang_push_def defang_ok_def Let_def usub_def)
  qed
qed

lemma defang_pass1: "str_ok s \<Longrightarrow> runs (foldM defang_push ([], False) s) defang_ok"
proof (rule runs_foldM)
  show "defang_ok ([], False)"
    using marker_free_Nil [OF wire_like(2)] by (simp add: defang_ok_def)
  fix st c assume s: "str_ok s" "defang_ok st" "c \<in> set s"
  then show "runs (defang_push st c) defang_ok"
    using defang_push_runs [of "fst st" "snd st" c] by (simp add: str_ok_def list_all_iff)
qed

text \<open>A text whose controls are gone has no marker: a marker starts with one.\<close>

lemma marker_control:
  assumes ok: "str_ok s" and m: "m \<in> set text_markers" and sub: "sublist m (str_bytes s)"
  shows "list_ex is_paste_control s"
proof -
  obtain pre post where bytes: "str_bytes s = pre @ m @ post" using sub by (auto simp: sublist_def)
  obtain b tail where b: "m = b # tail" "\<not> is_cont b" using text_marker_lead [OF m] by blast
  obtain s1 s2 where s: "s = s1 @ s2" "str_bytes s1 = pre"
    using boundary_at_lead [OF ok _ b(2), of pre "tail @ post"] bytes b(1) by auto
  have s2: "str_bytes s2 = m @ post" using bytes s by simp
  then obtain c s3 where c: "s2 = c # s3" using b(1) by (cases s2) auto
  have sc: "is_scalar c" using ok s c by simp
  have e: "encode_utf8 c @ str_bytes s3 = m @ post" using s2 c by simp
  have n: "unat c < 0x200000" using sc unfolding is_scalar_nat by linarith
  have start: "(\<exists>r. m = 0x1b # r) \<or> (\<exists>r. m = 0xc2 # 0x9b # r)"
    using m by (auto simp: text_markers_def marker_defs)
  have "unat c = 0x1b \<or> unat c = 0x9b"
    using start
  proof
    assume "\<exists>r. m = 0x1b # r"
    then have "hd (encode_utf8 c) = 0x1b" using e length_encode_utf8(2) [of c] by (cases "encode_utf8 c") auto
    then have "hd (map unat (encode_utf8 c)) = 0x1b"
      using length_encode_utf8(2) [of c] by (simp add: hd_map)
    then show ?thesis unfolding encode_utf8_nat [OF n] by (simp add: Let_def split: if_splits)
  next
    assume "\<exists>r. m = 0xc2 # 0x9b # r"
    then obtain r where r: "encode_utf8 c @ str_bytes s3 = 0xc2 # 0x9b # r" using e by auto
    then have "hd (encode_utf8 c) = 0xc2" using length_encode_utf8(2) [of c] by (cases "encode_utf8 c") auto
    then have h: "hd (map unat (encode_utf8 c)) = 0xc2"
      using length_encode_utf8(2) [of c] by (simp add: hd_map)
    then have two: "map unat (encode_utf8 c) = [0xC0 + unat c div 64, 0x80 + unat c mod 64]"
      unfolding encode_utf8_nat [OF n] by (simp add: Let_def split: if_splits)
    then obtain x y where xy: "encode_utf8 c = [x, y]" "unat x = 0xC0 + unat c div 64"
      "unat y = 0x80 + unat c mod 64" by (cases "encode_utf8 c") auto
    then have "x = 0xc2" "y = 0x9b" using r by simp_all
    then have "unat c div 64 = 2" "unat c mod 64 = 27" using xy by simp_all
    then show ?thesis using div_mult_mod_eq [of "unat c" 64] by simp
  qed
  then have "is_paste_control c" by (auto simp: is_paste_control_def word_le_nat_alt)
  then show ?thesis using s c by simp
qed

lemma str_ok_filter: "str_ok s \<Longrightarrow> str_ok (filter p s)"
  by (auto simp: str_ok_def list_all_iff)

lemma defang_runs:
  assumes "str_ok s"
  shows "runs (defang s strip) (\<lambda>(out, had, ctl). str_ok out \<and> marker_free text_markers (str_bytes out) \<and>
     (strip \<longrightarrow> list_all (\<lambda>c. \<not> is_paste_control c) out))"
proof -
  have strip_free: "marker_free text_markers (str_bytes (filter (\<lambda>c. \<not> is_paste_control c) t))"
    if "str_ok t" for t
    using marker_control [OF str_ok_filter [OF that]]
    by (auto simp: marker_free_def list_all_iff list_ex_iff)
  show ?thesis
    unfolding defang_def runs_bind
    by (rule runs_mono [OF defang_pass1 [OF assms]])
      (auto simp: defang_ok_def strip_free str_ok_filter list_all_iff split: prod.split)
qed

subsection \<open>Encoding\<close>

lemma str_ok_normalize: "str_ok s \<Longrightarrow> str_ok (normalize_newlines s)"
proof -
  have "str_ok s \<Longrightarrow> str_ok (replace_pair 0x0d 0x0a 0x0a s)"
    by (induction "0x0d :: u32" "0x0a :: u32" "0x0a :: u32" s rule: replace_pair.induct)
      (auto simp: is_scalar_def)
  then show "str_ok s \<Longrightarrow> str_ok (normalize_newlines s)"
    by (auto simp: normalize_newlines_def replace_char_def str_ok_def list_all_iff is_scalar_def)
qed

lemma no_return: "0x0d \<notin> set (normalize_newlines s)"
  by (auto simp: normalize_newlines_def replace_char_def)

lemma hd_split_on: "hd (split_on a xs) = takeWhile (\<lambda>x. x \<noteq> a) xs \<and> split_on a xs \<noteq> []"
  by (induction xs) (auto split: list.split)

lemma foldM_defang_subset:
  "foldM defang_push st s = Some r \<Longrightarrow> set (fst r) \<subseteq> set (fst st) \<union> set s"
proof (induction s arbitrary: st)
  case (Cons c s)
  obtain st1 where st1: "defang_push st c = Some st1" "foldM defang_push st1 s = Some r"
    using Cons.prems by (auto split: bind_splits)
  have trunc: "str_truncate t n = Some u \<Longrightarrow> set u \<subseteq> set t" for t n u
    by (induction t n arbitrary: u rule: str_truncate.induct) (auto split: if_splits)
  have "set (fst st1) \<subseteq> insert c (set (fst st))"
    using st1(1) trunc by (fastforce simp: defang_push_def Let_def split: prod.splits if_splits option.splits bind_splits)
  then show ?case using Cons.IH [OF st1(2)] by auto
qed simp

lemma defang_subset: "defang s strip = Some (out, had, ctl) \<Longrightarrow> set out \<subseteq> set s"
  by (auto simp: defang_def split: bind_splits prod.splits if_splits
      dest!: foldM_defang_subset [of "([], False)" s])

text \<open>What the encoder promises of the text it echoes.\<close>

definition echo_ok :: "bool \<Rightarrow> paste_policy \<Rightarrow> str \<Rightarrow> bool" where
  "echo_ok bracketed policy echo \<longleftrightarrow>
     str_ok echo \<and> marker_free text_markers (str_bytes echo) \<and> 0x0d \<notin> set echo \<and>
     (pp_strip_controls policy \<longrightarrow> list_all (\<lambda>c. \<not> is_paste_control c) echo) \<and>
     (\<not> bracketed \<and> pp_multiline policy = FirstLineOnly \<longrightarrow> 0x0a \<notin> set echo)"

definition framed_bytes :: "bool \<Rightarrow> paste_policy \<Rightarrow> bytes \<Rightarrow> bytes" where
  "framed_bytes bracketed policy body =
     (if body = [] then []
      else (if bracketed then PASTE_START @ body @ PASTE_END else body)
        @ (if pp_submit policy then [0x0d] else []))"

lemma str_bytes_eq_Nil [simp]: "str_bytes s = [] \<longleftrightarrow> s = []"
  using length_encode_utf8(2) by (cases s) auto

lemma echo_ok_prefix:
  "str_ok (s @ t) \<Longrightarrow> marker_free text_markers (str_bytes (s @ t)) \<Longrightarrow>
     str_ok s \<and> marker_free text_markers (str_bytes s)"
  using marker_free_prefix by auto

lemma first_line_truncate:
  "str_truncate body (str_len (hd (split_on 0x0a body))) = Some (takeWhile (\<lambda>c. c \<noteq> 0x0a) body)"
  using truncate_append [of "takeWhile (\<lambda>c. c \<noteq> 0x0a) body" "dropWhile (\<lambda>c. c \<noteq> 0x0a) body"]
  by (simp add: hd_split_on)

lemma first_line_whole:
  assumes "str_len (hd (split_on 0x0a body)) = str_len body"
  shows "0x0a \<notin> set body"
proof -
  have "str_len body = str_len (takeWhile (\<lambda>c. c \<noteq> 0x0a) body) + str_len (dropWhile (\<lambda>c. c \<noteq> 0x0a) body)"
    using str_len_simps(3) [of "takeWhile (\<lambda>c. c \<noteq> 0x0a) body" "dropWhile (\<lambda>c. c \<noteq> 0x0a) body"]
    by simp
  then have "str_len (dropWhile (\<lambda>c. c \<noteq> 0x0a) body) = 0" using assms by (simp add: hd_split_on)
  then have "dropWhile (\<lambda>c. c \<noteq> 0x0a) body = []"
    using char_len_pos(1) [of "hd (dropWhile (\<lambda>c. c \<noteq> 0x0a) body)"]
    by (cases "dropWhile (\<lambda>c. c \<noteq> 0x0a) body") simp_all
  then show ?thesis by (auto simp: dropWhile_eq_Nil_conv)
qed

lemma drop_final_newline:
  assumes "ends_with s [0x0a]"
  shows "\<exists>t. s = t @ [0x0a] \<and> str_truncate s (str_len s - 1) = Some t"
proof -
  obtain t where t: "s = t @ [0x0a]" using assms by (auto simp: ends_with_suffix suffix_def)
  have "str_len s - 1 = str_len t" by (simp add: t char_len_def encode_utf8_def)
  then show ?thesis using truncate_append [of t "[0x0a]"] t by simp
qed

lemma encode_paste_runs:
  assumes "str_ok s"
  shows "runs (encode_paste invisible s bracketed policy) (\<lambda>p.
     echo_ok bracketed policy (ps_echo p) \<and>
     ps_bytes p = framed_bytes bracketed policy (str_bytes (ps_echo p)))"
proof -
  let ?s = "normalize_newlines s"
  obtain body had ctl where d: "defang ?s (pp_strip_controls policy) = Some (body, had, ctl)"
    and ok: "str_ok body" "marker_free text_markers (str_bytes body)"
    and strip: "pp_strip_controls policy \<longrightarrow> list_all (\<lambda>c. \<not> is_paste_control c) body"
    using defang_runs [OF str_ok_normalize [OF assms], of "pp_strip_controls policy"]
    by (auto simp: runs_def)
  have cr: "0x0d \<notin> set body" using defang_subset [OF d] no_return [of s] by blast
  let ?cut = "\<not> bracketed \<and> pp_multiline policy = FirstLineOnly"
  let ?line = "takeWhile (\<lambda>c. c \<noteq> 0x0a) body"
  let ?b1 = "if ?cut then ?line else body"
  have line: "body = ?line @ dropWhile (\<lambda>c. c \<noteq> 0x0a) body" by simp
  have b1: "echo_ok bracketed policy ?b1"
  proof (cases ?cut)
    case True
    have "str_ok ?line \<and> marker_free text_markers (str_bytes ?line)"
      using echo_ok_prefix [of ?line "dropWhile (\<lambda>c. c \<noteq> 0x0a) body"] ok by simp
    moreover have "0x0a \<notin> set ?line" "0x0d \<notin> set ?line" "\<forall>c \<in> set ?line. c \<in> set body"
      using cr by (auto dest: set_takeWhileD)
    ultimately show ?thesis using True strip by (auto simp: echo_ok_def list_all_iff)
  next
    case False
    then show ?thesis using ok cr strip by (auto simp: echo_ok_def)
  qed
  obtain risk where one: "(if ?cut then
               (let first = hd (split_on 0x0a body)
                in if str_len first \<noteq> str_len body then
                     do { b \<leftarrow> str_truncate body (str_len first);
                          Some (b, (body_risk invisible body had ctl)\<lparr>pr_truncated := True\<rparr>) }
                   else Some (body, body_risk invisible body had ctl))
             else Some (body, body_risk invisible body had ctl)) = Some (?b1, risk)"
  proof (cases "?cut \<and> str_len (hd (split_on 0x0a body)) = str_len body")
    case True
    then have "?line = body" using first_line_whole [of body] by (auto simp: takeWhile_eq_all_conv)
    then have b: "?b1 = body" by simp
    show ?thesis by (rule that [of "body_risk invisible body had ctl"], unfold b)
        (use True in \<open>simp add: Let_def\<close>)
  next
    case False
    then show ?thesis
      using that [of "if ?cut then (body_risk invisible body had ctl)\<lparr>pr_truncated := True\<rparr>
          else body_risk invisible body had ctl"]
      by (auto simp: Let_def first_line_truncate)
  qed
  obtain b2 where two: "(if pp_submit policy \<and> ends_with ?b1 [0x0a] then str_truncate ?b1 (str_len ?b1 - 1)
             else Some ?b1) = Some b2" "echo_ok bracketed policy b2"
  proof (cases "pp_submit policy \<and> ends_with ?b1 [0x0a]")
    case True
    obtain t where t: "?b1 = t @ [0x0a]" "str_truncate ?b1 (str_len ?b1 - 1) = Some t"
      using drop_final_newline True by blast
    have "echo_ok bracketed policy (t @ [0x0a])" using b1 t(1) by simp
    then have "echo_ok bracketed policy t"
      using echo_ok_prefix [of t "[0x0a]"] by (auto simp: echo_ok_def)
    then show ?thesis using that [of t] True t(2) by simp
  next
    case False
    show ?thesis by (rule that [of ?b1], simp only: False if_False, rule b1)
  qed
  show ?thesis
    unfolding encode_paste_def d Let_def [of "body_risk _ _ _ _"]
    using two(2) by (auto simp: d one two(1) framed_bytes_def)
qed

subsection \<open>Admitted input\<close>

lemma no_marker_start:
  assumes "m \<in> set wire_markers" "marker_free wire_markers xs" "xs \<noteq> []" "0x7e \<notin> set (take 5 ys)"
  shows "\<not> starts_with (xs @ ys) m"
proof
  assume st: "starts_with (xs @ ys) m"
  have like: "marker_like m" using markers_like assms(1) by blast
  have len: "length m \<le> 6" using assms(1) by (auto simp: wire_markers_def text_markers_def marker_defs)
  have m: "m = take (length m) xs @ take (length m - length xs) ys"
    using st by (simp add: starts_with_def)
  show False
  proof (cases "length m \<le> length xs")
    case True
    then have "m = take (length m) xs" using m by simp
    then have "xs = [] @ m @ drop (length m) xs" by (metis append_Nil append_take_drop_id)
    then have "sublist m xs" unfolding sublist_def by blast
    then show False using assms(1,2) by (simp add: marker_free_def list_all_iff)
  next
    case False
    let ?k = "length m - length xs"
    have k: "?k \<le> 5" using len assms(3) by (cases xs) auto
    have ne: "take ?k ys \<noteq> []"
    proof
      assume "take ?k ys = []"
      then have "m = xs" using m False by simp
      then show False using False by simp
    qed
    then have "last m = last (take ?k ys)" using m by (metis last_appendR)
    then have "last m \<in> set (take ?k ys)" using last_in_set [OF ne] by simp
    moreover have "set (take ?k ys) \<subseteq> set (take 5 ys)" using k by (rule set_take_subset_set_take)
    ultimately show False using assms(4) like by (auto simp: marker_like_def)
  qed
qed

lemma first_len_None: "(\<And>m. m \<in> set ms \<Longrightarrow> \<not> p m) \<Longrightarrow> first_len p ms = None"
  by (auto simp: first_len_def find_None_iff)

lemma no_opener:
  assumes "marker_free wire_markers xs" "xs \<noteq> []" "0x7e \<notin> set (take 5 ys)"
  shows "opening_marker_len (xs @ ys) = None" "closing_marker_len (xs @ ys) = None"
proof -
  have "\<not> starts_with (xs @ ys) m" if "m \<in> set wire_markers" for m
    using no_marker_start [OF that assms] .
  then show "opening_marker_len (xs @ ys) = None" "closing_marker_len (xs @ ys) = None"
    unfolding opening_marker_len_def closing_marker_len_def
    by (intro first_len_None; force simp: wire_markers_def text_markers_def)+
qed

lemma marker_free_tl: "marker_free ms (x # xs) \<Longrightarrow> marker_free ms xs"
  by (auto simp: marker_free_def list_all_iff sublist_Cons_right)

text \<open>The body of a frame goes to the editor and submits nothing.\<close>

lemma admit_body:
  assumes "marker_free wire_markers body" "0x7e \<notin> set (take 5 rest)" "\<not> ai_submits_line r"
  shows "admit_loop (body @ rest) True (r, None) =
     admit_loop rest True (r\<lparr>ai_editor_bytes := ai_editor_bytes r @ body\<rparr>, None)"
  using assms
proof (induction body arbitrary: r)
  case (Cons b body)
  have none: "opening_marker_len (b # body @ rest) = None" "closing_marker_len (b # body @ rest) = None"
    using no_opener [of "b # body" rest] Cons.prems by simp_all
  have "admit_byte True (r, None) b = (r\<lparr>ai_editor_bytes := ai_editor_bytes r @ [b]\<rparr>, None)"
    using Cons.prems by (simp add: admit_byte_def Let_def)
  then show ?case
    using Cons.IH [of "r\<lparr>ai_editor_bytes := ai_editor_bytes r @ [b]\<rparr>"] Cons.prems
      marker_free_tl [OF Cons.prems(1)]
    by (subst append_Cons, subst admit_loop.simps) (simp add: none)
qed simp

lemma opener_at_start: "opening_marker_len (PASTE_START @ xs) = Some 6"
  by (simp add: opening_marker_len_def first_len_def starts_with_def PASTE_START_def)

lemma closer_at_start:
  "opening_marker_len (PASTE_END @ xs) = None" "closing_marker_len (PASTE_END @ xs) = Some 6"
  by (simp_all add: opening_marker_len_def closing_marker_len_def first_len_def starts_with_def
      marker_defs)

lemma lone_newline: "is_newline n \<Longrightarrow> opening_marker_len [n] = None \<and> closing_marker_len [n] = None"
  by (auto simp: opening_marker_len_def closing_marker_len_def first_len_def starts_with_def
      marker_defs is_newline_def)

lemma admit_at_marker:
  "d \<noteq> [] \<Longrightarrow> opening_marker_len d = Some n \<Longrightarrow>
     admit_loop d f st = admit_loop (drop n d) True ((fst st)\<lparr>ai_had_framing := True\<rparr>, snd st)"
  "d \<noteq> [] \<Longrightarrow> opening_marker_len d = None \<Longrightarrow> closing_marker_len d = Some n \<Longrightarrow>
     admit_loop d f st = admit_loop (drop n d) False ((fst st)\<lparr>ai_had_framing := True\<rparr>, snd st)"
  by (subst admit_loop.simps, cases d, simp, simp)+

lemma marker_lengths: "length PASTE_START = 6" "length PASTE_END = 6" "PASTE_START \<noteq> []" "PASTE_END \<noteq> []"
  by (simp_all add: marker_defs)

lemma admit_opener: "admit_loop (PASTE_START @ xs) f st =
    admit_loop xs True ((fst st)\<lparr>ai_had_framing := True\<rparr>, snd st)"
  using admit_at_marker(1) [OF _ opener_at_start] by (simp add: marker_lengths)

lemma admit_closer: "admit_loop (PASTE_END @ xs) f st =
    admit_loop xs False ((fst st)\<lparr>ai_had_framing := True\<rparr>, snd st)"
  using admit_at_marker(2) [OF _ closer_at_start] by (simp add: marker_lengths)

lemma admit_nil: "admit_loop [] f st = (fst st, f)"
  by (simp add: admit_loop.simps)

lemma admit_framed:
  assumes "marker_free wire_markers body" "tail = [] \<or> (\<exists>n. tail = [n] \<and> is_newline n)"
  shows "admitted_input (PASTE_START @ body @ PASTE_END @ tail) False =
    \<lparr>ai_wire_bytes = length body + length tail + 12, ai_editor_bytes = body @ tail,
     ai_submits_line = (tail \<noteq> []), ai_input_after_submission = False, ai_had_framing = True\<rparr>"
proof -
  have e: "0x7e \<notin> set (take 5 (PASTE_END @ tail))" by (simp add: PASTE_END_def)
  show ?thesis
    using assms(2) lone_newline
    by (auto simp: admitted_input_def admit_opener admit_body [OF assms(1) e] admit_closer admit_nil
        admit_loop.simps [of "[_]"] admit_byte_def Let_def marker_lengths)
qed

end
