(* ===== verification/Pty_Guard_Facts.thy ===== *)
theory Pty_Guard_Facts
  imports Pty_Input_Facts
begin

text \<open>
  The guard at the boundary of the terminal: what of a chunk is kept, and what the shell can make
  of it.
\<close>

subsection \<open>The scan of the body\<close>

definition openers :: "bytes set" where
  "openers = {PASTE_START, C1_PASTE_START, C1_PASTE_START_UTF8}"

definition closers :: "bytes set" where
  "closers = {PASTE_END, C1_PASTE_END_UTF8, C1_PASTE_END}"

definition opening_part :: "bytes \<Rightarrow> bool" where
  "opening_part pre \<longleftrightarrow>
     pre = [] \<or> pre \<in> openers \<or>
     (\<exists>m \<in> openers. pre = KILL_LINE # m)"

definition closing_part :: "bytes \<Rightarrow> bool" where
  "closing_part post \<longleftrightarrow>
     post = [] \<or> post \<in> closers \<or>
     (\<exists>m \<in> closers. \<exists>n. is_newline n \<and> post = m @ [n])"

text \<open>The state of the scan: the prefix is kept, and no marker is in what follows it.\<close>

definition scan_ok :: "bytes \<Rightarrow> bytes \<times> bool \<Rightarrow> bool" where
  "scan_ok pre st \<longleftrightarrow> (\<exists>body. fst st = pre @ body \<and> marker_free wire_markers body)"

lemma suffix_in_body:
  assumes m: "marker_like m" and suf: "suffix m (pre @ body)" and body: "body \<noteq> []"
    and pre: "pre = [] \<or> last pre = 0x7e"
  shows "suffix m body"
proof -
  have "suffix m body \<or> (\<exists>us. m = us @ body \<and> suffix us pre)"
    using suf by (simp add: suffix_append)
  then show ?thesis
  proof
    assume "\<exists>us. m = us @ body \<and> suffix us pre"
    then obtain us where us: "m = us @ body" "suffix us pre" by blast
    have "us = []"
    proof (rule ccontr)
      assume ne: "us \<noteq> []"
      then have "last us = last pre" "pre \<noteq> []" using us(2) by (auto simp: suffix_def)
      then have "last us = 0x7e" using pre by simp
      moreover have "us = butlast us @ [last us]" using ne by simp
      then have "butlast m = butlast us @ last us # butlast body"
        using us(1) body by (metis append.assoc append_Cons append_Nil butlast_append)
      ultimately have "0x7e \<in> set (butlast m)" by simp
      then show False using m by (simp add: marker_like_def)
    qed
    then show ?thesis using us(1) by simp
  qed
qed

lemma guard_push_pair:
  "guard_push n (out, changed) b =
     (if b = 0x7e then
        (case marker_len_at_end (if changed then out @ [b] else drop n (out @ [b])) of
           Some len \<Rightarrow> (take (length (out @ [b]) - len) (out @ [b]), True)
         | None \<Rightarrow> (out @ [b], changed))
      else (out @ [b], changed))"
  by (simp add: guard_push_def Let_def)

lemma guard_push_ok:
  assumes ok: "scan_ok pre st" and pre: "pre = [] \<or> last pre = 0x7e"
  shows "scan_ok pre (guard_push (length pre) st b)"
proof -
  obtain out changed where st: "st = (out, changed)" by fastforce
  obtain body where body: "out = pre @ body" "marker_free wire_markers body"
    using ok st by (auto simp: scan_ok_def)
  let ?where = "if changed then out @ [b] else drop (length pre) (out @ [b])"
  have found: "suffix m (body @ [b])" if "m \<in> set wire_markers" "suffix m ?where" for m
    using that suffix_in_body [OF markers_like [OF that(1)], of pre "body @ [b]"] pre body(1)
    by (cases changed) simp_all
  have lift: "suffix m (body @ [b]) \<Longrightarrow> suffix m ?where" for m
    using body(1) by (cases changed) (auto simp: suffix_append simp del: suffix_snoc)
  show ?thesis
  proof (cases "b = 0x7e")
    case False
    then have "marker_free wire_markers (body @ [b])"
      using marker_free_snoc [OF wire_like(1) body(2)] by simp
    then show ?thesis using False st body(1) by (simp add: guard_push_pair scan_ok_def)
  next
    case tilde: True
    show ?thesis
    proof (cases "marker_len_at_end ?where")
      case None
      then have "\<not> ends_with ?where m" if "m \<in> set wire_markers" for m
        using that by (auto simp: marker_len_wire first_len_def find_None_iff)
      then have "\<not> ends_with (body @ [b]) m" if "m \<in> set wire_markers" for m
        using that lift by (auto simp: ends_with_suffix simp del: suffix_snoc)
      then have "first_len (ends_with (body @ [b])) wire_markers = None" by (rule first_len_None)
      then have "marker_free wire_markers (body @ [b])"
        by (intro marker_free_snoc wire_like body(2))
      moreover have "guard_push (length pre) st b = (out @ [b], changed)"
        unfolding st guard_push_pair None by simp
      ultimately show ?thesis using body(1) by (simp add: scan_ok_def)
    next
      case (Some n)
      obtain m q where m: "m \<in> set wire_markers" "?where = q @ m" "n = length m"
        using first_len_Some Some unfolding marker_len_wire by blast
      have "suffix m ?where" using m(2) by (simp add: suffix_def)
      then have "suffix m (body @ [b])" using found [OF m(1)] by simp
      then obtain r where r: "body @ [b] = r @ m" by (auto simp: suffix_def)
      have "m \<noteq> []" using markers_like [OF m(1)] by (simp add: marker_like_def)
      then obtain m' x where "m = m' @ [x]" by (metis rev_exhaust)
      then have "body = r @ m'" using r by simp
      then have "marker_free wire_markers r" using body(2) marker_free_prefix by blast
      moreover have "take (length (out @ [b]) - n) (out @ [b]) = pre @ r"
        using r m(3) body(1) by (simp add: take_append)
      moreover have "guard_push (length pre) st b = (take (length (out @ [b]) - n) (out @ [b]), True)"
        unfolding st guard_push_pair Some using tilde by simp
      ultimately show ?thesis by (simp add: scan_ok_def)
    qed
  qed
qed

lemma guard_scan_ok:
  assumes "pre = [] \<or> last pre = 0x7e"
  shows "scan_ok pre (foldl (guard_push (length pre)) (pre, False) xs)"
proof (induction xs rule: rev_induct)
  case Nil
  show ?case by (simp add: scan_ok_def marker_free_Nil wire_like)
next
  case (snoc x xs)
  then show ?case using guard_push_ok [OF _ assms] by simp
qed

text \<open>As long as nothing changed the scan has kept the bytes it read.\<close>

lemma guard_scan_same:
  "\<not> snd (foldl (guard_push n) (pre, False) xs) \<Longrightarrow> fst (foldl (guard_push n) (pre, False) xs) = pre @ xs"
proof (induction xs rule: rev_induct)
  case (snoc x xs)
  then show ?case
    by (cases "foldl (guard_push n) (pre, False) xs")
      (auto simp: guard_push_pair split: if_splits option.splits)
qed simp

text \<open>A body without markers is not changed.\<close>

lemma guard_scan_clean:
  assumes "marker_free wire_markers body"
  shows "foldl (guard_push (length pre)) (pre, False) body = (pre @ body, False)"
  using assms
proof (induction body rule: rev_induct)
  case (snoc b body)
  have IH: "foldl (guard_push (length pre)) (pre, False) body = (pre @ body, False)"
    using snoc marker_free_prefix by blast
  have "\<not> ends_with (body @ [b]) m" if "m \<in> set wire_markers" for m
    using snoc.prems that by (auto simp: marker_free_def list_all_iff ends_with_suffix simp del: suffix_snoc)
  then have "marker_len_at_end (body @ [b]) = None"
    unfolding marker_len_wire by (rule first_len_None)
  then show ?case using IH by (cases "b = 0x7e") (auto simp: guard_push_pair)
qed simp

subsection \<open>The parts of a chunk\<close>

lemma first_len_starts:
  "first_len (starts_with d) ms = Some n \<Longrightarrow> \<exists>m \<in> set ms. n = length m \<and> d = m @ drop n d"
proof -
  assume "first_len (starts_with d) ms = Some n"
  then obtain m where m: "find (starts_with d) ms = Some m" "n = length m"
    by (auto simp: first_len_def)
  then have "m \<in> set ms" "take n d = m"
    by (auto simp: find_Some_iff starts_with_def)
  then show ?thesis using m(2) by (metis append_take_drop_id)
qed

lemma opening_len_Some:
  assumes "opening_marker_len d = Some n"
  obtains m where "m \<in> openers" "n = length m"
    "d = m @ drop n d"
  using first_len_starts [OF assms [unfolded opening_marker_len_def]] by (auto simp: openers_def)

lemma terminator_len_Some:
  assumes "terminator_len_at_end d = Some n"
  obtains m q where "m \<in> closers" "n = length m" "d = q @ m"
  using first_len_Some [OF assms [unfolded terminator_len_at_end_def]] by (auto simp: closers_def)

lemma openers_closers:
  "m \<in> openers \<Longrightarrow>
     m \<in> set wire_markers \<and> 2 \<le> length m \<and> last m = 0x7e \<and> last (butlast m) = 0x30"
  "t \<in> closers \<Longrightarrow>
     t \<in> set wire_markers \<and> 2 \<le> length t \<and> last t = 0x7e \<and> last (butlast t) = 0x31"
  by (auto simp: wire_markers_def text_markers_def marker_defs openers_def closers_def)

lemma last_butlast_append: "2 \<le> length m \<Longrightarrow> last (butlast (x @ m)) = last (butlast m)"
proof -
  assume "2 \<le> length m"
  then have "length (butlast m) \<noteq> 0" "length m \<noteq> 0" unfolding length_butlast by linarith+
  then have "butlast m \<noteq> []" "m \<noteq> []" by (metis list.size(3))+
  then show ?thesis by (simp add: butlast_append)
qed

text \<open>A closing marker at the end of a chunk does not overlap the opening one at its start.\<close>

lemma no_overlap:
  assumes m: "m \<in> openers"
    and t: "t \<in> closers"
    and split: "x @ m @ y = q @ t"
  shows "length (x @ m) \<le> length q"
proof (rule ccontr)
  assume "\<not> length (x @ m) \<le> length q"
  then have long: "length q < length (x @ m)" by simp
  obtain us where "x @ m = q @ us \<and> us @ y = t \<or> (x @ m) @ us = q \<and> y = us @ t"
    using split append_eq_append_conv2 [of "x @ m" y q t] by auto
  then have us: "x @ m = q @ us" "t = us @ y" using long by auto
  then have "us \<noteq> []" using long by auto
  then obtain u where u: "x @ m = q @ u" "t = u @ y" "u \<noteq> []" using us that by blast
  note mm = openers_closers(1) [OF m] and tt = openers_closers(2) [OF t]
  have "last u = 0x7e" using u(1,3) mm by (metis last_appendR list.size(3) not_numeral_le_zero)
  have "y = []"
  proof (rule ccontr)
    assume "y \<noteq> []"
    then have "butlast t = u @ butlast y" using u(2) by (simp add: butlast_append)
    then have "0x7e \<in> set (butlast t)" using u(3) \<open>last u = 0x7e\<close> last_in_set [OF u(3)] by simp
    moreover have "marker_like t" using tt markers_like by blast
    ultimately show False by (simp add: marker_like_def)
  qed
  then have "x @ m = q @ t" using u by simp
  then have "last (butlast m) = last (butlast t)" using last_butlast_append mm tt by metis
  then show False using mm tt by simp
qed

lemma no_overlap_tail:
  assumes m: "m \<in> openers"
    and t: "t \<in> closers"
    and split: "x @ m @ y = q @ t @ z" and z: "z = [] \<or> (\<exists>n. is_newline n \<and> z = [n])"
  shows "length (x @ m) \<le> length q"
  using z
proof
  assume "z = []"
  then show ?thesis using no_overlap [OF m t, of x y q] split by simp
next
  assume "\<exists>n. is_newline n \<and> z = [n]"
  then obtain n where n: "is_newline n" "z = [n]" by blast
  have mm: "last m = 0x7e" "m \<noteq> []" using openers_closers(1) [OF m] by auto
  have "y \<noteq> []"
  proof
    assume "y = []"
    then have "x @ m = (q @ t) @ [n]" using split n(2) by simp
    then have "last m = n" using mm(2) by (metis last_appendR last_snoc)
    then show False using n(1) mm(1) by (simp add: is_newline_def)
  qed
  then obtain y' b where "y = y' @ [b]" by (metis rev_exhaust)
  then have "x @ m @ y' = q @ t" using split n(2) by simp
  then show ?thesis using no_overlap [OF m t] by blast
qed

lemma chunk_opening:
  fixes f data
  defines "p \<equiv> chunk_of f data"
  assumes "data \<noteq> []"
  shows "(cp_body_start p = 0 \<or> (\<exists>x m y. m \<in> openers \<and>
      (x = [] \<or> x = [KILL_LINE]) \<and> data = x @ m @ y \<and> cp_body_start p = length (x @ m) \<and> cp_framed p)) \<and>
    (\<not> cp_framed p \<longrightarrow> cp_body_start p = 0 \<and> cp_body_end p = length data \<and> \<not> cp_trailing_close p)"
proof -
  let ?k = "\<not> f \<and> data \<noteq> [] \<and> hd data = KILL_LINE \<and> opening_marker_len (tl data) \<noteq> None"
  let ?pl = "if ?k then 1 else 0 :: nat"
  obtain ol where ol: "opening_marker_len (drop ?pl data) = ol" by simp
  have parts: "cp_body_start p = (case ol of Some len \<Rightarrow> ?pl + len | None \<Rightarrow> 0)"
    "cp_framed p = (f \<or> ol \<noteq> None)"
    unfolding p_def chunk_of_def Let_def ol by simp_all
  have close: "\<not> cp_framed p \<longrightarrow> cp_body_end p = length data \<and> \<not> cp_trailing_close p"
  proof
    assume "\<not> cp_framed p"
    then have "\<not> f" "ol = None" unfolding parts(2) by simp_all
    then show "cp_body_end p = length data \<and> \<not> cp_trailing_close p"
      unfolding p_def chunk_of_def Let_def ol by (simp split: option.split)
  qed
  show ?thesis
  proof (cases ol)
    case None
    then show ?thesis using parts close by simp
  next
    case (Some n)
    obtain m where m: "m \<in> openers" "n = length m"
      "drop ?pl data = m @ drop n (drop ?pl data)"
      using opening_len_Some Some ol by metis
    have "data = take ?pl data @ drop ?pl data" by simp
    then have d: "data = take ?pl data @ m @ drop n (drop ?pl data)" using m(3) by metis
    have x: "take ?pl data = [] \<or> take ?pl data = [KILL_LINE]" "length (take ?pl data) = ?pl"
      using assms(2) by (cases data; simp)+
    have "cp_body_start p = length (take ?pl data @ m)" "cp_framed p"
      using parts Some m(2) x(2) by simp_all
    then show ?thesis using d x(1) m(1) close by blast
  qed
qed

lemma chunk_closing:
  fixes f data
  defines "p \<equiv> chunk_of f data"
  assumes "data \<noteq> []"
  shows "cp_body_end p \<le> length data \<and> closing_part (drop (cp_body_end p) data) \<and>
    (cp_body_end p = length data \<or>
      (\<exists>q t z. t \<in> closers \<and> data = q @ t @ z \<and>
         cp_body_end p = length q \<and> (z = [] \<or> (\<exists>n. is_newline n \<and> z = [n]))))"
proof -
  let ?sub = "cp_framed p \<and> is_newline (last data) \<and> ends_with_terminator (butlast data)"
  let ?fe = "length data - (if ?sub then 1 else 0)"
  obtain tl where tl: "terminator_len_at_end (take ?fe data) = tl" by simp
  have e: "cp_body_end p = (case tl of Some len \<Rightarrow> if cp_trailing_close p then ?fe - len else length data
            | None \<Rightarrow> length data)"
    by (simp only: tl [symmetric] p_def chunk_of_def Let_def chunk_parts.simps)
  show ?thesis
  proof (cases "tl = None \<or> \<not> cp_trailing_close p")
    case True
    then have "cp_body_end p = length data" using e by (auto split: option.split)
    then show ?thesis by (simp add: closing_part_def)
  next
    case False
    then obtain n where n: "tl = Some n" by auto
    obtain t q where t: "t \<in> closers" "n = length t"
      "take ?fe data = q @ t" using terminator_len_Some tl n by metis
    let ?z = "drop ?fe data"
    have z: "?z = [] \<or> (\<exists>n. is_newline n \<and> ?z = [n])"
    proof (cases ?sub)
      case True
      have "drop (length data - 1) data = [last data]"
        using assms(2) by (cases data rule: rev_cases) simp_all
      then show ?thesis using True by simp
    next
      case False
      have "?fe = length data" by (simp only: False if_False)
      then show ?thesis by simp
    qed
    have data: "data = q @ t @ ?z" using t(3) append_take_drop_id [of ?fe data] by simp
    have "length (take ?fe data) = ?fe" by simp
    then have len: "cp_body_end p = length q" using e n False t(2,3) by simp
    have "drop (length q) data = t @ ?z" by (subst data) simp
    then have "closing_part (drop (cp_body_end p) data)"
      using t(1) z len unfolding closing_part_def by auto
    then show ?thesis using data t(1) z len by (metis le_add1 length_append)
  qed
qed

text \<open>A chunk is its opening, a body and its closing.\<close>

lemma chunk_split:
  assumes "data \<noteq> []"
  obtains pre body post where "data = pre @ body @ post"
    "cp_body_start (chunk_of f data) = length pre" "cp_body_end (chunk_of f data) = length (pre @ body)"
    "opening_part pre" "pre = [] \<or> last pre = 0x7e" "closing_part post"
    "\<not> cp_framed (chunk_of f data) \<Longrightarrow> pre = [] \<and> post = []"
proof -
  let ?p = "chunk_of f data"
  note op = chunk_opening [OF assms, of f] and cl = chunk_closing [OF assms, of f]
  let ?s = "cp_body_start ?p" and ?e = "cp_body_end ?p"
  have e: "?e \<le> length data" and post: "closing_part (drop ?e data)" using cl by blast+
  have start: "?s \<le> ?e \<and> opening_part (take ?s data) \<and> (take ?s data = [] \<or> last (take ?s data) = 0x7e)"
  proof (cases "?s = 0")
    case True
    then show ?thesis by (simp add: opening_part_def)
  next
    case False
    then have "\<exists>x m y. m \<in> openers \<and> (x = [] \<or> x = [KILL_LINE]) \<and> data = x @ m @ y \<and>
        ?s = length (x @ m)" using op by (elim conjE disjE) (simp, blast)
    then obtain x m y where m: "m \<in> openers"
      and x: "x = [] \<or> x = [KILL_LINE]" and d: "data = x @ m @ y" and sl: "?s = length (x @ m)"
      by (elim exE conjE) (rule that; assumption)
    have "last m = 0x7e \<and> m \<noteq> []" using openers_closers(1) [OF m] by auto
    moreover have tk: "take ?s data = x @ m" using d sl by simp
    moreover have "opening_part (x @ m)" using m x unfolding opening_part_def by auto
    moreover have "?s \<le> ?e"
    proof (cases "?e = length data")
      case True
      then show ?thesis using d sl by simp
    next
      case False
      then have "\<exists>q t z. t \<in> closers \<and> data = q @ t @ z \<and> ?e = length q \<and>
          (z = [] \<or> (\<exists>n. is_newline n \<and> z = [n]))" using cl by simp
      then obtain q t z where t: "t \<in> closers"
        "data = q @ t @ z" "?e = length q" "z = [] \<or> (\<exists>n. is_newline n \<and> z = [n])"
        by (elim exE conjE) (rule that; assumption)
      show ?thesis using no_overlap_tail [OF m t(1) _ t(4), of x y q] d t(2,3) sl by simp
    qed
    ultimately show ?thesis by simp
  qed
  let ?pre = "take ?s data" and ?body = "drop ?s (take ?e data)" and ?post = "drop ?e data"
  have "take ?e data = ?pre @ ?body" using start by (metis append_take_drop_id min_def take_take)
  then have data: "data = ?pre @ ?body @ ?post" by (metis append.assoc append_take_drop_id)
  show thesis
  proof (rule that [OF data])
    show "?s = length ?pre" "?e = length (?pre @ ?body)" using start e by simp_all
    show "opening_part ?pre" "?pre = [] \<or> last ?pre = 0x7e" "closing_part ?post"
      using start post by blast+
    show "?pre = [] \<and> ?post = []" if "\<not> cp_framed ?p" using op that by simp
  qed
qed

subsection \<open>What the guard lets through\<close>

lemma guard_rewrites:
  assumes ne: "data \<noteq> []"
  obtains pre body kept post where "data = pre @ body @ post" "opening_part pre" "closing_part post"
    "marker_free wire_markers kept" "marker_free wire_markers body \<Longrightarrow> kept = body"
    "\<not> cp_framed (chunk_of f data) \<Longrightarrow> pre = [] \<and> post = []"
    "snd (guard_filter f data bracketed policy) =
       (if cp_framed (chunk_of f data) then pre @ kept @ post
        else apply_multiline_policy (pre @ kept @ post) bracketed policy)"
proof (rule chunk_split [OF ne, of f])
  fix pre body post
  assume split: "data = pre @ body @ post" "cp_body_start (chunk_of f data) = length pre"
      "cp_body_end (chunk_of f data) = length (pre @ body)" and parts: "opening_part pre"
      "pre = [] \<or> last pre = 0x7e" "closing_part post"
    and plain: "\<not> cp_framed (chunk_of f data) \<Longrightarrow> pre = [] \<and> post = []"
  obtain out changed where scan: "foldl (guard_push (length pre)) (pre, False) body = (out, changed)"
    by fastforce
  obtain kept where kept: "out = pre @ kept" "marker_free wire_markers kept"
    using guard_scan_ok [OF parts(2), of body] scan by (auto simp: scan_ok_def)
  have same: "kept = body" if "\<not> changed"
    using guard_scan_same [of "length pre" pre body] scan kept(1) that by simp
  have clean: "kept = body" if "marker_free wire_markers body"
    using guard_scan_clean [OF that, of pre] scan kept(1) by simp
  have "snd (guard_filter f data bracketed policy) =
       (if cp_framed (chunk_of f data) then pre @ kept @ post
        else apply_multiline_policy (pre @ kept @ post) bracketed policy)"
  proof -
    have ends: "take (length pre) data = pre"
      "take (length (pre @ body) - length pre) (drop (length pre) data) = body"
      "drop (length (pre @ body)) data = post" by (simp_all add: split(1))
    show ?thesis
      using ne kept(1) same split(1)
      unfolding guard_filter_def Let_def split(2,3) ends scan by (cases changed) auto
  qed
  then show thesis using that [OF split(1) parts(1,3) kept(2) clean plain] by blast
qed

lemma marker_free_infix:
  "marker_free ms (xs @ ys @ zs) \<Longrightarrow> marker_free ms ys"
  by (auto simp: marker_free_def list_all_iff sublist_append)

lemma newline_tail:
  assumes "ends_with d [0x0d] \<or> ends_with d [0x0a]"
  shows "\<exists>n. is_newline n \<and> d = take (length d - 1) d @ [n] \<and> drop (length d - 1) d = [n]"
  using assms by (auto simp: ends_with_suffix suffix_def is_newline_def)

definition guard_form :: "bytes \<Rightarrow> bool" where
  "guard_form out \<longleftrightarrow>
     (\<exists>pre body post. out = pre @ body @ post \<and> opening_part pre \<and> closing_part post \<and>
        marker_free wire_markers body)"

lemma guard_form_parts:
  "opening_part pre \<Longrightarrow> closing_part post \<Longrightarrow> marker_free wire_markers body \<Longrightarrow>
     guard_form (pre @ body @ post)"
  unfolding guard_form_def by blast

lemma part_simps:
  "opening_part []" "closing_part []" "opening_part PASTE_START" "closing_part PASTE_END"
  "is_newline n \<Longrightarrow> closing_part (PASTE_END @ [n])"
  by (auto simp: opening_part_def closing_part_def openers_def closers_def)

lemma guard_form_plain: "marker_free wire_markers d \<Longrightarrow> guard_form d"
  using guard_form_parts [OF part_simps(1,2), of d] by simp

lemma multiline_form:
  assumes "marker_free wire_markers d"
  shows "guard_form (apply_multiline_policy d bracketed policy)"
proof -
  have cut: "marker_free wire_markers (take n d)" for n
    using assms marker_free_prefix [of wire_markers "take n d" "drop n d"] by simp
  note plain = guard_form_plain [OF assms] guard_form_plain [OF cut]
  show ?thesis
  proof (cases "ends_with d [0x0d] \<or> ends_with d [0x0a]")
    case True
    obtain n where n: "is_newline n" "drop (length d - 1) d = [n]" using newline_tail [OF True] by blast
    have "guard_form (PASTE_START @ take (length d - 1) d @ PASTE_END @ [n])"
      using guard_form_parts [OF part_simps(3) part_simps(5) [OF n(1)] cut] .
    then show ?thesis
      using plain True n(2) unfolding apply_multiline_policy_def Let_def
      by (simp split: option.split unbracketed_multiline.split)
  next
    case False
    have "guard_form (PASTE_START @ d @ PASTE_END @ [])"
      using guard_form_parts [OF part_simps(3,4) assms] by simp
    then show ?thesis
      using plain False unfolding apply_multiline_policy_def Let_def
      by (simp split: option.split unbracketed_multiline.split)
  qed
qed

text \<open>
  Whatever bytes a caller writes, in whatever state of the guard and under every policy, what
  the guard lets through is at most one opening marker (with the Ctrl+U of a prompt replacement
  before it), a body in which no marker of any spelling occurs, and at most one closing marker with
  one newline after it.
\<close>

theorem guard_output_form:
  "\<exists>pre body post. snd (guard_filter in_frame data bracketed policy) = pre @ body @ post \<and>
     opening_part pre \<and> closing_part post \<and> marker_free wire_markers body"
proof (cases "data = []")
  case True
  have "marker_free wire_markers []" by (simp add: marker_free_Nil wire_like)
  then show ?thesis
    using True by (auto simp: guard_filter_def opening_part_def closing_part_def)
next
  case False
  show ?thesis
  proof (rule guard_rewrites [OF False, of in_frame bracketed policy])
    fix pre body kept post
    assume p: "opening_part pre" "closing_part post" "marker_free wire_markers kept"
      "\<not> cp_framed (chunk_of in_frame data) \<Longrightarrow> pre = [] \<and> post = []"
      "snd (guard_filter in_frame data bracketed policy) =
       (if cp_framed (chunk_of in_frame data) then pre @ kept @ post
        else apply_multiline_policy (pre @ kept @ post) bracketed policy)"
    show ?thesis
    proof (cases "cp_framed (chunk_of in_frame data)")
      case True
      then show ?thesis using p by auto
    next
      case False
      then show ?thesis using p multiline_form [OF p(3), of bracketed policy] by (simp add: guard_form_def)
    qed
  qed
qed

subsection \<open>What the shell makes of it\<close>

lemma admit_plain:
  assumes "marker_free wire_markers xs" "list_all (\<lambda>b. \<not> is_newline b) xs" "0x7e \<notin> set (take 5 rest)"
    "\<not> ai_submits_line r"
  shows "admit_loop (xs @ rest) False (r, None) =
     admit_loop rest False (r\<lparr>ai_editor_bytes := ai_editor_bytes r @ xs\<rparr>, None)"
  using assms
proof (induction xs arbitrary: r)
  case (Cons b xs)
  have none: "opening_marker_len (b # xs @ rest) = None" "closing_marker_len (b # xs @ rest) = None"
    using no_opener [of "b # xs" rest] Cons.prems by simp_all
  have "admit_byte False (r, None) b = (r\<lparr>ai_editor_bytes := ai_editor_bytes r @ [b]\<rparr>, None)"
    using Cons.prems by (simp add: admit_byte_def Let_def)
  then show ?case
    using Cons.IH [of "r\<lparr>ai_editor_bytes := ai_editor_bytes r @ [b]\<rparr>"] Cons.prems
      marker_free_tl [OF Cons.prems(1)]
    by (subst append_Cons, subst admit_loop.simps) (simp add: none)
qed simp

text \<open>One line and perhaps the newline that submits it.\<close>

lemma admit_one_line:
  assumes "marker_free wire_markers xs" "list_all (\<lambda>b. \<not> is_newline b) xs"
    and "tail = [] \<or> (\<exists>n. tail = [n] \<and> is_newline n)"
  shows "\<not> ai_input_after_submission (admitted_input (xs @ tail) False)"
proof -
  have "0x7e \<notin> set (take 5 tail)" using assms(3) by (auto simp: is_newline_def)
  then show ?thesis
    using assms(3) lone_newline
    by (auto simp: admitted_input_def admit_plain [OF assms(1,2)] admit_nil admit_loop.simps [of "[_]"]
        admit_byte_def Let_def)
qed

lemma position_take: "position p xs = Some i \<Longrightarrow> list_all (\<lambda>x. \<not> p x) (take i xs)"
  using position_first [of p xs i] by (auto simp: list_all_length)

lemma multiline_one_line:
  assumes free: "marker_free wire_markers d" and pol: "bracketed \<or> pp_multiline policy = FirstLineOnly"
  shows "\<not> ai_input_after_submission (admitted_input (apply_multiline_policy d bracketed policy) False)"
proof -
  have cut: "marker_free wire_markers (take n d)" for n
    using free marker_free_prefix [of wire_markers "take n d" "drop n d"] by simp
  let ?sub = "ends_with d [0x0d] \<or> ends_with d [0x0a]"
  let ?k = "if ?sub then length d - 1 else length d"
  let ?tail = "drop ?k d"
  have tail: "?tail = [] \<or> (\<exists>n. ?tail = [n] \<and> is_newline n)"
  proof (cases ?sub)
    case True
    then show ?thesis using newline_tail [OF True] by auto
  next
    case False
    have "?k = length d" by (simp only: False if_False)
    then show ?thesis by simp
  qed
  show ?thesis
  proof (cases "position is_newline (take ?k d)")
    case None
    then have "list_all (\<lambda>b. \<not> is_newline b) (take ?k d)" by (simp add: position_None list_all_iff)
    then have "\<not> ai_input_after_submission (admitted_input (take ?k d @ ?tail) False)"
      using admit_one_line [OF cut _ tail] by blast
    then show ?thesis unfolding apply_multiline_policy_def Let_def None by simp
  next
    case (Some i)
    show ?thesis
    proof (cases bracketed)
      case True
      have "apply_multiline_policy d True policy = PASTE_START @ take ?k d @ PASTE_END @ ?tail"
        unfolding apply_multiline_policy_def Let_def Some by simp
      then show ?thesis using True admit_framed [OF cut tail] by simp
    next
      case False
      have "i < min (length d) ?k" using position_Some [OF Some] by (simp only: length_take)
      then have "min i ?k = i" by (intro min_absorb1) (simp only: min_less_iff_conj less_imp_le)
      then have "take i (take ?k d) = take i d" by (simp only: take_take)
      then have line: "list_all (\<lambda>b. \<not> is_newline b) (take i d)" using position_take [OF Some] by simp
      have "apply_multiline_policy d False policy = take i d @ []"
        using pol False unfolding apply_multiline_policy_def Let_def Some by simp
      then show ?thesis using False admit_one_line [OF cut line, of "[]"] by simp
    qed
  qed
qed

text \<open>
  C12: Where the shell advertises bracketed paste, or the policy is to keep the first line, a write
  that is not part of a paste frame runs at most one line, and nothing reaches the shell after it: the
  admitted bytes have no input after a submission, whatever newlines and markers the caller's bytes
  had.  (Without bracketed paste, the policy that sends text verbatim sends every line, as documented.)
\<close>

theorem guard_runs_one_line:
  assumes "\<not> cp_framed (chunk_of False data)" and "bracketed \<or> pp_multiline policy = FirstLineOnly"
  shows "\<not> ai_input_after_submission
     (admitted_input (snd (guard_filter False data bracketed policy)) False)"
proof (cases "data = []")
  case True
  then show ?thesis by (simp add: guard_filter_def admitted_input_def admit_nil)
next
  case False
  show ?thesis
  proof (rule guard_rewrites [OF False, of False bracketed policy])
    fix pre body kept post
    assume "marker_free wire_markers kept"
      "\<not> cp_framed (chunk_of False data) \<Longrightarrow> pre = [] \<and> post = []"
      "snd (guard_filter False data bracketed policy) =
       (if cp_framed (chunk_of False data) then pre @ kept @ post
        else apply_multiline_policy (pre @ kept @ post) bracketed policy)"
    then show ?thesis using assms multiline_one_line [of kept bracketed policy] by simp
  qed
qed

theorem guard_runs_one_line_witness:
  "\<not> ai_input_after_submission (admitted_input
     (snd (guard_filter False [0x6c, 0x73, 0x0a, 0x72, 0x6d, 0x0d] False (clipboard_policy FirstLineOnly)))
     False)"
  by (rule guard_runs_one_line)
    (simp_all add: chunk_of_def Let_def opening_marker_len_def first_len_def starts_with_def marker_defs
      KILL_LINE_def clipboard_policy_def)

text \<open>
  The frame of a paste passes the guard unchanged and is closed again, and the shell sees exactly
  the body as pasted text.
\<close>

lemma framed_paste_admitted:
  assumes "marker_free wire_markers body" and "body \<noteq> []"
  shows "guard_filter False (framed_bytes True policy body) bracketed policy' =
      (False, framed_bytes True policy body) \<and>
    admitted_input (framed_bytes True policy body) False =
      \<lparr>ai_wire_bytes = length (framed_bytes True policy body),
       ai_editor_bytes = body @ (if pp_submit policy then [0x0d] else []),
       ai_submits_line = pp_submit policy, ai_input_after_submission = False,
       ai_had_framing = True\<rparr>"
proof -
  let ?tail = "if pp_submit policy then [0x0d] else [] :: bytes"
  let ?d = "PASTE_START @ body @ PASTE_END @ ?tail"
  have d: "framed_bytes True policy body = ?d" using assms(2) by (simp add: framed_bytes_def)
  have tail: "?tail = [] \<or> (\<exists>n. ?tail = [n] \<and> is_newline n)" by (simp add: is_newline_def)
  have close: "terminator_len_at_end (PASTE_START @ body @ PASTE_END) = Some 6"
    by (simp add: terminator_len_at_end_def first_len_def ends_with_suffix suffix_append marker_lengths)
  have chunk: "chunk_of False ?d =
    \<lparr>cp_body_start = 6, cp_body_end = 6 + length body, cp_framed = True, cp_trailing_close = True\<rparr>"
  proof -
    have hd: "hd ?d \<noteq> KILL_LINE" "?d \<noteq> []" by (simp_all add: PASTE_START_def KILL_LINE_def)
    have op: "opening_marker_len ?d = Some 6" by (rule opener_at_start)
    show ?thesis
    proof (cases "pp_submit policy")
      case True
      have "butlast ?d = PASTE_START @ body @ PASTE_END" "last ?d = 0x0d"
        "take (length ?d - 1) ?d = PASTE_START @ body @ PASTE_END"
        using True by (simp_all add: butlast_append)
      then show ?thesis
        using hd op close True
        by (simp add: chunk_of_def Let_def ends_with_terminator_def is_newline_def marker_lengths)
    next
      case False
      have "last ?d = 0x7e" using False by (simp add: PASTE_END_def)
      then show ?thesis
        using hd op close False
        by (simp add: chunk_of_def Let_def ends_with_terminator_def is_newline_def marker_lengths)
    qed
  qed
  have "guard_filter False ?d bracketed policy' = (False, ?d)"
    using guard_scan_clean [OF assms(1), of PASTE_START]
    by (simp add: guard_filter_def chunk Let_def marker_lengths)
  moreover have "admitted_input ?d False = \<lparr>ai_wire_bytes = length ?d,
       ai_editor_bytes = body @ ?tail, ai_submits_line = pp_submit policy,
       ai_input_after_submission = False, ai_had_framing = True\<rparr>"
    using admit_framed [OF assms(1) tail] by (simp add: marker_lengths)
  ultimately show ?thesis unfolding d by simp
qed

end
