(* ===== verification/Pty_Paste_Properties.thy ===== *)
theory Pty_Paste_Properties
  imports Pty_Guard_Facts
begin

text \<open>
  What pasting promises from the clipboard to the shell: the encoder of \<open>src/src/pty_input.rs\<close>
  followed by the input guard and the reader of admitted input.
\<close>

text \<open>Text without a marker passes \<open>defang\<close> unchanged.\<close>

lemma defang_push_free:
  assumes "marker_free text_markers (str_bytes (out @ [ch]))"
  shows "defang_push (out, had) ch = Some (out @ [ch], had)"
proof -
  have "\<not> ends_with (str_bytes (out @ [ch])) m" if "m \<in> set text_markers" for m
    using assms that by (auto simp: marker_free_def ends_with_suffix list_all_iff)
  then have "marker_len_at_end_str (out @ [ch]) = None"
    unfolding marker_len_str by (intro first_len_None) blast
  then show ?thesis by (cases "ch = 0x7e") (simp_all add: defang_push_def Let_def)
qed

lemma defang_pass1_free:
  "marker_free text_markers (str_bytes (out @ s)) \<Longrightarrow>
     foldM defang_push (out, had) s = Some (out @ s, had)"
proof (induction s arbitrary: out)
  case (Cons ch s)
  have "marker_free text_markers (str_bytes (out @ [ch]))"
    using marker_free_prefix [of text_markers "str_bytes (out @ [ch])" "str_bytes s"] Cons.prems by simp
  then show ?case using Cons.IH [of "out @ [ch]"] Cons.prems by (simp add: defang_push_free)
qed simp

lemma defang_free:
  assumes "marker_free text_markers (str_bytes s)"
  shows "defang s strip =
    Some (if strip then filter (\<lambda>c. \<not> is_paste_control c) s else s, False, list_ex is_paste_control s)"
  using assms by (simp add: defang_def defang_pass1_free Let_def)

lemma replace_absent: "a \<notin> set s \<Longrightarrow> replace_char a b s = s"
  by (induction s) (auto simp: replace_char_def)

lemma replace_pair_absent: "a \<notin> set s \<Longrightarrow> replace_pair a b c s = s"
  by (induction a b c s rule: replace_pair.induct) auto

lemma normalize_absent: "0x0d \<notin> set s \<Longrightarrow> normalize_newlines s = s"
  by (simp add: normalize_newlines_def replace_absent replace_pair_absent)

text \<open>Seven-bit text has no byte of a C1 marker.\<close>

lemma ascii_bytes: "list_all (\<lambda>c. c < 0x80) s \<Longrightarrow> str_bytes s = map ucast s"
  by (induction s) (simp_all add: encode_utf8_def str_bytes_def)

lemma ascii_wire_free:
  assumes "list_all (\<lambda>c. c < 0x80) s" and free: "marker_free text_markers (str_bytes s)"
  shows "marker_free wire_markers (str_bytes s)"
proof -
  have "(0x9b :: u8) \<noteq> ucast c" if "c \<in> set s" for c
  proof
    assume eq: "(0x9b :: u8) = ucast c"
    have "c < 0x80" using assms(1) that by (simp add: list_all_iff)
    then have "unat (ucast c :: u8) < 0x80"
      by (simp add: word_less_nat_alt unat_ucast8)
    then show False using eq [symmetric] by simp
  qed
  then have "0x9b \<notin> set (str_bytes s)" by (auto simp: ascii_bytes [OF assms(1)])
  then have "\<not> sublist m (str_bytes s)" if "m \<in> {C1_PASTE_START, C1_PASTE_END}" for m
    using that by (auto simp: marker_defs dest: set_mono_sublist)
  then show ?thesis using free by (simp add: wire_markers_def marker_free_def)
qed

text \<open>The echo is the start of the cleaned text.\<close>

lemma truncate_prefix: "str_truncate s n = Some t \<Longrightarrow> prefix t s"
  by (induction s n arbitrary: t rule: str_truncate.induct) (auto split: if_splits)

lemma encode_paste_echo:
  assumes "encode_paste invisible s bracketed policy = Some p"
  obtains body ctl where
    "defang (normalize_newlines s) (pp_strip_controls policy) = Some (body, pr_marker (ps_risk p), ctl)"
    "prefix (ps_echo p) body"
  using assms
  by (auto simp: encode_paste_def Let_def body_risk_def bind_eq_Some_conv
      split: if_splits dest!: truncate_prefix intro: prefix_order.trans)

lemma split_on_single: "length (split_on a xs) = 1 \<longleftrightarrow> a \<notin> set xs"
proof (induction xs)
  case (Cons x xs)
  have "split_on a xs \<noteq> []" using hd_split_on [of a xs] by blast
  then show ?case using Cons by (auto split: list.split)
qed simp

lemma str_len_filter: "str_len (filter P s) \<le> str_len s"
  by (induction s) auto

lemma str_len_prefix: "prefix t s \<Longrightarrow> str_len t \<le> str_len s"
  by (auto simp: prefix_def)

lemma defang_strip:
  assumes "defang s False = Some (body, had, ctl)"
  shows "defang s strip = Some (if strip then filter (\<lambda>c. \<not> is_paste_control c) body else body, had, ctl)"
  using assms by (auto simp: defang_def Let_def bind_eq_Some_conv)

text \<open>
  C10: Whatever the clipboard holds, encoding never panics, and what is written is exactly the echoed
  text in its frame: the text has no paste marker, not even one spliced from the pieces around a
  removed one, no carriage return, no control character but tab and line feed where the policy
  strips them, and one line only where the first-line policy applies; nothing is written of an
  empty text, and a submitting return stands outside the frame.
\<close>

theorem encode_paste_neutralizes:
  assumes "str_ok s"
  shows "\<exists>p. encode_paste invisible s bracketed policy = Some p \<and>
    ps_bytes p = framed_bytes bracketed policy (str_bytes (ps_echo p)) \<and>
    marker_free text_markers (str_bytes (ps_echo p)) \<and> 0x0d \<notin> set (ps_echo p) \<and>
    (pp_strip_controls policy \<longrightarrow> list_all (\<lambda>c. \<not> is_paste_control c) (ps_echo p)) \<and>
    (\<not> bracketed \<and> pp_multiline policy = FirstLineOnly \<longrightarrow> 0x0a \<notin> set (ps_echo p))"
  using encode_paste_runs [OF assms, of invisible bracketed policy]
  by (auto simp: runs_def echo_ok_def)

theorem encode_paste_neutralizes_witness:
  "\<exists>p. encode_paste (\<lambda>_. False) [0x1b, 0x5b, 0x1b, 0x5b, 0x32, 0x30, 0x31, 0x7e, 0x32, 0x30, 0x31, 0x7e]
       True (clipboard_policy FirstLineOnly) = Some p \<and>
     ps_bytes p = framed_bytes True (clipboard_policy FirstLineOnly) (str_bytes (ps_echo p)) \<and>
     marker_free text_markers (str_bytes (ps_echo p)) \<and> 0x0d \<notin> set (ps_echo p) \<and>
     (pp_strip_controls (clipboard_policy FirstLineOnly) \<longrightarrow>
        list_all (\<lambda>c. \<not> is_paste_control c) (ps_echo p)) \<and>
     (\<not> True \<and> pp_multiline (clipboard_policy FirstLineOnly) = FirstLineOnly \<longrightarrow> 0x0a \<notin> set (ps_echo p))"
  by (rule encode_paste_neutralizes) (simp add: is_scalar_def)

text \<open>
  Pasting does not alter ordinary text: a text without markers, carriage returns and control
  characters is echoed and framed as it is wherever several lines may pass.
\<close>

theorem encode_paste_faithful:
  assumes "marker_free text_markers (str_bytes s)" and "0x0d \<notin> set s"
    and "list_all (\<lambda>c. \<not> is_paste_control c) s"
    and "bracketed \<or> pp_multiline policy = SendVerbatim" and "\<not> pp_submit policy" and "s \<noteq> []"
  shows "encode_paste invisible s bracketed policy =
    Some \<lparr>ps_bytes = (if bracketed then PASTE_START @ str_bytes s @ PASTE_END else str_bytes s),
      ps_echo = s, ps_risk = body_risk invisible s False False\<rparr>"
proof -
  have "filter (\<lambda>c. \<not> is_paste_control c) s = s" "\<not> list_ex is_paste_control s"
    using assms(3) by (simp_all add: list_all_iff list_ex_iff)
  then show ?thesis
    using assms by (auto simp: encode_paste_def normalize_absent defang_free Let_def)
qed

theorem encode_paste_faithful_witness:
  "encode_paste (\<lambda>_. False) [0x6c, 0x73, 0x0a, 0x70, 0x77, 0x64] True (clipboard_policy FirstLineOnly) =
    Some \<lparr>ps_bytes = (if True then PASTE_START @ str_bytes [0x6c, 0x73, 0x0a, 0x70, 0x77, 0x64] @ PASTE_END
        else str_bytes [0x6c, 0x73, 0x0a, 0x70, 0x77, 0x64]),
      ps_echo = [0x6c, 0x73, 0x0a, 0x70, 0x77, 0x64],
      ps_risk = body_risk (\<lambda>_. False) [0x6c, 0x73, 0x0a, 0x70, 0x77, 0x64] False False\<rparr>"
proof (rule encode_paste_faithful)
  have "0x7e \<notin> set (str_bytes [0x6c, 0x73, 0x0a, 0x70, 0x77, 0x64])" by (simp add: encode_utf8_def)
  then show "marker_free text_markers (str_bytes [0x6c, 0x73, 0x0a, 0x70, 0x77, 0x64])"
    by (auto simp: marker_free_def text_markers_def marker_defs dest: set_mono_sublist)
qed (simp_all add: is_paste_control_def clipboard_policy_def)

text \<open>
  Asking for confirmation and encoding agree: the marker the encoder reports is the one the
  classification reports, and a paste that needs no confirmation has one line, no marker and no
  deceptive character, and is within the limits.
\<close>

theorem unconfirmed_paste_is_plain:
  assumes "str_ok s"
  shows "\<exists>risk p. classify_paste invisible s = Some risk \<and>
    encode_paste invisible s bracketed policy = Some p \<and> pr_marker (ps_risk p) = pr_marker risk \<and>
    (\<not> should_confirm risk n \<longrightarrow>
       0x0a \<notin> set (ps_echo p) \<and> str_len (ps_echo p) \<le> n \<and> \<not> pr_marker risk \<and>
       str_len (ps_echo p) \<le> MAX_REVIEW_INPUT_BYTES)"
proof -
  let ?s = "normalize_newlines s"
  obtain body had ctl where d: "defang ?s False = Some (body, had, ctl)"
    using defang_runs [OF str_ok_normalize [OF assms], of False] by (auto simp: runs_def)
  obtain p where p: "encode_paste invisible s bracketed policy = Some p"
    using encode_paste_runs [OF assms, of invisible bracketed policy] by (auto simp: runs_def)
  obtain kept where k: "defang ?s (pp_strip_controls policy) = Some (kept, had, ctl)"
    "set kept \<subseteq> set body" "str_len kept \<le> str_len body"
    using defang_strip [OF d, of "pp_strip_controls policy"] str_len_filter [of "\<lambda>c. \<not> is_paste_control c" body]
    by (cases "pp_strip_controls policy") (fastforce intro: that)+
  have echo: "prefix (ps_echo p) kept" "pr_marker (ps_risk p) = had"
    using encode_paste_echo [OF p] k(1) by auto
  have sub: "set (ps_echo p) \<subseteq> set body" "str_len (ps_echo p) \<le> str_len body"
    using set_mono_prefix [OF echo(1)] str_len_prefix [OF echo(1)] k by auto
  let ?risk = "body_risk invisible body had ctl"
  have cl: "classify_paste invisible s = Some ?risk" using d by (simp add: classify_paste_def)
  have "0x0a \<notin> set body \<and> str_len body \<le> n \<and> \<not> had \<and> str_len body \<le> MAX_REVIEW_INPUT_BYTES"
    if "\<not> should_confirm ?risk n"
  proof -
    have "length (split_on 0x0a body) \<noteq> 0" using hd_split_on [of "0x0a" body] by simp
    moreover have "\<not> 1 < length (split_on 0x0a body)" using that by (simp add: should_confirm_def body_risk_def)
    ultimately have "length (split_on 0x0a body) = 1" by linarith
    then show ?thesis using that split_on_single [of "0x0a" body] by (auto simp: should_confirm_def body_risk_def)
  qed
  then have "\<not> should_confirm ?risk n \<longrightarrow>
      0x0a \<notin> set (ps_echo p) \<and> str_len (ps_echo p) \<le> n \<and> \<not> pr_marker ?risk \<and>
      str_len (ps_echo p) \<le> MAX_REVIEW_INPUT_BYTES"
    using sub by (auto simp: body_risk_def)
  then show ?thesis using cl p echo(2) by (auto simp: body_risk_def)
qed

theorem unconfirmed_paste_is_plain_witness:
  "\<exists>risk p. classify_paste (\<lambda>_. False) [0x61, 0x0d] = Some risk \<and>
    encode_paste (\<lambda>_. False) [0x61, 0x0d] True (clipboard_policy FirstLineOnly) = Some p \<and>
    pr_marker (ps_risk p) = pr_marker risk \<and>
    (\<not> should_confirm risk 8 \<longrightarrow>
       0x0a \<notin> set (ps_echo p) \<and> str_len (ps_echo p) \<le> 8 \<and> \<not> pr_marker risk \<and>
       str_len (ps_echo p) \<le> MAX_REVIEW_INPUT_BYTES)"
  by (rule unconfirmed_paste_is_plain) (simp add: is_scalar_def)

lemma normalize_set: "set (normalize_newlines s) \<subseteq> set s \<union> {0x0a}"
proof -
  have "set (replace_pair a b c t) \<subseteq> set t \<union> {c}" for a b c and t :: str
    by (induction a b c t rule: replace_pair.induct) auto
  then show ?thesis by (fastforce simp: normalize_newlines_def replace_char_def split: if_splits)
qed

text \<open>
  C11: A paste of seven-bit text reaches the shell as pasted text and nothing else: the guard passes
  what the encoder wrote unchanged and sees its frame closed again, the shell's editor receives
  exactly the echoed text, and no line of it runs unless the caller asked to submit, which then ends
  the input.
\<close>

theorem paste_reaches_editor:
  assumes "list_all (\<lambda>c. c < 0x80) s"
  shows "\<exists>p. encode_paste invisible s True policy = Some p \<and>
    guard_filter False (ps_bytes p) bracketed policy' = (False, ps_bytes p) \<and>
    (ps_bytes p \<noteq> [] \<longrightarrow>
       admitted_input (ps_bytes p) False =
         \<lparr>ai_wire_bytes = length (ps_bytes p),
          ai_editor_bytes = str_bytes (ps_echo p) @ (if pp_submit policy then [0x0d] else []),
          ai_submits_line = pp_submit policy, ai_input_after_submission = False,
          ai_had_framing = True\<rparr>)"
proof -
  have "is_scalar c" if "c < 0x80" for c
    using order.strict_trans [OF that, of "0xD800"] by (simp add: is_scalar_def)
  then have ok: "str_ok s" using assms by (auto simp: str_ok_def list_all_iff)
  obtain p where p: "encode_paste invisible s True policy = Some p"
    and echo: "echo_ok True policy (ps_echo p)"
    and bytes: "ps_bytes p = framed_bytes True policy (str_bytes (ps_echo p))"
    using encode_paste_runs [OF ok, of invisible True policy] by (auto simp: runs_def)
  obtain body had ctl where d: "defang (normalize_newlines s) (pp_strip_controls policy) = Some (body, had, ctl)"
    and pre: "prefix (ps_echo p) body"
    using encode_paste_echo [OF p] by blast
  have "set (ps_echo p) \<subseteq> set s \<union> {0x0a}"
    using set_mono_prefix [OF pre] defang_subset [OF d] normalize_set [of s] by blast
  then have "list_all (\<lambda>c. c < 0x80) (ps_echo p)" using assms by (auto simp: list_all_iff)
  then have free: "marker_free wire_markers (str_bytes (ps_echo p))"
    using echo by (intro ascii_wire_free) (auto simp: echo_ok_def)
  show ?thesis
  proof (cases "ps_echo p = []")
    case True
    then show ?thesis using p bytes by (simp add: framed_bytes_def guard_filter_def)
  next
    case False
    then show ?thesis using p framed_paste_admitted [OF free, of policy bracketed policy'] bytes by simp
  qed
qed

theorem paste_reaches_editor_witness:
  "\<exists>p. encode_paste (\<lambda>_. False) [0x6c, 0x73, 0x0d] True (clipboard_policy FirstLineOnly) = Some p \<and>
    guard_filter False (ps_bytes p) True (clipboard_policy FirstLineOnly) = (False, ps_bytes p) \<and>
    (ps_bytes p \<noteq> [] \<longrightarrow>
       admitted_input (ps_bytes p) False =
         \<lparr>ai_wire_bytes = length (ps_bytes p),
          ai_editor_bytes = str_bytes (ps_echo p) @ (if pp_submit (clipboard_policy FirstLineOnly) then [0x0d] else []),
          ai_submits_line = pp_submit (clipboard_policy FirstLineOnly), ai_input_after_submission = False,
          ai_had_framing = True\<rparr>)"
  by (rule paste_reaches_editor) simp

text \<open>
  The guard takes the raw byte 9B for a C1 introducer even inside another character: the encoding
  of U+06DB is DB 9B, so this character followed by 201~ loses its second byte and the four after it.
  What the encoder wrote for a harmless text is corrupted, its first byte left an orphan.
\<close>

theorem guard_splits_character:
  "marker_free text_markers (str_bytes [0x6db, 0x32, 0x30, 0x31, 0x7e]) \<and>
   guard_filter False
     (framed_bytes True (clipboard_policy FirstLineOnly) (str_bytes [0x6db, 0x32, 0x30, 0x31, 0x7e])) True
     (clipboard_policy FirstLineOnly) =
     (False, framed_bytes True (clipboard_policy FirstLineOnly) [0xdb])"
  by code_simp

end
