(* ===== verification/Osc_Handler.thy ===== *)
theory Osc_Handler
  imports Rust_Parse Review_Input Kitty_Keyboard
begin

text \<open>
  Operating-system commands of the live stream, \<open>src/src/parser.rs\<close> from \<open>emit_dcs_passthrough\<close>
  on, and the checks of \<open>src/src/execution_journal.rs\<close> they use: the events of the parser, the
  metadata of OSC 133, the percent and base64 decoders, and the dispatch of a complete string.
  \<open>invisible\<close> stands for \<open>jagent::is_unsafe_invisible_char\<close>.
\<close>

definition MAX_OSC_PAYLOAD_BYTES :: nat where "MAX_OSC_PAYLOAD_BYTES = 1024 * 1024"
definition MAX_NOTIFICATION_CHARS :: nat where "MAX_NOTIFICATION_CHARS = 256"
definition MAX_APC_PAYLOAD_BYTES :: nat where "MAX_APC_PAYLOAD_BYTES = 16 * 1024 * 1024"
definition MAX_DCS_PAYLOAD_BYTES :: nat where "MAX_DCS_PAYLOAD_BYTES = 1024 * 1024"
definition MAX_CLIPBOARD_BASE64_BYTES :: nat where "MAX_CLIPBOARD_BASE64_BYTES = 4 * 1024 * 1024"
definition MAX_OSC7_URI_BYTES :: nat where "MAX_OSC7_URI_BYTES = 16 * 1024"
definition MAX_TITLE_BYTES :: nat where "MAX_TITLE_BYTES = 4 * 1024"
definition MAX_OSC133_COMMAND_BYTES :: nat where "MAX_OSC133_COMMAND_BYTES = 16 * 1024"
definition MAX_OSC133_CWD_BYTES :: nat where "MAX_OSC133_CWD_BYTES = 4 * 1024"
definition MAX_OSC133_ID_BYTES :: nat where "MAX_OSC133_ID_BYTES = 1024"
definition MAX_OSC133_SESSION_ID_BYTES :: nat where "MAX_OSC133_SESSION_ID_BYTES = 128"
definition MAX_COLOR_SPEC_CHARS :: nat where "MAX_COLOR_SPEC_CHARS = 128"

subsection \<open>Events\<close>

datatype color_kind = Foreground | Background | Cursor | Palette u8

datatype keyboard_protocol_query = KittyQuery | ModifyOtherKeysQuery | PrimaryDeviceAttributes
  | SecondaryDeviceAttributes | TertiaryDeviceAttributes | XtVersion | DeviceStatus
  | CursorPosition

record command_meta =
  m_id :: "str option"
  m_session_id :: "str option"
  m_seq :: "u64 option"
  m_started_at_ms :: "u64 option"
  m_command :: "str option"
  m_cwd :: "str option"
  m_duration_ms :: "u64 option"
  m_command_truncated :: bool

datatype parser_event =
    Bytes bytes
  | PromptStart
  | PromptEnd
  | CommandStart command_meta
  | CommandEnd "int option" command_meta
  | RemoteSessionId str
  | AgentIntegrationReady str
  | AltScreenEnter nat
  | AltScreenLeave nat
  | ClipboardSet str
  | ClipboardQuery
  | ApcSequence bytes
  | DecsetMode nat bool
  | ColorQuery color_kind
  | KeyboardProtocolQuery keyboard_protocol_query
  | Notification "str option" str
  | ColorSet color_kind str
  | ColorReset color_kind
  | EraseDisplay
  | EraseScrollback
  | HardReset
  | KittyKeyboard kitty_op

subsection \<open>Checks of the execution journal\<close>

definition MAX_JSH_SESSION_ID_BYTES :: nat where "MAX_JSH_SESSION_ID_BYTES = 128"
definition MAX_COMMAND_BYTES :: nat where "MAX_COMMAND_BYTES = 64 * 1024"
definition MAX_CWD_BYTES :: nat where "MAX_CWD_BYTES = 4 * 1024"

definition is_ascii_alphanumeric :: "u8 \<Rightarrow> bool" where
  "is_ascii_alphanumeric b \<longleftrightarrow>
     (0x30 \<le> b \<and> b \<le> 0x39) \<or> (0x41 \<le> b \<and> b \<le> 0x5a) \<or> (0x61 \<le> b \<and> b \<le> 0x7a)"

definition is_valid_jsh_session_id :: "str \<Rightarrow> bool" where
  "is_valid_jsh_session_id s \<longleftrightarrow>
     s \<noteq> [] \<and> str_len s \<le> MAX_JSH_SESSION_ID_BYTES \<and>
     list_all (\<lambda>b. is_ascii_alphanumeric b \<or> b = 0x2d \<or> b = 0x5f) (str_bytes s)"

definition is_valid_jsh_command :: "(u32 \<Rightarrow> bool) \<Rightarrow> str \<Rightarrow> bool" where
  "is_valid_jsh_command invisible s \<longleftrightarrow>
     s \<noteq> [] \<and> str_len s \<le> MAX_COMMAND_BYTES \<and>
     \<not> list_ex (\<lambda>c. is_control c \<and> \<not> (c = 0x0a \<or> c = 0x09)) s \<and>
     \<not> list_ex (\<lambda>c. \<not> is_control c \<and> is_terminal_visual_spoofing_character invisible c) s"

definition is_valid_jsh_cwd :: "(u32 \<Rightarrow> bool) \<Rightarrow> str \<Rightarrow> bool" where
  "is_valid_jsh_cwd invisible s \<longleftrightarrow>
     s \<noteq> [] \<and> str_len s \<le> MAX_CWD_BYTES \<and> \<not> list_ex is_control s \<and>
     \<not> list_ex (is_terminal_visual_spoofing_character invisible) s"

subsection \<open>Metadata of OSC 133\<close>

definition filter_option :: "('a \<Rightarrow> bool) \<Rightarrow> 'a option \<Rightarrow> 'a option" where
  "filter_option p x = (case x of Some y \<Rightarrow> if p y then Some y else None | None \<Rightarrow> None)"

text \<open>The loop of \<open>decode_osc133\<close>; \<open>None\<close> is its early return.\<close>

fun decode_osc133_loop :: "nat \<Rightarrow> bytes \<Rightarrow> bytes \<Rightarrow> bytes option" where
  "decode_osc133_loop max_bytes decoded [] = Some decoded"
| "decode_osc133_loop max_bytes decoded (b # rest) =
     (if b = 0x25 then
        (case rest of
           h # l # rest' \<Rightarrow>
             (case (hex_digit h, hex_digit l) of
                (Some high, Some low) \<Rightarrow>
                  if length decoded = max_bytes then None
                  else decode_osc133_loop max_bytes (decoded @ [push_bit 4 high OR low]) rest'
              | _ \<Rightarrow> None)
         | _ \<Rightarrow> None)
      else if length decoded = max_bytes then None
      else decode_osc133_loop max_bytes (decoded @ [b]) rest)"

definition decode_osc133 :: "str \<Rightarrow> nat \<Rightarrow> str option" where
  "decode_osc133 v max_bytes =
     Option.bind (decode_osc133_loop max_bytes [] (str_bytes v)) from_utf8"

text \<open>Which slots have been seen.\<close>

record meta_seen =
  seen_id :: bool
  seen_session_id :: bool
  seen_seq :: bool
  seen_started_at_ms :: bool
  seen_command :: bool
  seen_cwd :: bool
  seen_duration :: bool
  seen_command_truncated :: bool

definition meta_default :: command_meta where
  "meta_default = \<lparr>m_id = None, m_session_id = None, m_seq = None, m_started_at_ms = None,
     m_command = None, m_cwd = None, m_duration_ms = None, m_command_truncated = False\<rparr>"

definition seen_none :: meta_seen where
  "seen_none = \<lparr>seen_id = False, seen_session_id = False, seen_seq = False,
     seen_started_at_ms = False, seen_command = False, seen_cwd = False, seen_duration = False,
     seen_command_truncated = False\<rparr>"

datatype meta_slot = SlotId | SlotSessionId | SlotSeq | SlotStartedAt | SlotCommand | SlotCwd | SlotDuration | SlotTruncated

definition meta_key :: "str \<Rightarrow> meta_slot option" where
  "meta_key k =
     (if k = lit ''id'' \<or> k = lit ''jsh_id'' \<or> k = lit ''execution_id'' \<or> k = lit ''command_id''
        then Some SlotId
      else if k = lit ''session_id'' then Some SlotSessionId
      else if k = lit ''seq'' then Some SlotSeq
      else if k = lit ''started_at_ms'' then Some SlotStartedAt
      else if k = lit ''cmdline_url'' \<or> k = lit ''command_url'' \<or> k = lit ''command'' \<or>
        k = lit ''cmdline'' then Some SlotCommand
      else if k = lit ''cwd_url'' \<or> k = lit ''cwd'' then Some SlotCwd
      else if k = lit ''duration_ms'' \<or> k = lit ''duration'' then Some SlotDuration
      else if k = lit ''cmd_truncated'' \<or> k = lit ''command_truncated'' then Some SlotTruncated
      else None)"

definition valid_execution_id :: "(u32 \<Rightarrow> bool) \<Rightarrow> str \<Rightarrow> bool" where
  "valid_execution_id invisible s \<longleftrightarrow>
     s \<noteq> [] \<and> \<not> list_ex is_control s \<and>
     \<not> list_ex (is_terminal_visual_spoofing_character invisible) s"

definition truncated_value :: "str \<Rightarrow> bool" where
  "truncated_value raw =
     (let v = str_trim raw
      in if v = lit ''0'' then False else if v = lit ''1'' then True
         else if eq_ignore_ascii_case v (lit ''false'') then False
         else if eq_ignore_ascii_case v (lit ''true'') then True
         else True)"

text \<open>One iteration of the loop of \<open>from_fields\<close>.\<close>

definition meta_field ::
  "(u32 \<Rightarrow> bool) \<Rightarrow> bool \<Rightarrow> command_meta \<times> meta_seen \<Rightarrow> str \<Rightarrow> command_meta \<times> meta_seen" where
  "meta_field invisible accept ms field =
     (case ms of (m, s) \<Rightarrow>
      (case split_once 0x3d field of
         None \<Rightarrow> (m, s)
       | Some (key, v) \<Rightarrow>
         (case meta_key key of
            None \<Rightarrow> (m, s)
          | Some SlotId \<Rightarrow>
              (m\<lparr>m_id := (if seen_id s then None
                 else filter_option (valid_execution_id invisible)
                        (decode_osc133 v MAX_OSC133_ID_BYTES))\<rparr>,
               s\<lparr>seen_id := True\<rparr>)
          | Some SlotSessionId \<Rightarrow>
              if \<not> accept then (m, s)
              else (m\<lparr>m_session_id := (if seen_session_id s then None
                      else filter_option is_valid_jsh_session_id
                             (decode_osc133 v MAX_OSC133_SESSION_ID_BYTES))\<rparr>,
                    s\<lparr>seen_session_id := True\<rparr>)
          | Some SlotSeq \<Rightarrow>
              if \<not> accept then (m, s)
              else (m\<lparr>m_seq := (if seen_seq s then None else parse_u64 v)\<rparr>, s\<lparr>seen_seq := True\<rparr>)
          | Some SlotStartedAt \<Rightarrow>
              if \<not> accept then (m, s)
              else (m\<lparr>m_started_at_ms := (if seen_started_at_ms s then None else parse_u64 v)\<rparr>,
                    s\<lparr>seen_started_at_ms := True\<rparr>)
          | Some SlotCommand \<Rightarrow>
              (m\<lparr>m_command := (if seen_command s then None
                 else filter_option (is_valid_jsh_command invisible)
                        (decode_osc133 v MAX_OSC133_COMMAND_BYTES))\<rparr>,
               s\<lparr>seen_command := True\<rparr>)
          | Some SlotCwd \<Rightarrow>
              (m\<lparr>m_cwd := (if seen_cwd s then None
                 else filter_option (is_valid_jsh_cwd invisible)
                        (decode_osc133 v MAX_OSC133_CWD_BYTES))\<rparr>,
               s\<lparr>seen_cwd := True\<rparr>)
          | Some SlotDuration \<Rightarrow>
              (m\<lparr>m_duration_ms := (if seen_duration s then None else parse_u64 (str_trim v))\<rparr>,
               s\<lparr>seen_duration := True\<rparr>)
          | Some SlotTruncated \<Rightarrow>
              (m\<lparr>m_command_truncated := (if seen_command_truncated s then True
                 else truncated_value v)\<rparr>,
               s\<lparr>seen_command_truncated := True\<rparr>))))"

definition from_fields :: "(u32 \<Rightarrow> bool) \<Rightarrow> str list \<Rightarrow> bool \<Rightarrow> command_meta" where
  "from_fields invisible parts accept =
     (let m = fst (foldl (meta_field invisible accept) (meta_default, seen_none) parts)
      in if m_command_truncated m then m\<lparr>m_command := None\<rparr> else m)"

text \<open>The slot of the exit status a field fills, if any, and with what.\<close>

definition exit_candidate :: "str \<Rightarrow> int option option" where
  "exit_candidate field =
     (case split_once 0x3d field of
        Some (k, v) \<Rightarrow>
          if k = lit ''exit'' \<or> k = lit ''exit_code'' \<or> k = lit ''exit_status''
          then Some (parse_i32 (str_trim v)) else None
      | None \<Rightarrow> map_option Some (parse_i32 (str_trim field)))"

fun exit_status_loop :: "bool \<Rightarrow> int option \<Rightarrow> str list \<Rightarrow> int option" where
  "exit_status_loop seen parsed [] = parsed"
| "exit_status_loop seen parsed (field # parts) =
     (case exit_candidate field of
        None \<Rightarrow> exit_status_loop seen parsed parts
      | Some candidate \<Rightarrow> if seen then None else exit_status_loop True candidate parts)"

definition parse_osc133_exit_status :: "str list \<Rightarrow> int option" where
  "parse_osc133_exit_status parts = exit_status_loop False None parts"

subsection \<open>Text of other commands\<close>

text \<open>The loop of \<open>safe_osc7_text\<close>: the text after percent decoding.\<close>

fun percent_decode :: "bytes \<Rightarrow> bytes \<Rightarrow> bytes option" where
  "percent_decode decoded [] = Some decoded"
| "percent_decode decoded (b # rest) =
     (if b = 0x25 then
        (case rest of
           h # l # rest' \<Rightarrow>
             (case (hex_digit h, hex_digit l) of
                (Some high, Some low) \<Rightarrow> percent_decode (decoded @ [push_bit 4 high OR low]) rest'
              | _ \<Rightarrow> None)
         | _ \<Rightarrow> None)
      else percent_decode (decoded @ [b]) rest)"

definition safe_osc7_text :: "(u32 \<Rightarrow> bool) \<Rightarrow> str \<Rightarrow> bool" where
  "safe_osc7_text invisible v =
     (if list_ex is_control v \<or> list_ex (is_terminal_visual_spoofing_character invisible) v
      then False
      else (case Option.bind (percent_decode [] (str_bytes v)) from_utf8 of
              None \<Rightarrow> False
            | Some d \<Rightarrow> \<not> list_ex is_control d \<and>
                \<not> list_ex (is_terminal_visual_spoofing_character invisible) d))"

definition bounded_notification_field :: "(u32 \<Rightarrow> bool) \<Rightarrow> str \<Rightarrow> str" where
  "bounded_notification_field invisible raw =
     str_trim (take MAX_NOTIFICATION_CHARS
       (map (\<lambda>c. if is_control c \<or> is_terminal_visual_spoofing_character invisible c
                 then replacement_char else c) raw))"

subsection \<open>Base64\<close>

definition base64_value :: "u8 \<Rightarrow> u8" where
  "base64_value b =
     (if 0x41 \<le> b \<and> b \<le> 0x5a then b - 0x41
      else if 0x61 \<le> b \<and> b \<le> 0x7a then 26 + (b - 0x61)
      else if 0x30 \<le> b \<and> b \<le> 0x39 then 52 + (b - 0x30)
      else if b = 0x2b then 62 else if b = 0x2f then 63 else 0xff)"

text \<open>The loop of \<open>base64_decode\<close>, with \<open>buf\<close>, \<open>bits\<close> and \<open>out\<close> of the source.\<close>

fun base64_loop :: "u32 \<Rightarrow> nat \<Rightarrow> bytes \<Rightarrow> bytes \<Rightarrow> bytes option" where
  "base64_loop buf bits out [] = Some out"
| "base64_loop buf bits out (b # input) =
     (if b = 0x3d \<or> b = 0x0a \<or> b = 0x0d then base64_loop buf bits out input
      else if base64_value b = 0xff then None
      else
        (let buf = push_bit 6 buf OR ucast (base64_value b); bits = bits + 6
         in if 8 \<le> bits
            then base64_loop (buf AND (push_bit (bits - 8) 1 - 1)) (bits - 8)
                   (out @ [ucast (drop_bit (bits - 8) buf)]) input
            else base64_loop buf bits out input))"

definition base64_decode :: "bytes \<Rightarrow> bytes option" where
  "base64_decode input = base64_loop 0 0 [] input"

subsection \<open>Dispatch\<close>

definition handle_osc133 :: "(u32 \<Rightarrow> bool) \<Rightarrow> str \<Rightarrow> parser_event list" where
  "handle_osc133 invisible rest =
     (case iter_next (split_on 0x3b rest) of
        (Some mark, parts) \<Rightarrow>
          if mark = lit ''A'' then [PromptStart]
          else if mark = lit ''B'' then [PromptEnd]
          else if mark = lit ''C'' then [CommandStart (from_fields invisible parts True)]
          else if mark = lit ''D''
            then [CommandEnd (parse_osc133_exit_status parts) (from_fields invisible parts False)]
          else []
      | (None, _) \<Rightarrow> [])"

definition is_ascii_hexdigit :: "u8 \<Rightarrow> bool" where
  "is_ascii_hexdigit b \<longleftrightarrow>
     (0x30 \<le> b \<and> b \<le> 0x39) \<or> (0x41 \<le> b \<and> b \<le> 0x46) \<or> (0x61 \<le> b \<and> b \<le> 0x66)"

definition dynamic_colors :: "(str \<times> color_kind) list" where
  "dynamic_colors =
     [(lit ''10;'', Foreground), (lit ''11;'', Background), (lit ''12;'', Cursor)]"

text \<open>The loop over OSC 10, 11 and 12: the events so far, and whether it returned.\<close>

fun color_loop :: "(str \<times> color_kind) list \<Rightarrow> str \<Rightarrow> parser_event list \<Rightarrow> parser_event list \<times> bool" where
  "color_loop [] s evs = (evs, False)"
| "color_loop ((prefix, kind) # ps) s evs =
     (case strip_prefix prefix s of
        None \<Rightarrow> color_loop ps s evs
      | Some rest \<Rightarrow>
          if starts_with rest (lit ''?'') then (evs @ [ColorQuery kind], True)
          else (let spec = str_trim rest
                in color_loop ps s
                     (if spec \<noteq> [] \<and> length spec \<le> MAX_COLOR_SPEC_CHARS
                      then evs @ [ColorSet kind spec] else evs)))"

definition color_resets :: "str \<Rightarrow> parser_event list" where
  "color_resets s =
     concat (map (\<lambda>(code, kind).
         if s = code \<or>
            (case strip_prefix code s of Some rest \<Rightarrow> starts_with rest (lit '';'') | None \<Rightarrow> False)
         then [ColorReset kind] else [])
       [(lit ''110'', Foreground), (lit ''111'', Background), (lit ''112'', Cursor)])"

definition palette_query :: "str \<Rightarrow> parser_event option" where
  "palette_query s =
     (case strip_prefix (lit ''4;'') s of
        None \<Rightarrow> None
      | Some rest \<Rightarrow>
          (case splitn 2 0x3b rest of
             idx # v # _ \<Rightarrow>
               if starts_with v (lit ''?'') then map_option (\<lambda>i. ColorQuery (Palette i)) (parse_u8 idx)
               else None
           | _ \<Rightarrow> None))"

text \<open>OSC 52: \<open>None\<close> when the string is another command.\<close>

definition clipboard :: "str \<Rightarrow> parser_event list option" where
  "clipboard s =
     (case strip_prefix (lit ''52;'') s of
        None \<Rightarrow> None
      | Some rest \<Rightarrow>
          Some (case position (\<lambda>c. c = 0x3b) rest of
             None \<Rightarrow> []
           | Some i \<Rightarrow>
             (let data = drop (Suc i) rest
              in if data = lit ''?'' then [ClipboardQuery]
                 else if str_len data \<le> MAX_CLIPBOARD_BASE64_BYTES then
                   (case Option.bind (base64_decode (str_bytes data)) from_utf8 of
                      Some text \<Rightarrow> [ClipboardSet text] | None \<Rightarrow> [])
                 else [])))"

text \<open>The commands after notifications: colours, palette, clipboard, and the pass-through.\<close>

definition handle_osc_colors :: "str \<Rightarrow> bytes \<Rightarrow> parser_event list" where
  "handle_osc_colors s payload =
     (case color_loop dynamic_colors s [] of
        (evs, True) \<Rightarrow> evs
      | (evs, False) \<Rightarrow>
        (let evs = evs @ color_resets s
         in case palette_query s of
              Some ev \<Rightarrow> evs @ [ev]
            | None \<Rightarrow>
              (case clipboard s of
                 Some more_evs \<Rightarrow> evs @ more_evs
               | None \<Rightarrow> evs @ [Bytes ([0x1b, 0x5d] @ payload @ [0x07])])))"

text \<open>OSC 9 and OSC 777: \<open>None\<close> when the string goes on to the other commands.\<close>

definition notification :: "(u32 \<Rightarrow> bool) \<Rightarrow> str \<Rightarrow> parser_event list option" where
  "notification invisible s =
     (case strip_prefix (lit ''9;'') s of
        Some rest \<Rightarrow>
          (let body = bounded_notification_field invisible rest
           in Some (if body \<noteq> [] then [Notification None body] else []))
      | None \<Rightarrow>
        (case strip_prefix (lit ''777;'') s of
           None \<Rightarrow> None
         | Some rest \<Rightarrow>
           (case iter_next (splitn 3 0x3b rest) of
              (first, f1) \<Rightarrow>
                if first = Some (lit ''notify'') then
                  (case iter_next f1 of
                     (t, f2) \<Rightarrow>
                       (let title = bounded_notification_field invisible
                                      (case t of Some x \<Rightarrow> x | None \<Rightarrow> []);
                            body = bounded_notification_field invisible
                                     (case fst (iter_next f2) of Some x \<Rightarrow> x | None \<Rightarrow> [])
                        in Some (if \<not> (title = [] \<and> body = [])
                                 then [Notification (if title \<noteq> [] then Some title else None) body]
                                 else [])))
                else None)))"

definition unsafe_title :: "(u32 \<Rightarrow> bool) \<Rightarrow> str \<Rightarrow> bytes \<Rightarrow> bool" where
  "unsafe_title invisible s payload \<longleftrightarrow>
     (case split_once 0x3b s of
        Some (k, _) \<Rightarrow> k = lit ''0'' \<or> k = lit ''1'' \<or> k = lit ''2'' | None \<Rightarrow> False) \<and>
     (MAX_TITLE_BYTES < length payload \<or> list_ex is_control s \<or>
      list_ex (is_terminal_visual_spoofing_character invisible) s)"

definition unsafe_current_dir :: "(u32 \<Rightarrow> bool) \<Rightarrow> str \<Rightarrow> bool" where
  "unsafe_current_dir invisible s \<longleftrightarrow>
     (case strip_prefix (lit ''1337;CurrentDir='') s of
        Some path \<Rightarrow> 0x3b \<in> set path \<or> \<not> is_valid_jsh_cwd invisible path
      | None \<Rightarrow> False)"

definition handle_osc :: "(u32 \<Rightarrow> bool) \<Rightarrow> bytes \<Rightarrow> parser_event list" where
  "handle_osc invisible payload =
     (case from_utf8 payload of
        None \<Rightarrow> []
      | Some s \<Rightarrow>
        (case strip_prefix (lit ''133;'') s of
           Some rest \<Rightarrow> handle_osc133 invisible rest
         | None \<Rightarrow>
        (case strip_prefix (lit ''7770;'') s of
           Some rest \<Rightarrow> if is_valid_jsh_session_id rest then [RemoteSessionId rest] else []
         | None \<Rightarrow>
        (case strip_prefix (lit ''7771;'') s of
           Some token \<Rightarrow>
             if str_len token = 32 \<and> list_all is_ascii_hexdigit (str_bytes token)
             then [AgentIntegrationReady token] else []
         | None \<Rightarrow>
           if starts_with s (lit ''7;'') then
             (if MAX_OSC7_URI_BYTES < length payload \<or> \<not> safe_osc7_text invisible s then []
              else [Bytes ([0x1b, 0x5d] @ payload @ [0x1b, 0x5c])])
           else if unsafe_current_dir invisible s \<or> unsafe_title invisible s payload then []
           else (case notification invisible s of
                   Some evs \<Rightarrow> evs
                 | None \<Rightarrow> handle_osc_colors s payload)))))"

definition emit_dcs_passthrough :: "bytes \<Rightarrow> bytes \<Rightarrow> bytes" where
  "emit_dcs_passthrough payload passthrough =
     passthrough @ [0x1b, 0x50] @ payload @ [0x1b, 0x5c]"

end
