(* ===== verification/Agent_Types.thy ===== *)
theory Agent_Types
  imports Osc_Handler
begin

text \<open>
  The data of agent tasks, \<open>src/src/agent_task/task.rs\<close>, \<open>event.rs\<close>, \<open>brief.rs\<close> and
  \<open>context.rs\<close>: statuses, tasks, briefs, events, errors.  Uuids are 128-bit words; serialisation
  (serde) is not modelled.
\<close>

type_synonym uuid = "128 word"
type_synonym task_id = uuid
type_synonym turn_id = uuid
type_synonym approval_id = uuid
type_synonym epoch = u64

text \<open>A \<open>SystemTime\<close> is only stored here.\<close>

type_synonym system_time = int

subsection \<open>Statuses\<close>

datatype agent_provider = PrCodex | PrClaude | PrOpenCode | PrKimi

definition display_name :: "agent_provider \<Rightarrow> str" where
  "display_name p =
     (case p of PrCodex \<Rightarrow> lit ''Codex'' | PrClaude \<Rightarrow> lit ''Claude'' | PrOpenCode \<Rightarrow> lit ''OpenCode''
      | PrKimi \<Rightarrow> lit ''Kimi'')"

definition supports_native_driver :: "agent_provider \<Rightarrow> bool" where
  "supports_native_driver p \<longleftrightarrow> p = PrCodex \<or> p = PrClaude \<or> p = PrKimi"

definition config_value :: "agent_provider \<Rightarrow> str" where
  "config_value p =
     (case p of PrCodex \<Rightarrow> lit ''codex'' | PrClaude \<Rightarrow> lit ''claude'' | PrOpenCode \<Rightarrow> lit ''opencode''
      | PrKimi \<Rightarrow> lit ''kimi'')"

text \<open>\<open>to_ascii_lowercase\<close>.\<close>

definition ascii_lowercase :: "str \<Rightarrow> str" where
  "ascii_lowercase s = map (\<lambda>c. if 0x41 \<le> c \<and> c \<le> 0x5a then c + 0x20 else c) s"

definition from_config_value :: "str \<Rightarrow> agent_provider option" where
  "from_config_value s =
     (let v = ascii_lowercase (str_trim s)
      in if v = lit ''codex'' then Some PrCodex
         else if v = lit ''claude'' then Some PrClaude
         else if v = lit ''opencode'' \<or> v = lit ''open_code'' then Some PrOpenCode
         else if v = lit ''kimi'' then Some PrKimi
         else None)"

datatype task_status = TsCreated | TsStarting | TsWorking | TsWaitingForApproval | TsWaitingForHuman
  | TsReadyForReview | TsCompleted | TsFailed | TsCancelled | TsArchived

definition is_running :: "task_status \<Rightarrow> bool" where
  "is_running s \<longleftrightarrow> s \<in> {TsStarting, TsWorking, TsWaitingForApproval, TsWaitingForHuman}"

definition status_needs_attention :: "task_status \<Rightarrow> bool" where
  "status_needs_attention s \<longleftrightarrow> s \<in> {TsWaitingForApproval, TsWaitingForHuman, TsReadyForReview, TsFailed}"

definition is_terminal :: "task_status \<Rightarrow> bool" where
  "is_terminal s \<longleftrightarrow> s \<in> {TsCompleted, TsFailed, TsCancelled, TsArchived}"

datatype validation_status = VsNotRun | VsRunning | VsPassed | VsFailed | VsInconclusive | VsCancelled

definition validation_needs_attention :: "validation_status \<Rightarrow> bool" where
  "validation_needs_attention s \<longleftrightarrow> s \<in> {VsFailed, VsInconclusive, VsCancelled}"

record validation_state =
  vs_status :: validation_status
  vs_attempt :: u64
  vs_session :: "str option"
  vs_exit_code :: "int option"
  vs_detail :: "str option"

definition validation_default :: validation_state where
  "validation_default = \<lparr>vs_status = VsNotRun, vs_attempt = 0, vs_session = None,
     vs_exit_code = None, vs_detail = None\<rparr>"

datatype terminal_role = RoleAgent | RoleValidation

datatype runtime_kind = RkUnassigned | RkTerminal | RkNative | RkTerminalFallback

subsection \<open>Tasks\<close>

record task_source =
  src_session_id :: str
  src_execution_id :: str

record semantic_context =
  sc_session_id :: str
  sc_execution_id :: str
  sc_sequence :: u64
  sc_shell :: "str option"
  sc_command :: "str option"
  sc_command_exact :: bool
  sc_command_truncated :: bool
  sc_cwd :: "str option"
  sc_cwd_after :: "str option"
  sc_exit_code :: "int option"
  sc_duration_ms :: "u64 option"
  sc_output_text :: str
  sc_output_available :: bool
  sc_output_truncated :: bool
  sc_output_total_bytes :: nat
  sc_started_at :: "system_time option"
  sc_finished_at :: "system_time option"

record validation_recipe =
  vr_command :: str
  vr_shell :: str

record task_brief =
  tb_goal :: str
  tb_validation :: "validation_recipe option"

record new_task =
  nt_title :: str
  nt_provider :: agent_provider
  nt_repo_root :: bytes
  nt_worktree_path :: bytes
  nt_branch :: str
  nt_base_commit :: str
  nt_source_context :: "semantic_context option"

record agent_task =
  at_id :: task_id
  at_title :: str
  at_provider :: agent_provider
  at_status :: task_status
  at_repo_root :: bytes
  at_worktree_path :: bytes
  at_branch :: str
  at_base_commit :: str
  at_source :: "task_source option"
  at_source_context :: "semantic_context option"
  at_brief :: "task_brief option"
  at_runtime :: runtime_kind
  at_terminal_session :: "str option"
  at_validation :: validation_state
  at_exit_code :: "int option"
  at_detail :: "str option"
  at_created_ms :: u64
  at_updated_ms :: u64
  at_archived_from :: "task_status option"

definition validation_command :: "agent_task \<Rightarrow> str option" where
  "validation_command t =
     (case at_brief t of
        Some brief \<Rightarrow> map_option vr_command (tb_validation brief)
      | None \<Rightarrow> Option.bind (at_source_context t) sc_command)"

definition validation_shell :: "agent_task \<Rightarrow> str option" where
  "validation_shell t =
     (case at_brief t of
        Some brief \<Rightarrow> map_option vr_shell (tb_validation brief)
      | None \<Rightarrow> Option.bind (at_source_context t) sc_shell)"

definition needs_attention :: "agent_task \<Rightarrow> bool" where
  "needs_attention t \<longleftrightarrow> vs_status (at_validation t) \<noteq> VsRunning \<and>
     (status_needs_attention (at_status t) \<or> validation_needs_attention (vs_status (at_validation t)))"

subsection \<open>Events\<close>

record provider_session =
  ps_provider :: agent_provider
  ps_opaque :: str

datatype session_outcome = OutClean | OutFailed | OutCancelled

datatype event_kind =
    SessionStarted "provider_session option" bool
  | TurnStarted turn_id
  | TextDelta | ReasoningDelta | PlanUpdated | CommandStarted | CommandOutput | CommandFinished
  | FileChanged | DiffUpdated
  | ApprovalRequested turn_id approval_id
  | PermissionRequested turn_id approval_id
  | InputRequested turn_id
  | ToolStarted | ToolFinished | UsageUpdated
  | WorkResumed turn_id
  | TurnCompleted turn_id
  | SessionEnded session_outcome
  | EventError bool
  | EventCancelled

record event_stream =
  es_task :: task_id
  es_session :: str
  es_epoch :: epoch

record agent_event =
  ae_stream :: event_stream
  ae_sequence :: u64
  ae_kind :: event_kind
  ae_detail :: "str option"

datatype agent_event_error =
    EUnknownTask task_id
  | ETerminalState task_id task_status
  | ENoActiveStream task_id
  | EStreamAlreadyActive task_id
  | ENativeStartRequiresCreated task_id task_status
  | EValidationActive task_id
  | ETerminalSessionBound task_id
  | ESessionMismatch task_id
  | EProviderMismatch task_id agent_provider agent_provider
  | EMissingResumeSession task_id
  | EEpochMismatch task_id epoch epoch
  | EInvalidSequence task_id u64 u64
  | ESessionNotStarted task_id
  | ETurnAlreadyActive task_id turn_id
  | ENoActiveTurn task_id
  | ETurnMismatch task_id turn_id turn_id
  | EInvalidTransition task_id task_status event_kind
  | EEpochExhausted
  | ESequenceExhausted task_id

datatype task_error =
    InvalidTitle | InvalidBranch | InvalidBaseCommit | RepoRootMustBeAbsolute
  | WorktreePathMustBeAbsolute | WorktreeMatchesRepoRoot | InvalidSourceContext
  | InvalidBrief str
  | CannotCompleteAfterManualReview task_id
  | InvalidTerminalSessionId
  | NativeRuntimeAlreadySelected task_id
  | NativeEventStreamActive task_id
  | CannotBindTerminalInState task_id task_status
  | CannotBindValidationInState task_id task_status
  | ValidationAlreadyRunning task_id str
  | ValidationAttemptExhausted task_id
  | NativeEventStreamActiveDuringValidation task_id
  | CompletionRequiresValidation task_id
  | CannotCompleteAfterValidation task_id task_status validation_status
  | CannotLeaveTerminalState task_id task_status task_status
  | UnknownTask task_id
  | TerminalSessionAlreadyBound str task_id
  | TaskAlreadyBoundToTerminal task_id str
  | TerminalFallbackUnavailable task_id task_status
  | TerminalRetryUnavailable task_id task_status
  | CannotArchiveRunning task_id
  | NotArchived task_id
  | ArchivedStateUnknown task_id

end
