(* ===== verification/Agent_Event.thy ===== *)
theory Agent_Event
  imports Agent_Types
begin

text \<open>
  Briefs and events of agent tasks: \<open>src/src/agent_task/replay_text.rs\<close>, \<open>brief.rs\<close> and
  \<open>event.rs\<close>.  \<open>invisible\<close> stands for \<open>jagent::is_unsafe_invisible_char\<close>.
\<close>

subsection \<open>Replayed commands\<close>

definition MAX_REPLAY_COMMAND_BYTES :: nat where "MAX_REPLAY_COMMAND_BYTES = MAX_COMMAND_BYTES"

datatype replay_text_error = ReplayEmpty | ReplayTooLarge nat | ReplayControlCharacter | ReplayVisualSpoof

definition is_c0_or_c1 :: "u32 \<Rightarrow> bool" where
  "is_c0_or_c1 c \<longleftrightarrow> c \<le> 0x1f \<or> (0x7f \<le> c \<and> c \<le> 0x9f)"

fun skip_lf :: "str \<Rightarrow> str" where
  "skip_lf [] = []"
| "skip_lf (c # rest) = (if c = 0x0a then rest else c # rest)"

lemma length_skip_lf [termination_simp]: "length (skip_lf s) \<le> length s"
  by (cases s) auto

text \<open>The loop over the characters; a line feed after a carriage return is taken with it.\<close>

fun replay_loop :: "(u32 \<Rightarrow> bool) \<Rightarrow> str \<Rightarrow> str \<Rightarrow> replay_text_error + str" where
  "replay_loop invisible sanitized [] = Inr sanitized"
| "replay_loop invisible sanitized (c # rest) =
     (if c = 0x0d then
        replay_loop invisible (sanitized @ [0x0a]) (skip_lf rest)
      else if c = 0x0a \<or> c = 0x09 then replay_loop invisible (sanitized @ [c]) rest
      else if is_c0_or_c1 c then replay_loop invisible sanitized rest
      else if invisible c then Inl ReplayVisualSpoof
      else replay_loop invisible (sanitized @ [c]) rest)"

definition sanitize_history_replay :: "(u32 \<Rightarrow> bool) \<Rightarrow> str \<Rightarrow> nat \<Rightarrow> replay_text_error + str" where
  "sanitize_history_replay invisible s max_bytes =
     (if max_bytes < str_len s then Inl (ReplayTooLarge max_bytes)
      else (case replay_loop invisible [] s of
              Inl e \<Rightarrow> Inl e
            | Inr sanitized \<Rightarrow>
                if list_all (\<lambda>c. c = 0x20 \<or> c = 0x0a \<or> c = 0x09) sanitized then Inl ReplayEmpty
                else Inr sanitized))"

definition replay_error_text :: "replay_text_error \<Rightarrow> str" where
  "replay_error_text e =
     (case e of
        ReplayEmpty \<Rightarrow> lit ''the command is empty''
      | ReplayTooLarge limit \<Rightarrow>
          lit ''the command exceeds the '' @ map ucast (dec limit) @ lit ''-byte replay limit''
      | ReplayControlCharacter \<Rightarrow>
          lit ''the command contains a NUL or terminal control character''
      | ReplayVisualSpoof \<Rightarrow>
          lit ''the command contains an invisible or bidirectional formatting character'')"

subsection \<open>Briefs\<close>

definition TASK_GOAL_MAX_BYTES :: nat where "TASK_GOAL_MAX_BYTES = 16 * 1024"

text \<open>\<open>Path::new(text).is_absolute()\<close>.\<close>

definition str_absolute :: "str \<Rightarrow> bool" where
  "str_absolute s \<longleftrightarrow> s \<noteq> [] \<and> hd s = 0x2f"

definition recipe_validate :: "(u32 \<Rightarrow> bool) \<Rightarrow> validation_recipe \<Rightarrow> str + unit" where
  "recipe_validate invisible r =
     (case sanitize_history_replay invisible (vr_command r) MAX_REPLAY_COMMAND_BYTES of
        Inl e \<Rightarrow> Inl (lit ''Invalid validation command: '' @ replay_error_text e)
      | Inr sanitized \<Rightarrow>
          if sanitized \<noteq> vr_command r \<or> 0x0a \<in> set (vr_command r) \<or> 0x0d \<in> set (vr_command r)
          then Inl (lit ''Validation requires one exact, single-line command without control characters.'')
          else if 4096 < str_len (vr_shell r) \<or> \<not> str_absolute (vr_shell r) \<or>
                  list_ex is_control (vr_shell r) \<or> contains_visual_spoofing invisible (vr_shell r)
          then Inl (lit ''Choose an absolute, bounded shell path for validation.'')
          else Inr ())"

definition recipe_new :: "(u32 \<Rightarrow> bool) \<Rightarrow> str \<Rightarrow> str \<Rightarrow> str + validation_recipe" where
  "recipe_new invisible command shell =
     (let r = \<lparr>vr_command = command, vr_shell = shell\<rparr>
      in case recipe_validate invisible r of Inl e \<Rightarrow> Inl e | Inr _ \<Rightarrow> Inr r)"

definition brief_validate :: "(u32 \<Rightarrow> bool) \<Rightarrow> task_brief \<Rightarrow> str + unit" where
  "brief_validate invisible b =
     (if str_trim (tb_goal b) = [] \<or> TASK_GOAL_MAX_BYTES < str_len (tb_goal b)
      then Inl (lit ''Describe the task goal in 1 to 16,384 UTF-8 bytes.'')
      else if list_ex (\<lambda>c. is_control c \<and> \<not> (c = 0x0a \<or> c = 0x09)) (tb_goal b) \<or>
              contains_noncontrol_visual_spoofing invisible (tb_goal b)
      then Inl (lit ''The task goal contains unsupported control or invisible formatting characters.'')
      else (case tb_validation b of
              Some r \<Rightarrow> recipe_validate invisible r
            | None \<Rightarrow> Inr ()))"

definition brief_new :: "(u32 \<Rightarrow> bool) \<Rightarrow> str \<Rightarrow> validation_recipe option \<Rightarrow> str + task_brief" where
  "brief_new invisible goal validation =
     (let b = \<lparr>tb_goal = goal, tb_validation = validation\<rparr>
      in case brief_validate invisible b of
           Inl e \<Rightarrow> Inl e
         | Inr _ \<Rightarrow> Inr (b\<lparr>tb_goal := str_trim (tb_goal b)\<rparr>))"

text \<open>\<open>AgentTask::requires_manual_review\<close>.\<close>

definition requires_manual_review :: "(u32 \<Rightarrow> bool) \<Rightarrow> agent_task \<Rightarrow> bool" where
  "requires_manual_review invisible t \<longleftrightarrow> at_source_context t = None \<and>
     (case at_brief t of
        Some b \<Rightarrow> tb_validation b = None \<and> \<not> isl (brief_validate invisible b)
      | None \<Rightarrow> False)"

subsection \<open>Events\<close>

definition PROVIDER_SESSION_ID_MAX_BYTES :: nat where "PROVIDER_SESSION_ID_MAX_BYTES = 512"
definition MAX_AGENT_EVENT_DETAIL_BYTES :: nat where "MAX_AGENT_EVENT_DETAIL_BYTES = 1024"

definition provider_session_new ::
  "(u32 \<Rightarrow> bool) \<Rightarrow> agent_provider \<Rightarrow> str \<Rightarrow> provider_session option" where
  "provider_session_new invisible provider opaque =
     (if opaque = [] \<or> PROVIDER_SESSION_ID_MAX_BYTES < str_len opaque \<or>
         list_ex (\<lambda>c. is_whitespace c \<or> is_control c \<or> invisible c) opaque
      then None else Some \<lparr>ps_provider = provider, ps_opaque = opaque\<rparr>)"

fun owned_payload_bytes :: "event_kind \<Rightarrow> nat" where
  "owned_payload_bytes (SessionStarted (Some session) _) = str_len (ps_opaque session)"
| "owned_payload_bytes _ = 0"

text \<open>The loop of \<open>bounded_event_detail\<close>: it stops at the first character that does not fit.\<close>

fun detail_loop :: "(u32 \<Rightarrow> bool) \<Rightarrow> str \<Rightarrow> str \<Rightarrow> str" where
  "detail_loop invisible bounded [] = bounded"
| "detail_loop invisible bounded (c # rest) =
     (let v = (if is_control c \<or> invisible c then 0x3f else c)
      in if MAX_AGENT_EVENT_DETAIL_BYTES < str_len bounded + char_len v then bounded
         else detail_loop invisible (bounded @ [v]) rest)"

definition trim_spaces :: "str \<Rightarrow> str" where
  "trim_spaces s = rev (dropWhile (\<lambda>c. c = 0x20) (rev (dropWhile (\<lambda>c. c = 0x20) s)))"

definition bounded_event_detail :: "(u32 \<Rightarrow> bool) \<Rightarrow> str option \<Rightarrow> str option" where
  "bounded_event_detail invisible detail =
     (case detail of
        None \<Rightarrow> None
      | Some d \<Rightarrow>
          (let trimmed = trim_spaces (detail_loop invisible [] d)
           in if trimmed \<noteq> [] then Some trimmed else None))"

definition event_new ::
  "(u32 \<Rightarrow> bool) \<Rightarrow> event_stream \<Rightarrow> u64 \<Rightarrow> event_kind \<Rightarrow> str option \<Rightarrow> agent_event" where
  "event_new invisible stream sequence kind detail =
     \<lparr>ae_stream = stream, ae_sequence = sequence, ae_kind = kind,
      ae_detail = bounded_event_detail invisible detail\<rparr>"

text \<open>
  \<open>next_agent_event_epoch\<close> on the process-wide counter, which is passed and returned.  The
  compare-and-exchange loop repeats until it has advanced the counter it read.
\<close>

definition allocate_epoch :: "u64 \<Rightarrow> (agent_event_error + epoch) \<times> u64" where
  "allocate_epoch counter =
     (if counter = 0 \<or> counter = - 1 then (Inl EEpochExhausted, counter)
      else (Inr counter, counter + 1))"

text \<open>The next status, and whether the task is updated.\<close>

definition status_after_event :: "task_status \<Rightarrow> event_kind \<Rightarrow> (task_status \<times> bool) option" where
  "status_after_event current event =
     (case event of
        SessionStarted _ _ \<Rightarrow>
          if current = TsCreated then Some (TsStarting, True)
          else if is_running current \<or> current = TsReadyForReview then Some (current, True)
          else None
      | TurnStarted _ \<Rightarrow>
          if current \<in> {TsStarting, TsWorking, TsReadyForReview} then Some (TsWorking, True) else None
      | ApprovalRequested _ _ \<Rightarrow>
          if current \<in> {TsStarting, TsWorking, TsWaitingForApproval}
          then Some (TsWaitingForApproval, True) else None
      | PermissionRequested _ _ \<Rightarrow>
          if current \<in> {TsStarting, TsWorking, TsWaitingForApproval}
          then Some (TsWaitingForApproval, True) else None
      | InputRequested _ \<Rightarrow>
          if current \<in> {TsStarting, TsWorking, TsWaitingForHuman}
          then Some (TsWaitingForHuman, True) else None
      | WorkResumed _ \<Rightarrow>
          if current \<in> {TsWaitingForApproval, TsWaitingForHuman} then Some (TsWorking, True) else None
      | TurnCompleted _ \<Rightarrow>
          if current \<in> {TsStarting, TsWorking} then Some (TsReadyForReview, True) else None
      | SessionEnded outcome \<Rightarrow>
          if current = TsReadyForReview then Some (TsReadyForReview, True)
          else if current = TsCreated \<or> is_running current
          then Some (case outcome of OutClean \<Rightarrow> TsReadyForReview | OutFailed \<Rightarrow> TsFailed
                     | OutCancelled \<Rightarrow> TsCancelled, True)
          else None
      | EventCancelled \<Rightarrow>
          if current = TsReadyForReview then Some (TsReadyForReview, True)
          else if current = TsCreated \<or> is_running current then Some (TsCancelled, True)
          else None
      | EventError True \<Rightarrow>
          if current = TsReadyForReview then Some (TsReadyForReview, True)
          else if current = TsCreated \<or> is_running current then Some (TsFailed, True)
          else None
      | _ \<Rightarrow>
          if is_running current \<or> current = TsReadyForReview then Some (current, False) else None)"

definition event_ends_stream :: "event_kind \<Rightarrow> bool" where
  "event_ends_stream e \<longleftrightarrow>
     (case e of SessionEnded _ \<Rightarrow> True | EventCancelled \<Rightarrow> True | EventError fatal \<Rightarrow> fatal | _ \<Rightarrow> False)"

end
