(* ===== verification/Agent_Task.thy ===== *)
theory Agent_Task
  imports Agent_Event
begin

text \<open>
  The task manager, \<open>src/src/agent_task/task.rs\<close>: tasks, the terminals and event streams they own,
  and every operation that changes them.  An operation returns its result and the manager it
  leaves.  The clock (\<open>now\<close>), fresh uuids and the process-wide epoch counter are arguments.
\<close>

definition MAX_TASK_TITLE_BYTES :: nat where "MAX_TASK_TITLE_BYTES = 256"
definition MAX_BRANCH_BYTES :: nat where "MAX_BRANCH_BYTES = 512"

record stream_state =
  ss_stream :: event_stream
  ss_next_sequence :: u64
  ss_session_started :: bool
  ss_active_turn :: "turn_id option"
  ss_review_point :: bool

record task_manager =
  tm_tasks :: "agent_task list"
  tm_indices :: "task_id \<rightharpoonup> nat"
  tm_by_terminal :: "str \<rightharpoonup> task_id"
  tm_by_validation :: "str \<rightharpoonup> task_id"
  tm_exited :: "str set"
  tm_streams :: "task_id \<rightharpoonup> stream_state"
  tm_remote :: "task_id set"

definition manager_new :: task_manager where
  "manager_new = \<lparr>tm_tasks = [], tm_indices = Map.empty, tm_by_terminal = Map.empty,
     tm_by_validation = Map.empty, tm_exited = {}, tm_streams = Map.empty, tm_remote = {}\<rparr>"

type_synonym 'a task_result = "(task_error + 'a) \<times> task_manager"
type_synonym 'a event_result = "(agent_event_error + 'a) \<times> task_manager"

subsection \<open>Lookup\<close>

definition get_task :: "task_manager \<Rightarrow> task_id \<Rightarrow> agent_task option" where
  "get_task m i =
     (case tm_indices m i of
        None \<Rightarrow> None
      | Some n \<Rightarrow> if n < length (tm_tasks m) then Some (tm_tasks m ! n) else None)"

text \<open>Assignment through \<open>task_mut\<close>, once the task has been found.\<close>

definition put_task :: "task_manager \<Rightarrow> task_id \<Rightarrow> agent_task \<Rightarrow> task_manager" where
  "put_task m i t =
     (case tm_indices m i of
        None \<Rightarrow> m
      | Some n \<Rightarrow> m\<lparr>tm_tasks := (tm_tasks m)[n := t]\<rparr>)"

definition task_and_role :: "task_manager \<Rightarrow> str \<Rightarrow> (agent_task \<times> terminal_role) option" where
  "task_and_role m session =
     (case tm_by_validation m session of
        Some i \<Rightarrow> map_option (\<lambda>t. (t, RoleValidation)) (get_task m i)
      | None \<Rightarrow>
          map_option (\<lambda>t. (t, RoleAgent)) (Option.bind (tm_by_terminal m session) (get_task m)))"

definition task_for_terminal_session :: "task_manager \<Rightarrow> str \<Rightarrow> agent_task option" where
  "task_for_terminal_session m session = map_option fst (task_and_role m session)"

definition terminal_role_for_session :: "task_manager \<Rightarrow> str \<Rightarrow> terminal_role option" where
  "terminal_role_for_session m session = map_option snd (task_and_role m session)"

definition has_active_stream :: "task_manager \<Rightarrow> task_id \<Rightarrow> bool" where
  "has_active_stream m i \<longleftrightarrow> tm_streams m i \<noteq> None \<or> i \<in> tm_remote m"

definition task_needs_attention :: "task_manager \<Rightarrow> task_id \<Rightarrow> bool" where
  "task_needs_attention m i \<longleftrightarrow>
     (case get_task m i of Some t \<Rightarrow> at_status t \<noteq> TsArchived \<and> needs_attention t | None \<Rightarrow> False)"

definition attention_count :: "task_manager \<Rightarrow> nat" where
  "attention_count m = length (filter (\<lambda>t. task_needs_attention m (at_id t)) (tm_tasks m))"

definition archived_count :: "task_manager \<Rightarrow> nat" where
  "archived_count m = length (filter (\<lambda>t. at_status t = TsArchived) (tm_tasks m))"

subsection \<open>Creation\<close>

text \<open>Absolute paths, and the equality of paths: by components.\<close>

definition path_absolute :: "bytes \<Rightarrow> bool" where
  "path_absolute p \<longleftrightarrow> p \<noteq> [] \<and> hd p = 0x2f"

definition path_components :: "bytes \<Rightarrow> bytes list" where
  "path_components p =
     (let parts = split_on 0x2f p; normal = filter (\<lambda>c. c \<noteq> [] \<and> c \<noteq> [0x2e])
      in if path_absolute p then [0x2f] # normal parts
         else (if hd parts = [] then [] else [hd parts]) @ normal (tl parts))"

definition path_eq :: "bytes \<Rightarrow> bytes \<Rightarrow> bool" where
  "path_eq p q \<longleftrightarrow> path_components p = path_components q"

definition validate_new_task :: "new_task \<Rightarrow> task_error + unit" where
  "validate_new_task t =
     (let title = str_trim (nt_title t)
      in if title = [] \<or> MAX_TASK_TITLE_BYTES < str_len title \<or> list_ex is_control title
         then Inl InvalidTitle
         else if nt_branch t = [] \<or> MAX_BRANCH_BYTES < str_len (nt_branch t) \<or>
                 list_ex is_control (nt_branch t)
         then Inl InvalidBranch
         else if \<not> (str_len (nt_base_commit t) = 40 \<or> str_len (nt_base_commit t) = 64) \<or>
                 \<not> list_all is_ascii_hexdigit (str_bytes (nt_base_commit t))
         then Inl InvalidBaseCommit
         else if \<not> path_absolute (nt_repo_root t) then Inl RepoRootMustBeAbsolute
         else if \<not> path_absolute (nt_worktree_path t) then Inl WorktreePathMustBeAbsolute
         else if path_eq (nt_repo_root t) (nt_worktree_path t) then Inl WorktreeMatchesRepoRoot
         else if (case nt_source_context t of
                    None \<Rightarrow> False
                  | Some c \<Rightarrow> \<not> is_valid_jsh_session_id (sc_session_id c) \<or> sc_execution_id c = [] \<or>
                      256 < str_len (sc_execution_id c) \<or> list_ex is_control (sc_execution_id c))
         then Inl InvalidSourceContext
         else Inr ())"

definition task_of :: "task_id \<Rightarrow> u64 \<Rightarrow> new_task \<Rightarrow> task_brief option \<Rightarrow> agent_task" where
  "task_of i now nt brief =
     \<lparr>at_id = i, at_title = str_trim (nt_title nt), at_provider = nt_provider nt,
      at_status = TsCreated, at_repo_root = nt_repo_root nt,
      at_worktree_path = nt_worktree_path nt, at_branch = nt_branch nt,
      at_base_commit = nt_base_commit nt,
      at_source = map_option (\<lambda>c. \<lparr>src_session_id = sc_session_id c,
          src_execution_id = sc_execution_id c\<rparr>) (nt_source_context nt),
      at_source_context = nt_source_context nt, at_brief = brief, at_runtime = RkUnassigned,
      at_terminal_session = None, at_validation = validation_default, at_exit_code = None,
      at_detail = None, at_created_ms = now, at_updated_ms = now, at_archived_from = None\<rparr>"

definition create_internal ::
  "task_manager \<Rightarrow> task_id \<Rightarrow> u64 \<Rightarrow> new_task \<Rightarrow> task_brief option \<Rightarrow> task_id task_result" where
  "create_internal m i now nt brief =
     (case validate_new_task nt of
        Inl e \<Rightarrow> (Inl e, m)
      | Inr _ \<Rightarrow>
          (Inr i, m\<lparr>tm_indices := (tm_indices m)(i \<mapsto> length (tm_tasks m)),
                    tm_tasks := tm_tasks m @ [task_of i now nt brief]\<rparr>))"

definition create_task :: "task_manager \<Rightarrow> task_id \<Rightarrow> u64 \<Rightarrow> new_task \<Rightarrow> task_id task_result" where
  "create_task m i now nt = create_internal m i now nt None"

definition create_with_brief ::
  "(u32 \<Rightarrow> bool) \<Rightarrow> task_manager \<Rightarrow> task_id \<Rightarrow> u64 \<Rightarrow> new_task \<Rightarrow> task_brief \<Rightarrow> task_id task_result" where
  "create_with_brief invisible m i now nt brief =
     (if nt_source_context nt \<noteq> None
      then (Inl (InvalidBrief (lit ''a task cannot combine an authored goal with command provenance'')), m)
      else (case brief_validate invisible brief of
              Inl e \<Rightarrow> (Inl (InvalidBrief e), m)
            | Inr _ \<Rightarrow> create_internal m i now nt (Some brief)))"

text \<open>The index of a known task is in range; \<open>None\<close> is the panic of the code otherwise.\<close>

definition project_hosted_task ::
  "task_manager \<Rightarrow> agent_task \<Rightarrow> bool \<Rightarrow> ((str + unit) \<times> task_manager) option" where
  "project_hosted_task m incoming live =
     (let i = at_id incoming;
          mark = (\<lambda>m. m\<lparr>tm_remote := (if live then insert i (tm_remote m) else tm_remote m - {i})\<rparr>)
      in if tm_streams m i \<noteq> None
         then Some (Inl (lit ''A local native event owner cannot be replaced by a host projection''), m)
         else (case tm_indices m i of
                 Some n \<Rightarrow>
                   do { current \<leftarrow> index (tm_tasks m) n;
                        Some (if \<not> path_eq (at_repo_root current) (at_repo_root incoming) \<or>
                                 \<not> path_eq (at_worktree_path current) (at_worktree_path incoming) \<or>
                                 at_branch current \<noteq> at_branch incoming \<or>
                                 at_base_commit current \<noteq> at_base_commit incoming \<or>
                                 at_provider current \<noteq> at_provider incoming \<or>
                                 at_created_ms current \<noteq> at_created_ms incoming
                              then (Inl (lit ''Host task identity no longer matches the registered worktree''), m)
                              else (Inr (), mark (m\<lparr>tm_tasks := (tm_tasks m)[n := incoming]\<rparr>))) }
               | None \<Rightarrow>
                   Some (Inr (), mark (m\<lparr>tm_indices := (tm_indices m)(i \<mapsto> length (tm_tasks m)),
                      tm_tasks := tm_tasks m @ [incoming]\<rparr>))))"

subsection \<open>Event streams\<close>

text \<open>A validation result that later work has made stale; the count of attempts is kept.\<close>

definition stale_validation :: "validation_state \<Rightarrow> str \<Rightarrow> validation_state" where
  "stale_validation v reason =
     (if v \<noteq> validation_default
      then validation_default\<lparr>vs_attempt := vs_attempt v, vs_detail := Some reason\<rparr> else v)"

definition drop_validation_session :: "task_manager \<Rightarrow> str option \<Rightarrow> task_manager" where
  "drop_validation_session m session =
     (case session of
        Some s \<Rightarrow> m\<lparr>tm_by_validation := (tm_by_validation m)(s := None)\<rparr>
      | None \<Rightarrow> m)"

text \<open>The same, only when the session still belongs to the task.\<close>

definition drop_own_validation_session :: "task_manager \<Rightarrow> task_id \<Rightarrow> str option \<Rightarrow> task_manager" where
  "drop_own_validation_session m i session =
     (case session of
        Some s \<Rightarrow> if tm_by_validation m s = Some i
                   then m\<lparr>tm_by_validation := (tm_by_validation m)(s := None)\<rparr> else m
      | None \<Rightarrow> m)"

definition verify_stream :: "task_manager \<Rightarrow> event_stream \<Rightarrow> agent_event_error + task_id" where
  "verify_stream m expected =
     (let i = es_task expected
      in case tm_streams m i of
           None \<Rightarrow> Inl (ENoActiveStream i)
         | Some active \<Rightarrow>
             if es_epoch (ss_stream active) \<noteq> es_epoch expected
             then Inl (EEpochMismatch i (es_epoch (ss_stream active)) (es_epoch expected))
             else if es_session (ss_stream active) \<noteq> es_session expected
             then Inl (ESessionMismatch i)
             else Inr i)"

definition terminal_owned :: "agent_task \<Rightarrow> bool" where
  "terminal_owned t \<longleftrightarrow>
     at_terminal_session t \<noteq> None \<or> at_runtime t = RkTerminal \<or> at_runtime t = RkTerminalFallback"

definition install_stream ::
  "task_manager \<Rightarrow> u64 \<Rightarrow> task_id \<Rightarrow> str \<Rightarrow> bool \<Rightarrow> u64 \<Rightarrow> event_stream event_result \<times> u64" where
  "install_stream m counter i session replacing now =
     (case get_task m i of
        None \<Rightarrow> ((Inl (EUnknownTask i), m), counter)
      | Some t \<Rightarrow>
          if is_terminal (at_status t) then ((Inl (ETerminalState i (at_status t)), m), counter)
          else if terminal_owned t then ((Inl (ETerminalSessionBound i), m), counter)
          else if vs_status (at_validation t) = VsRunning
          then ((Inl (EValidationActive i), m), counter)
          else
            (case allocate_epoch counter of
               (Inl e, counter) \<Rightarrow> ((Inl e, m), counter)
             | (Inr epoch, counter) \<Rightarrow>
                 (let stream = \<lparr>es_task = i, es_session = session, es_epoch = epoch\<rparr>;
                      m1 = (if replacing then m
                            else put_task (drop_validation_session m (vs_session (at_validation t))) i
                              (let t1 = (if at_runtime t = RkUnassigned
                                         then t\<lparr>at_runtime := RkNative, at_status := TsStarting,
                                                at_detail := None\<rparr> else t)
                               in t1\<lparr>at_validation := stale_validation (at_validation t1)
                                      (lit ''Agent work resumed; the previous validation result is stale''),
                                     at_updated_ms := now\<rparr>));
                      (turn, review) =
                        (if replacing
                         then (case tm_streams m1 i of
                                 Some active \<Rightarrow> (ss_active_turn active, ss_review_point active)
                               | None \<Rightarrow> (None, False))
                         else (None, at_status t = TsReadyForReview))
                  in ((Inr stream,
                       m1\<lparr>tm_streams := (tm_streams m1)(i \<mapsto>
                         \<lparr>ss_stream = stream, ss_next_sequence = 1, ss_session_started = False,
                          ss_active_turn = turn, ss_review_point = review\<rparr>)\<rparr>), counter))))"

definition start_stream ::
  "task_manager \<Rightarrow> u64 \<Rightarrow> task_id \<Rightarrow> str \<Rightarrow> u64 \<Rightarrow> event_stream event_result \<times> u64" where
  "start_stream m counter i session now =
     (if has_active_stream m i then ((Inl (EStreamAlreadyActive i), m), counter)
      else (case get_task m i of
              None \<Rightarrow> ((Inl (EUnknownTask i), m), counter)
            | Some t \<Rightarrow>
                if is_terminal (at_status t) then ((Inl (ETerminalState i (at_status t)), m), counter)
                else if terminal_owned t then ((Inl (ETerminalSessionBound i), m), counter)
                else if vs_status (at_validation t) = VsRunning
                then ((Inl (EValidationActive i), m), counter)
                else if at_status t \<noteq> TsCreated
                then ((Inl (ENativeStartRequiresCreated i (at_status t)), m), counter)
                else install_stream m counter i session False now))"

definition resume_stream ::
  "task_manager \<Rightarrow> u64 \<Rightarrow> task_id \<Rightarrow> str \<Rightarrow> u64 \<Rightarrow> event_stream event_result \<times> u64" where
  "resume_stream m counter i session now =
     (if has_active_stream m i then ((Inl (EStreamAlreadyActive i), m), counter)
      else (case get_task m i of
              None \<Rightarrow> ((Inl (EUnknownTask i), m), counter)
            | Some t \<Rightarrow>
                if at_status t \<noteq> TsReadyForReview \<or> at_runtime t \<noteq> RkNative
                then ((Inl (ENativeStartRequiresCreated i (at_status t)), m), counter)
                else install_stream m counter i session False now))"

definition end_stream :: "task_manager \<Rightarrow> task_id \<Rightarrow> task_manager" where
  "end_stream m i = m\<lparr>tm_streams := (tm_streams m)(i := None)\<rparr>"

definition finish_stream ::
  "(u32 \<Rightarrow> bool) \<Rightarrow> task_manager \<Rightarrow> event_stream \<Rightarrow> session_outcome \<Rightarrow> str option \<Rightarrow> u64 \<Rightarrow>
     task_status event_result" where
  "finish_stream invisible m expected outcome detail now =
     (case verify_stream m expected of
        Inl e \<Rightarrow> (Inl e, m)
      | Inr i \<Rightarrow>
          (case get_task m i of
             None \<Rightarrow> (Inl (EUnknownTask i), m)
           | Some t \<Rightarrow>
               (let current = at_status t
                in if is_terminal current then (Inl (ETerminalState i current), m)
                   else
                     (let review = (case tm_streams m i of Some a \<Rightarrow> ss_review_point a | None \<Rightarrow> False);
                          event = SessionEnded outcome
                      in case status_after_event current event of
                           None \<Rightarrow> (Inl (EInvalidTransition i current event), m)
                         | Some (next_status, _) \<Rightarrow>
                             (let next_status = (if review \<and> outcome \<noteq> OutClean then TsReadyForReview
                                                 else next_status);
                                  detail = bounded_event_detail invisible detail;
                                  t1 = t\<lparr>at_status := next_status\<rparr>;
                                  t2 = (if next_status \<noteq> current \<or> detail \<noteq> None
                                        then t1\<lparr>at_detail := detail\<rparr> else t1)
                              in (Inr next_status,
                                  end_stream (put_task m i (t2\<lparr>at_updated_ms := now\<rparr>)) i))))))"

definition rollback_stream ::
  "(u32 \<Rightarrow> bool) \<Rightarrow> task_manager \<Rightarrow> event_stream \<Rightarrow> str \<Rightarrow> u64 \<Rightarrow> unit event_result" where
  "rollback_stream invisible m expected detail now =
     (case verify_stream m expected of
        Inl e \<Rightarrow> (Inl e, m)
      | Inr i \<Rightarrow>
          (case get_task m i of
             None \<Rightarrow> (Inl (EUnknownTask i), m)
           | Some t \<Rightarrow>
               if at_status t \<noteq> TsStarting \<or> at_runtime t \<noteq> RkNative
               then (Inl (EInvalidTransition i (at_status t) (SessionEnded OutFailed)), m)
               else (Inr (), end_stream (put_task m i
                       (t\<lparr>at_runtime := RkUnassigned, at_status := TsCreated,
                          at_detail := bounded_event_detail invisible (Some detail),
                          at_updated_ms := now\<rparr>)) i)))"

subsection \<open>Applying an event\<close>

text \<open>The checks of \<open>apply_agent_event\<close> in their order; the first that fails is the answer.\<close>

definition may_end_before_start :: "event_kind \<Rightarrow> bool" where
  "may_end_before_start e \<longleftrightarrow>
     (case e of EventCancelled \<Rightarrow> True | SessionEnded _ \<Rightarrow> True | EventError fatal \<Rightarrow> fatal | _ \<Rightarrow> False)"

definition is_session_started :: "event_kind \<Rightarrow> bool" where
  "is_session_started e \<longleftrightarrow> (case e of SessionStarted _ _ \<Rightarrow> True | _ \<Rightarrow> False)"

definition check_session_start :: "task_id \<Rightarrow> agent_provider \<Rightarrow> event_kind \<Rightarrow> agent_event_error option" where
  "check_session_start i expected kind =
     (case kind of
        SessionStarted session resumed \<Rightarrow>
          if resumed \<and> session = None then Some (EMissingResumeSession i)
          else (case session of
                  Some s \<Rightarrow> if ps_provider s \<noteq> expected
                             then Some (EProviderMismatch i expected (ps_provider s)) else None
                | None \<Rightarrow> None)
      | _ \<Rightarrow> None)"

definition turn_of :: "event_kind \<Rightarrow> turn_id option" where
  "turn_of e =
     (case e of
        ApprovalRequested turn _ \<Rightarrow> Some turn
      | PermissionRequested turn _ \<Rightarrow> Some turn
      | InputRequested turn \<Rightarrow> Some turn
      | WorkResumed turn \<Rightarrow> Some turn
      | TurnCompleted turn \<Rightarrow> Some turn
      | _ \<Rightarrow> None)"

definition check_turn :: "task_id \<Rightarrow> turn_id option \<Rightarrow> event_kind \<Rightarrow> agent_event_error option" where
  "check_turn i active kind =
     (case kind of
        TurnStarted _ \<Rightarrow> (case active of Some turn \<Rightarrow> Some (ETurnAlreadyActive i turn) | None \<Rightarrow> None)
      | _ \<Rightarrow>
          (case turn_of kind of
             None \<Rightarrow> None
           | Some turn \<Rightarrow>
               (case active of
                  Some expected \<Rightarrow> if expected \<noteq> turn then Some (ETurnMismatch i expected turn) else None
                | None \<Rightarrow> Some (ENoActiveTurn i))))"

definition check_event ::
  "task_id \<Rightarrow> agent_task \<Rightarrow> stream_state \<Rightarrow> agent_event \<Rightarrow> agent_event_error option" where
  "check_event i t active ev =
     (let stream = ae_stream ev; kind = ae_kind ev
      in if es_epoch (ss_stream active) \<noteq> es_epoch stream
         then Some (EEpochMismatch i (es_epoch (ss_stream active)) (es_epoch stream))
         else if es_session (ss_stream active) \<noteq> es_session stream then Some (ESessionMismatch i)
         else if ss_next_sequence active \<noteq> ae_sequence ev
         then Some (EInvalidSequence i (ss_next_sequence active) (ae_sequence ev))
         else (case check_session_start i (at_provider t) kind of
                 Some e \<Rightarrow> Some e
               | None \<Rightarrow>
                   if \<not> ss_session_started active \<and> \<not> is_session_started kind \<and>
                      \<not> may_end_before_start kind
                   then Some (ESessionNotStarted i)
                   else if ss_session_started active \<and> is_session_started kind
                   then Some (EInvalidTransition i (at_status t) kind)
                   else check_turn i (ss_active_turn active) kind))"

definition is_turn_started :: "event_kind \<Rightarrow> bool" where
  "is_turn_started e \<longleftrightarrow> (case e of TurnStarted _ \<Rightarrow> True | _ \<Rightarrow> False)"

text \<open>An end that the review point turns into another review.\<close>

definition unclean_end :: "event_kind \<Rightarrow> bool" where
  "unclean_end e \<longleftrightarrow>
     (case e of EventCancelled \<Rightarrow> True | SessionEnded outcome \<Rightarrow> outcome \<noteq> OutClean
      | EventError fatal \<Rightarrow> fatal | _ \<Rightarrow> False)"

definition event_task ::
  "agent_task \<Rightarrow> event_kind \<Rightarrow> task_status \<Rightarrow> str option \<Rightarrow> u64 \<Rightarrow> agent_task" where
  "event_task t kind next_status detail now =
     (let t1 = (if is_turn_started kind
                then t\<lparr>at_validation := stale_validation (at_validation t)
                        (lit ''Agent turn started; the previous validation result is stale'')\<rparr>
                else t);
          t2 = t1\<lparr>at_status := next_status\<rparr>;
          t3 = (if next_status \<noteq> at_status t \<or> detail \<noteq> None then t2\<lparr>at_detail := detail\<rparr> else t2)
      in t3\<lparr>at_updated_ms := now\<rparr>)"

definition event_cursor :: "stream_state \<Rightarrow> event_kind \<Rightarrow> u64 \<Rightarrow> stream_state" where
  "event_cursor a kind next_sequence =
     (let a1 = a\<lparr>ss_next_sequence := next_sequence,
                 ss_session_started := (ss_session_started a \<or> is_session_started kind)\<rparr>
      in case kind of
           TurnStarted turn \<Rightarrow> a1\<lparr>ss_active_turn := Some turn\<rparr>
         | TurnCompleted _ \<Rightarrow> a1\<lparr>ss_active_turn := None, ss_review_point := True\<rparr>
         | _ \<Rightarrow> a1)"

definition apply_event :: "task_manager \<Rightarrow> agent_event \<Rightarrow> u64 \<Rightarrow> task_status event_result" where
  "apply_event m ev now =
     (let i = es_task (ae_stream ev); kind = ae_kind ev
      in case get_task m i of
           None \<Rightarrow> (Inl (EUnknownTask i), m)
         | Some t \<Rightarrow>
             if is_terminal (at_status t) then (Inl (ETerminalState i (at_status t)), m)
             else (case tm_streams m i of
                     None \<Rightarrow> (Inl (ENoActiveStream i), m)
                   | Some active \<Rightarrow>
                       (case check_event i t active ev of
                          Some e \<Rightarrow> (Inl e, m)
                        | None \<Rightarrow>
                            (case status_after_event (at_status t) kind of
                               None \<Rightarrow> (Inl (EInvalidTransition i (at_status t) kind), m)
                             | Some (next_status, updates) \<Rightarrow>
                                 (let next_status = (if ss_review_point active \<and> unclean_end kind
                                                     then TsReadyForReview else next_status)
                                  in if ae_sequence ev = - 1 then (Inl (ESequenceExhausted i), m)
                                     else
                                       (let stale = (if is_turn_started kind \<and>
                                                        at_validation t \<noteq> validation_default
                                                     then vs_session (at_validation t) else None);
                                            m1 = (if updates
                                                  then put_task m i (event_task t kind next_status
                                                         (ae_detail ev) now) else m);
                                            m2 = drop_own_validation_session m1 i stale;
                                            m3 = (if is_terminal next_status \<or> event_ends_stream kind
                                                  then end_stream m2 i
                                                  else m2\<lparr>tm_streams := (tm_streams m2)(i \<mapsto>
                                                         event_cursor active kind (ae_sequence ev + 1))\<rparr>)
                                        in (Inr next_status, m3)))))))"

end
