(* ===== verification/Dashboard_Rows.thy ===== *)
theory Dashboard_Rows
  imports Agent_Task Review_Input
begin

text \<open>
  The rows of the task dashboard: the facts of \<open>src/src/agent_task/dashboard.rs\<close> that do not depend
  on a query, and the labels of \<open>task.rs\<close> they show.  \<open>invisible\<close> stands for
  \<open>jagent::is_unsafe_invisible_char\<close>.
\<close>

definition DASHBOARD_TITLE_MAX_BYTES :: nat where "DASHBOARD_TITLE_MAX_BYTES = 256"
definition DASHBOARD_DETAIL_MAX_BYTES :: nat where "DASHBOARD_DETAIL_MAX_BYTES = 1024"
definition DASHBOARD_QUERY_MAX_BYTES :: nat where "DASHBOARD_QUERY_MAX_BYTES = 256"

subsection \<open>Labels\<close>

definition status_label :: "task_status \<Rightarrow> str" where
  "status_label s =
     (case s of
        TsCreated \<Rightarrow> lit ''Created'' | TsStarting \<Rightarrow> lit ''Starting'' | TsWorking \<Rightarrow> lit ''Working''
      | TsWaitingForApproval \<Rightarrow> lit ''Waiting for approval'' | TsWaitingForHuman \<Rightarrow> lit ''Waiting for you''
      | TsReadyForReview \<Rightarrow> lit ''Ready for review'' | TsCompleted \<Rightarrow> lit ''Completed''
      | TsFailed \<Rightarrow> lit ''Failed'' | TsCancelled \<Rightarrow> lit ''Cancelled'' | TsArchived \<Rightarrow> lit ''Archived'')"

definition validation_label :: "validation_status \<Rightarrow> str" where
  "validation_label s =
     (case s of
        VsNotRun \<Rightarrow> lit ''Not run'' | VsRunning \<Rightarrow> lit ''Running'' | VsPassed \<Rightarrow> lit ''Passed''
      | VsFailed \<Rightarrow> lit ''Failed'' | VsInconclusive \<Rightarrow> lit ''Needs review'' | VsCancelled \<Rightarrow> lit ''Cancelled'')"

definition runtime_label :: "runtime_kind \<Rightarrow> str" where
  "runtime_label r =
     (case r of
        RkUnassigned \<Rightarrow> lit ''Not started'' | RkTerminal \<Rightarrow> lit ''Terminal Agent''
      | RkNative \<Rightarrow> lit ''Native Agent'' | RkTerminalFallback \<Rightarrow> lit ''Terminal fallback after native attempt'')"

subsection \<open>Attention\<close>

datatype attention_kind = AkApproval | AkInput | AkValidation | AkReview | AkFailed

definition attention_kinds :: "attention_kind list" where
  "attention_kinds = [AkApproval, AkInput, AkValidation, AkReview, AkFailed]"

definition attention_label :: "attention_kind \<Rightarrow> str" where
  "attention_label k =
     (case k of AkApproval \<Rightarrow> lit ''Approvals'' | AkInput \<Rightarrow> lit ''Needs reply''
      | AkValidation \<Rightarrow> lit ''Validation issues'' | AkReview \<Rightarrow> lit ''Ready to review''
      | AkFailed \<Rightarrow> lit ''Failed tasks'')"

definition attention_query_value :: "attention_kind \<Rightarrow> str" where
  "attention_query_value k =
     (case k of AkApproval \<Rightarrow> lit ''approval'' | AkInput \<Rightarrow> lit ''input''
      | AkValidation \<Rightarrow> lit ''validation'' | AkReview \<Rightarrow> lit ''review'' | AkFailed \<Rightarrow> lit ''failed'')"

definition attention_of :: "task_status \<Rightarrow> validation_status \<Rightarrow> bool \<Rightarrow> attention_kind option" where
  "attention_of st v needs =
     (if \<not> needs \<or> st = TsArchived \<or> v = VsRunning then None
      else (case st of
              TsWaitingForApproval \<Rightarrow> Some AkApproval
            | TsWaitingForHuman \<Rightarrow> Some AkInput
            | TsFailed \<Rightarrow> Some AkFailed
            | _ \<Rightarrow> if validation_needs_attention v then Some AkValidation
                   else (case st of TsReadyForReview \<Rightarrow> Some AkReview | _ \<Rightarrow> None)))"

text \<open>The counts of the five queues, an array of five.\<close>

type_synonym attention_counts = "nat list"

definition counts_default :: attention_counts where "counts_default = [0, 0, 0, 0, 0]"

definition attention_index :: "attention_kind \<Rightarrow> nat" where
  "attention_index k =
     (case k of AkApproval \<Rightarrow> 0 | AkInput \<Rightarrow> 1 | AkValidation \<Rightarrow> 2 | AkReview \<Rightarrow> 3 | AkFailed \<Rightarrow> 4)"

definition counts_get :: "attention_counts \<Rightarrow> attention_kind \<Rightarrow> nat" where
  "counts_get c k = c ! attention_index k"

definition counts_add :: "attention_counts \<Rightarrow> attention_kind \<Rightarrow> attention_counts" where
  "counts_add c k = c[attention_index k := c ! attention_index k + 1]"

definition counts_add_option :: "attention_counts \<Rightarrow> attention_kind option \<Rightarrow> attention_counts" where
  "counts_add_option c k = (case k of Some kind \<Rightarrow> counts_add c kind | None \<Rightarrow> c)"

definition counts_from_tasks :: "agent_task list \<Rightarrow> attention_counts" where
  "counts_from_tasks ts =
     foldl (\<lambda>c t. counts_add_option c (attention_of (at_status t) (vs_status (at_validation t))
       (at_status t \<noteq> TsArchived \<and> needs_attention t))) counts_default ts"

definition counts_total :: "attention_counts \<Rightarrow> nat" where
  "counts_total c = sum_list c"

definition nat_text :: "nat \<Rightarrow> str" where
  "nat_text n = map ucast (dec n)"

definition part_names :: "attention_kind \<Rightarrow> str \<times> str" where
  "part_names k =
     (case k of
        AkApproval \<Rightarrow> (lit ''approval'', lit ''approvals'')
      | AkInput \<Rightarrow> (lit ''reply'', lit ''replies'')
      | AkValidation \<Rightarrow> (lit ''validation issue'', lit ''validation issues'')
      | AkReview \<Rightarrow> (lit ''ready to review'', lit ''ready to review'')
      | AkFailed \<Rightarrow> (lit ''failed'', lit ''failed''))"

fun join :: "str \<Rightarrow> str list \<Rightarrow> str" where
  "join sep [] = []"
| "join sep [p] = p"
| "join sep (p # q # ps) = p @ sep @ join sep (q # ps)"

definition counts_summary :: "attention_counts \<Rightarrow> str option" where
  "counts_summary c =
     (let total = counts_total c
      in if total = 0 then None
         else
           (let parts = join (lit '', '') (List.map_filter (\<lambda>k.
                  let count = counts_get c k
                  in if 0 < count
                     then Some (nat_text count @ lit '' '' @
                            (if count = 1 then fst (part_names k) else snd (part_names k)))
                     else None) attention_kinds)
            in Some (if total = 1 then lit ''1 task needs you: '' @ parts
                     else nat_text total @ lit '' tasks need you: '' @ parts)))"

subsection \<open>Groups\<close>

datatype dashboard_group = DgCreated | DgActive | DgPendingApproval | DgWaitingForHuman | DgReview
  | DgDone | DgFailed | DgCancelled | DgArchived

definition group_from_status :: "task_status \<Rightarrow> dashboard_group" where
  "group_from_status s =
     (case s of
        TsCreated \<Rightarrow> DgCreated | TsStarting \<Rightarrow> DgActive | TsWorking \<Rightarrow> DgActive
      | TsWaitingForApproval \<Rightarrow> DgPendingApproval | TsWaitingForHuman \<Rightarrow> DgWaitingForHuman
      | TsReadyForReview \<Rightarrow> DgReview | TsCompleted \<Rightarrow> DgDone | TsFailed \<Rightarrow> DgFailed
      | TsCancelled \<Rightarrow> DgCancelled | TsArchived \<Rightarrow> DgArchived)"

subsection \<open>Rows\<close>

record activity =
  ac_agent_terminal :: bool
  ac_validation_terminal :: bool
  ac_agent_stream :: bool
  ac_preparing :: bool

record dashboard_row =
  dr_id :: task_id
  dr_title :: str
  dr_provider :: agent_provider
  dr_status :: task_status
  dr_runtime :: runtime_kind
  dr_branch :: str
  dr_repo_label :: str
  dr_activity :: activity
  dr_validation :: validation_status
  dr_attempt :: u64
  dr_attention :: bool
  dr_detail :: "str option"
  dr_updated_ms :: u64

text \<open>\<open>Path::to_string_lossy\<close>, as the characters of the converted bytes.\<close>

definition path_text :: "bytes \<Rightarrow> str" where
  "path_text p = (case from_utf8 (from_utf8_lossy p) of Some s \<Rightarrow> s | None \<Rightarrow> [])"

definition row_from_task :: "(u32 \<Rightarrow> bool) \<Rightarrow> agent_task \<Rightarrow> activity \<Rightarrow> dashboard_row" where
  "row_from_task invisible t a =
     \<lparr>dr_id = at_id t, dr_title = safe_inline_display invisible (at_title t) DASHBOARD_TITLE_MAX_BYTES,
      dr_provider = at_provider t, dr_status = at_status t, dr_runtime = at_runtime t,
      dr_branch = safe_inline_display invisible (at_branch t) DASHBOARD_TITLE_MAX_BYTES,
      dr_repo_label =
        safe_inline_display invisible (path_text (at_repo_root t)) DASHBOARD_DETAIL_MAX_BYTES,
      dr_activity = a, dr_validation = vs_status (at_validation t),
      dr_attempt = vs_attempt (at_validation t),
      dr_attention = (at_status t \<noteq> TsArchived \<and> needs_attention t),
      dr_detail = map_option (\<lambda>d. safe_inline_display invisible d DASHBOARD_DETAIL_MAX_BYTES) (at_detail t),
      dr_updated_ms = at_updated_ms t\<rparr>"

definition row_group :: "dashboard_row \<Rightarrow> dashboard_group" where
  "row_group r = group_from_status (dr_status r)"

definition row_attention_kind :: "dashboard_row \<Rightarrow> attention_kind option" where
  "row_attention_kind r = attention_of (dr_status r) (dr_validation r) (dr_attention r)"

definition row_is_running :: "dashboard_row \<Rightarrow> bool" where
  "row_is_running r \<longleftrightarrow> is_running (dr_status r) \<or> dr_validation r = VsRunning \<or>
     ac_agent_stream (dr_activity r) \<or> ac_preparing (dr_activity r)"

definition status_line :: "(u32 \<Rightarrow> bool) \<Rightarrow> dashboard_row \<Rightarrow> str" where
  "status_line invisible r =
     (let base = (if ac_preparing (dr_activity r) \<and>
                     \<not> (dr_status r = TsWaitingForApproval \<or> dr_status r = TsWaitingForHuman)
                  then lit ''Preparing native '' @ display_name (dr_provider r)
                  else status_label (dr_status r));
          line = (if dr_validation r = VsNotRun then base
                  else base @ [0x20, 0xb7] @ lit '' validation '' @ validation_label (dr_validation r))
      in safe_inline_display invisible line DASHBOARD_DETAIL_MAX_BYTES)"

definition row_rank :: "dashboard_row \<Rightarrow> nat" where
  "row_rank r = (if dr_attention r then 0 else if row_is_running r then 1 else 2)"

end
