(* ===== verification/Workspace_Rows.thy ===== *)
theory Workspace_Rows
  imports Dashboard_Rows
begin

text \<open>
  The rows of the agent workspace: \<open>src/src/agent_workspace/model.rs\<close> and
  \<open>src/src/agent_workspace/projection.rs\<close>, the rows of \<open>native.rs\<close> and the counts of
  \<open>overview.rs\<close>.  Of the snapshots of a native or an API conversation the fields read here are
  modelled.  \<open>invisible\<close> stands for \<open>jagent::is_unsafe_invisible_char\<close>, \<open>id_text\<close> for the text
  of a uuid, \<open>host\<close> for the id of this machine and \<open>to_json\<close> for the writer of \<open>serde_json\<close>.
\<close>

type_synonym conversation_id = str

datatype conversation_kind = Api | Cli | Task

datatype runtime_state = Idle | Starting | Running | Attached | Stopping | Exited | Failed | Conflict

definition runtime_state_label :: "runtime_state \<Rightarrow> str" where
  "runtime_state_label r =
     (case r of
        Idle \<Rightarrow> lit ''Ready to resume'' | Starting \<Rightarrow> lit ''Starting''
      | Running \<Rightarrow> lit ''Running '' @ [0xb7] @ lit '' detached''
      | Attached \<Rightarrow> lit ''Running '' @ [0xb7] @ lit '' attached''
      | Stopping \<Rightarrow> lit ''Stopping'' | Exited \<Rightarrow> lit ''Exited'' | Failed \<Rightarrow> lit ''Failed''
      | Conflict \<Rightarrow> lit ''External owner'')"

definition is_live :: "runtime_state \<Rightarrow> bool" where
  "is_live r \<longleftrightarrow> r = Starting \<or> r = Running \<or> r = Attached \<or> r = Stopping"

datatype session_status = SessWorking | SessWaiting | SessIdle | SessUnknown | SessArchived

datatype api_state = ApiStarting | ApiRunning | ApiStopping | ApiCompleted | ApiCancelled | ApiFailed
  | ApiInterrupted

subsection \<open>Attention\<close>

datatype workspace_attention = WaApproval | WaReply | WaValidation | WaReview | WaFailed
  | WaInterrupted | WaConflict

definition workspace_attentions :: "workspace_attention list" where
  "workspace_attentions = [WaApproval, WaReply, WaValidation, WaReview, WaFailed, WaInterrupted, WaConflict]"

definition workspace_attention_label :: "workspace_attention \<Rightarrow> str" where
  "workspace_attention_label a =
     (case a of
        WaApproval \<Rightarrow> lit ''Permission requested'' | WaReply \<Rightarrow> lit ''Needs reply''
      | WaValidation \<Rightarrow> lit ''Validation needs review'' | WaReview \<Rightarrow> lit ''Ready to review''
      | WaFailed \<Rightarrow> lit ''Execution failed'' | WaInterrupted \<Rightarrow> lit ''Result unconfirmed''
      | WaConflict \<Rightarrow> lit ''Owner conflict'')"

definition workspace_attention_value :: "workspace_attention \<Rightarrow> str" where
  "workspace_attention_value a =
     (case a of
        WaApproval \<Rightarrow> lit ''approval'' | WaReply \<Rightarrow> lit ''input'' | WaValidation \<Rightarrow> lit ''validation''
      | WaReview \<Rightarrow> lit ''review'' | WaFailed \<Rightarrow> lit ''failed'' | WaInterrupted \<Rightarrow> lit ''interrupted''
      | WaConflict \<Rightarrow> lit ''conflict'')"

definition attention_from_dashboard :: "attention_kind \<Rightarrow> workspace_attention" where
  "attention_from_dashboard k =
     (case k of AkApproval \<Rightarrow> WaApproval | AkInput \<Rightarrow> WaReply | AkValidation \<Rightarrow> WaValidation
      | AkReview \<Rightarrow> WaReview | AkFailed \<Rightarrow> WaFailed)"

subsection \<open>Capabilities\<close>

record capabilities =
  cp_known :: bool
  cp_terminal :: bool
  cp_follow_up :: bool
  cp_native_resume :: bool
  cp_terminal_handoff :: bool
  cp_structured_approval :: bool
  cp_history_paging :: bool
  cp_background_execution :: bool

definition capabilities_default :: capabilities where
  "capabilities_default = \<lparr>cp_known = False, cp_terminal = False, cp_follow_up = False,
     cp_native_resume = False, cp_terminal_handoff = False, cp_structured_approval = False,
     cp_history_paging = False, cp_background_execution = False\<rparr>"

definition capabilities_cli :: capabilities where
  "capabilities_cli = capabilities_default\<lparr>cp_known := True, cp_terminal := True,
     cp_background_execution := True\<rparr>"

definition capabilities_api :: capabilities where
  "capabilities_api = capabilities_default\<lparr>cp_known := True, cp_follow_up := True,
     cp_history_paging := True, cp_background_execution := True\<rparr>"

definition capabilities_native :: "agent_provider \<Rightarrow> capabilities" where
  "capabilities_native p =
     (case p of
        PrCodex \<Rightarrow> capabilities_default\<lparr>cp_known := True, cp_follow_up := True, cp_native_resume := True,
          cp_terminal_handoff := True, cp_structured_approval := True, cp_history_paging := True,
          cp_background_execution := True\<rparr>
      | PrClaude \<Rightarrow> capabilities_default\<lparr>cp_known := True, cp_follow_up := True,
          cp_terminal_handoff := True, cp_background_execution := True\<rparr>
      | PrKimi \<Rightarrow> capabilities_default\<lparr>cp_known := True, cp_background_execution := True\<rparr>
      | PrOpenCode \<Rightarrow> capabilities_default)"

subsection \<open>Facts and rows\<close>

record workspace_facts =
  f_branch :: "str option"
  f_worktree :: "str option"
  f_recorded_status :: "session_status option"
  f_task_id :: "task_id option"
  f_task_status :: "task_status option"
  f_task_accepted :: bool
  f_task_runtime :: "runtime_kind option"
  f_validation_status :: "validation_status option"
  f_api_state :: "api_state option"
  f_attention :: "workspace_attention option"
  f_status_detail :: "str option"
  f_interrupted :: bool
  f_preparing :: bool
  f_agent_stream :: bool
  f_agent_terminal :: bool
  f_validation_terminal :: bool
  f_source_sequence :: "u64 option"
  f_approval_id :: "str option"
  f_capabilities :: capabilities

definition facts_default :: workspace_facts where
  "facts_default = \<lparr>f_branch = None, f_worktree = None, f_recorded_status = None, f_task_id = None,
     f_task_status = None, f_task_accepted = False, f_task_runtime = None, f_validation_status = None,
     f_api_state = None, f_attention = None, f_status_detail = None, f_interrupted = False,
     f_preparing = False, f_agent_stream = False, f_agent_terminal = False, f_validation_terminal = False,
     f_source_sequence = None, f_approval_id = None, f_capabilities = capabilities_default\<rparr>"

record workspace_row =
  row_id :: conversation_id
  row_kind :: conversation_kind
  row_title :: str
  row_provider :: str
  row_cwd :: str
  row_preview :: str
  row_updated_ms :: u64
  row_archived :: bool
  row_pinned :: bool
  row_tags :: "str list"
  row_runtime :: runtime_state
  row_facts :: workspace_facts

definition recorded_only :: "workspace_facts \<Rightarrow> workspace_facts" where
  "recorded_only f = facts_default\<lparr>f_branch := f_branch f, f_recorded_status := f_recorded_status f\<rparr>"

definition facts_from_task :: "(u32 \<Rightarrow> bool) \<Rightarrow> agent_task \<Rightarrow> activity \<Rightarrow> workspace_facts" where
  "facts_from_task invisible t a =
     (let dashboard = row_from_task invisible t a
      in facts_default\<lparr>f_branch := Some (at_branch t), f_worktree := Some (path_text (at_worktree_path t)),
           f_task_id := Some (at_id t), f_task_status := Some (at_status t),
           f_task_accepted := (at_status t = TsCompleted \<or>
             (at_status t = TsArchived \<and> at_archived_from t = Some TsCompleted)),
           f_task_runtime := Some (at_runtime t), f_validation_status := Some (vs_status (at_validation t)),
           f_attention := map_option attention_from_dashboard (row_attention_kind dashboard),
           f_status_detail := dr_detail dashboard, f_preparing := ac_preparing a,
           f_agent_stream := ac_agent_stream a, f_agent_terminal := ac_agent_terminal a,
           f_validation_terminal := ac_validation_terminal a\<rparr>)"

text \<open>The fields of a native snapshot that its row and its facts read.\<close>

record native_snapshot =
  ns_id :: conversation_id
  ns_sequence :: u64
  ns_task :: agent_task
  ns_first_approval :: "str option"
  ns_preparing :: bool
  ns_live :: bool
  ns_ownership_locked :: bool
  ns_interrupted :: bool
  ns_handoff_pending :: bool
  ns_terminal :: bool
  ns_validation :: "(bool \<times> bool) option"

definition facts_from_native :: "(u32 \<Rightarrow> bool) \<Rightarrow> native_snapshot \<Rightarrow> workspace_facts" where
  "facts_from_native invisible n =
     (let a = \<lparr>ac_agent_terminal = ns_terminal n \<and> ns_ownership_locked n,
            ac_validation_terminal = (case ns_validation n of Some (terminal, _) \<Rightarrow> terminal | None \<Rightarrow> False),
            ac_agent_stream = ns_live n, ac_preparing = ns_preparing n\<rparr>;
          facts = (facts_from_task invisible (ns_task n) a)\<lparr>f_source_sequence := Some (ns_sequence n),
            f_interrupted := ns_interrupted n, f_capabilities := capabilities_native (at_provider (ns_task n))\<rparr>
      in if ns_interrupted n then facts\<lparr>f_attention := Some WaInterrupted\<rparr>
         else if ns_live n then facts\<lparr>f_approval_id := ns_first_approval n\<rparr>
         else if f_attention facts = Some WaApproval \<or> f_attention facts = Some WaReply
         then facts\<lparr>f_attention := None\<rparr>
         else facts)"

definition native_row :: "(u32 \<Rightarrow> bool) \<Rightarrow> native_snapshot \<Rightarrow> workspace_row" where
  "native_row invisible n =
     (let t = ns_task n;
          validating = (case ns_validation n of
              Some (_, preparing) \<Rightarrow> preparing \<or> vs_status (at_validation t) = VsRunning | None \<Rightarrow> False)
      in \<lparr>row_id = ns_id n, row_kind = Task, row_title = at_title t, row_provider = display_name (at_provider t),
          row_cwd = path_text (at_repo_root t),
          row_preview = (if ns_interrupted n then lit ''Execution interrupted; inspect history before continuing''
            else status_label (at_status t) @ [0x20, 0xb7, 0x20] @ at_branch t),
          row_updated_ms = at_updated_ms t, row_archived = (at_status t = TsArchived), row_pinned = False,
          row_tags = [],
          row_runtime =
            (if ns_terminal n \<and> ns_ownership_locked n \<and> \<not> ns_interrupted n then Running
             else if ns_interrupted n \<or> (ns_ownership_locked n \<and> \<not> ns_live n \<and> \<not> ns_preparing n \<and>
               \<not> ns_handoff_pending n \<and> \<not> validating) then Conflict
             else if ns_live n \<or> ns_preparing n \<or> validating then Running
             else Idle),
          row_facts = facts_from_native invisible n\<rparr>)"

record api_snapshot =
  as_id :: conversation_id
  as_sequence :: u64
  as_state :: api_state
  as_error :: "str option"

definition facts_from_api :: "(u32 \<Rightarrow> bool) \<Rightarrow> api_snapshot \<Rightarrow> workspace_facts" where
  "facts_from_api invisible s =
     facts_default\<lparr>f_api_state := Some (as_state s), f_interrupted := (as_state s = ApiInterrupted),
       f_preparing := (as_state s = ApiStarting), f_source_sequence := Some (as_sequence s),
       f_attention := (case as_state s of ApiInterrupted \<Rightarrow> Some WaInterrupted | ApiFailed \<Rightarrow> Some WaFailed | _ \<Rightarrow> None),
       f_status_detail := map_option (\<lambda>e. safe_inline_display invisible e 1024) (as_error s),
       f_capabilities := capabilities_api\<rparr>"

text \<open>The identity of a task: \<open>task_id\<close> of \<open>model.rs\<close>.\<close>

definition conversation_task_id ::
  "(str \<times> str \<times> str \<Rightarrow> str) \<Rightarrow> str \<Rightarrow> str \<Rightarrow> str \<Rightarrow> str + conversation_id" where
  "conversation_task_id to_json host namespace native_id =
     (if namespace = [] \<or> 8192 < str_len namespace \<or> native_id = [] \<or> 256 < str_len native_id \<or>
         0 \<in> set namespace \<or> 0 \<in> set native_id
      then Inl (lit ''Invalid task source namespace'')
      else Inr (lit ''jterm:task:v1:'' @ to_json (host, namespace, native_id)))"

text \<open>\<open>WorkspaceRow::from_task\<close>; the identity is checked first.\<close>

definition workspace_row_of_task ::
  "(u32 \<Rightarrow> bool) \<Rightarrow> conversation_id \<Rightarrow> agent_task \<Rightarrow> activity \<Rightarrow> workspace_row" where
  "workspace_row_of_task invisible i t a =
     (let running = ac_agent_terminal a \<or> ac_validation_terminal a \<or> ac_agent_stream a \<or> ac_preparing a
      in \<lparr>row_id = i, row_kind = Task, row_title = dr_title (row_from_task invisible t a),
          row_provider = display_name (at_provider t), row_cwd = path_text (at_repo_root t),
          row_preview = status_label (at_status t), row_updated_ms = at_updated_ms t,
          row_archived = (at_status t = TsArchived), row_pinned = False, row_tags = [],
          row_runtime = (if running then Running else Idle), row_facts = facts_from_task invisible t a\<rparr>)"

definition workspace_row_from_task ::
  "(u32 \<Rightarrow> bool) \<Rightarrow> (str \<times> str \<times> str \<Rightarrow> str) \<Rightarrow> str \<Rightarrow> (task_id \<Rightarrow> str) \<Rightarrow> str \<Rightarrow> agent_task \<Rightarrow> activity \<Rightarrow>
     str + workspace_row" where
  "workspace_row_from_task invisible to_json host id_text namespace t a =
     (case conversation_task_id to_json host namespace (id_text (at_id t)) of
        Inl e \<Rightarrow> Inl e
      | Inr i \<Rightarrow> Inr (workspace_row_of_task invisible i t a))"

definition apply_api_snapshot :: "(u32 \<Rightarrow> bool) \<Rightarrow> workspace_row \<Rightarrow> api_snapshot \<Rightarrow> str + workspace_row" where
  "apply_api_snapshot invisible r s =
     (if row_kind r \<noteq> Api \<or> row_id r \<noteq> as_id s
      then Inl (lit ''API snapshot belongs to another workspace conversation'')
      else Inr (r\<lparr>row_facts := facts_from_api invisible s,
        row_runtime := (case as_state s of
            ApiStarting \<Rightarrow> Starting | ApiRunning \<Rightarrow> Running | ApiStopping \<Rightarrow> Stopping
          | ApiCompleted \<Rightarrow> Idle | ApiCancelled \<Rightarrow> Idle | ApiFailed \<Rightarrow> Failed | ApiInterrupted \<Rightarrow> Conflict)\<rparr>))"

subsection \<open>Presentation\<close>

text \<open>\<open>WorkspaceRow::attention\<close>.\<close>

definition row_attention :: "workspace_row \<Rightarrow> workspace_attention option" where
  "row_attention r =
     (if row_archived r then None
      else if f_interrupted (row_facts r) then Some WaInterrupted
      else if row_runtime r = Conflict then Some WaConflict
      else f_attention (row_facts r))"

datatype primary_action = OpenConversation | OpenTerminal | ReviewRequest | ReplyAction | ViewValidation
  | ReviewResult | ViewError | CheckOutcome | ViewOwner

definition primary_action_label :: "primary_action \<Rightarrow> str" where
  "primary_action_label a =
     (case a of
        OpenConversation \<Rightarrow> lit ''Open conversation'' | OpenTerminal \<Rightarrow> lit ''Open terminal''
      | ReviewRequest \<Rightarrow> lit ''Review request'' | ReplyAction \<Rightarrow> lit ''Open reply''
      | ViewValidation \<Rightarrow> lit ''View validation'' | ReviewResult \<Rightarrow> lit ''Review result''
      | ViewError \<Rightarrow> lit ''View error'' | CheckOutcome \<Rightarrow> lit ''Check outcome''
      | ViewOwner \<Rightarrow> lit ''View current owner'')"

record presentation =
  pr_status_label :: str
  pr_detail :: "str option"
  pr_runtime_label :: str
  pr_task_label :: "str option"
  pr_validation_label :: "str option"
  pr_attention :: "workspace_attention option"
  pr_primary_action :: primary_action
  pr_capabilities :: capabilities

definition row_primary_action :: "workspace_row \<Rightarrow> primary_action" where
  "row_primary_action r =
     (case row_attention r of
        Some WaApproval \<Rightarrow> ReviewRequest | Some WaReply \<Rightarrow> ReplyAction | Some WaValidation \<Rightarrow> ViewValidation
      | Some WaReview \<Rightarrow> ReviewResult | Some WaFailed \<Rightarrow> ViewError | Some WaInterrupted \<Rightarrow> CheckOutcome
      | Some WaConflict \<Rightarrow> ViewOwner
      | None \<Rightarrow> if row_kind r = Cli \<and> \<not> row_archived r then OpenTerminal else OpenConversation)"

definition api_state_text :: "api_state \<Rightarrow> str" where
  "api_state_text s =
     (case s of
        ApiStarting \<Rightarrow> lit ''Preparing request'' | ApiRunning \<Rightarrow> lit ''Reply in progress''
      | ApiStopping \<Rightarrow> lit ''Stopping request'' | ApiCompleted \<Rightarrow> lit ''Reply finished''
      | ApiCancelled \<Rightarrow> lit ''Request stopped'' | ApiFailed \<Rightarrow> lit ''Request failed''
      | ApiInterrupted \<Rightarrow> lit ''Result unconfirmed'')"

definition row_status_text :: "workspace_row \<Rightarrow> str" where
  "row_status_text r =
     (if row_archived r then lit ''Archived''
      else (case row_attention r of
          Some a \<Rightarrow> workspace_attention_label a
        | None \<Rightarrow>
          if f_validation_status (row_facts r) = Some VsRunning then lit ''Validation running''
          else if f_preparing (row_facts r) then lit ''Preparing''
          else (case f_task_status (row_facts r) of
              Some s \<Rightarrow> status_label s
            | None \<Rightarrow>
              (case f_api_state (row_facts r) of
                 Some s \<Rightarrow> api_state_text s
               | None \<Rightarrow>
                 if row_runtime r = Idle \<and> row_kind r = Api then lit ''Ready''
                 else if row_runtime r = Idle \<and> row_kind r = Task then lit ''Task details unavailable''
                 else runtime_state_label (row_runtime r)))))"

definition row_presentation :: "workspace_row \<Rightarrow> presentation" where
  "row_presentation r =
     \<lparr>pr_status_label = row_status_text r,
      pr_detail = (if f_status_detail (row_facts r) = None \<and> row_kind r = Cli
        then map_option (\<lambda>s. lit ''Recorded history: '' @
               (case s of SessWorking \<Rightarrow> lit ''work activity'' | SessWaiting \<Rightarrow> lit ''input requested''
                | SessIdle \<Rightarrow> lit ''turn finished'' | SessUnknown \<Rightarrow> lit ''state unavailable''
                | SessArchived \<Rightarrow> lit ''provider archived'')) (f_recorded_status (row_facts r))
        else f_status_detail (row_facts r)),
      pr_runtime_label = (if row_kind r = Task \<and> row_runtime r = Idle then lit ''Idle''
        else runtime_state_label (row_runtime r)),
      pr_task_label = map_option status_label (f_task_status (row_facts r)),
      pr_validation_label = map_option validation_label (f_validation_status (row_facts r)),
      pr_attention = row_attention r, pr_primary_action = row_primary_action r,
      pr_capabilities = f_capabilities (row_facts r)\<rparr>"

subsection \<open>Counts\<close>

definition workspace_attention_counts :: "workspace_row list \<Rightarrow> (workspace_attention \<times> nat) list" where
  "workspace_attention_counts rows =
     map (\<lambda>k. (k, length (filter (\<lambda>r. row_attention r = Some k) rows))) workspace_attentions"

record overview =
  ov_catalog_complete :: bool
  ov_visible :: nat
  ov_tasks :: nat
  ov_active_cli :: nat
  ov_active_api :: nat
  ov_active_native :: nat
  ov_active_task_terminals :: nat
  ov_active_unknown_tasks :: nat
  ov_validation_running :: nat
  ov_accepted :: nat
  ov_unconfirmed :: nat
  ov_attention :: "(workspace_attention \<times> nat) list"

fun count_attention :: "workspace_attention \<Rightarrow> (workspace_attention \<times> nat) list \<Rightarrow> (workspace_attention \<times> nat) list" where
  "count_attention k [] = []"
| "count_attention k ((c, n) # cs) = (if c = k then (c, n + 1) # cs else (c, n) # count_attention k cs)"

text \<open>The body of the loop over the rows that are not archived, one stage after another.\<close>

definition overview_task :: "workspace_row \<Rightarrow> overview \<Rightarrow> overview" where
  "overview_task r ov =
     (if row_kind r = Task
      then ov\<lparr>ov_tasks := ov_tasks ov + 1,
        ov_accepted := ov_accepted ov +
          (if f_task_accepted (row_facts r) \<or> f_task_status (row_facts r) = Some TsCompleted then 1 else 0),
        ov_validation_running := ov_validation_running ov +
          (if is_live (row_runtime r) \<and> f_validation_status (row_facts r) = Some VsRunning then 1 else 0)\<rparr>
      else ov)"

definition overview_live_task :: "workspace_facts \<Rightarrow> overview \<Rightarrow> overview" where
  "overview_live_task f ov =
     (let ov = (if f_agent_stream f \<or> f_preparing f then ov\<lparr>ov_active_native := ov_active_native ov + 1\<rparr> else ov);
          ov = (if f_agent_terminal f then ov\<lparr>ov_active_task_terminals := ov_active_task_terminals ov + 1\<rparr> else ov)
      in if \<not> f_agent_stream f \<and> \<not> f_preparing f \<and> \<not> f_agent_terminal f \<and> f_validation_status f \<noteq> Some VsRunning
         then ov\<lparr>ov_active_unknown_tasks := ov_active_unknown_tasks ov + 1\<rparr> else ov)"

definition overview_row :: "overview \<Rightarrow> workspace_row \<Rightarrow> overview" where
  "overview_row ov r =
     (let ov = ov\<lparr>ov_visible := ov_visible ov + 1\<rparr>;
          ov = (case row_attention r of
              Some k \<Rightarrow> ov\<lparr>ov_attention := count_attention k (ov_attention ov)\<rparr> | None \<Rightarrow> ov);
          ov = overview_task r ov;
          ov = (if f_interrupted (row_facts r) then ov\<lparr>ov_unconfirmed := ov_unconfirmed ov + 1\<rparr> else ov)
      in if is_live (row_runtime r)
         then (case row_kind r of
             Cli \<Rightarrow> ov\<lparr>ov_active_cli := ov_active_cli ov + 1\<rparr>
           | Api \<Rightarrow> ov\<lparr>ov_active_api := ov_active_api ov + 1\<rparr>
           | Task \<Rightarrow> overview_live_task (row_facts r) ov)
         else ov)"

definition overview_from_rows :: "workspace_row list \<Rightarrow> bool \<Rightarrow> overview" where
  "overview_from_rows rows complete =
     foldl overview_row
       \<lparr>ov_catalog_complete = complete, ov_visible = 0, ov_tasks = 0, ov_active_cli = 0, ov_active_api = 0,
        ov_active_native = 0, ov_active_task_terminals = 0, ov_active_unknown_tasks = 0,
        ov_validation_running = 0, ov_accepted = 0, ov_unconfirmed = 0,
        ov_attention = map (\<lambda>k. (k, 0)) workspace_attentions\<rparr>
       (filter (\<lambda>r. \<not> row_archived r) rows)"

definition attention_total :: "overview \<Rightarrow> nat" where
  "attention_total ov = sum_list (map snd (ov_attention ov))"

definition resource_label :: "overview \<Rightarrow> str" where
  "resource_label ov =
     nat_text (ov_active_cli ov) @ lit '' CLI '' @ [0xb7, 0x20] @ nat_text (ov_active_api ov) @ lit '' API '' @
     [0xb7, 0x20] @ nat_text (ov_active_native ov) @ lit '' native active '' @ [0xb7, 0x20] @
     nat_text (ov_validation_running ov) @ lit '' validation running'' @
     (if 0 < ov_active_task_terminals ov
      then [0x20, 0xb7, 0x20] @ nat_text (ov_active_task_terminals ov) @ lit '' task terminals'' else []) @
     (if 0 < ov_active_unknown_tasks ov
      then [0x20, 0xb7, 0x20] @ nat_text (ov_active_unknown_tasks ov) @ lit '' task runtimes unspecified'' else []) @
     (if \<not> ov_catalog_complete ov then [0x20, 0xb7] @ lit '' loaded catalog only'' else [])"

end
