(* ===== verification/Agent_Queue.thy ===== *)
theory Agent_Queue
  imports Workspace_Rows "HOL-Library.List_Lexorder"
begin

text \<open>
  The dependency queue of the agent workspace, \<open>src/src/agent_workspace/queue.rs\<close>: intents and
  their validation, the change of the queue with its check for cycles, and the projection that
  tells which task is ready.  The parser of JSON (\<open>serde_json\<close>) is the parameter \<open>from_json\<close>:
  the triple a text stands for, if any.  Absolute paths are compared as the standard library does,
  by components.
\<close>

subsection \<open>Paths\<close>

text \<open>
  \<open>normalized_absolute\<close> of \<open>query.rs\<close>: the components after the root.  The components of a
  path are its parts between slashes but for empty parts and single dots.
\<close>

fun path_push :: "str list \<Rightarrow> str \<Rightarrow> str list" where
  "path_push result part =
     (if part = [] \<or> part = [0x2e] then result
      else if part = [0x2e, 0x2e] then butlast result else result @ [part])"

definition normalized_absolute :: "str \<Rightarrow> str list option" where
  "normalized_absolute path =
     (if path \<noteq> [] \<and> hd path = 0x2f then Some (foldl path_push [] (split_on 0x2f path)) else None)"

subsection \<open>Intents\<close>

datatype execution_location = Local | Ssh str | Dlc str

definition location_label :: "execution_location \<Rightarrow> str" where
  "location_label l =
     (case l of
        Local \<Rightarrow> lit ''Local''
      | Ssh host \<Rightarrow> lit ''SSH '' @ [0xb7, 0x20] @ host
      | Dlc job \<Rightarrow> lit ''DLC '' @ [0xb7, 0x20] @ job)"

definition unavailable_reason :: "execution_location \<Rightarrow> str option" where
  "unavailable_reason l =
     (case l of
        Local \<Rightarrow> None
      | Ssh _ \<Rightarrow> Some (lit ''No verified SSH Agent Workspace execution adapter is configured'')
      | Dlc _ \<Rightarrow> Some (lit ''No verified DLC Agent Workspace execution adapter is configured''))"

text \<open>The refusals, one constructor per message.\<close>

datatype queue_error = BadLocation | TooManyDependencies | SelfDependency | DuplicateDependency
  | BadIdentity | InexactIdentity | QueueFull | DependencyCycle

definition location_validate :: "(u32 \<Rightarrow> bool) \<Rightarrow> execution_location \<Rightarrow> queue_error + unit" where
  "location_validate invisible l =
     (let check = (\<lambda>v. if v = [] \<or> 512 < str_len v \<or> isl (validate invisible v)
                       then Inl BadLocation else Inr ())
      in case l of Local \<Rightarrow> Inr () | Ssh host \<Rightarrow> check host | Dlc job \<Rightarrow> check job)"

record queue_intent =
  qi_id :: conversation_id
  qi_dependencies :: "conversation_id list"
  qi_location :: execution_location

definition WORKSPACE_QUEUE_LIMIT :: nat where "WORKSPACE_QUEUE_LIMIT = 256"
definition WORKSPACE_QUEUE_DEPENDENCIES :: nat where "WORKSPACE_QUEUE_DEPENDENCIES = 32"

definition TASK_PREFIX :: str where "TASK_PREFIX = lit ''jterm:task:v1:''"

definition valid_task_id :: "(str \<Rightarrow> (str \<times> str \<times> str) option) \<Rightarrow> conversation_id \<Rightarrow> queue_error + unit" where
  "valid_task_id from_json i =
     (if \<not> starts_with i TASK_PREFIX \<or> 32768 < str_len i \<or> 0 \<in> set i then Inl BadIdentity
      else
        (case strip_prefix TASK_PREFIX i \<bind> from_json of
           Some (host, namespace, task) \<Rightarrow>
             if host \<noteq> [] \<and> namespace \<noteq> [] \<and> task \<noteq> [] then Inr () else Inl InexactIdentity
         | None \<Rightarrow> Inl InexactIdentity))"

fun check_dependencies ::
  "(str \<Rightarrow> (str \<times> str \<times> str) option) \<Rightarrow> conversation_id \<Rightarrow> conversation_id set \<Rightarrow>
     conversation_id list \<Rightarrow> queue_error + unit" where
  "check_dependencies from_json self seen [] = Inr ()"
| "check_dependencies from_json self seen (d # ds) =
     (case valid_task_id from_json d of
        Inl e \<Rightarrow> Inl e
      | Inr _ \<Rightarrow>
          if d = self then Inl SelfDependency
          else if d \<in> seen then Inl DuplicateDependency
          else check_dependencies from_json self (insert d seen) ds)"

definition intent_validate ::
  "(u32 \<Rightarrow> bool) \<Rightarrow> (str \<Rightarrow> (str \<times> str \<times> str) option) \<Rightarrow> queue_intent \<Rightarrow> queue_error + unit" where
  "intent_validate invisible from_json q =
     (case valid_task_id from_json (qi_id q) of
        Inl e \<Rightarrow> Inl e
      | Inr _ \<Rightarrow>
          (case location_validate invisible (qi_location q) of
             Inl e \<Rightarrow> Inl e
           | Inr _ \<Rightarrow>
               if WORKSPACE_QUEUE_DEPENDENCIES < length (qi_dependencies q) then Inl TooManyDependencies
               else check_dependencies from_json (qi_id q) {} (qi_dependencies q)))"

subsection \<open>The queue\<close>

record queued_intent =
  qe_intent :: queue_intent
  qe_queued_at_ms :: nat

datatype queue_change = Upsert queue_intent | Remove conversation_id

record queue_snapshot =
  qs_revision :: nat
  qs_entries :: "queued_intent list"

definition queue_empty :: queue_snapshot where
  "queue_empty = \<lparr>qs_revision = 0, qs_entries = []\<rparr>"

text \<open>
  \<open>validate_graph\<close>: depth first from every queued task in the order of the map's keys.  A
  dependency that is not queued is skipped; \<open>pending\<close> is the path, \<open>seen\<close> what is finished.
\<close>

type_synonym graph = "(conversation_id \<times> conversation_id list) list"

definition graph_of :: "queued_intent list \<Rightarrow> graph" where
  "graph_of entries = rev (map (\<lambda>e. (qi_id (qe_intent e), qi_dependencies (qe_intent e))) entries)"

definition graph_keys :: "graph \<Rightarrow> conversation_id set" where
  "graph_keys g = set (map fst g)"

lemma unvisited_decreases:
  "map_of g i = Some deps \<Longrightarrow> i \<notin> pending \<Longrightarrow>
     card (graph_keys g - insert i pending) < card (graph_keys g - pending)"
proof (rule psubset_card_mono)
  assume "map_of g i = Some deps" and new: "i \<notin> pending"
  then have "i \<in> graph_keys g" by (force simp: graph_keys_def dest: map_of_SomeD)
  then show "graph_keys g - insert i pending \<subset> graph_keys g - pending" using new by blast
qed (simp add: graph_keys_def)

function visit :: "graph \<Rightarrow> conversation_id set \<Rightarrow> conversation_id set \<Rightarrow> conversation_id \<Rightarrow>
      queue_error + conversation_id set"
and visit_all :: "graph \<Rightarrow> conversation_id set \<Rightarrow> conversation_id set \<Rightarrow> conversation_id list \<Rightarrow>
      queue_error + conversation_id set" where
  "visit g pending seen i =
     (if i \<in> seen then Inr seen
      else if i \<in> pending then Inl DependencyCycle
      else
        (case map_of g i of
           None \<Rightarrow> Inr (insert i seen)
         | Some dependencies \<Rightarrow>
             (case visit_all g (insert i pending) seen dependencies of
                Inl e \<Rightarrow> Inl e
              | Inr seen' \<Rightarrow> Inr (insert i seen'))))"
| "visit_all g pending seen [] = Inr seen"
| "visit_all g pending seen (d # ds) =
     (if d \<in> graph_keys g then
        (case visit g pending seen d of
           Inl e \<Rightarrow> Inl e
         | Inr seen' \<Rightarrow> visit_all g pending seen' ds)
      else visit_all g pending seen ds)"
  by pat_completeness auto

termination
  by (relation "measures
      [\<lambda>x. case x of Inl (g, pending, seen, i) \<Rightarrow> card (graph_keys g - pending)
        | Inr (g, pending, seen, ds) \<Rightarrow> card (graph_keys g - pending),
       \<lambda>x. case x of Inl (g, pending, seen, i) \<Rightarrow> 0 | Inr (g, pending, seen, ds) \<Rightarrow> Suc (length ds)]")
    (auto dest: unvisited_decreases)

declare visit.simps [simp del]

fun visit_roots :: "graph \<Rightarrow> conversation_id set \<Rightarrow> conversation_id list \<Rightarrow> queue_error + unit" where
  "visit_roots g seen [] = Inr ()"
| "visit_roots g seen (i # ids) =
     (case visit g {} seen i of Inl e \<Rightarrow> Inl e | Inr seen' \<Rightarrow> visit_roots g seen' ids)"

definition validate_graph :: "queued_intent list \<Rightarrow> queue_error + unit" where
  "validate_graph entries =
     (let g = graph_of entries in visit_roots g {} (sort (remdups (map fst g))))"

fun upsert :: "queued_intent list \<Rightarrow> queue_intent \<Rightarrow> nat \<Rightarrow> queued_intent list" where
  "upsert [] q now = [\<lparr>qe_intent = q, qe_queued_at_ms = now\<rparr>]"
| "upsert (e # es) q now =
     (if qi_id (qe_intent e) = qi_id q then e\<lparr>qe_intent := q\<rparr> # es else e # upsert es q now)"

definition apply_change ::
  "(u32 \<Rightarrow> bool) \<Rightarrow> (str \<Rightarrow> (str \<times> str \<times> str) option) \<Rightarrow> queue_snapshot \<Rightarrow> queue_change \<Rightarrow> nat \<Rightarrow>
     queue_error + queue_snapshot" where
  "apply_change invisible from_json s change now =
     (case (case change of
              Remove i \<Rightarrow>
                (case valid_task_id from_json i of
                   Inl e \<Rightarrow> Inl e
                 | Inr _ \<Rightarrow> Inr (filter (\<lambda>e. qi_id (qe_intent e) \<noteq> i) (qs_entries s)))
            | Upsert q \<Rightarrow>
                (case intent_validate invisible from_json q of
                   Inl e \<Rightarrow> Inl e
                 | Inr _ \<Rightarrow> Inr (upsert (qs_entries s) q now))) of
        Inl e \<Rightarrow> Inl e
      | Inr candidate \<Rightarrow>
          if WORKSPACE_QUEUE_LIMIT < length candidate then Inl QueueFull
          else
            (case validate_graph candidate of
               Inl e \<Rightarrow> Inl e
             | Inr _ \<Rightarrow> Inr (s\<lparr>qs_entries := candidate\<rparr>)))"

subsection \<open>Readiness\<close>

datatype queue_state = QReady | QWaitingDependencies | QActive | QReview | QCompleted | QInterrupted
  | QBlocked | QUnavailable

definition queue_state_label :: "queue_state \<Rightarrow> str" where
  "queue_state_label q =
     (case q of
        QReady \<Rightarrow> lit ''Ready to start explicitly''
      | QWaitingDependencies \<Rightarrow> lit ''Waiting for accepted dependencies''
      | QActive \<Rightarrow> lit ''Execution active''
      | QReview \<Rightarrow> lit ''Ready to review''
      | QCompleted \<Rightarrow> lit ''Accepted''
      | QInterrupted \<Rightarrow> lit ''Outcome unconfirmed''
      | QBlocked \<Rightarrow> lit ''Blocked''
      | QUnavailable \<Rightarrow> lit ''Task details unavailable'')"

record queue_row =
  qr_id :: conversation_id
  qr_title :: str
  qr_state :: queue_state
  qr_reason :: "str option"
  qr_blocked_by :: "conversation_id list"
  qr_location :: execution_location

text \<open>The map of rows: of rows with the same identity the last one counts.\<close>

definition known_row :: "workspace_row list \<Rightarrow> conversation_id \<Rightarrow> workspace_row option" where
  "known_row rows i = find (\<lambda>r. row_id r = i) (rev rows)"

definition task_done :: "workspace_row \<Rightarrow> bool" where
  "task_done r \<longleftrightarrow> f_task_accepted (row_facts r) \<or> f_task_status (row_facts r) = Some TsCompleted"

definition unmet :: "workspace_row list \<Rightarrow> conversation_id \<Rightarrow> bool" where
  "unmet rows d =
     (case known_row rows d of None \<Rightarrow> True | Some r \<Rightarrow> row_kind r \<noteq> Task \<or> \<not> task_done r)"

text \<open>Another live execution in the worktree, in a directory above it or below it.\<close>

definition other_root :: "workspace_row \<Rightarrow> str list option" where
  "other_root r =
     (case f_worktree (row_facts r) of
        Some w \<Rightarrow> Some w
      | None \<Rightarrow> if row_kind r = Cli then Some (row_cwd r) else None) \<bind> normalized_absolute"

definition occupied :: "workspace_row list \<Rightarrow> conversation_id \<Rightarrow> str list \<Rightarrow> bool" where
  "occupied rows i worktree =
     list_ex (\<lambda>r. row_id r \<noteq> i \<and> is_live (row_runtime r) \<and>
       (case other_root r of
          None \<Rightarrow> False
        | Some root \<Rightarrow> starts_with root worktree \<or> starts_with worktree root)) rows"

definition project_created ::
  "workspace_row list \<Rightarrow> queue_intent \<Rightarrow> workspace_row \<Rightarrow> queue_row \<Rightarrow> queue_row" where
  "project_created rows q r p =
     (let blocked = filter (unmet rows) (qi_dependencies q); p = p\<lparr>qr_blocked_by := blocked\<rparr>
      in if blocked \<noteq> [] then
           p\<lparr>qr_state := QWaitingDependencies, qr_reason :=
             Some (lit ''Dependencies must be explicitly accepted; a passing test is insufficient'')\<rparr>
         else
           (case f_worktree (row_facts r) \<bind> normalized_absolute of
              None \<Rightarrow> p\<lparr>qr_reason := Some (lit ''Refresh task details to verify its worktree'')\<rparr>
            | Some worktree \<Rightarrow>
                if occupied rows (row_id r) worktree then
                  p\<lparr>qr_state := QBlocked, qr_reason :=
                    Some (lit ''Another observed execution uses this task worktree'')\<rparr>
                else p\<lparr>qr_state := QReady\<rparr>))"

definition project_row ::
  "workspace_row list \<Rightarrow> queue_intent \<Rightarrow> workspace_row \<Rightarrow> queue_row \<Rightarrow> queue_row" where
  "project_row rows q r p =
     (if row_kind r \<noteq> Task then
        p\<lparr>qr_reason := Some (lit ''The source is not an engineering task'')\<rparr>
      else if task_done r then p\<lparr>qr_state := QCompleted\<rparr>
      else if f_interrupted (row_facts r) then
        p\<lparr>qr_state := QInterrupted,
          qr_reason := Some (lit ''Inspect the previous execution before starting another'')\<rparr>
      else if row_runtime r = Conflict then
        p\<lparr>qr_state := QBlocked, qr_reason := Some (lit ''Resolve the current execution owner first'')\<rparr>
      else if is_live (row_runtime r) then p\<lparr>qr_state := QActive\<rparr>
      else
        (case unavailable_reason (qi_location q) of
           Some reason \<Rightarrow> p\<lparr>qr_state := QBlocked, qr_reason := Some reason\<rparr>
         | None \<Rightarrow>
             if row_archived r then
               p\<lparr>qr_state := QBlocked, qr_reason := Some (lit ''Restore the task before continuing'')\<rparr>
             else if f_task_status (row_facts r) = Some TsReadyForReview then p\<lparr>qr_state := QReview\<rparr>
             else if f_task_status (row_facts r) \<noteq> Some TsCreated then
               p\<lparr>qr_reason :=
                 Some (lit ''Open the exact task and check its available continuation action'')\<rparr>
             else project_created rows q r p))"

definition project_entry :: "workspace_row list \<Rightarrow> queued_intent \<Rightarrow> queue_row" where
  "project_entry rows e =
     (let q = qe_intent e;
          p = \<lparr>qr_id = qi_id q,
               qr_title = (case known_row rows (qi_id q) of
                   Some r \<Rightarrow> row_title r | None \<Rightarrow> lit ''Unavailable task''),
               qr_state = QUnavailable, qr_reason = None, qr_blocked_by = [],
               qr_location = qi_location q\<rparr>
      in case known_row rows (qi_id q) of
           None \<Rightarrow>
             p\<lparr>qr_reason := Some (lit ''Refresh or open the original task; absence is not completion'')\<rparr>
         | Some r \<Rightarrow> project_row rows q r p)"

definition project :: "queue_snapshot \<Rightarrow> workspace_row list \<Rightarrow> queue_row list" where
  "project s rows = map (project_entry rows) (qs_entries s)"

end
