(* ===== verification/Agent_Queue_Facts.thy ===== *)
theory Agent_Queue_Facts
  imports Agent_Queue
begin

text \<open>
  The dependency queue never holds a cycle, so it never deadlocks, and a task is ready only when
  everything it waits for was accepted.
\<close>

subsection \<open>The search for cycles\<close>

definition edges :: "graph \<Rightarrow> (conversation_id \<times> conversation_id) set" where
  "edges g = {(i, d). \<exists>ds. map_of g i = Some ds \<and> d \<in> set ds \<and> d \<in> graph_keys g}"

text \<open>Finished nodes: closed under the edges, and none of them on a cycle.\<close>

definition finished :: "graph \<Rightarrow> conversation_id set \<Rightarrow> bool" where
  "finished g seen \<longleftrightarrow> edges g `` seen \<subseteq> seen \<and> (\<forall>x \<in> seen. (x, x) \<notin> (edges g)\<^sup>+)"

lemma closed_reach: "(x, y) \<in> r\<^sup>* \<Longrightarrow> r `` s \<subseteq> s \<Longrightarrow> x \<in> s \<Longrightarrow> y \<in> s"
  by (induction rule: rtrancl_induct) auto

lemma finished_insert:
  assumes fin: "finished g seen" and "i \<notin> seen" and next_seen: "edges g `` {i} \<subseteq> seen"
  shows "finished g (insert i seen)"
proof -
  have "(i, i) \<notin> (edges g)\<^sup>+"
  proof
    assume "(i, i) \<in> (edges g)\<^sup>+"
    then obtain d where "(i, d) \<in> edges g" "(d, i) \<in> (edges g)\<^sup>*" by (auto dest: tranclD)
    then have "i \<in> seen"
      using next_seen fin closed_reach [of d i "edges g" seen] by (auto simp: finished_def)
    then show False using assms(2) by simp
  qed
  then show ?thesis using assms by (auto simp: finished_def)
qed

text \<open>Every node on the path reaches \<open>i\<close>.\<close>

definition on_path :: "graph \<Rightarrow> conversation_id set \<Rightarrow> conversation_id \<Rightarrow> bool" where
  "on_path g pending i \<longleftrightarrow> (\<forall>p \<in> pending. (p, i) \<in> (edges g)\<^sup>+)"

lemma visit_spec:
  "finished g seen \<Longrightarrow> seen \<inter> pending = {} \<Longrightarrow> i \<in> graph_keys g \<Longrightarrow> on_path g pending i \<Longrightarrow>
     (case visit g pending seen i of
        Inl e \<Rightarrow> e = DependencyCycle \<and> \<not> acyclic (edges g)
      | Inr seen' \<Rightarrow> finished g seen' \<and> seen' \<inter> pending = {} \<and> insert i seen \<subseteq> seen')"
  and visit_all_spec:
  "finished g seen \<Longrightarrow> seen \<inter> pending = {} \<Longrightarrow> \<forall>d \<in> set ds \<inter> graph_keys g. on_path g pending d \<Longrightarrow>
     (case visit_all g pending seen ds of
        Inl e \<Rightarrow> e = DependencyCycle \<and> \<not> acyclic (edges g)
      | Inr seen' \<Rightarrow> finished g seen' \<and> seen' \<inter> pending = {} \<and>
          seen \<union> (set ds \<inter> graph_keys g) \<subseteq> seen')"
proof (induction g pending seen i and g pending seen ds rule: visit_visit_all.induct)
  case (1 g pending seen i)
  consider "i \<in> seen" | "i \<notin> seen" "i \<in> pending" | "i \<notin> seen" "i \<notin> pending" by blast
  then show ?case
  proof cases
    case 1
    then show ?thesis using "1.prems" by (simp add: visit.simps)
  next
    case 2
    then have "(i, i) \<in> (edges g)\<^sup>+" using "1.prems"(4) by (simp add: on_path_def)
    then show ?thesis using 2 by (auto simp: visit.simps acyclic_def)
  next
    case 3
    obtain deps where deps: "map_of g i = Some deps"
      using "1.prems"(3) by (cases "map_of g i") (auto simp: graph_keys_def map_of_eq_None_iff)
    have edge: "(i, d) \<in> edges g" if "d \<in> set deps \<inter> graph_keys g" for d
      using that deps by (simp add: edges_def)
    have path: "\<forall>d \<in> set deps \<inter> graph_keys g. on_path g (insert i pending) d"
      using edge "1.prems"(4) by (auto simp: on_path_def intro: trancl_into_trancl)
    have disj: "seen \<inter> insert i pending = {}" using "1.prems"(2) 3 by simp
    note IH = "1.IH" [OF 3 deps "1.prems"(1) disj path]
    show ?thesis
    proof (cases "visit_all g (insert i pending) seen deps")
      case (Inl e)
      then show ?thesis using IH 3 deps by (simp add: visit.simps)
    next
      case (Inr seen')
      then have s: "finished g seen'" "seen' \<inter> insert i pending = {}"
        "seen \<union> (set deps \<inter> graph_keys g) \<subseteq> seen'" using IH by simp_all
      have "edges g `` {i} \<subseteq> seen'" using s(3) deps by (auto simp: edges_def)
      then have "finished g (insert i seen')" using s(1,2) by (intro finished_insert) auto
      then show ?thesis using Inr s 3 deps by (auto simp: visit.simps)
    qed
  qed
next
  case (2 g pending seen)
  then show ?case by simp
next
  case (3 g pending seen d ds)
  show ?case
  proof (cases "d \<in> graph_keys g")
    case True
    have v: "case visit g pending seen d of
        Inl e \<Rightarrow> e = DependencyCycle \<and> \<not> acyclic (edges g)
      | Inr seen' \<Rightarrow> finished g seen' \<and> seen' \<inter> pending = {} \<and> insert d seen \<subseteq> seen'"
      using 3 True by simp
    show ?thesis
    proof (cases "visit g pending seen d")
      case (Inl e)
      then show ?thesis using v True by simp
    next
      case (Inr seen')
      then have s: "finished g seen'" "seen' \<inter> pending = {}" "insert d seen \<subseteq> seen'" using v by simp_all
      then show ?thesis
        using "3.IH"(2) [OF True Inr s(1,2)] "3.prems"(3) Inr True by (auto split: sum.splits)
    qed
  next
    case False
    then show ?thesis using 3 by (auto split: sum.splits)
  qed
qed

lemma visit_roots_spec:
  "finished g seen \<Longrightarrow> set ids \<subseteq> graph_keys g \<Longrightarrow>
     (case visit_roots g seen ids of
        Inl e \<Rightarrow> e = DependencyCycle \<and> \<not> acyclic (edges g)
      | Inr _ \<Rightarrow> \<forall>i \<in> set ids. (i, i) \<notin> (edges g)\<^sup>+)"
proof (induction ids arbitrary: seen)
  case (Cons i ids)
  have v: "case visit g {} seen i of
      Inl e \<Rightarrow> e = DependencyCycle \<and> \<not> acyclic (edges g)
    | Inr seen' \<Rightarrow> finished g seen' \<and> seen' \<inter> {} = {} \<and> insert i seen \<subseteq> seen'"
    using Cons.prems by (intro visit_spec) (auto simp: on_path_def)
  show ?case
  proof (cases "visit g {} seen i")
    case (Inl e)
    then show ?thesis using v by simp
  next
    case (Inr seen')
    then have "finished g seen'" "i \<in> seen'" using v by auto
    then show ?thesis using Cons.IH [of seen'] Cons.prems Inr
      by (auto simp: finished_def split: sum.splits)
  qed
qed simp

lemma cycle_in_keys: "(x, x) \<in> (edges g)\<^sup>+ \<Longrightarrow> x \<in> graph_keys g"
  by (drule tranclD2) (auto simp: edges_def)

lemma graph_keys_of: "graph_keys (graph_of entries) = (\<lambda>e. qi_id (qe_intent e)) ` set entries"
  by (simp add: graph_keys_def graph_of_def image_image)

lemma validate_graph_iff:
  "validate_graph entries =
     (if acyclic (edges (graph_of entries)) then Inr () else Inl DependencyCycle)"
proof -
  let ?g = "graph_of entries"
  have "case visit_roots ?g {} (sort (remdups (map fst ?g))) of
      Inl e \<Rightarrow> e = DependencyCycle \<and> \<not> acyclic (edges ?g)
    | Inr _ \<Rightarrow> \<forall>i \<in> set (sort (remdups (map fst ?g))). (i, i) \<notin> (edges ?g)\<^sup>+"
    by (rule visit_roots_spec) (simp_all add: finished_def graph_keys_def)
  then show ?thesis
    using cycle_in_keys [of _ ?g]
    by (auto simp: validate_graph_def Let_def acyclic_def graph_keys_def split: sum.splits)
qed

text \<open>
  C14: The check of a changed queue is exact: it accepts the queue if and only if the dependencies
  among the queued tasks have no cycle, whatever the order of the entries, with dependencies on
  tasks that are not queued left out.
\<close>

theorem graph_check_exact:
  "validate_graph entries = Inr () \<longleftrightarrow>
     acyclic {(i, d). \<exists>ds. map_of (graph_of entries) i = Some ds \<and> d \<in> set ds \<and>
       d \<in> set (map (\<lambda>e. qi_id (qe_intent e)) entries)}"
  by (simp add: validate_graph_iff edges_def graph_keys_of)

subsection \<open>Every queue that can arise\<close>

abbreviation entry_id :: "queued_intent \<Rightarrow> conversation_id" where
  "entry_id e \<equiv> qi_id (qe_intent e)"

definition queue_ok ::
  "(u32 \<Rightarrow> bool) \<Rightarrow> (str \<Rightarrow> (str \<times> str \<times> str) option) \<Rightarrow> queue_snapshot \<Rightarrow> bool" where
  "queue_ok invisible from_json s \<longleftrightarrow>
     distinct (map entry_id (qs_entries s)) \<and> length (qs_entries s) \<le> WORKSPACE_QUEUE_LIMIT \<and>
     list_all (\<lambda>e. intent_validate invisible from_json (qe_intent e) = Inr ()) (qs_entries s) \<and>
     acyclic (edges (graph_of (qs_entries s)))"

text \<open>Changes one after the other; a refused change leaves the queue as it was.\<close>

fun run_changes ::
  "(u32 \<Rightarrow> bool) \<Rightarrow> (str \<Rightarrow> (str \<times> str \<times> str) option) \<Rightarrow> queue_snapshot \<Rightarrow>
     (queue_change \<times> nat) list \<Rightarrow> queue_snapshot" where
  "run_changes invisible from_json s [] = s"
| "run_changes invisible from_json s ((c, now) # cs) =
     run_changes invisible from_json
       (case apply_change invisible from_json s c now of Inl _ \<Rightarrow> s | Inr s' \<Rightarrow> s') cs"

lemma upsert_ids:
  "map entry_id (upsert es q now) =
     (if qi_id q \<in> entry_id ` set es then map entry_id es else map entry_id es @ [qi_id q])"
  by (induction es) auto

lemma upsert_intents: "qe_intent ` set (upsert es q now) \<subseteq> insert q (qe_intent ` set es)"
  by (induction es) auto

lemma apply_change_ok:
  assumes ok: "queue_ok invisible from_json s" and "apply_change invisible from_json s c now = Inr s'"
  shows "queue_ok invisible from_json s'"
proof -
  obtain es where es: "s' = s\<lparr>qs_entries := es\<rparr>" "length es \<le> WORKSPACE_QUEUE_LIMIT" "validate_graph es = Inr ()"
    and c: "(\<exists>i. c = Remove i \<and> es = filter (\<lambda>e. entry_id e \<noteq> i) (qs_entries s)) \<or>
      (\<exists>q. c = Upsert q \<and> intent_validate invisible from_json q = Inr () \<and> es = upsert (qs_entries s) q now)"
    using assms(2) by (auto simp: apply_change_def split: queue_change.splits sum.splits if_splits)
  have "distinct (map entry_id es)"
    using c ok by (auto simp: queue_ok_def upsert_ids distinct_map_filter)
  moreover have "list_all (\<lambda>e. intent_validate invisible from_json (qe_intent e) = Inr ()) es"
    using c ok upsert_intents [of "qs_entries s"] by (fastforce simp: queue_ok_def list_all_iff)
  ultimately show ?thesis using es by (auto simp: queue_ok_def validate_graph_iff split: if_splits)
qed

lemma queue_empty_ok: "queue_ok invisible from_json queue_empty"
  by (simp add: queue_ok_def queue_empty_def graph_of_def edges_def acyclic_def)

lemma run_changes_ok:
  "queue_ok invisible from_json s \<Longrightarrow> queue_ok invisible from_json (run_changes invisible from_json s cs)"
proof (induction cs arbitrary: s)
  case (Cons c cs)
  obtain ch now where c: "c = (ch, now)" by fastforce
  show ?case
    using Cons apply_change_ok [of invisible from_json s ch now]
    by (cases "apply_change invisible from_json s ch now") (simp_all add: c)
qed simp

text \<open>
  C13: After any sequence of changes the queue holds every task once, no more than its limit, only
  intents that passed validation, and no cycle of dependencies.
\<close>

theorem queue_always_ok:
  "let s = run_changes invisible from_json queue_empty cs in
     distinct (map entry_id (qs_entries s)) \<and> length (qs_entries s) \<le> WORKSPACE_QUEUE_LIMIT \<and>
     list_all (\<lambda>e. intent_validate invisible from_json (qe_intent e) = Inr ()) (qs_entries s) \<and>
     acyclic (edges (graph_of (qs_entries s)))"
  using run_changes_ok [OF queue_empty_ok] by (simp add: Let_def queue_ok_def)

lemma finite_edges: "finite (edges g)"
proof (rule finite_subset)
  show "edges g \<subseteq> graph_keys g \<times> graph_keys g"
    by (auto simp: edges_def graph_keys_def dest!: map_of_SomeD) force
qed (simp add: graph_keys_def)

text \<open>
  The queue never deadlocks: in every queue that can arise, unless it is empty, some task waits
  for no other task of the queue.
\<close>

theorem queue_never_deadlocks:
  "let es = qs_entries (run_changes invisible from_json queue_empty cs) in
     es = [] \<or> (\<exists>e \<in> set es. set (qi_dependencies (qe_intent e)) \<inter> entry_id ` set es = {})"
proof -
  let ?es = "qs_entries (run_changes invisible from_json queue_empty cs)"
  let ?g = "graph_of ?es"
  have ok: "distinct (map entry_id ?es)" "acyclic (edges ?g)"
    using run_changes_ok [OF queue_empty_ok, of invisible from_json cs] by (simp_all add: queue_ok_def)
  have wf: "wf ((edges ?g)\<inverse>)" using finite_acyclic_wf_converse [OF finite_edges ok(2)] .
  have "\<exists>e \<in> set ?es. set (qi_dependencies (qe_intent e)) \<inter> entry_id ` set ?es = {}" if "?es \<noteq> []"
  proof -
    have "hd ?es \<in> set ?es" using that by simp
    then obtain i where i: "i \<in> entry_id ` set ?es"
      and least: "\<And>d. (d, i) \<in> (edges ?g)\<inverse> \<Longrightarrow> d \<notin> entry_id ` set ?es"
      using wfE_min [OF wf, of "entry_id (hd ?es)" "entry_id ` set ?es"] by blast
    then obtain e where e: "e \<in> set ?es" "i = entry_id e" by blast
    have "map_of ?g i = Some (qi_dependencies (qe_intent e))"
      using e ok(1) by (intro map_of_is_SomeI) (auto simp: graph_of_def rev_map [symmetric] comp_def)
    then have "(i, d) \<in> edges ?g" if "d \<in> set (qi_dependencies (qe_intent e)) \<inter> entry_id ` set ?es" for d
      using that by (auto simp: edges_def graph_keys_of)
    then show ?thesis using least e(1) by blast
  qed
  then show ?thesis by (auto simp: Let_def)
qed

text \<open>
  A queued task is shown as ready exactly when its row is known, an engineering task that was
  created and not yet accepted, neither interrupted nor owned by an execution nor archived, meant to
  run locally, with every dependency an engineering task that was accepted or completed, and with a
  known worktree that no other live execution shares.
\<close>

theorem ready_exactly_when:
  "qr_state (project_entry rows e) = QReady \<longleftrightarrow>
     (\<exists>r w. known_row rows (entry_id e) = Some r \<and> row_kind r = Task \<and>
        f_task_status (row_facts r) = Some TsCreated \<and> \<not> f_task_accepted (row_facts r) \<and>
        \<not> f_interrupted (row_facts r) \<and> row_runtime r \<noteq> Conflict \<and> \<not> is_live (row_runtime r) \<and>
        \<not> row_archived r \<and> qi_location (qe_intent e) = Local \<and>
        list_all (\<lambda>d. case known_row rows d of
            None \<Rightarrow> False | Some rd \<Rightarrow> row_kind rd = Task \<and> task_done rd) (qi_dependencies (qe_intent e)) \<and>
        f_worktree (row_facts r) \<bind> normalized_absolute = Some w \<and> \<not> occupied rows (row_id r) w)"
proof -
  have deps: "filter (unmet rows) ds = [] \<longleftrightarrow> list_all (\<lambda>d. case known_row rows d of
      None \<Rightarrow> False | Some rd \<Rightarrow> row_kind rd = Task \<and> task_done rd) ds" for ds
    by (induction ds) (auto simp: unmet_def split: option.splits)
  show ?thesis
    unfolding project_entry_def project_row_def project_created_def Let_def deps [symmetric]
    by (auto simp: task_done_def unavailable_reason_def split: option.splits execution_location.splits)
qed

end
