(* ===== verification/Osc_Facts.thy ===== *)
theory Osc_Facts
  imports Osc_Handler Rust_Utf8
begin

text \<open>
  What the handler of complete operating-system commands promises: the metadata of OSC 133 as a
  function of its fields, the exit status, and that the percent and base64 decoders invert the
  encodings shells use.
\<close>

subsection \<open>Metadata\<close>

text \<open>The values given for one slot, in order.\<close>

fun slot_values :: "meta_slot \<Rightarrow> str list \<Rightarrow> str list" where
  "slot_values k [] = []"
| "slot_values k (field # flds) =
     (case split_once 0x3d field of
        Some (key, v) \<Rightarrow> if meta_key key = Some k then v # slot_values k flds else slot_values k flds
      | None \<Rightarrow> slot_values k flds)"

text \<open>A slot given exactly once has the value that its only field decodes to.\<close>

fun once :: "('a \<Rightarrow> 'b option) \<Rightarrow> 'a list \<Rightarrow> 'b option" where
  "once f [v] = f v"
| "once f _ = None"

fun truncation :: "str list \<Rightarrow> bool" where
  "truncation [] = False"
| "truncation [v] = truncated_value v"
| "truncation _ = True"

definition meta_spec :: "(u32 \<Rightarrow> bool) \<Rightarrow> bool \<Rightarrow> str list \<Rightarrow> command_meta" where
  "meta_spec invisible accept flds =
     \<lparr>m_id = once (\<lambda>v. filter_option (valid_execution_id invisible)
                        (decode_osc133 v MAX_OSC133_ID_BYTES)) (slot_values SlotId flds),
      m_session_id = (if accept then once (\<lambda>v. filter_option is_valid_jsh_session_id
                        (decode_osc133 v MAX_OSC133_SESSION_ID_BYTES)) (slot_values SlotSessionId flds)
                      else None),
      m_seq = (if accept then once parse_u64 (slot_values SlotSeq flds) else None),
      m_started_at_ms = (if accept then once parse_u64 (slot_values SlotStartedAt flds) else None),
      m_command = once (\<lambda>v. filter_option (is_valid_jsh_command invisible)
                        (decode_osc133 v MAX_OSC133_COMMAND_BYTES)) (slot_values SlotCommand flds),
      m_cwd = once (\<lambda>v. filter_option (is_valid_jsh_cwd invisible)
                        (decode_osc133 v MAX_OSC133_CWD_BYTES)) (slot_values SlotCwd flds),
      m_duration_ms = once (\<lambda>v. parse_u64 (str_trim v)) (slot_values SlotDuration flds),
      m_command_truncated = truncation (slot_values SlotTruncated flds)\<rparr>"

definition seen_spec :: "bool \<Rightarrow> str list \<Rightarrow> meta_seen" where
  "seen_spec accept flds =
     \<lparr>seen_id = (slot_values SlotId flds \<noteq> []),
      seen_session_id = (accept \<and> slot_values SlotSessionId flds \<noteq> []),
      seen_seq = (accept \<and> slot_values SlotSeq flds \<noteq> []),
      seen_started_at_ms = (accept \<and> slot_values SlotStartedAt flds \<noteq> []),
      seen_command = (slot_values SlotCommand flds \<noteq> []),
      seen_cwd = (slot_values SlotCwd flds \<noteq> []),
      seen_duration = (slot_values SlotDuration flds \<noteq> []),
      seen_command_truncated = (slot_values SlotTruncated flds \<noteq> [])\<rparr>"

lemma slot_values_append [simp]: "slot_values k (xs @ ys) = slot_values k xs @ slot_values k ys"
  by (induction xs) (auto split: option.splits)

lemma once_append [simp]: "once f (vs @ [v]) = (if vs = [] then f v else None)"
  by (cases "(f, vs)" rule: once.cases) auto

lemma truncation_append [simp]:
  "truncation (vs @ [v]) = (if vs = [] then truncated_value v else True)"
  by (cases vs rule: truncation.cases) auto

lemma fold_meta_field:
  "foldl (meta_field invisible accept) (meta_default, seen_none) flds =
     (meta_spec invisible accept flds, seen_spec accept flds)"
proof (induction flds rule: rev_induct)
  case Nil
  show ?case by (simp add: meta_default_def seen_none_def meta_spec_def seen_spec_def)
next
  case (snoc field flds)
  show ?case
  proof (cases "split_once 0x3d field")
    case None
    then show ?thesis using snoc by (simp add: meta_field_def meta_spec_def seen_spec_def)
  next
    case (Some kv)
    then obtain key v where kv: "split_once 0x3d field = Some (key, v)" by (cases kv) auto
    show ?thesis
    proof (cases "meta_key key")
      case None
      then show ?thesis using snoc kv by (simp add: meta_field_def meta_spec_def seen_spec_def)
    next
      case (Some slot)
      then show ?thesis
        using snoc kv by (cases slot) (simp_all add: meta_field_def meta_spec_def seen_spec_def)
    qed
  qed
qed

text \<open>
  C15: The metadata of an OSC 133 packet, which the code collects in one loop with eight flags, is
  this function of its fields: a slot has a value exactly when it was given once (under any of its
  names) and that value decodes and is valid; a repeated slot has none, and a repeated or
  unreadable truncation mark counts as set; a truncated command is absent; and the identity of a
  start is taken from start packets only.
\<close>

theorem metadata_exact:
  "from_fields invisible flds accept =
     (meta_spec invisible accept flds)
       \<lparr>m_command := (if truncation (slot_values SlotTruncated flds) then None
          else once (\<lambda>v. filter_option (is_valid_jsh_command invisible)
                 (decode_osc133 v MAX_OSC133_COMMAND_BYTES)) (slot_values SlotCommand flds))\<rparr>"
  by (simp add: from_fields_def fold_meta_field) (simp add: meta_spec_def)

subsection \<open>Exit status\<close>

lemma exit_loop_seen:
  "exit_status_loop True c flds = (if List.map_filter exit_candidate flds = [] then c else None)"
  by (induction flds) (auto simp: map_filter_simps split: option.splits)

text \<open>
  The exit status a D packet reports is that of its only outcome slot: with no slot, with
  several, or with a slot that is not a number of 32 bits, the outcome is unknown, never zero.
\<close>

theorem exit_status_exact:
  "parse_osc133_exit_status flds =
     (case List.map_filter exit_candidate flds of [candidate] \<Rightarrow> candidate | _ \<Rightarrow> None)"
proof -
  have "exit_status_loop False None flds =
      (case List.map_filter exit_candidate flds of [candidate] \<Rightarrow> candidate | _ \<Rightarrow> None)"
    by (induction flds) (auto simp: map_filter_simps exit_loop_seen split: option.splits list.splits)
  then show ?thesis by (simp add: parse_osc133_exit_status_def)
qed

subsection \<open>Percent encoding\<close>

definition hex_upper :: "u8 \<Rightarrow> u8" where
  "hex_upper d = (if d < 10 then 0x30 + d else 0x41 + (d - 10))"

fun percent_encode :: "(u8 \<Rightarrow> bool) \<Rightarrow> bytes \<Rightarrow> bytes" where
  "percent_encode keep [] = []"
| "percent_encode keep (b # bs) =
     (if keep b then [b] else [0x25, hex_upper (drop_bit 4 b), hex_upper (b AND 0x0f)])
       @ percent_encode keep bs"

lemma hex_upper_digit: "d < 16 \<Longrightarrow> hex_digit (hex_upper d) = Some d"
proof -
  assume d: "d < 16"
  have "unat (hex_upper d) = (if unat d < 10 then 48 + unat d else 55 + unat d)"
    using d by (simp add: hex_upper_def unat_word_ariths word_less_nat_alt unat_sub_if_size word_size)
  then show ?thesis
    using d by (auto simp: hex_digit_def word_less_nat_alt word_le_nat_alt word_unat_eq_iff
        unat_word_ariths unat_sub_if_size word_size split: if_splits)
qed

lemma nibbles: "push_bit 4 (drop_bit 4 b) OR (b AND 0x0f) = b" for b :: u8
proof (rule bit_word_eqI)
  fix n
  assume "n < LENGTH(8)"
  then show "bit (push_bit 4 (drop_bit 4 b) OR (b AND 0x0f)) n \<longleftrightarrow> bit b n"
    by (auto simp: bit_simps mask_numerals simp del: push_bit_numeral)
qed

lemma nibble_less: "drop_bit 4 b < 16" "b AND 0x0f < 16" for b :: u8
  using unat_u8_less [of b] by (simp_all add: word_less_nat_alt unat_bits)

lemma decode_encoded:
  assumes "\<And>b. keep b \<Longrightarrow> b \<noteq> 0x25" and "length out + length bs \<le> m"
  shows "decode_osc133_loop m out (percent_encode keep bs) = Some (out @ bs)"
  using assms(2)
proof (induction bs arbitrary: out)
  case Nil
  then show ?case by simp
next
  case (Cons b bs)
  then show ?case
    using assms(1) [of b] nibbles [of b] nibble_less [of b] by (auto simp: hex_upper_digit)
qed

lemma hex_upper_ascii: "d < 16 \<Longrightarrow> hex_upper d < 0x80"
  by (auto simp: hex_upper_def word_less_nat_alt unat_word_ariths unat_sub_if_size word_size)

lemma percent_encode_ascii:
  assumes "\<And>b. keep b \<Longrightarrow> b < 0x80"
  shows "list_all (\<lambda>b. b < 0x80) (percent_encode keep bs)"
proof (induction bs)
  case Nil
  show ?case by simp
next
  case (Cons b bs)
  have "list_all (\<lambda>b. b < 0x80) [0x25, hex_upper (drop_bit 4 b), hex_upper (b AND 0x0f)]"
    using hex_upper_ascii [OF nibble_less(1)] hex_upper_ascii [OF nibble_less(2)]
    by simp
  moreover have "keep b \<Longrightarrow> list_all (\<lambda>b. b < 0x80) [b]" using assms by simp
  ultimately show ?case using Cons.IH by (simp only: percent_encode.simps list_all_append split: if_split) blast
qed

lemma decode_loop_cases:
  assumes "decode_osc133_loop m out (b # rest) = Some r"
  obtains c rest' where "length out \<noteq> m" "decode_osc133_loop m (out @ [c]) rest' = Some r"
    "length rest' \<le> length rest"
proof (cases "b = 0x25")
  case False
  then show ?thesis using assms that [of b rest] by (simp split: if_splits)
next
  case True
  then obtain h l rest' where rest: "rest = h # l # rest'"
    using assms by (simp split: list.splits)
  then obtain hi lo where "hex_digit h = Some hi" "hex_digit l = Some lo"
    using assms True by (simp split: option.splits)
  then show ?thesis
    using assms True rest that [of "push_bit 4 hi OR lo" rest'] by (simp split: if_splits)
qed

lemma decode_loop_bounded:
  "decode_osc133_loop m out bs = Some r \<Longrightarrow> length out \<le> m \<Longrightarrow> length r \<le> m"
proof (induction bs arbitrary: out rule: length_induct)
  case (1 bs)
  show ?case
  proof (cases bs)
    case Nil
    then show ?thesis using 1 by simp
  next
    case (Cons b rest)
    obtain c rest' where "length out \<noteq> m" "decode_osc133_loop m (out @ [c]) rest' = Some r"
      "length rest' \<le> length rest"
      using decode_loop_cases [of m out b rest r] 1(2) Cons by blast
    then show ?thesis using 1(1,3) Cons by (auto dest: spec [of _ rest'])
  qed
qed

text \<open>
  The reader of OSC 133 fields inverts percent encoding, whichever ASCII bytes but the percent
  sign the shell leaves unencoded, as long as the text fits the limit of its slot; and whatever it
  is given, what it returns is valid text within the limit.
\<close>

theorem decode_osc133_inverts:
  assumes "str_ok s" and "str_len s \<le> m" and "\<And>b. keep b \<Longrightarrow> b < 0x80 \<and> b \<noteq> 0x25"
  shows "decode_osc133 (map ucast (percent_encode keep (str_bytes s))) m = Some s \<and>
    pred_option (\<lambda>t. str_ok t \<and> str_len t \<le> m) (decode_osc133 v m)"
proof
  have "str_bytes (map ucast (percent_encode keep (str_bytes s))) = percent_encode keep (str_bytes s)"
    using assms(3) by (intro str_bytes_ascii percent_encode_ascii) blast
  moreover have "decode_osc133_loop m [] (percent_encode keep (str_bytes s)) = Some (str_bytes s)"
    using decode_encoded [of keep "[]" "str_bytes s" m] assms by (simp add: str_len_def)
  ultimately show "decode_osc133 (map ucast (percent_encode keep (str_bytes s))) m = Some s"
    using assms(1) by (simp add: decode_osc133_def from_utf8_bytes)
  show "pred_option (\<lambda>t. str_ok t \<and> str_len t \<le> m) (decode_osc133 v m)"
    using decode_loop_bounded [of m "[]" "str_bytes v"]
    by (auto simp: decode_osc133_def str_len_def pred_option_def bind_eq_Some_conv
        dest!: from_utf8_Some)
qed

definition unreserved :: "u8 \<Rightarrow> bool" where
  "unreserved b \<longleftrightarrow> is_ascii_alphanumeric b \<or> b = 0x2f"

lemma decode_osc133_inverts_witness:
  "decode_osc133 (map ucast (percent_encode unreserved (str_bytes [0x6c, 0x73, 0x20, 0xe9]))) 16 =
     Some [0x6c, 0x73, 0x20, 0xe9]"
proof -
  have k: "b < 0x80 \<and> b \<noteq> 0x25" if "unreserved b" for b
    using that by (auto simp: unreserved_def is_ascii_alphanumeric_def word_le_nat_alt
        word_less_nat_alt word_unat_eq_iff)
  have "str_ok [0x6c, 0x73, 0x20, 0xe9]" by code_simp
  moreover have "str_len [0x6c, 0x73, 0x20, 0xe9] \<le> 16" by code_simp
  ultimately show ?thesis
    using decode_osc133_inverts [of "[0x6c, 0x73, 0x20, 0xe9]" 16 unreserved] k by blast
qed

subsection \<open>Base64\<close>

definition base64_char :: "u8 \<Rightarrow> u8" where
  "base64_char v =
     (if v < 26 then 0x41 + v else if v < 52 then 0x61 + (v - 26)
      else if v < 62 then 0x30 + (v - 52) else if v = 62 then 0x2b else 0x2f)"

text \<open>The standard encoding with padding.\<close>

fun base64_encode :: "bytes \<Rightarrow> bytes" where
  "base64_encode (a # b # c # rest) =
     map base64_char [drop_bit 2 a, push_bit 4 (a AND 0x03) OR drop_bit 4 b,
       push_bit 2 (b AND 0x0f) OR drop_bit 6 c, c AND 0x3f] @ base64_encode rest"
| "base64_encode [a, b] =
     map base64_char [drop_bit 2 a, push_bit 4 (a AND 0x03) OR drop_bit 4 b, push_bit 2 (b AND 0x0f)]
       @ [0x3d]"
| "base64_encode [a] = map base64_char [drop_bit 2 a, push_bit 4 (a AND 0x03)] @ [0x3d, 0x3d]"
| "base64_encode [] = []"

lemma base64_char_value:
  assumes "v < 64"
  shows "base64_value (base64_char v) = v" "base64_char v \<noteq> 0x3d" "base64_char v \<noteq> 0x0a"
    "base64_char v \<noteq> 0x0d" "base64_char v < 0x80"
proof -
  have v: "unat v < 64" using assms by (simp add: word_less_nat_alt)
  have n: "unat (base64_char v) = (if unat v < 26 then 65 + unat v else if unat v < 52 then 71 + unat v
      else if unat v < 62 then unat v - 4 else if unat v = 62 then 43 else 47)"
    using v by (simp add: base64_char_def word_less_nat_alt word_unat_eq_iff unat_word_ariths
        unat_sub_if_size word_size)
  show "base64_value (base64_char v) = v"
    using v by (auto simp: base64_value_def word_le_nat_alt word_unat_eq_iff n unat_word_ariths
        unat_sub_if_size word_size)
  show "base64_char v \<noteq> 0x3d" "base64_char v \<noteq> 0x0a" "base64_char v \<noteq> 0x0d" "base64_char v < 0x80"
    using v by (auto simp: word_unat_eq_iff word_less_nat_alt n)
qed

lemma base64_step:
  "v < 64 \<Longrightarrow> base64_loop buf bits out (base64_char v # input) =
     (let buf = push_bit 6 buf OR ucast v; bits = bits + 6
      in if 8 \<le> bits
         then base64_loop (buf AND (push_bit (bits - 8) 1 - 1)) (bits - 8)
                (out @ [ucast (drop_bit (bits - 8) buf)]) input
         else base64_loop buf bits out input)"
  using base64_char_value [of v] by (auto simp: Let_def)

lemma mask_three: "(0x03 :: 'a::len word) = mask 2"
  by (simp add: mask_eq_exp_minus_1)

lemma sextets_less:
  "drop_bit 2 a < 64" "push_bit 4 (a AND 0x03) OR drop_bit 4 b < 64"
  "push_bit 2 (b AND 0x0f) OR drop_bit 6 c < 64" "c AND 0x3f < 64"
  "push_bit 4 (a AND 0x03) < 64" "push_bit 2 (b AND 0x0f) < 64" for a b c :: u8
proof -
  have less: "w < 64" if "w AND mask 6 = w" for w :: u8
  proof -
    have "unat w = unat w mod 64" using unat_and_mask [of w 6] that by simp
    also have "\<dots> < 64" by simp
    finally show ?thesis by (simp add: word_less_nat_alt)
  qed
  show "drop_bit 2 a < 64" "push_bit 4 (a AND 0x03) OR drop_bit 4 b < 64"
  "push_bit 2 (b AND 0x0f) OR drop_bit 6 c < 64" "c AND 0x3f < 64"
  "push_bit 4 (a AND 0x03) < 64" "push_bit 2 (b AND 0x0f) < 64"
    unfolding mask_three mask_numerals
    by (rule less, rule bit_word_eqI, auto simp: bit_simps simp del: push_bit_numeral dest: bit_imp_le_length)+
qed

lemma low_bits: "(push_bit 4 1 - 1 :: u32) = mask 4" "(push_bit 2 1 - 1 :: u32) = mask 2"
  by (simp_all add: mask_eq_exp_minus_1)

lemma bit_in8: "bit w n \<Longrightarrow> n < 8" for w :: u8
  using bit_imp_le_length [of w n] by simp

lemma sextet1:
  "ucast (drop_bit 4 (push_bit 6 (ucast (drop_bit 2 a)) OR
     ucast (push_bit 4 (a AND 0x03) OR drop_bit 4 b)) :: u32) = a" for a b :: u8
  unfolding mask_three mask_numerals
proof (rule bit_word_eqI)
  fix n
  assume "n < LENGTH(8)"
  then have "n = 0 \<or> n = 1 \<or> n = 2 \<or> n = 3 \<or> n = 4 \<or> n = 5 \<or> n = 6 \<or> n = 7" by auto
  then show "bit (ucast (drop_bit 4 (push_bit 6 (ucast (drop_bit 2 a)) OR
      ucast (push_bit 4 (a AND mask 2) OR drop_bit 4 b)) :: u32) :: u8) n \<longleftrightarrow> bit a n"
    by (elim disjE) (auto simp: bit_simps simp del: push_bit_numeral dest: bit_in8)
qed

lemma sextet2:
  "(push_bit 6 (ucast (drop_bit 2 a)) OR
     ucast (push_bit 4 (a AND 0x03) OR drop_bit 4 b)) AND (push_bit 4 1 - 1) = (ucast (drop_bit 4 b) :: u32)"
  for a b :: u8
  unfolding mask_three mask_numerals low_bits
  by (rule bit_word_eqI, auto simp: bit_simps simp del: push_bit_numeral dest: bit_in8)

lemma sextet3: "ucast (drop_bit 2 (push_bit 6 (ucast (drop_bit 4 b)) OR
     ucast (push_bit 2 (b AND 0x0f) OR drop_bit 6 c)) :: u32) = b" for b c :: u8
  unfolding mask_three mask_numerals low_bits
proof (rule bit_word_eqI)
  fix n
  assume "n < LENGTH(8)"
  then have "n = 0 \<or> n = 1 \<or> n = 2 \<or> n = 3 \<or> n = 4 \<or> n = 5 \<or> n = 6 \<or> n = 7" by auto
  then show "bit (ucast (drop_bit 2 (push_bit 6 (ucast (drop_bit 4 b)) OR
      ucast (push_bit 2 (b AND mask 4) OR drop_bit 6 c)) :: u32) :: u8) n \<longleftrightarrow> bit b n"
    by (elim disjE) (auto simp: bit_simps simp del: push_bit_numeral dest: bit_in8)
qed

lemma sextet4: "(push_bit 6 (ucast (drop_bit 4 b)) OR
     ucast (push_bit 2 (b AND 0x0f) OR drop_bit 6 c)) AND (push_bit 2 1 - 1) = (ucast (drop_bit 6 c) :: u32)" for b c :: u8
  unfolding mask_three mask_numerals low_bits
  by (rule bit_word_eqI, auto simp: bit_simps simp del: push_bit_numeral dest: bit_in8)

lemma sextet5: "ucast (push_bit 6 (ucast (drop_bit 6 c)) OR ucast (c AND 0x3f) :: u32) = c" for c :: u8
  unfolding mask_three mask_numerals low_bits
  by (rule bit_word_eqI, auto simp: bit_simps simp del: push_bit_numeral dest: bit_in8)

lemma base64_fill:
  "v < 64 \<Longrightarrow> base64_loop 0 0 out (base64_char v # input) = base64_loop (ucast v) 6 out input"
  by (simp only: base64_step Let_def) simp

lemma base64_emit:
  assumes "v < 64" and "bits + 6 = k + 8"
  shows "base64_loop buf bits out (base64_char v # input) =
     base64_loop ((push_bit 6 buf OR ucast v) AND (push_bit k 1 - 1)) k
       (out @ [ucast (drop_bit k (push_bit 6 buf OR ucast v))]) input"
  using assms(2) by (simp only: base64_step [OF assms(1)] Let_def) simp

lemma base64_sextets:
  "base64_loop 0 0 out (base64_char (drop_bit 2 a) #
      base64_char (push_bit 4 (a AND 0x03) OR drop_bit 4 b) # input) =
     base64_loop (ucast (drop_bit 4 b)) 4 (out @ [a]) input"
  "base64_loop (ucast (drop_bit 4 b)) 4 out
      (base64_char (push_bit 2 (b AND 0x0f) OR drop_bit 6 c) # input) =
     base64_loop (ucast (drop_bit 6 c)) 2 (out @ [b]) input"
  "base64_loop (ucast (drop_bit 6 c)) 2 out (base64_char (c AND 0x3f) # input) =
     base64_loop 0 0 (out @ [c]) input"
proof -
  have e: "(6::nat) + 6 = 4 + 8" "(4::nat) + 6 = 2 + 8" "(2::nat) + 6 = 0 + 8" by simp_all
  show "base64_loop 0 0 out (base64_char (drop_bit 2 a) #
      base64_char (push_bit 4 (a AND 0x03) OR drop_bit 4 b) # input) =
     base64_loop (ucast (drop_bit 4 b)) 4 (out @ [a]) input"
    by (simp only: base64_fill [OF sextets_less(1)] base64_emit [OF sextets_less(2) e(1)] sextet1 sextet2)
  show "base64_loop (ucast (drop_bit 4 b)) 4 out
      (base64_char (push_bit 2 (b AND 0x0f) OR drop_bit 6 c) # input) =
     base64_loop (ucast (drop_bit 6 c)) 2 (out @ [b]) input"
    by (simp only: base64_emit [OF sextets_less(3) e(2)] sextet3 sextet4)
  show "base64_loop (ucast (drop_bit 6 c)) 2 out (base64_char (c AND 0x3f) # input) =
     base64_loop 0 0 (out @ [c]) input"
    by (simp only: base64_emit [OF sextets_less(4) e(3)] drop_bit_0 id_apply sextet5) simp
qed

lemma base64_padding: "base64_loop buf bits out [] = Some out"
  "base64_loop buf bits out (0x3d # input) = base64_loop buf bits out input"
  by simp_all

lemma base64_loop_encode: "base64_loop 0 0 out (base64_encode bs) = Some (out @ bs)"
proof (induction bs arbitrary: out rule: base64_encode.induct)
  case (1 a b c rest)
  then show ?case
    by (simp only: base64_encode.simps list.map append.simps base64_sextets append_assoc)
next
  case (2 a b)
  have "push_bit 2 (b AND 0x0f) = push_bit 2 (b AND 0x0f) OR drop_bit 6 (0 :: u8)" by simp
  then show ?case
    using base64_sextets(2) [of b _ 0]
    by (simp only: base64_encode.simps list.map append.simps base64_sextets append_assoc base64_padding)
next
  case (3 a)
  have "push_bit 4 (a AND 0x03) = push_bit 4 (a AND 0x03) OR drop_bit 4 (0 :: u8)" by simp
  then show ?case
    using base64_sextets(1) [of out a 0]
    by (simp only: base64_encode.simps list.map append.simps append_assoc base64_padding)
next
  case 4
  show ?case by simp
qed

lemma base64_encode_ascii: "list_all (\<lambda>b. b < 0x80) (base64_encode bs)"
  using base64_char_value(5) [OF sextets_less(1)] base64_char_value(5) [OF sextets_less(2)]
    base64_char_value(5) [OF sextets_less(3)] base64_char_value(5) [OF sextets_less(4)]
    base64_char_value(5) [OF sextets_less(5)] base64_char_value(5) [OF sextets_less(6)]
  by (induction bs rule: base64_encode.induct)
    (simp_all only: base64_encode.simps list.map list_all_append append.simps, simp_all)

subsection \<open>The clipboard\<close>

lemma prefix_literals:
  "lit ''133;'' = [0x31, 0x33, 0x33, 0x3b]" "lit ''7770;'' = [0x37, 0x37, 0x37, 0x30, 0x3b]"
  "lit ''7771;'' = [0x37, 0x37, 0x37, 0x31, 0x3b]" "lit ''7;'' = [0x37, 0x3b]"
  "lit ''1337;CurrentDir='' = [0x31, 0x33, 0x33, 0x37, 0x3b, 0x43, 0x75, 0x72, 0x72, 0x65, 0x6e,
     0x74, 0x44, 0x69, 0x72, 0x3d]"
  "lit ''0'' = [0x30]" "lit ''1'' = [0x31]" "lit ''2'' = [0x32]" "lit ''9;'' = [0x39, 0x3b]"
  "lit ''777;'' = [0x37, 0x37, 0x37, 0x3b]" "lit ''10;'' = [0x31, 0x30, 0x3b]"
  "lit ''11;'' = [0x31, 0x31, 0x3b]" "lit ''12;'' = [0x31, 0x32, 0x3b]"
  "lit ''110'' = [0x31, 0x31, 0x30]" "lit ''111'' = [0x31, 0x31, 0x31]"
  "lit ''112'' = [0x31, 0x31, 0x32]" "lit ''4;'' = [0x34, 0x3b]" "lit ''52;'' = [0x35, 0x32, 0x3b]"
  "lit ''?'' = [0x3f]" "lit ''A'' = [0x41]" "lit ''B'' = [0x42]" "lit ''C'' = [0x43]"
  "lit ''D'' = [0x44]" "lit '';'' = [0x3b]"
  by code_simp+

text \<open>A string that begins with \<open>52;\<close> reaches the clipboard.\<close>

lemma handle_osc_52:
  assumes "from_utf8 payload = Some (0x35 # 0x32 # 0x3b # rest)"
  shows "handle_osc invisible payload =
     (case clipboard (0x35 # 0x32 # 0x3b # rest) of Some evs \<Rightarrow> evs | None \<Rightarrow> [])"
  by (simp add: handle_osc_def assms prefix_literals strip_prefix_def starts_with_def
      unsafe_current_dir_def unsafe_title_def split_once_def notification_def
      handle_osc_colors_def dynamic_colors_def color_resets_def palette_query_def clipboard_def)

lemma position_sep:
  "x \<notin> set xs \<Longrightarrow> position (\<lambda>c. c = x) (xs @ x # ys) = Some (length xs)"
  by (induction xs) auto

lemma base64_not_query: "map ucast (base64_encode bs) \<noteq> ([0x3f] :: str)"
  by (cases bs rule: base64_encode.cases) auto

text \<open>
  C16: A program that sets the clipboard by OSC 52, whatever selection it names, sets it to exactly
  the text it encoded, as long as the encoding is within the limit of four megabytes.
\<close>

theorem clipboard_inverts_base64:
  assumes "str_ok s" and "length (base64_encode (str_bytes s)) \<le> MAX_CLIPBOARD_BASE64_BYTES"
    and "str_ok selection" and "0x3b \<notin> set selection"
  shows "handle_osc invisible
      ([0x35, 0x32, 0x3b] @ str_bytes selection @ [0x3b] @ base64_encode (str_bytes s)) =
     [ClipboardSet s]"
proof -
  let ?data = "map ucast (base64_encode (str_bytes s)) :: str"
  let ?text = "0x35 # 0x32 # 0x3b # selection @ 0x3b # ?data"
  have enc: "str_bytes ?data = base64_encode (str_bytes s)" "str_ok ?data"
    using base64_encode_ascii by (simp_all only: str_bytes_ascii str_ok_ascii)
  have "str_bytes ?text =
      [0x35, 0x32, 0x3b] @ str_bytes selection @ [0x3b] @ base64_encode (str_bytes s)"
    using enc(1) by (simp add: encode_utf8_def)
  moreover have "str_ok ?text" using assms(3) enc(2) by (simp add: is_scalar_nat)
  ultimately have "from_utf8 ([0x35, 0x32, 0x3b] @ str_bytes selection @ [0x3b]
      @ base64_encode (str_bytes s)) = Some ?text"
    by (simp only: from_utf8_iff)
  then have "handle_osc invisible
      ([0x35, 0x32, 0x3b] @ str_bytes selection @ [0x3b] @ base64_encode (str_bytes s)) =
      (case clipboard ?text of Some evs \<Rightarrow> evs | None \<Rightarrow> [])"
    by (rule handle_osc_52)
  also have "\<dots> = [ClipboardSet s]"
    using assms base64_not_query base64_loop_encode [of "[]"] enc(1)
    by (simp add: clipboard_def prefix_literals strip_prefix_def position_sep str_len_def
        base64_decode_def from_utf8_bytes)
  finally show ?thesis .
qed

lemma clipboard_inverts_base64_witness:
  "handle_osc (\<lambda>_. False) ([0x35, 0x32, 0x3b] @ str_bytes [0x63] @ [0x3b] @
     base64_encode (str_bytes [0x68, 0xe9])) = [ClipboardSet [0x68, 0xe9]]"
proof -
  have "str_ok [0x68, 0xe9]" "str_ok [0x63]" by code_simp+
  moreover have "length (base64_encode (str_bytes [0x68, 0xe9])) \<le> 4" by code_simp
  ultimately show ?thesis
    using clipboard_inverts_base64 [of "[0x68, 0xe9]" "[0x63]" "\<lambda>_. False"]
    by (simp add: MAX_CLIPBOARD_BASE64_BYTES_def)
qed

end
