(* ===== verification/Live_Parser.thy ===== *)
theory Live_Parser
  imports Osc_Handler
begin

text \<open>
  The stream parser of a live terminal, \<open>src/src/parser.rs\<close>: it splits the bytes of the shell
  into display bytes and semantic events, keeps private-mode switches that the host owns away from
  the display, and tracks the modes the host reports for.  A mode number is the value of a
  \<open>u32\<close>; its saturating arithmetic is \<open>sat_decimal\<close>.
\<close>

definition MAX_CSI_BYTES :: nat where "MAX_CSI_BYTES = 4096"

subsection \<open>Introducers and the tail of the ground text\<close>

datatype csi_introducer = EscBracket | C1 | Utf8C1

fun introducer_bytes :: "csi_introducer \<Rightarrow> bytes" where
  "introducer_bytes EscBracket = [0x1b, 0x5b]"
| "introducer_bytes C1 = [0x9b]"
| "introducer_bytes Utf8C1 = [0xc2, 0x9b]"

record ground_utf8_tail =
  t_bytes :: bytes
  t_len :: nat

definition tail_default :: ground_utf8_tail where
  "tail_default = \<lparr>t_bytes = [0, 0, 0], t_len = 0\<rparr>"

definition tail_clear :: "ground_utf8_tail \<Rightarrow> ground_utf8_tail" where
  "tail_clear t = t\<lparr>t_len := 0\<rparr>"

definition tail_push :: "ground_utf8_tail \<Rightarrow> u8 \<Rightarrow> ground_utf8_tail option" where
  "tail_push t byte =
     (if t_len t < length (t_bytes t)
      then do { bs \<leftarrow> store (t_bytes t) (t_len t) byte;
                Some (t\<lparr>t_bytes := bs, t_len := t_len t + 1\<rparr>) }
      else do { moved \<leftarrow> copy_within (t_bytes t) 1 (length (t_bytes t)) 0;
                last_i \<leftarrow> usub (length moved) 1;
                bs \<leftarrow> store moved last_i byte;
                Some (t\<lparr>t_bytes := bs\<rparr>) })"

definition tail_extend :: "ground_utf8_tail \<Rightarrow> bytes \<Rightarrow> ground_utf8_tail option" where
  "tail_extend t bs =
     (let capacity = length (t_bytes t)
      in if capacity \<le> length bs
         then do { start \<leftarrow> usub (length bs) capacity;
                   kept \<leftarrow> slice bs start (length bs);
                   Some (t\<lparr>t_bytes := kept, t_len := capacity\<rparr>) }
         else foldM tail_push t bs)"

definition previous :: "ground_utf8_tail \<Rightarrow> nat \<Rightarrow> u8 option option" where
  "previous t distance =
     (if distance \<noteq> 0 \<and> distance \<le> t_len t
      then do { i \<leftarrow> usub (t_len t) distance; b \<leftarrow> index (t_bytes t) i; Some (Some b) }
      else Some None)"

datatype c1_ground_role = Utf8Csi | Utf8Continuation | Csi8

definition valid_first_continuation :: "u8 \<Rightarrow> u8 \<Rightarrow> bool" where
  "valid_first_continuation lead continuation =
     (if lead = 0xe0 then 0xa0 \<le> continuation \<and> continuation \<le> 0xbf
      else if lead = 0xed then 0x80 \<le> continuation \<and> continuation \<le> 0x9f
      else if lead = 0xf0 then 0x90 \<le> continuation \<and> continuation \<le> 0xbf
      else if lead = 0xf4 then 0x80 \<le> continuation \<and> continuation \<le> 0x8f
      else if (0xe1 \<le> lead \<and> lead \<le> 0xec) \<or> (0xee \<le> lead \<and> lead \<le> 0xef) \<or>
              (0xf1 \<le> lead \<and> lead \<le> 0xf3) then 0x80 \<le> continuation \<and> continuation \<le> 0xbf
      else False)"

definition classify_ground_c1 :: "ground_utf8_tail \<Rightarrow> c1_ground_role option" where
  "classify_ground_c1 tail =
     do { p1 \<leftarrow> previous tail 1;
          case p1 of
            None \<Rightarrow> Some Csi8
          | Some prev \<Rightarrow>
            if prev = 0xc2 then Some Utf8Csi
            else if (0xc3 \<le> prev \<and> prev \<le> 0xdf) \<or> valid_first_continuation prev 0x9b
              then Some Utf8Continuation
            else if 0x80 \<le> prev \<and> prev \<le> 0xbf then
              do { p2 \<leftarrow> previous tail 2;
                   case p2 of
                     None \<Rightarrow> Some Csi8
                   | Some second \<Rightarrow>
                     if 0xe0 \<le> second \<and> second \<le> 0xef \<and> valid_first_continuation second prev
                       then Some Utf8Continuation
                     else if 0xf0 \<le> second \<and> second \<le> 0xf4 \<and> valid_first_continuation second prev
                       then Some Utf8Continuation
                     else do { p3 \<leftarrow> previous tail 3;
                               case p3 of
                                 None \<Rightarrow> Some Csi8
                               | Some third \<Rightarrow>
                                 if 0x80 \<le> second \<and> second \<le> 0xbf \<and> 0xf0 \<le> third \<and>
                                    third \<le> 0xf4 \<and> valid_first_continuation third second
                                 then Some Utf8Continuation else Some Csi8 } }
            else Some Csi8 }"

subsection \<open>State\<close>

datatype live_state = Ground | Esc | Csi csi_introducer bytes | CsiDiscard
  | Osc bytes | OscEsc bytes | OscDiscard | OscDiscardEsc
  | Apc bytes | ApcEsc bytes | ApcDiscard | ApcDiscardEsc
  | Dcs bytes | DcsEsc bytes | DcsDiscard | DcsDiscardEsc
  | Ignore | IgnoreEsc

datatype mouse_mode = MouseNone | X10 | Normal | ButtonEvent | AnyEvent

datatype mouse_encoding = DefaultEncoding | Sgr | Urxvt | Utf8

record parser_config =
  c_mouse_reporting :: bool
  c_focus_reporting :: bool

record live =
  l_state :: live_state
  l_passthrough :: bytes
  l_tail :: ground_utf8_tail
  l_config :: parser_config
  l_bracketed_paste :: bool
  l_mouse_tracking :: u8
  l_mouse_encoding :: u8
  l_focus_events :: bool

definition config_default :: parser_config where
  "config_default = \<lparr>c_mouse_reporting = True, c_focus_reporting = True\<rparr>"

definition with_config :: "parser_config \<Rightarrow> live" where
  "with_config config = \<lparr>l_state = Ground, l_passthrough = [], l_tail = tail_default,
     l_config = config, l_bracketed_paste = False, l_mouse_tracking = 0, l_mouse_encoding = 0,
     l_focus_events = False\<rparr>"

definition live_new :: live where
  "live_new = with_config config_default"

definition mouse_mode :: "live \<Rightarrow> mouse_mode" where
  "mouse_mode p =
     (if l_mouse_tracking p AND 8 \<noteq> 0 then AnyEvent
      else if l_mouse_tracking p AND 4 \<noteq> 0 then ButtonEvent
      else if l_mouse_tracking p AND 2 \<noteq> 0 then Normal
      else if l_mouse_tracking p AND 1 \<noteq> 0 then X10
      else MouseNone)"

definition mouse_encoding :: "live \<Rightarrow> mouse_encoding" where
  "mouse_encoding p =
     (if l_mouse_encoding p AND 4 \<noteq> 0 then Sgr
      else if l_mouse_encoding p AND 2 \<noteq> 0 then Urxvt
      else if l_mouse_encoding p AND 1 \<noteq> 0 then Utf8
      else DefaultEncoding)"

subsection \<open>Parameters of a CSI\<close>

definition mode_token :: "bytes \<Rightarrow> nat option" where
  "mode_token token =
     (if \<not> list_all is_ascii_digit token then None else Some (sat_decimal (2 ^ 32 - 1) token))"

definition private_modes :: "bytes \<Rightarrow> nat list option" where
  "private_modes params =
     (let params = (if list_ex (\<lambda>b. b < 0x20 \<or> b = 0x7f) params
                    then filter (\<lambda>b. 0x20 \<le> b \<and> b \<noteq> 0x7f) params else params)
      in case strip_prefix [0x3f] params of
           None \<Rightarrow> None
         | Some rest \<Rightarrow> mapM mode_token (split_on 0x3b rest))"

definition is_alt_screen_mode :: "nat \<Rightarrow> bool" where
  "is_alt_screen_mode mode \<longleftrightarrow> mode = 47 \<or> mode = 1047 \<or> mode = 1049"

definition is_mouse_mode :: "nat \<Rightarrow> bool" where
  "is_mouse_mode mode \<longleftrightarrow> mode \<in> {9, 1000, 1001, 1002, 1003, 1005, 1006, 1015, 1016}"

definition alt_screen_mode :: "bytes \<Rightarrow> nat option" where
  "alt_screen_mode params =
     (if params = ascii ''?47'' then Some 47
      else if params = ascii ''?1047'' then Some 1047
      else if params = ascii ''?1049'' then Some 1049
      else None)"

definition is_ordinary_numeric_param :: "bytes \<Rightarrow> nat \<Rightarrow> bool" where
  "is_ordinary_numeric_param params expected \<longleftrightarrow>
     params \<noteq> [] \<and> list_all is_ascii_digit params \<and> sat_decimal (2 ^ 32 - 1) params = expected"

definition is_erase_display :: "bytes \<Rightarrow> bool" where
  "is_erase_display params \<longleftrightarrow> is_ordinary_numeric_param params 2"

definition is_erase_scrollback :: "bytes \<Rightarrow> bool" where
  "is_erase_scrollback params \<longleftrightarrow> is_ordinary_numeric_param params 3"

definition is_mouse_reporting_mode :: "bytes \<Rightarrow> bool" where
  "is_mouse_reporting_mode params \<longleftrightarrow>
     params \<in> set (map ascii [''?9'', ''?1000'', ''?1001'', ''?1002'', ''?1003'', ''?1005'',
       ''?1006'', ''?1015'', ''?1016''])"

definition is_focus_reporting_mode :: "bytes \<Rightarrow> bool" where
  "is_focus_reporting_mode params \<longleftrightarrow> params = ascii ''?1004''"

definition csi_u8_param :: "bytes \<Rightarrow> u8" where
  "csi_u8_param digits = of_nat (sat_decimal 255 (takeWhile is_ascii_digit digits))"

text \<open>\<open>update_dec_private_modes\<close>: one token; the bits of the two mouse registers.\<close>

definition set_flag :: "bool \<Rightarrow> u8 \<Rightarrow> u8 \<Rightarrow> u8" where
  "set_flag enable bit_mask flags = (if enable then flags OR bit_mask else flags AND NOT bit_mask)"

definition apply_mode :: "live \<Rightarrow> nat \<Rightarrow> bool \<Rightarrow> live" where
  "apply_mode p n enable =
     (if n = 2004 then p\<lparr>l_bracketed_paste := enable\<rparr>
      else if n = 1004 then p\<lparr>l_focus_events := enable\<rparr>
      else if n = 9 then p\<lparr>l_mouse_tracking := set_flag enable 1 (l_mouse_tracking p)\<rparr>
      else if n = 1000 then p\<lparr>l_mouse_tracking := set_flag enable 2 (l_mouse_tracking p)\<rparr>
      else if n = 1002 then p\<lparr>l_mouse_tracking := set_flag enable 4 (l_mouse_tracking p)\<rparr>
      else if n = 1003 then p\<lparr>l_mouse_tracking := set_flag enable 8 (l_mouse_tracking p)\<rparr>
      else if n = 1005 then p\<lparr>l_mouse_encoding := set_flag enable 1 (l_mouse_encoding p)\<rparr>
      else if n = 1015 then p\<lparr>l_mouse_encoding := set_flag enable 2 (l_mouse_encoding p)\<rparr>
      else if n = 1006 then p\<lparr>l_mouse_encoding := set_flag enable 4 (l_mouse_encoding p)\<rparr>
      else p)"

definition update_mode_token :: "bool \<Rightarrow> live \<times> nat list \<Rightarrow> bytes \<Rightarrow> live \<times> nat list" where
  "update_mode_token enable pm token =
     (case pm of (p, modes) \<Rightarrow>
      (let token = (case strip_prefix [0x3f] token of Some t \<Rightarrow> t | None \<Rightarrow> token)
       in case Option.bind (from_utf8 token) parse_u32 of
            None \<Rightarrow> (p, modes)
          | Some n \<Rightarrow> (apply_mode p n enable, modes @ [n])))"

definition update_dec_private_modes :: "live \<Rightarrow> bytes \<Rightarrow> bool \<Rightarrow> live \<times> nat list" where
  "update_dec_private_modes p params enable =
     foldl (update_mode_token enable) (p, []) (split_on 0x3b params)"

subsection \<open>Feeding\<close>

text \<open>The parser with the events pushed so far, and the macros of \<open>feed\<close>.\<close>

type_synonym run = "live \<times> parser_event list"

definition push_bytes :: "bytes \<Rightarrow> run \<Rightarrow> run" where
  "push_bytes bs r = (case r of (p, evs) \<Rightarrow> (p\<lparr>l_passthrough := l_passthrough p @ bs\<rparr>, evs))"

definition push_event :: "parser_event \<Rightarrow> run \<Rightarrow> run" where
  "push_event ev r = (case r of (p, evs) \<Rightarrow> (p, evs @ [ev]))"

definition go :: "live_state \<Rightarrow> run \<Rightarrow> run" where
  "go st r = (case r of (p, evs) \<Rightarrow> (p\<lparr>l_state := st\<rparr>, evs))"

definition flush :: "run \<Rightarrow> run" where
  "flush r = (case r of (p, evs) \<Rightarrow>
     if l_passthrough p \<noteq> [] then (p\<lparr>l_passthrough := []\<rparr>, evs @ [Bytes (l_passthrough p)]) else r)"

definition hard_reset :: "run \<Rightarrow> run" where
  "hard_reset r = (case flush r of (p, evs) \<Rightarrow>
     (p\<lparr>l_tail := tail_clear (l_tail p), l_bracketed_paste := False, l_mouse_tracking := 0,
        l_mouse_encoding := 0, l_focus_events := False, l_state := Ground\<rparr>,
      evs @ [HardReset, Bytes [0x1b, 0x63]]))"

definition reprocess_escape_final :: "u8 \<Rightarrow> run \<Rightarrow> run" where
  "reprocess_escape_final b r =
     (if b = 0x1b then go Esc r
      else if b = 0x5b then go (Csi EscBracket []) r
      else if b = 0x5d then go (Osc []) r
      else if b = 0x5f then go (Apc []) r
      else if b = 0x50 then go (Dcs []) r
      else if b = 0x5e \<or> b = 0x58 then go Ignore r
      else if b = 0x63 then hard_reset r
      else go Ground (push_bytes [0x1b, b] r))"

text \<open>Ground text, and the introducer that ends it.\<close>

definition ground_plain :: "bytes \<Rightarrow> run \<Rightarrow> run option" where
  "ground_plain plain r = (case push_bytes plain r of (p, evs) \<Rightarrow>
     do { t \<leftarrow> tail_extend (l_tail p) plain; Some (p\<lparr>l_tail := t\<rparr>, evs) })"

definition clear_tail :: "run \<Rightarrow> run" where
  "clear_tail r = (case r of (p, evs) \<Rightarrow> (p\<lparr>l_tail := tail_clear (l_tail p)\<rparr>, evs))"

definition ground_introducer :: "u8 \<Rightarrow> run \<Rightarrow> run option" where
  "ground_introducer b r = (case r of (p, evs) \<Rightarrow>
     if b = 0x1b then Some (go Esc (clear_tail r))
     else
       do { role \<leftarrow> classify_ground_c1 (l_tail p);
            case role of
              Utf8Csi \<Rightarrow>
                if l_passthrough p \<noteq> [] \<and> last (l_passthrough p) = 0xc2
                then Some (go (Csi Utf8C1 [])
                       (clear_tail (p\<lparr>l_passthrough := butlast (l_passthrough p)\<rparr>, evs)))
                else Some (go (Csi C1 []) (clear_tail r))
            | Utf8Continuation \<Rightarrow> ground_plain [0x9b] r
            | Csi8 \<Rightarrow> Some (go (Csi C1 []) (clear_tail r)) })"

text \<open>CAN and SUB.\<close>

definition cancel :: "u8 \<Rightarrow> run \<Rightarrow> run" where
  "cancel b r = (case r of (p, evs) \<Rightarrow>
     (case l_state p of
        Csi introducer buf \<Rightarrow> go Ground (push_bytes (introducer_bytes introducer @ buf @ [b]) r)
      | Esc \<Rightarrow> go Ground (push_bytes [0x1b, b] r)
      | _ \<Rightarrow> go Ground r))"

definition esc_byte :: "u8 \<Rightarrow> run \<Rightarrow> run" where
  "esc_byte b r =
     (if b = 0x1b then r
      else if b = 0x5b then go (Csi EscBracket []) r
      else if b = 0x5d then go (Osc []) r
      else if b = 0x5f then go (Apc []) r
      else if b = 0x50 then go (Dcs []) r
      else if b = 0x5e \<or> b = 0x58 then go Ignore r
      else if b = 0x63 then hard_reset r
      else go Ground (push_bytes [0x1b, b] r))"

subsection \<open>The final byte of a CSI\<close>

definition suppressed :: "parser_config \<Rightarrow> nat \<Rightarrow> bool" where
  "suppressed config mode \<longleftrightarrow>
     (\<not> c_mouse_reporting config \<and> is_mouse_mode mode) \<or>
     (\<not> c_focus_reporting config \<and> mode = 1004)"

definition update_modes :: "bytes \<Rightarrow> bool \<Rightarrow> run \<Rightarrow> run" where
  "update_modes params enable r = (case r of (p, evs) \<Rightarrow>
     (fst (update_dec_private_modes p params enable), evs))"

text \<open>One mode of a list that holds an intercepted one.\<close>

definition intercepted_mode :: "u8 \<Rightarrow> run \<Rightarrow> nat \<Rightarrow> run" where
  "intercepted_mode b r mode =
     (if is_alt_screen_mode mode
      then push_event (if b = 0x68 then AltScreenEnter mode else AltScreenLeave mode) (flush r)
      else
        (let r = flush r
         in if suppressed (l_config (fst r)) mode then r
            else (let token = dec mode;
                      r = update_modes token (b = 0x68) r;
                      r = push_event (DecsetMode mode (b = 0x68)) r
                  in push_bytes ([0x1b, 0x5b, 0x3f] @ token @ [b]) r)))"

definition ordinary_mode :: "u8 \<Rightarrow> run \<Rightarrow> nat \<Rightarrow> run" where
  "ordinary_mode b r mode =
     push_event (DecsetMode mode (b = 0x68)) (update_modes (dec mode) (b = 0x68) r)"

text \<open>The handshake a complete CSI asks for.\<close>

definition handshake :: "u8 \<Rightarrow> bytes \<Rightarrow> parser_event option" where
  "handshake b params =
     (if b = 0x75 \<and> params = [0x3f] then Some (KeyboardProtocolQuery KittyQuery)
      else if b = 0x75 \<and> params \<noteq> [] \<and> hd params = 0x3e
        then Some (KittyKeyboard (KPush (csi_u8_param (tl params))))
      else if b = 0x75 \<and> params \<noteq> [] \<and> hd params = 0x3c
        then Some (KittyKeyboard (KPop (csi_u8_param (tl params))))
      else if b = 0x75 \<and> params \<noteq> [] \<and> hd params = 0x3d then
        (case iter_next (split_on 0x3b (tl params)) of
           (first, parts) \<Rightarrow>
             (let flags = csi_u8_param (case first of Some f \<Rightarrow> f | None \<Rightarrow> []);
                  mode = (case filter_option (\<lambda>m. m \<noteq> 0)
                                 (map_option csi_u8_param (fst (iter_next parts))) of
                            Some m \<Rightarrow> m | None \<Rightarrow> 1)
              in Some (KittyKeyboard (KSet flags mode))))
      else if b = 0x6d \<and> params = [0x3f, 0x34] then Some (KeyboardProtocolQuery ModifyOtherKeysQuery)
      else if b = 0x63 \<and> (params = [] \<or> params = [0x30])
        then Some (KeyboardProtocolQuery PrimaryDeviceAttributes)
      else if b = 0x63 \<and> (params = [0x3e] \<or> params = [0x3e, 0x30])
        then Some (KeyboardProtocolQuery SecondaryDeviceAttributes)
      else if b = 0x63 \<and> (params = [0x3d] \<or> params = [0x3d, 0x30])
        then Some (KeyboardProtocolQuery TertiaryDeviceAttributes)
      else if b = 0x71 \<and> (params = [0x3e] \<or> params = [0x3e, 0x30])
        then Some (KeyboardProtocolQuery XtVersion)
      else if b = 0x6e \<and> params = [0x35] then Some (KeyboardProtocolQuery DeviceStatus)
      else if b = 0x6e \<and> params = [0x36] then Some (KeyboardProtocolQuery CursorPosition)
      else None)"

text \<open>The intercepted modes of a CSI, if it has any.\<close>

definition intercepted_modes :: "parser_config \<Rightarrow> u8 \<Rightarrow> bytes \<Rightarrow> nat list option" where
  "intercepted_modes config b params =
     (if b = 0x68 \<or> b = 0x6c then
        filter_option (list_ex (\<lambda>m. is_alt_screen_mode m \<or> suppressed config m))
          (private_modes params)
      else None)"

text \<open>What \<open>csi_final\<close> does when no mode is intercepted, step by step.\<close>

definition csi_modes :: "u8 \<Rightarrow> bytes \<Rightarrow> run \<Rightarrow> run" where
  "csi_modes b params r =
     (if (b = 0x68 \<or> b = 0x6c) \<and> alt_screen_mode params = None
      then (case private_modes params of
              Some modes \<Rightarrow> foldl (ordinary_mode b) r modes | None \<Rightarrow> r)
      else r)"

definition erase_event :: "u8 \<Rightarrow> bytes \<Rightarrow> parser_event option" where
  "erase_event b params =
     (if b = 0x4a \<and> is_erase_display params then Some EraseDisplay
      else if b = 0x4a \<and> is_erase_scrollback params then Some EraseScrollback
      else None)"

definition csi_erase :: "u8 \<Rightarrow> bytes \<Rightarrow> bytes \<Rightarrow> run \<Rightarrow> run" where
  "csi_erase b params sequence r =
     (case erase_event b params of
        Some ev \<Rightarrow> push_event (Bytes sequence) (push_event ev (flush r))
      | None \<Rightarrow> r)"

definition csi_pass :: "u8 \<Rightarrow> bytes \<Rightarrow> bytes \<Rightarrow> run \<Rightarrow> run" where
  "csi_pass b params sequence r =
     push_bytes sequence (case handshake b params of Some ev \<Rightarrow> push_event ev r | None \<Rightarrow> r)"

definition csi_final :: "csi_introducer \<Rightarrow> bytes \<Rightarrow> u8 \<Rightarrow> run \<Rightarrow> run" where
  "csi_final introducer params b r0 =
     (let r = go Ground r0; config = l_config (fst r)
      in case intercepted_modes config b params of
           Some modes \<Rightarrow>
             foldl (intercepted_mode b) (flush (push_bytes (filter (\<lambda>x. x < 0x20) params) r)) modes
         | None \<Rightarrow>
           (let alt_mode = alt_screen_mode params;
                sequence = introducer_bytes introducer @ params @ [b];
                r = csi_erase b params sequence (csi_modes b params r)
            in if b = 0x68 \<and> alt_mode \<noteq> None
                 then push_event (AltScreenEnter (the alt_mode)) (flush r)
               else if b = 0x6c \<and> alt_mode \<noteq> None
                 then push_event (AltScreenLeave (the alt_mode)) (flush r)
               else if \<not> c_mouse_reporting config \<and> (b = 0x68 \<or> b = 0x6c) \<and>
                       is_mouse_reporting_mode params then r
               else if \<not> c_focus_reporting config \<and> (b = 0x68 \<or> b = 0x6c) \<and>
                       is_focus_reporting_mode params then r
               else if erase_event b params = None then csi_pass b params sequence r
               else r))"

definition csi_byte :: "csi_introducer \<Rightarrow> bytes \<Rightarrow> u8 \<Rightarrow> run \<Rightarrow> run" where
  "csi_byte introducer buf b r =
     (if b = 0x1b then go Esc (push_bytes (introducer_bytes introducer @ buf) r)
      else if 0x40 \<le> b \<and> b \<le> 0x7e then csi_final introducer buf b r
      else if MAX_CSI_BYTES < length (buf @ [b]) then go CsiDiscard r
      else go (Csi introducer (buf @ [b])) r)"

subsection \<open>Control strings\<close>

definition push_events :: "parser_event list \<Rightarrow> run \<Rightarrow> run" where
  "push_events new r = (case r of (p, evs) \<Rightarrow> (p, evs @ new))"

definition finish_osc :: "(u32 \<Rightarrow> bool) \<Rightarrow> bytes \<Rightarrow> run \<Rightarrow> run" where
  "finish_osc invisible payload r = push_events (handle_osc invisible payload) (flush (go Ground r))"

definition osc_byte :: "(u32 \<Rightarrow> bool) \<Rightarrow> bytes \<Rightarrow> u8 \<Rightarrow> run \<Rightarrow> run" where
  "osc_byte invisible buf b r =
     (if b = 0x07 then finish_osc invisible buf r
      else if b = 0x1b then go (OscEsc buf) r
      else if MAX_OSC_PAYLOAD_BYTES \<le> length buf then go OscDiscard r
      else go (Osc (buf @ [b])) r)"

definition apc_byte :: "bytes \<Rightarrow> u8 \<Rightarrow> run \<Rightarrow> run" where
  "apc_byte buf b r =
     (if b = 0x1b then go (ApcEsc buf) r
      else if MAX_APC_PAYLOAD_BYTES \<le> length buf then go ApcDiscard r
      else go (Apc (buf @ [b])) r)"

definition dcs_byte :: "bytes \<Rightarrow> u8 \<Rightarrow> run \<Rightarrow> run" where
  "dcs_byte buf b r =
     (if b = 0x1b then go (DcsEsc buf) r
      else if MAX_DCS_PAYLOAD_BYTES \<le> length buf then go DcsDiscard r
      else go (Dcs (buf @ [b])) r)"

definition finish_dcs :: "bytes \<Rightarrow> run \<Rightarrow> run" where
  "finish_dcs payload r = (case go Ground r of (p, evs) \<Rightarrow>
     (p\<lparr>l_passthrough := emit_dcs_passthrough payload (l_passthrough p)\<rparr>, evs))"

text \<open>One byte outside the ground state; the ground state is unreachable here.\<close>

definition step_byte :: "(u32 \<Rightarrow> bool) \<Rightarrow> u8 \<Rightarrow> run \<Rightarrow> run option" where
  "step_byte invisible b r =
     (if b = 0x18 \<or> b = 0x1a then Some (cancel b r)
      else case l_state (fst r) of
        Ground \<Rightarrow> None
      | Esc \<Rightarrow> Some (esc_byte b r)
      | Csi introducer buf \<Rightarrow> Some (csi_byte introducer buf b r)
      | CsiDiscard \<Rightarrow> Some (if b = 0x1b then go Esc r
                            else if 0x40 \<le> b \<and> b \<le> 0x7e then go Ground r else r)
      | Osc buf \<Rightarrow> Some (osc_byte invisible buf b r)
      | OscEsc payload \<Rightarrow> Some (if b = 0x5c then finish_osc invisible payload r
                                else reprocess_escape_final b r)
      | OscDiscard \<Rightarrow> Some (if b = 0x07 then go Ground r
                            else if b = 0x1b then go OscDiscardEsc r else r)
      | OscDiscardEsc \<Rightarrow> Some (if b = 0x5c then go Ground r else reprocess_escape_final b r)
      | Apc buf \<Rightarrow> Some (apc_byte buf b r)
      | ApcEsc payload \<Rightarrow> Some (if b = 0x5c then push_event (ApcSequence payload) (flush (go Ground r))
                                else reprocess_escape_final b r)
      | ApcDiscard \<Rightarrow> Some (if b = 0x1b then go ApcDiscardEsc r else r)
      | ApcDiscardEsc \<Rightarrow> Some (if b = 0x5c then go Ground r else reprocess_escape_final b r)
      | Dcs buf \<Rightarrow> Some (dcs_byte buf b r)
      | DcsEsc payload \<Rightarrow> Some (if b = 0x5c then finish_dcs payload r
                                else reprocess_escape_final b r)
      | DcsDiscard \<Rightarrow> Some (if b = 0x1b then go DcsDiscardEsc r else r)
      | DcsDiscardEsc \<Rightarrow> Some (if b = 0x5c then go Ground r else reprocess_escape_final b r)
      | Ignore \<Rightarrow> Some (if b = 0x1b then go IgnoreEsc r else r)
      | IgnoreEsc \<Rightarrow> Some (if b = 0x5c then go Ground r else reprocess_escape_final b r))"

text \<open>The loop of \<open>feed\<close>: in the ground state text is copied in bulk up to an introducer.\<close>

definition is_introducer :: "u8 \<Rightarrow> bool" where
  "is_introducer b \<longleftrightarrow> b = 0x1b \<or> b = 0x9b"

function feed_loop :: "(u32 \<Rightarrow> bool) \<Rightarrow> run \<Rightarrow> bytes \<Rightarrow> run option" where
  "feed_loop invisible r data =
     (if data = [] then Some r
      else if l_state (fst r) = Ground then
        (case position is_introducer data of
           Some off \<Rightarrow>
             do { plain \<leftarrow> slice data 0 off;
                  r1 \<leftarrow> (if 0 < off then ground_plain plain r else Some r);
                  b \<leftarrow> index data off;
                  r2 \<leftarrow> ground_introducer b r1;
                  feed_loop invisible r2 (drop (off + 1) data) }
         | None \<Rightarrow> ground_plain data r)
      else do { b \<leftarrow> index data 0;
                r1 \<leftarrow> step_byte invisible b r;
                feed_loop invisible r1 (drop 1 data) })"
  by pat_completeness auto
termination by (relation "measure (\<lambda>(_, _, data). length data)") (auto dest: position_Some)

declare feed_loop.simps [simp del]

definition live_feed :: "(u32 \<Rightarrow> bool) \<Rightarrow> live \<Rightarrow> bytes \<Rightarrow> parser_event list \<Rightarrow> run option" where
  "live_feed invisible p data events =
     do { r \<leftarrow> feed_loop invisible (p\<lparr>l_passthrough := []\<rparr>, events) data; Some (flush r) }"

end
