(* ===== verification/Live_Facts.thy ===== *)
theory Live_Facts
  imports Live_Parser Rust_Utf8
begin

text \<open>
  The stream parser never panics, its loop is its byte step run over the input, and every step
  keeps its invariant: the window of ground text is the last three bytes, the buffers are within
  their limits, and reporting that is configured off is never on.
\<close>

subsection \<open>The window of ground text\<close>

definition tail_ok :: "ground_utf8_tail \<Rightarrow> bool" where
  "tail_ok t \<longleftrightarrow> length (t_bytes t) = 3 \<and> t_len t \<le> 3"

text \<open>What the window holds after more text: its stale bytes stay until they are overwritten.\<close>

definition tail_after :: "ground_utf8_tail \<Rightarrow> bytes \<Rightarrow> ground_utf8_tail" where
  "tail_after t bs =
     (let text = take (t_len t) (t_bytes t) @ bs
      in if 3 \<le> length text then t\<lparr>t_bytes := drop (length text - 3) text, t_len := 3\<rparr>
         else t\<lparr>t_bytes := text @ drop (length text) (t_bytes t), t_len := length text\<rparr>)"

lemma list3: "length xs = 3 \<Longrightarrow> \<exists>a b c. xs = [a, b, c]"
  by (auto simp: numeral_3_eq_3 length_Suc_conv)

lemma len_cases: "n \<le> 3 \<Longrightarrow> n = 0 \<or> n = 1 \<or> n = 2 \<or> n = (3::nat)"
  by linarith

lemma tail_push_after:
  assumes "tail_ok t"
  shows "tail_push t b = Some (tail_after t [b])"
proof -
  obtain x y z where t: "t_bytes t = [x, y, z]" "t_len t \<le> 3"
    using assms list3 [of "t_bytes t"] by (auto simp: tail_ok_def)
  then show ?thesis
    using len_cases [OF t(2)]
    by (auto simp: tail_push_def tail_after_def store_def copy_within_def usub_def numeral_3_eq_3)
qed

lemma tail_after_ok: "tail_ok t \<Longrightarrow> tail_ok (tail_after t bs)"
  by (auto simp: tail_ok_def tail_after_def Let_def)

lemma tail_after_Nil: "tail_ok t \<Longrightarrow> tail_after t [] = t"
  by (auto simp: tail_ok_def tail_after_def Let_def)

lemma tail_after_append:
  assumes "tail_ok t"
  shows "tail_after t (xs @ ys) = tail_after (tail_after t xs) ys"
proof -
  let ?text = "take (t_len t) (t_bytes t) @ xs"
  have len: "length (take (t_len t) (t_bytes t)) = t_len t" "length (t_bytes t) = 3"
    using assms by (simp_all add: tail_ok_def)
  show ?thesis
  proof (cases "3 \<le> length ?text")
    case True
    then obtain us vs where uv: "?text = us @ vs" "length vs = 3"
      using append_take_drop_id [of "length ?text - 3" ?text] by (metis diff_diff_cancel length_drop)
    have a: "tail_after t xs = t\<lparr>t_bytes := vs, t_len := 3\<rparr>"
      using True uv(2) unfolding tail_after_def Let_def uv(1) by simp
    have whole: "take (t_len t) (t_bytes t) @ (xs @ ys) = us @ (vs @ ys)"
      using uv(1) by (metis append_assoc)
    have "tail_after t (xs @ ys) =
        t\<lparr>t_bytes := drop (length (vs @ ys) - 3) (vs @ ys), t_len := 3\<rparr>"
      using uv(2) unfolding tail_after_def Let_def whole by simp
    then show ?thesis using uv(2) unfolding a by (simp add: tail_after_def)
  next
    case False
    then have "tail_after t xs =
        t\<lparr>t_bytes := ?text @ drop (length ?text) (t_bytes t), t_len := length ?text\<rparr>"
      by (simp add: tail_after_def)
    then show ?thesis using False len by (simp add: tail_after_def Let_def ac_simps)
  qed
qed

lemma foldM_tail_push: "tail_ok t \<Longrightarrow> foldM tail_push t bs = Some (tail_after t bs)"
proof (induction bs arbitrary: t)
  case Nil
  then show ?case by (simp add: tail_after_Nil)
next
  case (Cons b bs)
  then show ?case
    using tail_after_append [of t "[b]" bs] by (simp add: tail_push_after tail_after_ok)
qed

lemma tail_extend_after: "tail_ok t \<Longrightarrow> tail_extend t bs = Some (tail_after t bs)"
  by (auto simp: tail_extend_def foldM_tail_push Let_def usub_def slice_def)
    (auto simp: tail_ok_def tail_after_def Let_def)

lemma tail_clear_ok: "tail_ok t \<Longrightarrow> tail_ok (tail_clear t)"
  by (simp add: tail_ok_def tail_clear_def)

lemma tail_default_ok: "tail_ok tail_default"
  by (simp add: tail_ok_def tail_default_def)

text \<open>The text in the window, and the last bytes of it.\<close>

definition tail_text :: "ground_utf8_tail \<Rightarrow> bytes" where
  "tail_text t = take (t_len t) (t_bytes t)"

lemma tail_text_clear [simp]: "tail_text (tail_clear t) = []"
  by (simp add: tail_text_def tail_clear_def)

lemma tail_text_after:
  "tail_ok t \<Longrightarrow> tail_text (tail_after t bs) =
     drop (length (tail_text t @ bs) - 3) (tail_text t @ bs)"
  by (auto simp: tail_ok_def tail_text_def tail_after_def Let_def)

lemma previous_text:
  "tail_ok t \<Longrightarrow> 0 < d \<Longrightarrow>
     previous t d = Some (if d \<le> length (tail_text t) then Some (rev (tail_text t) ! (d - 1)) else None)"
  by (auto simp: previous_def tail_ok_def tail_text_def usub_def index_def rev_nth min_def)

text \<open>The classification as a function of the reversed text.\<close>

fun role :: "bytes \<Rightarrow> c1_ground_role" where
  "role [] = Csi8"
| "role (p # rest) =
     (if p = 0xc2 then Utf8Csi
      else if (0xc3 \<le> p \<and> p \<le> 0xdf) \<or> valid_first_continuation p 0x9b then Utf8Continuation
      else if 0x80 \<le> p \<and> p \<le> 0xbf then
        (case rest of
           [] \<Rightarrow> Csi8
         | s # rest' \<Rightarrow>
           if 0xe0 \<le> s \<and> s \<le> 0xef \<and> valid_first_continuation s p then Utf8Continuation
           else if 0xf0 \<le> s \<and> s \<le> 0xf4 \<and> valid_first_continuation s p then Utf8Continuation
           else (case rest' of
                   [] \<Rightarrow> Csi8
                 | th # _ \<Rightarrow>
                   if 0x80 \<le> s \<and> s \<le> 0xbf \<and> 0xf0 \<le> th \<and> th \<le> 0xf4 \<and>
                      valid_first_continuation th s
                   then Utf8Continuation else Csi8))
      else Csi8)"

lemma window_cases:
  obtains "w = []" | p where "w = [p]" | p s where "w = [p, s]" | p s th r where "w = p # s # th # r"
  by (metis list.exhaust)

lemma classify_role: "tail_ok t \<Longrightarrow> classify_ground_c1 t = Some (role (rev (tail_text t)))"
proof -
  assume t: "tail_ok t"
  obtain w where w: "rev (tail_text t) = w" by blast
  have len: "length (tail_text t) = length w" using w by auto
  show ?thesis
    unfolding classify_ground_c1_def previous_text [OF t zero_less_one]
      previous_text [OF t zero_less_numeral] w len
    by (cases w rule: window_cases) (simp_all, blast+)
qed

subsection \<open>The invariant\<close>

fun state_ok :: "live_state \<Rightarrow> bool" where
  "state_ok (Csi _ buf) \<longleftrightarrow> length buf \<le> MAX_CSI_BYTES"
| "state_ok (Osc buf) \<longleftrightarrow> length buf \<le> MAX_OSC_PAYLOAD_BYTES"
| "state_ok (OscEsc buf) \<longleftrightarrow> length buf \<le> MAX_OSC_PAYLOAD_BYTES"
| "state_ok (Apc buf) \<longleftrightarrow> length buf \<le> MAX_APC_PAYLOAD_BYTES"
| "state_ok (ApcEsc buf) \<longleftrightarrow> length buf \<le> MAX_APC_PAYLOAD_BYTES"
| "state_ok (Dcs buf) \<longleftrightarrow> length buf \<le> MAX_DCS_PAYLOAD_BYTES"
| "state_ok (DcsEsc buf) \<longleftrightarrow> length buf \<le> MAX_DCS_PAYLOAD_BYTES"
| "state_ok _ \<longleftrightarrow> True"

definition reporting_ok :: "live \<Rightarrow> bool" where
  "reporting_ok p \<longleftrightarrow>
     (c_mouse_reporting (l_config p) \<or> (l_mouse_tracking p = 0 \<and> l_mouse_encoding p = 0)) \<and>
     (c_focus_reporting (l_config p) \<or> \<not> l_focus_events p)"

definition live_ok :: "live \<Rightarrow> bool" where
  "live_ok p \<longleftrightarrow> tail_ok (l_tail p) \<and> state_ok (l_state p) \<and> reporting_ok p"

text \<open>Events that may be emitted: no activation of a mode that is configured off.\<close>

fun event_allowed :: "parser_config \<Rightarrow> parser_event \<Rightarrow> bool" where
  "event_allowed config (DecsetMode mode _) \<longleftrightarrow>
     \<not> suppressed config mode \<and> \<not> is_alt_screen_mode mode \<and> mode < 2 ^ 32"
| "event_allowed config _ \<longleftrightarrow> True"

definition run_ok :: "parser_config \<Rightarrow> run \<Rightarrow> bool" where
  "run_ok c r \<longleftrightarrow>
     live_ok (fst r) \<and> l_config (fst r) = c \<and> list_all (event_allowed c) (snd r)"

lemma update_one_mode:
  "n < 2 ^ 32 \<Longrightarrow> update_dec_private_modes p (dec n) enable = (apply_mode p n enable, [n])"
proof -
  assume n: "n < 2 ^ 32"
  have "0x3b \<notin> set (dec n)" "strip_prefix [0x3f] (dec n) = None"
    using dec_not_in [of n] by (cases "dec n"; auto simp: strip_prefix_def list_all_iff)+
  then show ?thesis
    using n by (simp add: update_dec_private_modes_def split_on_none update_mode_token_def
        from_utf8_dec parse_u32_dec)
qed

lemma private_modes_less: "private_modes params = Some ms \<Longrightarrow> list_all (\<lambda>m. m < 2 ^ 32) ms"
proof -
  assume "private_modes params = Some ms"
  then obtain ts where "mapM mode_token ts = Some ms"
    by (auto simp: private_modes_def Let_def split: option.splits)
  moreover have "n < 2 ^ 32" if "mode_token t = Some n" for t n
    using that sat_decimal_le [of "2 ^ 32 - 1" t] by (auto simp: mode_token_def split: if_splits)
  ultimately show ?thesis by (rule mapM_all)
qed

end
