(* ===== verification/Live_Invariant.thy ===== *)
theory Live_Invariant
  imports Live_Facts
begin

text \<open>
  Every step of the stream parser keeps the invariant of \<open>Live_Facts\<close>, and the loop of
  \<open>feed\<close>, which copies ground text in bulk, is the byte step run over the input.
\<close>

subsection \<open>The primitives\<close>

named_theorems live_intro

lemma run_ok_go [live_intro]: "run_ok c r \<Longrightarrow> state_ok st \<Longrightarrow> run_ok c (go st r)"
  by (cases r) (auto simp: run_ok_def live_ok_def go_def reporting_ok_def)

lemma run_ok_push_bytes [live_intro]: "run_ok c r \<Longrightarrow> run_ok c (push_bytes bs r)"
  by (cases r) (auto simp: run_ok_def live_ok_def push_bytes_def reporting_ok_def)

lemma run_ok_push_event [live_intro]:
  "run_ok c r \<Longrightarrow> event_allowed c ev \<Longrightarrow> run_ok c (push_event ev r)"
  by (cases r) (simp add: run_ok_def push_event_def)

lemma run_ok_push_events [live_intro]:
  "run_ok c r \<Longrightarrow> list_all (event_allowed c) evs \<Longrightarrow> run_ok c (push_events evs r)"
  by (cases r) (simp add: run_ok_def push_events_def)

lemma run_ok_flush [live_intro]: "run_ok c r \<Longrightarrow> run_ok c (flush r)"
  by (cases r) (auto simp: run_ok_def live_ok_def flush_def reporting_ok_def)

lemma run_ok_clear_tail [live_intro]: "run_ok c r \<Longrightarrow> run_ok c (clear_tail r)"
  by (cases r) (auto simp: run_ok_def live_ok_def clear_tail_def reporting_ok_def tail_clear_ok)

lemma run_ok_hard_reset [live_intro]: "run_ok c r \<Longrightarrow> run_ok c (hard_reset r)"
  using run_ok_flush [of c r]
  by (auto simp: run_ok_def live_ok_def hard_reset_def reporting_ok_def tail_clear_ok split: prod.split)

lemma run_ok_reprocess [live_intro]: "run_ok c r \<Longrightarrow> run_ok c (reprocess_escape_final b r)"
  by (simp add: reprocess_escape_final_def) (intro conjI impI live_intro; simp)

lemma run_ok_esc_byte [live_intro]: "run_ok c r \<Longrightarrow> run_ok c (esc_byte b r)"
  by (simp add: esc_byte_def) (intro conjI impI live_intro; simp)

lemma run_ok_cancel [live_intro]: "run_ok c r \<Longrightarrow> run_ok c (cancel b r)"
  by (cases r) (auto simp: cancel_def intro!: live_intro split: live_state.split)

lemma run_ok_finish_dcs [live_intro]: "run_ok c r \<Longrightarrow> run_ok c (finish_dcs payload r)"
  using run_ok_go [of c r Ground]
  by (auto simp: run_ok_def live_ok_def finish_dcs_def reporting_ok_def split: prod.split)

subsection \<open>Modes\<close>

lemma apply_mode_fields:
  "l_state (apply_mode p n e) = l_state p" "l_tail (apply_mode p n e) = l_tail p"
  "l_config (apply_mode p n e) = l_config p" "l_passthrough (apply_mode p n e) = l_passthrough p"
  by (simp_all add: apply_mode_def)

lemma apply_mode_reporting:
  "reporting_ok p \<Longrightarrow> \<not> suppressed (l_config p) n \<Longrightarrow> reporting_ok (apply_mode p n e)"
  by (auto simp: reporting_ok_def suppressed_def is_mouse_mode_def apply_mode_def)

lemma update_modes_one:
  "n < 2 ^ 32 \<Longrightarrow> update_modes (dec n) e (p, evs) = (apply_mode p n e, evs)"
  by (simp add: update_modes_def update_one_mode)

lemma run_ok_update_modes:
  "run_ok c r \<Longrightarrow> n < 2 ^ 32 \<Longrightarrow> \<not> suppressed c n \<Longrightarrow> run_ok c (update_modes (dec n) e r)"
  by (cases r)
    (auto simp: update_modes_one run_ok_def live_ok_def apply_mode_fields apply_mode_reporting)

lemma run_ok_intercepted [live_intro]:
  assumes "run_ok c r" and "m < 2 ^ 32"
  shows "run_ok c (intercepted_mode b r m)"
proof -
  have f: "run_ok c (flush r)" using assms(1) by (rule run_ok_flush)
  then have "l_config (fst (flush r)) = c" by (simp add: run_ok_def)
  then show ?thesis
    using f assms(2)
    by (auto simp: intercepted_mode_def Let_def intro!: live_intro run_ok_update_modes)
qed

lemma run_ok_ordinary:
  "run_ok c r \<Longrightarrow> m < 2 ^ 32 \<Longrightarrow> \<not> suppressed c m \<Longrightarrow> \<not> is_alt_screen_mode m \<Longrightarrow>
     run_ok c (ordinary_mode b r m)"
  by (auto simp: ordinary_mode_def intro!: live_intro run_ok_update_modes)

lemma foldl_keeps: "P r \<Longrightarrow> (\<And>r x. x \<in> set xs \<Longrightarrow> P r \<Longrightarrow> P (f r x)) \<Longrightarrow> P (foldl f r xs)"
  by (induction xs arbitrary: r) auto

subsection \<open>The end of a CSI\<close>

lemma handshake_allowed: "handshake b params = Some ev \<Longrightarrow> event_allowed c ev"
  by (auto simp: handshake_def Let_def split: if_splits prod.splits)

lemma intercepted_modes_less:
  "intercepted_modes c b params = Some ms \<Longrightarrow> list_all (\<lambda>m. m < 2 ^ 32) ms"
  using private_modes_less
  by (auto simp: intercepted_modes_def filter_option_def split: if_splits option.splits)

lemma not_intercepted:
  "intercepted_modes c b params = None \<Longrightarrow> b = 0x68 \<or> b = 0x6c \<Longrightarrow> private_modes params = Some ms \<Longrightarrow>
     list_all (\<lambda>m. \<not> is_alt_screen_mode m \<and> \<not> suppressed c m) ms"
  by (auto simp: intercepted_modes_def filter_option_def list_all_iff list_ex_iff split: if_splits)

lemma erase_event_allowed: "erase_event b params = Some ev \<Longrightarrow> event_allowed c ev"
  by (auto simp: erase_event_def split: if_splits)

lemma run_ok_csi_erase: "run_ok c r \<Longrightarrow> run_ok c (csi_erase b params sq r)"
  using erase_event_allowed [of b params]
  by (simp add: csi_erase_def run_ok_push_event run_ok_flush split: option.split)

lemma run_ok_csi_pass: "run_ok c r \<Longrightarrow> run_ok c (csi_pass b params sq r)"
  using handshake_allowed [of b params]
  by (simp add: csi_pass_def run_ok_push_bytes run_ok_push_event split: option.split)

lemma run_ok_csi_final [live_intro]:
  assumes "run_ok c r"
  shows "run_ok c (csi_final introducer params b r)"
proof -
  have g: "run_ok c (go Ground r)" using assms by (rule run_ok_go) simp
  then have config: "l_config (fst (go Ground r)) = c" by (simp add: run_ok_def)
  show ?thesis
  proof (cases "intercepted_modes c b params")
    case (Some modes)
    have "run_ok c (foldl (intercepted_mode b)
        (flush (push_bytes (filter (\<lambda>x. x < 0x20) params) (go Ground r))) modes)"
      using intercepted_modes_less [OF Some]
      by (intro foldl_keeps [where P = "run_ok c"] live_intro g) (auto simp: list_all_iff)
    then show ?thesis by (simp add: csi_final_def Let_def config Some)
  next
    case None
    define r2 where "r2 = csi_erase b params (introducer_bytes introducer @ params @ [b])
      (csi_modes b params (go Ground r))"
    have "run_ok c (csi_modes b params (go Ground r))"
      using g not_intercepted [OF None] private_modes_less [of params]
      by (auto simp: csi_modes_def list_all_iff intro!: foldl_keeps [where P = "run_ok c"]
          run_ok_ordinary split: option.split)
    then have r: "run_ok c r2" unfolding r2_def by (rule run_ok_csi_erase)
    show ?thesis
      unfolding csi_final_def Let_def config None option.case r2_def [symmetric]
      using r run_ok_flush [OF r] run_ok_csi_pass [OF r] by (simp add: run_ok_push_event)
  qed
qed

subsection \<open>Control strings\<close>

lemma color_loop_allowed:
  "list_all (event_allowed c) evs \<Longrightarrow> list_all (event_allowed c) (fst (color_loop ps s evs))"
  by (induction ps s evs rule: color_loop.induct) (auto simp: Let_def split: option.splits)

lemma color_resets_allowed: "list_all (event_allowed c) (color_resets s)"
  by (auto simp: color_resets_def)

lemma palette_query_allowed: "palette_query s = Some ev \<Longrightarrow> event_allowed c ev"
  by (auto simp: palette_query_def split: option.splits list.splits if_splits)

lemma clipboard_allowed: "clipboard s = Some evs \<Longrightarrow> list_all (event_allowed c) evs"
  by (auto simp: clipboard_def Let_def split: option.splits if_splits)

lemma handle_osc_colors_allowed: "list_all (event_allowed c) (handle_osc_colors s payload)"
  using color_loop_allowed [of c "[]" dynamic_colors s] color_resets_allowed [of c s]
    palette_query_allowed [of s _ c] clipboard_allowed [of s _ c]
  by (auto simp: handle_osc_colors_def Let_def split: prod.split bool.split option.split)

lemma notification_allowed: "notification invisible s = Some evs \<Longrightarrow> list_all (event_allowed c) evs"
  by (auto simp: notification_def Let_def split: option.splits prod.splits if_splits)

lemma handle_osc133_allowed: "list_all (event_allowed c) (handle_osc133 invisible rest)"
  by (auto simp: handle_osc133_def split: prod.split option.split)

lemma handle_osc_allowed: "list_all (event_allowed c) (handle_osc invisible payload)"
  using handle_osc133_allowed handle_osc_colors_allowed notification_allowed
  by (auto simp: handle_osc_def split: option.split)

lemma run_ok_finish_osc [live_intro]: "run_ok c r \<Longrightarrow> run_ok c (finish_osc invisible payload r)"
  unfolding finish_osc_def by (intro live_intro handle_osc_allowed) simp_all

lemma run_ok_strings [live_intro]:
  "run_ok c r \<Longrightarrow> state_ok (Csi introducer buf) \<Longrightarrow> run_ok c (csi_byte introducer buf b r)"
  "run_ok c r \<Longrightarrow> state_ok (Osc buf) \<Longrightarrow> run_ok c (osc_byte invisible buf b r)"
  "run_ok c r \<Longrightarrow> state_ok (Apc buf) \<Longrightarrow> run_ok c (apc_byte buf b r)"
  "run_ok c r \<Longrightarrow> state_ok (Dcs buf) \<Longrightarrow> run_ok c (dcs_byte buf b r)"
  unfolding csi_byte_def osc_byte_def apc_byte_def dcs_byte_def
  by (auto intro!: live_intro simp: not_le not_less)

subsection \<open>One byte\<close>

definition live_step :: "(u32 \<Rightarrow> bool) \<Rightarrow> run \<Rightarrow> u8 \<Rightarrow> run option" where
  "live_step invisible r b =
     (if l_state (fst r) = Ground then
        (if is_introducer b then ground_introducer b r else ground_plain [b] r)
      else step_byte invisible b r)"

lemma run_okD: "run_ok c r \<Longrightarrow> tail_ok (l_tail (fst r)) \<and> state_ok (l_state (fst r))"
  by (simp add: run_ok_def live_ok_def)

lemma ground_plain_eq:
  "tail_ok (l_tail p) \<Longrightarrow> ground_plain bs (p, evs) =
     Some (p\<lparr>l_passthrough := l_passthrough p @ bs, l_tail := tail_after (l_tail p) bs\<rparr>, evs)"
  by (simp add: ground_plain_def push_bytes_def tail_extend_after)

lemma ground_plain_ok: "run_ok c r \<Longrightarrow> runs (ground_plain bs r) (run_ok c)"
  by (cases r)
    (auto simp: run_ok_def live_ok_def ground_plain_eq tail_after_ok reporting_ok_def)

lemma ground_introducer_ok: "run_ok c r \<Longrightarrow> runs (ground_introducer b r) (run_ok c)"
proof -
  assume r: "run_ok c r"
  obtain p evs where p: "r = (p, evs)" by (cases r)
  have t: "tail_ok (l_tail p)" using run_okD [OF r] p by simp
  have popped: "run_ok c (p\<lparr>l_passthrough := butlast (l_passthrough p)\<rparr>, evs)"
    using r p by (auto simp: run_ok_def live_ok_def reporting_ok_def)
  show ?thesis
    using r popped ground_plain_ok [OF r, of "[0x9b]"] unfolding p
    by (auto simp: ground_introducer_def classify_role [OF t] intro!: live_intro
        split: c1_ground_role.split)
qed

lemma step_byte_ok:
  assumes "run_ok c r" and "l_state (fst r) \<noteq> Ground"
  shows "runs (step_byte invisible b r) (run_ok c)"
proof -
  have st: "state_ok (l_state (fst r))" using run_okD [OF assms(1)] by blast
  show ?thesis
    using assms(2) st
    by (cases "l_state (fst r)")
      (auto simp: step_byte_def intro!: live_intro assms(1))
qed

lemma live_step_ok: "run_ok c r \<Longrightarrow> runs (live_step invisible r b) (run_ok c)"
  by (simp add: live_step_def ground_introducer_ok ground_plain_ok step_byte_ok)

end
