(* ===== verification/Live_Properties.thy ===== *)
theory Live_Properties
  imports Live_Invariant
begin

text \<open>
  Sessions of the stream parser: any number of reads, fed one after the other.
\<close>

subsection \<open>The loop is the byte step\<close>

lemma foldM_bind: "foldM f s (x # xs) = Option.bind (f s x) (\<lambda>s'. foldM f s' xs)"
  by simp

lemma ground_plain_append:
  assumes "tail_ok (l_tail (fst r))"
  shows "ground_plain (xs @ ys) r = Option.bind (ground_plain xs r) (ground_plain ys)"
proof -
  obtain p evs where r: "r = (p, evs)" by (cases r)
  then show ?thesis
    using assms by (simp add: ground_plain_eq tail_after_append tail_after_ok)
qed

lemma ground_plain_state: "ground_plain xs r = Some r' \<Longrightarrow> l_state (fst r') = l_state (fst r)"
  by (cases r) (auto simp: ground_plain_def push_bytes_def bind_eq_Some_conv)

lemma ground_run:
  "run_ok c r \<Longrightarrow> l_state (fst r) = Ground \<Longrightarrow> list_all (\<lambda>b. \<not> is_introducer b) xs \<Longrightarrow> xs \<noteq> [] \<Longrightarrow>
     foldM (live_step invisible) r xs = ground_plain xs r"
proof (induction xs arbitrary: r)
  case Nil
  then show ?case by simp
next
  case (Cons x xs)
  have step: "live_step invisible r x = ground_plain [x] r" using Cons.prems by (simp add: live_step_def)
  obtain r' where r': "ground_plain [x] r = Some r'" "run_ok c r'"
    using ground_plain_ok [OF Cons.prems(1), of "[x]"] by (auto simp: runs_def)
  show ?case
  proof (cases "xs = []")
    case True
    then show ?thesis using step r' by simp
  next
    case False
    have "foldM (live_step invisible) r' xs = ground_plain xs r'"
      using Cons.IH [OF r'(2)] ground_plain_state [OF r'(1)] Cons.prems False by simp
    then show ?thesis
      using step r' ground_plain_append [of r "[x]" xs] run_okD [OF Cons.prems(1)] by simp
  qed
qed

lemma before_introducer:
  assumes "position is_introducer data = Some off"
  shows "data = take off data @ data ! off # drop (off + 1) data" "off < length data"
    "list_all (\<lambda>b. \<not> is_introducer b) (take off data)" "is_introducer (data ! off)"
proof -
  show len: "off < length data" and "is_introducer (data ! off)"
    using position_Some [OF assms] by blast+
  then show "data = take off data @ data ! off # drop (off + 1) data"
    by (simp add: id_take_nth_drop)
  show "list_all (\<lambda>b. \<not> is_introducer b) (take off data)"
    using position_first [OF assms] len by (auto simp: list_all_length)
qed

lemma feed_loop_steps:
  "run_ok c r \<Longrightarrow> feed_loop invisible r data = foldM (live_step invisible) r data"
proof (induction invisible r data rule: feed_loop.induct)
  case (1 invisible r data)
  show ?case
  proof (cases "data = []")
    case True
    then show ?thesis by (subst feed_loop.simps) simp
  next
    case data: False
    show ?thesis
    proof (cases "l_state (fst r) = Ground")
      case ground: True
      show ?thesis
      proof (cases "position is_introducer data")
        case None
        then have "list_all (\<lambda>b. \<not> is_introducer b) data"
          by (auto simp: position_None list_all_iff)
        then show ?thesis
          using None data ground ground_run [OF 1(3) ground]
          by (subst feed_loop.simps) simp
      next
        case (Some off)
        note b = before_introducer [OF Some]
        let ?r1 = "if 0 < off then ground_plain (take off data) r else Some r"
        obtain r1 where r1: "?r1 = Some r1" "run_ok c r1" "l_state (fst r1) = Ground"
          using ground_plain_ok [OF 1(3), of "take off data"] 1(3) ground ground_plain_state
          by (cases "0 < off") (auto simp: runs_def)
        have plain: "foldM (live_step invisible) r (take off data) = Some r1"
          using r1(1) ground_run [OF 1(3) ground b(3), of invisible] b(2) data by (cases "0 < off") auto
        obtain r2 where r2: "ground_introducer (data ! off) r1 = Some r2" "run_ok c r2"
          using ground_introducer_ok [OF r1(2), of "data ! off"] by (auto simp: runs_def)
        have "live_step invisible r1 (data ! off) = Some r2"
          using r1(3) r2(1) b(4) by (simp add: live_step_def)
        then have "foldM (live_step invisible) r data =
            foldM (live_step invisible) r2 (drop (off + 1) data)"
          by (subst b(1)) (simp add: foldM_append plain)
        moreover have "feed_loop invisible r2 (drop (off + 1) data) =
            foldM (live_step invisible) r2 (drop (off + 1) data)"
          using 1(1) [OF data ground Some, of "take off data" r1 "data ! off" r2] r1(1) r2 b(2)
          by (simp add: slice_def index_def)
        ultimately show ?thesis
          using data ground Some r1(1) r2(1) b(2)
          by (subst feed_loop.simps) (simp add: slice_def index_def)
      qed
    next
      case ground: False
      obtain b rest where d: "data = b # rest" using data by (cases data) auto
      obtain r1 where r1: "step_byte invisible b r = Some r1" "run_ok c r1"
        using step_byte_ok [OF 1(3) ground, of invisible b] by (auto simp: runs_def)
      have "live_step invisible r b = Some r1" using ground r1(1) by (simp add: live_step_def)
      then show ?thesis
        using 1(2) [OF data ground, of b r1] r1 d ground
        by (subst feed_loop.simps) (simp add: index_def)
    qed
  qed
qed

subsection \<open>Sessions\<close>

text \<open>Reads fed one after the other into the same list of events.\<close>

definition live_feeds :: "(u32 \<Rightarrow> bool) \<Rightarrow> parser_config \<Rightarrow> bytes list \<Rightarrow> run option" where
  "live_feeds invisible config reads =
     foldM (\<lambda>(p, evs) data. live_feed invisible p data evs) (with_config config, []) reads"

lemma run_ok_new: "run_ok c (with_config c, [])"
  by (simp add: run_ok_def live_ok_def with_config_def tail_default_ok reporting_ok_def)

lemma live_steps_ok: "run_ok c r \<Longrightarrow> runs (foldM (live_step invisible) r data) (run_ok c)"
  by (rule runs_foldM) (auto intro: live_step_ok)

lemma run_ok_drop_pending: "run_ok c (p, evs) \<Longrightarrow> run_ok c (p\<lparr>l_passthrough := bs\<rparr>, evs)"
  by (auto simp: run_ok_def live_ok_def reporting_ok_def)

lemma live_feed_ok: "run_ok c (p, evs) \<Longrightarrow> runs (live_feed invisible p data evs) (run_ok c)"
proof -
  assume "run_ok c (p, evs)"
  then have r: "run_ok c (p\<lparr>l_passthrough := []\<rparr>, evs)" by (rule run_ok_drop_pending)
  have "runs (feed_loop invisible (p\<lparr>l_passthrough := []\<rparr>, evs) data) (run_ok c)"
    unfolding feed_loop_steps [OF r] by (rule live_steps_ok [OF r])
  then show ?thesis by (simp add: live_feed_def) (erule runs_mono, rule run_ok_flush)
qed

lemma live_feeds_ok: "runs (live_feeds invisible c reads) (run_ok c)"
  unfolding live_feeds_def by (rule runs_foldM [where P = "run_ok c"]) (auto intro: live_feed_ok run_ok_new)

text \<open>
  C35: No input makes the stream parser of a live terminal panic, however it is cut into reads and
  whatever its configuration; and its memory is bounded: a CSI, OSC, APC or DCS under way keeps
  at most four kilobytes, one, sixteen and one megabyte.
\<close>

theorem live_session_total:
  "runs (live_feeds invisible c reads) (\<lambda>(p, evs).
     (case l_state p of
        Csi _ buf \<Rightarrow> length buf \<le> MAX_CSI_BYTES
      | Osc buf \<Rightarrow> length buf \<le> MAX_OSC_PAYLOAD_BYTES
      | OscEsc buf \<Rightarrow> length buf \<le> MAX_OSC_PAYLOAD_BYTES
      | Apc buf \<Rightarrow> length buf \<le> MAX_APC_PAYLOAD_BYTES
      | ApcEsc buf \<Rightarrow> length buf \<le> MAX_APC_PAYLOAD_BYTES
      | Dcs buf \<Rightarrow> length buf \<le> MAX_DCS_PAYLOAD_BYTES
      | DcsEsc buf \<Rightarrow> length buf \<le> MAX_DCS_PAYLOAD_BYTES
      | _ \<Rightarrow> True))"
proof (rule runs_mono [OF live_feeds_ok])
  fix r
  assume "run_ok c r"
  then have "state_ok (l_state (fst r))" by (simp add: run_ok_def live_ok_def)
  then show "case r of (p, evs) \<Rightarrow> (case l_state p of
        Csi _ buf \<Rightarrow> length buf \<le> MAX_CSI_BYTES
      | Osc buf \<Rightarrow> length buf \<le> MAX_OSC_PAYLOAD_BYTES
      | OscEsc buf \<Rightarrow> length buf \<le> MAX_OSC_PAYLOAD_BYTES
      | Apc buf \<Rightarrow> length buf \<le> MAX_APC_PAYLOAD_BYTES
      | ApcEsc buf \<Rightarrow> length buf \<le> MAX_APC_PAYLOAD_BYTES
      | Dcs buf \<Rightarrow> length buf \<le> MAX_DCS_PAYLOAD_BYTES
      | DcsEsc buf \<Rightarrow> length buf \<le> MAX_DCS_PAYLOAD_BYTES
      | _ \<Rightarrow> True)"
    by (cases "l_state (fst r)"; cases r) simp_all
qed

text \<open>
  C36: Reporting that the configuration turns off stays off, whatever the program writes: with mouse
  reporting off the parser never tracks a mouse mode or encoding and announces none, and with focus
  reporting off it never tracks or announces focus events; and no announced mode is a switch of
  the alternate screen, which the host performs itself.
\<close>

theorem disabled_reporting_stays_off:
  "runs (live_feeds invisible c reads) (\<lambda>(p, evs).
     (c_mouse_reporting c \<or> (mouse_mode p = MouseNone \<and> mouse_encoding p = DefaultEncoding)) \<and>
     (c_focus_reporting c \<or> \<not> l_focus_events p) \<and>
     list_all (\<lambda>ev. case ev of
        DecsetMode mode _ \<Rightarrow> (c_mouse_reporting c \<or> \<not> is_mouse_mode mode) \<and>
          (c_focus_reporting c \<or> mode \<noteq> 1004) \<and> \<not> is_alt_screen_mode mode
      | _ \<Rightarrow> True) evs)"
proof (rule runs_mono [OF live_feeds_ok], clarify)
  fix p evs
  assume ok: "run_ok c (p, evs)"
  have "list_all (event_allowed c) evs" using ok by (simp add: run_ok_def)
  then have "list_all (\<lambda>ev. case ev of
        DecsetMode mode _ \<Rightarrow> (c_mouse_reporting c \<or> \<not> is_mouse_mode mode) \<and>
          (c_focus_reporting c \<or> mode \<noteq> 1004) \<and> \<not> is_alt_screen_mode mode
      | _ \<Rightarrow> True) evs"
    by (rule list.pred_mono_strong) (auto simp: suppressed_def split: parser_event.split)
  then show "(c_mouse_reporting c \<or> (mouse_mode p = MouseNone \<and> mouse_encoding p = DefaultEncoding)) \<and>
     (c_focus_reporting c \<or> \<not> l_focus_events p) \<and>
     list_all (\<lambda>ev. case ev of
        DecsetMode mode _ \<Rightarrow> (c_mouse_reporting c \<or> \<not> is_mouse_mode mode) \<and>
          (c_focus_reporting c \<or> mode \<noteq> 1004) \<and> \<not> is_alt_screen_mode mode
      | _ \<Rightarrow> True) evs"
    using ok by (auto simp: run_ok_def live_ok_def reporting_ok_def mouse_mode_def mouse_encoding_def)
qed

lemma disabled_reporting_stays_off_witness:
  "runs (live_feeds (\<lambda>_. False) \<lparr>c_mouse_reporting = False, c_focus_reporting = False\<rparr>
       [[0x1b, 0x5b, 0x3f, 0x31, 0x30], [0x30, 0x30, 0x68]])
     (\<lambda>(p, evs). mouse_mode p = MouseNone \<and> \<not> l_focus_events p)"
  using disabled_reporting_stays_off [of "\<lambda>_. False"
      "\<lparr>c_mouse_reporting = False, c_focus_reporting = False\<rparr>"
      "[[0x1b, 0x5b, 0x3f, 0x31, 0x30], [0x30, 0x30, 0x68]]"]
  by (rule runs_mono) auto

end
