(* ===== verification/Live_Chunk_Facts.thy ===== *)
theory Live_Chunk_Facts
  imports Live_Properties
begin

text \<open>
  What a flush, which ends every read, can change: nothing but where the display bytes are cut.
  Two runs are related when they agree on the semantic events and on the state up to the spelling
  of a CSI introducer, and, where no UTF-8 encoded CSI is split between reads, also on the display
  bytes and on their place among the events that the parser emits in order.
\<close>

subsection \<open>Traces\<close>

text \<open>Events of a mode or a handshake are emitted ahead of display bytes that are still pending.\<close>

fun early :: "parser_event \<Rightarrow> bool" where
  "early (DecsetMode _ _) \<longleftrightarrow> True"
| "early (KeyboardProtocolQuery _) \<longleftrightarrow> True"
| "early (KittyKeyboard _) \<longleftrightarrow> True"
| "early _ \<longleftrightarrow> False"

datatype atom = Display u8 | Event parser_event

fun event_atoms :: "parser_event \<Rightarrow> atom list" where
  "event_atoms (Bytes bs) = map Display bs"
| "event_atoms ev = (if early ev then [] else [Event ev])"

fun is_semantic :: "parser_event \<Rightarrow> bool" where
  "is_semantic (Bytes _) \<longleftrightarrow> False"
| "is_semantic _ \<longleftrightarrow> True"

definition semantic :: "parser_event list \<Rightarrow> parser_event list" where
  "semantic evs = filter is_semantic evs"

definition in_order :: "parser_event list \<Rightarrow> atom list" where
  "in_order evs = concat (map event_atoms evs)"

definition run_trace :: "run \<Rightarrow> atom list" where
  "run_trace r = in_order (snd r) @ map Display (l_passthrough (fst r))"

fun blind :: "live_state \<Rightarrow> live_state" where
  "blind (Csi _ buf) = Csi C1 buf"
| "blind st = st"

definition core :: "live \<Rightarrow> live" where
  "core p = p\<lparr>l_passthrough := [], l_state := blind (l_state p)\<rparr>"

definition alike :: "bool \<Rightarrow> run \<Rightarrow> run \<Rightarrow> bool" where
  "alike exact r s \<longleftrightarrow> core (fst r) = core (fst s) \<and> semantic (snd r) = semantic (snd s) \<and>
     (exact \<longrightarrow> l_state (fst r) = l_state (fst s) \<and> run_trace r = run_trace s)"

lemma in_order_simps [simp]:
  "in_order [] = []" "in_order (e # evs) = event_atoms e @ in_order evs"
  "in_order (xs @ ys) = in_order xs @ in_order ys"
  by (simp_all add: in_order_def)

lemma semantic_simps [simp]:
  "semantic [] = []" "semantic (xs @ ys) = semantic xs @ semantic ys"
  "semantic [Bytes bs] = []"
  by (simp_all add: semantic_def)

lemma early_atoms [simp]: "early ev \<Longrightarrow> event_atoms ev = []"
  by (cases ev) auto

lemma core_iff:
  "core p = core q \<longleftrightarrow> l_tail p = l_tail q \<and> l_config p = l_config q \<and>
     l_bracketed_paste p = l_bracketed_paste q \<and> l_mouse_tracking p = l_mouse_tracking q \<and>
     l_mouse_encoding p = l_mouse_encoding q \<and> l_focus_events p = l_focus_events q \<and>
     blind (l_state p) = blind (l_state q)"
  by (cases p; cases q) (auto simp: core_def)

subsection \<open>The primitives keep runs alike\<close>

named_theorems alike_intro

lemma alike_refl: "alike x r r"
  by (simp add: alike_def)

lemma alike_weaken: "alike x r s \<Longrightarrow> alike False r s"
  by (simp add: alike_def)

lemma alike_go [alike_intro]: "alike x r s \<Longrightarrow> alike x (go st r) (go st s)"
  by (cases r; cases s) (auto simp: alike_def go_def core_iff run_trace_def)

lemma alike_go_csi:
  "alike x r s \<Longrightarrow> (x \<longrightarrow> i = j) \<Longrightarrow> alike x (go (Csi i buf) r) (go (Csi j buf) s)"
  by (cases r; cases s) (auto simp: alike_def go_def core_iff run_trace_def)

lemma alike_push_bytes [alike_intro]:
  "alike x r s \<Longrightarrow> (x \<longrightarrow> bs = bs') \<Longrightarrow> alike x (push_bytes bs r) (push_bytes bs' s)"
  by (cases r; cases s) (auto simp: alike_def push_bytes_def core_iff run_trace_def)

lemma flush_pending [simp]: "l_passthrough (fst (flush r)) = []"
  by (cases r) (simp add: flush_def)

lemma flush_alike: "alike x (flush r) r"
  by (cases r) (auto simp: alike_def flush_def core_iff run_trace_def)

lemma alike_sym: "alike x r s \<Longrightarrow> alike x s r"
  by (auto simp: alike_def)

lemma alike_trans: "alike x r s \<Longrightarrow> alike x s t \<Longrightarrow> alike x r t"
  by (auto simp: alike_def)

lemma alike_flush [alike_intro]: "alike x r s \<Longrightarrow> alike x (flush r) (flush s)"
  by (meson alike_sym alike_trans flush_alike)

lemma alike_push_early [alike_intro]:
  "alike x r s \<Longrightarrow> early ev \<Longrightarrow> alike x (push_event ev r) (push_event ev s)"
  by (cases r; cases s) (auto simp: alike_def push_event_def core_iff run_trace_def)

lemma alike_push_events:
  "alike x r s \<Longrightarrow> l_passthrough (fst r) = [] \<Longrightarrow> l_passthrough (fst s) = [] \<Longrightarrow>
     alike x (push_events evs r) (push_events evs s)"
  by (cases r; cases s) (auto simp: alike_def push_events_def core_iff run_trace_def)

lemma push_event_events: "push_event ev r = push_events [ev] r"
  by (cases r) (simp add: push_event_def push_events_def)

lemma push_events_pending [simp]: "l_passthrough (fst (push_events evs r)) = l_passthrough (fst r)"
  by (cases r) (simp add: push_events_def)

lemma alike_flushed [alike_intro]:
  "alike x r s \<Longrightarrow> alike x (push_events evs (flush r)) (push_events evs (flush s))"
  by (intro alike_push_events alike_flush) simp_all

lemma alike_flushed_event [alike_intro]:
  "alike x r s \<Longrightarrow> alike x (push_event ev (flush r)) (push_event ev (flush s))"
  unfolding push_event_events by (rule alike_flushed)

lemma alike_clear_tail [alike_intro]: "alike x r s \<Longrightarrow> alike x (clear_tail r) (clear_tail s)"
  by (cases r; cases s) (auto simp: alike_def clear_tail_def core_iff run_trace_def)

lemma alike_hard_reset [alike_intro]: "alike x r s \<Longrightarrow> alike x (hard_reset r) (hard_reset s)"
proof -
  assume "alike x r s"
  then have f: "alike x (flush r) (flush s)" by (rule alike_flush)
  show ?thesis
    using f flush_pending [of r] flush_pending [of s] unfolding hard_reset_def
    by (cases "flush r"; cases "flush s") (auto simp: alike_def core_iff run_trace_def)
qed

lemma alike_update_modes [alike_intro]:
  assumes "alike x r s" and "n < 2 ^ 32"
  shows "alike x (update_modes (dec n) e r) (update_modes (dec n) e s)"
proof -
  obtain p evs q evs' where rs: "r = (p, evs)" "s = (q, evs')" by (cases r; cases s)
  have "core (apply_mode p n e) = core (apply_mode q n e)" if "core p = core q"
    using that unfolding core_iff apply_mode_def by simp
  then show ?thesis
    using assms rs
    by (auto simp: alike_def update_modes_one run_trace_def apply_mode_fields)
qed

lemma alike_ground_plain:
  assumes "alike x r s" and "run_ok c r"
  shows "rel_option (alike x) (ground_plain bs r) (ground_plain bs s)"
proof -
  obtain p evs q evs' where rs: "r = (p, evs)" "s = (q, evs')" by (cases r; cases s)
  have t: "tail_ok (l_tail p)" "l_tail q = l_tail p"
    using run_okD [OF assms(2)] assms(1) rs by (auto simp: alike_def core_iff)
  have "tail_ok (l_tail q)" using t by simp
  then show ?thesis
    using assms(1) t unfolding rs ground_plain_eq [OF t(1)] ground_plain_eq [OF \<open>tail_ok (l_tail q)\<close>]
    by (auto simp: alike_def core_iff run_trace_def)
qed

subsection \<open>Every byte keeps runs alike\<close>

lemma alike_config: "alike x r s \<Longrightarrow> l_config (fst r) = l_config (fst s)"
  by (simp add: alike_def core_iff)

lemma alike_reprocess [alike_intro]:
  "alike x r s \<Longrightarrow> alike x (reprocess_escape_final b r) (reprocess_escape_final b s)"
  by (auto simp: reprocess_escape_final_def intro!: alike_intro)

lemma alike_esc_byte [alike_intro]: "alike x r s \<Longrightarrow> alike x (esc_byte b r) (esc_byte b s)"
  by (auto simp: esc_byte_def intro!: alike_intro)

lemma alike_intercepted [alike_intro]:
  assumes "alike x r s" and "m < 2 ^ 32"
  shows "alike x (intercepted_mode b r m) (intercepted_mode b s m)"
proof -
  have f: "alike x (flush r) (flush s)" using assms(1) by (rule alike_flush)
  have "l_config (fst (flush r)) = l_config (fst (flush s))" using f by (rule alike_config)
  then show ?thesis
    using assms f
    by (auto simp: intercepted_mode_def Let_def intro!: alike_intro)
qed

lemma alike_ordinary [alike_intro]:
  "alike x r s \<Longrightarrow> m < 2 ^ 32 \<Longrightarrow> alike x (ordinary_mode b r m) (ordinary_mode b s m)"
  by (auto simp: ordinary_mode_def intro!: alike_intro)

lemma alike_foldl:
  "alike x r s \<Longrightarrow> (\<And>r s m. m \<in> set ms \<Longrightarrow> alike x r s \<Longrightarrow> alike x (f r m) (f s m)) \<Longrightarrow>
     alike x (foldl f r ms) (foldl f s ms)"
  by (induction ms arbitrary: r s) auto

lemma handshake_early: "handshake b params = Some ev \<Longrightarrow> early ev"
  by (auto simp: handshake_def Let_def split: if_splits prod.splits)

lemma alike_csi_modes: "alike x r s \<Longrightarrow> alike x (csi_modes b params r) (csi_modes b params s)"
  using private_modes_less [of params]
  by (auto simp: csi_modes_def list_all_iff intro!: alike_foldl alike_intro split: option.split)

lemma alike_csi_erase:
  assumes "alike x r s" and "x \<longrightarrow> sq = sq'"
  shows "alike x (csi_erase b params sq r) (csi_erase b params sq' s)"
proof (cases "erase_event b params")
  case None
  then show ?thesis using assms by (simp add: csi_erase_def)
next
  case (Some ev)
  have e: "alike x (push_event ev (flush r)) (push_event ev (flush s))"
    using assms(1) by (rule alike_flushed_event)
  have "l_passthrough (fst (push_event ev (flush r))) = []"
    "l_passthrough (fst (push_event ev (flush s))) = []"
    by (simp_all add: push_event_events)
  then show ?thesis
    using e assms(2) Some
    by (cases "push_event ev (flush r)"; cases "push_event ev (flush s)")
      (auto simp: csi_erase_def alike_def push_event_def run_trace_def)
qed

lemma alike_csi_pass:
  "alike x r s \<Longrightarrow> (x \<longrightarrow> sq = sq') \<Longrightarrow> alike x (csi_pass b params sq r) (csi_pass b params sq' s)"
  using handshake_early [of b params]
  by (auto simp: csi_pass_def intro!: alike_intro split: option.split)

lemma alike_if:
  "alike x a a' \<Longrightarrow> alike x b b' \<Longrightarrow> alike x (if t then a else b) (if t then a' else b')"
  by simp

lemma alike_csi_final:
  assumes "alike x r s" and ij: "x \<longrightarrow> i = j"
  shows "alike x (csi_final i params b r) (csi_final j params b s)"
proof -
  define c where "c = l_config (fst (go Ground s))"
  have g: "alike x (go Ground r) (go Ground s)" using assms(1) by (rule alike_go)
  then have config: "l_config (fst (go Ground r)) = c"
    unfolding c_def by (rule alike_config)
  show ?thesis
  proof (cases "intercepted_modes c b params")
    case (Some modes)
    have "alike x (foldl (intercepted_mode b)
          (flush (push_bytes (filter (\<lambda>x. x < 0x20) params) (go Ground r))) modes)
        (foldl (intercepted_mode b)
          (flush (push_bytes (filter (\<lambda>x. x < 0x20) params) (go Ground s))) modes)"
      using intercepted_modes_less [OF Some] assms(1)
      by (intro alike_foldl alike_intro) (auto simp: list_all_iff intro: alike_intro)
    then show ?thesis by (simp add: csi_final_def Let_def config c_def [symmetric] Some)
  next
    case None
    define r2 where "r2 = csi_erase b params (introducer_bytes i @ params @ [b])
      (csi_modes b params (go Ground r))"
    define s2 where "s2 = csi_erase b params (introducer_bytes j @ params @ [b])
      (csi_modes b params (go Ground s))"
    have e: "alike x r2 s2"
      unfolding r2_def s2_def using ij by (intro alike_csi_erase alike_csi_modes g) simp
    have p: "alike x (csi_pass b params (introducer_bytes i @ params @ [b]) r2)
        (csi_pass b params (introducer_bytes j @ params @ [b]) s2)"
      using ij by (intro alike_csi_pass e) simp
    show ?thesis
      unfolding csi_final_def Let_def config c_def [symmetric] None option.case
        r2_def [symmetric] s2_def [symmetric]
      by (intro alike_if e p alike_flushed_event)
  qed
qed

lemma alike_csi_byte:
  assumes "alike x r s" and "x \<longrightarrow> i = j"
  shows "alike x (csi_byte i buf b r) (csi_byte j buf b s)"
  unfolding csi_byte_def
  using assms alike_csi_final [OF assms] alike_go_csi [OF assms]
  by (simp add: alike_go alike_push_bytes)

lemma alike_strings [alike_intro]:
  "alike x r s \<Longrightarrow> alike x (finish_osc invisible payload r) (finish_osc invisible payload s)"
  "alike x r s \<Longrightarrow> alike x (osc_byte invisible buf b r) (osc_byte invisible buf b s)"
  "alike x r s \<Longrightarrow> alike x (apc_byte buf b r) (apc_byte buf b s)"
  "alike x r s \<Longrightarrow> alike x (dcs_byte buf b r) (dcs_byte buf b s)"
  by (auto simp: finish_osc_def osc_byte_def apc_byte_def dcs_byte_def intro!: alike_intro)

lemma finish_dcs_bytes:
  "finish_dcs payload r = push_bytes ([0x1b, 0x50] @ payload @ [0x1b, 0x5c]) (go Ground r)"
  by (cases r) (simp add: finish_dcs_def push_bytes_def go_def emit_dcs_passthrough_def)

lemma alike_finish_dcs [alike_intro]:
  "alike x r s \<Longrightarrow> alike x (finish_dcs payload r) (finish_dcs payload s)"
  unfolding finish_dcs_bytes by (intro alike_intro) simp_all

lemma blind_eq:
  "blind st = blind st' \<Longrightarrow>
     st = st' \<or> (\<exists>i j buf. st = Csi i buf \<and> st' = Csi j buf)"
  by (cases st; cases st') auto

lemma alike_cancel: "alike x r s \<Longrightarrow> alike x (cancel b r) (cancel b s)"
proof -
  assume a: "alike x r s"
  obtain p evs q evs' where rs: "r = (p, evs)" "s = (q, evs')" by (cases r; cases s)
  have st: "blind (l_state p) = blind (l_state q)" "x \<longrightarrow> l_state p = l_state q"
    using a rs by (auto simp: alike_def core_iff)
  have b: "alike x (go Ground (push_bytes bs r)) (go Ground (push_bytes bs' s))"
    if "x \<longrightarrow> bs = bs'" for bs bs'
    using that a by (intro alike_intro)
  show ?thesis
    using blind_eq [OF st(1)]
  proof
    assume "l_state p = l_state q"
    then show ?thesis
      using b alike_go [OF a] unfolding rs by (auto simp: cancel_def split: live_state.split)
  next
    assume "\<exists>i j buf. l_state p = Csi i buf \<and> l_state q = Csi j buf"
    then obtain i j buf where c: "l_state p = Csi i buf" "l_state q = Csi j buf" by blast
    then show ?thesis
      using b [of "introducer_bytes i @ buf @ [b]" "introducer_bytes j @ buf @ [b]"] st(2)
      unfolding rs by (auto simp: cancel_def)
  qed
qed

lemma alike_step_byte:
  assumes a: "alike x r s" and ground: "l_state (fst r) \<noteq> Ground"
  shows "rel_option (alike x) (step_byte invisible b r) (step_byte invisible b s)"
proof (cases "b = 0x18 \<or> b = 0x1a")
  case True
  then show ?thesis using alike_cancel [OF a] by (auto simp: step_byte_def)
next
  case False
  have st: "blind (l_state (fst r)) = blind (l_state (fst s))"
    "x \<longrightarrow> l_state (fst r) = l_state (fst s)"
    using a by (auto simp: alike_def core_iff)
  show ?thesis
    using blind_eq [OF st(1)]
  proof
    assume eq: "l_state (fst r) = l_state (fst s)"
    show ?thesis
      using a ground False eq alike_csi_byte [OF a]
      by (cases "l_state (fst s)")
        (auto simp: step_byte_def intro!: alike_intro)
  next
    assume "\<exists>i j buf. l_state (fst r) = Csi i buf \<and> l_state (fst s) = Csi j buf"
    then obtain i j buf where "l_state (fst r) = Csi i buf" "l_state (fst s) = Csi j buf" by blast
    then show ?thesis
      using alike_csi_byte [OF a, of i j buf b] st(2) False by (auto simp: step_byte_def)
  qed
qed

text \<open>
  In the ground state the two runs differ when a CSI encoded in UTF-8 is split: its first byte is
  then display text already.
\<close>

lemma alike_ground_introducer:
  assumes a: "alike x r s" and ok: "run_ok c r"
    and split: "x \<longrightarrow> b = 0x1b \<or> role (rev (tail_text (l_tail (fst r)))) \<noteq> Utf8Csi"
  shows "rel_option (alike x) (ground_introducer b r) (ground_introducer b s)"
proof (cases "b = 0x1b")
  case True
  then show ?thesis
    using a by (cases r; cases s) (auto simp: ground_introducer_def intro!: alike_intro)
next
  case False
  obtain p evs q evs' where rs: "r = (p, evs)" "s = (q, evs')" by (cases r; cases s)
  have t: "tail_ok (l_tail p)" "l_tail q = l_tail p"
    using run_okD [OF ok] a rs by (auto simp: alike_def core_iff)
  have c: "alike x (go (Csi i []) (clear_tail r)) (go (Csi j []) (clear_tail s))" if "x \<longrightarrow> i = j" for i j
    using that a by (intro alike_go_csi alike_clear_tail)
  have pop: "alike False (u\<lparr>l_passthrough := bs\<rparr>, es) (u', es')" "alike False (u, es) (u'\<lparr>l_passthrough := bs\<rparr>, es')"
    if "alike False (u, es) (u', es')" for u u' es es' bs
    using that by (auto simp: alike_def core_iff)
  show ?thesis
  proof (cases "role (rev (tail_text (l_tail p)))")
    case Utf8Csi
    then have x: "x = False" using split False rs by auto
    let ?pop = "\<lambda>p. p\<lparr>l_passthrough := butlast (l_passthrough p)\<rparr>"
    have "alike False (u, evs) (u', evs')" if "u = p \<or> u = ?pop p" "u' = q \<or> u' = ?pop q" for u u'
      using that a x rs by (auto intro: pop)
    then have "alike False (go (Csi i []) (clear_tail (u, evs))) (go (Csi j []) (clear_tail (u', evs')))"
      if "u = p \<or> u = ?pop p" "u' = q \<or> u' = ?pop q" for u u' i j
      using that by (intro alike_go_csi alike_clear_tail) simp_all
    then show ?thesis
      using False Utf8Csi x t unfolding rs
      by (simp add: ground_introducer_def classify_role)
  next
    case Utf8Continuation
    then show ?thesis
      using False t alike_ground_plain [OF a ok, of "[0x9b]"] unfolding rs
      by (simp add: ground_introducer_def classify_role)
  next
    case Csi8
    then show ?thesis
      using False t c unfolding rs by (simp add: ground_introducer_def classify_role)
  qed
qed

lemma alike_step:
  assumes a: "alike x r s" and ok: "run_ok c r"
    and split: "x \<longrightarrow> l_state (fst r) = Ground \<longrightarrow> b = 0x9b \<longrightarrow>
      role (rev (tail_text (l_tail (fst r)))) \<noteq> Utf8Csi"
  shows "rel_option (alike x) (live_step invisible r b) (live_step invisible s b)"
proof -
  have st: "blind (l_state (fst r)) = blind (l_state (fst s))"
    using a by (auto simp: alike_def core_iff)
  then have ground: "l_state (fst r) = Ground \<longleftrightarrow> l_state (fst s) = Ground"
    by (cases "l_state (fst r)"; cases "l_state (fst s)") auto
  show ?thesis
    using ground split alike_ground_introducer [OF a ok, of b] alike_ground_plain [OF a ok, of "[b]"]
      alike_step_byte [OF a, of invisible b]
    by (auto simp: live_step_def is_introducer_def)
qed

subsection \<open>The window is the text just read\<close>

text \<open>Outside the ground state the window is empty; in it, its last byte is the last byte read.\<close>

definition window :: "u8 option \<Rightarrow> run \<Rightarrow> bool" where
  "window prev r \<longleftrightarrow> tail_text (l_tail (fst r)) = [] \<or>
     (l_state (fst r) = Ground \<and> prev = Some (last (tail_text (l_tail (fst r)))))"

definition no_window :: "run \<Rightarrow> bool" where
  "no_window r \<longleftrightarrow> tail_text (l_tail (fst r)) = []"

named_theorems window_intro

lemma no_window_basic [window_intro]:
  "no_window r \<Longrightarrow> no_window (go st r)" "no_window r \<Longrightarrow> no_window (push_bytes bs r)"
  "no_window r \<Longrightarrow> no_window (push_event ev r)" "no_window r \<Longrightarrow> no_window (push_events evs r)"
  "no_window r \<Longrightarrow> no_window (flush r)" "no_window (clear_tail r)" "no_window (hard_reset r)"
  by (cases r; simp add: no_window_def go_def push_bytes_def push_event_def push_events_def flush_def
      clear_tail_def hard_reset_def split: prod.split)+

lemma no_window_update [window_intro]:
  "no_window r \<Longrightarrow> n < 2 ^ 32 \<Longrightarrow> no_window (update_modes (dec n) e r)"
  by (cases r) (simp add: no_window_def update_modes_one apply_mode_fields)

lemma no_window_modes [window_intro]:
  "no_window r \<Longrightarrow> m < 2 ^ 32 \<Longrightarrow> no_window (intercepted_mode b r m)"
  "no_window r \<Longrightarrow> m < 2 ^ 32 \<Longrightarrow> no_window (ordinary_mode b r m)"
  by (auto simp: intercepted_mode_def ordinary_mode_def Let_def intro!: window_intro)

lemma no_window_csi_final [window_intro]:
  assumes "no_window r"
  shows "no_window (csi_final i params b r)"
proof -
  define r2 where "r2 = csi_erase b params (introducer_bytes i @ params @ [b])
    (csi_modes b params (go Ground r))"
  have "no_window (csi_modes b params (go Ground r))"
    using assms private_modes_less [of params]
    by (auto simp: csi_modes_def list_all_iff intro!: foldl_keeps [where P = no_window] window_intro
        split: option.split)
  then have r2: "no_window r2"
    unfolding r2_def csi_erase_def by (auto intro!: window_intro split: option.split)
  have p: "no_window (csi_pass b params sq r2)" for sq
    unfolding csi_pass_def using r2 by (auto intro!: window_intro split: option.split)
  have m: "no_window (foldl (intercepted_mode b)
      (flush (push_bytes (filter (\<lambda>x. x < 0x20) params) (go Ground r))) modes)"
    if "intercepted_modes (l_config (fst (go Ground r))) b params = Some modes" for modes
    using intercepted_modes_less [OF that] assms
    by (intro foldl_keeps [where P = no_window] window_intro) (auto simp: list_all_iff)
  show ?thesis
    unfolding csi_final_def Let_def r2_def [symmetric]
    using m p r2 by (auto intro!: window_intro split: option.split)
qed

lemma no_window_bytes [window_intro]:
  "no_window r \<Longrightarrow> no_window (csi_byte i buf b r)"
  "no_window r \<Longrightarrow> no_window (osc_byte invisible buf b r)"
  "no_window r \<Longrightarrow> no_window (finish_osc invisible buf r)"
  "no_window r \<Longrightarrow> no_window (apc_byte buf b r)"
  "no_window r \<Longrightarrow> no_window (dcs_byte buf b r)"
  "no_window r \<Longrightarrow> no_window (finish_dcs buf r)"
  "no_window r \<Longrightarrow> no_window (reprocess_escape_final b r)"
  "no_window r \<Longrightarrow> no_window (esc_byte b r)"
  "no_window r \<Longrightarrow> no_window (cancel b r)"
  by (auto simp: csi_byte_def osc_byte_def finish_osc_def apc_byte_def dcs_byte_def finish_dcs_bytes
      reprocess_escape_final_def esc_byte_def cancel_def intro!: window_intro
      split: prod.split live_state.split)

lemma no_window_step:
  "no_window r \<Longrightarrow> l_state (fst r) \<noteq> Ground \<Longrightarrow> step_byte invisible b r = Some r' \<Longrightarrow> no_window r'"
  by (auto simp: step_byte_def intro!: window_intro split: if_splits live_state.splits)

end
