(* ===== verification/Live_Chunk_Properties.thy ===== *)
theory Live_Chunk_Properties
  imports Live_Chunk_Facts
begin

text \<open>Where a terminal's output is cut into reads does not matter.\<close>

fun utf8_csi :: "bytes \<Rightarrow> bool" where
  "utf8_csi (a # b # bs) \<longleftrightarrow> (a = 0xc2 \<and> b = 0x9b) \<or> utf8_csi (b # bs)"
| "utf8_csi _ \<longleftrightarrow> False"

definition after :: "u8 option \<Rightarrow> bytes \<Rightarrow> bytes" where
  "after prev bs = (case prev of Some b \<Rightarrow> b # bs | None \<Rightarrow> bs)"

lemma utf8_csi_tl: "\<not> utf8_csi (b # bs) \<Longrightarrow> \<not> utf8_csi bs"
  by (cases bs) auto

lemma after_Cons: "\<not> utf8_csi (after prev (b # bs)) \<Longrightarrow> \<not> utf8_csi (after (Some b) bs)"
  by (cases prev) (auto simp: after_def)

lemma role_Utf8Csi: "role (rev w) = Utf8Csi \<Longrightarrow> w \<noteq> [] \<and> last w = 0xc2"
  by (cases w rule: rev_cases) (auto split: if_splits list.splits)

lemma window_not_Utf8Csi:
  "window prev r \<Longrightarrow> \<not> utf8_csi (after prev (0x9b # bs)) \<Longrightarrow>
     role (rev (tail_text (l_tail (fst r)))) \<noteq> Utf8Csi"
  using role_Utf8Csi [of "tail_text (l_tail (fst r))"] by (auto simp: window_def after_def)

lemma tail_after_last:
  "tail_ok t \<Longrightarrow> bs \<noteq> [] \<Longrightarrow> tail_text (tail_after t bs) \<noteq> [] \<and> last (tail_text (tail_after t bs)) = last bs"
proof -
  assume t: "tail_ok t" and "bs \<noteq> []"
  then have "length (tail_text t @ bs) - 3 < length (tail_text t @ bs)" by simp
  then show ?thesis
    using \<open>bs \<noteq> []\<close> unfolding tail_text_after [OF t] by (simp only: last_drop drop_eq_Nil not_le) simp
qed

lemma window_ground_plain:
  assumes "run_ok c r" "l_state (fst r) = Ground" "ground_plain [b] r = Some r'"
  shows "window (Some b) r'"
proof -
  obtain p evs where r: "r = (p, evs)" by (cases r)
  have t: "tail_ok (l_tail p)" using run_okD [OF assms(1)] r by simp
  show ?thesis
    using assms(2,3) tail_after_last [OF t, of "[b]"] unfolding r ground_plain_eq [OF t]
    by (auto simp: window_def)
qed

lemma no_window_window: "no_window r \<Longrightarrow> window prev r"
  by (simp add: window_def no_window_def)

lemma window_introducer:
  assumes ok: "run_ok c r" and "l_state (fst r) = Ground" and "ground_introducer b r = Some r'"
    and "is_introducer b"
  shows "window (Some b) r'"
proof (cases "b = 0x1b")
  case True
  then show ?thesis
    using assms(3) by (cases r) (auto simp: ground_introducer_def intro!: no_window_window window_intro)
next
  case False
  then have b: "b = 0x9b" using assms(4) by (simp add: is_introducer_def)
  obtain p evs where r: "r = (p, evs)" by (cases r)
  have t: "tail_ok (l_tail p)" using run_okD [OF ok] r by simp
  show ?thesis
    using assms(2,3) window_ground_plain [OF ok assms(2), of "0x9b" r'] False b r
    by (auto simp: ground_introducer_def classify_role [OF t] intro!: no_window_window window_intro
        split: c1_ground_role.splits if_splits)
qed

lemma window_step:
  assumes "run_ok c r" and "window prev r" and "live_step invisible r b = Some r'"
  shows "window (Some b) r'"
proof (cases "l_state (fst r) = Ground")
  case True
  then show ?thesis
    using assms window_introducer [OF assms(1) True] window_ground_plain [OF assms(1) True]
    by (auto simp: live_step_def split: if_splits)
next
  case False
  then have "no_window r" using assms(2) by (auto simp: window_def no_window_def)
  then show ?thesis
    using no_window_step [of r invisible b r'] False assms(3)
    by (auto simp: live_step_def intro: no_window_window)
qed

definition last_of :: "u8 option \<Rightarrow> bytes \<Rightarrow> u8 option" where
  "last_of prev bs = (if bs = [] then prev else Some (last bs))"

lemma last_of_Cons: "last_of (Some b) bs = last_of prev (b # bs)"
  by (simp add: last_of_def)

text \<open>Related runs stay related over any text; the reference run keeps its invariants.\<close>

lemma alike_steps:
  assumes "alike x r s" and "run_ok c r" and "window prev r"
    and "x \<longrightarrow> \<not> utf8_csi (after prev (data @ rest))"
  shows "\<exists>r' s'. foldM (live_step invisible) r data = Some r' \<and>
     foldM (live_step invisible) s data = Some s' \<and> alike x r' s' \<and> run_ok c r' \<and>
     window (last_of prev data) r' \<and> (x \<longrightarrow> \<not> utf8_csi (after (last_of prev data) rest))"
  using assms
proof (induction data arbitrary: r s prev)
  case Nil
  then show ?case by (simp add: last_of_def)
next
  case (Cons b data)
  have split: "x \<longrightarrow> l_state (fst r) = Ground \<longrightarrow> b = 0x9b \<longrightarrow>
      role (rev (tail_text (l_tail (fst r)))) \<noteq> Utf8Csi"
    using window_not_Utf8Csi [OF Cons.prems(3), of "data @ rest"] Cons.prems(4) by auto
  obtain r1 where r1: "live_step invisible r b = Some r1" "run_ok c r1"
    using live_step_ok [OF Cons.prems(2), of invisible b] by (auto simp: runs_def)
  obtain s1 where s1: "live_step invisible s b = Some s1" "alike x r1 s1"
    using alike_step [OF Cons.prems(1,2) split, of invisible] r1(1)
    by (auto simp: option_rel_Some1)
  have "x \<longrightarrow> \<not> utf8_csi (after (Some b) (data @ rest))"
    using Cons.prems(4) after_Cons [of prev b "data @ rest"] by simp
  then show ?case
    using Cons.IH [OF s1(2) r1(2) window_step [OF Cons.prems(2,3) r1(1)]] r1(1) s1(1)
    by (simp add: last_of_Cons [of b data prev])
qed

lemma feed_is_flush:
  assumes "run_ok c (p, evs)" and "l_passthrough p = []"
  shows "live_feed invisible p data evs = map_option flush (foldM (live_step invisible) (p, evs) data)"
proof -
  have "p\<lparr>l_passthrough := []\<rparr> = p" using assms(2) by simp
  then show ?thesis
    using feed_loop_steps [OF assms(1)] by (simp add: live_feed_def map_option_case split: option.split)
qed

lemma window_flush: "window prev r \<Longrightarrow> window prev (flush r)"
  by (cases r) (simp add: window_def flush_def)

lemma feeds_alike:
  assumes "alike x (p, evs) s" and "run_ok c (p, evs)" and "l_passthrough p = []"
    and "window prev (p, evs)" and "x \<longrightarrow> \<not> utf8_csi (after prev (concat reads))"
  shows "rel_option (alike x)
     (foldM (\<lambda>(p, evs) data. live_feed invisible p data evs) (p, evs) reads)
     (foldM (live_step invisible) s (concat reads))"
  using assms
proof (induction reads arbitrary: p evs s prev)
  case Nil
  then show ?case by simp
next
  case (Cons data reads)
  obtain r' s' where
    steps: "foldM (live_step invisible) (p, evs) data = Some r'"
      "foldM (live_step invisible) s data = Some s'"
    and rel: "alike x r' s'" "run_ok c r'" "window (last_of prev data) r'"
      "x \<longrightarrow> \<not> utf8_csi (after (last_of prev data) (concat reads))"
    using alike_steps [OF Cons.prems(1,2,4), of data "concat reads" invisible] Cons.prems(5) by auto
  obtain p' evs' where f: "flush r' = (p', evs')" by (cases "flush r'")
  have "alike x (p', evs') s'" using alike_trans [OF flush_alike rel(1)] f by simp
  moreover have "l_passthrough p' = []" using flush_pending [of r'] f by simp
  ultimately have "rel_option (alike x)
      (foldM (\<lambda>(p, evs) data. live_feed invisible p data evs) (p', evs') reads)
      (foldM (live_step invisible) s' (concat reads))"
    using Cons.IH [of p' evs' s' "last_of prev data"] run_ok_flush [OF rel(2)]
      window_flush [OF rel(3)] rel(4) f by simp
  then show ?case
    using steps f feed_is_flush [OF Cons.prems(2,3), of invisible data] by (simp add: foldM_append)
qed

lemma alike_via: "rel_option (alike x) a m \<Longrightarrow> rel_option (alike x) b m \<Longrightarrow> rel_option (alike x) a b"
  by (cases a; cases b; cases m) (auto intro: alike_trans alike_sym)

lemma reads_alike:
  assumes "x \<longrightarrow> \<not> utf8_csi (concat reads)"
  shows "rel_option (alike x) (live_feeds invisible c reads) (live_feeds invisible c [concat reads])"
proof -
  let ?r = "(with_config c, [] :: parser_event list)"
  have w: "window None ?r" "l_passthrough (with_config c) = []"
    by (simp_all add: window_def with_config_def tail_default_def tail_text_def)
  have one: "rel_option (alike x) (live_feeds invisible c rs) (foldM (live_step invisible) ?r (concat rs))"
    if "concat rs = concat reads" for rs
    unfolding live_feeds_def
    using that assms w run_ok_new by (intro feeds_alike [where prev = None]) (auto simp: alike_refl after_def)
  have "rel_option (alike x) (live_feeds invisible c [concat reads])
      (foldM (live_step invisible) ?r (concat reads))"
    using one [of "[concat reads]"] by simp
  with one [of reads] show ?thesis by (auto intro: alike_via)
qed

lemma feeds_flushed: "live_feeds invisible c reads = Some r \<Longrightarrow> l_passthrough (fst r) = []"
proof (induction reads arbitrary: r rule: rev_induct)
  case Nil
  then show ?case by (auto simp: live_feeds_def with_config_def)
next
  case (snoc data reads)
  then show ?case
    by (auto simp: live_feeds_def foldM_append live_feed_def bind_eq_Some_conv split: prod.splits)
qed

text \<open>The events of a run that mean something to the host, and the modes it reports for.\<close>

definition host_view :: "run \<Rightarrow> parser_event list \<times> mouse_mode \<times> mouse_encoding \<times> bool \<times> bool" where
  "host_view r = (case r of (p, evs) \<Rightarrow>
     (semantic evs, mouse_mode p, mouse_encoding p, l_bracketed_paste p, l_focus_events p))"

text \<open>
  C37: Where the output of a program is cut into reads does not matter to the host: it sees the
  same semantic events in the same order, ends with the same modes, and, when no CSI is spelled in
  UTF-8 (the bytes C2 9B, of which the parser has to pass the first on at the end of a read), the
  same bytes are displayed, each in the same place among the events that take effect in order.
\<close>

theorem reads_do_not_matter:
  "map_option host_view (live_feeds invisible c reads) =
     map_option host_view (live_feeds invisible c [concat reads]) \<and>
   (\<not> utf8_csi (concat reads) \<longrightarrow>
     map_option (\<lambda>(p, evs). in_order evs) (live_feeds invisible c reads) =
     map_option (\<lambda>(p, evs). in_order evs) (live_feeds invisible c [concat reads]))"
proof (intro conjI impI)
  have "host_view r = host_view s" if "alike False r s" for r s
    using that by (cases r; cases s) (auto simp: alike_def core_iff host_view_def mouse_mode_def
        mouse_encoding_def)
  then show "map_option host_view (live_feeds invisible c reads) =
      map_option host_view (live_feeds invisible c [concat reads])"
    using reads_alike [of False reads invisible c] by (auto elim!: option.rel_cases)
next
  assume "\<not> utf8_csi (concat reads)"
  then have "rel_option (alike True) (live_feeds invisible c reads) (live_feeds invisible c [concat reads])"
    by (intro reads_alike) simp
  then show "map_option (\<lambda>(p, evs). in_order evs) (live_feeds invisible c reads) =
      map_option (\<lambda>(p, evs). in_order evs) (live_feeds invisible c [concat reads])"
    using feeds_flushed [of invisible c reads] feeds_flushed [of invisible c "[concat reads]"]
    by (cases "live_feeds invisible c reads"; cases "live_feeds invisible c [concat reads]")
      (auto simp: alike_def run_trace_def)
qed

text \<open>A prompt mark cut in the middle of its terminator, after some text.\<close>

lemma reads_do_not_matter_witness:
  "map_option (\<lambda>(p, evs). in_order evs) (live_feeds (\<lambda>_. False) config_default
       [[0x61, 0x1b, 0x5d, 0x31, 0x33, 0x33, 0x3b, 0x41, 0x1b], [0x5c, 0x62]]) =
     map_option (\<lambda>(p, evs). in_order evs) (live_feeds (\<lambda>_. False) config_default
       [[0x61, 0x1b, 0x5d, 0x31, 0x33, 0x33, 0x3b, 0x41, 0x1b, 0x5c, 0x62]])"
  using reads_do_not_matter [of "\<lambda>_. False" config_default
      "[[0x61, 0x1b, 0x5d, 0x31, 0x33, 0x33, 0x3b, 0x41, 0x1b], [0x5c, 0x62]]"]
  by simp

end
