(* ===== verification/Live_Text_Properties.thy ===== *)
theory Live_Text_Properties
  imports Live_Chunk_Properties
begin

text \<open>
  Ordinary text goes through the stream parser unchanged, although the byte 9B, which introduces a
  control sequence, also occurs inside many characters.
\<close>

subsection \<open>The byte 9B inside a character\<close>

lemma role_window: "role (take 3 w) = role w"
  by (cases w rule: window_cases) ((simp_all add: numeral_3_eq_3, (blast+)?))

lemma first_continuation:
  "second_ok a b \<Longrightarrow> 3 \<le> seq_width a \<Longrightarrow> valid_first_continuation a b"
  by (auto simp: second_ok_def seq_width_def valid_first_continuation_def is_cont_def
      word_le_nat_alt word_less_nat_alt word_unat_eq_iff split: if_splits)

lemma cont_no_lead: "is_cont b \<Longrightarrow> \<not> valid_first_continuation b x"
  by (auto simp: valid_first_continuation_def is_cont_def word_le_nat_alt word_unat_eq_iff)

lemma cont_ranges:
  assumes "is_cont b"
  shows "b \<noteq> 0xc2" "\<not> 0xc3 \<le> b" "0x80 \<le> b" "b \<le> 0xbf" "\<not> 0xe0 \<le> b" "\<not> 0xf0 \<le> b"
  using assms by (auto simp: is_cont_def word_le_nat_alt word_unat_eq_iff)

lemma lead_ranges:
  "seq_width a = 3 \<Longrightarrow> 0xe0 \<le> a \<and> a \<le> 0xef" "seq_width a = 4 \<Longrightarrow> 0xf0 \<le> a \<and> a \<le> 0xf4"
  using seq_width_nat [of a] by (simp_all add: word_le_nat_alt)

lemma seq_width_le: "seq_width a \<le> 4"
  by (simp add: seq_width_def)

text \<open>The shape of an encoding of more than one byte.\<close>

lemma encode_shape:
  assumes "is_scalar c" and "encode_utf8 c = a # b # cs"
  shows "second_ok a b \<and> seq_width a = length (a # b # cs) \<and> 2 \<le> seq_width a \<and>
    (\<forall>x \<in> set cs. is_cont x)"
proof -
  have "lossy_chunk (a # b # cs) = (length (a # b # cs), True)"
    using chunk_of_char [OF assms(1), of "[]"] assms(2) by (simp add: char_len_def)
  then show ?thesis
    using seq_width_le [of a] by (auto split: if_splits list.splits)
qed

lemma role_inside:
  assumes c: "is_scalar c" "c \<noteq> 0x9b" and e: "encode_utf8 c = cs @ 0x9b # ds" and cs: "cs \<noteq> []"
  shows "role (rev (pre @ cs)) = Utf8Continuation"
proof -
  obtain a rest where a: "cs = a # rest" using cs by (cases cs) auto
  have len: "length (cs @ 0x9b # ds) \<le> 4" using length_encode_utf8(1) [of c] e by simp
  consider (one) "rest = []" | (two) b where "rest = [b]" | (three) b d where "rest = [b, d]" "ds = []"
    using len a by (cases rest; cases "tl rest"; cases "tl (tl rest)"; auto)
  then show ?thesis
  proof cases
    case one
    then have e1: "encode_utf8 c = a # 0x9b # ds" using e a by simp
    note shape = encode_shape [OF c(1) e1]
    show ?thesis
    proof (cases "seq_width a = 2")
      case True
      then have ds: "ds = []" and r: "194 \<le> unat a" "unat a \<le> 223"
        using shape seq_width_nat(1) [of a] by auto
      have "a \<noteq> 0xc2"
      proof
        assume "a = 0xc2"
        then have "encode_utf8 c = encode_utf8 0x9b" using e1 ds by (simp add: encode_utf8_def)
        then show False using encode_inj [of c "0x9b"] c by (simp add: is_scalar_nat)
      qed
      then have "0xc3 \<le> a \<and> a \<le> 0xdf" using r by (auto simp: word_le_nat_alt word_unat_eq_iff)
      then show ?thesis using a one \<open>a \<noteq> 0xc2\<close> by simp
    next
      case False
      then have w: "3 \<le> seq_width a" using shape by linarith
      then have "a \<noteq> 0xc2" by (auto simp: seq_width_def split: if_splits)
      then show ?thesis using a one first_continuation [of a "0x9b"] shape w by simp
    qed
  next
    case two
    then have e2: "encode_utf8 c = a # b # 0x9b # ds" using e a by simp
    note shape = encode_shape [OF c(1) e2]
    have w: "seq_width a = 3 \<or> seq_width a = 4"
      using shape seq_width_le [of a] by (cases ds) auto
    have b: "is_cont b" using shape second_ok_cont by blast
    have v: "valid_first_continuation a b" using shape w by (auto intro: first_continuation)
    show ?thesis
      using two a v w lead_ranges [of a] cont_ranges [OF b] cont_no_lead [OF b] by auto
  next
    case three
    then have e3: "encode_utf8 c = a # b # d # [0x9b]" using e a by simp
    note shape = encode_shape [OF c(1) e3]
    have w: "seq_width a = 4" using shape by simp
    have b: "is_cont b" "is_cont d" using shape second_ok_cont by auto
    have v: "valid_first_continuation a b" using shape w by (auto intro: first_continuation)
    show ?thesis
      using three a v lead_ranges(2) [OF w] cont_ranges [OF b(1)] cont_ranges [OF b(2)]
        cont_no_lead [OF b(1)] cont_no_lead [OF b(2)] by simp
  qed
qed

lemma role_in_text:
  "str_ok s \<Longrightarrow> 0x9b \<notin> set s \<Longrightarrow> str_bytes s = pre @ 0x9b # post \<Longrightarrow>
     role (rev pre) = Utf8Continuation"
proof (induction s arbitrary: post rule: rev_induct)
  case Nil
  then show ?case by simp
next
  case (snoc c s)
  have c: "is_scalar c" "c \<noteq> 0x9b" using snoc.prems by auto
  have eq: "str_bytes s @ encode_utf8 c = pre @ 0x9b # post" using snoc.prems(3) by simp
  then obtain us where us: "str_bytes s = pre @ us \<and> us @ encode_utf8 c = 0x9b # post \<or>
      str_bytes s @ us = pre \<and> encode_utf8 c = us @ 0x9b # post"
    by (auto simp: append_eq_append_conv2)
  show ?case
  proof (cases "\<exists>post'. str_bytes s = pre @ 0x9b # post'")
    case True
    then show ?thesis using snoc.IH snoc.prems by auto
  next
    case False
    have pre: "pre = str_bytes s @ us" "encode_utf8 c = us @ 0x9b # post" if "us \<noteq> []"
      using us that False by (cases us; auto)+
    obtain l ls where l: "encode_utf8 c = l # ls" "\<not> is_cont l" using encode_lead [OF c(1)] by metis
    have "us \<noteq> []"
    proof
      assume "us = []"
      then have "l = 0x9b" using us False l(1) by auto
      then show False using l(2) by (simp add: is_cont_def)
    qed
    then show ?thesis using pre role_inside [OF c] by auto
  qed
qed

lemma esc_not_in_text:
  assumes "str_ok s" "0x1b \<notin> set s"
  shows "0x1b \<notin> set (str_bytes s)"
  using assms
proof (induction s)
  case Nil
  then show ?case by simp
next
  case (Cons c s)
  obtain l ls where l: "encode_utf8 c = l # ls" "\<forall>x \<in> set ls. is_cont x" "ls \<noteq> [] \<longrightarrow> 0x80 \<le> l"
    using encode_lead [of c] Cons.prems by (metis str_ok_simps(2))
  have "l \<noteq> 0x1b"
  proof
    assume "l = 0x1b"
    then have "encode_utf8 c = encode_utf8 0x1b" using l by (auto simp: encode_utf8_def)
    then show False using encode_inj [of c "0x1b"] Cons.prems by (simp add: is_scalar_nat)
  qed
  moreover have "0x1b \<notin> set ls" using l(2) by (auto simp: is_cont_def)
  ultimately show ?case using Cons l(1) by simp
qed

subsection \<open>A run over text\<close>

definition idle :: "bytes \<Rightarrow> live \<Rightarrow> bool" where
  "idle seen p \<longleftrightarrow>
     l_state p = Ground \<and> tail_ok (l_tail p) \<and> rev (tail_text (l_tail p)) = take 3 (rev seen)"

lemma tail_after_window:
  assumes "tail_ok t" and "rev (tail_text t) = take 3 (rev seen)"
  shows "rev (tail_text (tail_after t [b])) = take 3 (rev (seen @ [b]))"
proof -
  have len: "length (tail_text t) \<le> 3" using assms(1) by (simp add: tail_ok_def tail_text_def)
  have "rev (tail_text (tail_after t [b])) = take 3 (b # rev (tail_text t))"
    unfolding tail_text_after [OF assms(1)] using len
    by (cases "length (tail_text t) \<le> 2") (simp_all add: rev_drop le_Suc_eq)
  then show ?thesis by (simp add: assms(2) take_Cons' min_def)
qed

lemma text_step:
  assumes s: "str_ok s" "0x1b \<notin> set s" "0x9b \<notin> set s" and eq: "str_bytes s = seen @ b # rest"
    and idle: "idle seen p"
  shows "\<exists>p'. live_step invisible (p, evs) b = Some (p', evs) \<and> idle (seen @ [b]) p' \<and>
    l_passthrough p' = l_passthrough p @ [b]"
proof -
  have t: "tail_ok (l_tail p)" "l_state p = Ground"
    "rev (tail_text (l_tail p)) = take 3 (rev seen)" using idle by (simp_all add: idle_def)
  have "b \<noteq> 0x1b" using esc_not_in_text [OF s(1,2)] eq by auto
  moreover have "role (rev (tail_text (l_tail p))) = Utf8Continuation" if "b = 0x9b"
    using role_in_text [OF s(1,3)] eq that t(3) by (simp add: role_window)
  ultimately have "live_step invisible (p, evs) b = ground_plain [b] (p, evs)"
    using t by (auto simp: live_step_def is_introducer_def ground_introducer_def classify_role)
  then show ?thesis
    using t(2) tail_after_window [OF t(1,3), of b] tail_after_ok [OF t(1), of "[b]"]
    by (simp add: ground_plain_eq [OF t(1)] idle_def)
qed

lemma text_steps:
  assumes s: "str_ok s" "0x1b \<notin> set s" "0x9b \<notin> set s"
  shows "str_bytes s = seen @ data @ rest \<Longrightarrow> idle seen p \<Longrightarrow>
    \<exists>p'. foldM (live_step invisible) (p, evs) data = Some (p', evs) \<and> idle (seen @ data) p' \<and>
      l_passthrough p' = l_passthrough p @ data"
proof (induction data arbitrary: seen p)
  case Nil
  then show ?case by simp
next
  case (Cons b data)
  obtain p1 where p1: "live_step invisible (p, evs) b = Some (p1, evs)" "idle (seen @ [b]) p1"
    "l_passthrough p1 = l_passthrough p @ [b]"
    using text_step [OF s _ Cons.prems(2)] Cons.prems(1) by fastforce
  then show ?case using Cons.IH [of "seen @ [b]" p1] Cons.prems(1) by simp
qed

lemma text_feeds:
  assumes s: "str_ok s" "0x1b \<notin> set s" "0x9b \<notin> set s"
  shows "str_bytes s = seen @ concat reads \<Longrightarrow> idle seen p \<Longrightarrow> run_ok c (p, evs) \<Longrightarrow>
    l_passthrough p = [] \<Longrightarrow>
    \<exists>p'. foldM (\<lambda>(p, evs) data. live_feed invisible p data evs) (p, evs) reads =
      Some (p', evs @ map Bytes (filter (\<lambda>d. d \<noteq> []) reads))"
proof (induction reads arbitrary: seen p evs)
  case Nil
  then show ?case by simp
next
  case (Cons data reads)
  obtain p1 where p1: "foldM (live_step invisible) (p, evs) data = Some (p1, evs)"
    "idle (seen @ data) p1" "l_passthrough p1 = data"
    using text_steps [OF s, of seen data "concat reads" p] Cons.prems by auto
  have feed: "live_feed invisible p data evs = Some (flush (p1, evs))"
    using feed_is_flush [OF Cons.prems(3,4)] p1(1) by simp
  obtain p2 where p2: "flush (p1, evs) = (p2, evs @ map Bytes (filter (\<lambda>d. d \<noteq> []) [data]))"
      "idle (seen @ data) p2" "l_passthrough p2 = []"
    using p1(2,3) by (cases "data = []") (simp_all add: flush_def idle_def)
  have "run_ok c (p2, evs @ map Bytes (filter (\<lambda>d. d \<noteq> []) [data]))"
    using live_feed_ok [OF Cons.prems(3), of invisible data] feed p2(1) by (simp add: runs_def)
  then show ?case
    using Cons.IH [of "seen @ data" p2 "evs @ map Bytes (filter (\<lambda>d. d \<noteq> []) [data])"]
      Cons.prems(1) p2 feed
    by (cases "data = []") simp_all
qed

text \<open>
  C38: Plain text is displayed as it is.  When the output of a program is the UTF-8 encoding of text
  with neither the character ESC nor the character CSI in it, the host is told of nothing but the
  bytes of each read, however the reads cut the text: no byte of it is taken as a control
  sequence, although the byte 9B, which alone introduces one, is part of many characters.
\<close>

theorem text_passes_unchanged:
  assumes "str_ok s" and "0x1b \<notin> set s" and "0x9b \<notin> set s" and "concat reads = str_bytes s"
  shows "map_option snd (live_feeds invisible c reads) =
    Some (map Bytes (filter (\<lambda>d. d \<noteq> []) reads))"
proof -
  have "idle [] (with_config c)" "l_passthrough (with_config c) = []"
    using tail_default_ok by (simp_all add: idle_def with_config_def tail_default_def tail_text_def)
  then show ?thesis
    using text_feeds [OF assms(1-3), of "[]" reads "with_config c" c "[]" invisible] assms(4)
      run_ok_new [of c]
    by (auto simp: live_feeds_def)
qed

text \<open>The Cyrillic letter of code 41B, whose encoding D0 9B is cut after its first byte.\<close>

lemma text_passes_unchanged_witness:
  "map_option snd (live_feeds (\<lambda>_. False) config_default [[0x61, 0xd0], [], [0x9b, 0x62]]) =
     Some [Bytes [0x61, 0xd0], Bytes [0x9b, 0x62]]"
  using text_passes_unchanged [of "[0x61, 0x41b, 0x62]" "[[0x61, 0xd0], [], [0x9b, 0x62]]"
      "\<lambda>_. False" config_default]
  by (simp add: is_scalar_nat encode_utf8_def)

end
