(* ===== verification/Live_Mode_Properties.thy ===== *)
theory Live_Mode_Properties
  imports Live_Chunk_Properties Osc_Facts
begin

text \<open>
  The modes a program sets: what the parser announces, tracks and forwards for one mode sequence,
  and a way around the filtering of modes.
\<close>

subsection \<open>Mode sequences\<close>

fun semis :: "bytes list \<Rightarrow> bytes" where
  "semis [] = []"
| "semis [t] = t"
| "semis (t # ts) = t @ 0x3b # semis ts"

definition mode_params :: "nat list \<Rightarrow> bytes" where
  "mode_params modes = 0x3f # semis (map dec modes)"

definition mode_final :: "bool \<Rightarrow> u8" where
  "mode_final enable = (if enable then 0x68 else 0x6c)"

definition mode_seq :: "nat list \<Rightarrow> bool \<Rightarrow> bytes" where
  "mode_seq modes enable = [0x1b, 0x5b] @ mode_params modes @ [mode_final enable]"

definition kept_back :: "parser_config \<Rightarrow> nat \<Rightarrow> bool" where
  "kept_back c mode \<longleftrightarrow> is_alt_screen_mode mode \<or> suppressed c mode"

text \<open>What the host is told about one mode, with the bytes that are displayed.\<close>

definition mode_events :: "parser_config \<Rightarrow> bool \<Rightarrow> nat \<Rightarrow> parser_event list" where
  "mode_events c enable mode =
     (if is_alt_screen_mode mode
      then [if enable then AltScreenEnter mode else AltScreenLeave mode]
      else if suppressed c mode then []
      else [DecsetMode mode enable, Bytes (mode_seq [mode] enable)])"

definition track_mode :: "parser_config \<Rightarrow> bool \<Rightarrow> live \<Rightarrow> nat \<Rightarrow> live" where
  "track_mode c enable p mode = (if kept_back c mode then p else apply_mode p mode enable)"

definition displayed :: "parser_event list \<Rightarrow> bytes" where
  "displayed evs = concat (map (\<lambda>ev. case ev of Bytes bs \<Rightarrow> bs | _ \<Rightarrow> []) evs)"

lemma mode_final_simps [simp]:
  "mode_final e = 0x68 \<longleftrightarrow> e" "mode_final e = 0x6c \<longleftrightarrow> \<not> e" "mode_final e \<noteq> 0x4a" "mode_final e \<noteq> 0x75"
  "mode_final e \<noteq> 0x6d" "mode_final e \<noteq> 0x63" "mode_final e \<noteq> 0x71" "mode_final e \<noteq> 0x6e"
  "mode_final e \<noteq> 0x1b" "mode_final e \<noteq> 0x18" "mode_final e \<noteq> 0x1a" "0x40 \<le> mode_final e"
  "mode_final e \<le> 0x7e"
  by (simp_all add: mode_final_def)

subsection \<open>Reading the parameters back\<close>

lemma split_on_join: "a \<notin> set t \<Longrightarrow> split_on a (t @ a # rest) = t # split_on a rest"
  by (induction t) auto

lemma split_on_semis: "ts \<noteq> [] \<Longrightarrow> list_all (\<lambda>t. 0x3b \<notin> set t) ts \<Longrightarrow> split_on 0x3b (semis ts) = ts"
  by (induction ts rule: semis.induct) (auto simp: split_on_none split_on_join)

lemma dec_is_digits: "list_all is_ascii_digit (dec n)"
  using dec_digits [of n] by (simp add: list_all_iff is_ascii_digit_def word_le_nat_alt)

lemma sat_decimal_dec: "n \<le> largest \<Longrightarrow> sat_decimal largest (dec n) = n"
proof (induction n rule: dec.induct)
  case (1 n)
  show ?case
    using 1 digit_byte [of n] digit_byte [of "n mod 10"]
    by (subst dec.simps) (auto simp: sat_decimal_def)
qed

lemma mode_token_dec: "n < 2 ^ 32 \<Longrightarrow> mode_token (dec n) = Some n"
  by (simp add: mode_token_def dec_is_digits sat_decimal_dec)

lemma mapM_dec: "list_all (\<lambda>m. m < 2 ^ 32) modes \<Longrightarrow> mapM mode_token (map dec modes) = Some modes"
  by (induction modes) (simp_all add: mode_token_dec)

lemma set_semis: "set (semis ts) \<subseteq> insert 0x3b (\<Union> (set ` set ts))"
  by (induction ts rule: semis.induct) auto

lemma dec_range: "b \<in> set (dec n) \<Longrightarrow> 0x30 \<le> b \<and> b \<le> 0x3f"
  using dec_digits [of n] by (fastforce simp: list_all_iff word_le_nat_alt)

lemma mode_params_bytes: "b \<in> set (mode_params modes) \<Longrightarrow> 0x30 \<le> b \<and> b \<le> 0x3f"
proof -
  assume "b \<in> set (mode_params modes)"
  then consider "b = 0x3f" | "b = 0x3b" | m where "b \<in> set (dec m)"
    using set_semis [of "map dec modes"] by (auto simp: mode_params_def)
  then show ?thesis using dec_range by cases auto
qed

lemma private_mode_params:
  assumes "modes \<noteq> []" and "list_all (\<lambda>m. m < 2 ^ 32) modes"
  shows "private_modes (mode_params modes) = Some modes"
proof -
  have "\<not> (b < 0x20 \<or> b = 0x7f)" if "b \<in> set (mode_params modes)" for b
    using mode_params_bytes [OF that] by (auto simp: word_le_nat_alt word_less_nat_alt)
  then have "\<not> list_ex (\<lambda>b. b < 0x20 \<or> b = 0x7f) (mode_params modes)"
    by (auto simp: list_ex_iff)
  moreover have "0x3b \<notin> set (dec m)" for m using dec_not_in [of m] by (auto simp: list_all_iff)
  ultimately show ?thesis
    using assms(1) mapM_dec [OF assms(2)]
    by (simp add: private_modes_def mode_params_def strip_prefix_def split_on_semis list_all_iff)
qed

subsection \<open>The loop over the modes\<close>

lemma flush_flush: "flush (flush r) = flush r"
  by (cases r) (simp add: flush_def)

lemma foldl_flushed:
  assumes "\<And>r m. f (flush r) m = f r m"
  shows "flush (foldl f r ms) = foldl (\<lambda>r m. flush (f r m)) (flush r) ms"
  by (induction ms arbitrary: r) (simp_all add: assms)

lemma intercepted_flushed: "intercepted_mode b (flush r) m = intercepted_mode b r m"
  by (simp add: intercepted_mode_def flush_flush)

lemma apply_mode_frame:
  "apply_mode (p\<lparr>l_passthrough := bs\<rparr>) m e = (apply_mode p m e)\<lparr>l_passthrough := bs\<rparr>"
  "l_passthrough (apply_mode p m e) = l_passthrough p" "l_config (apply_mode p m e) = l_config p"
  "l_state (apply_mode p m e) = l_state p"
  by (simp_all add: apply_mode_def)

lemma mode_seq_one: "mode_seq [m] e = [0x1b, 0x5b, 0x3f] @ dec m @ [mode_final e]"
  by (simp add: mode_seq_def mode_params_def)

lemma intercepted_one:
  assumes "m < 2 ^ 32" and "l_config p = c" and "l_passthrough p = []"
  shows "flush (intercepted_mode (mode_final enable) (p, evs) m) =
    (track_mode c enable p m, evs @ mode_events c enable m)"
proof -
  have "p\<lparr>l_passthrough := []\<rparr> = p" using assms(3) by simp
  then have "apply_mode (p\<lparr>l_passthrough := []\<rparr>) m e = apply_mode p m e" for e by simp
  then show ?thesis
    using assms
    by (simp add: intercepted_mode_def mode_events_def track_mode_def kept_back_def flush_def
        push_event_def push_bytes_def update_modes_def update_one_mode mode_seq_one apply_mode_frame
        flip: apply_mode_frame(1))
qed

lemma intercepted_all:
  "list_all (\<lambda>m. m < 2 ^ 32) modes \<Longrightarrow> l_config p = c \<Longrightarrow> l_passthrough p = [] \<Longrightarrow>
     flush (foldl (intercepted_mode (mode_final enable)) (p, evs) modes) =
     (foldl (track_mode c enable) p modes, evs @ concat (map (mode_events c enable) modes))"
proof (induction modes arbitrary: p evs)
  case Nil
  then show ?case by (simp add: flush_def)
next
  case (Cons m modes)
  let ?b = "mode_final enable" and ?p = "track_mode c enable p m"
  have "l_config ?p = c" "l_passthrough ?p = []"
    using Cons.prems by (simp_all add: track_mode_def apply_mode_frame)
  then have "flush (foldl (intercepted_mode ?b) (?p, evs @ mode_events c enable m) modes) =
      (foldl (track_mode c enable) ?p modes,
       (evs @ mode_events c enable m) @ concat (map (mode_events c enable) modes))"
    using Cons.IH Cons.prems(1) by simp
  moreover have "flush (foldl (intercepted_mode ?b) (intercepted_mode ?b (p, evs) m) modes) =
      flush (foldl (intercepted_mode ?b) (flush (intercepted_mode ?b (p, evs) m)) modes)"
    by (simp add: foldl_flushed intercepted_flushed flush_flush)
  ultimately show ?case
    using intercepted_one [of m p c enable evs] Cons.prems by simp
qed

lemma ordinary_all:
  "list_all (\<lambda>m. m < 2 ^ 32) modes \<Longrightarrow> list_all (\<lambda>m. \<not> kept_back c m) modes \<Longrightarrow>
     foldl (ordinary_mode (mode_final enable)) (p, evs) modes =
     (foldl (track_mode c enable) p modes, evs @ map (\<lambda>m. DecsetMode m enable) modes)"
proof (induction modes arbitrary: p evs)
  case Nil
  then show ?case by simp
next
  case (Cons m modes)
  then have "ordinary_mode (mode_final enable) (p, evs) m =
      (track_mode c enable p m, evs @ [DecsetMode m enable])"
    by (simp add: ordinary_mode_def update_modes_def update_one_mode push_event_def track_mode_def)
  then show ?case using Cons by simp
qed

lemma tracked_frame:
  "l_config (foldl (track_mode c enable) p modes) = l_config p"
  "l_state (foldl (track_mode c enable) p modes) = l_state p"
  "l_passthrough (foldl (track_mode c enable) p modes) = l_passthrough p"
  by (induction modes arbitrary: p) (simp_all add: track_mode_def apply_mode_frame)

subsection \<open>The final byte\<close>

definition mode_list_events :: "parser_config \<Rightarrow> nat list \<Rightarrow> bool \<Rightarrow> parser_event list" where
  "mode_list_events c modes enable =
     (if list_ex (kept_back c) modes then concat (map (mode_events c enable) modes)
      else map (\<lambda>m. DecsetMode m enable) modes @ [Bytes (mode_seq modes enable)])"

lemma literal_modes:
  "ascii ''?9'' = mode_params [9]" "ascii ''?47'' = mode_params [47]"
  "ascii ''?1000'' = mode_params [1000]" "ascii ''?1001'' = mode_params [1001]"
  "ascii ''?1002'' = mode_params [1002]" "ascii ''?1003'' = mode_params [1003]"
  "ascii ''?1004'' = mode_params [1004]" "ascii ''?1005'' = mode_params [1005]"
  "ascii ''?1006'' = mode_params [1006]" "ascii ''?1015'' = mode_params [1015]"
  "ascii ''?1016'' = mode_params [1016]" "ascii ''?1047'' = mode_params [1047]"
  "ascii ''?1049'' = mode_params [1049]"
  by (simp_all add: mode_params_def dec.simps ascii_def)

lemma reported_alt:
  "alt_screen_mode params = Some m \<Longrightarrow> private_modes params = Some [m] \<and> is_alt_screen_mode m"
  by (auto simp: alt_screen_mode_def literal_modes private_mode_params is_alt_screen_mode_def
      split: if_splits)

lemma reported_mouse:
  "is_mouse_reporting_mode params \<Longrightarrow> \<exists>m. private_modes params = Some [m] \<and> is_mouse_mode m"
  by (auto simp: is_mouse_reporting_mode_def literal_modes private_mode_params is_mouse_mode_def)

lemma reported_focus: "is_focus_reporting_mode params \<Longrightarrow> private_modes params = Some [1004]"
  by (auto simp: is_focus_reporting_mode_def literal_modes private_mode_params)

lemma flush_pushed:
  "l_passthrough q = [] \<Longrightarrow> flush (push_bytes bs (q, evs)) = (q, evs @ (if bs = [] then [] else [Bytes bs]))"
  by (simp add: flush_def push_bytes_def)

lemma go_Ground: "l_state p = Ground \<Longrightarrow> go Ground (p, evs) = (p, evs)"
  by (simp add: go_def)

lemma csi_final_modes:
  assumes "modes \<noteq> []" and "list_all (\<lambda>m. m < 2 ^ 32) modes" and "l_config p = c"
    and "l_passthrough p = []" and "l_state p = Ground"
  shows "flush (csi_final EscBracket (mode_params modes) (mode_final enable) (p, evs)) =
    (foldl (track_mode c enable) p modes, evs @ mode_list_events c modes enable)"
proof -
  let ?b = "mode_final enable"
  note modes = private_mode_params [OF assms(1,2)]
  have no_control: "filter (\<lambda>x. x < 0x20) (mode_params modes) = []"
    using mode_params_bytes [of _ modes] by (fastforce simp: filter_empty_conv word_le_nat_alt word_less_nat_alt)
  show ?thesis
  proof (cases "list_ex (kept_back c) modes")
    case True
    then have "intercepted_modes c ?b (mode_params modes) = Some modes"
      using modes by (simp add: intercepted_modes_def filter_option_def kept_back_def list_ex_iff)
    then show ?thesis
      using True intercepted_all [OF assms(2-4), of enable evs] assms(3) no_control
      by (simp only: csi_final_def go_Ground [OF assms(5)] flush_pushed [OF assms(4)] Let_def
          fst_conv option.case mode_list_events_def if_True append_Nil2 simp_thms)
  next
    case False
    then have none: "intercepted_modes c ?b (mode_params modes) = None"
      using modes by (simp add: intercepted_modes_def filter_option_def kept_back_def list_ex_iff)
    have ok: "list_all (\<lambda>m. \<not> kept_back c m) modes" using False by (simp add: list_ex_iff list_all_iff)
    have alt: "alt_screen_mode (mode_params modes) = None"
      using reported_alt [of "mode_params modes"] modes ok
      by (cases "alt_screen_mode (mode_params modes)") (auto simp: kept_back_def)
    have off: "\<not> (\<not> c_mouse_reporting c \<and> (?b = 0x68 \<or> ?b = 0x6c) \<and> is_mouse_reporting_mode (mode_params modes))"
      "\<not> (\<not> c_focus_reporting c \<and> (?b = 0x68 \<or> ?b = 0x6c) \<and> is_focus_reporting_mode (mode_params modes))"
      using reported_mouse [of "mode_params modes"] reported_focus [of "mode_params modes"] modes ok
      by (auto simp: kept_back_def suppressed_def)
    have no_erase: "erase_event ?b (mode_params modes) = None" "handshake ?b (mode_params modes) = None"
      by (simp_all add: erase_event_def handshake_def)
    have "csi_modes ?b (mode_params modes) (p, evs) =
        (foldl (track_mode c enable) p modes, evs @ map (\<lambda>m. DecsetMode m enable) modes)"
      using ordinary_all [OF assms(2) ok, of enable p evs] alt modes by (simp add: csi_modes_def)
    then have "csi_final EscBracket (mode_params modes) ?b (p, evs) =
        push_bytes (mode_seq modes enable)
          (foldl (track_mode c enable) p modes, evs @ map (\<lambda>m. DecsetMode m enable) modes)"
      using none alt off no_erase assms(3)
      by (auto simp: csi_final_def go_Ground [OF assms(5)] Let_def csi_erase_def csi_pass_def mode_seq_def)
    then show ?thesis
      using False by (simp add: flush_pushed tracked_frame assms(4) mode_list_events_def mode_seq_def)
  qed
qed

subsection \<open>Feeding a sequence\<close>

lemma csi_params_step:
  "l_state p = Csi i buf \<Longrightarrow> 0x30 \<le> b \<Longrightarrow> b \<le> 0x3f \<Longrightarrow> length buf < MAX_CSI_BYTES \<Longrightarrow>
     live_step invisible (p, evs) b = Some (p\<lparr>l_state := Csi i (buf @ [b])\<rparr>, evs)"
  by (auto simp: live_step_def step_byte_def csi_byte_def go_def word_le_nat_alt)

lemma csi_params_steps:
  "l_state p = Csi i buf \<Longrightarrow> list_all (\<lambda>b. 0x30 \<le> b \<and> b \<le> 0x3f) bs \<Longrightarrow>
     length buf + length bs \<le> MAX_CSI_BYTES \<Longrightarrow>
     foldM (live_step invisible) (p, evs) bs = Some (p\<lparr>l_state := Csi i (buf @ bs)\<rparr>, evs)"
proof (induction bs arbitrary: p buf)
  case Nil
  then have "p\<lparr>l_state := Csi i buf\<rparr> = p" by simp
  then show ?case by simp
next
  case (Cons b bs)
  then show ?case
    using Cons.IH [of "p\<lparr>l_state := Csi i (buf @ [b])\<rparr>" "buf @ [b]"]
      csi_params_step [of p i buf b invisible evs] by simp
qed

lemma mode_seq_steps:
  assumes "l_state p = Ground" and "length (mode_params modes) \<le> MAX_CSI_BYTES"
  shows "foldM (live_step invisible) (p, evs) (mode_seq modes enable) =
    Some (csi_final EscBracket (mode_params modes) (mode_final enable)
      (p\<lparr>l_tail := tail_clear (l_tail p)\<rparr>, evs))"
proof -
  let ?p = "p\<lparr>l_tail := tail_clear (l_tail p), l_state := Csi EscBracket []\<rparr>"
  have open_csi: "foldM (live_step invisible) (p, evs) [0x1b, 0x5b] = Some (?p, evs)"
    using assms(1) by (simp add: live_step_def is_introducer_def ground_introducer_def clear_tail_def
        go_def step_byte_def esc_byte_def)
  have "list_all (\<lambda>b. 0x30 \<le> b \<and> b \<le> 0x3f) (mode_params modes)"
    using mode_params_bytes [of _ modes] by (simp add: list_all_iff)
  then have params: "foldM (live_step invisible) (?p, evs) (mode_params modes) =
      Some (?p\<lparr>l_state := Csi EscBracket (mode_params modes)\<rparr>, evs)"
    using csi_params_steps [of ?p EscBracket "[]" "mode_params modes" invisible evs] assms(2) by simp
  have "csi_final i ps b (go st r) = csi_final i ps b (go Ground r)" for i ps b st r
    by (cases r) (simp add: csi_final_def go_def)
  then have "csi_final EscBracket (mode_params modes) (mode_final enable)
        (?p\<lparr>l_state := Csi EscBracket (mode_params modes)\<rparr>, evs) =
      csi_final EscBracket (mode_params modes) (mode_final enable) (?p\<lparr>l_state := Ground\<rparr>, evs)"
    by (simp add: csi_final_def go_def)
  then have "live_step invisible (?p\<lparr>l_state := Csi EscBracket (mode_params modes)\<rparr>, evs) (mode_final enable) =
      Some (csi_final EscBracket (mode_params modes) (mode_final enable) (?p\<lparr>l_state := Ground\<rparr>, evs))"
    by (simp add: live_step_def step_byte_def csi_byte_def)
  moreover have "?p\<lparr>l_state := Ground\<rparr> = p\<lparr>l_tail := tail_clear (l_tail p)\<rparr>"
    using assms(1) by simp
  moreover have "foldM (live_step invisible) (p, evs) (mode_seq modes enable) =
      Option.bind (Option.bind (foldM (live_step invisible) (p, evs) [0x1b, 0x5b])
        (\<lambda>s. foldM (live_step invisible) s (mode_params modes)))
        (\<lambda>s. Option.bind (live_step invisible s (mode_final enable)) Some)"
    unfolding mode_seq_def by (simp add: foldM_append del: append_Cons)
  ultimately show ?thesis by (simp only: open_csi params Option.bind.simps)
qed

lemma live_feeds_snoc:
  assumes "live_feeds invisible c reads = Some (p, evs)"
  shows "live_feeds invisible c (reads @ [data]) =
    map_option flush (foldM (live_step invisible) (p, evs) data)"
proof -
  have ok: "run_ok c (p, evs)" using live_feeds_ok [of invisible c reads] assms by (simp add: runs_def)
  show ?thesis
    using assms feed_is_flush [OF ok] feeds_flushed [OF assms] by (simp add: live_feeds_def foldM_append)
qed

text \<open>
  C39: A mode sequence is taken apart exactly as documented.  After any output that leaves no sequence
  unfinished, ESC [ ? m1 ; ... ; mk h (or l) with any modes tells the host of each mode once and
  in the order written: a switch of the alternate screen becomes its own event and is not forwarded,
  a mode whose reporting is configured off disappears, and every other mode is announced and
  displayed; a list with none to keep back is displayed as it was written.  The modes the parser tracks change as if the
  modes that are not kept back had been set one after the other.
\<close>

theorem mode_list_taken_apart:
  assumes "live_feeds invisible c reads = Some (p, evs)" and "l_state p = Ground"
    and "modes \<noteq> []" and "list_all (\<lambda>m. m < 2 ^ 32) modes"
    and "length (mode_params modes) \<le> MAX_CSI_BYTES"
  shows "live_feeds invisible c (reads @ [mode_seq modes enable]) =
    Some (foldl (track_mode c enable) (p\<lparr>l_tail := tail_clear (l_tail p)\<rparr>) modes,
          evs @ mode_list_events c modes enable)"
proof -
  let ?p = "p\<lparr>l_tail := tail_clear (l_tail p)\<rparr>"
  have ok: "run_ok c (p, evs)" using live_feeds_ok [of invisible c reads] assms(1) by (simp add: runs_def)
  then have "l_config ?p = c" by (simp add: run_ok_def)
  moreover have "l_passthrough ?p = []" using feeds_flushed [OF assms(1)] by simp
  ultimately have "flush (csi_final EscBracket (mode_params modes) (mode_final enable) (?p, evs)) =
      (foldl (track_mode c enable) ?p modes, evs @ mode_list_events c modes enable)"
    using assms(2-4) by (simp add: csi_final_modes)
  then show ?thesis
    using mode_seq_steps [OF assms(2,5), of invisible evs enable]
    by (simp add: live_feeds_snoc [OF assms(1)])
qed

text \<open>Mouse reporting off: bracketed paste and the alternate screen are set, mode 1000 is not.\<close>

lemma mode_list_taken_apart_witness:
  "map_option snd (live_feeds (\<lambda>_. False) \<lparr>c_mouse_reporting = False, c_focus_reporting = True\<rparr>
       [mode_seq [2004, 1000, 1049] True]) =
     Some [DecsetMode 2004 True, Bytes (mode_seq [2004] True), AltScreenEnter 1049]"
proof -
  let ?c = "\<lparr>c_mouse_reporting = False, c_focus_reporting = True\<rparr>"
  have "live_feeds (\<lambda>_. False) ?c ([] @ [mode_seq [2004, 1000, 1049] True]) =
      Some (foldl (track_mode ?c True) ((with_config ?c)\<lparr>l_tail := tail_clear (l_tail (with_config ?c))\<rparr>)
        [2004, 1000, 1049], [] @ mode_list_events ?c [2004, 1000, 1049] True)"
    by (rule mode_list_taken_apart)
      (simp_all add: live_feeds_def with_config_def mode_params_def dec.simps MAX_CSI_BYTES_def)
  then show ?thesis
    by (simp add: mode_list_events_def kept_back_def mode_events_def is_alt_screen_mode_def
        suppressed_def is_mouse_mode_def)
qed

subsection \<open>A way around the filter\<close>

lemma osc_step:
  "l_state p = Osc buf \<Longrightarrow> 0x20 \<le> b \<Longrightarrow> length buf < MAX_OSC_PAYLOAD_BYTES \<Longrightarrow>
     live_step invisible (p, evs) b = Some (p\<lparr>l_state := Osc (buf @ [b])\<rparr>, evs)"
  by (auto simp: live_step_def step_byte_def osc_byte_def go_def word_le_nat_alt)

lemma osc_steps:
  "l_state p = Osc buf \<Longrightarrow> list_all (\<lambda>b. 0x20 \<le> b) bs \<Longrightarrow>
     length buf + length bs \<le> MAX_OSC_PAYLOAD_BYTES \<Longrightarrow>
     foldM (live_step invisible) (p, evs) bs = Some (p\<lparr>l_state := Osc (buf @ bs)\<rparr>, evs)"
proof (induction bs arbitrary: p buf)
  case Nil
  then have "p\<lparr>l_state := Osc buf\<rparr> = p" by simp
  then show ?case by simp
next
  case (Cons b bs)
  then show ?case
    using Cons.IH [of "p\<lparr>l_state := Osc (buf @ [b])\<rparr>" "buf @ [b]"]
      osc_step [of p buf b invisible evs] by simp
qed

text \<open>An OSC that breaks off a CSI.\<close>

lemma osc_in_csi:
  assumes "l_state p = Csi i buf" and "list_all (\<lambda>b. 0x20 \<le> b) payload"
    and "length payload \<le> MAX_OSC_PAYLOAD_BYTES"
  shows "foldM (live_step invisible) (p, evs) ([0x1b, 0x5d] @ payload @ [0x07]) =
    Some (finish_osc invisible payload
      (p\<lparr>l_passthrough := l_passthrough p @ introducer_bytes i @ buf\<rparr>, evs))"
proof -
  let ?p = "p\<lparr>l_passthrough := l_passthrough p @ introducer_bytes i @ buf\<rparr>"
  have open_osc: "foldM (live_step invisible) (p, evs) [0x1b, 0x5d] = Some (?p\<lparr>l_state := Osc []\<rparr>, evs)"
    using assms(1) by (simp add: live_step_def step_byte_def csi_byte_def esc_byte_def go_def push_bytes_def)
  have body: "foldM (live_step invisible) (?p\<lparr>l_state := Osc []\<rparr>, evs) payload =
      Some (?p\<lparr>l_state := Osc payload\<rparr>, evs)"
    using osc_steps [of "?p\<lparr>l_state := Osc []\<rparr>" "[]" payload invisible evs] assms(2,3) by simp
  have "live_step invisible (?p\<lparr>l_state := Osc payload\<rparr>, evs) 0x07 = Some (finish_osc invisible payload (?p, evs))"
    by (simp add: live_step_def step_byte_def osc_byte_def finish_osc_def go_def)
  moreover have "foldM (live_step invisible) (p, evs) ([0x1b, 0x5d] @ payload @ [0x07]) =
      Option.bind (Option.bind (foldM (live_step invisible) (p, evs) [0x1b, 0x5d])
        (\<lambda>s. foldM (live_step invisible) s payload)) (\<lambda>s. Option.bind (live_step invisible s 0x07) Some)"
    by (simp add: foldM_append del: append_Cons)
  ultimately show ?thesis by (simp only: open_osc body Option.bind.simps)
qed

lemma live_feeds_osc:
  assumes "live_feeds invisible c reads = Some (p, evs)" and "l_state p = Csi i buf"
    and "list_all (\<lambda>b. 0x20 \<le> b) payload" and "length payload \<le> MAX_OSC_PAYLOAD_BYTES"
  shows "live_feeds invisible c (reads @ [0x1b # 0x5d # payload @ [0x07]]) =
    Some (flush (finish_osc invisible payload (p\<lparr>l_passthrough := introducer_bytes i @ buf\<rparr>, evs)))"
  using live_feeds_snoc [OF assms(1), of "[0x1b, 0x5d] @ payload @ [0x07]"]
    osc_in_csi [OF assms(2-4), of invisible evs] feeds_flushed [OF assms(1)] by simp

lemma live_feeds_text:
  assumes "live_feeds invisible c reads = Some (p, evs)" and "l_state p = Ground"
    and "list_all (\<lambda>b. \<not> is_introducer b) data" and "data \<noteq> []"
  shows "live_feeds invisible c (reads @ [data]) =
    Some (p\<lparr>l_tail := tail_after (l_tail p) data\<rparr>, evs @ [Bytes data])"
proof -
  have ok: "run_ok c (p, evs)" using live_feeds_ok [of invisible c reads] assms(1) by (simp add: runs_def)
  then have "tail_ok (l_tail p)" using run_okD by fastforce
  moreover have "l_passthrough p = []" using feeds_flushed [OF assms(1)] by simp
  moreover have "p\<lparr>l_passthrough := [], l_tail := t\<rparr> = p\<lparr>l_tail := t\<rparr>" if "l_passthrough p = []" for t
    using that by simp
  ultimately show ?thesis
    using assms(2-4) ground_run [OF ok, of data invisible]
    by (simp add: live_feeds_snoc [OF assms(1)] ground_plain_eq flush_def)
qed

text \<open>
  C40: The filtering of modes can be evaded.  A CSI broken off by ESC is forwarded as far as it had
  come, without the ESC; when an OSC 133 mark follows, which is not forwarded, the rest of the
  sequence can follow as text.  The bytes displayed are then the sequence that the configuration
  suppresses, although the parser itself neither tracks nor announces the mode.
\<close>

theorem filter_evaded:
  "map_option (\<lambda>(p, evs). (displayed evs, mouse_mode p)) (live_feeds (\<lambda>_. False)
       \<lparr>c_mouse_reporting = False, c_focus_reporting = False\<rparr>
       [[0x1b, 0x5b, 0x3f, 0x31, 0x30, 0x30], [0x1b, 0x5d, 0x31, 0x33, 0x33, 0x3b, 0x41, 0x07],
        [0x30, 0x68]]) =
     Some (mode_seq [1000] True, MouseNone)"
proof -
  let ?c = "\<lparr>c_mouse_reporting = False, c_focus_reporting = False\<rparr>" and ?no = "\<lambda>_. False"
  note run = live_step_def is_introducer_def ground_introducer_def clear_tail_def go_def step_byte_def
    esc_byte_def csi_byte_def flush_def MAX_CSI_BYTES_def
  let ?mark = "[0x31, 0x33, 0x33, 0x3b, 0x41] :: bytes"
  have "from_utf8 ?mark = Some (map ucast ?mark)"
    using str_bytes_ascii [of ?mark] str_ok_ascii [of ?mark] by (simp add: from_utf8_iff)
  then have mark: "handle_osc ?no ?mark = [PromptStart]"
    by (simp add: handle_osc_def prefix_literals strip_prefix_def handle_osc133_def)
  obtain p where p: "p = with_config ?c" by blast
  have idle: "l_state p = Ground" "l_passthrough p = []" "l_mouse_tracking p = 0"
    by (simp_all add: p with_config_def)
  have same: "p\<lparr>l_state := Ground, l_passthrough := []\<rparr> = p" using idle by simp
  have 1: "live_feeds ?no ?c ([] @ [[0x1b, 0x5b, 0x3f, 0x31, 0x30, 0x30]]) =
      Some (p\<lparr>l_state := Csi EscBracket [0x3f, 0x31, 0x30, 0x30]\<rparr>, [])"
    using live_feeds_snoc [of ?no ?c "[]" p "[]"]
    by (simp add: live_feeds_def p with_config_def tail_default_def tail_clear_def run)
  have "flush (finish_osc ?no ?mark (p\<lparr>l_state := Csi EscBracket [0x3f, 0x31, 0x30, 0x30],
        l_passthrough := [0x1b, 0x5b, 0x3f, 0x31, 0x30, 0x30]\<rparr>, [])) =
      (p, [Bytes [0x1b, 0x5b, 0x3f, 0x31, 0x30, 0x30], PromptStart])"
    using same idle(2) by (simp add: finish_osc_def mark go_def flush_def push_events_def)
  then have 2: "live_feeds ?no ?c ([[0x1b, 0x5b, 0x3f, 0x31, 0x30, 0x30]] @ [0x1b # 0x5d # ?mark @ [0x07]]) =
      Some (p, [Bytes [0x1b, 0x5b, 0x3f, 0x31, 0x30, 0x30], PromptStart])"
    using live_feeds_osc [OF 1, of EscBracket "[0x3f, 0x31, 0x30, 0x30]" ?mark]
    by (simp add: MAX_OSC_PAYLOAD_BYTES_def)
  show ?thesis
    using live_feeds_text [OF 2 idle(1), of "[0x30, 0x68]"] idle(3)
    by (simp add: is_introducer_def displayed_def mouse_mode_def mode_seq_one dec.simps mode_final_def)
qed

end
