(* ===== verification/Replay_Loop_Properties.thy ===== *)
theory Replay_Loop_Properties
  imports Replay_Properties
begin

text \<open>The one loop of the model that is not total by its shape: the bulk path for ASCII.\<close>

text \<open>The same loop with a bound on its turns.\<close>

fun ascii_turns :: "nat \<Rightarrow> nat \<Rightarrow> emulator \<Rightarrow> bytes \<Rightarrow> emulator option" where
  "ascii_turns turns pen e [] = Some e"
| "ascii_turns 0 pen e (x # rest) = None"
| "ascii_turns (Suc turns) pen e (x # rest) =
     do { (e1, rest1) \<leftarrow> ascii_chunk pen e (x # rest); ascii_turns turns pen e1 rest1 }"

lemma ascii_turns_loop:
  assumes "wf_emu c r b e" and "e_pen_id e = Some p" and "\<forall>x \<in> set rest. printable_ascii x"
    and "length rest \<le> turns"
  shows "\<exists>e'. ascii_turns turns p e rest = Some e' \<and> ascii_loop p e rest = Some e'"
  using assms
proof (induction turns arbitrary: e rest)
  case 0
  then show ?case by (simp add: ascii_loop.simps)
next
  case (Suc turns)
  show ?case
  proof (cases rest)
    case Nil
    then show ?thesis by (simp add: ascii_loop.simps)
  next
    case (Cons x xs)
    then have "rest \<noteq> []" by simp
    from ascii_chunk_wf [OF Suc.prems(1) this Suc.prems(2,3)] obtain e1 rest1
      where chunk: "ascii_chunk p e rest = Some (e1, rest1)" and wf: "wf_emu c r b e1" "e_pen_id e1 = Some p"
        and less: "length rest1 < length rest" "set rest1 \<subseteq> set rest"
      by (auto simp: runs_def)
    have "\<exists>e'. ascii_turns turns p e1 rest1 = Some e' \<and> ascii_loop p e1 rest1 = Some e'"
      using less Suc.prems(3,4) by (intro Suc.IH [OF wf]) auto
    then show ?thesis using chunk Cons by (subst ascii_loop.simps) auto
  qed
qed

text \<open>
  C29: the bulk loop for ASCII ends: in every state that a session can reach, for every run of
  printable bytes, it returns after at most one turn per byte.
\<close>

theorem bulk_loop_terminates:
  assumes "session uw cols rows b actions = Some sr" and "list_all printable_ascii run"
  shows "\<exists>e. ascii_turns (length run) (snd (take_pen_id (sr_emulator sr))) (fst (take_pen_id (sr_emulator sr))) run = Some e \<and>
    ascii_loop (snd (take_pen_id (sr_emulator sr))) (fst (take_pen_id (sr_emulator sr))) run = Some e"
proof -
  have "runs (session uw cols rows b actions) (\<lambda>sr. \<exists>c r. wf_emu c r b (sr_emulator sr))"
    by (rule session_wf) (auto simp: wf_replay_def)
  then obtain c r where wf: "wf_emu c r b (sr_emulator sr)" using assms(1) by (auto simp: runs_def)
  show ?thesis
    using take_pen_id_wf [OF wf] assms(2) by (intro ascii_turns_loop) (auto simp: list_all_iff)
qed

theorem bulk_loop_terminates_witness:
  "\<exists>sr. session (\<lambda>c. Some 1) 4 2 100 [] = Some sr \<and>
     ascii_loop (snd (take_pen_id (sr_emulator sr))) (fst (take_pen_id (sr_emulator sr)))
       [0x61, 0x62, 0x63, 0x64, 0x65] \<noteq> None"
proof -
  obtain sr where sr: "session (\<lambda>c. Some 1) 4 2 100 [] = Some sr"
    using session_runs [of "\<lambda>c. Some 1" 4 2 100 "[]"] by (auto simp: runs_def)
  have "list_all printable_ascii [0x61, 0x62, 0x63, 0x64, 0x65]" by code_simp
  from bulk_loop_terminates [OF sr this] sr show ?thesis by auto
qed

end
