(* ===== verification/Dashboard_Query.thy ===== *)
theory Dashboard_Query
  imports Dashboard_Rows
begin

text \<open>
  Task queries, \<open>src/src/agent_task/query.rs\<close>: the tokens of a search text, the terms they make and
  the rows a query matches.  \<open>lower\<close> stands for \<open>str::to_lowercase\<close> and \<open>id_text\<close> for the
  text of a uuid.
\<close>

definition MAX_TERMS :: nat where "MAX_TERMS = 32"

subsection \<open>Tokens\<close>

record query_token =
  tk_value :: str
  tk_negated :: bool
  tk_literal :: bool

text \<open>
  The inner loop: the characters of one token.  It returns the value, whether a quote is open,
  whether the token is literal, and the text left.
\<close>

fun token_loop :: "str \<Rightarrow> bool \<Rightarrow> bool \<Rightarrow> str \<Rightarrow> str \<times> bool \<times> bool \<times> str" where
  "token_loop value quoted literal [] = (value, quoted, literal, [])"
| "token_loop value quoted literal (c # rest) =
     (if is_whitespace c \<and> \<not> quoted then (value, quoted, literal, c # rest)
      else if c = 0x22
      then token_loop value (\<not> quoted) (if value = [] \<and> \<not> quoted then True else literal) rest
      else if quoted \<and> c = 0x5c \<and> rest \<noteq> [] \<and> (hd rest = 0x22 \<or> hd rest = 0x5c)
      then token_loop (value @ [hd rest]) quoted literal (tl rest)
      else token_loop (value @ [c]) quoted literal rest)"

lemma token_loop_rest: "length (snd (snd (snd (token_loop v q l s)))) \<le> length s"
proof (induction v q l s rule: token_loop.induct)
  case (2 v q l c rest)
  then show ?case by (cases rest) (auto intro: le_SucI)
qed simp

definition CLOSE_QUOTE :: str where
  "CLOSE_QUOTE = lit ''Close the double quote to finish the search phrase.''"

definition EMPTY_TERM :: str where
  "EMPTY_TERM = lit ''Enter a search term after '' @ [0x27, 0x2d, 0x27] @ lit '' or inside the double quotes.''"

function tokenize_loop :: "nat \<Rightarrow> query_token list \<Rightarrow> str \<Rightarrow> str + query_token list" where
  "tokenize_loop max_terms tokens [] = Inr tokens"
| "tokenize_loop max_terms tokens (c # s) =
     (if is_whitespace c then tokenize_loop max_terms tokens s
      else
        (let negated = (c = 0x2d); quoted = (c = 0x22);
             r = token_loop (if \<not> negated \<and> \<not> quoted then [c] else []) quoted quoted s
         in if fst (snd r) then Inl CLOSE_QUOTE
            else if fst r = [] then Inl EMPTY_TERM
            else
              (let tokens = tokens @ [\<lparr>tk_value = fst r, tk_negated = negated,
                     tk_literal = fst (snd (snd r))\<rparr>]
               in if max_terms < length tokens
                  then Inl (lit ''Use at most '' @ nat_text max_terms @ lit '' search terms.'')
                  else tokenize_loop max_terms tokens (snd (snd (snd r))))))"
  by pat_completeness auto
termination
  by (relation "measure (\<lambda>(n, ts, s). length s)")
    (auto simp: less_Suc_eq_le token_loop_rest)

definition tokenize :: "str \<Rightarrow> str + query_token list" where
  "tokenize s = tokenize_loop MAX_TERMS [] s"

definition normalize_value :: "str \<Rightarrow> str" where
  "normalize_value value =
     map (\<lambda>c. if c = 0x5f \<or> c = 0x20 then 0x2d else c) (ascii_lowercase (str_trim value))"

subsection \<open>Values of fields\<close>

definition query_status :: "str \<Rightarrow> task_status option" where
  "query_status v =
     (if v = lit ''created'' \<or> v = lit ''not-started'' then Some TsCreated
      else if v = lit ''starting'' then Some TsStarting
      else if v = lit ''working'' then Some TsWorking
      else if v = lit ''approval'' \<or> v = lit ''waiting-for-approval'' then Some TsWaitingForApproval
      else if v = lit ''input'' \<or> v = lit ''waiting-for-human'' \<or> v = lit ''waiting-for-you''
      then Some TsWaitingForHuman
      else if v = lit ''review'' \<or> v = lit ''ready-for-review'' then Some TsReadyForReview
      else if v = lit ''completed'' \<or> v = lit ''done'' then Some TsCompleted
      else if v = lit ''failed'' then Some TsFailed
      else if v = lit ''cancelled'' \<or> v = lit ''canceled'' then Some TsCancelled
      else if v = lit ''archived'' then Some TsArchived
      else None)"

definition query_provider :: "str \<Rightarrow> agent_provider option" where
  "query_provider v = (if v = lit ''open-code'' then Some PrOpenCode else from_config_value v)"

definition query_runtime :: "str \<Rightarrow> runtime_kind option" where
  "query_runtime v =
     (if v = lit ''unassigned'' \<or> v = lit ''not-started'' then Some RkUnassigned
      else if v = lit ''terminal'' \<or> v = lit ''pty'' then Some RkTerminal
      else if v = lit ''native'' then Some RkNative
      else if v = lit ''fallback'' \<or> v = lit ''terminal-fallback'' then Some RkTerminalFallback
      else None)"

definition query_validation :: "str \<Rightarrow> validation_status option" where
  "query_validation v =
     (if v = lit ''not-run'' \<or> v = lit ''none'' then Some VsNotRun
      else if v = lit ''running'' then Some VsRunning
      else if v = lit ''passed'' then Some VsPassed
      else if v = lit ''failed'' then Some VsFailed
      else if v = lit ''inconclusive'' \<or> v = lit ''needs-review'' then Some VsInconclusive
      else if v = lit ''cancelled'' \<or> v = lit ''canceled'' then Some VsCancelled
      else None)"

definition query_attention :: "str \<Rightarrow> attention_kind option" where
  "query_attention v = List.find (\<lambda>k. attention_query_value k = v) attention_kinds"

subsection \<open>Fields\<close>

datatype query_field = QfText | QfTitle | QfProject | QfBranch | QfId | QfProvider | QfStatus
  | QfRuntime | QfValidation | QfAttention | QfIs

definition field_parse :: "str \<Rightarrow> query_field option" where
  "field_parse value =
     (let v = ascii_lowercase value
      in if v = lit ''title'' then Some QfTitle
         else if v = lit ''project'' \<or> v = lit ''repo'' \<or> v = lit ''workspace'' then Some QfProject
         else if v = lit ''branch'' then Some QfBranch
         else if v = lit ''id'' then Some QfId
         else if v = lit ''provider'' then Some QfProvider
         else if v = lit ''status'' \<or> v = lit ''state'' then Some QfStatus
         else if v = lit ''runtime'' then Some QfRuntime
         else if v = lit ''validation'' then Some QfValidation
         else if v = lit ''attention'' then Some QfAttention
         else if v = lit ''is'' then Some QfIs
         else None)"

definition is_enumerated :: "query_field \<Rightarrow> bool" where
  "is_enumerated f \<longleftrightarrow> f \<in> {QfProvider, QfStatus, QfRuntime, QfValidation, QfAttention, QfIs}"

definition is_values :: "str list" where
  "is_values = [lit ''attention'', lit ''running'', lit ''not-started'', lit ''review'', lit ''finished'',
     lit ''archived'', lit ''preparing'', lit ''agent-stream'', lit ''validation-running'']"

definition field_accepts :: "query_field \<Rightarrow> str \<Rightarrow> bool" where
  "field_accepts f v \<longleftrightarrow>
     (case f of
        QfProvider \<Rightarrow> query_provider v \<noteq> None
      | QfStatus \<Rightarrow> query_status v \<noteq> None
      | QfRuntime \<Rightarrow> query_runtime v \<noteq> None
      | QfValidation \<Rightarrow> query_validation v \<noteq> None
      | QfAttention \<Rightarrow> query_attention v \<noteq> None
      | QfIs \<Rightarrow> v \<in> set is_values
      | _ \<Rightarrow> v \<noteq> [])"

definition field_help :: "query_field \<Rightarrow> str" where
  "field_help f =
     (case f of
        QfProvider \<Rightarrow> lit ''provider:codex,claude,opencode,kimi''
      | QfStatus \<Rightarrow> lit ''status:created,starting,working,approval,input,review,completed,failed,cancelled,archived''
      | QfRuntime \<Rightarrow> lit ''runtime:unassigned,terminal,native,fallback''
      | QfValidation \<Rightarrow> lit ''validation:not-run,running,passed,failed,inconclusive,cancelled''
      | QfAttention \<Rightarrow> lit ''attention:approval,input,validation,review,failed''
      | QfIs \<Rightarrow> lit ''is:attention,running,not-started,review,finished,archived,preparing,agent-stream,validation-running''
      | _ \<Rightarrow> lit ''Use a non-empty search value; put phrases in double quotes.'')"

subsection \<open>Queries\<close>

record query_term =
  qt_field :: query_field
  qt_values :: "str list"
  qt_negated :: bool

record dashboard_query =
  dq_terms :: "query_term list"
  dq_needs_text :: bool

text \<open>The field and the value of a token; a colon that names no field is an error but in addresses.\<close>

definition address_like :: "str \<Rightarrow> str \<Rightarrow> bool" where
  "address_like name value \<longleftrightarrow> starts_with value [0x2f, 0x2f] \<or>
     (str_len name = 1 \<and> (case name of c # _ \<Rightarrow> (0x41 \<le> c \<and> c \<le> 0x5a) \<or> (0x61 \<le> c \<and> c \<le> 0x7a) | [] \<Rightarrow> False) \<and>
      (starts_with value [0x2f] \<or> starts_with value [0x5c]))"

definition token_field :: "query_token \<Rightarrow> str + (query_field \<times> str)" where
  "token_field tok =
     (if tk_literal tok then Inr (QfText, tk_value tok)
      else (case split_once 0x3a (tk_value tok) of
              Some (name, value) \<Rightarrow>
                (case field_parse name of
                   Some f \<Rightarrow> Inr (f, value)
                 | None \<Rightarrow>
                     if address_like name value then Inr (QfText, tk_value tok)
                     else Inl (lit ''Unknown task filter '' @ [0x27] @ name @ [0x27] @
                       lit ''. Use provider:, status:, runtime:, validation:, attention:, is:, project:, branch:, title: or id:. Quote literal text containing a colon.''))
            | None \<Rightarrow> Inr (QfText, tk_value tok)))"

definition token_term :: "(str \<Rightarrow> str) \<Rightarrow> query_token \<Rightarrow> str + query_term" where
  "token_term lower tok =
     (case token_field tok of
        Inl e \<Rightarrow> Inl e
      | Inr (f, value) \<Rightarrow>
          (let values = (if is_enumerated f then map normalize_value (split_on 0x2c value) else [lower value])
           in if list_ex (\<lambda>v. v = [] \<or> \<not> field_accepts f v) values
              then Inl (lit ''Invalid or empty task filter. '' @ field_help f)
              else Inr \<lparr>qt_field = f, qt_values = values, qt_negated = tk_negated tok\<rparr>))"

fun collect_terms :: "(str \<Rightarrow> str) \<Rightarrow> query_token list \<Rightarrow> str + query_term list" where
  "collect_terms lower [] = Inr []"
| "collect_terms lower (tok # toks) =
     (case token_term lower tok of
        Inl e \<Rightarrow> Inl e
      | Inr t \<Rightarrow> (case collect_terms lower toks of Inl e \<Rightarrow> Inl e | Inr ts \<Rightarrow> Inr (t # ts)))"

definition query_parse :: "(u32 \<Rightarrow> bool) \<Rightarrow> (str \<Rightarrow> str) \<Rightarrow> str \<Rightarrow> str + dashboard_query" where
  "query_parse invisible lower s =
     (if DASHBOARD_QUERY_MAX_BYTES < str_len s
      then Inl (lit ''Task search is limited to '' @ nat_text DASHBOARD_QUERY_MAX_BYTES @ lit '' bytes.'')
      else if list_ex (\<lambda>c. (is_control c \<and> \<not> (c = 0x09 \<or> c = 0x0a \<or> c = 0x0d)) \<or> invisible c) s
      then Inl (lit ''Remove hidden control or direction-changing characters from the search.'')
      else (case tokenize (str_trim s) of
              Inl e \<Rightarrow> Inl e
            | Inr toks \<Rightarrow>
                (case collect_terms lower toks of
                   Inl e \<Rightarrow> Inl e
                 | Inr ts \<Rightarrow> Inr \<lparr>dq_terms = ts,
                     dq_needs_text = list_ex (\<lambda>t. qt_field t \<in> {QfText, QfTitle, QfProject, QfBranch, QfId}) ts\<rparr>)))"

definition query_error :: "(u32 \<Rightarrow> bool) \<Rightarrow> (str \<Rightarrow> str) \<Rightarrow> str \<Rightarrow> str option" where
  "query_error invisible lower s =
     (case query_parse invisible lower s of Inl e \<Rightarrow> Some e | Inr _ \<Rightarrow> None)"

subsection \<open>Matching\<close>

record row_text =
  rt_title :: str
  rt_project :: str
  rt_branch :: str
  rt_id :: str
  rt_detail :: str
  rt_provider :: str
  rt_state :: str
  rt_runtime :: str
  rt_validation :: str

definition row_text_new :: "(str \<Rightarrow> str) \<Rightarrow> (task_id \<Rightarrow> str) \<Rightarrow> dashboard_row \<Rightarrow> row_text" where
  "row_text_new lower id_text r =
     \<lparr>rt_title = lower (dr_title r), rt_project = lower (dr_repo_label r), rt_branch = lower (dr_branch r),
      rt_id = id_text (dr_id r), rt_detail = lower (case dr_detail r of Some d \<Rightarrow> d | None \<Rightarrow> []),
      rt_provider = lower (display_name (dr_provider r)), rt_state = lower (status_label (dr_status r)),
      rt_runtime = lower (runtime_label (dr_runtime r)),
      rt_validation = lower (validation_label (dr_validation r))\<rparr>"

definition row_text_fields :: "row_text \<Rightarrow> str list" where
  "row_text_fields t = [rt_title t, rt_project t, rt_branch t, rt_id t, rt_detail t, rt_provider t,
     rt_state t, rt_runtime t, rt_validation t]"

fun str_contains :: "str \<Rightarrow> str \<Rightarrow> bool" where
  "str_contains [] p \<longleftrightarrow> p = []"
| "str_contains (c # s) p \<longleftrightarrow> starts_with (c # s) p \<or> str_contains s p"

definition is_matches :: "dashboard_row \<Rightarrow> str \<Rightarrow> bool" where
  "is_matches r v \<longleftrightarrow>
     (if v = lit ''attention'' then dr_attention r \<and> dr_status r \<noteq> TsArchived
      else if v = lit ''running'' then row_is_running r
      else if v = lit ''not-started'' then dr_status r = TsCreated
      else if v = lit ''review'' then dr_status r = TsReadyForReview
      else if v = lit ''finished'' then dr_status r = TsCompleted \<or> dr_status r = TsFailed \<or> dr_status r = TsCancelled
      else if v = lit ''archived'' then dr_status r = TsArchived
      else if v = lit ''preparing'' then ac_preparing (dr_activity r)
      else if v = lit ''agent-stream'' then ac_agent_stream (dr_activity r)
      else v = lit ''validation-running'' \<and> dr_validation r = VsRunning)"

definition value_matches :: "row_text \<Rightarrow> dashboard_row \<Rightarrow> query_field \<Rightarrow> str \<Rightarrow> bool" where
  "value_matches t r f v \<longleftrightarrow>
     (case f of
        QfText \<Rightarrow> list_ex (\<lambda>field. str_contains field v) (row_text_fields t)
      | QfTitle \<Rightarrow> str_contains (rt_title t) v
      | QfProject \<Rightarrow> str_contains (rt_project t) v
      | QfBranch \<Rightarrow> str_contains (rt_branch t) v
      | QfId \<Rightarrow> str_contains (rt_id t) v
      | QfProvider \<Rightarrow> query_provider v = Some (dr_provider r)
      | QfStatus \<Rightarrow> query_status v = Some (dr_status r)
      | QfRuntime \<Rightarrow> query_runtime v = Some (dr_runtime r)
      | QfValidation \<Rightarrow> query_validation v = Some (dr_validation r)
      | QfAttention \<Rightarrow> (case query_attention v of Some k \<Rightarrow> row_attention_kind r = Some k | None \<Rightarrow> False)
      | QfIs \<Rightarrow> is_matches r v)"

definition term_matches :: "row_text \<Rightarrow> dashboard_row \<Rightarrow> query_term \<Rightarrow> bool" where
  "term_matches t r q \<longleftrightarrow> list_ex (value_matches t r (qt_field q)) (qt_values q) \<noteq> qt_negated q"

definition query_matches :: "(str \<Rightarrow> str) \<Rightarrow> (task_id \<Rightarrow> str) \<Rightarrow> dashboard_query \<Rightarrow> dashboard_row \<Rightarrow> bool" where
  "query_matches lower id_text q r \<longleftrightarrow>
     dq_terms q = [] \<or> list_all (term_matches (row_text_new lower id_text r) r) (dq_terms q)"

end
