(* ===== verification/Dashboard.thy ===== *)
theory Dashboard
  imports Dashboard_Query "HOL-Library.Product_Lexorder" "HOL-Library.List_Lexorder"
begin

text \<open>
  The dashboard's projection of tasks, \<open>DashboardSnapshot\<close> in \<open>src/src/agent_task/dashboard.rs\<close>:
  filtering, counting, sorting and moving the selection.  Strings are compared by their bytes in the
  code; UTF-8 keeps the order of the code points, which are compared here.
\<close>

datatype dashboard_sort = SortAttention | SortRecent | SortOldest | SortTitle | SortProject
  | SortAttentionOldest

definition sort_label :: "dashboard_sort \<Rightarrow> str" where
  "sort_label s =
     (case s of
        SortAttention \<Rightarrow> lit ''Needs you first'' | SortRecent \<Rightarrow> lit ''Recently updated''
      | SortOldest \<Rightarrow> lit ''Oldest update'' | SortTitle \<Rightarrow> lit ''Task name'' | SortProject \<Rightarrow> lit ''Project''
      | SortAttentionOldest \<Rightarrow> lit ''Needs you '' @ [0xb7] @ lit '' oldest update'')"

datatype dashboard_view = ViewAll | ViewNeedsAttention | ViewRunning | ViewNotStarted | ViewReview | ViewFinished

definition view_matches :: "dashboard_view \<Rightarrow> dashboard_row \<Rightarrow> bool" where
  "view_matches v r \<longleftrightarrow>
     (case v of
        ViewAll \<Rightarrow> True
      | ViewNeedsAttention \<Rightarrow> dr_attention r
      | ViewRunning \<Rightarrow> row_is_running r
      | ViewNotStarted \<Rightarrow> dr_status r = TsCreated
      | ViewReview \<Rightarrow> dr_status r = TsReadyForReview
      | ViewFinished \<Rightarrow> dr_status r = TsCompleted \<or> dr_status r = TsFailed \<or> dr_status r = TsCancelled)"

record dashboard_filter =
  df_provider :: "agent_provider option"
  df_repo_root :: "bytes option"
  df_text :: str
  df_group :: "dashboard_group option"
  df_view :: dashboard_view

subsection \<open>Counts\<close>

record dashboard_counts =
  dc_total :: nat
  dc_created :: nat
  dc_active :: nat
  dc_pending_approval :: nat
  dc_waiting_for_human :: nat
  dc_review :: nat
  dc_done :: nat
  dc_failed :: nat
  dc_cancelled :: nat
  dc_archived :: nat
  dc_attention :: nat
  dc_running :: nat

definition dashboard_counts_default :: dashboard_counts where
  "dashboard_counts_default = \<lparr>dc_total = 0, dc_created = 0, dc_active = 0, dc_pending_approval = 0,
     dc_waiting_for_human = 0, dc_review = 0, dc_done = 0, dc_failed = 0, dc_cancelled = 0,
     dc_archived = 0, dc_attention = 0, dc_running = 0\<rparr>"

definition dashboard_counts_add :: "dashboard_counts \<Rightarrow> dashboard_row \<Rightarrow> dashboard_counts" where
  "dashboard_counts_add c r =
     (let c = c\<lparr>dc_total := dc_total c + 1\<rparr>;
          c = (case row_group r of
                 DgCreated \<Rightarrow> c\<lparr>dc_created := dc_created c + 1\<rparr>
               | DgActive \<Rightarrow> c\<lparr>dc_active := dc_active c + 1\<rparr>
               | DgPendingApproval \<Rightarrow> c\<lparr>dc_pending_approval := dc_pending_approval c + 1\<rparr>
               | DgWaitingForHuman \<Rightarrow> c\<lparr>dc_waiting_for_human := dc_waiting_for_human c + 1\<rparr>
               | DgReview \<Rightarrow> c\<lparr>dc_review := dc_review c + 1\<rparr>
               | DgDone \<Rightarrow> c\<lparr>dc_done := dc_done c + 1\<rparr>
               | DgFailed \<Rightarrow> c\<lparr>dc_failed := dc_failed c + 1\<rparr>
               | DgCancelled \<Rightarrow> c\<lparr>dc_cancelled := dc_cancelled c + 1\<rparr>
               | DgArchived \<Rightarrow> c\<lparr>dc_archived := dc_archived c + 1\<rparr>)
      in c\<lparr>dc_attention := dc_attention c + of_bool (dr_attention r),
           dc_running := dc_running c + of_bool (row_is_running r)\<rparr>)"

record dashboard_snapshot =
  ds_rows :: "dashboard_row list"
  ds_counts :: dashboard_counts

definition snapshot_default :: dashboard_snapshot where
  "snapshot_default = \<lparr>ds_rows = [], ds_counts = dashboard_counts_default\<rparr>"

subsection \<open>Sorting\<close>

text \<open>
  The key of a row: a name, a rank, a time and the uuid.  The keys that the code sorts unstably end
  in the uuid, so rows of different tasks have different keys and the result is this one.
\<close>

type_synonym sort_key_type = "str \<times> nat \<times> u64 \<times> uuid"

definition row_key :: "(str \<Rightarrow> str) \<Rightarrow> dashboard_sort \<Rightarrow> dashboard_row \<Rightarrow> sort_key_type" where
  "row_key lower s r =
     (let recent = - 1 - dr_updated_ms r
      in case s of
           SortTitle \<Rightarrow> (lower (dr_title r), 0, recent, dr_id r)
         | SortProject \<Rightarrow> (lower (dr_repo_label r), row_rank r, recent, dr_id r)
         | SortAttention \<Rightarrow> ([], row_rank r, recent, dr_id r)
         | SortRecent \<Rightarrow> ([], 0, recent, dr_id r)
         | SortOldest \<Rightarrow> ([], 0, dr_updated_ms r, dr_id r)
         | SortAttentionOldest \<Rightarrow> ([], row_rank r, dr_updated_ms r, dr_id r))"

definition sort_rows :: "(str \<Rightarrow> str) \<Rightarrow> dashboard_sort \<Rightarrow> dashboard_snapshot \<Rightarrow> dashboard_snapshot" where
  "sort_rows lower s snap = snap\<lparr>ds_rows := sort_key (row_key lower s) (ds_rows snap)\<rparr>"

subsection \<open>Projection\<close>

definition filter_row :: "(dashboard_row \<Rightarrow> bool) \<Rightarrow> (dashboard_row \<Rightarrow> bool) \<Rightarrow> dashboard_snapshot \<Rightarrow>
    dashboard_row \<Rightarrow> dashboard_snapshot" where
  "filter_row scope keep snap r =
     (if \<not> scope r then snap
      else (let snap = snap\<lparr>ds_counts := dashboard_counts_add (ds_counts snap) r\<rparr>
            in if keep r then snap\<lparr>ds_rows := ds_rows snap @ [r]\<rparr> else snap))"

definition filter_iter_unsorted ::
  "(u32 \<Rightarrow> bool) \<Rightarrow> (str \<Rightarrow> str) \<Rightarrow> (task_id \<Rightarrow> str) \<Rightarrow> dashboard_row list \<Rightarrow> str \<Rightarrow> dashboard_view \<Rightarrow>
     dashboard_snapshot" where
  "filter_iter_unsorted invisible lower id_text rows text view =
     (case query_parse invisible lower text of
        Inl _ \<Rightarrow> snapshot_default
      | Inr q \<Rightarrow> foldl (filter_row (query_matches lower id_text q) (view_matches view)) snapshot_default rows)"

definition filter_rows ::
  "(u32 \<Rightarrow> bool) \<Rightarrow> (str \<Rightarrow> str) \<Rightarrow> (task_id \<Rightarrow> str) \<Rightarrow> dashboard_row list \<Rightarrow> str \<Rightarrow> dashboard_view \<Rightarrow>
     dashboard_snapshot" where
  "filter_rows invisible lower id_text rows text view =
     sort_rows lower SortAttention (filter_iter_unsorted invisible lower id_text rows text view)"

definition task_in_scope :: "dashboard_filter \<Rightarrow> agent_task \<Rightarrow> bool" where
  "task_in_scope f t \<longleftrightarrow>
     \<not> ((case df_provider f of Some p \<Rightarrow> at_provider t \<noteq> p | None \<Rightarrow> False) \<or>
        (case df_repo_root f of Some repo \<Rightarrow> \<not> path_eq (at_repo_root t) repo | None \<Rightarrow> False))"

definition row_kept :: "dashboard_filter \<Rightarrow> dashboard_row \<Rightarrow> bool" where
  "row_kept f r \<longleftrightarrow> (case df_group f of Some g \<Rightarrow> row_group r = g | None \<Rightarrow> True) \<and> view_matches (df_view f) r"

definition project_unsorted ::
  "(u32 \<Rightarrow> bool) \<Rightarrow> (str \<Rightarrow> str) \<Rightarrow> (task_id \<Rightarrow> str) \<Rightarrow> agent_task list \<Rightarrow> (task_id \<Rightarrow> activity) \<Rightarrow>
     dashboard_filter \<Rightarrow> dashboard_snapshot" where
  "project_unsorted invisible lower id_text tasks act f =
     (case query_parse invisible lower (df_text f) of
        Inl _ \<Rightarrow> snapshot_default
      | Inr q \<Rightarrow>
          foldl (\<lambda>snap t.
             if \<not> task_in_scope f t then snap
             else filter_row (query_matches lower id_text q) (row_kept f) snap
                    (row_from_task invisible t (act (at_id t))))
            snapshot_default tasks)"

definition project_tasks ::
  "(u32 \<Rightarrow> bool) \<Rightarrow> (str \<Rightarrow> str) \<Rightarrow> (task_id \<Rightarrow> str) \<Rightarrow> agent_task list \<Rightarrow> (task_id \<Rightarrow> activity) \<Rightarrow>
     dashboard_filter \<Rightarrow> dashboard_snapshot" where
  "project_tasks invisible lower id_text tasks act f =
     sort_rows lower SortAttention (project_unsorted invisible lower id_text tasks act f)"

definition snapshot_attention_counts :: "dashboard_snapshot \<Rightarrow> attention_counts" where
  "snapshot_attention_counts snap =
     foldl (\<lambda>c r. counts_add_option c (row_attention_kind r)) counts_default (ds_rows snap)"

definition row_in_view :: "dashboard_view \<Rightarrow> attention_kind option \<Rightarrow> dashboard_row \<Rightarrow> bool" where
  "row_in_view view attn r \<longleftrightarrow> view_matches view r \<and>
     (case attn of Some k \<Rightarrow> row_attention_kind r = Some k | None \<Rightarrow> True)"

definition apply_view ::
  "(str \<Rightarrow> str) \<Rightarrow> dashboard_snapshot \<Rightarrow> dashboard_view \<Rightarrow> attention_kind option \<Rightarrow> dashboard_sort \<Rightarrow>
     dashboard_snapshot" where
  "apply_view lower snap view attn s =
     sort_rows lower s (snap\<lparr>ds_rows := filter (row_in_view view attn) (ds_rows snap)\<rparr>)"

text \<open>\<open>DashboardSnapshot::view\<close> builds the same snapshot afresh.\<close>

definition snapshot_view ::
  "(str \<Rightarrow> str) \<Rightarrow> dashboard_snapshot \<Rightarrow> dashboard_view \<Rightarrow> attention_kind option \<Rightarrow> dashboard_sort \<Rightarrow>
     dashboard_snapshot" where
  "snapshot_view lower snap view attn s =
     sort_rows lower s \<lparr>ds_rows = filter (row_in_view view attn) (ds_rows snap), ds_counts = ds_counts snap\<rparr>"

subsection \<open>Selection\<close>

definition selected_index :: "dashboard_snapshot \<Rightarrow> task_id option \<Rightarrow> nat option" where
  "selected_index snap selected =
     (case selected of Some i \<Rightarrow> position (\<lambda>r. dr_id r = i) (ds_rows snap) | None \<Rightarrow> None)"

text \<open>The index the navigation starts from, for a snapshot that has rows.\<close>

definition start_index :: "dashboard_snapshot \<Rightarrow> task_id option \<Rightarrow> bool \<Rightarrow> nat" where
  "start_index snap selected forward =
     (let n = length (ds_rows snap)
      in case selected_index snap selected of
           Some k \<Rightarrow> if forward then (k + 1) mod n else (k + n - 1) mod n
         | None \<Rightarrow> if forward then 0 else n - 1)"

definition step_selection :: "dashboard_snapshot \<Rightarrow> task_id option \<Rightarrow> bool \<Rightarrow> task_id option" where
  "step_selection snap selected forward =
     (if ds_rows snap = [] then None
      else Some (dr_id (ds_rows snap ! start_index snap selected forward)))"

definition step_attention :: "dashboard_snapshot \<Rightarrow> task_id option \<Rightarrow> bool \<Rightarrow> task_id option" where
  "step_attention snap selected forward =
     (let n = length (ds_rows snap); start = start_index snap selected forward
      in if n = 0 then None
         else map_option dr_id (List.find dr_attention
                (map (\<lambda>offset. ds_rows snap !
                   (if forward then (start + offset) mod n else (start + n - offset) mod n)) [0..<n])))"

definition next_attention :: "dashboard_snapshot \<Rightarrow> task_id option \<Rightarrow> task_id option" where
  "next_attention snap selected = step_attention snap selected True"

definition previous_attention :: "dashboard_snapshot \<Rightarrow> task_id option \<Rightarrow> task_id option" where
  "previous_attention snap selected = step_attention snap selected False"

end
