(* ===== verification/Dashboard_Facts.thy ===== *)
theory Dashboard_Facts
  imports Dashboard
begin

text \<open>Facts about the dashboard: its counts, its projections, its navigation and its phrases.\<close>

subsection \<open>Attention counts\<close>

lemma attention_of_needs:
  "attention_of (at_status t) (vs_status (at_validation t)) (at_status t \<noteq> TsArchived \<and> needs_attention t) \<noteq> None \<longleftrightarrow>
     at_status t \<noteq> TsArchived \<and> needs_attention t"
  by (cases "at_status t"; cases "vs_status (at_validation t)")
    (simp_all add: attention_of_def needs_attention_def status_needs_attention_def validation_needs_attention_def)

lemma attention_index_less: "attention_index k < 5"
  by (cases k) (simp_all add: attention_index_def)

lemma counts_add_total:
  "length c = 5 \<Longrightarrow> length (counts_add_option c k) = 5 \<and>
     counts_total (counts_add_option c k) = counts_total c + of_bool (k \<noteq> None)"
  using attention_index_less
  by (auto simp: counts_add_option_def counts_add_def counts_total_def sum_list_update split: option.split)

lemma counts_foldl:
  "length c = 5 \<Longrightarrow> counts_total (foldl (\<lambda>c x. counts_add_option c (f x)) c xs) =
     counts_total c + length (filter (\<lambda>x. f x \<noteq> None) xs)"
  by (induction xs arbitrary: c) (simp_all add: counts_add_total)

lemma counts_default_simps [simp]: "length counts_default = 5" "counts_total counts_default = 0"
  by (simp_all add: counts_default_def counts_total_def)

lemma total_from_tasks:
  "counts_total (counts_from_tasks ts) = length (filter (\<lambda>t. at_status t \<noteq> TsArchived \<and> needs_attention t) ts)"
  by (simp add: counts_from_tasks_def counts_foldl attention_of_needs del: not_None_eq)

lemma total_snapshot:
  "counts_total (snapshot_attention_counts snap) = length (filter (\<lambda>r. row_attention_kind r \<noteq> None) (ds_rows snap))"
  by (simp add: snapshot_attention_counts_def counts_foldl)

subsection \<open>Projection\<close>

definition groups_total :: "dashboard_counts \<Rightarrow> nat" where
  "groups_total c = dc_created c + dc_active c + dc_pending_approval c + dc_waiting_for_human c + dc_review c +
     dc_done c + dc_failed c + dc_cancelled c + dc_archived c"

lemma counts_add_simps:
  "dc_total (dashboard_counts_add c r) = dc_total c + 1"
  "groups_total (dashboard_counts_add c r) = groups_total c + 1"
  "dc_attention (dashboard_counts_add c r) = dc_attention c + of_bool (dr_attention r)"
  "dc_running (dashboard_counts_add c r) = dc_running c + of_bool (row_is_running r)"
  by (simp_all add: dashboard_counts_add_def groups_total_def Let_def split: dashboard_group.split)

text \<open>What the counts say of the rows they have counted.\<close>

definition counts_of :: "dashboard_counts \<Rightarrow> dashboard_row list \<Rightarrow> bool" where
  "counts_of c rs \<longleftrightarrow> dc_total c = length rs \<and> groups_total c = length rs \<and>
     dc_attention c = length (filter dr_attention rs) \<and> dc_running c = length (filter row_is_running rs)"

lemma counts_of_default: "counts_of dashboard_counts_default []"
  by (simp add: counts_of_def dashboard_counts_default_def groups_total_def)

lemma counts_of_add: "counts_of c rs \<Longrightarrow> counts_of (dashboard_counts_add c r) (rs @ [r])"
  by (simp add: counts_of_def counts_add_simps)

definition snapshot_of :: "dashboard_snapshot \<Rightarrow> (dashboard_row \<Rightarrow> bool) \<Rightarrow> dashboard_row list \<Rightarrow> bool" where
  "snapshot_of snap keep rs \<longleftrightarrow> ds_rows snap = filter keep rs \<and> counts_of (ds_counts snap) rs"

lemma snapshot_of_default: "snapshot_of snapshot_default keep []"
  by (simp add: snapshot_of_def snapshot_default_def counts_of_default)

lemma filter_row_of:
  "snapshot_of snap keep rs \<Longrightarrow> snapshot_of (filter_row scope keep snap r) keep (rs @ (if scope r then [r] else []))"
  by (simp add: snapshot_of_def filter_row_def Let_def counts_of_add)

lemma filter_fold_of:
  "snapshot_of snap keep rs \<Longrightarrow>
     snapshot_of (foldl (filter_row scope keep) snap xs) keep (rs @ filter scope xs)"
proof (induction xs arbitrary: snap rs)
  case (Cons x xs)
  from Cons.IH [OF filter_row_of [OF Cons.prems, of scope x]] show ?case by (simp split: if_splits)
qed simp

lemma project_fold_of:
  "snapshot_of snap keep rs \<Longrightarrow>
     snapshot_of (foldl (\<lambda>s t. if \<not> sel t then s else filter_row scope keep s (row t)) snap ts) keep
       (rs @ filter scope (map row (filter sel ts)))"
proof (induction ts arbitrary: snap rs)
  case (Cons t ts)
  show ?case
  proof (cases "sel t")
    case True
    from Cons.IH [OF filter_row_of [OF Cons.prems, of scope "row t"]] True show ?thesis by (simp split: if_splits)
  qed (simp add: Cons.IH [OF Cons.prems])
qed simp

subsection \<open>Navigation\<close>

lemma position_distinct:
  "distinct (map f xs) \<Longrightarrow> k < length xs \<Longrightarrow> position (\<lambda>x. f x = f (xs ! k)) xs = Some k"
proof (induction xs arbitrary: k)
  case (Cons x xs)
  show ?case
  proof (cases k)
    case (Suc j)
    then have "f x \<noteq> f (xs ! j)" using Cons.prems by (auto simp: image_iff)
    then show ?thesis using Cons Suc by simp
  qed simp
qed simp

lemma start_after:
  "distinct (map dr_id (ds_rows snap)) \<Longrightarrow> k < length (ds_rows snap) \<Longrightarrow>
     start_index snap (Some (dr_id (ds_rows snap ! k))) True = (k + 1) mod length (ds_rows snap)"
  by (simp add: start_index_def selected_index_def position_distinct Let_def)

text \<open>The first row that needs attention from an index on, in the direction of the order.\<close>

definition attention_from :: "dashboard_row list \<Rightarrow> nat \<Rightarrow> dashboard_row option" where
  "attention_from rs s = List.find dr_attention (map (\<lambda>d. rs ! ((s + d) mod length rs)) [0..<length rs])"

lemma next_attention_eq:
  "ds_rows snap \<noteq> [] \<Longrightarrow> next_attention snap sel =
     map_option dr_id (attention_from (ds_rows snap) (start_index snap sel True))"
  by (simp add: next_attention_def step_attention_def attention_from_def Let_def)

lemma attention_from_least:
  assumes "e < length rs" and "dr_attention (rs ! ((s + e) mod length rs))"
  obtains d where "d \<le> e" "attention_from rs s = Some (rs ! ((s + d) mod length rs))"
    "dr_attention (rs ! ((s + d) mod length rs))"
proof -
  let ?f = "\<lambda>d. rs ! ((s + d) mod length rs)"
  let ?P = "\<lambda>d. dr_attention (?f d)"
  define d where "d = (LEAST d. ?P d)"
  have d: "?P d" "d \<le> e" using assms(2) by (auto simp: d_def intro: LeastI Least_le)
  have before: "\<not> ?P k" if "k < d" for k using that not_less_Least unfolding d_def by blast
  have "List.find dr_attention (map ?f [0..<length rs]) = Some (?f d)"
    using d(1) before d(2) assms(1) by (auto simp: find_Some_iff intro!: exI [of _ d])
  then show ?thesis using that d by (simp add: attention_from_def)
qed

lemma attention_reached:
  assumes ids: "distinct (map dr_id (ds_rows snap))" and e: "e < length (ds_rows snap)"
    and target: "dr_attention (ds_rows snap ! ((s + e) mod length (ds_rows snap)))"
  shows "\<exists>k. (next_attention snap ^^ k) (map_option dr_id (attention_from (ds_rows snap) s)) =
    Some (dr_id (ds_rows snap ! ((s + e) mod length (ds_rows snap))))"
  using e target
proof (induction e arbitrary: s rule: less_induct)
  case (less e)
  let ?rs = "ds_rows snap"
  obtain d where d: "d \<le> e" "attention_from ?rs s = Some (?rs ! ((s + d) mod length ?rs))"
    using attention_from_least [OF less.prems] by metis
  show ?case
  proof (cases "d = e")
    case True
    then show ?thesis using d(2) by (intro exI [of _ 0]) simp
  next
    case False
    let ?s = "((s + d) mod length ?rs + 1) mod length ?rs" and ?e = "e - d - 1"
    have n: "(s + d) mod length ?rs < length ?rs" "?rs \<noteq> []" using less.prems(1) by (auto intro: mod_less_divisor)
    have "(?s + ?e) mod length ?rs = (s + d + 1 + ?e) mod length ?rs" by (metis mod_add_left_eq)
    also have "s + d + 1 + ?e = s + e" using d(1) False by simp
    finally have same: "(?s + ?e) mod length ?rs = (s + e) mod length ?rs" .
    have e: "?e < e" "?e < length ?rs" using d(1) False less.prems(1) by simp_all
    obtain k where k: "(next_attention snap ^^ k) (map_option dr_id (attention_from ?rs ?s)) =
        Some (dr_id (?rs ! ((s + e) mod length ?rs)))"
      using less.IH [OF e, of ?s] less.prems(2) unfolding same by blast
    have "next_attention snap (map_option dr_id (attention_from ?rs s)) =
        map_option dr_id (attention_from ?rs ?s)"
      using n d(2) start_after [OF ids n(1)] by (simp add: next_attention_eq)
    then show ?thesis using k by (intro exI [of _ "Suc k"]) (simp add: funpow_swap1)
  qed
qed

subsection \<open>Phrases\<close>

definition quote_phrase :: "str \<Rightarrow> str" where
  "quote_phrase s = 0x22 # concat (map (\<lambda>c. if c = 0x22 \<or> c = 0x5c then [0x5c, c] else [c]) s) @ [0x22]"

definition phrase_text :: "bool \<times> str \<Rightarrow> str" where
  "phrase_text p = (if fst p then [0x2d] else []) @ quote_phrase (snd p)"

definition phrase_token :: "bool \<times> str \<Rightarrow> query_token" where
  "phrase_token p = \<lparr>tk_value = snd p, tk_negated = fst p, tk_literal = True\<rparr>"

lemma token_loop_quoted:
  assumes "rest = [] \<or> is_whitespace (hd rest)"
  shows "token_loop v True l (concat (map (\<lambda>c. if c = 0x22 \<or> c = 0x5c then [0x5c, c] else [c]) s) @ 0x22 # rest) =
    (v @ s, False, l, rest)"
proof (induction s arbitrary: v)
  case Nil
  then show ?case using assms by (cases rest) auto
next
  case (Cons c s)
  then show ?case by auto
qed

lemma tokenize_phrase:
  assumes "rest = [] \<or> is_whitespace (hd rest)" and "snd p \<noteq> []" and "length toks < n"
  shows "tokenize_loop n toks (phrase_text p @ rest) = tokenize_loop n (toks @ [phrase_token p]) rest"
proof -
  have quote: "\<not> is_whitespace 0x22" "\<not> is_whitespace 0x2d" by (simp_all add: is_whitespace_def)
  note q = token_loop_quoted [OF assms(1)]
  show ?thesis
    using assms(2,3) quote q [of "[]"]
    by (cases "fst p") (simp_all add: phrase_text_def quote_phrase_def phrase_token_def Let_def)
qed

definition phrases_text :: "(bool \<times> str) list \<Rightarrow> str" where
  "phrases_text ps = join [0x20] (map phrase_text ps)"

lemma phrases_text_simps [simp]:
  "phrases_text [] = []" "phrases_text [p] = phrase_text p"
  "phrases_text (p # q # ps) = phrase_text p @ 0x20 # phrases_text (q # ps)"
  by (simp_all add: phrases_text_def)

lemma tokenize_phrases:
  "list_all (\<lambda>p. snd p \<noteq> []) ps \<Longrightarrow> length toks + length ps \<le> n \<Longrightarrow>
     tokenize_loop n toks (phrases_text ps) = Inr (toks @ map phrase_token ps)"
proof (induction ps arbitrary: toks)
  case (Cons p ps)
  show ?case
  proof (cases ps)
    case Nil
    then show ?thesis using Cons.prems tokenize_phrase [of "[]" p toks n] by simp
  next
    case (Cons q qs)
    have space: "is_whitespace 0x20" by (simp add: is_whitespace_def)
    have "tokenize_loop n toks (phrase_text p @ 0x20 # phrases_text ps) =
        tokenize_loop n (toks @ [phrase_token p]) (0x20 # phrases_text ps)"
      using Cons.prems by (intro tokenize_phrase) (simp_all add: space)
    then show ?thesis
      using Cons.IH [of "toks @ [phrase_token p]"] Cons.prems \<open>ps = q # qs\<close> by (simp add: space)
  qed
qed simp

text \<open>Such a text begins and ends with a visible character.\<close>

lemma dropWhile_none: "s = [] \<or> \<not> P (hd s) \<Longrightarrow> dropWhile P s = s"
  by (cases s) auto

lemma trim_same: "s \<noteq> [] \<Longrightarrow> \<not> is_whitespace (hd s) \<Longrightarrow> \<not> is_whitespace (last s) \<Longrightarrow> str_trim s = s"
  by (simp add: str_trim_def dropWhile_none hd_rev)

lemma phrase_ends:
  "phrase_text p \<noteq> [] \<and> \<not> is_whitespace (hd (phrase_text p)) \<and> \<not> is_whitespace (last (phrase_text p))"
  by (simp add: phrase_text_def quote_phrase_def is_whitespace_def)

lemma phrases_ends:
  "ps \<noteq> [] \<Longrightarrow> phrases_text ps \<noteq> [] \<and> \<not> is_whitespace (hd (phrases_text ps)) \<and> \<not> is_whitespace (last (phrases_text ps))"
proof (induction ps)
  case (Cons p ps)
  then show ?case using phrase_ends [of p] by (cases ps) auto
qed simp

lemma collect_phrases:
  "list_all (\<lambda>p. lower (snd p) \<noteq> []) ps \<Longrightarrow> collect_terms lower (map phrase_token ps) =
     Inr (map (\<lambda>p. \<lparr>qt_field = QfText, qt_values = [lower (snd p)], qt_negated = fst p\<rparr>) ps)"
  by (induction ps)
    (simp_all add: token_term_def token_field_def phrase_token_def is_enumerated_def field_accepts_def Let_def)

end
