(* ===== verification/Agent_Terminal.thy ===== *)
theory Agent_Terminal
  imports Agent_Task
begin

text \<open>
  The second half of \<open>src/src/agent_task/task.rs\<close>: terminals bound to tasks, validation attempts,
  the end of a terminal's process, and the decisions of the user.
\<close>

subsection \<open>Agent terminals\<close>

definition bind_terminal_session :: "task_manager \<Rightarrow> task_id \<Rightarrow> str \<Rightarrow> u64 \<Rightarrow> unit task_result" where
  "bind_terminal_session m i session now =
     (if \<not> is_valid_jsh_session_id session then (Inl InvalidTerminalSessionId, m)
      else (case tm_by_validation m session of
              Some other \<Rightarrow> (Inl (TerminalSessionAlreadyBound session other), m)
            | None \<Rightarrow>
                (case tm_by_terminal m session of
                   Some other \<Rightarrow>
                     if other = i then (Inr (), m)
                     else (Inl (TerminalSessionAlreadyBound session other), m)
                 | None \<Rightarrow>
                     (case get_task m i of
                        None \<Rightarrow> (Inl (UnknownTask i), m)
                      | Some t \<Rightarrow>
                          if at_runtime t = RkNative then (Inl (NativeRuntimeAlreadySelected i), m)
                          else if at_status t \<noteq> TsCreated \<and> at_status t \<noteq> TsStarting
                          then (Inl (CannotBindTerminalInState i (at_status t)), m)
                          else (case at_terminal_session t of
                                  Some existing \<Rightarrow> (Inl (TaskAlreadyBoundToTerminal i existing), m)
                                | None \<Rightarrow>
                                    (let t1 = (if at_runtime t \<noteq> RkTerminalFallback
                                               then t\<lparr>at_runtime := RkTerminal\<rparr> else t);
                                         m1 = put_task m i (t1\<lparr>at_terminal_session := Some session,
                                                at_status := TsWorking, at_detail := None,
                                                at_updated_ms := now\<rparr>)
                                     in (Inr (), m1\<lparr>tm_by_terminal :=
                                                   (tm_by_terminal m1)(session \<mapsto> i)\<rparr>)))))))"

definition terminal_retry_session_id :: "task_manager \<Rightarrow> task_id \<Rightarrow> task_error + str" where
  "terminal_retry_session_id m i =
     (if has_active_stream m i then Inl (NativeEventStreamActive i)
      else (case get_task m i of
              None \<Rightarrow> Inl (UnknownTask i)
            | Some t \<Rightarrow>
                (case at_terminal_session t of
                   None \<Rightarrow> Inl (TerminalRetryUnavailable i (at_status t))
                 | Some old \<Rightarrow>
                     if at_status t \<noteq> TsFailed \<or>
                        \<not> (at_runtime t = RkTerminal \<or> at_runtime t = RkTerminalFallback) \<or>
                        vs_status (at_validation t) = VsRunning \<or>
                        tm_by_terminal m old \<noteq> Some i \<or> old \<notin> tm_exited m
                     then Inl (TerminalRetryUnavailable i (at_status t))
                     else Inr old)))"

definition bound_to :: "task_manager \<Rightarrow> str \<Rightarrow> task_id option" where
  "bound_to m session =
     (case tm_by_validation m session of Some i \<Rightarrow> Some i | None \<Rightarrow> tm_by_terminal m session)"

text \<open>The task is there once the retry is eligible; \<open>None\<close> is the panic of the code otherwise.\<close>

definition bind_terminal_retry_session ::
  "task_manager \<Rightarrow> task_id \<Rightarrow> str \<Rightarrow> str \<Rightarrow> u64 \<Rightarrow> unit task_result option" where
  "bind_terminal_retry_session m i expected_old session now =
     (if \<not> is_valid_jsh_session_id session then Some (Inl InvalidTerminalSessionId, m)
      else (case bound_to m session of
              Some other \<Rightarrow> Some (Inl (TerminalSessionAlreadyBound session other), m)
            | None \<Rightarrow>
                (case terminal_retry_session_id m i of
                   Inl e \<Rightarrow> Some (Inl e, m)
                 | Inr old \<Rightarrow>
                     if old \<noteq> expected_old
                     then Some (Inl (TerminalRetryUnavailable i
                            (case get_task m i of Some t \<Rightarrow> at_status t | None \<Rightarrow> TsFailed)), m)
                     else
                       do { t \<leftarrow> get_task m i;
                            let m1 = put_task m i
                                  (t\<lparr>at_validation := stale_validation (at_validation t)
                                       (lit ''Terminal retry started; the previous validation result is stale''),
                                     at_terminal_session := Some session, at_exit_code := None,
                                     at_status := TsWorking, at_detail := None, at_updated_ms := now\<rparr>);
                                m2 = drop_own_validation_session m1 i (vs_session (at_validation t))
                            in Some (Inr (), m2\<lparr>tm_by_terminal :=
                                   (tm_by_terminal m2)(expected_old := None, session \<mapsto> i),
                                 tm_exited := tm_exited m2 - {expected_old}\<rparr>) })))"

definition native_terminal_fallback_eligible :: "task_manager \<Rightarrow> task_id \<Rightarrow> task_error + unit" where
  "native_terminal_fallback_eligible m i =
     (if has_active_stream m i then Inl (NativeEventStreamActive i)
      else (case get_task m i of
              None \<Rightarrow> Inl (UnknownTask i)
            | Some t \<Rightarrow>
                if \<not> (at_status t = TsFailed \<or> at_status t = TsReadyForReview) \<or>
                   at_runtime t \<noteq> RkNative \<or> at_terminal_session t \<noteq> None \<or>
                   vs_status (at_validation t) = VsRunning
                then Inl (TerminalFallbackUnavailable i (at_status t))
                else Inr ()))"

definition bind_native_terminal_fallback_session ::
  "task_manager \<Rightarrow> task_id \<Rightarrow> str \<Rightarrow> u64 \<Rightarrow> unit task_result" where
  "bind_native_terminal_fallback_session m i session now =
     (if \<not> is_valid_jsh_session_id session then (Inl InvalidTerminalSessionId, m)
      else (case bound_to m session of
              Some other \<Rightarrow> (Inl (TerminalSessionAlreadyBound session other), m)
            | None \<Rightarrow>
                (case native_terminal_fallback_eligible m i of
                   Inl e \<Rightarrow> (Inl e, m)
                 | Inr _ \<Rightarrow>
                     (case get_task m i of
                        None \<Rightarrow> (Inl (UnknownTask i), m)
                      | Some t \<Rightarrow>
                          (let m1 = put_task m i
                                (t\<lparr>at_runtime := RkTerminalFallback, at_terminal_session := Some session,
                                   at_exit_code := None, at_status := TsWorking,
                                   at_validation := stale_validation (at_validation t)
                                     (lit ''Terminal continuation started; the previous validation result is stale''),
                                   at_detail := Some (lit ''Native Codex stopped; continuing in the terminal compatibility path''),
                                   at_updated_ms := now\<rparr>);
                               m2 = drop_own_validation_session m1 i (vs_session (at_validation t))
                           in (Inr (), m2\<lparr>tm_by_terminal := (tm_by_terminal m2)(session \<mapsto> i)\<rparr>))))))"

subsection \<open>Validation attempts\<close>

definition next_validation_attempt :: "task_manager \<Rightarrow> task_id \<Rightarrow> task_error + u64" where
  "next_validation_attempt m i =
     (if has_active_stream m i then Inl (NativeEventStreamActiveDuringValidation i)
      else (case get_task m i of
              None \<Rightarrow> Inl (UnknownTask i)
            | Some t \<Rightarrow>
                if at_status t \<noteq> TsReadyForReview then Inl (CannotBindValidationInState i (at_status t))
                else if vs_status (at_validation t) = VsRunning
                then Inl (ValidationAlreadyRunning i
                       (case vs_session (at_validation t) of Some s \<Rightarrow> s | None \<Rightarrow> []))
                else if vs_attempt (at_validation t) = - 1 then Inl (ValidationAttemptExhausted i)
                else Inr (vs_attempt (at_validation t) + 1)))"

definition bind_validation_session :: "task_manager \<Rightarrow> task_id \<Rightarrow> str \<Rightarrow> u64 \<Rightarrow> unit task_result" where
  "bind_validation_session m i session now =
     (if \<not> is_valid_jsh_session_id session then (Inl InvalidTerminalSessionId, m)
      else (case next_validation_attempt m i of
              Inl e \<Rightarrow> (Inl e, m)
            | Inr attempt \<Rightarrow>
                (case get_task m i of
                   None \<Rightarrow> (Inl (UnknownTask i), m)
                 | Some t \<Rightarrow>
                     (case tm_by_terminal m session of
                        Some other \<Rightarrow> (Inl (TerminalSessionAlreadyBound session other), m)
                      | None \<Rightarrow>
                          (case tm_by_validation m session of
                             Some other \<Rightarrow> (Inl (TerminalSessionAlreadyBound session other), m)
                           | None \<Rightarrow>
                               (let m1 = put_task (drop_validation_session m (vs_session (at_validation t))) i
                                     (t\<lparr>at_validation := \<lparr>vs_status = VsRunning, vs_attempt = attempt,
                                          vs_session = Some session, vs_exit_code = None,
                                          vs_detail = None\<rparr>, at_updated_ms := now\<rparr>)
                                in (Inr (), m1\<lparr>tm_by_validation :=
                                               (tm_by_validation m1)(session \<mapsto> i)\<rparr>)))))))"

subsection \<open>Status\<close>

definition update_status ::
  "(u32 \<Rightarrow> bool) \<Rightarrow> task_manager \<Rightarrow> task_id \<Rightarrow> task_status \<Rightarrow> str option \<Rightarrow> u64 \<Rightarrow> unit task_result" where
  "update_status invisible m i status detail now =
     (if has_active_stream m i then (Inl (NativeEventStreamActive i), m)
      else if status = TsCompleted then (Inl (CompletionRequiresValidation i), m)
      else (case get_task m i of
              None \<Rightarrow> (Inl (UnknownTask i), m)
            | Some t \<Rightarrow>
                (let current = at_status t; v = at_validation t
                 in if is_terminal current \<and> current \<noteq> status
                    then (Inl (CannotLeaveTerminalState i current status), m)
                    else if vs_status v = VsRunning \<and> status \<noteq> current
                    then (Inl (ValidationAlreadyRunning i
                            (case vs_session v of Some s \<Rightarrow> s | None \<Rightarrow> [])), m)
                    else if status = TsCreated \<and> at_runtime t = RkNative
                    then (Inl (NativeRuntimeAlreadySelected i), m)
                    else
                      (let invalidate = (status = TsCreated \<or> is_running status) \<and>
                             vs_status v \<noteq> VsNotRun \<and> vs_status v \<noteq> VsRunning;
                           m1 = (if invalidate then drop_validation_session m (vs_session v) else m);
                           t1 = (if invalidate
                                 then t\<lparr>at_validation := validation_default\<lparr>vs_attempt := vs_attempt v,
                                        vs_detail := Some (lit ''Task work resumed; the previous validation result is stale'')\<rparr>\<rparr>
                                 else t);
                           m2 = put_task m1 i (t1\<lparr>at_status := status,
                                  at_detail := bounded_event_detail invisible detail,
                                  at_updated_ms := now\<rparr>)
                       in (Inr (), if is_terminal status then end_stream m2 i else m2)))))"

text \<open>\<open>format!("{code}")\<close> of an \<open>i32\<close>.\<close>

definition int_text :: "int \<Rightarrow> str" where
  "int_text n = (if n < 0 then [0x2d] else []) @ map ucast (dec (nat \<bar>n\<bar>))"

definition settled :: "task_status \<Rightarrow> bool" where
  "settled s \<longleftrightarrow> s \<in> {TsReadyForReview, TsCompleted, TsFailed, TsCancelled, TsArchived}"

text \<open>The two matches on the exit code: the new status and its detail.\<close>

definition validation_verdict :: "int option \<Rightarrow> validation_status \<times> str" where
  "validation_verdict exit_code =
     (case exit_code of
        Some code \<Rightarrow>
          if code = 0 then (VsPassed, lit ''Validation passed'')
          else (VsFailed, lit ''Validation process exited with code '' @ int_text code)
      | None \<Rightarrow> (VsInconclusive, lit ''Validation ended without an authoritative exit status''))"

definition agent_verdict :: "int option \<Rightarrow> task_status \<times> str" where
  "agent_verdict exit_code =
     (case exit_code of
        Some code \<Rightarrow>
          if code = 0
          then (TsReadyForReview, lit ''Agent process finished; review its worktree changes'')
          else (TsFailed, lit ''Agent process exited with code '' @ int_text code)
      | None \<Rightarrow> (TsFailed, lit ''Agent process ended without an exit status''))"

definition handle_terminal_session_exit ::
  "task_manager \<Rightarrow> str \<Rightarrow> int option \<Rightarrow> u64 \<Rightarrow> task_id option \<times> task_manager" where
  "handle_terminal_session_exit m session exit_code now =
     (case tm_by_validation m session of
        Some i \<Rightarrow>
          (case get_task m i of
             None \<Rightarrow> (None, m)
           | Some t \<Rightarrow>
               if vs_status (at_validation t) \<noteq> VsRunning then (Some i, m)
               else
                 (Some i, put_task m i (t\<lparr>at_validation := (at_validation t)
                    \<lparr>vs_status := fst (validation_verdict exit_code), vs_exit_code := exit_code,
                     vs_detail := Some (snd (validation_verdict exit_code))\<rparr>, at_updated_ms := now\<rparr>)))
      | None \<Rightarrow>
          (case tm_by_terminal m session of
             None \<Rightarrow> (None, m)
           | Some i \<Rightarrow>
               (let m1 = m\<lparr>tm_exited := insert session (tm_exited m)\<rparr>
                in case get_task m1 i of
                     None \<Rightarrow> (None, m1)
                   | Some t \<Rightarrow>
                       if settled (at_status t) then (Some i, m1)
                       else
                         (Some i, put_task m1 i (t\<lparr>at_exit_code := exit_code,
                            at_status := fst (agent_verdict exit_code),
                            at_detail := Some (snd (agent_verdict exit_code)),
                            at_updated_ms := now\<rparr>)))))"

definition handle_terminal_session_closed ::
  "task_manager \<Rightarrow> str \<Rightarrow> u64 \<Rightarrow> task_id option \<times> task_manager" where
  "handle_terminal_session_closed m session now =
     (case tm_by_validation m session of
        Some i \<Rightarrow>
          (case get_task m i of
             None \<Rightarrow> (None, m)
           | Some t \<Rightarrow>
               if vs_status (at_validation t) \<noteq> VsRunning then (Some i, m)
               else (Some i, put_task m i (t\<lparr>at_validation := (at_validation t)\<lparr>vs_status := VsCancelled,
                       vs_exit_code := None, vs_detail := Some (lit ''Validation terminal was closed'')\<rparr>,
                       at_updated_ms := now\<rparr>)))
      | None \<Rightarrow>
          (case tm_by_terminal m session of
             None \<Rightarrow> (None, m)
           | Some i \<Rightarrow>
               (case get_task m i of
                  None \<Rightarrow> (None, m)
                | Some t \<Rightarrow>
                    if settled (at_status t) then (Some i, m)
                    else (Some i, put_task m i (t\<lparr>at_status := TsCancelled, at_exit_code := None,
                            at_detail := Some (lit ''Agent terminal was closed''), at_updated_ms := now\<rparr>)))))"

subsection \<open>Hiding and accepting\<close>

definition can_archive :: "task_manager \<Rightarrow> task_id \<Rightarrow> task_error + unit" where
  "can_archive m i =
     (case get_task m i of
        None \<Rightarrow> Inl (UnknownTask i)
      | Some t \<Rightarrow>
          if has_active_stream m i \<or> is_running (at_status t) \<or> vs_status (at_validation t) = VsRunning
          then Inl (CannotArchiveRunning i) else Inr ())"

definition archive :: "task_manager \<Rightarrow> task_id \<Rightarrow> u64 \<Rightarrow> unit task_result" where
  "archive m i now =
     (case can_archive m i of
        Inl e \<Rightarrow> (Inl e, m)
      | Inr _ \<Rightarrow>
          (case get_task m i of
             None \<Rightarrow> (Inl (UnknownTask i), m)
           | Some t \<Rightarrow>
               if at_status t = TsArchived then (Inr (), m)
               else (Inr (), put_task m i (t\<lparr>at_archived_from := Some (at_status t),
                       at_status := TsArchived, at_updated_ms := now\<rparr>))))"

definition restore :: "task_manager \<Rightarrow> task_id \<Rightarrow> u64 \<Rightarrow> unit task_result" where
  "restore m i now =
     (case get_task m i of
        None \<Rightarrow> (Inl (UnknownTask i), m)
      | Some t \<Rightarrow>
          if at_status t \<noteq> TsArchived then (Inl (NotArchived i), m)
          else (case filter_option (\<lambda>s. s \<noteq> TsArchived) (at_archived_from t) of
                  None \<Rightarrow> (Inl (ArchivedStateUnknown i), m)
                | Some previous \<Rightarrow>
                    (Inr (), put_task m i (t\<lparr>at_status := previous, at_archived_from := None,
                       at_updated_ms := now\<rparr>))))"

definition invalidate_validation_evidence ::
  "task_manager \<Rightarrow> task_id \<Rightarrow> str \<Rightarrow> u64 \<Rightarrow> unit task_result" where
  "invalidate_validation_evidence m i detail now =
     (case get_task m i of
        None \<Rightarrow> (Inl (UnknownTask i), m)
      | Some t \<Rightarrow>
          (Inr (), if vs_status (at_validation t) = VsPassed
                   then put_task m i (t\<lparr>at_validation := (at_validation t)\<lparr>vs_status := VsInconclusive,
                          vs_detail := Some detail\<rparr>, at_updated_ms := now\<rparr>)
                   else m))"

definition complete_after_validation :: "task_manager \<Rightarrow> task_id \<Rightarrow> u64 \<Rightarrow> unit task_result" where
  "complete_after_validation m i now =
     (if has_active_stream m i then (Inl (NativeEventStreamActive i), m)
      else (case get_task m i of
              None \<Rightarrow> (Inl (UnknownTask i), m)
            | Some t \<Rightarrow>
                if at_status t \<noteq> TsReadyForReview \<or> vs_status (at_validation t) \<noteq> VsPassed
                then (Inl (CannotCompleteAfterValidation i (at_status t) (vs_status (at_validation t))), m)
                else (Inr (), put_task m i (t\<lparr>at_status := TsCompleted,
                        at_detail := Some (lit ''Validation passed; task accepted''),
                        at_updated_ms := now\<rparr>))))"

definition complete_after_manual_review ::
  "(u32 \<Rightarrow> bool) \<Rightarrow> task_manager \<Rightarrow> task_id \<Rightarrow> u64 \<Rightarrow> unit task_result" where
  "complete_after_manual_review invisible m i now =
     (if has_active_stream m i then (Inl (NativeEventStreamActive i), m)
      else (case get_task m i of
              None \<Rightarrow> (Inl (UnknownTask i), m)
            | Some t \<Rightarrow>
                if \<not> requires_manual_review invisible t \<or> at_status t \<noteq> TsReadyForReview \<or>
                   vs_status (at_validation t) \<noteq> VsNotRun
                then (Inl (CannotCompleteAfterManualReview i), m)
                else (Inr (), put_task m i (t\<lparr>at_status := TsCompleted,
                        at_detail := Some (lit ''Work explicitly accepted after human review; no validation command was configured''),
                        at_updated_ms := now\<rparr>))))"

end
