(* ===== verification/Agent_Task_Facts.thy ===== *)
theory Agent_Task_Facts
  imports Agent_Terminal
begin

text \<open>
  The invariant of the task manager, and the laws of its lookup and of the one general change all its
  operations are made of: replacing a task, with the terminals it owns.
\<close>

subsection \<open>Lookup\<close>

definition index_ok :: "task_manager \<Rightarrow> bool" where
  "index_ok m \<longleftrightarrow>
     (\<forall>i n. tm_indices m i = Some n \<longleftrightarrow> n < length (tm_tasks m) \<and> at_id (tm_tasks m ! n) = i)"

lemma get_task_frame [simp]:
  "get_task (m\<lparr>tm_by_terminal := bt\<rparr>) = get_task m" "get_task (m\<lparr>tm_by_validation := bv\<rparr>) = get_task m"
  "get_task (m\<lparr>tm_exited := ex\<rparr>) = get_task m" "get_task (m\<lparr>tm_streams := st\<rparr>) = get_task m"
  "get_task (m\<lparr>tm_remote := rm\<rparr>) = get_task m" "get_task (end_stream m i) = get_task m"
  by (simp_all add: get_task_def fun_eq_iff end_stream_def split: option.split)

lemma index_ok_frame [simp]:
  "index_ok (m\<lparr>tm_by_terminal := bt\<rparr>) = index_ok m" "index_ok (m\<lparr>tm_by_validation := bv\<rparr>) = index_ok m"
  "index_ok (m\<lparr>tm_exited := ex\<rparr>) = index_ok m" "index_ok (m\<lparr>tm_streams := st\<rparr>) = index_ok m"
  "index_ok (m\<lparr>tm_remote := rm\<rparr>) = index_ok m" "index_ok (end_stream m i) = index_ok m"
  by (simp_all add: index_ok_def end_stream_def)

lemma put_task_frame [simp]:
  "tm_by_terminal (put_task m i t) = tm_by_terminal m" "tm_by_validation (put_task m i t) = tm_by_validation m"
  "tm_exited (put_task m i t) = tm_exited m" "tm_streams (put_task m i t) = tm_streams m"
  "tm_remote (put_task m i t) = tm_remote m" "tm_indices (put_task m i t) = tm_indices m"
  by (simp_all add: put_task_def split: option.split)

lemma put_task_commute:
  "put_task (m\<lparr>tm_by_terminal := bt\<rparr>) i t = (put_task m i t)\<lparr>tm_by_terminal := bt\<rparr>"
  "put_task (m\<lparr>tm_by_validation := bv\<rparr>) i t = (put_task m i t)\<lparr>tm_by_validation := bv\<rparr>"
  "put_task (m\<lparr>tm_exited := ex\<rparr>) i t = (put_task m i t)\<lparr>tm_exited := ex\<rparr>"
  "put_task (m\<lparr>tm_streams := st\<rparr>) i t = (put_task m i t)\<lparr>tm_streams := st\<rparr>"
  "put_task (end_stream m j) i t = end_stream (put_task m i t) j"
  by (simp_all add: put_task_def end_stream_def split: option.split)

lemma get_task_id: "index_ok m \<Longrightarrow> get_task m i = Some t \<Longrightarrow> at_id t = i"
  by (auto simp: index_ok_def get_task_def split: option.splits if_splits)

lemma get_put:
  assumes "index_ok m" and "get_task m i = Some t" and "at_id t' = i"
  shows "index_ok (put_task m i t')" "get_task (put_task m i t') = (get_task m)(i \<mapsto> t')"
proof -
  obtain n where n: "tm_indices m i = Some n" "n < length (tm_tasks m)"
    using assms(2) by (auto simp: get_task_def split: option.splits if_splits)
  have at: "at_id (tm_tasks m ! n) = i" using assms(1) n by (simp add: index_ok_def)
  have put: "put_task m i t' = m\<lparr>tm_tasks := (tm_tasks m)[n := t']\<rparr>" using n by (simp add: put_task_def)
  have "at_id ((tm_tasks m)[n := t'] ! k) = at_id (tm_tasks m ! k)" for k
    using at n(2) assms(3) by (cases "k = n") simp_all
  then show "index_ok (put_task m i t')" using assms(1) by (simp add: index_ok_def put)
  have "get_task (put_task m i t') j = ((get_task m)(i \<mapsto> t')) j" for j
  proof (cases "j = i")
    case True
    then show ?thesis using n by (simp add: put_task_def get_task_def)
  next
    case False
    then have "tm_indices m j \<noteq> Some n" using assms(1) at n by (auto simp: index_ok_def)
    then show ?thesis
      using False n by (auto simp: put_task_def get_task_def nth_list_update split: option.split)
  qed
  then show "get_task (put_task m i t') = (get_task m)(i \<mapsto> t')" by blast
qed

subsection \<open>The invariant\<close>

definition task_ok :: "agent_task \<Rightarrow> bool" where
  "task_ok t \<longleftrightarrow>
     (at_archived_from t \<noteq> None \<longrightarrow> at_status t = TsArchived) \<and> at_archived_from t \<noteq> Some TsArchived \<and>
     (vs_status (at_validation t) = VsNotRun \<longleftrightarrow> vs_session (at_validation t) = None) \<and>
     (vs_status (at_validation t) \<noteq> VsNotRun \<longrightarrow> settled (at_status t)) \<and>
     (\<forall>s. vs_status (at_validation t) \<noteq> VsNotRun \<longrightarrow> at_archived_from t = Some s \<longrightarrow> settled s) \<and>
     (vs_status (at_validation t) = VsRunning \<longrightarrow> at_status t = TsReadyForReview) \<and>
     (at_terminal_session t \<noteq> None \<longleftrightarrow> at_runtime t = RkTerminal \<or> at_runtime t = RkTerminalFallback) \<and>
     (at_runtime t = RkNative \<longrightarrow> at_status t \<noteq> TsCreated \<and> at_archived_from t \<noteq> Some TsCreated)"

definition stream_ok :: "u64 \<Rightarrow> task_id \<Rightarrow> agent_task \<Rightarrow> stream_state \<Rightarrow> bool" where
  "stream_ok c i t a \<longleftrightarrow>
     es_task (ss_stream a) = i \<and> es_epoch (ss_stream a) < c \<and> at_runtime t = RkNative \<and>
     (is_running (at_status t) \<or> at_status t = TsReadyForReview) \<and>
     vs_status (at_validation t) \<noteq> VsRunning \<and>
     (ss_active_turn a \<noteq> None \<longleftrightarrow> at_status t \<in> {TsWorking, TsWaitingForApproval, TsWaitingForHuman}) \<and>
     (ss_active_turn a \<noteq> None \<longrightarrow> ss_session_started a) \<and>
     (at_status t = TsReadyForReview \<longrightarrow> ss_review_point a) \<and>
     (at_status t = TsStarting \<longrightarrow> \<not> ss_review_point a)"

definition manager_ok :: "task_manager \<Rightarrow> u64 \<Rightarrow> bool" where
  "manager_ok m c \<longleftrightarrow> index_ok m \<and> (\<forall>i. i \<in> tm_remote m \<longrightarrow> tm_streams m i = None) \<and>
     (\<forall>i t. get_task m i = Some t \<longrightarrow> task_ok t) \<and>
     (\<forall>s i. tm_by_terminal m s = Some i \<longleftrightarrow> (\<exists>t. get_task m i = Some t \<and> at_terminal_session t = Some s)) \<and>
     (\<forall>s i. tm_by_validation m s = Some i \<longleftrightarrow>
        (\<exists>t. get_task m i = Some t \<and> vs_session (at_validation t) = Some s)) \<and>
     (\<forall>s. tm_by_terminal m s = None \<or> tm_by_validation m s = None) \<and>
     (\<forall>i a. tm_streams m i = Some a \<longrightarrow> (\<exists>t. get_task m i = Some t \<and> stream_ok c i t a))"

lemma manager_okD:
  assumes "manager_ok m c"
  shows "index_ok m" "i \<in> tm_remote m \<Longrightarrow> tm_streams m i = None"
    "get_task m i = Some t \<Longrightarrow> task_ok t"
    "tm_by_terminal m s = Some i \<longleftrightarrow> (\<exists>t. get_task m i = Some t \<and> at_terminal_session t = Some s)"
    "tm_by_validation m s = Some i \<longleftrightarrow>
       (\<exists>t. get_task m i = Some t \<and> vs_session (at_validation t) = Some s)"
    "tm_by_terminal m s = None \<or> tm_by_validation m s = None"
    "tm_streams m i = Some a \<Longrightarrow> \<exists>t. get_task m i = Some t \<and> stream_ok c i t a"
  using assms by (simp_all add: manager_ok_def)

lemma manager_ok_new: "manager_ok manager_new c"
  by (simp add: manager_ok_def manager_new_def index_ok_def get_task_def)

lemma manager_ok_exited: "manager_ok m c \<Longrightarrow> manager_ok (m\<lparr>tm_exited := ex\<rparr>) c"
  by (simp add: manager_ok_def)

lemma manager_ok_end: "manager_ok m c \<Longrightarrow> manager_ok (end_stream m i) c"
  by (simp add: manager_ok_def) (simp add: end_stream_def)

lemma manager_ok_stream:
  "manager_ok m c \<Longrightarrow> get_task m i = Some t \<Longrightarrow> stream_ok c i t a \<Longrightarrow> i \<notin> tm_remote m \<Longrightarrow>
     manager_ok (m\<lparr>tm_streams := (tm_streams m)(i \<mapsto> a)\<rparr>) c"
  by (simp add: manager_ok_def)

lemma stream_ok_later: "stream_ok c i t a \<Longrightarrow> c \<le> d \<Longrightarrow> stream_ok d i t a"
  by (auto simp: stream_ok_def elim: order.strict_trans2)

lemma manager_ok_later: "manager_ok m c \<Longrightarrow> c \<le> d \<Longrightarrow> manager_ok m d"
  using stream_ok_later [of c _ _ _ d] unfolding manager_ok_def by (intro conjI; simp?) blast

subsection \<open>Replacing a task\<close>

definition move :: "('a \<rightharpoonup> 'b) \<Rightarrow> 'a option \<Rightarrow> 'a option \<Rightarrow> 'b \<Rightarrow> ('a \<rightharpoonup> 'b)" where
  "move f old new_key v =
     (let f = (case old of Some k \<Rightarrow> f(k := None) | None \<Rightarrow> f)
      in case new_key of Some k \<Rightarrow> f(k \<mapsto> v) | None \<Rightarrow> f)"

definition replace_task :: "task_manager \<Rightarrow> task_id \<Rightarrow> agent_task \<Rightarrow> agent_task \<Rightarrow> task_manager" where
  "replace_task m i t t' = (put_task m i t')
     \<lparr>tm_by_terminal := move (tm_by_terminal m) (at_terminal_session t) (at_terminal_session t') i,
      tm_by_validation := move (tm_by_validation m) (vs_session (at_validation t))
        (vs_session (at_validation t')) i\<rparr>"

text \<open>A session is available to a task when nothing else owns it.\<close>

definition available :: "task_manager \<Rightarrow> str \<Rightarrow> bool" where
  "available m s \<longleftrightarrow> tm_by_terminal m s = None \<and> tm_by_validation m s = None"

lemma move_owner:
  assumes "\<And>s i. f s = Some i \<longleftrightarrow> (\<exists>t. g i = Some t \<and> key t = Some s)" and "g i = Some t"
    and "\<And>s. key t' = Some s \<Longrightarrow> key t' \<noteq> key t \<Longrightarrow> f s = None"
  shows "move f (key t) (key t') i s = Some j \<longleftrightarrow> (\<exists>u. (g(i \<mapsto> t')) j = Some u \<and> key u = Some s)"
proof -
  have mine: "f k = Some i" if "key t = Some k" for k using assms(1,2) that by blast
  have other: "key u \<noteq> key t" if "g j = Some u" "j \<noteq> i" "key t \<noteq> None" for j u
    using assms(1) mine that by (metis not_Some_eq option.inject)
  have new_key: "key u \<noteq> key t'" if "g j = Some u" "j \<noteq> i" "key t' \<noteq> None" for j u
  proof (cases "key t' = key t")
    case True
    then show ?thesis using other that by auto
  next
    case False
    then show ?thesis using assms(1,3) that by (metis not_Some_eq option.distinct(1))
  qed
  show ?thesis
    using assms(1) [of s j] assms(2) mine other new_key
    by (cases "key t"; cases "key t'") (auto simp: move_def Let_def)
qed

lemma move_none:
  "move f old new_key v s = None \<longleftrightarrow> new_key \<noteq> Some s \<and> (f s = None \<or> old = Some s)"
  by (auto simp: move_def Let_def split: option.split)

lemma manager_ok_replace:
  assumes ok: "manager_ok m c" and t: "get_task m i = Some t" and id: "at_id t' = i" and "task_ok t'"
    and trm: "\<And>s. at_terminal_session t' = Some s \<Longrightarrow> at_terminal_session t' \<noteq> at_terminal_session t \<Longrightarrow>
      available m s"
    and val: "\<And>s. vs_session (at_validation t') = Some s \<Longrightarrow>
      vs_session (at_validation t') \<noteq> vs_session (at_validation t) \<Longrightarrow> available m s"
    and one: "at_terminal_session t' = at_terminal_session t \<or>
      vs_session (at_validation t') = vs_session (at_validation t) \<or>
      vs_session (at_validation t') = None"
    and stream: "\<And>a. tm_streams m i = Some a \<Longrightarrow> stream_ok c i t' a"
  shows "manager_ok (replace_task m i t t') c" "get_task (replace_task m i t t') = (get_task m)(i \<mapsto> t')"
proof -
  note put = get_put [OF manager_okD(1) [OF ok] t id]
  show g: "get_task (replace_task m i t t') = (get_task m)(i \<mapsto> t')"
    using put(2) by (simp add: replace_task_def)
  have bt: "move (tm_by_terminal m) (at_terminal_session t) (at_terminal_session t') i s = Some j \<longleftrightarrow>
      (\<exists>u. ((get_task m)(i \<mapsto> t')) j = Some u \<and> at_terminal_session u = Some s)" for s j
    using manager_okD(4) [OF ok] t trm by (intro move_owner) (auto simp: available_def)
  have bv: "move (tm_by_validation m) (vs_session (at_validation t)) (vs_session (at_validation t')) i s = Some j \<longleftrightarrow>
      (\<exists>u. ((get_task m)(i \<mapsto> t')) j = Some u \<and> vs_session (at_validation u) = Some s)" for s j
    using manager_okD(5) [OF ok] t val
    by (intro move_owner [where key = "\<lambda>u. vs_session (at_validation u)"]) (auto simp: available_def)
  have own: "at_terminal_session t = Some s \<Longrightarrow> tm_by_terminal m s = Some i"
    "vs_session (at_validation t) = Some s \<Longrightarrow> tm_by_validation m s = Some i" for s
    using manager_okD(4,5) [OF ok] t by blast+
  have apart: "move (tm_by_terminal m) (at_terminal_session t) (at_terminal_session t') i s = None \<or>
      move (tm_by_validation m) (vs_session (at_validation t)) (vs_session (at_validation t')) i s = None" for s
    using manager_okD(6) [OF ok, of s] trm [of s] val [of s] one own [of s]
    unfolding move_none available_def by (metis option.distinct(1))
  have task: "task_ok u" if "((get_task m)(i \<mapsto> t')) j = Some u" for j u
    using that manager_okD(3) [OF ok] \<open>task_ok t'\<close> by (auto split: if_splits)
  have "\<exists>u. ((get_task m)(i \<mapsto> t')) j = Some u \<and> stream_ok c j u a" if "tm_streams m j = Some a" for j a
    using that stream manager_okD(7) [OF ok that] by (cases "j = i") auto
  then show "manager_ok (replace_task m i t t') c"
    using put(1) manager_okD(2) [OF ok] bt bv apart task g unfolding manager_ok_def
    by (simp add: replace_task_def)
qed

end
