(* ===== verification/Agent_Task_Invariant.thy ===== *)
theory Agent_Task_Invariant
  imports Agent_Task_Facts
begin

text \<open>Every operation of the task manager keeps its invariant.\<close>

lemmas status_sets = is_running_def is_terminal_def settled_def

subsection \<open>Operations as replacements\<close>

lemma owned:
  assumes "manager_ok m c" and "get_task m i = Some t"
  shows "at_terminal_session t = Some s \<Longrightarrow> tm_by_terminal m s = Some i"
    "vs_session (at_validation t) = Some s \<Longrightarrow> tm_by_validation m s = Some i"
  using manager_okD(4,5) [OF assms(1)] assms(2) by blast+

lemma move_same:
  assumes "manager_ok m c" and "get_task m i = Some t"
  shows "move (tm_by_terminal m) (at_terminal_session t) (at_terminal_session t) i = tm_by_terminal m"
    "move (tm_by_validation m) (vs_session (at_validation t)) (vs_session (at_validation t)) i =
      tm_by_validation m"
  using owned [OF assms] by (auto simp: move_def split: option.split)

lemma put_is_replace:
  assumes "manager_ok m c" and "get_task m i = Some t"
    and "at_terminal_session t' = at_terminal_session t"
    and "vs_session (at_validation t') = vs_session (at_validation t)"
  shows "put_task m i t' = replace_task m i t t'"
  by (rule task_manager.equality)
    (simp_all add: replace_task_def assms(3,4) move_same [OF assms(1,2)])

text \<open>A change that keeps the sessions of a task.\<close>

lemma manager_ok_put:
  assumes "manager_ok m c" and "get_task m i = Some t" and "at_id t' = at_id t" and "task_ok t'"
    and "at_terminal_session t' = at_terminal_session t"
    and "vs_session (at_validation t') = vs_session (at_validation t)"
    and "\<And>a. tm_streams m i = Some a \<Longrightarrow> stream_ok c i t' a"
  shows "manager_ok (put_task m i t') c"
proof -
  have "at_id t = i" using get_task_id [OF manager_okD(1) [OF assms(1)] assms(2)] .
  then show ?thesis
    unfolding put_is_replace [OF assms(1,2,5,6)] using assms by (intro manager_ok_replace) auto
qed

text \<open>The same with what is known of the task, for a task with and one without a stream.\<close>

lemma manager_ok_update:
  assumes "manager_ok m c" and "get_task m i = Some t"
    and "task_ok t \<Longrightarrow> at_id t' = at_id t \<and> at_terminal_session t' = at_terminal_session t \<and>
      vs_session (at_validation t') = vs_session (at_validation t) \<and> task_ok t'"
    and "\<And>a. task_ok t \<Longrightarrow> tm_streams m i = Some a \<Longrightarrow> stream_ok c i t a \<Longrightarrow> stream_ok c i t' a"
  shows "manager_ok (put_task m i t') c"
proof -
  have t: "task_ok t" using manager_okD(3) [OF assms(1,2)] .
  show ?thesis
    using assms(3) [OF t] assms(4) [OF t] manager_okD(7) [OF assms(1), of i] assms(2)
    by (intro manager_ok_put [OF assms(1,2)]) auto
qed

lemma manager_ok_update_idle:
  assumes "manager_ok m c" and "get_task m i = Some t" and "tm_streams m i = None"
    and "task_ok t \<Longrightarrow> at_id t' = at_id t \<and> at_terminal_session t' = at_terminal_session t \<and>
      vs_session (at_validation t') = vs_session (at_validation t) \<and> task_ok t'"
  shows "manager_ok (put_task m i t') c"
  using assms(3,4) by (intro manager_ok_update [OF assms(1,2)]) auto

lemma no_stream: "manager_ok m c \<Longrightarrow> \<not> has_active_stream m i \<Longrightarrow> tm_streams m i = None"
  by (simp add: has_active_stream_def)

lemma not_remote: "\<not> has_active_stream m i \<Longrightarrow> i \<notin> tm_remote m"
  by (simp add: has_active_stream_def)

lemma terminal_no_stream: "manager_ok m c \<Longrightarrow> tm_by_terminal m s = Some i \<Longrightarrow> tm_streams m i \<noteq> Some a"
  using manager_okD(3,4,7) [of m c] by (fastforce simp: task_ok_def stream_ok_def)

lemma stale_simps [simp]:
  "vs_session (stale_validation v reason) = (if v = validation_default then vs_session v else None)"
  "vs_status (stale_validation v reason) = (if v = validation_default then vs_status v else VsNotRun)"
  by (simp_all add: stale_validation_def validation_default_def)

lemma default_simps [simp]:
  "vs_session validation_default = None" "vs_status validation_default = VsNotRun"
  by (simp_all add: validation_default_def)

lemma drop_own:
  assumes "manager_ok m c" and "get_task m i = Some t"
  shows "drop_own_validation_session (put_task m i t') i (vs_session (at_validation t)) =
    drop_validation_session (put_task m i t') (vs_session (at_validation t))"
  using owned(2) [OF assms]
  by (auto simp: drop_own_validation_session_def drop_validation_session_def split: option.split)

lemma drop_frame [simp]:
  "tm_by_terminal (drop_validation_session m s) = tm_by_terminal m"
  "tm_exited (drop_validation_session m s) = tm_exited m"
  "tm_streams (drop_validation_session m s) = tm_streams m"
  "tm_remote (drop_validation_session m s) = tm_remote m"
  "get_task (drop_validation_session m s) = get_task m"
  "tm_by_validation (drop_validation_session m (Some k)) = (tm_by_validation m)(k := None)"
  "drop_validation_session m None = m"
  by (simp_all add: drop_validation_session_def split: option.split)

lemma put_drop: "put_task (drop_validation_session m s) i t = drop_validation_session (put_task m i t) s"
  by (simp add: drop_validation_session_def put_task_commute split: option.split)

subsection \<open>Creation\<close>

lemma get_append:
  assumes "index_ok m"
  shows "get_task (m\<lparr>tm_indices := (tm_indices m)(i \<mapsto> length (tm_tasks m)), tm_tasks := tm_tasks m @ [t]\<rparr>) =
    (get_task m)(i \<mapsto> t)"
proof
  fix j
  have "n < length (tm_tasks m)" if "tm_indices m j = Some n" for n
    using assms that by (simp add: index_ok_def)
  then show "get_task (m\<lparr>tm_indices := (tm_indices m)(i \<mapsto> length (tm_tasks m)), tm_tasks := tm_tasks m @ [t]\<rparr>) j =
      ((get_task m)(i \<mapsto> t)) j"
    by (cases "j = i"; cases "tm_indices m j") (auto simp: get_task_def nth_append less_Suc_eq)
qed

lemma manager_ok_append:
  assumes ok: "manager_ok m c" and fresh: "tm_indices m i = None" and "task_ok t" and id: "at_id t = i"
    and none: "at_terminal_session t = None" "vs_session (at_validation t) = None"
  shows "manager_ok (m\<lparr>tm_indices := (tm_indices m)(i \<mapsto> length (tm_tasks m)), tm_tasks := tm_tasks m @ [t]\<rparr>) c"
proof -
  let ?m = "m\<lparr>tm_indices := (tm_indices m)(i \<mapsto> length (tm_tasks m)), tm_tasks := tm_tasks m @ [t]\<rparr>"
  have ix: "tm_indices m j = Some n \<longleftrightarrow> n < length (tm_tasks m) \<and> at_id (tm_tasks m ! n) = j" for j n
    using manager_okD(1) [OF ok] by (simp add: index_ok_def)
  have "at_id (tm_tasks m ! n) \<noteq> i" if "n < length (tm_tasks m)" for n using ix [of i n] fresh that by simp
  then have "index_ok ?m" using ix id by (auto simp: index_ok_def nth_append)
  moreover note g = get_append [OF manager_okD(1) [OF ok], where i = i and t = t]
  moreover have "get_task m i = None" using fresh by (simp add: get_task_def)
  moreover have "\<exists>u. ((get_task m)(i \<mapsto> t)) j = Some u \<and> stream_ok c j u a"
    if "tm_streams m j = Some a" for j a
    using manager_okD(7) [OF ok that] \<open>get_task m i = None\<close> by auto
  ultimately show ?thesis
    using ok none \<open>task_ok t\<close> unfolding manager_ok_def by auto
qed

lemma task_ok_new: "task_ok (task_of i now nt brief)"
  by (simp add: task_ok_def task_of_def)

lemma create_internal_kept:
  "manager_ok m c \<Longrightarrow> tm_indices m i = None \<Longrightarrow> manager_ok (snd (create_internal m i now nt brief)) c"
  by (auto simp: create_internal_def task_ok_new intro!: manager_ok_append split: sum.split)
    (simp_all add: task_of_def)

lemma create_with_brief_kept:
  "manager_ok m c \<Longrightarrow> tm_indices m i = None \<Longrightarrow> manager_ok (snd (create_with_brief invis m i now nt brief)) c"
  by (simp add: create_with_brief_def create_internal_kept split: sum.split)

subsection \<open>Changes of one task\<close>

lemma restore_kept: "manager_ok m c \<Longrightarrow> manager_ok (snd (restore m i now)) c"
  by (auto simp: restore_def filter_option_def split: option.split intro!: manager_ok_update)
    (auto simp: task_ok_def stream_ok_def status_sets)

lemma archive_kept: "manager_ok m c \<Longrightarrow> manager_ok (snd (archive m i now)) c"
  by (auto simp: archive_def can_archive_def has_active_stream_def split: option.split
      intro!: manager_ok_update_idle)
    (auto simp: task_ok_def status_sets)

lemma invalidate_kept:
  "manager_ok m c \<Longrightarrow> manager_ok (snd (invalidate_validation_evidence m i detail now)) c"
  by (auto simp: invalidate_validation_evidence_def split: option.split intro!: manager_ok_update)
    (auto simp: task_ok_def stream_ok_def status_sets)

lemma complete_kept:
  "manager_ok m c \<Longrightarrow> manager_ok (snd (complete_after_validation m i now)) c"
  "manager_ok m c \<Longrightarrow> manager_ok (snd (complete_after_manual_review invis m i now)) c"
  by (auto simp: complete_after_validation_def complete_after_manual_review_def has_active_stream_def
      split: option.split intro!: manager_ok_update_idle)
    (auto simp: task_ok_def status_sets)

lemma closed_kept:
  "manager_ok m c \<Longrightarrow> manager_ok (snd (handle_terminal_session_closed m s now)) c"
  by (auto simp: handle_terminal_session_closed_def split: option.split intro!: manager_ok_update)
    (auto simp: task_ok_def stream_ok_def status_sets dest: terminal_no_stream)

lemma verdicts:
  "fst (validation_verdict code) \<in> {VsPassed, VsFailed, VsInconclusive}"
  "fst (agent_verdict code) \<in> {TsReadyForReview, TsFailed}"
  by (simp_all add: validation_verdict_def agent_verdict_def split: option.split)

lemma exit_validation_ok:
  "task_ok t \<Longrightarrow> vs_status (at_validation t) = VsRunning \<Longrightarrow> st \<in> {VsPassed, VsFailed, VsInconclusive} \<Longrightarrow>
     task_ok (t\<lparr>at_validation := (at_validation t)\<lparr>vs_status := st, vs_exit_code := e, vs_detail := d\<rparr>,
       at_updated_ms := now\<rparr>)"
  by (auto simp: task_ok_def)

lemma exit_agent_ok:
  "task_ok t \<Longrightarrow> \<not> settled (at_status t) \<Longrightarrow> st \<in> {TsReadyForReview, TsFailed} \<Longrightarrow>
     task_ok (t\<lparr>at_exit_code := e, at_status := st, at_detail := d, at_updated_ms := now\<rparr>)"
  by (auto simp: task_ok_def settled_def)

lemma exit_kept:
  "manager_ok m c \<Longrightarrow> manager_ok (snd (handle_terminal_session_exit m s code now)) c"
  using verdicts [of code]
  by (auto simp: handle_terminal_session_exit_def Let_def manager_ok_exited split: option.split
      intro!: manager_ok_update exit_validation_ok exit_agent_ok)
    (auto simp: stream_ok_def dest: terminal_no_stream)

subsection \<open>Terminals and validation\<close>

lemma retry_as_replace:
  assumes "manager_ok m c" and "get_task m i = Some t" and "at_terminal_session t' = Some s"
    and "vs_session (at_validation t') = None"
  shows "(drop_own_validation_session (put_task m i t') i (vs_session (at_validation t)))
      \<lparr>tm_by_terminal := (case at_terminal_session t of
         Some old \<Rightarrow> (tm_by_terminal m)(old := None, s \<mapsto> i) | None \<Rightarrow> (tm_by_terminal m)(s \<mapsto> i))\<rparr> =
    replace_task m i t t'"
  using assms(3,4)
  by (intro task_manager.equality)
    (auto simp: drop_own [OF assms(1,2)] drop_validation_session_def replace_task_def move_def
      split: option.split)

lemma bound_to_None: "bound_to m s = None \<longleftrightarrow> available m s"
  by (auto simp: bound_to_def available_def split: option.split)

lemma bind_terminal_kept:
  assumes ok: "manager_ok m c"
  shows "manager_ok (snd (bind_terminal_session m i s now)) c"
proof -
  have step: "manager_ok ((put_task m i t')\<lparr>tm_by_terminal := (tm_by_terminal m)(s \<mapsto> i)\<rparr>) c"
    if t: "get_task m i = Some t" and free: "tm_by_terminal m s = None" "tm_by_validation m s = None"
      and state: "at_runtime t \<noteq> RkNative" "at_status t = TsCreated \<or> at_status t = TsStarting"
        "at_terminal_session t = None"
      and t': "t' = (if at_runtime t \<noteq> RkTerminalFallback then t\<lparr>at_runtime := RkTerminal\<rparr> else t)
        \<lparr>at_terminal_session := Some s, at_status := TsWorking, at_detail := None, at_updated_ms := now\<rparr>"
    for t t'
  proof -
    have tok: "task_ok t" using manager_okD(3) [OF ok t] .
    then have same: "vs_session (at_validation t') = vs_session (at_validation t)" "task_ok t'" "at_id t' = at_id t"
      using state t' by (auto simp: task_ok_def status_sets)
    have new_terminal: "at_terminal_session t' = Some s" using t' by simp
    have "(put_task m i t')\<lparr>tm_by_terminal := (tm_by_terminal m)(s \<mapsto> i)\<rparr> = replace_task m i t t'"
      using move_same(2) [OF ok t] state(3) new_terminal same(1)
      by (intro task_manager.equality) (simp_all add: replace_task_def move_def)
    moreover have "tm_streams m i = None"
      using manager_okD(7) [OF ok, of i] t tok state by (cases "tm_streams m i") (auto simp: stream_ok_def)
    ultimately show ?thesis
      using manager_ok_replace(1) [OF ok t _ same(2)] same get_task_id [OF manager_okD(1) [OF ok] t]
        free state t' by (auto simp: available_def)
  qed
  show ?thesis
    by (auto simp: bind_terminal_session_def Let_def ok split: option.split intro!: step)
qed

lemma drop_own_frame [simp]:
  "tm_by_terminal (drop_own_validation_session m i s) = tm_by_terminal m"
  "tm_exited (drop_own_validation_session m i s) = tm_exited m"
  by (simp_all add: drop_own_validation_session_def split: option.split)

text \<open>A stopped task that continues in a new terminal.\<close>

lemma continue_kept:
  assumes ok: "manager_ok m c" and t: "get_task m i = Some t" and stopped: "tm_streams m i = None"
    and t': "at_terminal_session t' = Some s" "vs_session (at_validation t') = None" "at_id t' = at_id t"
      "task_ok t'"
    and free: "available m s"
  shows "manager_ok ((drop_own_validation_session (put_task m i t') i (vs_session (at_validation t)))
      \<lparr>tm_by_terminal := (case at_terminal_session t of
         Some old \<Rightarrow> (tm_by_terminal m)(old := None, s \<mapsto> i) | None \<Rightarrow> (tm_by_terminal m)(s \<mapsto> i))\<rparr>) c"
  unfolding retry_as_replace [OF ok t t'(1,2)]
  using t' get_task_id [OF manager_okD(1) [OF ok] t] free stopped
  by (intro manager_ok_replace [OF ok t]) (auto simp: available_def)

lemma retry_kept:
  assumes ok: "manager_ok m c" and run: "bind_terminal_retry_session m i old s now = Some r"
  shows "manager_ok (snd r) c"
proof (cases "bound_to m s = None \<and> is_valid_jsh_session_id s \<and> terminal_retry_session_id m i = Inr old")
  case False
  then show ?thesis
    using run ok by (auto simp: bind_terminal_retry_session_def split: if_splits option.splits sum.splits)
next
  case True
  then obtain t where t: "get_task m i = Some t" "at_terminal_session t = Some old" "tm_streams m i = None"
      "at_status t = TsFailed" "vs_status (at_validation t) \<noteq> VsRunning"
    by (auto simp: terminal_retry_session_id_def has_active_stream_def split: if_splits option.splits)
  have "task_ok t" using manager_okD(3) [OF ok t(1)] .
  let ?t' = "t\<lparr>at_validation := stale_validation (at_validation t)
        (lit ''Terminal retry started; the previous validation result is stale''),
      at_terminal_session := Some s, at_exit_code := None, at_status := TsWorking, at_detail := None,
      at_updated_ms := now\<rparr>"
  have "task_ok ?t'" "vs_session (at_validation ?t') = None"
    using \<open>task_ok t\<close> t(2,4) by (auto simp: task_ok_def)
  then have "manager_ok ((drop_own_validation_session (put_task m i ?t') i (vs_session (at_validation t)))
      \<lparr>tm_by_terminal := (tm_by_terminal m)(old := None, s \<mapsto> i)\<rparr>) c"
    using continue_kept [OF ok t(1,3), of ?t' s] t(2) True by (simp add: bound_to_None)
  from manager_ok_exited [OF this] show ?thesis
    using True run t(1) by (auto simp: bind_terminal_retry_session_def Let_def)
qed

lemma fallback_kept:
  assumes ok: "manager_ok m c"
  shows "manager_ok (snd (bind_native_terminal_fallback_session m i s now)) c"
proof (cases "bound_to m s = None \<and> is_valid_jsh_session_id s \<and> native_terminal_fallback_eligible m i = Inr ()")
  case False
  then show ?thesis
    using ok by (auto simp: bind_native_terminal_fallback_session_def split: if_splits option.splits sum.splits)
next
  case True
  then obtain t where t: "get_task m i = Some t" "at_terminal_session t = None" "tm_streams m i = None"
      "at_status t = TsFailed \<or> at_status t = TsReadyForReview" "vs_status (at_validation t) \<noteq> VsRunning"
    by (auto simp: native_terminal_fallback_eligible_def has_active_stream_def split: if_splits option.splits)
  have "task_ok t" using manager_okD(3) [OF ok t(1)] .
  let ?t' = "t\<lparr>at_runtime := RkTerminalFallback, at_terminal_session := Some s, at_exit_code := None,
      at_status := TsWorking, at_validation := stale_validation (at_validation t)
        (lit ''Terminal continuation started; the previous validation result is stale''),
      at_detail := Some (lit ''Native Codex stopped; continuing in the terminal compatibility path''),
      at_updated_ms := now\<rparr>"
  have "task_ok ?t'" "vs_session (at_validation ?t') = None"
    using \<open>task_ok t\<close> t(2,4) by (auto simp: task_ok_def)
  then show ?thesis
    using continue_kept [OF ok t(1,3), of ?t' s] t(1,2) True bound_to_None [of m s]
    by (simp add: bind_native_terminal_fallback_session_def Let_def)
qed

lemma bind_validation_kept:
  assumes ok: "manager_ok m c"
  shows "manager_ok (snd (bind_validation_session m i s now)) c"
proof (cases "is_valid_jsh_session_id s \<and> available m s \<and> \<not> isl (next_validation_attempt m i)")
  case False
  then show ?thesis
    using ok by (auto simp: bind_validation_session_def available_def split: if_splits option.splits sum.splits)
next
  case True
  then obtain t n where t: "get_task m i = Some t" "tm_streams m i = None" "at_status t = TsReadyForReview"
      and n: "next_validation_attempt m i = Inr n"
    by (auto simp: next_validation_attempt_def has_active_stream_def split: if_splits option.splits)
  let ?t' = "t\<lparr>at_validation := \<lparr>vs_status = VsRunning, vs_attempt = n, vs_session = Some s,
      vs_exit_code = None, vs_detail = None\<rparr>, at_updated_ms := now\<rparr>"
  have "task_ok ?t'"
    using manager_okD(3) [OF ok t(1)] t(3) by (auto simp: task_ok_def settled_def)
  moreover have "replace_task m i t ?t' =
      (put_task (drop_validation_session m (vs_session (at_validation t))) i ?t')
      \<lparr>tm_by_validation := (tm_by_validation (drop_validation_session m (vs_session (at_validation t))))(s \<mapsto> i)\<rparr>"
    using move_same(1) [OF ok t(1)]
    by (intro task_manager.equality)
      (auto simp: replace_task_def move_def put_task_commute drop_validation_session_def split: option.split)
  ultimately show ?thesis
    using True t n manager_ok_replace(1) [OF ok t(1), of ?t'] get_task_id [OF manager_okD(1) [OF ok] t(1)]
    by (simp add: bind_validation_session_def Let_def available_def)
qed

lemma stale_as_replace:
  assumes "manager_ok m c" and "get_task m i = Some t"
    and "at_terminal_session t' = at_terminal_session t" and "vs_session (at_validation t') = None"
  shows "put_task (drop_validation_session m (vs_session (at_validation t))) i t' = replace_task m i t t'"
  using move_same(1) [OF assms(1,2)] assms(3,4)
  by (intro task_manager.equality)
    (auto simp: replace_task_def move_def put_task_commute drop_validation_session_def split: option.split)

text \<open>A task whose validation result goes stale.\<close>

lemma stale_kept:
  assumes ok: "manager_ok m c" and t: "get_task m i = Some t" and "tm_streams m i = None"
    and "at_terminal_session t' = at_terminal_session t" "vs_session (at_validation t') = None"
      "at_id t' = at_id t" "task_ok t'"
  shows "manager_ok (put_task (drop_validation_session m (vs_session (at_validation t))) i t') c"
    "get_task (put_task (drop_validation_session m (vs_session (at_validation t))) i t') =
      (get_task m)(i \<mapsto> t')"
proof -
  have "at_id t' = i" using assms(6) get_task_id [OF manager_okD(1) [OF ok] t] by simp
  from manager_ok_replace [OF ok t this assms(7)]
  show "manager_ok (put_task (drop_validation_session m (vs_session (at_validation t))) i t') c"
    "get_task (put_task (drop_validation_session m (vs_session (at_validation t))) i t') =
      (get_task m)(i \<mapsto> t')"
    unfolding stale_as_replace [OF ok t assms(4,5)] using assms(3-5) by simp_all
qed

lemma update_kept:
  assumes ok: "manager_ok m c"
  shows "manager_ok (snd (update_status invis m i st detail now)) c"
proof (cases "isl (fst (update_status invis m i st detail now))")
  case True
  then have "snd (update_status invis m i st detail now) = m"
    by (auto simp: update_status_def Let_def split: option.splits if_splits)
  then show ?thesis using ok by simp
next
  case False
  then obtain t where t: "get_task m i = Some t" "tm_streams m i = None" "st \<noteq> TsCompleted"
      "is_terminal (at_status t) \<longrightarrow> at_status t = st"
      "vs_status (at_validation t) = VsRunning \<longrightarrow> st = at_status t"
      "\<not> (st = TsCreated \<and> at_runtime t = RkNative)"
    by (auto simp: update_status_def has_active_stream_def Let_def split: option.splits if_splits)
  let ?v = "at_validation t"
  let ?inv = "(st = TsCreated \<or> is_running st) \<and> vs_status ?v \<noteq> VsNotRun \<and> vs_status ?v \<noteq> VsRunning"
  let ?set = "\<lambda>t. t\<lparr>at_status := st, at_detail := bounded_event_detail invis detail, at_updated_ms := now\<rparr>"
  let ?stale = "t\<lparr>at_validation := validation_default\<lparr>vs_attempt := vs_attempt ?v,
      vs_detail := Some (lit ''Task work resumed; the previous validation result is stale'')\<rparr>\<rparr>"
  have tok: "task_ok t" using manager_okD(3) [OF ok t(1)] .
  have "manager_ok (if ?inv then put_task (drop_validation_session m (vs_session ?v)) i (?set ?stale)
      else put_task m i (?set t)) c"
  proof (cases ?inv)
    case True
    then have "task_ok (?set ?stale)" using tok t(4,6) by (auto simp: task_ok_def status_sets)
    then show ?thesis using True stale_kept(1) [OF ok t(1,2), of "?set ?stale"] by simp
  next
    case False
    then have "task_ok (?set t)"
      using tok t(3-6) by (cases st; auto simp: task_ok_def status_sets)
    then show ?thesis using False by (auto intro!: manager_ok_update_idle [OF ok t(1,2)])
  qed
  then show ?thesis
    using False t by (auto simp: update_status_def Let_def manager_ok_end split: if_splits)
qed

subsection \<open>Event streams\<close>

lemma next_word_less: "c \<noteq> - 1 \<Longrightarrow> c < c + 1" for c :: u64
proof -
  assume "c \<noteq> - 1"
  then have "1 + c \<noteq> 0" by (metis add.commute eq_neg_iff_add_eq_0)
  then show ?thesis using unatSuc [of c] by (simp add: word_less_nat_alt add.commute)
qed

lemma allocate_epoch_less:
  "allocate_epoch c = (Inr e, d) \<Longrightarrow> e = c \<and> c < d \<and> d = c + 1"
  "allocate_epoch c = (Inl err, d) \<Longrightarrow> d = c"
  using next_word_less [of c] by (auto simp: allocate_epoch_def split: if_splits)

definition installed :: "agent_task \<Rightarrow> u64 \<Rightarrow> agent_task" where
  "installed t now =
     (let t1 = (if at_runtime t = RkUnassigned
                then t\<lparr>at_runtime := RkNative, at_status := TsStarting, at_detail := None\<rparr> else t)
      in t1\<lparr>at_validation := stale_validation (at_validation t1)
              (lit ''Agent work resumed; the previous validation result is stale''), at_updated_ms := now\<rparr>)"

lemma install_result:
  assumes ok: "manager_ok m c" and t: "get_task m i = Some t" and idle: "tm_streams m i = None"
    and here: "i \<notin> tm_remote m"
    and state: "(at_status t = TsCreated \<and> at_runtime t = RkUnassigned) \<or>
      (at_status t = TsReadyForReview \<and> at_runtime t = RkNative)"
    and run: "install_stream m c i session False now = ((r, m'), d)"
  obtains (refused) "isl r" "m' = m" "d = c"
  | (opened) a where "r = Inr (ss_stream a)" "vs_status (at_validation t) \<noteq> VsRunning"
      "get_task m' = (get_task m)(i \<mapsto> installed t now)" "tm_streams m' = (tm_streams m)(i \<mapsto> a)"
      "ss_stream a = \<lparr>es_task = i, es_session = session, es_epoch = c\<rparr>" "c < d" "manager_ok m' d"
proof (cases r)
  case (Inl e)
  then show ?thesis
    using run t refused allocate_epoch_less(2)
    by (auto simp: install_stream_def Let_def split: if_splits sum.splits prod.splits)
next
  case (Inr stream)
  then have guards: "vs_status (at_validation t) \<noteq> VsRunning" "at_terminal_session t = None"
    using run t by (auto simp: install_stream_def terminal_owned_def split: if_splits)
  obtain e where e: "allocate_epoch c = (Inr e, d)"
    using run t Inr by (auto simp: install_stream_def Let_def split: if_splits sum.splits prod.splits)
  note less = allocate_epoch_less(1) [OF e]
  let ?m1 = "put_task (drop_validation_session m (vs_session (at_validation t))) i (installed t now)"
  let ?a = "\<lparr>ss_stream = \<lparr>es_task = i, es_session = session, es_epoch = e\<rparr>, ss_next_sequence = 1,
      ss_session_started = False, ss_active_turn = None, ss_review_point = (at_status t = TsReadyForReview)\<rparr>"
  have m': "m' = ?m1\<lparr>tm_streams := (tm_streams ?m1)(i \<mapsto> ?a)\<rparr>" "stream = ss_stream ?a"
    using run t Inr e by (auto simp: install_stream_def installed_def Let_def split: if_splits)
  have "task_ok (installed t now)" "vs_session (at_validation (installed t now)) = None"
    "at_terminal_session (installed t now) = at_terminal_session t" "at_id (installed t now) = at_id t"
    using manager_okD(3) [OF ok t] state guards
    by (auto simp: installed_def Let_def task_ok_def status_sets)
  note kept = stale_kept [OF ok t idle this(3,2,4,1)]
  have "stream_ok d i (installed t now) ?a"
    using state guards less by (auto simp: stream_ok_def installed_def Let_def is_running_def)
  then have "manager_ok m' d"
    unfolding m' using less kept(2) here by (intro manager_ok_stream manager_ok_later [OF kept(1)]) auto
  then show ?thesis
    using Inr guards(1) m' less less [THEN conjunct2, THEN conjunct1] kept(2) by (intro opened [of ?a]) simp_all
qed

text \<open>What starting and resuming do.\<close>

lemma opened_cases:
  assumes ok: "manager_ok m c"
    and run: "start_stream m c i session now = ((r, m'), d) \<or> resume_stream m c i session now = ((r, m'), d)"
  obtains (refused) "isl r" "m' = m" "d = c"
  | (opened) t a where "get_task m i = Some t" "tm_streams m i = None"
      "(at_status t = TsCreated \<and> at_runtime t = RkUnassigned) \<or>
        (at_status t = TsReadyForReview \<and> at_runtime t = RkNative)"
      "r = Inr (ss_stream a)" "vs_status (at_validation t) \<noteq> VsRunning"
      "get_task m' = (get_task m)(i \<mapsto> installed t now)" "tm_streams m' = (tm_streams m)(i \<mapsto> a)"
      "ss_stream a = \<lparr>es_task = i, es_session = session, es_epoch = c\<rparr>" "c < d" "manager_ok m' d"
proof (cases "\<exists>t. get_task m i = Some t \<and> tm_streams m i = None \<and> i \<notin> tm_remote m \<and>
    ((at_status t = TsCreated \<and> at_runtime t = RkUnassigned) \<or>
      (at_status t = TsReadyForReview \<and> at_runtime t = RkNative)) \<and>
    install_stream m c i session False now = ((r, m'), d)")
  case True
  then obtain t where t: "get_task m i = Some t" "tm_streams m i = None"
      "(at_status t = TsCreated \<and> at_runtime t = RkUnassigned) \<or>
        (at_status t = TsReadyForReview \<and> at_runtime t = RkNative)"
    and here: "i \<notin> tm_remote m"
    and inst: "install_stream m c i session False now = ((r, m'), d)" by blast
  show ?thesis
    by (rule install_result [OF ok t(1,2) here t(3) inst]) (rule refused opened [OF t]; simp)+
next
  case False
  have unassigned: "at_runtime t = RkUnassigned"
    if "get_task m i = Some t" "at_status t = TsCreated" "\<not> terminal_owned t" for t
    using manager_okD(3) [OF ok that(1)] that(2,3)
    by (cases "at_runtime t") (auto simp: task_ok_def terminal_owned_def)
  show ?thesis
    using run False no_stream [OF ok, of i] not_remote [of m i] unassigned
    by (intro refused)
      (auto simp: start_stream_def resume_stream_def is_terminal_def split: if_splits option.splits)
qed

lemma open_kept:
  assumes "manager_ok m c"
    and "start_stream m c i session now = ((r, m'), d) \<or> resume_stream m c i session now = ((r, m'), d)"
  shows "manager_ok m' d"
  by (rule opened_cases [OF assms]) (use assms(1) in simp_all)

lemma ended_update:
  assumes "manager_ok m c" and "get_task m i = Some t"
    and "task_ok t \<Longrightarrow> at_id t' = at_id t \<and> at_terminal_session t' = at_terminal_session t \<and>
      vs_session (at_validation t') = vs_session (at_validation t) \<and> task_ok t'"
  shows "manager_ok (end_stream (put_task m i t') i) c"
proof -
  have "manager_ok (put_task (end_stream m i) i t') c"
    by (rule manager_ok_update_idle [OF manager_ok_end [OF assms(1)], where t = t])
      (simp_all add: assms(2,3), simp add: end_stream_def)
  then show ?thesis by (simp add: put_task_commute)
qed

lemma rollback_kept: "manager_ok m c \<Longrightarrow> manager_ok (snd (rollback_stream invis m ex detail now)) c"
  by (auto simp: rollback_stream_def split: option.split sum.split intro!: ended_update)
    (auto simp: task_ok_def status_sets)

lemma verify_stream_Inr:
  "verify_stream m ex = Inr i \<Longrightarrow> \<exists>a. tm_streams m i = Some a \<and> i = es_task ex \<and>
     es_epoch (ss_stream a) = es_epoch ex \<and> es_session (ss_stream a) = es_session ex"
  by (auto simp: verify_stream_def Let_def split: option.splits if_splits)

text \<open>What an end makes of a status that a stream can have.\<close>

lemma status_after_end:
  "status_after_event s (SessionEnded outcome) = Some (n, u) \<Longrightarrow> n \<in> {TsReadyForReview, TsFailed, TsCancelled}"
  by (auto simp: status_after_event_def split: if_splits session_outcome.splits)

definition set_status :: "agent_task \<Rightarrow> task_status \<Rightarrow> str option \<Rightarrow> u64 \<Rightarrow> agent_task" where
  "set_status t st detail now = t\<lparr>at_status := st,
     at_detail := (if st \<noteq> at_status t \<or> detail \<noteq> None then detail else at_detail t), at_updated_ms := now\<rparr>"

lemma set_status_eq:
  "(if st \<noteq> at_status t \<or> d \<noteq> None then t\<lparr>at_status := st\<rparr>\<lparr>at_detail := d\<rparr> else t\<lparr>at_status := st\<rparr>)
     \<lparr>at_updated_ms := now\<rparr> = set_status t st d now"
  by (simp add: set_status_def)

lemma set_status_simps [simp]:
  "at_id (set_status t st d now) = at_id t" "at_status (set_status t st d now) = st"
  "at_terminal_session (set_status t st d now) = at_terminal_session t"
  "at_validation (set_status t st d now) = at_validation t"
  "at_runtime (set_status t st d now) = at_runtime t"
  "at_archived_from (set_status t st d now) = at_archived_from t"
  by (simp_all add: set_status_def)

lemma set_status_ok:
  assumes "task_ok t" and "settled st" and "at_status t \<noteq> TsArchived" and "vs_status (at_validation t) \<noteq> VsRunning"
  shows "task_ok (set_status t st d now)"
proof -
  have "at_archived_from t = None" using assms(1,3) by (auto simp: task_ok_def)
  then show ?thesis using assms by (auto simp: task_ok_def settled_def)
qed

lemma stream_status:
  "stream_ok c i t a \<Longrightarrow> at_status t \<noteq> TsArchived \<and> at_status t \<noteq> TsCreated \<and> \<not> is_terminal (at_status t)"
  by (auto simp: stream_ok_def status_sets)

lemma finish_cases:
  assumes ok: "manager_ok m c"
  obtains (refused) e where "finish_stream invis m ex outcome detail now = (Inl e, m)"
  | (finished) i t a st where "get_task m i = Some t" "tm_streams m i = Some a" "stream_ok c i t a"
      "es_task (ss_stream a) = i" "st \<in> {TsReadyForReview, TsFailed, TsCancelled}"
      "at_status t = TsReadyForReview \<longrightarrow> st = TsReadyForReview"
      "finish_stream invis m ex outcome detail now =
        (Inr st, end_stream (put_task m i (set_status t st (bounded_event_detail invis detail) now)) i)"
proof (cases "\<exists>i t n u. verify_stream m ex = Inr i \<and> get_task m i = Some t \<and> \<not> is_terminal (at_status t) \<and>
    status_after_event (at_status t) (SessionEnded outcome) = Some (n, u)")
  case False
  then have "\<exists>e. finish_stream invis m ex outcome detail now = (Inl e, m)"
    by (auto simp: finish_stream_def Let_def split: option.splits sum.splits)
  then show ?thesis using refused by blast
next
  case True
  then obtain i t n u where v: "verify_stream m ex = Inr i" and t: "get_task m i = Some t"
    and live: "\<not> is_terminal (at_status t)"
    and n: "status_after_event (at_status t) (SessionEnded outcome) = Some (n, u)" by blast
  obtain a where a: "tm_streams m i = Some a" using verify_stream_Inr [OF v] by blast
  have so: "stream_ok c i t a" using manager_okD(7) [OF ok a] t by auto
  let ?st = "if ss_review_point a \<and> outcome \<noteq> OutClean then TsReadyForReview else n"
  show ?thesis
  proof (rule finished [OF t a so])
    show "es_task (ss_stream a) = i" using so by (simp add: stream_ok_def)
    show "?st \<in> {TsReadyForReview, TsFailed, TsCancelled}" using status_after_end [OF n] by simp
    show "at_status t = TsReadyForReview \<longrightarrow> ?st = TsReadyForReview"
      using n by (auto simp: status_after_event_def)
    show "finish_stream invis m ex outcome detail now =
        (Inr ?st, end_stream (put_task m i (set_status t ?st (bounded_event_detail invis detail) now)) i)"
      using v t live n a
      by (simp only: finish_stream_def Let_def set_status_eq sum.case option.case prod.case if_False)
  qed
qed

lemma finish_kept:
  assumes ok: "manager_ok m c"
  shows "manager_ok (snd (finish_stream invis m ex outcome detail now)) c"
proof (rule finish_cases [OF ok, of invis ex outcome detail now])
  fix i t a st
  assume t: "get_task m i = Some t" and so: "stream_ok c i t a"
    and st: "st \<in> {TsReadyForReview, TsFailed, TsCancelled}"
    and r: "finish_stream invis m ex outcome detail now =
        (Inr st, end_stream (put_task m i (set_status t st (bounded_event_detail invis detail) now)) i)"
  have "task_ok (set_status t st d now)" if "task_ok t" for d
    using that stream_status [OF so] so st by (intro set_status_ok) (auto simp: settled_def stream_ok_def)
  then show ?thesis unfolding r snd_conv by (intro ended_update [OF ok t]) simp_all
qed (simp add: ok)

end
