(* ===== verification/Agent_Event_Invariant.thy ===== *)
theory Agent_Event_Invariant
  imports Agent_Task_Invariant
begin

text \<open>Applying an event keeps the invariant of the task manager.\<close>

subsection \<open>The step of a stream\<close>

lemma check_event_None:
  assumes "check_event i t a ev = None"
  shows "es_epoch (ss_stream a) = es_epoch (ae_stream ev)" "es_session (ss_stream a) = es_session (ae_stream ev)"
    "ss_next_sequence a = ae_sequence ev" "check_turn i (ss_active_turn a) (ae_kind ev) = None"
    "ss_session_started a \<or> is_session_started (ae_kind ev) \<or> may_end_before_start (ae_kind ev)"
    "\<not> (ss_session_started a \<and> is_session_started (ae_kind ev))"
  using assms by (auto simp: check_event_def Let_def split: if_splits option.splits)

definition started_over :: "agent_task \<Rightarrow> event_kind \<Rightarrow> agent_task" where
  "started_over t kind = (if is_turn_started kind
     then t\<lparr>at_validation := stale_validation (at_validation t)
             (lit ''Agent turn started; the previous validation result is stale'')\<rparr> else t)"

lemma event_task_eq: "event_task t kind st d now = set_status (started_over t kind) st d now"
  by (simp add: event_task_def started_over_def set_status_def Let_def)

lemma started_over_simps [simp]:
  "at_id (started_over t k) = at_id t" "at_status (started_over t k) = at_status t"
  "at_terminal_session (started_over t k) = at_terminal_session t" "at_runtime (started_over t k) = at_runtime t"
  "at_archived_from (started_over t k) = at_archived_from t"
  by (simp_all add: started_over_def)

lemma started_over_validation:
  "at_validation (started_over t k) = (if is_turn_started k then stale_validation (at_validation t)
     (lit ''Agent turn started; the previous validation result is stale'') else at_validation t)"
  by (simp add: started_over_def)

lemma turn_statuses:
  "stream_ok c i t a \<Longrightarrow> (\<exists>turn. ss_active_turn a = Some turn \<and> ss_session_started a \<and>
       at_status t \<in> {TsWorking, TsWaitingForApproval, TsWaitingForHuman}) \<or>
     (ss_active_turn a = None \<and> at_status t = TsStarting \<and> \<not> ss_review_point a) \<or>
     (ss_active_turn a = None \<and> at_status t = TsReadyForReview \<and> ss_review_point a)"
  by (auto simp: stream_ok_def is_running_def)

text \<open>The statuses between which an event that does not end the stream moves.\<close>

lemma event_moves:
  assumes "stream_ok c i t a" and "check_turn i (ss_active_turn a) k = None"
    and "status_after_event (at_status t) k = Some (n, u)" and "\<not> event_ends_stream k"
    and "\<not> (ss_session_started a \<and> is_session_started k)"
  shows "if is_turn_started k then n = TsWorking \<and> ss_active_turn a = None
    else case k of
      TurnCompleted _ \<Rightarrow> n = TsReadyForReview \<and> at_status t = TsWorking
    | _ \<Rightarrow> n = at_status t \<or> (n \<in> {TsWorking, TsWaitingForApproval, TsWaitingForHuman} \<and>
        at_status t \<in> {TsWorking, TsWaitingForApproval, TsWaitingForHuman} \<and> ss_active_turn a \<noteq> None)"
  using turn_statuses [OF assms(1)] assms(2-5)
  by (cases k) (auto simp: status_after_event_def check_turn_def turn_of_def event_ends_stream_def
      is_turn_started_def is_running_def split: if_splits option.splits)

lemma event_cursor_simps [simp]:
  "ss_stream (event_cursor a k s) = ss_stream a" "ss_next_sequence (event_cursor a k s) = s"
  "ss_session_started (event_cursor a k s) \<longleftrightarrow> ss_session_started a \<or> is_session_started k"
  by (simp_all add: event_cursor_def Let_def split: event_kind.split)

definition is_turn_completed :: "event_kind \<Rightarrow> bool" where
  "is_turn_completed k \<longleftrightarrow> (case k of TurnCompleted _ \<Rightarrow> True | _ \<Rightarrow> False)"

lemma event_cursor_turn:
  "ss_active_turn (event_cursor a k s) =
     (case k of TurnStarted turn \<Rightarrow> Some turn | TurnCompleted _ \<Rightarrow> None | _ \<Rightarrow> ss_active_turn a)"
  "ss_review_point (event_cursor a k s) \<longleftrightarrow> is_turn_completed k \<or> ss_review_point a"
  by (simp_all add: event_cursor_def is_turn_completed_def Let_def split: event_kind.split)

lemma stream_okI:
  assumes "stream_ok c i t a" and "ss_stream b = ss_stream a" and "at_runtime t' = at_runtime t"
    and "vs_status (at_validation t') \<noteq> VsRunning"
    and "(ss_active_turn b \<noteq> None \<and> ss_session_started b \<and>
        at_status t' \<in> {TsWorking, TsWaitingForApproval, TsWaitingForHuman}) \<or>
      (ss_active_turn b = None \<and> at_status t' = TsStarting \<and> \<not> ss_review_point b) \<or>
      (ss_active_turn b = None \<and> at_status t' = TsReadyForReview \<and> ss_review_point b)"
  shows "stream_ok c i t' b"
proof -
  have "es_task (ss_stream b) = i" "es_epoch (ss_stream b) < c" "at_runtime t' = RkNative"
    using assms(1-3) by (simp_all add: stream_ok_def)
  with assms(4,5) show ?thesis
    unfolding stream_ok_def by (elim disjE) (auto simp: is_running_def)
qed

lemma event_step:
  assumes so: "stream_ok c i t a" and tok: "task_ok t" and check: "check_event i t a ev = None"
    and st: "status_after_event (at_status t) (ae_kind ev) = Some (n, u)"
    and live: "\<not> event_ends_stream (ae_kind ev)"
  shows "stream_ok c i (set_status (started_over t (ae_kind ev)) n d now) (event_cursor a (ae_kind ev) s)"
    "task_ok (set_status (started_over t (ae_kind ev)) n d now)"
proof -
  let ?k = "ae_kind ev" and ?t = "set_status (started_over t (ae_kind ev)) n d now"
  note moves = event_moves [OF so check_event_None(4) [OF check] st live check_event_None(6) [OF check]]
  note turns = turn_statuses [OF so]
  have status: "at_status t \<noteq> TsArchived" using stream_status [OF so] by auto
  then have visible: "at_archived_from t = None" using tok by (auto simp: task_ok_def)
  have fresh: "vs_status (at_validation t) = VsNotRun \<or> at_status t = TsReadyForReview"
    using tok turns by (auto simp: task_ok_def settled_def)
  have running: "vs_status (at_validation ?t) \<noteq> VsRunning"
    using so by (simp add: started_over_validation stream_ok_def)
  consider (start) turn where "?k = TurnStarted turn" | (complete) turn where "?k = TurnCompleted turn"
    | (other) "\<not> is_turn_started ?k" "\<not> is_turn_completed ?k"
    by (cases ?k) (auto simp: is_turn_started_def is_turn_completed_def)
  then have "stream_ok c i ?t (event_cursor a ?k s) \<and> task_ok ?t"
  proof cases
    case start
    then have n: "n = TsWorking" using moves by (simp add: is_turn_started_def)
    have "ss_session_started a"
      using check_event_None(5) [OF check] start by (simp add: is_session_started_def may_end_before_start_def)
    then have "stream_ok c i ?t (event_cursor a ?k s)"
      using start n running by (intro stream_okI [OF so]) (simp_all add: event_cursor_turn)
    moreover have "task_ok ?t"
      using tok start n visible so
      by (auto simp: task_ok_def started_over_validation is_turn_started_def stream_ok_def)
    ultimately show ?thesis ..
  next
    case complete
    then have n: "n = TsReadyForReview" using moves by (simp add: is_turn_started_def)
    then have "stream_ok c i ?t (event_cursor a ?k s)"
      using complete running
      by (intro stream_okI [OF so]) (simp_all add: event_cursor_turn is_turn_completed_def)
    moreover have "task_ok ?t"
      using tok complete n visible
      by (auto simp: task_ok_def started_over_validation is_turn_started_def settled_def)
    ultimately show ?thesis ..
  next
    case other
    then have n: "n = at_status t \<or> (n \<in> {TsWorking, TsWaitingForApproval, TsWaitingForHuman} \<and>
        at_status t \<in> {TsWorking, TsWaitingForApproval, TsWaitingForHuman} \<and> ss_active_turn a \<noteq> None)"
      using moves by (auto simp: is_turn_completed_def split: event_kind.splits)
    have turn: "ss_active_turn (event_cursor a ?k s) = ss_active_turn a"
      using other by (auto simp: event_cursor_turn is_turn_started_def is_turn_completed_def split: event_kind.split)
    have "stream_ok c i ?t (event_cursor a ?k s)"
      using n turns other running turn
      by (intro stream_okI [OF so]) (auto simp: event_cursor_turn(2))
    moreover have "task_ok ?t"
      using tok other n visible fresh so
      by (auto simp: task_ok_def started_over_validation stream_ok_def)
    ultimately show ?thesis ..
  qed
  then show "stream_ok c i ?t (event_cursor a ?k s)" "task_ok ?t" by auto
qed

subsection \<open>Applying an event\<close>

text \<open>What a successful event does; a refused one does nothing.\<close>

definition event_next :: "stream_state \<Rightarrow> event_kind \<Rightarrow> task_status \<Rightarrow> task_status" where
  "event_next a k n = (if ss_review_point a \<and> unclean_end k then TsReadyForReview else n)"

definition event_change :: "task_manager \<Rightarrow> task_id \<Rightarrow> agent_task \<Rightarrow> event_kind \<Rightarrow> task_status \<Rightarrow>
    str option \<Rightarrow> u64 \<Rightarrow> task_manager" where
  "event_change m i t k st d now =
     drop_own_validation_session (put_task m i (set_status (started_over t k) st d now)) i
       (if is_turn_started k \<and> at_validation t \<noteq> validation_default then vs_session (at_validation t) else None)"

definition event_result :: "task_manager \<Rightarrow> task_id \<Rightarrow> agent_task \<Rightarrow> stream_state \<Rightarrow> agent_event \<Rightarrow>
    task_status \<Rightarrow> bool \<Rightarrow> u64 \<Rightarrow> task_manager" where
  "event_result m i t a ev st updates now =
     (let m2 = (if updates then event_change m i t (ae_kind ev) st (ae_detail ev) now
                else drop_own_validation_session m i
                  (if is_turn_started (ae_kind ev) \<and> at_validation t \<noteq> validation_default
                   then vs_session (at_validation t) else None))
      in if is_terminal st \<or> event_ends_stream (ae_kind ev) then end_stream m2 i
         else m2\<lparr>tm_streams := (tm_streams m2)(i \<mapsto> event_cursor a (ae_kind ev) (ae_sequence ev + 1))\<rparr>)"

lemma apply_event_cases:
  obtains (refused) e where "apply_event m ev now = (Inl e, m)"
  | (applied) i t a n u where "i = es_task (ae_stream ev)" "get_task m i = Some t"
      "\<not> is_terminal (at_status t)" "tm_streams m i = Some a" "check_event i t a ev = None"
      "status_after_event (at_status t) (ae_kind ev) = Some (n, u)" "ae_sequence ev \<noteq> - 1"
      "apply_event m ev now = (Inr (event_next a (ae_kind ev) n),
         event_result m i t a ev (event_next a (ae_kind ev) n) u now)"
proof (cases "\<exists>t a n u. get_task m (es_task (ae_stream ev)) = Some t \<and> \<not> is_terminal (at_status t) \<and>
    tm_streams m (es_task (ae_stream ev)) = Some a \<and> check_event (es_task (ae_stream ev)) t a ev = None \<and>
    status_after_event (at_status t) (ae_kind ev) = Some (n, u) \<and> ae_sequence ev \<noteq> - 1")
  case True
  then obtain t a n u where t: "get_task m (es_task (ae_stream ev)) = Some t" "\<not> is_terminal (at_status t)"
    "tm_streams m (es_task (ae_stream ev)) = Some a" "check_event (es_task (ae_stream ev)) t a ev = None"
    "status_after_event (at_status t) (ae_kind ev) = Some (n, u)" "ae_sequence ev \<noteq> - 1"
    by (elim exE conjE)
  show ?thesis
    by (rule applied [OF refl t], cases u)
      (simp_all only: apply_event_def event_result_def event_change_def event_next_def event_task_eq Let_def t
        option.case prod.case if_False if_True)
next
  case False
  then have "\<exists>e. apply_event m ev now = (Inl e, m)"
    by (auto simp: apply_event_def Let_def split: option.split)
  then show ?thesis using refused by blast
qed

lemma ends_settled:
  "status_after_event s k = Some (n, u) \<Longrightarrow> event_ends_stream k \<Longrightarrow>
     u \<and> \<not> is_turn_started k \<and> event_next a k n \<in> {TsReadyForReview, TsFailed, TsCancelled}"
  by (cases k) (auto simp: status_after_event_def event_ends_stream_def is_turn_started_def event_next_def
      split: if_splits session_outcome.splits bool.splits)

lemma live_next:
  "\<not> event_ends_stream k \<Longrightarrow> event_next a k n = n"
  by (cases k) (auto simp: event_next_def unclean_end_def event_ends_stream_def)

lemma event_change_remote [simp]: "tm_remote (event_change m i t k st d now) = tm_remote m"
  by (simp add: event_change_def drop_own_validation_session_def split: option.split)

lemma live_not_terminal: "stream_ok c i (set_status t n d now) b \<Longrightarrow> \<not> is_terminal n"
  using stream_status by fastforce

lemma activity_same: "status_after_event s k = Some (n, False) \<Longrightarrow> n = s \<and> \<not> is_turn_started k"
  by (cases k) (auto simp: status_after_event_def is_turn_started_def split: if_splits bool.splits)

lemma end_drop_own: "drop_own_validation_session (end_stream m i) j s = end_stream (drop_own_validation_session m j s) i"
  by (simp add: drop_own_validation_session_def end_stream_def split: option.split)

lemma stale_default: "v = validation_default \<Longrightarrow> stale_validation v r = v"
  by (simp add: stale_validation_def)

text \<open>The change of the task, for a task whose stream has been set aside.\<close>

lemma event_change_kept:
  assumes ok: "manager_ok m c" and t: "get_task m i = Some t" and idle: "tm_streams m i = None"
    and "task_ok (set_status (started_over t k) st d now)"
  shows "manager_ok (event_change m i t k st d now) c"
    "get_task (event_change m i t k st d now) = (get_task m)(i \<mapsto> set_status (started_over t k) st d now)"
proof -
  let ?t = "set_status (started_over t k) st d now"
  have put: "manager_ok (put_task m i ?t) c \<and> get_task (put_task m i ?t) = (get_task m)(i \<mapsto> ?t)"
    if "vs_session (at_validation ?t) = vs_session (at_validation t)"
  proof
    show "manager_ok (put_task m i ?t) c"
      by (rule manager_ok_update_idle [OF ok t idle]) (simp add: that [simplified] assms(4))
    show "get_task (put_task m i ?t) = (get_task m)(i \<mapsto> ?t)"
      using get_put(2) [OF manager_okD(1) [OF ok] t] get_task_id [OF manager_okD(1) [OF ok] t] by simp
  qed
  have "manager_ok (event_change m i t k st d now) c \<and>
      get_task (event_change m i t k st d now) = (get_task m)(i \<mapsto> ?t)"
  proof (cases "is_turn_started k \<and> at_validation t \<noteq> validation_default")
    case True
    then have none: "vs_session (at_validation ?t) = None" by (simp add: started_over_validation)
    show ?thesis
      using True stale_kept [OF ok t idle _ none _ assms(4)]
      by (simp add: event_change_def drop_own [OF ok t] put_drop)
  next
    case False
    then show ?thesis
      using put by (auto simp: event_change_def started_over_validation drop_own_validation_session_def stale_default)
  qed
  then show "manager_ok (event_change m i t k st d now) c"
    "get_task (event_change m i t k st d now) = (get_task m)(i \<mapsto> ?t)" by auto
qed

lemma apply_kept:
  assumes ok: "manager_ok m c"
  shows "manager_ok (snd (apply_event m ev now)) c"
proof (cases rule: apply_event_cases [of m ev now])
  case (refused e)
  then show ?thesis using ok by simp
next
  case (applied i t a n u)
  let ?st = "event_next a (ae_kind ev) n" and ?k = "ae_kind ev" and ?m = "end_stream m i"
  have so: "stream_ok c i t a" using manager_okD(7) [OF ok applied(4)] applied(2) by auto
  have here: "i \<notin> tm_remote m" using manager_okD(2) [OF ok, of i] applied(4) by auto
  have tok: "task_ok t" using manager_okD(3) [OF ok applied(2)] .
  have m: "manager_ok ?m c" "get_task ?m i = Some t" "tm_streams ?m i = None"
    using manager_ok_end [OF ok] applied(2) by simp_all (simp add: end_stream_def)
  have change: "end_stream (event_change m i t ?k st d now) i = event_change ?m i t ?k st d now" for st d
    by (simp add: event_change_def put_task_commute end_drop_own)
  show ?thesis
  proof (cases "event_ends_stream ?k")
    case True
    note ends = ends_settled [OF applied(6) True, of a]
    have "task_ok (set_status (started_over t ?k) ?st (ae_detail ev) now)"
      using tok ends stream_status [OF so] so
      by (intro set_status_ok) (auto simp: started_over_def settled_def stream_ok_def)
    from event_change_kept(1) [OF m this] show ?thesis
      using True ends applied(8) by (simp add: event_result_def change)
  next
    case False
    have st: "?st = n" using live_next [OF False] by blast
    note step = event_step [OF so tok applied(5,6) False]
    have live: "\<not> is_terminal n" using live_not_terminal [OF step(1)] .
    let ?b = "event_cursor a ?k (ae_sequence ev + 1)"
    have streams: "(end_stream x i)\<lparr>tm_streams := (tm_streams (end_stream x i))(i \<mapsto> ?b)\<rparr> =
        x\<lparr>tm_streams := (tm_streams x)(i \<mapsto> ?b)\<rparr>" for x
      by (simp add: end_stream_def)
    show ?thesis
    proof (cases u)
      case True
      note kept = event_change_kept [OF m step(2), of "ae_detail ev" now]
      have "manager_ok ((event_change ?m i t ?k n (ae_detail ev) now)
          \<lparr>tm_streams := (tm_streams (event_change ?m i t ?k n (ae_detail ev) now))(i \<mapsto> ?b)\<rparr>) c"
        using step(1) kept here by (intro manager_ok_stream) (auto simp: end_stream_def)
      then show ?thesis
        using True False live st applied(8)
        by (simp add: event_result_def Let_def streams flip: change)
    next
      case no: False
      have "stream_ok c i t ?b"
        using step(1) [of None now] activity_same [of "at_status t" ?k n] applied(6) no so
        by (auto simp: stream_ok_def started_over_def)
      then show ?thesis
        using no False live st applied(8) activity_same [of "at_status t" ?k n] applied(2,6) ok here
        by (auto simp: event_result_def Let_def drop_own_validation_session_def intro: manager_ok_stream)
    qed
  qed
qed

end
