(* ===== verification/Agent_Hosted.thy ===== *)
theory Agent_Hosted
  imports Agent_Event_Invariant
begin

text \<open>
  Tasks that another process hosts: what \<open>project_hosted_task\<close> does, and the projections that keep
  the invariant.  The operation replaces a task as a whole and leaves the indices of sessions as they
  are, so a projection must bring the sessions the manager already knows.
\<close>

lemma task_ok_code [code]:
  "task_ok t \<longleftrightarrow>
     (at_archived_from t \<noteq> None \<longrightarrow> at_status t = TsArchived) \<and> at_archived_from t \<noteq> Some TsArchived \<and>
     (vs_status (at_validation t) = VsNotRun \<longleftrightarrow> vs_session (at_validation t) = None) \<and>
     (vs_status (at_validation t) \<noteq> VsNotRun \<longrightarrow> settled (at_status t) \<and> pred_option settled (at_archived_from t)) \<and>
     (vs_status (at_validation t) = VsRunning \<longrightarrow> at_status t = TsReadyForReview) \<and>
     (at_terminal_session t \<noteq> None \<longleftrightarrow> at_runtime t = RkTerminal \<or> at_runtime t = RkTerminalFallback) \<and>
     (at_runtime t = RkNative \<longrightarrow> at_status t \<noteq> TsCreated \<and> at_archived_from t \<noteq> Some TsCreated)"
  by (cases "at_archived_from t") (auto simp: task_ok_def)

text \<open>A task of a well-formed manager, with the sessions registered here, or none when it is new.\<close>

definition hostable :: "task_manager \<Rightarrow> agent_task \<Rightarrow> bool" where
  "hostable m t \<longleftrightarrow> task_ok t \<and>
     (case get_task m (at_id t) of
        Some u \<Rightarrow> at_terminal_session t = at_terminal_session u \<and>
          vs_session (at_validation t) = vs_session (at_validation u)
      | None \<Rightarrow> at_terminal_session t = None \<and> vs_session (at_validation t) = None)"

definition marked :: "task_manager \<Rightarrow> task_id \<Rightarrow> bool \<Rightarrow> task_manager" where
  "marked m i live = m\<lparr>tm_remote := (if live then insert i (tm_remote m) else tm_remote m - {i})\<rparr>"

lemma marked_simps [simp]:
  "get_task (marked m i live) = get_task m" "tm_streams (marked m i live) = tm_streams m"
  by (simp_all add: marked_def)

lemma marked_kept: "manager_ok m c \<Longrightarrow> tm_streams m i = None \<Longrightarrow> manager_ok (marked m i live) c"
  by (auto simp: manager_ok_def marked_def)

text \<open>A projection is refused, or it replaces or adds the task, which has no event stream here.\<close>

lemma project_cases:
  assumes "index_ok m"
  obtains (refused) e where "project_hosted_task m t live = Some (Inl e, m)"
  | (known) u where "get_task m (at_id t) = Some u" "tm_streams m (at_id t) = None"
      "project_hosted_task m t live = Some (Inr (), marked (put_task m (at_id t) t) (at_id t) live)"
  | (added) "tm_indices m (at_id t) = None" "get_task m (at_id t) = None" "tm_streams m (at_id t) = None"
      "project_hosted_task m t live = Some (Inr (), marked (m\<lparr>tm_indices := (tm_indices m)(at_id t \<mapsto> length (tm_tasks m)),
         tm_tasks := tm_tasks m @ [t]\<rparr>) (at_id t) live)"
proof (cases "tm_streams m (at_id t)")
  case (Some a)
  then show ?thesis using refused by (simp add: project_hosted_task_def)
next
  case idle: None
  show ?thesis
  proof (cases "tm_indices m (at_id t)")
    case None
    then show ?thesis
      using idle by (intro added) (simp_all add: get_task_def project_hosted_task_def marked_def Let_def)
  next
    case (Some n)
    then have n: "n < length (tm_tasks m)" using assms by (simp add: index_ok_def)
    then have u: "get_task m (at_id t) = Some (tm_tasks m ! n)" using Some by (simp add: get_task_def)
    have "(\<exists>e. project_hosted_task m t live = Some (Inl e, m)) \<or>
        project_hosted_task m t live = Some (Inr (), marked (put_task m (at_id t) t) (at_id t) live)"
      using Some n idle by (auto simp: project_hosted_task_def index_def put_task_def marked_def Let_def)
    then show ?thesis using refused known [OF u idle] by blast
  qed
qed

lemma project_defined: "index_ok m \<Longrightarrow> project_hosted_task m t live \<noteq> None"
  by (rule project_cases [of m t live]) auto

lemma project_kept:
  assumes ok: "manager_ok m c" and "hostable m t" and run: "project_hosted_task m t live = Some r"
  shows "manager_ok (snd r) c"
proof (rule project_cases [OF manager_okD(1) [OF ok], of t live])
  fix e assume "project_hosted_task m t live = Some (Inl e, m)"
  then show ?thesis using run ok by simp
next
  fix u
  assume u: "get_task m (at_id t) = Some u" "tm_streams m (at_id t) = None"
    and r: "project_hosted_task m t live = Some (Inr (), marked (put_task m (at_id t) t) (at_id t) live)"
  have "manager_ok (put_task m (at_id t) t) c"
    using assms(2) u get_task_id [OF manager_okD(1) [OF ok] u(1)]
    by (intro manager_ok_put [OF ok u(1)]) (simp_all add: hostable_def)
  then show ?thesis using run r u(2) by (auto intro!: marked_kept)
next
  assume u: "tm_indices m (at_id t) = None" "get_task m (at_id t) = None" "tm_streams m (at_id t) = None"
    and r: "project_hosted_task m t live = Some (Inr (), marked (m\<lparr>tm_indices := (tm_indices m)(at_id t \<mapsto> length (tm_tasks m)),
         tm_tasks := tm_tasks m @ [t]\<rparr>) (at_id t) live)"
  have "manager_ok (m\<lparr>tm_indices := (tm_indices m)(at_id t \<mapsto> length (tm_tasks m)), tm_tasks := tm_tasks m @ [t]\<rparr>) c"
    using assms(2) u by (intro manager_ok_append [OF ok]) (simp_all add: hostable_def)
  then show ?thesis using run r u(3) by (auto intro!: marked_kept)
qed

text \<open>The tasks and streams after a projection that was not refused.\<close>

lemma project_result:
  assumes ok: "manager_ok m c" and "project_hosted_task m t live = Some (r, m')"
  shows "(isl r \<and> m' = m) \<or>
    (\<not> isl r \<and> tm_streams m (at_id t) = None \<and> get_task m' = (get_task m)(at_id t \<mapsto> t) \<and> tm_streams m' = tm_streams m)"
  using manager_okD(1) [OF ok]
proof (cases rule: project_cases [where t = t and live = live])
  case (known u)
  then show ?thesis
    using assms(2) get_put(2) [OF manager_okD(1) [OF ok] known(1)] by auto
next
  case added
  then show ?thesis using assms(2) get_append [OF manager_okD(1) [OF ok]] by auto
qed (use assms(2) in simp)

lemma project_refused: "manager_ok m c \<Longrightarrow> project_hosted_task m t live = Some (Inl e, m') \<Longrightarrow> m' = m"
  using project_result by fastforce

lemma project_streams:
  "manager_ok m c \<Longrightarrow> project_hosted_task m t live = Some (r, m') \<Longrightarrow> tm_streams m' = tm_streams m"
  using project_result by fastforce

end
