(* ===== verification/Agent_Task_Run.thy ===== *)
theory Agent_Task_Run
  imports Agent_Hosted
begin

text \<open>
  The task manager as a machine: its operations as commands on the manager and the process-wide
  epoch counter, the runs they make, and the invariant of every run.
\<close>

subsection \<open>Commands\<close>

datatype task_op =
    OpCreate task_id new_task
  | OpCreateBrief task_id new_task task_brief
  | OpBindTerminal task_id str
  | OpRetry task_id str str
  | OpFallback task_id str
  | OpBindValidation task_id str
  | OpUpdate task_id task_status "str option"
  | OpExit str "int option"
  | OpClosed str
  | OpArchive task_id
  | OpRestore task_id
  | OpInvalidate task_id str
  | OpComplete task_id
  | OpCompleteReview task_id
  | OpStart task_id str
  | OpResume task_id str
  | OpFinish event_stream session_outcome "str option"
  | OpRollback event_stream str
  | OpEvent agent_event
  | OpHost agent_task bool

text \<open>Whether the operation succeeded, and the state it leaves; \<open>None\<close> is a panic.\<close>

type_synonym task_state = "task_manager \<times> u64"

definition accepted :: "u64 \<Rightarrow> ('e + 'a) \<times> task_manager \<Rightarrow> (bool \<times> task_state) option" where
  "accepted c r = Some (\<not> isl (fst r), snd r, c)"

definition noticed :: "u64 \<Rightarrow> task_id option \<times> task_manager \<Rightarrow> (bool \<times> task_state) option" where
  "noticed c r = Some (fst r \<noteq> None, snd r, c)"

definition counted :: "(('e + 'a) \<times> task_manager) \<times> u64 \<Rightarrow> (bool \<times> task_state) option" where
  "counted r = Some (\<not> isl (fst (fst r)), snd (fst r), snd r)"

fun task_step ::
  "(u32 \<Rightarrow> bool) \<Rightarrow> u64 \<Rightarrow> task_op \<Rightarrow> task_state \<Rightarrow> (bool \<times> task_state) option" where
  "task_step invis now (OpCreate i nt) (m, c) = accepted c (create_task m i now nt)"
| "task_step invis now (OpCreateBrief i nt b) (m, c) = accepted c (create_with_brief invis m i now nt b)"
| "task_step invis now (OpBindTerminal i s) (m, c) = accepted c (bind_terminal_session m i s now)"
| "task_step invis now (OpRetry i old s) (m, c) =
     Option.bind (bind_terminal_retry_session m i old s now) (accepted c)"
| "task_step invis now (OpFallback i s) (m, c) =
     accepted c (bind_native_terminal_fallback_session m i s now)"
| "task_step invis now (OpBindValidation i s) (m, c) = accepted c (bind_validation_session m i s now)"
| "task_step invis now (OpUpdate i st d) (m, c) = accepted c (update_status invis m i st d now)"
| "task_step invis now (OpExit s code) (m, c) = noticed c (handle_terminal_session_exit m s code now)"
| "task_step invis now (OpClosed s) (m, c) = noticed c (handle_terminal_session_closed m s now)"
| "task_step invis now (OpArchive i) (m, c) = accepted c (archive m i now)"
| "task_step invis now (OpRestore i) (m, c) = accepted c (restore m i now)"
| "task_step invis now (OpInvalidate i d) (m, c) =
     accepted c (invalidate_validation_evidence m i d now)"
| "task_step invis now (OpComplete i) (m, c) = accepted c (complete_after_validation m i now)"
| "task_step invis now (OpCompleteReview i) (m, c) =
     accepted c (complete_after_manual_review invis m i now)"
| "task_step invis now (OpStart i s) (m, c) = counted (start_stream m c i s now)"
| "task_step invis now (OpResume i s) (m, c) = counted (resume_stream m c i s now)"
| "task_step invis now (OpFinish ex out d) (m, c) = accepted c (finish_stream invis m ex out d now)"
| "task_step invis now (OpRollback ex d) (m, c) = accepted c (rollback_stream invis m ex d now)"
| "task_step invis now (OpEvent ev) (m, c) = accepted c (apply_event m ev now)"
| "task_step invis now (OpHost t live) (m, c) =
     Option.bind (project_hosted_task m t live) (accepted c)"

text \<open>A new task has a fresh uuid, and a host projects tasks with the sessions they have here.\<close>

definition admissible_op :: "task_op \<Rightarrow> task_manager \<Rightarrow> bool" where
  "admissible_op op m \<longleftrightarrow>
     (case op of OpCreate i _ \<Rightarrow> get_task m i = None | OpCreateBrief i _ _ \<Rightarrow> get_task m i = None
      | OpHost t _ \<Rightarrow> hostable m t | _ \<Rightarrow> True)"

text \<open>The task a host replaces by an operation.\<close>

definition hosted_id :: "task_op \<Rightarrow> task_id option" where
  "hosted_id op = (case op of OpHost t _ \<Rightarrow> Some (at_id t) | _ \<Rightarrow> None)"

text \<open>
  Runs: steps of this manager, between which others may take epochs.  No host replaces a task of
  \<open>mine\<close>; in \<open>task_run\<close> any task may be replaced.
\<close>

inductive owned_run :: "(u32 \<Rightarrow> bool) \<Rightarrow> task_id set \<Rightarrow> task_state \<Rightarrow> task_state \<Rightarrow> bool" for invis mine where
  stay: "owned_run invis mine s s"
| step: "owned_run invis mine s (m, c) \<Longrightarrow> admissible_op op m \<Longrightarrow> \<forall>i \<in> mine. hosted_id op \<noteq> Some i \<Longrightarrow>
     task_step invis now op (m, c) = Some (ok, m', c') \<Longrightarrow> owned_run invis mine s (m', c')"
| others: "owned_run invis mine s (m, c) \<Longrightarrow> c \<le> d \<Longrightarrow> owned_run invis mine s (m, d)"

abbreviation task_run :: "(u32 \<Rightarrow> bool) \<Rightarrow> task_state \<Rightarrow> task_state \<Rightarrow> bool" where
  "task_run invis \<equiv> owned_run invis {}"

definition start_state :: task_state where "start_state = (manager_new, 1)"

abbreviation reachable :: "(u32 \<Rightarrow> bool) \<Rightarrow> task_manager \<Rightarrow> u64 \<Rightarrow> bool" where
  "reachable invis m c \<equiv> task_run invis start_state (m, c)"

subsection \<open>The invariant of a run\<close>

lemma index_fresh: "index_ok m \<Longrightarrow> get_task m i = None \<Longrightarrow> tm_indices m i = None"
  unfolding index_ok_def get_task_def by (fastforce split: option.splits if_splits)

text \<open>Results of a step, by the kind of its result.\<close>

lemma step_results [simp]:
  "accepted c r = Some (ok, m', d) \<longleftrightarrow> ok = (\<not> isl (fst r)) \<and> m' = snd r \<and> d = c"
  "noticed c n = Some (ok, m', d) \<longleftrightarrow> ok = (fst n \<noteq> None) \<and> m' = snd n \<and> d = c"
  "counted q = Some (ok, m', d) \<longleftrightarrow> ok = (\<not> isl (fst (fst q))) \<and> m' = snd (fst q) \<and> d = snd q"
  by (auto simp: accepted_def noticed_def counted_def)

lemma step_not_None [simp]: "accepted c r \<noteq> None" "noticed c n \<noteq> None" "counted q \<noteq> None"
  by (simp_all add: accepted_def noticed_def counted_def)

lemma counted_kept:
  "manager_ok m c \<Longrightarrow> manager_ok (snd (fst (start_stream m c i s now))) (snd (start_stream m c i s now))"
  "manager_ok m c \<Longrightarrow> manager_ok (snd (fst (resume_stream m c i s now))) (snd (resume_stream m c i s now))"
  using open_kept by (metis prod.collapse)+

text \<open>The operations whose laws rewrite; the others are used as rules.\<close>

lemmas op_kept = create_internal_kept create_with_brief_kept bind_terminal_kept fallback_kept
  bind_validation_kept update_kept exit_kept closed_kept archive_kept restore_kept invalidate_kept
  complete_kept finish_kept rollback_kept apply_kept counted_kept

lemma step_kept:
  assumes ok: "manager_ok m c" and fresh: "admissible_op op m"
    and step: "task_step invis now op (m, c) = Some (res, m', c')"
  shows "manager_ok m' c'"
  using step fresh index_fresh [OF manager_okD(1) [OF ok]]
  by (cases op)
    (auto simp: admissible_op_def create_task_def bind_eq_Some_conv
      intro: op_kept [OF ok] dest: retry_kept [OF ok] project_kept [OF ok])

lemma run_kept: "owned_run invis mine s (m, c) \<Longrightarrow> manager_ok (fst s) (snd s) \<Longrightarrow> manager_ok m c"
  by (induction s "(m, c)" arbitrary: m c rule: owned_run.induct)
    (auto intro: step_kept manager_ok_later)

lemma reachable_ok: "reachable invis m c \<Longrightarrow> manager_ok m c"
  by (drule run_kept) (simp_all add: start_state_def manager_ok_new)

text \<open>No operation panics.\<close>

lemma retry_defined: "bind_terminal_retry_session m i old s now \<noteq> None"
  by (auto simp: bind_terminal_retry_session_def terminal_retry_session_id_def split: option.split sum.split)

lemma step_defined: "index_ok m \<Longrightarrow> task_step invis now op (m, c) \<noteq> None"
  using retry_defined project_defined by (cases op) (auto simp: bind_eq_None_conv)

lemma run_trans: "owned_run invis mine t u \<Longrightarrow> owned_run invis mine s t \<Longrightarrow> owned_run invis mine s u"
  by (induction rule: owned_run.induct) (auto intro: owned_run.intros)

end
