(* ===== verification/Agent_Lifecycle.thy ===== *)
theory Agent_Lifecycle
  imports Agent_Task_Run
begin

text \<open>
  The life of a task as an abstract state machine, and the simulation: whatever the operations of the
  manager do to a task is a step of that machine.
\<close>

subsection \<open>The abstract machine\<close>

text \<open>Status, validation, runtime, the status hidden by archiving, and whether events can arrive.\<close>

datatype life = Life task_status validation_status runtime_kind "task_status option" bool

definition newborn :: life where
  "newborn = Life TsCreated VsNotRun RkUnassigned None False"

text \<open>
  One step of a life.  A review becomes an accepted task only with a validation result in
  \<open>acc\<close>: what the operation at hand accepts.
\<close>

inductive lifecycle :: "validation_status set \<Rightarrow> life \<Rightarrow> life \<Rightarrow> bool" for acc where
  bound: "s \<in> {TsCreated, TsStarting} \<Longrightarrow>
     lifecycle acc (Life s VsNotRun RkUnassigned None False) (Life TsWorking VsNotRun RkTerminal None False)"
| retried: "r \<in> {RkTerminal, RkTerminalFallback} \<Longrightarrow> v \<noteq> VsRunning \<Longrightarrow>
     lifecycle acc (Life TsFailed v r None False) (Life TsWorking VsNotRun r None False)"
| continued: "s \<in> {TsFailed, TsReadyForReview} \<Longrightarrow> v \<noteq> VsRunning \<Longrightarrow>
     lifecycle acc (Life s v RkNative None False) (Life TsWorking VsNotRun RkTerminalFallback None False)"
| validated: "v \<noteq> VsRunning \<Longrightarrow>
     lifecycle acc (Life TsReadyForReview v r None False) (Life TsReadyForReview VsRunning r None False)"
| judged: "v \<in> {VsPassed, VsFailed, VsInconclusive, VsCancelled} \<Longrightarrow>
     lifecycle acc (Life TsReadyForReview VsRunning r None False) (Life TsReadyForReview v r None False)"
| doubted: "lifecycle acc (Life s VsPassed r h l) (Life s VsInconclusive r h l)"
| exited: "r \<in> {RkTerminal, RkTerminalFallback} \<Longrightarrow> \<not> settled s \<Longrightarrow>
     n \<in> {TsReadyForReview, TsFailed, TsCancelled} \<Longrightarrow>
     lifecycle acc (Life s VsNotRun r None False) (Life n VsNotRun r None False)"
| updated: "n \<noteq> TsCompleted \<Longrightarrow> \<not> is_terminal s \<Longrightarrow> v \<noteq> VsRunning \<Longrightarrow>
     \<not> (n = TsCreated \<and> r = RkNative) \<Longrightarrow>
     lifecycle acc (Life s v r None False) (Life n (if settled n then v else VsNotRun) r None False)"
| hidden: "\<not> is_running s \<Longrightarrow> s \<noteq> TsArchived \<Longrightarrow> v \<noteq> VsRunning \<Longrightarrow>
     lifecycle acc (Life s v r None False) (Life TsArchived v r (Some s) False)"
| restored: "s \<noteq> TsArchived \<Longrightarrow>
     lifecycle acc (Life TsArchived v r (Some s) False) (Life s v r None False)"
| accepted: "v \<in> acc \<Longrightarrow>
     lifecycle acc (Life TsReadyForReview v r None False) (Life TsCompleted v r None False)"
| started: "lifecycle acc (Life TsCreated VsNotRun RkUnassigned None False)
     (Life TsStarting VsNotRun RkNative None True)"
| resumed: "v \<noteq> VsRunning \<Longrightarrow> lifecycle acc (Life TsReadyForReview v RkNative None False)
     (Life TsReadyForReview VsNotRun RkNative None True)"
| rolled_back: "lifecycle acc (Life TsStarting VsNotRun RkNative None True)
     (Life TsCreated VsNotRun RkUnassigned None False)"
| turn: "s \<in> {TsStarting, TsReadyForReview} \<Longrightarrow> v \<noteq> VsRunning \<Longrightarrow>
     lifecycle acc (Life s v RkNative None True) (Life TsWorking VsNotRun RkNative None True)"
| paused: "s \<in> {TsWorking, TsWaitingForApproval, TsWaitingForHuman} \<Longrightarrow>
     n \<in> {TsWorking, TsWaitingForApproval, TsWaitingForHuman} \<Longrightarrow>
     lifecycle acc (Life s VsNotRun RkNative None True) (Life n VsNotRun RkNative None True)"
| turned: "lifecycle acc (Life TsWorking VsNotRun RkNative None True)
     (Life TsReadyForReview VsNotRun RkNative None True)"
| ended: "s \<in> {TsStarting, TsWorking, TsWaitingForApproval, TsWaitingForHuman} \<Longrightarrow>
     n \<in> {TsReadyForReview, TsFailed, TsCancelled} \<Longrightarrow>
     lifecycle acc (Life s VsNotRun RkNative None True) (Life n VsNotRun RkNative None False)"
| rested: "v \<noteq> VsRunning \<Longrightarrow> lifecycle acc (Life TsReadyForReview v RkNative None True)
     (Life TsReadyForReview v RkNative None False)"

definition life_of :: "agent_task \<Rightarrow> bool \<Rightarrow> life" where
  "life_of t live = Life (at_status t) (vs_status (at_validation t)) (at_runtime t) (at_archived_from t) live"

definition task_life :: "task_manager \<Rightarrow> task_id \<Rightarrow> life option" where
  "task_life m i = map_option (\<lambda>t. life_of t (tm_streams m i \<noteq> None)) (get_task m i)"

text \<open>What one operation may do to one task.\<close>

definition lived :: "validation_status set \<Rightarrow> life option \<Rightarrow> life option \<Rightarrow> bool" where
  "lived acc x y \<longleftrightarrow> (case x of
     None \<Rightarrow> y = None \<or> y = Some newborn
   | Some a \<Rightarrow> y = Some a \<or> (case y of None \<Rightarrow> False | Some b \<Rightarrow> lifecycle acc a b))"

lemma lived_same [simp]: "lived acc x x"
  by (simp add: lived_def split: option.split)

subsection \<open>Changes of one task\<close>

lemma get_task_put:
  "manager_ok m c \<Longrightarrow> get_task m i = Some t \<Longrightarrow> at_id t' = at_id t \<Longrightarrow>
     get_task (put_task m i t') = (get_task m)(i \<mapsto> t')"
  using get_put(2) get_task_id manager_okD(1) by metis

definition moved :: "validation_status set \<Rightarrow> agent_task \<Rightarrow> bool \<Rightarrow> agent_task \<Rightarrow> bool \<Rightarrow> bool" where
  "moved acc t l t' l' \<longleftrightarrow> life_of t' l' = life_of t l \<or> lifecycle acc (life_of t l) (life_of t' l')"

lemma lived_change:
  assumes "get_task m i = Some t" and "get_task m' = (get_task m)(i \<mapsto> t')"
    and "\<And>k. k \<noteq> i \<Longrightarrow> tm_streams m' k = tm_streams m k"
    and "moved acc t (tm_streams m i \<noteq> None) t' (tm_streams m' i \<noteq> None)"
  shows "lived acc (task_life m j) (task_life m' j)"
  using assms by (cases "j = i") (auto simp: task_life_def lived_def moved_def split: option.split)

lemma lived_put:
  assumes ok: "manager_ok m c" and t: "get_task m i = Some t" and "at_id t' = at_id t"
    and step: "task_ok t \<Longrightarrow> (\<And>a. tm_streams m i = Some a \<Longrightarrow> stream_ok c i t a) \<Longrightarrow>
      moved acc t (tm_streams m i \<noteq> None) t' (tm_streams m i \<noteq> None)"
  shows "lived acc (task_life m j) (task_life (put_task m i t') j)"
proof (rule lived_change [OF t get_task_put [OF ok t assms(3)]])
  have "stream_ok c i t a" if "tm_streams m i = Some a" for a using manager_okD(7) [OF ok that] t by simp
  then show "moved acc t (tm_streams m i \<noteq> None) t' (tm_streams (put_task m i t') i \<noteq> None)"
    using step manager_okD(3) [OF ok t] by simp
qed simp

lemma lived_put_idle:
  assumes ok: "manager_ok m c" and t: "get_task m i = Some t" and "at_id t' = at_id t"
    and idle: "tm_streams m i = None" and step: "task_ok t \<Longrightarrow> moved acc t False t' False"
  shows "lived acc (task_life m j) (task_life (put_task m i t') j)"
  using lived_put [OF assms(1-3)] idle step by simp

lemma lived_frame [simp]:
  "task_life (m\<lparr>tm_by_terminal := bt\<rparr>) = task_life m" "task_life (m\<lparr>tm_by_validation := bv\<rparr>) = task_life m"
  "task_life (m\<lparr>tm_exited := ex\<rparr>) = task_life m" "task_life (drop_validation_session m s) = task_life m"
  "task_life (put_task (drop_validation_session m s) i t) = task_life (put_task m i t)"
  "task_life (drop_own_validation_session m k s) = task_life m"
  by (simp_all add: task_life_def fun_eq_iff put_drop)
    (simp_all add: drop_own_validation_session_def split: option.split)

lemmas moved_defs = moved_def life_of_def

lemma archive_lived: "manager_ok m c \<Longrightarrow> lived acc (task_life m j) (task_life (snd (archive m i now)) j)"
  by (auto simp: archive_def can_archive_def has_active_stream_def split: option.split intro!: lived_put_idle)
    (auto simp: moved_defs task_ok_def intro!: lifecycle.hidden)

lemma restore_lived: "manager_ok m c \<Longrightarrow> lived acc (task_life m j) (task_life (snd (restore m i now)) j)"
  by (auto simp: restore_def filter_option_def split: option.split intro!: lived_put)
    (auto simp: moved_defs stream_ok_def status_sets intro: lifecycle.restored)

lemma invalidate_lived:
  "manager_ok m c \<Longrightarrow> lived acc (task_life m j) (task_life (snd (invalidate_validation_evidence m i d now)) j)"
  by (auto simp: invalidate_validation_evidence_def moved_defs split: option.split
      intro!: lived_put lifecycle.doubted)

text \<open>The validation results with which an operation accepts the work of a task.\<close>

definition acceptable :: "(u32 \<Rightarrow> bool) \<Rightarrow> task_op \<Rightarrow> task_manager \<Rightarrow> task_id \<Rightarrow> validation_status set" where
  "acceptable invis op m i =
     (case op of
        OpComplete k \<Rightarrow> if k = i then {VsPassed} else {}
      | OpCompleteReview k \<Rightarrow>
          if k = i \<and> (case get_task m i of Some t \<Rightarrow> requires_manual_review invis t | None \<Rightarrow> False)
          then {VsNotRun} else {}
      | _ \<Rightarrow> {})"

lemma complete_lived:
  assumes ok: "manager_ok m c"
  shows "lived (acceptable invis (OpComplete i) m j) (task_life m j)
      (task_life (snd (complete_after_validation m i now)) j)"
    "lived (acceptable invis (OpCompleteReview i) m j) (task_life m j)
      (task_life (snd (complete_after_manual_review invis m i now)) j)"
proof -
  have step: "lived acc (task_life m j) (task_life (put_task m i t') j)"
    if t: "get_task m i = Some t" and idle: "\<not> has_active_stream m i" and "at_status t = TsReadyForReview"
      and v: "vs_status (at_validation t) = v" "i = j \<longrightarrow> v \<in> acc"
      and t': "at_id t' = at_id t" "life_of t' False = Life TsCompleted v (at_runtime t) (at_archived_from t) False"
    for i acc t t' v
  proof (cases "i = j")
    case False
    then show ?thesis using get_task_put [OF ok t t'(1)] by (simp add: task_life_def)
  next
    case True
    have "at_archived_from t = None" using manager_okD(3) [OF ok t] that(3) by (auto simp: task_ok_def)
    then have "moved acc t False t' False"
      unfolding moved_def t'(2) using v True that(3) lifecycle.accepted [of v acc] by (simp add: life_of_def)
    then show ?thesis
      using no_stream [OF ok idle] by (intro lived_put_idle [OF ok t t'(1)])
  qed
  show "lived (acceptable invis (OpComplete i) m j) (task_life m j)
      (task_life (snd (complete_after_validation m i now)) j)"
    by (auto simp: complete_after_validation_def acceptable_def life_of_def split: option.split intro!: step)
  show "lived (acceptable invis (OpCompleteReview i) m j) (task_life m j)
      (task_life (snd (complete_after_manual_review invis m i now)) j)"
    by (auto simp: complete_after_manual_review_def acceptable_def life_of_def split: option.split intro!: step)
qed

lemma terminal_task:
  assumes "manager_ok m c" and "tm_by_terminal m s = Some i" and "get_task m i = Some t"
  shows "at_runtime t \<in> {RkTerminal, RkTerminalFallback}" "tm_streams m i = None"
proof -
  have t: "at_terminal_session t = Some s" using manager_okD(4) [OF assms(1)] assms(2,3) by auto
  then show "at_runtime t \<in> {RkTerminal, RkTerminalFallback}"
    using manager_okD(3) [OF assms(1,3)] by (auto simp: task_ok_def)
  show "tm_streams m i = None" using terminal_no_stream [OF assms(1,2)] by (cases "tm_streams m i") auto
qed

text \<open>The two ways a process ends for a task: its validation is judged, its work is over.\<close>

lemma judged_moved:
  assumes "task_ok t" and "vs_status (at_validation t) = VsRunning" and "\<And>a. st = Some a \<Longrightarrow> stream_ok c i t a"
    and "at_status t' = at_status t" "at_runtime t' = at_runtime t" "at_archived_from t' = at_archived_from t"
    and "vs_status (at_validation t') \<in> {VsPassed, VsFailed, VsInconclusive, VsCancelled}"
  shows "moved acc t (st \<noteq> None) t' (st \<noteq> None)"
proof -
  have "st = None" using assms(2,3) by (cases st) (auto simp: stream_ok_def)
  moreover have "at_status t = TsReadyForReview" "at_archived_from t = None"
    using assms(1,2) by (auto simp: task_ok_def)
  ultimately show ?thesis using assms(2,4-7) by (simp add: moved_defs lifecycle.judged)
qed

lemma exited_moved:
  assumes "task_ok t" and "at_runtime t \<in> {RkTerminal, RkTerminalFallback}" and "\<not> settled (at_status t)"
    and "at_status t' \<in> {TsReadyForReview, TsFailed, TsCancelled}" "at_runtime t' = at_runtime t"
      "at_archived_from t' = at_archived_from t" "at_validation t' = at_validation t"
  shows "moved acc t False t' False"
proof -
  have "vs_status (at_validation t) = VsNotRun" "at_archived_from t = None"
    using assms(1,3) by (auto simp: task_ok_def settled_def)
  then show ?thesis using assms by (simp add: moved_defs lifecycle.exited)
qed

lemma closed_lived:
  assumes ok: "manager_ok m c"
  shows "lived acc (task_life m j) (task_life (snd (handle_terminal_session_closed m s now)) j)"
proof (cases "tm_by_validation m s")
  case None
  then show ?thesis
    using terminal_task [OF ok, of s]
    by (auto simp: handle_terminal_session_closed_def split: option.split
        intro!: lived_put_idle [OF ok] exited_moved)
next
  case (Some i)
  then show ?thesis
    by (auto simp: handle_terminal_session_closed_def split: option.split
        intro!: lived_put [OF ok] judged_moved [where c = c])
qed

lemma exit_lived:
  assumes ok: "manager_ok m c"
  shows "lived acc (task_life m j) (task_life (snd (handle_terminal_session_exit m s code now)) j)"
proof (cases "tm_by_validation m s")
  case None
  then show ?thesis
    using terminal_task [OF ok, of s] verdicts(2) [of code]
    by (auto simp: handle_terminal_session_exit_def Let_def put_task_commute split: option.split
        intro!: lived_put_idle [OF ok] exited_moved)
next
  case (Some i)
  then show ?thesis
    using verdicts(1) [of code]
    by (auto simp: handle_terminal_session_exit_def split: option.split
        intro!: lived_put [OF ok] judged_moved [where c = c])
qed

lemma task_okD:
  assumes "task_ok t"
  shows "at_status t \<noteq> TsArchived \<Longrightarrow> at_archived_from t = None"
    "\<not> settled (at_status t) \<Longrightarrow> vs_status (at_validation t) = VsNotRun"
    "at_terminal_session t = None \<Longrightarrow> at_runtime t \<noteq> RkNative \<Longrightarrow> at_runtime t = RkUnassigned"
  using assms by (cases "at_runtime t"; auto simp: task_ok_def)+

lemma stale_NotRun: "vs_status (stale_validation v r) = VsNotRun"
  by simp

lemma updated_moved:
  assumes ok: "task_ok t" and "n \<noteq> TsCompleted" and fin: "is_terminal (at_status t) \<Longrightarrow> at_status t = n"
    and run: "vs_status (at_validation t) = VsRunning \<Longrightarrow> n = at_status t"
    and "\<not> (n = TsCreated \<and> at_runtime t = RkNative)"
    and t': "at_status t' = n" "at_runtime t' = at_runtime t" "at_archived_from t' = at_archived_from t"
      "vs_status (at_validation t') = (if settled n then vs_status (at_validation t) else VsNotRun)"
  shows "moved acc t False t' False"
proof (cases "at_status t = n")
  case True
  then have "life_of t' False = life_of t False"
    using task_okD(2) [OF ok] t' by (simp add: life_of_def)
  then show ?thesis by (simp add: moved_def)
next
  case False
  have live: "\<not> is_terminal (at_status t)" "vs_status (at_validation t) \<noteq> VsRunning"
    using fin run False by blast+
  then have "at_archived_from t = None" using task_okD(1) [OF ok] by (auto simp: is_terminal_def)
  then show ?thesis
    unfolding moved_defs t' using lifecycle.updated [OF assms(2) live assms(5)] by simp
qed

lemma update_lived:
  assumes ok: "manager_ok m c"
  shows "lived acc (task_life m j) (task_life (snd (update_status invis m i st d now)) j)"
proof (cases "isl (fst (update_status invis m i st d now))")
  case True
  then have "snd (update_status invis m i st d now) = m"
    by (auto simp: update_status_def Let_def split: option.splits if_splits)
  then show ?thesis by simp
next
  case False
  then obtain t where t: "get_task m i = Some t" "tm_streams m i = None" "st \<noteq> TsCompleted"
      "is_terminal (at_status t) \<longrightarrow> at_status t = st"
      "vs_status (at_validation t) = VsRunning \<longrightarrow> st = at_status t"
      "\<not> (st = TsCreated \<and> at_runtime t = RkNative)"
    by (auto simp: update_status_def has_active_stream_def Let_def split: option.splits if_splits)
  have ended: "task_life (end_stream x i) = task_life x" if "tm_streams x i = None" for x
    using that by (auto simp: task_life_def fun_eq_iff end_stream_def)
  obtain t' where t': "at_id t' = at_id t" "at_status t' = st" "at_runtime t' = at_runtime t"
      "at_archived_from t' = at_archived_from t"
      "vs_status (at_validation t') = (if (st = TsCreated \<or> is_running st) \<and> vs_status (at_validation t) \<noteq> VsNotRun \<and>
        vs_status (at_validation t) \<noteq> VsRunning then VsNotRun else vs_status (at_validation t))"
    and m': "task_life (snd (update_status invis m i st d now)) = task_life (put_task m i t')"
  proof
    let ?inv = "(st = TsCreated \<or> is_running st) \<and> vs_status (at_validation t) \<noteq> VsNotRun \<and>
        vs_status (at_validation t) \<noteq> VsRunning"
    let ?t = "(if ?inv then t\<lparr>at_validation := validation_default\<lparr>vs_attempt := vs_attempt (at_validation t),
        vs_detail := Some (lit ''Task work resumed; the previous validation result is stale'')\<rparr>\<rparr> else t)
      \<lparr>at_status := st, at_detail := bounded_event_detail invis d, at_updated_ms := now\<rparr>"
    show "at_id ?t = at_id t" "at_status ?t = st" "at_runtime ?t = at_runtime t"
      "at_archived_from ?t = at_archived_from t"
      "vs_status (at_validation ?t) = (if ?inv then VsNotRun else vs_status (at_validation t))" by simp_all
    show "task_life (snd (update_status invis m i st d now)) = task_life (put_task m i ?t)"
      using False t(1,2) by (auto simp: update_status_def Let_def put_drop ended split: if_splits)
  qed
  have st: "st = TsCreated \<or> is_running st \<longleftrightarrow> \<not> settled st" by (cases st) (simp_all add: status_sets)
  have "vs_status (at_validation t') = (if settled st then vs_status (at_validation t) else VsNotRun)"
    if "task_ok t"
    using t(5) task_okD(2) [OF that] unfolding t'(5) st
    by (cases "settled st"; cases "vs_status (at_validation t) = VsRunning") auto
  then show ?thesis
    unfolding m' using t t' by (intro lived_put_idle [OF ok t(1) t'(1) t(2)] updated_moved) auto
qed

lemma bind_terminal_lived:
  assumes ok: "manager_ok m c"
  shows "lived acc (task_life m j) (task_life (snd (bind_terminal_session m i s now)) j)"
proof -
  have step: "moved acc t (tm_streams m i \<noteq> None) t' (tm_streams m i \<noteq> None)"
    if tok: "task_ok t" and so: "\<And>a. tm_streams m i = Some a \<Longrightarrow> stream_ok c i t a"
      and t: "at_runtime t \<noteq> RkNative" "at_status t = TsCreated \<or> at_status t = TsStarting"
        "at_terminal_session t = None"
      and t': "at_status t' = TsWorking" "at_archived_from t' = at_archived_from t"
        "at_validation t' = at_validation t" "at_runtime t' = RkTerminal" for t t'
  proof -
    have idle: "tm_streams m i = None" using so t(1) by (cases "tm_streams m i") (auto simp: stream_ok_def)
    have now: "at_runtime t = RkUnassigned" "vs_status (at_validation t) = VsNotRun" "at_archived_from t = None"
      using task_okD [OF tok] t by (auto simp: settled_def)
    show ?thesis
      unfolding moved_defs t' now idle using t(2) lifecycle.bound [of "at_status t"] by simp
  qed
  have other: "at_runtime t \<noteq> RkTerminalFallback"
    if "get_task m i = Some t" "at_terminal_session t = None" for t
    using manager_okD(3) [OF ok that(1)] that(2) by (simp add: task_ok_def)
  show ?thesis
    by (auto simp: bind_terminal_session_def Let_def other split: option.split
        intro!: lived_put [OF ok] step)
qed

lemma retry_lived:
  assumes ok: "manager_ok m c" and run: "bind_terminal_retry_session m i old s now = Some r"
  shows "lived acc (task_life m j) (task_life (snd r) j)"
proof (cases "bound_to m s = None \<and> is_valid_jsh_session_id s \<and> terminal_retry_session_id m i = Inr old")
  case False
  then show ?thesis
    using run by (auto simp: bind_terminal_retry_session_def split: if_splits option.splits sum.splits)
next
  case True
  then obtain t where t: "get_task m i = Some t" "tm_streams m i = None" "at_status t = TsFailed"
      "at_runtime t \<in> {RkTerminal, RkTerminalFallback}" "vs_status (at_validation t) \<noteq> VsRunning"
    by (auto simp: terminal_retry_session_id_def has_active_stream_def split: if_splits option.splits)
  have "at_archived_from t = None" using task_okD(1) [OF manager_okD(3) [OF ok t(1)]] t(3) by simp
  then show ?thesis
    using True run t(1) lifecycle.retried [OF t(4,5)]
    by (auto simp: bind_terminal_retry_session_def Let_def moved_defs t(3)
        simp del: insert_iff intro!: lived_put_idle [OF ok t(1) _ t(2)])
qed

lemma fallback_lived:
  assumes ok: "manager_ok m c"
  shows "lived acc (task_life m j) (task_life (snd (bind_native_terminal_fallback_session m i s now)) j)"
proof (cases "bound_to m s = None \<and> is_valid_jsh_session_id s \<and> native_terminal_fallback_eligible m i = Inr ()")
  case False
  then show ?thesis
    by (auto simp: bind_native_terminal_fallback_session_def split: if_splits option.splits sum.splits)
next
  case True
  then obtain t where t: "get_task m i = Some t" "tm_streams m i = None"
      "at_status t \<in> {TsFailed, TsReadyForReview}" "at_runtime t = RkNative" "vs_status (at_validation t) \<noteq> VsRunning"
    by (auto simp: native_terminal_fallback_eligible_def has_active_stream_def split: if_splits option.splits)
  have "at_archived_from t = None" using task_okD(1) [OF manager_okD(3) [OF ok t(1)]] t(3) by auto
  then show ?thesis
    using True t(1) lifecycle.continued [OF t(3,5)]
    by (auto simp: bind_native_terminal_fallback_session_def Let_def moved_defs t(4)
        simp del: insert_iff intro!: lived_put_idle [OF ok t(1) _ t(2)])
qed

lemma validation_lived:
  assumes ok: "manager_ok m c"
  shows "lived acc (task_life m j) (task_life (snd (bind_validation_session m i s now)) j)"
proof (cases "is_valid_jsh_session_id s \<and> available m s \<and> \<not> isl (next_validation_attempt m i)")
  case False
  then show ?thesis
    by (auto simp: bind_validation_session_def available_def split: if_splits option.splits sum.splits)
next
  case True
  then obtain t n where t: "get_task m i = Some t" "tm_streams m i = None" "at_status t = TsReadyForReview"
      "vs_status (at_validation t) \<noteq> VsRunning"
      and n: "next_validation_attempt m i = Inr n"
    by (auto simp: next_validation_attempt_def has_active_stream_def split: if_splits option.splits)
  have "at_archived_from t = None" using task_okD(1) [OF manager_okD(3) [OF ok t(1)]] t(3) by auto
  then show ?thesis
    using True t(1) n lifecycle.validated [OF t(4)]
    by (auto simp: bind_validation_session_def Let_def moved_defs available_def t(3)
        intro!: lived_put_idle [OF ok t(1) _ t(2)])
qed

subsection \<open>Event streams\<close>

lemma open_lived:
  assumes ok: "manager_ok m c"
    and run: "start_stream m c i session now = ((r, m'), d) \<or> resume_stream m c i session now = ((r, m'), d)"
  shows "lived acc (task_life m j) (task_life m' j)"
proof (rule opened_cases [OF assms])
  assume "m' = m"
  then show ?thesis by simp
next
  fix t a
  assume t: "get_task m i = Some t" "tm_streams m i = None"
    and state: "(at_status t = TsCreated \<and> at_runtime t = RkUnassigned) \<or>
        (at_status t = TsReadyForReview \<and> at_runtime t = RkNative)"
    and v: "vs_status (at_validation t) \<noteq> VsRunning"
    and m': "get_task m' = (get_task m)(i \<mapsto> installed t now)" "tm_streams m' = (tm_streams m)(i \<mapsto> a)"
  have tok: "task_ok t" using manager_okD(3) [OF ok t(1)] .
  have "at_archived_from t = None" using task_okD(1) [OF tok] state by auto
  moreover have "vs_status (at_validation t) = VsNotRun" if "at_status t = TsCreated"
    using task_okD(2) [OF tok] that by (simp add: settled_def)
  ultimately have "moved acc t False (installed t now) True"
    using state v lifecycle.started lifecycle.resumed
    by (auto simp: moved_defs installed_def Let_def simp del: stale_simps simp add: stale_NotRun)
  then show ?thesis using t m' by (intro lived_change [OF t(1) m'(1)]) auto
qed

lemma ended_lived:
  assumes ok: "manager_ok m c" and t: "get_task m i = Some t" and a: "tm_streams m i = Some a"
    and t': "at_id t' = at_id t" and step: "task_ok t \<Longrightarrow> stream_ok c i t a \<Longrightarrow> moved acc t True t' False"
  shows "lived acc (task_life m j) (task_life (end_stream (put_task m i t') i) j)"
proof -
  have "moved acc t True t' False"
    using step [OF manager_okD(3) [OF ok t]] manager_okD(7) [OF ok a] t by auto
  then show ?thesis
    using get_task_put [OF ok t t'] a
    by (intro lived_change [OF t]) (simp_all, simp_all add: end_stream_def)
qed

lemma rollback_lived:
  assumes ok: "manager_ok m c"
  shows "lived acc (task_life m j) (task_life (snd (rollback_stream invis m ex d now)) j)"
proof -
  have step: "moved acc t True t' False"
    if "task_ok t" "stream_ok c i t a" "at_status t = TsStarting" "at_runtime t = RkNative"
      "at_status t' = TsCreated" "at_runtime t' = RkUnassigned" "at_validation t' = at_validation t"
      "at_archived_from t' = at_archived_from t" for i t t' a
    using that task_okD [OF that(1)] lifecycle.rolled_back by (simp add: moved_defs settled_def)
  show ?thesis
    by (auto simp: rollback_stream_def split: option.split sum.split dest!: verify_stream_Inr
        intro!: ended_lived [OF ok] step)
qed

text \<open>A stream ends in review, or with the task; from a review, always in review.\<close>

lemma stream_end_moved:
  assumes tok: "task_ok t" and so: "stream_ok c i t a"
    and t': "at_status t' \<in> {TsReadyForReview, TsFailed, TsCancelled}"
      "at_status t = TsReadyForReview \<longrightarrow> at_status t' = TsReadyForReview"
      "at_validation t' = at_validation t" "at_runtime t' = at_runtime t" "at_archived_from t' = at_archived_from t"
  shows "moved acc t True t' False"
proof -
  have st: "at_status t \<in> {TsStarting, TsWorking, TsWaitingForApproval, TsWaitingForHuman} \<or>
      at_status t = TsReadyForReview" "at_runtime t = RkNative" "vs_status (at_validation t) \<noteq> VsRunning"
    using so by (auto simp: stream_ok_def is_running_def)
  have "at_archived_from t = None" using task_okD(1) [OF tok] st(1) by auto
  moreover have "vs_status (at_validation t) = VsNotRun" if "at_status t \<noteq> TsReadyForReview"
    using task_okD(2) [OF tok] that st(1) by (auto simp: settled_def)
  ultimately show ?thesis
    using st t' lifecycle.ended [of "at_status t" "at_status t'"] lifecycle.rested
    by (cases "at_status t = TsReadyForReview") (simp_all add: moved_defs)
qed

lemma finish_lived:
  assumes ok: "manager_ok m c"
  shows "lived acc (task_life m j) (task_life (snd (finish_stream invis m ex outcome d now)) j)"
  by (rule finish_cases [OF ok, of invis ex outcome d now])
    (auto intro!: ended_lived [OF ok] stream_end_moved)

text \<open>An event that does not end the stream.\<close>

lemma event_moved:
  assumes tok: "task_ok t" and so: "stream_ok c i t a" and check: "check_event i t a ev = None"
    and st: "status_after_event (at_status t) (ae_kind ev) = Some (n, u)" and live: "\<not> event_ends_stream (ae_kind ev)"
  shows "moved acc t True (set_status (started_over t (ae_kind ev)) n d now) True"
proof -
  let ?k = "ae_kind ev"
  note moves = event_moves [OF so check_event_None(4) [OF check] st live check_event_None(6) [OF check]]
  have stat: "at_status t \<in> {TsStarting, TsWorking, TsWaitingForApproval, TsWaitingForHuman, TsReadyForReview}"
      "at_runtime t = RkNative" "vs_status (at_validation t) \<noteq> VsRunning"
    using so by (auto simp: stream_ok_def is_running_def)
  have visible: "at_archived_from t = None" using task_okD(1) [OF tok] stat(1) by auto
  have fresh: "vs_status (at_validation t) = VsNotRun" if "at_status t \<noteq> TsReadyForReview"
    using task_okD(2) [OF tok] that stat(1) by (auto simp: settled_def)
  consider (start) "is_turn_started ?k" | (complete) "is_turn_completed ?k"
    | (other) "\<not> is_turn_started ?k" "\<not> is_turn_completed ?k" by blast
  then show ?thesis
  proof cases
    case start
    then have "n = TsWorking" "at_status t \<in> {TsStarting, TsReadyForReview}"
      using moves turn_statuses [OF so] by auto
    then show ?thesis
      using start stat(2,3) visible lifecycle.turn [of "at_status t" "vs_status (at_validation t)"]
      by (simp add: moved_defs started_over_def stale_NotRun del: stale_simps insert_iff)
  next
    case complete
    then have "n = TsReadyForReview" "at_status t = TsWorking" "\<not> is_turn_started ?k"
      using moves by (auto simp: is_turn_completed_def is_turn_started_def split: event_kind.splits)
    then show ?thesis
      using stat(2) visible fresh lifecycle.turned by (simp add: moved_defs started_over_def)
  next
    case other
    then have "n = at_status t \<or> (n \<in> {TsWorking, TsWaitingForApproval, TsWaitingForHuman} \<and>
        at_status t \<in> {TsWorking, TsWaitingForApproval, TsWaitingForHuman})"
      using moves by (auto simp: is_turn_completed_def split: event_kind.splits)
    then show ?thesis
    proof
      assume "n = at_status t"
      then show ?thesis using other by (simp add: moved_defs started_over_def)
    next
      assume n: "n \<in> {TsWorking, TsWaitingForApproval, TsWaitingForHuman} \<and>
        at_status t \<in> {TsWorking, TsWaitingForApproval, TsWaitingForHuman}"
      then have "at_status t \<noteq> TsReadyForReview" by auto
      then show ?thesis
        using n other stat(2) visible fresh lifecycle.paused [of "at_status t" n]
        by (simp add: moved_defs started_over_def)
    qed
  qed
qed

lemma event_change_life [simp]:
  "task_life (event_change m i t k st d now) = task_life (put_task m i (set_status (started_over t k) st d now))"
  "task_life (end_stream (event_change m i t k st d now) j) =
     task_life (end_stream (put_task m i (set_status (started_over t k) st d now)) j)"
  "tm_streams (event_change m i t k st d now) = tm_streams m"
  by (simp_all add: event_change_def end_drop_own [symmetric])
    (simp add: drop_own_validation_session_def split: option.split)

lemma life_live_update:
  "tm_streams m i = Some a \<Longrightarrow> tm_streams x = tm_streams m \<Longrightarrow>
     task_life (x\<lparr>tm_streams := (tm_streams m)(i \<mapsto> b)\<rparr>) = task_life x"
  by (auto simp: task_life_def fun_eq_iff)

lemma apply_lived:
  assumes ok: "manager_ok m c"
  shows "lived acc (task_life m j) (task_life (snd (apply_event m ev now)) j)"
proof (cases rule: apply_event_cases [of m ev now])
  case (refused e)
  then show ?thesis by simp
next
  case (applied i t a n u)
  let ?st = "event_next a (ae_kind ev) n" and ?k = "ae_kind ev"
  have so: "stream_ok c i t a" using manager_okD(7) [OF ok applied(4)] applied(2) by auto
  have tok: "task_ok t" using manager_okD(3) [OF ok applied(2)] .
  show ?thesis
  proof (cases "event_ends_stream ?k")
    case True
    note ends = ends_settled [OF applied(6) True, of a]
    have review: "at_status t = TsReadyForReview \<longrightarrow> ?st = TsReadyForReview"
      using applied(6) True
      by (cases ?k) (auto simp: status_after_event_def event_ends_stream_def event_next_def split: bool.splits)
    have "moved acc t True (set_status (started_over t ?k) ?st (ae_detail ev) now) False"
      using ends review by (intro stream_end_moved [OF tok so]) (simp_all add: started_over_def)
    then have "lived acc (task_life m j)
        (task_life (end_stream (put_task m i (set_status (started_over t ?k) ?st (ae_detail ev) now)) i) j)"
      by (intro ended_lived [OF ok applied(2,4)]) simp_all
    then show ?thesis using True ends by (simp add: applied(8) event_result_def)
  next
    case False
    have st: "?st = n" using live_next [OF False] by blast
    note step = event_step [OF so tok applied(5,6) False]
    have live: "\<not> is_terminal n" using live_not_terminal [OF step(1)] .
    have "lived acc (task_life m j) (task_life (put_task m i (set_status (started_over t ?k) n (ae_detail ev) now)) j)"
      using event_moved [OF tok so applied(5,6) False] applied(4) by (intro lived_put [OF ok applied(2)]) simp_all
    then show ?thesis
      using False live st activity_same [of "at_status t" ?k n] applied(6)
      by (cases u) (simp_all add: applied(8) event_result_def Let_def life_live_update [OF applied(4)]
          drop_own_validation_session_def)
  qed
qed

subsection \<open>Every operation\<close>

lemma create_lived:
  assumes ok: "manager_ok m c" and fresh: "get_task m i = None"
  shows "lived acc (task_life m j) (task_life (snd (create_internal m i now nt b)) j)"
proof -
  let ?m = "m\<lparr>tm_indices := (tm_indices m)(i \<mapsto> length (tm_tasks m)), tm_tasks := tm_tasks m @ [task_of i now nt b]\<rparr>"
  note g = get_append [OF manager_okD(1) [OF ok], where i = i and t = "task_of i now nt b"]
  have born: "life_of (task_of i now nt b) False = newborn"
    by (simp add: life_of_def task_of_def newborn_def)
  have "tm_streams m i = None" using manager_okD(7) [OF ok, of i] fresh by (cases "tm_streams m i") auto
  then have "lived acc (task_life m j) (task_life ?m j)"
    using fresh born by (cases "j = i") (simp_all add: g task_life_def lived_def split: option.split)
  then show ?thesis by (simp add: create_internal_def split: sum.split)
qed

lemma create_brief_lived:
  "manager_ok m c \<Longrightarrow> get_task m i = None \<Longrightarrow>
     lived acc (task_life m j) (task_life (snd (create_with_brief invis m i now nt b)) j)"
  by (auto simp: create_with_brief_def create_lived split: sum.split)

lemma counted_lived:
  "manager_ok m c \<Longrightarrow> lived acc (task_life m j) (task_life (snd (fst (start_stream m c i s now))) j)"
  "manager_ok m c \<Longrightarrow> lived acc (task_life m j) (task_life (snd (fst (resume_stream m c i s now))) j)"
  using open_lived by (metis prod.collapse)+

lemmas op_lived = create_lived create_brief_lived bind_terminal_lived fallback_lived validation_lived
  update_lived exit_lived closed_lived archive_lived restore_lived invalidate_lived
  finish_lived rollback_lived apply_lived counted_lived

text \<open>
  What an operation may do to the life of a task: one step of the machine, and for the projection of
  a host, to take over the life the host says, when no events arrive here.
\<close>

definition life_idle :: "life \<Rightarrow> bool" where
  "life_idle x \<longleftrightarrow> (case x of Life s v r h l \<Rightarrow> \<not> l)"

definition task_moves :: "(u32 \<Rightarrow> bool) \<Rightarrow> task_op \<Rightarrow> task_manager \<Rightarrow> task_id \<Rightarrow> life option \<Rightarrow> life option \<Rightarrow> bool" where
  "task_moves invis op m i x y \<longleftrightarrow>
     (case op of
        OpHost t _ \<Rightarrow> y = x \<or> (at_id t = i \<and> y = Some (life_of t False) \<and> pred_option life_idle x)
      | _ \<Rightarrow> lived (acceptable invis op m i) x y)"

lemma project_moves:
  assumes ok: "manager_ok m c" and "project_hosted_task m t live = Some (r, m')"
  shows "task_moves invis (OpHost t live) m j (task_life m j) (task_life m' j)"
  using project_result [OF assms]
  by (cases "j = at_id t"; cases "get_task m j") (auto simp: task_moves_def task_life_def life_of_def life_idle_def)

lemma step_lived:
  assumes ok: "manager_ok m c" and fresh: "admissible_op op m"
    and step: "task_step invis now op (m, c) = Some (res, m', c')"
  shows "task_moves invis op m j (task_life m j) (task_life m' j)"
proof (cases "\<exists>t live. op = OpHost t live")
  case True
  then show ?thesis using step project_moves [OF ok] by (auto simp: bind_eq_Some_conv)
next
  case False
  then have "lived (acceptable invis op m j) (task_life m j) (task_life m' j)"
    using step fresh
    by (cases op)
      (auto simp: admissible_op_def create_task_def bind_eq_Some_conv
        intro: op_lived [OF ok] complete_lived [OF ok, simplified] dest: retry_lived [OF ok])
  then show ?thesis using False by (auto simp: task_moves_def split: task_op.split)
qed

end
