(* ===== verification/Agent_Task_Properties.thy ===== *)
theory Agent_Task_Properties
  imports Agent_Lifecycle
begin

text \<open>The properties of the task manager, and one run of it on which they are tried.\<close>

subsection \<open>Runs as lists of commands\<close>

fun run_ops :: "(u32 \<Rightarrow> bool) \<Rightarrow> (u64 \<times> task_op) list \<Rightarrow> task_state \<Rightarrow> task_state option" where
  "run_ops invis [] s = Some s"
| "run_ops invis ((now, op) # ops) s =
     (if admissible_op op (fst s)
      then (case task_step invis now op s of Some (True, s') \<Rightarrow> run_ops invis ops s' | _ \<Rightarrow> None)
      else None)"

lemma run_ops_run: "run_ops invis ops s = Some s' \<Longrightarrow> task_run invis s s'"
proof (induction ops arbitrary: s)
  case Nil
  then show ?case by (simp add: owned_run.stay)
next
  case (Cons x ops)
  obtain now op where x: "x = (now, op)" by fastforce
  obtain m c where s: "s = (m, c)" by fastforce
  from Cons.prems obtain m' c' where "task_step invis now op (m, c) = Some (True, m', c')" "admissible_op op m"
      "run_ops invis ops (m', c') = Some s'"
    by (auto simp: x s split: if_splits option.splits prod.splits bool.splits)
  then show ?case
    using Cons.IH [of "(m', c')"] run_trans [of invis "{}" "(m', c')" s'] owned_run.step [OF owned_run.stay]
    unfolding s by blast
qed

lemma run_ops_reachable: "run_ops invis ops start_state = Some (m, c) \<Longrightarrow> reachable invis m c"
  by (rule run_ops_run)

definition plain :: "u32 \<Rightarrow> bool" where "plain c \<longleftrightarrow> False"

definition demo_task :: new_task where
  "demo_task = \<lparr>nt_title = lit ''Fix it'', nt_provider = PrCodex, nt_repo_root = [0x2f, 0x61],
     nt_worktree_path = [0x2f, 0x62], nt_branch = lit ''fix'', nt_base_commit = replicate 40 0x61,
     nt_source_context = None\<rparr>"

definition demo_stream :: event_stream where
  "demo_stream = \<lparr>es_task = 7, es_session = lit ''s'', es_epoch = 1\<rparr>"

definition demo_event :: "u64 \<Rightarrow> event_kind \<Rightarrow> agent_event" where
  "demo_event n k = \<lparr>ae_stream = demo_stream, ae_sequence = n, ae_kind = k, ae_detail = None\<rparr>"

text \<open>A task is created, an agent works one turn on it and stops.\<close>

definition demo_ops :: "(u64 \<times> task_op) list" where
  "demo_ops = [(1, OpCreateBrief 7 demo_task \<lparr>tb_goal = lit ''Make it work'', tb_validation = None\<rparr>),
     (2, OpStart 7 (lit ''s'')), (3, OpEvent (demo_event 1 (SessionStarted None False))),
     (4, OpEvent (demo_event 2 (TurnStarted 9))), (5, OpEvent (demo_event 3 (TurnCompleted 9))),
     (6, OpEvent (demo_event 4 (SessionEnded OutClean)))]"

definition demo :: "nat \<Rightarrow> task_state" where
  "demo n = (case run_ops plain (take n demo_ops) start_state of Some s \<Rightarrow> s | None \<Rightarrow> start_state)"

lemma demo_reachable: "reachable plain (fst (demo n)) (snd (demo n))"
  by (cases "run_ops plain (take n demo_ops) start_state")
    (simp_all add: demo_def owned_run.stay run_ops_run)

lemma demo_runs: "run_ops plain demo_ops start_state \<noteq> None"
  by code_simp

lemma demo_next:
  obtains m c ok m' c' where "demo n = (m, c)" "reachable plain m c"
    "task_step plain now op (m, c) = Some (ok, m', c')"
  using demo_reachable [of n] step_defined [OF manager_okD(1) [OF reachable_ok [OF demo_reachable]], of plain now op n "snd (demo n)"]
  by (metis not_Some_eq prod.collapse)

lemma succeeded: "\<not> isl (fst p) \<Longrightarrow> \<exists>x y. p = (Inr x, y)"
  by (cases p; cases "fst p") auto

subsection \<open>The state is well formed\<close>

text \<open>
  C17: every manager that any sequence of operations can produce is well formed, where a host may
  project tasks that are well formed and bring the terminal and validation sessions registered here
  (\<open>hostable\<close>; no projection updates the indices of sessions): the index finds
  exactly the tasks, every terminal and every validation session belongs to exactly one task and to
  one role, a live event stream belongs to a native task that no host runs, in a state that agrees with its cursor, a
  validation result stands only on settled work, and hidden tasks remember a visible state.
\<close>

theorem manager_well_formed: "reachable invis m c \<Longrightarrow> manager_ok m c"
  by (rule reachable_ok)

theorem manager_well_formed_witness: "manager_ok (fst (demo 5)) (snd (demo 5))"
  by (rule manager_well_formed [OF demo_reachable])

text \<open>
  The condition on projections is needed: a projection that comes without the terminal session
  registered here leaves the index pointing to a task that no longer has it.
\<close>

definition demo_bound :: task_state where
  "demo_bound = (case run_ops plain [(1, OpCreate 7 demo_task),
       (2, OpBindTerminal 7 (lit ''0123456789abcdef0123456789abcdef''))] start_state of
     Some s \<Rightarrow> s | None \<Rightarrow> start_state)"

lemma unchecked_projection:
  "\<exists>t r m'. reachable plain (fst demo_bound) (snd demo_bound) \<and>
     project_hosted_task (fst demo_bound) t False = Some (r, m') \<and> \<not> isl r \<and> \<not> manager_ok m' (snd demo_bound)"
proof -
  let ?m = "fst demo_bound"
  let ?s = "lit ''0123456789abcdef0123456789abcdef''"
  let ?t = "(the (get_task ?m 7))\<lparr>at_terminal_session := None, at_runtime := RkUnassigned\<rparr>"
  have r: "reachable plain ?m (snd demo_bound)"
    by (cases "run_ops plain [(1, OpCreate 7 demo_task), (2, OpBindTerminal 7 ?s)] start_state")
      (simp_all add: demo_bound_def owned_run.stay run_ops_run del: run_ops.simps)
  have p: "\<not> isl (fst (the (project_hosted_task ?m ?t False))) \<and> at_id ?t = 7 \<and>
      tm_by_terminal (snd (the (project_hosted_task ?m ?t False))) ?s = Some 7"
    by code_simp
  obtain q m' where q: "project_hosted_task ?m ?t False = Some (q, m')"
    using project_defined [OF manager_okD(1) [OF reachable_ok [OF r]]] by fastforce
  then have "get_task m' 7 = Some ?t" using p project_result [OF reachable_ok [OF r] q] by simp
  then have "\<not> manager_ok m' (snd demo_bound)"
    using manager_okD(4) [of m' "snd demo_bound" ?s 7] p q by auto
  then show ?thesis using r q p by auto
qed

subsection \<open>Refused operations\<close>

lemma refused_same:
  "isl (fst (create_internal m i now nt b)) \<Longrightarrow> snd (create_internal m i now nt b) = m"
  "isl (fst (create_with_brief invis m i now nt br)) \<Longrightarrow> snd (create_with_brief invis m i now nt br) = m"
  "isl (fst (archive m i now)) \<Longrightarrow> snd (archive m i now) = m"
  "isl (fst (restore m i now)) \<Longrightarrow> snd (restore m i now) = m"
  "isl (fst (invalidate_validation_evidence m i d now)) \<Longrightarrow> snd (invalidate_validation_evidence m i d now) = m"
  "isl (fst (complete_after_validation m i now)) \<Longrightarrow> snd (complete_after_validation m i now) = m"
  "isl (fst (complete_after_manual_review invis m i now)) \<Longrightarrow> snd (complete_after_manual_review invis m i now) = m"
  "isl (fst (finish_stream invis m ex out dt now)) \<Longrightarrow> snd (finish_stream invis m ex out dt now) = m"
  "isl (fst (rollback_stream invis m ex d now)) \<Longrightarrow> snd (rollback_stream invis m ex d now) = m"
  "isl (fst (bind_terminal_session m i s now)) \<Longrightarrow> snd (bind_terminal_session m i s now) = m"
  "isl (fst (bind_native_terminal_fallback_session m i s now)) \<Longrightarrow>
     snd (bind_native_terminal_fallback_session m i s now) = m"
  "isl (fst (bind_validation_session m i s now)) \<Longrightarrow> snd (bind_validation_session m i s now) = m"
  "isl (fst (update_status invis m i st dt now)) \<Longrightarrow> snd (update_status invis m i st dt now) = m"
  by (auto simp: create_internal_def create_with_brief_def split: sum.splits if_splits)
    (auto simp: archive_def restore_def invalidate_validation_evidence_def complete_after_validation_def
      complete_after_manual_review_def finish_stream_def rollback_stream_def bind_terminal_session_def
      bind_native_terminal_fallback_session_def bind_validation_session_def update_status_def Let_def
      split: sum.splits option.splits if_splits)

lemma refused_retry:
  "bind_terminal_retry_session m i old s now = Some (Inl e, m') \<Longrightarrow> m' = m"
  by (auto simp: bind_terminal_retry_session_def Let_def split: sum.splits option.splits if_splits)

lemma refused_event: "isl (fst (apply_event m ev now)) \<Longrightarrow> snd (apply_event m ev now) = m"
  by (cases rule: apply_event_cases [of m ev now]) auto

lemma refused_open:
  assumes "manager_ok m c"
  shows "isl (fst (fst (start_stream m c i s now))) \<Longrightarrow>
      snd (fst (start_stream m c i s now)) = m \<and> snd (start_stream m c i s now) = c"
    "isl (fst (fst (resume_stream m c i s now))) \<Longrightarrow>
      snd (fst (resume_stream m c i s now)) = m \<and> snd (resume_stream m c i s now) = c"
  using opened_cases [OF assms] by (metis prod.collapse sum.disc(2))+

lemma refused_exit:
  assumes ok: "manager_ok m c"
  shows "fst (handle_terminal_session_exit m s code now) = None \<Longrightarrow> snd (handle_terminal_session_exit m s code now) = m"
    "fst (handle_terminal_session_closed m s now) = None \<Longrightarrow> snd (handle_terminal_session_closed m s now) = m"
proof -
  have found: "get_task m i \<noteq> None" if "tm_by_terminal m s = Some i" for i
    using manager_okD(4) [OF ok] that by auto
  show "fst (handle_terminal_session_exit m s code now) = None \<Longrightarrow> snd (handle_terminal_session_exit m s code now) = m"
    "fst (handle_terminal_session_closed m s now) = None \<Longrightarrow> snd (handle_terminal_session_closed m s now) = m"
    using found
    by (auto simp: handle_terminal_session_exit_def handle_terminal_session_closed_def Let_def
        split: option.splits if_splits)
qed

text \<open>C22: an operation that is refused in a reachable state leaves the manager and the counter of epochs as they were.\<close>

theorem refusal_changes_nothing:
  assumes "reachable invis m c" and "task_step invis now op (m, c) = Some (False, m', c')"
  shows "m' = m \<and> c' = c"
proof -
  note ok = reachable_ok [OF assms(1)]
  show ?thesis
    using assms(2)
    by (cases op)
      (auto simp: create_task_def bind_eq_Some_conv refused_same refused_event refused_open [OF ok]
        refused_exit [OF ok] isl_def dest: refused_retry project_refused [OF ok])
qed

text \<open>Witness: an event that was already applied is refused.\<close>

theorem refusal_changes_nothing_witness:
  "fst (the (task_step plain 9 (OpEvent (demo_event 2 (TurnStarted 9))) (demo 5))) = False \<and>
   snd (the (task_step plain 9 (OpEvent (demo_event 2 (TurnStarted 9))) (demo 5))) = demo 5"
proof -
  obtain m c ok m' c' where s: "demo 5 = (m, c)" and r: "reachable plain m c"
    and t: "task_step plain 9 (OpEvent (demo_event 2 (TurnStarted 9))) (m, c) = Some (ok, m', c')" by (rule demo_next)
  have "fst (the (task_step plain 9 (OpEvent (demo_event 2 (TurnStarted 9))) (demo 5))) = False"
    by code_simp
  then have ok: "ok = False" by (simp add: s t del: task_step.simps)
  show ?thesis using refusal_changes_nothing [OF r t [unfolded ok]] by (simp add: s t ok del: task_step.simps)
qed

subsection \<open>The life of a task\<close>

text \<open>
  C18: the operations of the manager refine the state machine \<open>lifecycle\<close>: whatever one operation
  does to any task, seen as status, validation, runtime, hidden status and liveness of its event
  stream, is nothing, its creation, or one transition of that machine.  The projection of a hosted
  task (\<open>hostable\<close>) does nothing, or gives exactly that task, which has no live stream here, the life
  the host says.
\<close>

theorem operations_refine_lifecycle:
  assumes "reachable invis m c" and "admissible_op op m"
    and "task_step invis now op (m, c) = Some (ok, m', c')"
  shows "task_moves invis op m i (task_life m i) (task_life m' i)"
  using step_lived [OF reachable_ok [OF assms(1)] assms(2,3)] .

theorem operations_refine_lifecycle_witness:
  "lived {} (task_life (fst (demo 4)) 7)
     (task_life (fst (snd (the (task_step plain 5 (OpEvent (demo_event 3 (TurnCompleted 9))) (demo 4))))) 7) \<and>
   task_life (fst (demo 4)) 7 = Some (Life TsWorking VsNotRun RkNative None True)"
proof -
  let ?op = "OpEvent (demo_event 3 (TurnCompleted 9))"
  obtain m c ok m' c' where s: "demo 4 = (m, c)" and r: "reachable plain m c"
    and t: "task_step plain 5 ?op (m, c) = Some (ok, m', c')" by (rule demo_next)
  have "task_life (fst (demo 4)) 7 = Some (Life TsWorking VsNotRun RkNative None True)" by code_simp
  moreover have "lived {} (task_life m 7) (task_life m' 7)"
    using operations_refine_lifecycle [OF r _ t, of 7] by (simp add: admissible_op_def task_moves_def acceptable_def)
  ultimately show ?thesis by (simp add: s t del: task_step.simps)
qed

inductive_cases to_completed: "lifecycle acc (Life s v r h l) (Life TsCompleted v' r' h' l')"
inductive_cases from_completed: "lifecycle acc (Life TsCompleted v r h l) b"
inductive_cases from_hidden: "lifecycle acc (Life TsArchived v r (Some s) l) b"

lemma lived_task:
  assumes "lived acc (task_life m i) (task_life m' i)" and "get_task m i = Some t"
  obtains t' where "get_task m' i = Some t'" "moved acc t (tm_streams m i \<noteq> None) t' (tm_streams m' i \<noteq> None)"
  using assms by (cases "get_task m' i") (auto simp: lived_def task_life_def moved_def split: option.splits)

lemma refused_acceptance:
  "has_active_stream m i \<Longrightarrow> snd (complete_after_validation m i now) = m"
  "has_active_stream m i \<Longrightarrow> snd (complete_after_manual_review invis m i now) = m"
  by (simp_all add: complete_after_validation_def complete_after_manual_review_def)

text \<open>
  C19: a task becomes completed only by the decision to accept it: after a validation that passed, or
  after the manual review of a task whose brief has no validation and was not validated; both
  only in review and with no event stream, here or at a host.  Otherwise it was accepted before or
  elsewhere: the task was completed and hidden and comes back, or the host of the task projects it as completed.
\<close>

theorem only_accepted_work_completes:
  assumes run: "reachable invis m c" and fresh: "admissible_op op m"
    and step: "task_step invis now op (m, c) = Some (ok, m', c')"
    and t: "get_task m i = Some t" "at_status t \<noteq> TsCompleted"
    and t': "get_task m' i = Some t'" "at_status t' = TsCompleted"
  shows "(at_status t = TsReadyForReview \<and> \<not> has_active_stream m i \<and>
      ((op = OpComplete i \<and> vs_status (at_validation t) = VsPassed) \<or>
       (op = OpCompleteReview i \<and> vs_status (at_validation t) = VsNotRun \<and> requires_manual_review invis t))) \<or>
    (at_status t = TsArchived \<and> at_archived_from t = Some TsCompleted) \<or>
    (\<exists>u live. op = OpHost u live \<and> at_id u = i \<and> at_status u = TsCompleted)"
proof (cases "\<exists>u live. op = OpHost u live")
  case True
  then obtain u live where op: "op = OpHost u live" by blast
  have "task_life m' i = Some (life_of t' (tm_streams m' i \<noteq> None))" "task_life m i \<noteq> task_life m' i"
    using t t' by (simp_all add: task_life_def life_of_def)
  then have "at_id u = i \<and> life_of t' (tm_streams m' i \<noteq> None) = life_of u False"
    using step_lived [OF reachable_ok [OF run] fresh step, of i] by (simp add: op task_moves_def)
  then show ?thesis using t'(2) op by (simp add: life_of_def)
next
  case False
  have ok: "manager_ok m c" using reachable_ok [OF run] .
  have "lived (acceptable invis op m i) (task_life m i) (task_life m' i)"
    using step_lived [OF ok fresh step, of i] False by (auto simp: task_moves_def split: task_op.splits)
  from lived_task [OF this t(1)]
  have "lifecycle (acceptable invis op m i) (life_of t (tm_streams m i \<noteq> None)) (life_of t' (tm_streams m' i \<noteq> None))"
    using t t' by (auto simp: moved_def life_of_def)
  moreover have "m' \<noteq> m" using t t' by auto
  ultimately show ?thesis
    using t(1,2) step refused_acceptance [where m = m and i = i and now = now]
    unfolding life_of_def t'(2)
    by (elim to_completed) (auto simp: acceptable_def split: task_op.splits if_splits)
qed

text \<open>Witness: the reviewed task of the run is accepted by its user.\<close>

theorem only_accepted_work_completes_witness:
  "\<exists>t t'. get_task (fst (demo 6)) 7 = Some t \<and> at_status t = TsReadyForReview \<and>
     requires_manual_review plain t \<and>
     get_task (fst (snd (the (task_step plain 9 (OpCompleteReview 7) (demo 6))))) 7 = Some t' \<and>
     at_status t' = TsCompleted"
proof -
  obtain m c ok m' c' where s: "demo 6 = (m, c)" and r: "reachable plain m c"
    and t: "task_step plain 9 (OpCompleteReview 7) (m, c) = Some (ok, m', c')" by (rule demo_next)
  have a: "map_option at_status (get_task (fst (demo 6)) 7) = Some TsReadyForReview" by code_simp
  have b: "map_option at_status (get_task (fst (snd (the (task_step plain 9 (OpCompleteReview 7) (demo 6))))) 7) =
      Some TsCompleted" by code_simp
  obtain u u' where u: "get_task m 7 = Some u" "at_status u = TsReadyForReview"
      "get_task m' 7 = Some u'" "at_status u' = TsCompleted"
    using a b by (auto simp: s t simp del: task_step.simps)
  have "requires_manual_review plain u"
    using only_accepted_work_completes [OF r _ t u(1) _ u(3,4)] u(2) by (simp add: admissible_op_def)
  then show ?thesis using u by (simp add: s t del: task_step.simps)
qed

subsection \<open>Decisions are final\<close>

definition accepted_life :: "life \<Rightarrow> bool" where
  "accepted_life x \<longleftrightarrow> (case x of Life s v r h l \<Rightarrow> s = TsCompleted \<or> (s = TsArchived \<and> h = Some TsCompleted))"

lemma accepted_life_step: "lifecycle acc x y \<Longrightarrow> accepted_life x \<Longrightarrow> accepted_life y"
  by (cases rule: lifecycle.cases) (auto simp: accepted_life_def status_sets)

lemma accepted_life_run:
  assumes "owned_run invis {i} s (m, c)" and "manager_ok (fst s) (snd s)"
    and "\<exists>x. task_life (fst s) i = Some x \<and> accepted_life x"
  shows "\<exists>x. task_life m i = Some x \<and> accepted_life x"
  using assms
proof (induction s "(m, c)" arbitrary: m c rule: owned_run.induct)
  case (step s m c op now ok m' c')
  from step.hyps(2) [OF step.prems] obtain x where x: "task_life m i = Some x" "accepted_life x" by blast
  have "task_moves invis op m i (task_life m i) (task_life m' i)"
    using step_lived [OF run_kept [OF step.hyps(1) step.prems(1)] step.hyps(3,5)] .
  then have "task_life m' i = task_life m i \<or> lived (acceptable invis op m i) (task_life m i) (task_life m' i)"
    using step.hyps(4) by (auto simp: task_moves_def hosted_id_def split: task_op.splits)
  then show ?case using x accepted_life_step by (auto simp: lived_def split: option.splits)
qed auto

text \<open>
  C21: accepting a task is final for its manager: whatever operations follow (host projections of other
  tasks, as in \<open>hostable\<close>, included), as long as no host projects that very task, the task stays completed, or it is hidden and remembers
  that it was.
\<close>

theorem acceptance_is_final:
  assumes "reachable invis m c" and "get_task m i = Some t" and "at_status t = TsCompleted"
    and "owned_run invis {i} (m, c) (m', c')"
  shows "\<exists>t'. get_task m' i = Some t' \<and>
    (at_status t' = TsCompleted \<or> (at_status t' = TsArchived \<and> at_archived_from t' = Some TsCompleted))"
proof -
  have "\<exists>x. task_life m i = Some x \<and> accepted_life x"
    using assms(2,3) by (simp add: task_life_def life_of_def accepted_life_def)
  then obtain x where "task_life m' i = Some x" "accepted_life x"
    using accepted_life_run [OF assms(4)] reachable_ok [OF assms(1)] by auto
  then show ?thesis by (auto simp: task_life_def life_of_def accepted_life_def)
qed

text \<open>Witness: the accepted task of the run is hidden.\<close>

definition demo_accepted :: task_state where
  "demo_accepted = (case run_ops plain [(9, OpCompleteReview 7)] (demo 6) of Some s \<Rightarrow> s | None \<Rightarrow> start_state)"

lemma demo_accepted_reachable: "reachable plain (fst demo_accepted) (snd demo_accepted)"
  using run_trans [OF run_ops_run, of plain "[(9, OpCompleteReview 7)]" "demo 6" _ start_state] demo_reachable [of 6]
  by (cases "run_ops plain [(9, OpCompleteReview 7)] (demo 6)") (simp_all add: demo_accepted_def owned_run.stay)

lemma demo_accepted_status: "map_option at_status (get_task (fst demo_accepted) 7) = Some TsCompleted"
  by code_simp

theorem acceptance_is_final_witness:
  "\<exists>t'. get_task (fst (snd (the (task_step plain 10 (OpArchive 7) demo_accepted)))) 7 = Some t' \<and>
     (at_status t' = TsCompleted \<or> (at_status t' = TsArchived \<and> at_archived_from t' = Some TsCompleted))"
proof -
  obtain m c where s: "demo_accepted = (m, c)" by fastforce
  obtain t where t: "get_task m 7 = Some t" "at_status t = TsCompleted"
    using demo_accepted_status by (auto simp: s)
  obtain ok m' c' where step: "task_step plain 10 (OpArchive 7) (m, c) = Some (ok, m', c')"
    by (cases "task_step plain 10 (OpArchive 7) (m, c)") (auto simp: accepted_def)
  have "owned_run plain {7} (m, c) (m', c')"
    using owned_run.step [OF owned_run.stay _ _ step] by (simp add: admissible_op_def hosted_id_def)
  from acceptance_is_final [OF _ t this] show ?thesis
    using demo_accepted_reachable by (simp add: s step del: task_step.simps)
qed

subsection \<open>Events are applied once\<close>



lemma drop_own_streams [simp]: "tm_streams (drop_own_validation_session m i s) = tm_streams m"
  by (simp add: drop_own_validation_session_def split: option.split)

lemma end_streams_le [simp]:
  "tm_streams m = f \<Longrightarrow> tm_streams (end_stream m i) \<subseteq>\<^sub>m f"
  by (auto simp: end_stream_def map_le_def)
















subsection \<open>Reviewed work is not lost\<close>

text \<open>
  Once a turn of a stream has been completed, or the stream resumed a review, no event and no
  failure of its process moves the task to failed or cancelled: it stays reviewable.
\<close>

theorem review_survives_failure:
  assumes "tm_streams m (es_task s) = Some a" and "ss_review_point a"
    and "(ae_stream ev = s \<and> apply_event m ev now = (Inr st, m')) \<or>
      finish_stream invis m s outcome d now = (Inr st, m')"
  shows "st \<notin> {TsFailed, TsCancelled}"
  using assms(3)
proof (elim disjE conjE)
  assume ev: "ae_stream ev = s" and r: "apply_event m ev now = (Inr st, m')"
  show "st \<notin> {TsFailed, TsCancelled}"
  proof (cases rule: apply_event_cases [of m ev now])
    case (refused e)
    then show ?thesis using r by simp
  next
    case (applied i t b n u)
    have "b = a" "st = event_next a (ae_kind ev) n" using assms(1) applied(1,4,8) ev r by auto
    then show ?thesis
      using applied(3,6) assms(2)
      by (cases "ae_kind ev")
        (auto simp: event_next_def unclean_end_def status_after_event_def is_terminal_def
          split: if_splits session_outcome.splits bool.splits)
  qed
next
  assume "finish_stream invis m s outcome d now = (Inr st, m')"
  then show "st \<notin> {TsFailed, TsCancelled}"
    using assms
    by (auto simp: finish_stream_def Let_def status_after_event_def verify_stream_def
        split: sum.splits option.splits if_splits session_outcome.splits)
qed

text \<open>Witness: the provider's process dies after the turn.\<close>

theorem review_survives_failure_witness:
  "\<exists>st m'. finish_stream plain (fst (demo 5)) demo_stream OutFailed None 9 = (Inr st, m') \<and>
     st \<notin> {TsFailed, TsCancelled}"
proof -
  have "\<not> isl (fst (finish_stream plain (fst (demo 5)) demo_stream OutFailed None 9))" by code_simp
  then obtain st m' where f: "finish_stream plain (fst (demo 5)) demo_stream OutFailed None 9 = (Inr st, m')"
    using succeeded by blast
  have "map_option ss_review_point (tm_streams (fst (demo 5)) (es_task demo_stream)) = Some True" by code_simp
  then obtain a where "tm_streams (fst (demo 5)) (es_task demo_stream) = Some a" "ss_review_point a" by auto
  from review_survives_failure [OF this, of "demo_event 4 TextDelta" 9 st m'] f show ?thesis by blast
qed

subsection \<open>Hiding and restoring\<close>

lemma put_put: "put_task (put_task m i t) i u = put_task m i u"
  by (simp add: put_task_def split: option.split)

text \<open>
  Restoring a task that was hidden gives back the manager as it was, but for the time of the
  change.
\<close>

theorem restore_inverts_archive:
  assumes "reachable invis m c" and "get_task m i = Some t" and "at_status t \<noteq> TsArchived"
    and "archive m i now1 = (Inr (), m1)"
  shows "restore m1 i now2 = (Inr (), put_task m i (t\<lparr>at_updated_ms := now2\<rparr>))"
proof -
  note ok = reachable_ok [OF assms(1)]
  let ?h = "t\<lparr>at_archived_from := Some (at_status t), at_status := TsArchived, at_updated_ms := now1\<rparr>"
  have m1: "m1 = put_task m i ?h"
    using assms(2-4) by (auto simp: archive_def split: sum.splits)
  have "get_task m1 i = Some ?h" unfolding m1 using get_task_put [OF ok assms(2), of ?h] by simp
  moreover have "at_archived_from t = None" using task_okD(1) [OF manager_okD(3) [OF ok assms(2)] assms(3)] .
  then have "?h\<lparr>at_status := at_status t, at_archived_from := None, at_updated_ms := now2\<rparr> =
      t\<lparr>at_updated_ms := now2\<rparr>" by simp
  ultimately show ?thesis
    using assms(3) by (simp add: restore_def filter_option_def m1 put_put)
qed

theorem restore_inverts_archive_witness:
  "\<exists>t m1. get_task (fst (demo 6)) 7 = Some t \<and> archive (fst (demo 6)) 7 20 = (Inr (), m1) \<and>
     restore m1 7 30 = (Inr (), put_task (fst (demo 6)) 7 (t\<lparr>at_updated_ms := 30\<rparr>))"
proof -
  have "map_option at_status (get_task (fst (demo 6)) 7) = Some TsReadyForReview" by code_simp
  then obtain t where t: "get_task (fst (demo 6)) 7 = Some t" "at_status t \<noteq> TsArchived" by auto
  have "\<not> isl (fst (archive (fst (demo 6)) 7 20))" by code_simp
  then obtain m1 where a: "archive (fst (demo 6)) 7 20 = (Inr (), m1)"
    using succeeded [of "archive (fst (demo 6)) 7 20"] by auto
  from restore_inverts_archive [OF demo_reachable t a] t a show ?thesis by blast
qed

subsection \<open>Details of events\<close>

lemma detail_loop_ok:
  assumes "\<And>c. c \<in> set b \<Longrightarrow> ok c" and "str_len b \<le> MAX_AGENT_EVENT_DETAIL_BYTES" and "ok 0x3f"
    and "\<And>c. \<not> is_control c \<Longrightarrow> \<not> invis c \<Longrightarrow> ok c"
  shows "(\<forall>c \<in> set (detail_loop invis b s). ok c) \<and> str_len (detail_loop invis b s) \<le> MAX_AGENT_EVENT_DETAIL_BYTES"
  using assms(1,2)
proof (induction s arbitrary: b)
  case (Cons c s)
  let ?v = "if is_control c \<or> invis c then 0x3f else c"
  show ?case
  proof (cases "MAX_AGENT_EVENT_DETAIL_BYTES < str_len b + char_len ?v")
    case True
    then show ?thesis using Cons.prems by (simp add: Let_def)
  next
    case False
    then have "str_len (b @ [?v]) \<le> MAX_AGENT_EVENT_DETAIL_BYTES" by simp
    moreover have "ok d" if "d \<in> set (b @ [?v])" for d using that Cons.prems(1) assms(3,4) by auto
    ultimately show ?thesis using Cons.IH [of "b @ [?v]"] False by (simp add: Let_def)
  qed
qed auto

lemma sum_list_dropWhile: "sum_list (map f (dropWhile P s)) \<le> sum_list (map f s)" for f :: "'a \<Rightarrow> nat"
  by (induction s) auto

lemma str_len_sum: "str_len s = sum_list (map char_len s)"
  by (induction s) simp_all

lemma trim_spaces_len: "str_len (trim_spaces s) \<le> str_len s"
  using sum_list_dropWhile [of char_len "\<lambda>c. c = 0x20" "rev (dropWhile (\<lambda>c. c = 0x20) s)"]
    sum_list_dropWhile [of char_len "\<lambda>c. c = 0x20" s]
  by (simp add: trim_spaces_def str_len_sum rev_map [symmetric])

lemma trim_spaces_set: "set (trim_spaces s) \<subseteq> set s"
  unfolding trim_spaces_def by (metis set_dropWhileD set_rev subsetI)

lemma trim_spaces_ends:
  assumes "trim_spaces s \<noteq> []"
  shows "hd (trim_spaces s) \<noteq> 0x20" "last (trim_spaces s) \<noteq> 0x20"
proof -
  let ?d = "dropWhile (\<lambda>c. c = 0x20) s"
  let ?e = "dropWhile (\<lambda>c. c = 0x20) (rev ?d)"
  have e: "?e \<noteq> []" using assms by (simp add: trim_spaces_def)
  show "last (trim_spaces s) \<noteq> 0x20"
    using hd_dropWhile [OF e] by (simp add: trim_spaces_def last_rev)
  obtain x where "rev ?d = x @ ?e" by (metis takeWhile_dropWhile_id)
  then have "?d = rev ?e @ rev x" by (metis rev_append rev_rev_ident)
  then have "hd ?d = hd (rev ?e)" using e by (metis hd_append2 rev_is_Nil_conv)
  moreover have d: "?d \<noteq> []" using e by (metis dropWhile.simps(1) rev.simps(1))
  ultimately show "hd (trim_spaces s) \<noteq> 0x20"
    unfolding trim_spaces_def using hd_dropWhile [OF d] by argo
qed

text \<open>
  The detail of every event fits in 1024 bytes, is not blank, does not begin or end with a space
  and shows only visible characters, whatever the provider sent.
\<close>

theorem event_detail_bounded:
  assumes "\<not> invis 0x3f" and "ae_detail (event_new invis stream n kind detail) = Some d"
  shows "d \<noteq> [] \<and> str_len d \<le> 1024 \<and> hd d \<noteq> 0x20 \<and> last d \<noteq> 0x20 \<and>
    list_all (\<lambda>c. \<not> is_control c \<and> \<not> invis c) d"
proof -
  obtain s where s: "detail = Some s" and d: "d = trim_spaces (detail_loop invis [] s)" "d \<noteq> []"
    using assms(2) by (auto simp: event_new_def bounded_event_detail_def Let_def split: option.splits if_splits)
  have "(\<forall>c \<in> set (detail_loop invis [] s). \<not> is_control c \<and> \<not> invis c) \<and>
      str_len (detail_loop invis [] s) \<le> MAX_AGENT_EVENT_DETAIL_BYTES"
    using assms(1) by (intro detail_loop_ok) (simp_all add: is_control_def)
  moreover have "str_len d \<le> str_len (detail_loop invis [] s)"
    unfolding d(1) by (rule trim_spaces_len)
  ultimately show ?thesis
    using d trim_spaces_set [of "detail_loop invis [] s"] trim_spaces_ends
    by (auto simp: list_all_iff MAX_AGENT_EVENT_DETAIL_BYTES_def)
qed

theorem event_detail_bounded_witness:
  "ae_detail (event_new plain demo_stream 1 TextDelta (Some (lit '' a b  '' @ [0x1b]))) = Some (lit ''a b  ?'') \<and>
   last (lit ''a b  ?'') \<noteq> 0x20 \<and> str_len (lit ''a b  ?'') \<le> 1024"
proof -
  have "ae_detail (event_new plain demo_stream 1 TextDelta (Some (lit '' a b  '' @ [0x1b]))) = Some (lit ''a b  ?'')"
    by code_simp
  from event_detail_bounded [OF _ this] this show ?thesis by (simp add: plain_def)
qed

end
