(* ===== verification/Dashboard_Properties.thy ===== *)
theory Dashboard_Properties
  imports Dashboard_Facts Agent_Task_Properties
begin

text \<open>The properties of the dashboard.\<close>

text \<open>
  C23: the badge and the manager agree: the five disjoint attention queues of the dashboard add up to
  the number of tasks that the manager says need attention.
\<close>

theorem attention_counts_agree:
  assumes "reachable invis m c"
  shows "counts_total (counts_from_tasks (tm_tasks m)) = attention_count m"
proof -
  have ix: "index_ok m" using manager_okD(1) [OF reachable_ok [OF assms]] .
  have "task_needs_attention m (at_id t) \<longleftrightarrow> at_status t \<noteq> TsArchived \<and> needs_attention t"
    if t: "t \<in> set (tm_tasks m)" for t
  proof -
    obtain n where n: "n < length (tm_tasks m)" "tm_tasks m ! n = t" using t by (auto simp: in_set_conv_nth)
    then have "tm_indices m (at_id t) = Some n" using ix unfolding index_ok_def by blast
    then have "get_task m (at_id t) = Some t" using n by (simp add: get_task_def)
    then show ?thesis by (simp add: task_needs_attention_def)
  qed
  then show ?thesis
    by (simp add: total_from_tasks attention_count_def cong: filter_cong)
qed

theorem attention_counts_agree_witness:
  "counts_total (counts_from_tasks (tm_tasks (fst (demo 6)))) = attention_count (fst (demo 6)) \<and>
   attention_count (fst (demo 6)) = 1"
proof -
  have "attention_count (fst (demo 6)) = 1" by code_simp
  then show ?thesis using attention_counts_agree [OF demo_reachable [of 6]] by simp
qed

text \<open>
  C24: a valid query shows exactly the rows of the tasks in scope that match it and the group and
  view, in the order of the sort key; its counts are those of all matching rows, every row in exactly
  one of the nine groups.
\<close>

theorem projection_exact:
  assumes "query_parse invis lower (df_text f) = Inr q"
    and "scoped = filter (query_matches lower id_text q)
      (map (\<lambda>t. row_from_task invis t (act (at_id t))) (filter (task_in_scope f) tasks))"
  shows "ds_rows (project_tasks invis lower id_text tasks act f) =
      sort_key (row_key lower SortAttention) (filter (row_kept f) scoped) \<and>
    counts_of (ds_counts (project_tasks invis lower id_text tasks act f)) scoped"
  using project_fold_of [OF snapshot_of_default, where keep = "row_kept f" and sel = "task_in_scope f" and
      scope = "query_matches lower id_text q" and row = "\<lambda>t. row_from_task invis t (act (at_id t))" and ts = tasks]
    assms
  by (simp add: project_tasks_def project_unsorted_def sort_rows_def snapshot_of_def)

definition no_activity :: "task_id \<Rightarrow> activity" where
  "no_activity i = \<lparr>ac_agent_terminal = False, ac_validation_terminal = False, ac_agent_stream = False,
     ac_preparing = False\<rparr>"

definition demo_filter :: "str \<Rightarrow> dashboard_filter" where
  "demo_filter s = \<lparr>df_provider = None, df_repo_root = None, df_text = s, df_group = None, df_view = ViewReview\<rparr>"

theorem projection_exact_witness:
  "map dr_id (ds_rows (project_tasks plain ascii_lowercase (\<lambda>i. []) (tm_tasks (fst (demo 6))) no_activity
     (demo_filter (lit ''status:review FIX'')))) = [7]"
proof -
  let ?f = "demo_filter (lit ''status:review FIX'')" and ?ts = "tm_tasks (fst (demo 6))"
  have "\<not> isl (query_parse plain ascii_lowercase (df_text ?f))" by code_simp
  then obtain q where q: "query_parse plain ascii_lowercase (df_text ?f) = Inr q"     by (cases "query_parse plain ascii_lowercase (df_text ?f)") auto
  note e = projection_exact [OF q refl, where id_text = "\<lambda>i. []" and act = no_activity and tasks = ?ts]
  have "map dr_id (sort_key (row_key ascii_lowercase SortAttention) (filter (row_kept ?f)
      (filter (query_matches ascii_lowercase (\<lambda>i. []) (projr (query_parse plain ascii_lowercase (df_text ?f))))
        (map (\<lambda>t. row_from_task plain t (no_activity (at_id t))) (filter (task_in_scope ?f) ?ts))))) = [7]"
    by code_simp
  then show ?thesis using e by (simp add: q)
qed

text \<open>An invalid query never widens the scope: it shows no row and counts none.\<close>

theorem invalid_query_shows_nothing:
  assumes "query_error invis lower s = Some e"
  shows "project_tasks invis lower id_text tasks act (f\<lparr>df_text := s\<rparr>) = snapshot_default \<and>
    filter_rows invis lower id_text rows s view = snapshot_default"
  using assms
  by (auto simp: query_error_def project_tasks_def project_unsorted_def filter_rows_def filter_iter_unsorted_def
      sort_rows_def snapshot_default_def split: sum.splits)

theorem invalid_query_shows_nothing_witness:
  "filter_rows plain ascii_lowercase (\<lambda>i. []) rows (lit ''status:revue'') ViewAll = snapshot_default"
proof -
  have "query_error plain ascii_lowercase (lit ''status:revue'') =
      Some (lit ''Invalid or empty task filter. '' @ field_help QfStatus)" by code_simp
  from invalid_query_shows_nothing [OF this] show ?thesis by blast
qed

text \<open>
  C25: going to the next task that needs attention always lands on one when there is one, and, again
  and again from any selection, hidden or not, reaches every such row of the dashboard.
\<close>

theorem attention_navigation_complete:
  assumes ids: "distinct (map dr_id (ds_rows snap))" and r: "r \<in> set (ds_rows snap)" "dr_attention r"
  shows "(\<exists>r' \<in> set (ds_rows snap). next_attention snap sel = Some (dr_id r') \<and> dr_attention r') \<and>
    (\<exists>k. (next_attention snap ^^ Suc k) sel = Some (dr_id r))"
proof -
  let ?rs = "ds_rows snap" and ?s = "start_index snap sel True"
  obtain t where t: "t < length ?rs" "?rs ! t = r" using r(1) by (auto simp: in_set_conv_nth)
  have n: "?rs \<noteq> []" using t by auto
  have s: "?s < length ?rs"
    using n by (auto simp: start_index_def Let_def split: option.split)
  let ?e = "(t + (length ?rs - ?s)) mod length ?rs"
  have e: "?e < length ?rs" using n by simp
  have "(?s + ?e) mod length ?rs = (?s + (t + (length ?rs - ?s))) mod length ?rs" by (rule mod_add_right_eq)
  also have "?s + (t + (length ?rs - ?s)) = t + length ?rs" using s by simp
  finally have at: "(?s + ?e) mod length ?rs = t" using t(1) by simp
  have first: "next_attention snap sel = map_option dr_id (attention_from ?rs ?s)"
    using next_attention_eq [OF n] .
  obtain d where "attention_from ?rs ?s = Some (?rs ! ((?s + d) mod length ?rs))"
      "dr_attention (?rs ! ((?s + d) mod length ?rs))"
    using attention_from_least [OF e, of ?s] at t(2) r(2) by auto
  then have lands: "\<exists>r' \<in> set ?rs. next_attention snap sel = Some (dr_id r') \<and> dr_attention r'"
    using first n by (intro bexI [of _ "?rs ! ((?s + d) mod length ?rs)"]) simp_all
  obtain k where "(next_attention snap ^^ k) (next_attention snap sel) = Some (dr_id r)"
    using attention_reached [OF ids e, of ?s] r(2) unfolding first at t(2) by blast
  then have "(next_attention snap ^^ Suc k) sel = Some (dr_id r)" by (simp add: funpow_swap1)
  then show ?thesis using lands by blast
qed

definition demo_row :: "task_id \<Rightarrow> task_status \<Rightarrow> dashboard_row" where
  "demo_row i st = row_from_task plain ((task_of i 0 demo_task None)\<lparr>at_status := st\<rparr>) (no_activity i)"

definition demo_snapshot :: dashboard_snapshot where
  "demo_snapshot = \<lparr>ds_rows = [demo_row 1 TsFailed, demo_row 2 TsWorking, demo_row 3 TsReadyForReview],
     ds_counts = dashboard_counts_default\<rparr>"

theorem attention_navigation_complete_witness:
  "next_attention demo_snapshot (Some 1) = Some 3 \<and>
   (\<exists>k. (next_attention demo_snapshot ^^ Suc k) (Some 1) = Some (dr_id (demo_row 1 TsFailed)))"
proof -
  have "distinct (map dr_id (ds_rows demo_snapshot))" "dr_attention (demo_row 1 TsFailed)" by code_simp+
  moreover have "demo_row 1 TsFailed \<in> set (ds_rows demo_snapshot)" by (simp add: demo_snapshot_def)
  moreover have "next_attention demo_snapshot (Some 1) = Some 3" by code_simp
  ultimately show ?thesis using attention_navigation_complete by blast
qed

text \<open>
  C26: every text can be searched for: up to 32 phrases in double quotes, with quotes and backslashes
  escaped and a minus before the excluded ones, are read back as exactly these phrases, and a row
  matches when it shows each phrase that is not excluded and none that is.
\<close>

theorem phrases_searchable:
  assumes "ps \<noteq> []" and "length ps \<le> 32" and "list_all (\<lambda>p. snd p \<noteq> [] \<and> lower (snd p) \<noteq> []) ps"
    and "str_len (phrases_text ps) \<le> 256"
    and "list_all (\<lambda>c. \<not> is_control c \<and> \<not> invis c) (phrases_text ps)"
  shows "\<exists>q. query_parse invis lower (phrases_text ps) = Inr q \<and>
    (\<forall>r. query_matches lower id_text q r \<longleftrightarrow>
      (\<forall>p \<in> set ps. (\<exists>shown \<in> set (row_text_fields (row_text_new lower id_text r)).
         str_contains shown (lower (snd p))) \<noteq> fst p))"
proof -
  have "str_trim (phrases_text ps) = phrases_text ps"
    using phrases_ends [OF assms(1)] by (intro trim_same) auto
  moreover have "list_all (\<lambda>p. snd p \<noteq> []) ps" "list_all (\<lambda>p. lower (snd p) \<noteq> []) ps"
    using assms(3) by (auto simp: list_all_iff)
  moreover have "\<not> list_ex (\<lambda>c. is_control c \<and> \<not> (c = 0x09 \<or> c = 0x0a \<or> c = 0x0d) \<or> invis c) (phrases_text ps)"
    using assms(5) by (auto simp: list_all_iff list_ex_iff)
  ultimately have "query_parse invis lower (phrases_text ps) =
      Inr \<lparr>dq_terms = map (\<lambda>p. \<lparr>qt_field = QfText, qt_values = [lower (snd p)], qt_negated = fst p\<rparr>) ps,
        dq_needs_text = True\<rparr>"
    using assms(1,2,4) tokenize_phrases [of ps "[]" 32] collect_phrases [of lower ps]
    by (cases ps) (simp_all add: query_parse_def tokenize_def MAX_TERMS_def DASHBOARD_QUERY_MAX_BYTES_def)
  then show ?thesis
    using assms(1) by (auto simp: query_matches_def term_matches_def value_matches_def list_all_iff list_ex_iff)
qed

definition demo_phrases :: "(bool \<times> str) list" where
  "demo_phrases = [(False, [0x61, 0x22, 0x5c]), (True, lit ''status:failed'')]"

theorem phrases_searchable_witness:
  "\<not> isl (query_parse plain ascii_lowercase (phrases_text demo_phrases))"
proof -
  have "length demo_phrases \<le> 32" "demo_phrases \<noteq> []"
    "list_all (\<lambda>p. snd p \<noteq> [] \<and> ascii_lowercase (snd p) \<noteq> []) demo_phrases"
    "str_len (phrases_text demo_phrases) \<le> 256"
    "list_all (\<lambda>c. \<not> is_control c \<and> \<not> plain c) (phrases_text demo_phrases)" by code_simp+
  from phrases_searchable [OF this(2,1,3-5), of "\<lambda>i. []"] show ?thesis by auto
qed

end
