(* ===== verification/Output_Compare.thy ===== *)
theory Output_Compare
  imports Review_Input Rust_Parse
begin

text \<open>
  The comparison of two captured command outputs (\<open>src/src/output_compare.rs\<close>): bounding the
  input, aligning the lines by a longest common subsequence over a flat table, and writing the
  report under a limit.  Indexing and slicing panic where the standard library does.
\<close>

definition MAX_INPUT_BYTES :: nat where "MAX_INPUT_BYTES = 256 * 1024"

definition MAX_INPUT_LINES :: nat where "MAX_INPUT_LINES = 4096"

definition MAX_ALIGNMENT_CELLS :: nat where "MAX_ALIGNMENT_CELLS = 1024 * 1024"

definition MAX_RENDER_BYTES :: nat where "MAX_RENDER_BYTES = 512 * 1024"

definition RENDER_LIMIT_NOTICE :: str where
  "RENDER_LIMIT_NOTICE = 0x0a #
     lit ''[Comparison display clipped; counts describe the bounded input, not only the lines shown.]'' @ [0x0a]"

record output_snapshot =
  os_text :: str
  os_truncated :: bool

record output_comparison =
  oc_text :: str
  oc_added :: nat
  oc_removed :: nat
  oc_unchanged :: nat
  oc_before_limited :: bool
  oc_after_limited :: bool
  oc_alignment_limited :: bool
  oc_rendering_limited :: bool

definition is_complete :: "output_comparison \<Rightarrow> bool" where
  "is_complete r \<longleftrightarrow> \<not> oc_before_limited r \<and> \<not> oc_after_limited r \<and> \<not> oc_alignment_limited r \<and>
     \<not> oc_rendering_limited r"

definition summary_text :: "output_comparison \<Rightarrow> str" where
  "summary_text r =
     lit ''+'' @ map ucast (dec (oc_added r)) @ lit '' added / -'' @ map ucast (dec (oc_removed r)) @
     lit '' removed / '' @ map ucast (dec (oc_unchanged r)) @ lit '' unchanged lines'' @
     (if oc_before_limited r \<or> oc_after_limited r then lit ''; partial captured output'' else []) @
     (if oc_alignment_limited r then lit ''; coarse alignment'' else []) @
     (if oc_rendering_limited r then lit ''; display clipped'' else [])"

subsection \<open>Bounding the input\<close>

text \<open>\<open>str::is_char_boundary\<close>, and the loop that moves an offset back to a boundary.\<close>

fun is_char_boundary :: "str \<Rightarrow> nat \<Rightarrow> bool" where
  "is_char_boundary [] n \<longleftrightarrow> n = 0"
| "is_char_boundary (c # s) n \<longleftrightarrow> n = 0 \<or> (char_len c \<le> n \<and> is_char_boundary s (n - char_len c))"

fun floor_boundary :: "str \<Rightarrow> nat \<Rightarrow> nat" where
  "floor_boundary s 0 = 0"
| "floor_boundary s (Suc n) = (if is_char_boundary s (Suc n) then Suc n else floor_boundary s n)"

text \<open>\<open>str::split_inclusive\<close> at line feeds.\<close>

fun split_inclusive :: "str \<Rightarrow> str list" where
  "split_inclusive [] = []"
| "split_inclusive (c # s) =
     (if c = 0x0a then [c] # split_inclusive s
      else (case split_inclusive s of [] \<Rightarrow> [[c]] | l # ls \<Rightarrow> (c # l) # ls))"

definition bounded_lines :: "output_snapshot \<Rightarrow> (str list \<times> bool) option" where
  "bounded_lines snap =
     (let end = floor_boundary (os_text snap) (min (str_len (os_text snap)) MAX_INPUT_BYTES) in
      do {
        head \<leftarrow> str_truncate (os_text snap) end;
        Some (take MAX_INPUT_LINES (split_inclusive head),
          os_truncated snap \<or> end < str_len (os_text snap) \<or>
          drop MAX_INPUT_LINES (split_inclusive head) \<noteq> [])
      })"

subsection \<open>Alignment\<close>

datatype edit_kind = Same | Removed | Added

text \<open>The loops over the common first and last lines; a position is always within both lists.\<close>

function prefix_loop :: "'a list \<Rightarrow> 'a list \<Rightarrow> nat \<Rightarrow> nat" where
  "prefix_loop before after p =
     (if p < min (length before) (length after) \<and> before ! p = after ! p
      then prefix_loop before after (p + 1) else p)"
  by pat_completeness auto
termination by (relation "measure (\<lambda>(before, _, p). length before - p)") auto

function suffix_loop :: "'a list \<Rightarrow> 'a list \<Rightarrow> nat \<Rightarrow> nat \<Rightarrow> nat" where
  "suffix_loop before after room s =
     (if s < room \<and> before ! (length before - 1 - s) = after ! (length after - 1 - s)
      then suffix_loop before after room (s + 1) else s)"
  by pat_completeness auto
termination by (relation "measure (\<lambda>(_, _, room, s). room - s)") auto

declare prefix_loop.simps [simp del] suffix_loop.simps [simp del]

text \<open>One cell of the table, the table, and the walk through it.\<close>

definition fill_cell :: "'a list \<Rightarrow> 'a list \<Rightarrow> nat \<Rightarrow> u16 list \<Rightarrow> nat \<Rightarrow> u16 list option" where
  "fill_cell old new i lengths j =
     (let width = length new + 1 in do {
        x \<leftarrow> index old i;
        y \<leftarrow> index new j;
        v \<leftarrow> (if x = y then do {
                d \<leftarrow> index lengths ((i + 1) * width + j + 1);
                Some (d + 1)
              } else do {
                a \<leftarrow> index lengths ((i + 1) * width + j);
                b \<leftarrow> index lengths (i * width + j + 1);
                Some (max a b)
              });
        store lengths (i * width + j) v
      })"

definition fill_table :: "'a list \<Rightarrow> 'a list \<Rightarrow> u16 list option" where
  "fill_table old new =
     foldM (\<lambda>t i. foldM (fill_cell old new i) t (rev [0..<length new]))
       (replicate ((length old + 1) * (length new + 1)) 0) (rev [0..<length old])"

function walk :: "'a list \<Rightarrow> 'a list \<Rightarrow> u16 list \<Rightarrow> nat \<Rightarrow> nat \<Rightarrow> (edit_kind \<times> 'a) list \<Rightarrow>
    (edit_kind \<times> 'a) list option" where
  "walk old new lengths i j edits =
     (let width = length new + 1 in
      if i < length old \<and> j < length new then
        if old ! i = new ! j then walk old new lengths (i + 1) (j + 1) (edits @ [(Same, old ! i)])
        else (case (index lengths ((i + 1) * width + j), index lengths (i * width + j + 1)) of
            (Some down, Some right) \<Rightarrow>
              if right \<le> down then walk old new lengths (i + 1) j (edits @ [(Removed, old ! i)])
              else walk old new lengths i (j + 1) (edits @ [(Added, new ! j)])
          | _ \<Rightarrow> None)
      else Some (edits @ map (Pair Removed) (drop i old) @ map (Pair Added) (drop j new)))"
  by pat_completeness auto
termination by (relation "measure (\<lambda>(old, new, _, i, j, _). (length old - i) + (length new - j))") auto

declare walk.simps [simp del]

definition align_middle :: "'a list \<Rightarrow> 'a list \<Rightarrow> ((edit_kind \<times> 'a) list \<times> bool) option" where
  "align_middle old new =
     (if old = [] then Some (map (Pair Added) new, False)
      else if new = [] then Some (map (Pair Removed) old, False)
      else if (length old + 1) * (length new + 1) \<le> MAX_ALIGNMENT_CELLS then do {
        lengths \<leftarrow> fill_table old new;
        edits \<leftarrow> walk old new lengths 0 0 [];
        Some (edits, False)
      }
      else Some (map (Pair Removed) old @ map (Pair Added) new, True))"

definition align :: "'a list \<Rightarrow> 'a list \<Rightarrow> ((edit_kind \<times> 'a) list \<times> bool) option" where
  "align before after =
     (let common = min (length before) (length after);
          p = prefix_loop before after 0;
          s = suffix_loop before after (common - p) 0 in do {
        old_end \<leftarrow> usub (length before) s;
        new_end \<leftarrow> usub (length after) s;
        old \<leftarrow> slice before p old_end;
        new \<leftarrow> slice after p new_end;
        (middle, limited) \<leftarrow> align_middle old new;
        Some (map (Pair Same) (take p before) @ middle @ map (Pair Same) (drop old_end before), limited)
      })"

subsection \<open>The report\<close>

record report_writer =
  rw_text :: str
  rw_clipped :: bool

definition writer_new :: report_writer where
  "writer_new = \<lparr>rw_text = [], rw_clipped = False\<rparr>"

definition writer_push :: "str \<Rightarrow> report_writer \<Rightarrow> report_writer option" where
  "writer_push t w =
     (if rw_clipped w then Some w
      else
        let remaining = (MAX_RENDER_BYTES - str_len RENDER_LIMIT_NOTICE) - str_len (rw_text w);
            end = floor_boundary t (min (str_len t) remaining) in do {
          head \<leftarrow> str_truncate t end;
          Some \<lparr>rw_text = rw_text w @ head, rw_clipped = end < str_len t\<rparr>
        })"

text \<open>\<open>char::escape_default\<close>.\<close>

definition lower_hex_digit :: "nat \<Rightarrow> u32" where
  "lower_hex_digit d = (if d < 10 then 0x30 + of_nat d else 0x57 + of_nat d)"

fun hex :: "nat \<Rightarrow> str" where
  "hex n = (if n < 16 then [lower_hex_digit n] else hex (n div 16) @ [lower_hex_digit (n mod 16)])"

declare hex.simps [simp del]

definition escape_default :: "u32 \<Rightarrow> str" where
  "escape_default c =
     (if c = 0x09 then [0x5c, 0x74]
      else if c = 0x0d then [0x5c, 0x72]
      else if c = 0x0a then [0x5c, 0x6e]
      else if c = 0x27 \<or> c = 0x22 \<or> c = 0x5c then [0x5c, c]
      else if 0x20 \<le> c \<and> c \<le> 0x7e then [c]
      else [0x5c, 0x75, 0x7b] @ hex (unat c) @ [0x7d])"

definition kind_marker :: "edit_kind \<Rightarrow> str" where
  "kind_marker k = (case k of Same \<Rightarrow> [0x20] | Removed \<Rightarrow> [0x2d] | Added \<Rightarrow> [0x2b])"

definition needs_escape :: "(u32 \<Rightarrow> bool) \<Rightarrow> u32 \<Rightarrow> bool" where
  "needs_escape invisible c \<longleftrightarrow>
     c = 0x5c \<or> is_control c \<or> is_terminal_visual_spoofing_character invisible c"

text \<open>Once clipped, the writer ignores what follows, so leaving the loop early changes nothing.\<close>

definition writer_char :: "(u32 \<Rightarrow> bool) \<Rightarrow> report_writer \<Rightarrow> u32 \<Rightarrow> report_writer option" where
  "writer_char invisible w c =
     (if rw_clipped w then Some w
      else if needs_escape invisible c then foldM (\<lambda>w e. writer_push [e] w) w (escape_default c)
      else writer_push [c] w)"

definition line_contents :: "str \<Rightarrow> str" where
  "line_contents l = (if ends_with l [0x0a] then butlast l else l)"

definition NO_NEWLINE_NOTICE :: str where
  "NO_NEWLINE_NOTICE = 0x5c # lit '' No newline at end of compared text'' @ [0x0a]"

definition writer_line :: "(u32 \<Rightarrow> bool) \<Rightarrow> report_writer \<Rightarrow> edit_kind \<times> str \<Rightarrow> report_writer option" where
  "writer_line invisible w kl =
     (case kl of (k, l) \<Rightarrow>
        if rw_clipped w then Some w
        else do {
          w \<leftarrow> writer_push (kind_marker k) w;
          w \<leftarrow> foldM (writer_char invisible) w (line_contents l);
          w \<leftarrow> writer_push [0x0a] w;
          if ends_with l [0x0a] then Some w else writer_push NO_NEWLINE_NOTICE w
        })"

definition writer_finish :: "report_writer \<Rightarrow> str \<times> bool" where
  "writer_finish w =
     (if rw_clipped w then rw_text w @ RENDER_LIMIT_NOTICE else rw_text w, rw_clipped w)"

definition TITLE_LINES :: str where
  "TITLE_LINES = lit ''--- Earlier retained output'' @ [0x0a] @ lit ''+++ Later retained output'' @ [0x0a]"

definition EARLIER_PARTIAL :: str where
  "EARLIER_PARTIAL = lit ''[Earlier output is partial: capture or comparison input limit reached.]'' @ [0x0a]"

definition LATER_PARTIAL :: str where
  "LATER_PARTIAL = lit ''[Later output is partial: capture or comparison input limit reached.]'' @ [0x0a]"

definition COARSE_NOTICE :: str where
  "COARSE_NOTICE =
     lit ''[Coarse comparison: alignment budget reached; changed-region counts are not a minimal edit distance.]'' @ [0x0a]"

definition range_line :: "str list \<Rightarrow> str list \<Rightarrow> str" where
  "range_line before after =
     lit ''@@ -'' @ lit (if before = [] then ''0'' else ''1'') @ lit '','' @ map ucast (dec (length before)) @
     lit '' +'' @ lit (if after = [] then ''0'' else ''1'') @ lit '','' @ map ucast (dec (length after)) @
     lit '' @@'' @ [0x0a]"

definition NO_DIFFERENCES :: str where
  "NO_DIFFERENCES =
     lit ''[No differences in the compared text; uncaptured or unexamined output may differ.]'' @ [0x0a]"

definition IDENTICAL :: str where
  "IDENTICAL = lit ''[The two available output snapshots are identical.]'' @ [0x0a]"

definition count_kind :: "edit_kind \<Rightarrow> (edit_kind \<times> 'a) list \<Rightarrow> nat" where
  "count_kind k edits = foldl (\<lambda>n (k', _). if k' = k then n + 1 else n) 0 edits"

definition compare_outputs ::
  "(u32 \<Rightarrow> bool) \<Rightarrow> output_snapshot \<Rightarrow> output_snapshot \<Rightarrow> output_comparison option" where
  "compare_outputs invisible before after = do {
     (old, old_limited) \<leftarrow> bounded_lines before;
     (new, new_limited) \<leftarrow> bounded_lines after;
     (edits, coarse) \<leftarrow> align old new;
     w \<leftarrow> writer_push TITLE_LINES writer_new;
     w \<leftarrow> (if old_limited then writer_push EARLIER_PARTIAL w else Some w);
     w \<leftarrow> (if new_limited then writer_push LATER_PARTIAL w else Some w);
     w \<leftarrow> (if coarse then writer_push COARSE_NOTICE w else Some w);
     w \<leftarrow> writer_push (range_line old new) w;
     w \<leftarrow> foldM (writer_line invisible) w edits;
     w \<leftarrow> (if count_kind Added edits = 0 \<and> count_kind Removed edits = 0
           then writer_push (if old_limited \<or> new_limited then NO_DIFFERENCES else IDENTICAL) w
           else Some w);
     let (text, clipped) = writer_finish w;
     Some \<lparr>oc_text = text, oc_added = count_kind Added edits, oc_removed = count_kind Removed edits,
       oc_unchanged = count_kind Same edits, oc_before_limited = old_limited,
       oc_after_limited = new_limited, oc_alignment_limited = coarse, oc_rendering_limited = clipped\<rparr>
   }"

end
