(* ===== verification/Output_Compare_Facts.thy ===== *)
theory Output_Compare_Facts
  imports Output_Compare Rust_Utf8 "HOL-Library.Sublist"
begin

text \<open>
  The alignment against the longest common subsequence: a recursive \<open>lcs\<close> and its optimality, the
  reference alignment \<open>diff\<close>, and the flat table with the walk through it as an implementation of
  both; then the bounded lines of a snapshot and the alignment of whole texts.
\<close>

subsection \<open>Longest common subsequences\<close>

fun lcs :: "'a list \<Rightarrow> 'a list \<Rightarrow> nat" where
  "lcs [] ys = 0"
| "lcs (x # xs) [] = 0"
| "lcs (x # xs) (y # ys) =
     (if x = y then Suc (lcs xs ys) else max (lcs xs (y # ys)) (lcs (x # xs) ys))"

lemma lcs_Nil [simp]: "lcs xs [] = 0"
  by (cases xs) simp_all

lemma subseq_tl_cases: "subseq zs (x # xs) \<Longrightarrow> subseq zs xs \<or> (\<exists>us. zs = x # us \<and> subseq us xs)"
  by (cases zs) (auto split: if_splits)

lemma lcs_upper: "subseq zs xs \<Longrightarrow> subseq zs ys \<Longrightarrow> length zs \<le> lcs xs ys"
proof (induction xs ys arbitrary: zs rule: lcs.induct)
  case (3 x xs y ys)
  show ?case
  proof (cases "x = y")
    case True
    have "length (tl zs) \<le> lcs xs ys"
    proof (rule "3.IH"(1) [OF True])
      show "subseq (tl zs) xs" using "3.prems"(1) by (cases zs) (auto split: if_splits dest: subseq_Cons')
      show "subseq (tl zs) ys" using "3.prems"(2) by (cases zs) (auto split: if_splits dest: subseq_Cons')
    qed
    then show ?thesis using True by (cases zs) simp_all
  next
    case False
    show ?thesis
    proof (cases "subseq zs xs")
      case True
      then show ?thesis using "3.IH"(2) [OF False True "3.prems"(2)] False by simp
    next
      case no: False
      then obtain us where "zs = x # us" using subseq_tl_cases [OF "3.prems"(1)] by blast
      then have "subseq zs ys" using "3.prems"(2) False by simp
      then show ?thesis using "3.IH"(3) [OF False "3.prems"(1)] False by simp
    qed
  qed
qed simp_all

lemma lcs_reached: "\<exists>zs. subseq zs xs \<and> subseq zs ys \<and> length zs = lcs xs ys"
proof (induction xs ys rule: lcs.induct)
  case (3 x xs y ys)
  show ?case
  proof (cases "x = y")
    case True
    then obtain zs where "subseq zs xs" "subseq zs ys" "length zs = lcs xs ys" using 3(1) by blast
    then show ?thesis using True by (intro exI [of _ "x # zs"]) simp
  next
    case False
    obtain u v where u: "subseq u xs" "subseq u (y # ys)" "length u = lcs xs (y # ys)"
      and v: "subseq v (x # xs)" "subseq v ys" "length v = lcs (x # xs) ys"
      using 3(2,3) [OF False] by blast
    have u': "subseq u (x # xs)" and v': "subseq v (y # ys)"
      using u(1) v(2) by (simp_all add: list_emb_Cons)
    show ?thesis
    proof (cases "lcs (x # xs) ys \<le> lcs xs (y # ys)")
      case True
      then show ?thesis using u u' False by (intro exI [of _ u]) simp
    next
      case lt: False
      then show ?thesis using v v' False by (intro exI [of _ v]) simp
    qed
  qed
qed simp_all

lemma lcs_eqI:
  assumes "\<And>zs. subseq zs xs \<Longrightarrow> subseq zs ys \<Longrightarrow> length zs \<le> n"
    and "subseq ws xs" "subseq ws ys" "length ws = n"
  shows "lcs xs ys = n"
  using assms lcs_upper [of ws xs ys] lcs_reached [of xs ys] by (metis order_antisym)

lemma subseq_revI: "subseq xs ys \<Longrightarrow> subseq (rev xs) (rev ys)"
  by (induction rule: list_emb.induct) (simp_all add: subseq_rev_drop_many)

lemma lcs_rev: "lcs (rev xs) (rev ys) = lcs xs ys"
proof -
  obtain ws where ws: "subseq ws xs" "subseq ws ys" "length ws = lcs xs ys" using lcs_reached by blast
  show ?thesis
  proof (rule lcs_eqI [where ws = "rev ws"])
    fix zs assume "subseq zs (rev xs)" "subseq zs (rev ys)"
    then have "subseq (rev zs) xs" "subseq (rev zs) ys"
      by (metis subseq_revI rev_rev_ident)+
    then show "length zs \<le> lcs xs ys" using lcs_upper by fastforce
  qed (use ws subseq_revI in auto)
qed

lemma lcs_prefix: "lcs (ps @ xs) (ps @ ys) = length ps + lcs xs ys"
  by (induction ps) simp_all

lemma lcs_suffix: "lcs (xs @ ss) (ys @ ss) = lcs xs ys + length ss"
  using lcs_prefix [of "rev ss" "rev xs" "rev ys"] lcs_rev [of "xs @ ss" "ys @ ss"] lcs_rev [of xs ys]
  by simp

lemma lcs_bound: "lcs xs ys \<le> min (length xs) (length ys)"
  using lcs_reached [of xs ys] by (metis list_emb_length min.boundedI)

subsection \<open>The reference alignment\<close>

fun diff :: "'a list \<Rightarrow> 'a list \<Rightarrow> (edit_kind \<times> 'a) list" where
  "diff [] ys = map (Pair Added) ys"
| "diff (x # xs) [] = map (Pair Removed) (x # xs)"
| "diff (x # xs) (y # ys) =
     (if x = y then (Same, x) # diff xs ys
      else if lcs (x # xs) ys \<le> lcs xs (y # ys) then (Removed, x) # diff xs (y # ys)
      else (Added, y) # diff (x # xs) ys)"

definition before_side :: "(edit_kind \<times> 'a) list \<Rightarrow> 'a list" where
  "before_side edits = map snd (filter (\<lambda>(k, _). k \<noteq> Added) edits)"

definition after_side :: "(edit_kind \<times> 'a) list \<Rightarrow> 'a list" where
  "after_side edits = map snd (filter (\<lambda>(k, _). k \<noteq> Removed) edits)"

lemma count_kind_filter: "count_kind k es = length (filter (\<lambda>e. fst e = k) es)"
proof -
  have "foldl (\<lambda>n (k', _). if k' = k then n + 1 else n) m es = m + length (filter (\<lambda>e. fst e = k) es)" for m
    by (induction es arbitrary: m) auto
  then show ?thesis by (simp add: count_kind_def)
qed

lemma count_kind_simps [simp]:
  "count_kind k [] = 0"
  "count_kind k (e # es) = (if fst e = k then 1 else 0) + count_kind k es"
  "count_kind k (es @ fs) = count_kind k es + count_kind k fs"
  by (simp_all add: count_kind_filter)

lemma count_kind_map [simp]: "count_kind k (map (Pair k') xs) = (if k' = k then length xs else 0)"
  by (induction xs) auto

lemma sides_simps [simp]:
  "before_side [] = []" "after_side [] = []"
  "before_side (e # es) = (if fst e = Added then [] else [snd e]) @ before_side es"
  "after_side (e # es) = (if fst e = Removed then [] else [snd e]) @ after_side es"
  "before_side (es @ fs) = before_side es @ before_side fs"
  "after_side (es @ fs) = after_side es @ after_side fs"
  by (auto simp: before_side_def after_side_def split: prod.splits)

lemma sides_map [simp]:
  "before_side (map (Pair k) xs) = (if k = Added then [] else xs)"
  "after_side (map (Pair k) xs) = (if k = Removed then [] else xs)"
  by (induction xs) auto

lemma diff_sides: "before_side (diff xs ys) = xs" "after_side (diff xs ys) = ys"
proof -
  have "before_side (diff xs ys) = xs \<and> after_side (diff xs ys) = ys"
    by (induction xs ys rule: diff.induct) (simp_all del: list.map)
  then show "before_side (diff xs ys) = xs" "after_side (diff xs ys) = ys" by simp_all
qed

lemma diff_same: "count_kind Same (diff xs ys) = lcs xs ys"
  by (induction xs ys rule: diff.induct) (auto simp: max_def simp del: list.map)

lemma count_sides:
  "length (before_side es) = count_kind Same es + count_kind Removed es"
  "length (after_side es) = count_kind Same es + count_kind Added es"
proof -
  have "length (before_side es) = count_kind Same es + count_kind Removed es \<and>
    length (after_side es) = count_kind Same es + count_kind Added es"
  proof (induction es)
    case (Cons e es)
    then show ?case by (cases "fst e") simp_all
  qed simp
  then show "length (before_side es) = count_kind Same es + count_kind Removed es"
    "length (after_side es) = count_kind Same es + count_kind Added es" by simp_all
qed

subsection \<open>The table\<close>

lemma runs_foldM_down:
  assumes "P n s" and "\<And>i s. i < n \<Longrightarrow> P (Suc i) s \<Longrightarrow> runs (f s i) (P i)"
  shows "runs (foldM f s (rev [0..<n])) (P 0)"
  using assms
proof (induction n arbitrary: s)
  case 0
  then show ?case by simp
next
  case (Suc n)
  have "runs (f s n) (P n)" using Suc.prems by simp
  then have "runs (f s n) (\<lambda>s'. runs (foldM f s' (rev [0..<n])) (P 0))"
    by (rule runs_mono) (rule Suc.IH, auto intro: Suc.prems(2))
  then show ?case by simp
qed

text \<open>
  \<open>cells_ok old new t i j\<close>: the cells from row \<open>i\<close>, column \<open>j\<close> on hold the lengths of the
  common subsequences of what is left of both lists, and the last column is zero.
\<close>

definition cells_ok :: "'a list \<Rightarrow> 'a list \<Rightarrow> u16 list \<Rightarrow> nat \<Rightarrow> nat \<Rightarrow> bool" where
  "cells_ok old new t i j \<longleftrightarrow> length t = (length old + 1) * (length new + 1) \<and>
     (\<forall>a b. a \<le> length old \<and> b \<le> length new \<and> (i < a \<or> (a = i \<and> j \<le> b) \<or> b = length new) \<longrightarrow>
       unat (t ! (a * (length new + 1) + b)) = lcs (drop a old) (drop b new))"

lemma cell_inside: "a \<le> n \<Longrightarrow> b \<le> m \<Longrightarrow> a * (m + 1) + b < (n + 1) * (m + 1)" for a b n m :: nat
proof -
  assume "a \<le> n" "b \<le> m"
  then have "a * (m + 1) + b < a * (m + 1) + (m + 1)" by simp
  also have "\<dots> = (a + 1) * (m + 1)" by simp
  also have "\<dots> \<le> (n + 1) * (m + 1)" using \<open>a \<le> n\<close> by (intro mult_le_mono) simp_all
  finally show ?thesis .
qed

lemma cell_distinct:
  fixes a b c d m :: nat
  assumes "b \<le> m" "d \<le> m" "a * (m + 1) + b = c * (m + 1) + d"
  shows "a = c \<and> b = d"
proof -
  have "(a * (m + 1) + b) div (m + 1) = a" "(c * (m + 1) + d) div (m + 1) = c"
    using assms(1,2) by (simp_all add: block_div del: mult_Suc_right)
  then have "a = c" using assms(3) by simp
  then show ?thesis using assms(3) by simp
qed

lemma cells_okD:
  "cells_ok old new t i j \<Longrightarrow> a \<le> length old \<Longrightarrow> b \<le> length new \<Longrightarrow>
     i < a \<or> (a = i \<and> j \<le> b) \<or> b = length new \<Longrightarrow>
     a * (length new + 1) + b < length t \<and>
     unat (t ! (a * (length new + 1) + b)) = lcs (drop a old) (drop b new)"
  using cell_inside [of a "length old" b "length new"] by (auto simp: cells_ok_def)

lemma cells_ok_update:
  assumes t: "cells_ok old new t i (Suc j)" and ij: "i < length old" "j < length new"
    and v: "unat v = lcs (drop i old) (drop j new)"
  shows "cells_ok old new (t[i * (length new + 1) + j := v]) i j"
proof -
  have here: "i * (length new + 1) + j < length t"
    using t ij cell_inside [of i "length old" j "length new"] by (simp add: cells_ok_def)
  have "unat (t[i * (length new + 1) + j := v] ! (a * (length new + 1) + b)) = lcs (drop a old) (drop b new)"
    if "a \<le> length old" "b \<le> length new" "i < a \<or> (a = i \<and> j \<le> b) \<or> b = length new" for a b
  proof (cases "a = i \<and> b = j")
    case True
    then show ?thesis using here v by simp
  next
    case False
    then have "i * (length new + 1) + j \<noteq> a * (length new + 1) + b"
      using cell_distinct [of j "length new" b i a] that(2) ij(2) by auto
    moreover have "i < a \<or> (a = i \<and> Suc j \<le> b) \<or> b = length new" using that(3) False by auto
    ultimately show ?thesis using cells_okD [OF t that(1,2)] by simp
  qed
  then show ?thesis using t by (simp add: cells_ok_def)
qed

lemma fill_cell_ok:
  assumes t: "cells_ok old new t i (Suc j)" and ij: "i < length old" "j < length new"
    and fits: "(length old + 1) * (length new + 1) \<le> MAX_ALIGNMENT_CELLS"
  shows "runs (fill_cell old new i t j) (\<lambda>t'. cells_ok old new t' i j)"
proof -
  let ?w = "length new + 1"
  have d: "drop i old = old ! i # drop (i + 1) old" "drop j new = new ! j # drop (j + 1) new"
    using ij by (simp_all add: Cons_nth_drop_Suc)
  have diag: "(i + 1) * ?w + (j + 1) < length t \<and>
      unat (t ! ((i + 1) * ?w + (j + 1))) = lcs (drop (i + 1) old) (drop (j + 1) new)"
    by (rule cells_okD [OF t]) (use ij in auto)
  have down: "(i + 1) * ?w + j < length t \<and> unat (t ! ((i + 1) * ?w + j)) = lcs (drop (i + 1) old) (drop j new)"
    by (rule cells_okD [OF t]) (use ij in auto)
  have right: "i * ?w + (j + 1) < length t \<and> unat (t ! (i * ?w + (j + 1))) = lcs (drop i old) (drop (j + 1) new)"
    by (rule cells_okD [OF t]) (use ij in auto)
  have here: "i * ?w + j < length t"
    using t ij cell_inside [of i "length old" j "length new"] by (simp add: cells_ok_def)
  have small: "lcs (drop (i + 1) old) (drop (j + 1) new) + 1 < 2 ^ 16"
  proof -
    let ?n = "lcs (drop (i + 1) old) (drop (j + 1) new) + 1"
    have "?n \<le> length old" "?n \<le> length new"
      using lcs_bound [of "drop (i + 1) old" "drop (j + 1) new"] ij unfolding min.bounded_iff length_drop
      by linarith+
    then have "?n * ?n \<le> (length old + 1) * (length new + 1)" by (intro mult_le_mono) simp_all
    then have sq: "?n * ?n \<le> 1048576" using fits by (simp add: MAX_ALIGNMENT_CELLS_def)
    show ?thesis
    proof (rule ccontr)
      assume "\<not> ?thesis"
      then have "65536 * 65536 \<le> ?n * ?n" by (intro mult_le_mono) simp_all
      then show False using sq by simp
    qed
  qed
  have one: "unat (t ! ((i + 1) * ?w + (j + 1)) + 1) = lcs (drop (i + 1) old) (drop (j + 1) new) + 1"
    using diag small by (simp add: unat_word_ariths)
  have big: "unat (max (t ! ((i + 1) * ?w + j)) (t ! (i * ?w + (j + 1)))) =
      max (lcs (drop (i + 1) old) (drop j new)) (lcs (drop i old) (drop (j + 1) new))"
    using down right by (simp add: max_def word_le_nat_alt)
  show ?thesis
  proof (cases "old ! i = new ! j")
    case True
    have "unat (t ! ((i + 1) * ?w + (j + 1)) + 1) = lcs (drop i old) (drop j new)"
      using one True d by simp
    from cells_ok_update [OF t ij this] show ?thesis
      using True ij diag here by (simp add: fill_cell_def add.assoc)
  next
    case False
    have "unat (max (t ! ((i + 1) * ?w + j)) (t ! (i * ?w + (j + 1)))) = lcs (drop i old) (drop j new)"
      using big False d by simp
    from cells_ok_update [OF t ij this] show ?thesis
      using False ij down right here by (simp add: fill_cell_def add.assoc)
  qed
qed

lemma fill_table_ok:
  assumes fits: "(length old + 1) * (length new + 1) \<le> MAX_ALIGNMENT_CELLS"
  shows "runs (fill_table old new) (\<lambda>t. cells_ok old new t 0 0)"
  unfolding fill_table_def
proof (rule runs_foldM_down [where P = "\<lambda>i t. cells_ok old new t i 0"])
  show "cells_ok old new (replicate ((length old + 1) * (length new + 1)) 0) (length old) 0"
  proof -
    have "replicate ((length old + 1) * (length new + 1)) (0 :: u16) ! (a * (length new + 1) + b) = 0"
      if "a \<le> length old" "b \<le> length new" for a b
      by (rule nth_replicate) (rule cell_inside [OF that])
    then show ?thesis by (auto simp: cells_ok_def simp del: mult_Suc mult_Suc_right replicate.simps)
  qed
next
  fix i t assume i: "i < length old" and t: "cells_ok old new t (Suc i) 0"
  show "runs (foldM (fill_cell old new i) t (rev [0..<length new])) (\<lambda>t. cells_ok old new t i 0)"
  proof (rule runs_foldM_down [where P = "\<lambda>j t. cells_ok old new t i j"])
    show "cells_ok old new t i (length new)"
      using t unfolding cells_ok_def by (metis Suc_lessI le0 le_antisym)
  qed (rule fill_cell_ok [OF _ i _ fits])
qed

lemma walk_is_diff:
  assumes t: "cells_ok old new t 0 0" and "i \<le> length old" "j \<le> length new"
  shows "walk old new t i j es = Some (es @ diff (drop i old) (drop j new))"
  using assms(2,3)
proof (induction "(length old - i) + (length new - j)" arbitrary: i j es rule: less_induct)
  case less
  let ?w = "length new + 1"
  show ?case
  proof (cases "i < length old \<and> j < length new")
    case False
    have "drop i old = [] \<or> drop j new = []" using False by auto
    then show ?thesis using False
      by (cases "drop i old") (auto simp: walk.simps [of old new t i j es])
  next
    case True
    have d: "drop i old = old ! i # drop (i + 1) old" "drop j new = new ! j # drop (j + 1) new"
      using True by (simp_all add: Cons_nth_drop_Suc)
    have down: "(i + 1) * ?w + j < length t \<and> unat (t ! ((i + 1) * ?w + j)) = lcs (drop (i + 1) old) (drop j new)"
      by (rule cells_okD [OF t]) (use True in auto)
    have right: "i * ?w + (j + 1) < length t \<and> unat (t ! (i * ?w + (j + 1))) = lcs (drop i old) (drop (j + 1) new)"
      by (rule cells_okD [OF t]) (use True in auto)
    have le: "t ! (i * ?w + (j + 1)) \<le> t ! ((i + 1) * ?w + j) \<longleftrightarrow>
        lcs (drop i old) (drop (j + 1) new) \<le> lcs (drop (i + 1) old) (drop j new)"
      using down right by (simp add: word_le_nat_alt)
    have ih: "walk old new t (i + 1) (j + 1) es' = Some (es' @ diff (drop (i + 1) old) (drop (j + 1) new))"
        "walk old new t (i + 1) j es' = Some (es' @ diff (drop (i + 1) old) (drop j new))"
        "walk old new t i (j + 1) es' = Some (es' @ diff (drop i old) (drop (j + 1) new))" for es'
      by (rule less.hyps; use True in linarith)+
    have step: "walk old new t i j es =
        (if old ! i = new ! j then walk old new t (i + 1) (j + 1) (es @ [(Same, old ! i)])
         else if t ! (i * ?w + (j + 1)) \<le> t ! ((i + 1) * ?w + j)
           then walk old new t (i + 1) j (es @ [(Removed, old ! i)])
           else walk old new t i (j + 1) (es @ [(Added, new ! j)]))"
      using True down right by (simp add: walk.simps [of old new t i j es] index_def add.assoc)
    have ref: "diff (drop i old) (drop j new) =
        (if old ! i = new ! j then (Same, old ! i) # diff (drop (i + 1) old) (drop (j + 1) new)
         else if lcs (drop i old) (drop (j + 1) new) \<le> lcs (drop (i + 1) old) (drop j new)
           then (Removed, old ! i) # diff (drop (i + 1) old) (drop j new)
           else (Added, new ! j) # diff (drop i old) (drop (j + 1) new))"
      by (rule diff.simps(3) [of "old ! i" "drop (i + 1) old" "new ! j" "drop (j + 1) new", folded d])
    show ?thesis
      by (simp only: step ih ref le append.assoc append_Cons append_Nil split: if_split) simp
  qed
qed

lemma align_middle_cases:
  "align_middle old new =
     (if old = [] \<or> new = [] \<or> (length old + 1) * (length new + 1) \<le> MAX_ALIGNMENT_CELLS
      then Some (diff old new, False)
      else Some (map (Pair Removed) old @ map (Pair Added) new, True))"
proof (cases "old \<noteq> [] \<and> new \<noteq> [] \<and> (length old + 1) * (length new + 1) \<le> MAX_ALIGNMENT_CELLS")
  case True
  then obtain t where t: "fill_table old new = Some t" "cells_ok old new t 0 0"
    using fill_table_ok [of old new] by (auto simp: runs_def)
  have "walk old new t 0 0 [] = Some (diff old new)" using walk_is_diff [OF t(2), of 0 0 "[]"] by simp
  then show ?thesis using True t(1) by (simp add: align_middle_def)
next
  case False
  then show ?thesis by (cases old; cases new) (auto simp: align_middle_def)
qed

subsection \<open>Bounding\<close>

lemma boundary_zero: "is_char_boundary s 0"
  by (cases s) simp_all

lemma floor_boundary_ok: "is_char_boundary s (floor_boundary s n)" "floor_boundary s n \<le> n"
  by (induction n) (auto simp: boundary_zero)

lemma boundary_split: "is_char_boundary s n \<Longrightarrow> \<exists>u v. s = u @ v \<and> str_len u = n"
proof (induction s arbitrary: n)
  case Nil
  then show ?case by simp
next
  case (Cons c s)
  show ?case
  proof (cases "n = 0")
    case True
    then show ?thesis by (intro exI [of _ "[]"] exI [of _ "c # s"]) simp
  next
    case False
    then obtain u v where "s = u @ v" "str_len u = n - char_len c" "char_len c \<le> n"
      using Cons.IH [of "n - char_len c"] Cons.prems by auto
    then show ?thesis by (intro exI [of _ "c # u"] exI [of _ v]) simp
  qed
qed

lemma boundary_end: "is_char_boundary s (str_len s)"
  by (induction s) simp_all

lemma floor_boundary_fix: "is_char_boundary s n \<Longrightarrow> floor_boundary s n = n"
  by (cases n) simp_all

lemma truncate_floor:
  obtains u v where "s = u @ v" "str_len u = floor_boundary s n" "str_truncate s (floor_boundary s n) = Some u"
proof -
  obtain u v where u: "s = u @ v" "str_len u = floor_boundary s n"
    using boundary_split [OF floor_boundary_ok(1)] by blast
  have "str_truncate s (floor_boundary s n) = Some u"
    using truncate_append [of u v] by (simp add: u(1) [symmetric] u(2))
  then show ?thesis using that u by blast
qed

text \<open>A line has a line feed at most at its end, and is not empty.\<close>

definition line_ok :: "str \<Rightarrow> bool" where
  "line_ok l \<longleftrightarrow> l \<noteq> [] \<and> 0x0a \<notin> set (butlast l)"

lemma split_inclusive_concat: "concat (split_inclusive s) = s"
  by (induction s) (auto split: list.splits)

lemma split_inclusive_lines: "list_all line_ok (split_inclusive s)"
  by (induction s) (auto simp: line_ok_def split: list.splits)

lemma ends_with_newline: "ends_with l [0x0a] \<longleftrightarrow> l \<noteq> [] \<and> last l = 0x0a" for l :: str
proof (cases l rule: rev_cases)
  case Nil
  then show ?thesis by (simp add: ends_with_def)
next
  case (snoc xs x)
  then show ?thesis by (simp add: ends_with_def)
qed

lemma line_contents_ok:
  "line_ok l \<Longrightarrow> 0x0a \<notin> set (line_contents l) \<and>
     l = line_contents l @ (if ends_with l [0x0a] then [0x0a] else [])"
proof (cases l rule: rev_cases)
  case (snoc xs x)
  then show "line_ok l \<Longrightarrow> 0x0a \<notin> set (line_contents l) \<and>
     l = line_contents l @ (if ends_with l [0x0a] then [0x0a] else [])"
    by (auto simp: line_ok_def line_contents_def ends_with_newline)
qed (simp add: line_ok_def)

lemma bounded_lines_form:
  obtains u v where "os_text snap = u @ v" "str_len u \<le> MAX_INPUT_BYTES"
    "bounded_lines snap = Some (take MAX_INPUT_LINES (split_inclusive u),
       os_truncated snap \<or> v \<noteq> [] \<or> drop MAX_INPUT_LINES (split_inclusive u) \<noteq> [])"
proof -
  let ?t = "os_text snap"
  let ?m = "min (str_len ?t) MAX_INPUT_BYTES"
  obtain u v where u: "?t = u @ v" "str_len u = floor_boundary ?t ?m"
      "str_truncate ?t (floor_boundary ?t ?m) = Some u"
    by (rule truncate_floor)
  have cut: "str_len u < str_len ?t \<longleftrightarrow> v \<noteq> []"
    unfolding u(1) using char_len_pos [of "hd v"] by (cases v) simp_all
  have "bounded_lines snap = Some (take MAX_INPUT_LINES (split_inclusive u),
       os_truncated snap \<or> v \<noteq> [] \<or> drop MAX_INPUT_LINES (split_inclusive u) \<noteq> [])"
    unfolding bounded_lines_def Let_def u(3) cut [symmetric] unfolding u(2) by simp
  moreover have "str_len u \<le> MAX_INPUT_BYTES" using floor_boundary_ok(2) [of ?t ?m] u(2) by simp
  ultimately show ?thesis using that u(1) by blast
qed

lemma bounded_lines_SomeD:
  assumes "bounded_lines snap = Some (ls, lim)"
  shows "list_all line_ok ls" "length ls \<le> MAX_INPUT_LINES" "\<not> lim \<Longrightarrow> ls = split_inclusive (os_text snap)"
    "\<not> lim \<Longrightarrow> concat ls = os_text snap"
proof -
  obtain u v where u: "os_text snap = u @ v" "bounded_lines snap = Some (take MAX_INPUT_LINES (split_inclusive u),
       os_truncated snap \<or> v \<noteq> [] \<or> drop MAX_INPUT_LINES (split_inclusive u) \<noteq> [])"
    by (rule bounded_lines_form)
  have ls: "ls = take MAX_INPUT_LINES (split_inclusive u)"
    and lim: "lim = (os_truncated snap \<or> v \<noteq> [] \<or> drop MAX_INPUT_LINES (split_inclusive u) \<noteq> [])"
    using assms unfolding u(2) by simp_all
  show "list_all line_ok ls" unfolding ls
    using split_inclusive_lines [of u] by (auto simp: list_all_iff dest: in_set_takeD)
  show "length ls \<le> MAX_INPUT_LINES" unfolding ls by simp
  show whole: "ls = split_inclusive (os_text snap)" if "\<not> lim"
    using that unfolding ls lim u(1) by simp
  show "concat ls = os_text snap" if "\<not> lim"
    using whole [OF that] split_inclusive_concat by simp
qed

lemma bounded_lines_some: "\<exists>ls lim. bounded_lines snap = Some (ls, lim)"
  by (rule bounded_lines_form [of snap]) blast

subsection \<open>Alignment of whole texts\<close>

lemma prefix_loop_ok:
  "p \<le> min (length xs) (length ys) \<Longrightarrow> take p xs = take p ys \<Longrightarrow>
     prefix_loop xs ys p \<le> min (length xs) (length ys) \<and>
     take (prefix_loop xs ys p) xs = take (prefix_loop xs ys p) ys"
proof (induction xs ys p rule: prefix_loop.induct)
  case (1 xs ys p)
  show ?case
  proof (cases "p < min (length xs) (length ys) \<and> xs ! p = ys ! p")
    case True
    then have "take (p + 1) xs = take (p + 1) ys" using 1(3) by (simp add: take_Suc_conv_app_nth)
    then show ?thesis using 1(1) [OF True] True by (simp add: prefix_loop.simps [of xs ys p])
  next
    case False
    then show ?thesis using 1(2,3) by (simp only: prefix_loop.simps [of xs ys p] if_False)
  qed
qed

lemma suffix_loop_ok:
  "room \<le> length xs \<Longrightarrow> room \<le> length ys \<Longrightarrow> s \<le> room \<Longrightarrow>
     drop (length xs - s) xs = drop (length ys - s) ys \<Longrightarrow>
     suffix_loop xs ys room s \<le> room \<and>
     drop (length xs - suffix_loop xs ys room s) xs = drop (length ys - suffix_loop xs ys room s) ys"
proof (induction xs ys room s rule: suffix_loop.induct)
  case (1 xs ys room s)
  show ?case
  proof (cases "s < room \<and> xs ! (length xs - 1 - s) = ys ! (length ys - 1 - s)")
    case True
    let ?i = "length xs - 1 - s" and ?j = "length ys - 1 - s"
    have i: "?i < length xs" "Suc ?i = length xs - s" "?j < length ys" "Suc ?j = length ys - s"
      using True 1(2,3) by linarith+
    have "drop ?i xs = drop ?j ys"
      using Cons_nth_drop_Suc [OF i(1)] Cons_nth_drop_Suc [OF i(3)] 1(5) True i(2,4) by simp
    then have "drop (length xs - (s + 1)) xs = drop (length ys - (s + 1)) ys" by simp
    then show ?thesis using 1(1) [OF True 1(2,3)] True by (simp add: suffix_loop.simps [of xs ys room s])
  next
    case False
    then show ?thesis using 1(4,5) by (simp only: suffix_loop.simps [of xs ys room s] if_False)
  qed
qed

lemma align_ok:
  obtains es coarse where "align before after = Some (es, coarse)" "before_side es = before"
    "after_side es = after" "\<not> coarse \<Longrightarrow> count_kind Same es = lcs before after"
proof -
  let ?c = "min (length before) (length after)"
  define p where "p = prefix_loop before after 0"
  define s where "s = suffix_loop before after (?c - p) 0"
  define old where "old = take (length before - s - p) (drop p before)"
  define new where "new = take (length after - s - p) (drop p after)"
  have p: "p \<le> ?c" "take p before = take p after" using prefix_loop_ok [of 0 before after] by (simp_all add: p_def)
  have s: "s \<le> ?c - p" "drop (length before - s) before = drop (length after - s) after"
    using suffix_loop_ok [of "?c - p" before after 0] p(1) by (simp_all add: s_def)
  have mid: "xs = take p xs @ take (length xs - s - p) (drop p xs) @ drop (length xs - s) xs"
    if "p + s \<le> length xs" for xs :: "'a list"
  proof -
    have "drop p xs = take (length xs - s - p) (drop p xs) @ drop (length xs - s - p) (drop p xs)"
      by (rule append_take_drop_id [symmetric])
    moreover have "drop (length xs - s - p) (drop p xs) = drop (length xs - s) xs" using that by simp
    ultimately show ?thesis by (metis append_take_drop_id)
  qed
  have ps: "p + s \<le> length before" "p + s \<le> length after" using p(1) s(1) by linarith+
  have b: "before = take p before @ old @ drop (length before - s) before"
    unfolding old_def by (rule mid [OF ps(1)])
  have a: "after = take p before @ new @ drop (length before - s) before"
    unfolding new_def p(2) s(2) by (rule mid [OF ps(2)])
  have "\<exists>middle coarse. align_middle old new = Some (middle, coarse) \<and> before_side middle = old \<and>
      after_side middle = new \<and> (\<not> coarse \<longrightarrow> count_kind Same middle = lcs old new)"
    by (simp add: align_middle_cases diff_sides diff_same) blast
  then obtain middle coarse where m: "align_middle old new = Some (middle, coarse)"
      "before_side middle = old" "after_side middle = new" "\<not> coarse \<Longrightarrow> count_kind Same middle = lcs old new"
    by blast
  let ?es = "map (Pair Same) (take p before) @ middle @ map (Pair Same) (drop (length before - s) before)"
  have slices: "slice before p (length before - s) = Some old" "slice after p (length after - s) = Some new"
      "usub (length before) s = Some (length before - s)" "usub (length after) s = Some (length after - s)"
    using ps by (simp_all add: slice_def usub_def old_def new_def)
  have "align before after = Some (?es, coarse)"
    unfolding align_def Let_def p_def [symmetric] s_def [symmetric] by (simp add: slices m(1))
  moreover have "before_side ?es = before" using b m(2) by simp
  moreover have "after_side ?es = after" using a m(3) by simp
  moreover have "count_kind Same ?es = lcs before after" if "\<not> coarse"
    using lcs_prefix [of "take p before" "old @ drop (length before - s) before" "new @ drop (length before - s) before"]
      lcs_suffix [of old "drop (length before - s) before" new] m(4) [OF that]
    by (simp add: a [symmetric] b [symmetric])
  ultimately show ?thesis using that by blast
qed

lemma bounded_lines_small:
  "str_len s \<le> MAX_INPUT_BYTES \<Longrightarrow> length (split_inclusive s) \<le> MAX_INPUT_LINES \<Longrightarrow>
     bounded_lines \<lparr>os_text = s, os_truncated = b\<rparr> = Some (split_inclusive s, b)"
  using truncate_append [of s "[]"] floor_boundary_fix [OF boundary_end [of s]]
  by (simp add: bounded_lines_def min_absorb1)

lemma align_SomeD:
  assumes "align before after = Some (es, coarse)"
  shows "before_side es = before" "after_side es = after" "\<not> coarse \<Longrightarrow> count_kind Same es = lcs before after"
proof -
  obtain es' coarse' where o: "align before after = Some (es', coarse')" "before_side es' = before"
      "after_side es' = after" "\<not> coarse' \<Longrightarrow> count_kind Same es' = lcs before after"
    by (rule align_ok [of before after]) blast
  moreover have "es' = es" "coarse' = coarse" using o(1) assms by simp_all
  ultimately show "before_side es = before" "after_side es = after"
    "\<not> coarse \<Longrightarrow> count_kind Same es = lcs before after" by simp_all
qed

end
