(* ===== verification/Output_Compare_Properties.thy ===== *)
theory Output_Compare_Properties
  imports Output_Compare_Facts
begin

text \<open>
  The properties of a comparison of two outputs: it returns and is bounded, its counts are those of a
  minimal line difference, and its text tells exactly what was compared.
\<close>

subsection \<open>The writer\<close>

text \<open>
  \<open>wrote t w w'\<close>: from \<open>w\<close> the writer came to \<open>w'\<close> by writing \<open>t\<close>, whole unless it is clipped.
\<close>

definition writer_ok :: "report_writer \<Rightarrow> bool" where
  "writer_ok w \<longleftrightarrow> str_len (rw_text w) + str_len RENDER_LIMIT_NOTICE \<le> MAX_RENDER_BYTES"

definition wrote :: "str \<Rightarrow> report_writer \<Rightarrow> report_writer \<Rightarrow> bool" where
  "wrote t w w' \<longleftrightarrow> writer_ok w' \<and> set (rw_text w') \<subseteq> set (rw_text w) \<union> set t \<and>
     (\<not> rw_clipped w' \<longrightarrow> \<not> rw_clipped w \<and> rw_text w' = rw_text w @ t) \<and>
     (rw_clipped w' \<longrightarrow> rw_clipped w \<or>
       MAX_RENDER_BYTES < str_len (rw_text w) + str_len t + str_len RENDER_LIMIT_NOTICE)"

lemma notice_length: "str_len RENDER_LIMIT_NOTICE = 92"
  by code_simp

lemma wrote_nothing: "writer_ok w \<Longrightarrow> wrote [] w w"
  by (simp add: wrote_def)

lemma wrote_trans: "wrote t w w' \<Longrightarrow> wrote u w' w'' \<Longrightarrow> wrote (t @ u) w w''"
  unfolding wrote_def by (cases "rw_clipped w'") auto

lemma wrote_ok: "wrote t w w' \<Longrightarrow> writer_ok w'"
  by (simp add: wrote_def)

lemma wrote_clipped: "rw_clipped w \<Longrightarrow> writer_ok w \<Longrightarrow> wrote t w w"
  by (simp add: wrote_def)

lemma push_wrote:
  assumes w: "writer_ok w"
  shows "runs (writer_push t w) (wrote t w)"
proof (cases "rw_clipped w")
  case True
  then show ?thesis using w by (simp add: writer_push_def wrote_clipped)
next
  case False
  let ?room = "MAX_RENDER_BYTES - str_len RENDER_LIMIT_NOTICE - str_len (rw_text w)"
  let ?m = "min (str_len t) ?room"
  obtain u v where u: "t = u @ v" "str_len u = floor_boundary t ?m" "str_truncate t (floor_boundary t ?m) = Some u"
    by (rule truncate_floor)
  have "str_len u \<le> ?room" using floor_boundary_ok(2) [of t ?m] u(2) by simp
  then have fits: "str_len (rw_text w) + str_len u + str_len RENDER_LIMIT_NOTICE \<le> MAX_RENDER_BYTES"
    using w by (simp add: writer_ok_def)
  have "v = []" if "\<not> str_len u < str_len t"
    using that u(1) char_len_pos [of "hd v"] by (cases v) simp_all
  moreover have "writer_push t w = Some \<lparr>rw_text = rw_text w @ u, rw_clipped = str_len u < str_len t\<rparr>"
    using False u(3) unfolding writer_push_def Let_def u(2) by simp
  moreover have "set u \<subseteq> set t" using u(1) by simp
  moreover have "MAX_RENDER_BYTES < str_len (rw_text w) + str_len t + str_len RENDER_LIMIT_NOTICE"
    if short: "str_len u < str_len t"
  proof (rule ccontr)
    assume "\<not> ?thesis"
    then have "?m = str_len t" by simp
    then have "str_len u = floor_boundary t (str_len t)" using u(2) by simp
    then show False using short boundary_end [of t] floor_boundary_fix by simp
  qed
  ultimately show ?thesis
    using False u(1) fits by (auto simp: wrote_def writer_ok_def)
qed

lemma runs_wrote:
  assumes "runs m (wrote t w)" and "\<And>w'. writer_ok w' \<Longrightarrow> runs (f w') (wrote u w')"
  shows "runs (m \<bind> f) (wrote (t @ u) w)"
proof -
  obtain w' where w': "m = Some w'" "wrote t w w'" using assms(1) by (auto simp: runs_def)
  have "runs (f w') (wrote u w')" using assms(2) wrote_ok [OF w'(2)] by blast
  then show ?thesis using w' by (auto simp: runs_def intro: wrote_trans)
qed

lemma foldM_wrote:
  "writer_ok w \<Longrightarrow> (\<And>x w. writer_ok w \<Longrightarrow> runs (f w x) (wrote (g x) w)) \<Longrightarrow>
     runs (foldM f w xs) (wrote (concat (map g xs)) w)"
proof (induction xs arbitrary: w)
  case Nil
  then show ?case by (simp add: wrote_nothing)
next
  case (Cons x xs)
  have "runs (f w x \<bind> (\<lambda>w'. foldM f w' xs)) (wrote (g x @ concat (map g xs)) w)"
    by (rule runs_wrote) (simp_all add: Cons)
  then show ?case by simp
qed

text \<open>The text of a character and of a line.\<close>

definition shown_char :: "(u32 \<Rightarrow> bool) \<Rightarrow> u32 \<Rightarrow> str" where
  "shown_char invisible c = (if needs_escape invisible c then escape_default c else [c])"

definition shown_line :: "(u32 \<Rightarrow> bool) \<Rightarrow> edit_kind \<times> str \<Rightarrow> str" where
  "shown_line invisible kl =
     kind_marker (fst kl) @ concat (map (shown_char invisible) (line_contents (snd kl))) @ [0x0a] @
     (if ends_with (snd kl) [0x0a] then [] else NO_NEWLINE_NOTICE)"

lemma char_wrote: "writer_ok w \<Longrightarrow> runs (writer_char invis w c) (wrote (shown_char invis c) w)"
  using foldM_wrote [where g = "\<lambda>e. [e]" and f = "\<lambda>w e. writer_push [e] w", OF _ push_wrote]
  by (auto simp: writer_char_def shown_char_def wrote_clipped push_wrote)

lemma line_wrote: "writer_ok w \<Longrightarrow> runs (writer_line invis w kl) (wrote (shown_line invis kl) w)"
proof (cases "rw_clipped w")
  case True
  then show "writer_ok w \<Longrightarrow> ?thesis" by (simp add: writer_line_def wrote_clipped split: prod.splits)
next
  case False
  assume w: "writer_ok w"
  obtain k l where kl: "kl = (k, l)" by fastforce
  let ?newline = "\<lambda>w. writer_push [0x0a] w"
  let ?last = "\<lambda>w. if ends_with l [0x0a] then Some w else writer_push NO_NEWLINE_NOTICE w"
  have last: "runs (?last w) (wrote (if ends_with l [0x0a] then [] else NO_NEWLINE_NOTICE) w)"
    if "writer_ok w" for w
    using that by (simp add: push_wrote wrote_nothing)
  have contents: "runs (foldM (writer_char invis) w (line_contents l))
      (wrote (concat (map (shown_char invis) (line_contents l))) w)" if "writer_ok w" for w
    using that by (rule foldM_wrote) (rule char_wrote)
  note tail = runs_wrote [OF push_wrote last]
  have "runs (writer_push (kind_marker k) w \<bind> (\<lambda>w. foldM (writer_char invis) w (line_contents l) \<bind>
      (\<lambda>w. ?newline w \<bind> ?last))) (wrote (kind_marker k @ concat (map (shown_char invis) (line_contents l)) @
      [0x0a] @ (if ends_with l [0x0a] then [] else NO_NEWLINE_NOTICE)) w)"
    by (rule runs_wrote [OF push_wrote [OF w] runs_wrote [OF contents tail]])
  then show ?thesis using False kl by (simp add: writer_line_def shown_line_def)
qed

definition report_text :: "(u32 \<Rightarrow> bool) \<Rightarrow> str list \<times> bool \<Rightarrow> str list \<times> bool \<Rightarrow> (edit_kind \<times> str) list \<Rightarrow>
    bool \<Rightarrow> str" where
  "report_text invisible old new es coarse =
     TITLE_LINES @ (if snd old then EARLIER_PARTIAL else []) @ (if snd new then LATER_PARTIAL else []) @
     (if coarse then COARSE_NOTICE else []) @ range_line (fst old) (fst new) @
     concat (map (shown_line invisible) es) @
     (if count_kind Added es = 0 \<and> count_kind Removed es = 0
      then if snd old \<or> snd new then NO_DIFFERENCES else IDENTICAL else [])"

text \<open>What a comparison is: the aligned lines, the counts, and the text that was written.\<close>

definition comparison_of :: "(edit_kind \<times> str) list \<Rightarrow> bool \<Rightarrow> bool \<Rightarrow> bool \<Rightarrow> report_writer \<Rightarrow> output_comparison" where
  "comparison_of es ol nl coarse w =
     \<lparr>oc_text = fst (writer_finish w), oc_added = count_kind Added es, oc_removed = count_kind Removed es,
      oc_unchanged = count_kind Same es, oc_before_limited = ol,
      oc_after_limited = nl, oc_alignment_limited = coarse, oc_rendering_limited = rw_clipped w\<rparr>"

lemma compare_result:
  assumes o: "bounded_lines before = Some (old, ol)" and n: "bounded_lines after = Some (new, nl)"
    and a: "align old new = Some (es, coarse)"
  obtains w where "wrote (report_text invis (old, ol) (new, nl) es coarse) writer_new w"
    "compare_outputs invis before after = Some (comparison_of es ol nl coarse w)"
proof -
  have w0: "writer_ok writer_new" using notice_length by (simp add: writer_ok_def writer_new_def MAX_RENDER_BYTES_def)
  have opt: "runs (if b then writer_push t w else Some w) (wrote (if b then t else []) w)"
    if "writer_ok w" for b t w
    using that by (simp add: push_wrote wrote_nothing)
  let ?m = "do {
     w \<leftarrow> writer_push TITLE_LINES writer_new;
     w \<leftarrow> (if ol then writer_push EARLIER_PARTIAL w else Some w);
     w \<leftarrow> (if nl then writer_push LATER_PARTIAL w else Some w);
     w \<leftarrow> (if coarse then writer_push COARSE_NOTICE w else Some w);
     w \<leftarrow> writer_push (range_line old new) w;
     w \<leftarrow> foldM (writer_line invis) w es;
     (if count_kind Added es = 0 \<and> count_kind Removed es = 0
           then writer_push (if ol \<or> nl then NO_DIFFERENCES else IDENTICAL) w
           else Some w)
   }"
  have "runs ?m (wrote (report_text invis (old, ol) (new, nl) es coarse) writer_new)"
    unfolding report_text_def fst_conv snd_conv
    by (rule runs_wrote [OF push_wrote [OF w0] runs_wrote [OF opt runs_wrote [OF opt runs_wrote [OF opt
          runs_wrote [OF push_wrote runs_wrote [OF foldM_wrote [OF _ line_wrote] opt]]]]]])
  then obtain w where w: "?m = Some w" "wrote (report_text invis (old, ol) (new, nl) es coarse) writer_new w"
    by (auto simp: runs_def)
  have "compare_outputs invis before after = ?m \<bind> (\<lambda>w. let (text, clipped) = writer_finish w in
     Some \<lparr>oc_text = text, oc_added = count_kind Added es, oc_removed = count_kind Removed es,
       oc_unchanged = count_kind Same es, oc_before_limited = ol,
       oc_after_limited = nl, oc_alignment_limited = coarse, oc_rendering_limited = clipped\<rparr>)"
    by (simp add: compare_outputs_def o n a)
  then have "compare_outputs invis before after = Some (comparison_of es ol nl coarse w)"
    unfolding w(1) by (simp add: writer_finish_def comparison_of_def)
  then show ?thesis using that w(2) by blast
qed

lemma compare_cases:
  obtains old ol new nl es coarse w where "bounded_lines before = Some (old, ol)"
    "bounded_lines after = Some (new, nl)" "align old new = Some (es, coarse)"
    "wrote (report_text invis (old, ol) (new, nl) es coarse) writer_new w"
    "compare_outputs invis before after = Some (comparison_of es ol nl coarse w)"
proof -
  obtain old ol where o: "bounded_lines before = Some (old, ol)" using bounded_lines_some by blast
  obtain new nl where n: "bounded_lines after = Some (new, nl)" using bounded_lines_some by blast
  obtain es coarse where a: "align old new = Some (es, coarse)" by (rule align_ok)
  obtain w where "wrote (report_text invis (old, ol) (new, nl) es coarse) writer_new w"
      "compare_outputs invis before after = Some (comparison_of es ol nl coarse w)"
    by (rule compare_result [OF o n a])
  then show ?thesis using that o n a by blast
qed

subsection \<open>The comparison is a minimal difference\<close>

lemma only_same: "count_kind Added es = 0 \<Longrightarrow> count_kind Removed es = 0 \<Longrightarrow> before_side es = after_side es"
proof (induction es)
  case (Cons e es)
  then show ?case by (cases "fst e") simp_all
qed simp

lemma lcs_self: "lcs xs xs = length xs"
  by (induction xs) simp_all

text \<open>
  C30: The counts of a comparison describe an edit of the earlier lines into the later ones; unless the
  alignment budget was exceeded, no edit leaves more lines unchanged: their number is the length of a
  longest common subsequence.  A complete comparison without added and removed lines says that the two
  texts are equal, and only then.
\<close>

theorem comparison_minimal:
  assumes r: "compare_outputs invis before after = Some r"
    and lines: "bounded_lines before = Some (old, bl)" "bounded_lines after = Some (new, al)"
  shows "oc_unchanged r + oc_removed r = length old \<and> oc_unchanged r + oc_added r = length new \<and>
    (\<not> oc_alignment_limited r \<longrightarrow>
      (\<forall>zs. subseq zs old \<and> subseq zs new \<longrightarrow> length zs \<le> oc_unchanged r) \<and>
      (\<exists>zs. subseq zs old \<and> subseq zs new \<and> length zs = oc_unchanged r)) \<and>
    (is_complete r \<longrightarrow> (oc_added r = 0 \<and> oc_removed r = 0 \<longleftrightarrow> os_text before = os_text after))"
proof -
  obtain es coarse where a: "align old new = Some (es, coarse)" by (rule align_ok)
  obtain w where "compare_outputs invis before after = Some (comparison_of es bl al coarse w)"
    by (rule compare_result [OF lines a])
  then have rd: "r = comparison_of es bl al coarse w" using r by simp
  note es = align_SomeD [OF a]
  have counts: "count_kind Same es + count_kind Removed es = length old"
      "count_kind Same es + count_kind Added es = length new"
    using count_sides [of es] es by simp_all
  have same: "os_text before = os_text after \<longleftrightarrow> old = new" if lim: "\<not> bl" "\<not> al"
    using bounded_lines_SomeD(3,4) [OF lines(1) lim(1)] bounded_lines_SomeD(3,4) [OF lines(2) lim(2)] by metis
  have "old = new" if "count_kind Added es = 0" "count_kind Removed es = 0"
    using only_same [OF that] es(1,2) by simp
  moreover have "count_kind Added es = 0 \<and> count_kind Removed es = 0" if "old = new" "\<not> coarse"
    using es(3) [OF that(2)] counts that(1) lcs_self [of new] by simp
  ultimately have unchanged: "count_kind Added es = 0 \<and> count_kind Removed es = 0 \<longleftrightarrow> old = new" if "\<not> coarse"
    using that by blast
  have best: "(\<forall>zs. subseq zs old \<and> subseq zs new \<longrightarrow> length zs \<le> count_kind Same es) \<and>
      (\<exists>zs. subseq zs old \<and> subseq zs new \<and> length zs = count_kind Same es)" if "\<not> coarse"
    unfolding es(3) [OF that] using lcs_upper [of _ old new] lcs_reached [of old new] by blast
  show ?thesis
    using counts same unchanged best unfolding rd comparison_of_def is_complete_def by simp
qed

theorem comparison_minimal_witness:
  "\<exists>r. compare_outputs (\<lambda>c. False) \<lparr>os_text = [0x61, 0x0a, 0x62, 0x0a, 0x63], os_truncated = False\<rparr>
      \<lparr>os_text = [0x61, 0x0a, 0x78, 0x0a, 0x62, 0x0a, 0x63], os_truncated = False\<rparr> = Some r \<and>
    oc_unchanged r = 3 \<and> oc_added r = 1 \<and> oc_removed r = 0"
proof -
  let ?b = "[0x61, 0x0a, 0x62, 0x0a, 0x63] :: str" and ?a = "[0x61, 0x0a, 0x78, 0x0a, 0x62, 0x0a, 0x63] :: str"
  let ?old = "[[0x61, 0x0a], [0x62, 0x0a], [0x63]] :: str list"
  let ?new = "[[0x61, 0x0a], [0x78, 0x0a], [0x62, 0x0a], [0x63]] :: str list"
  let ?es = "[(Same, [0x61, 0x0a]), (Added, [0x78, 0x0a]), (Same, [0x62, 0x0a]), (Same, [0x63])] :: (edit_kind \<times> str) list"
  have len: "str_len ?b = 5" "str_len ?a = 7" by code_simp+
  have split: "split_inclusive ?b = ?old" "split_inclusive ?a = ?new" by code_simp+
  have lines: "bounded_lines \<lparr>os_text = ?b, os_truncated = False\<rparr> = Some (?old, False)"
      "bounded_lines \<lparr>os_text = ?a, os_truncated = False\<rparr> = Some (?new, False)"
    using bounded_lines_small [of ?b False] bounded_lines_small [of ?a False]
    unfolding len split by (simp_all add: MAX_INPUT_BYTES_def MAX_INPUT_LINES_def)
  have al: "align ?old ?new = Some (?es, False)" by code_simp
  obtain w where r: "compare_outputs (\<lambda>c. False) \<lparr>os_text = ?b, os_truncated = False\<rparr>
      \<lparr>os_text = ?a, os_truncated = False\<rparr> = Some (comparison_of ?es False False False w)"
    by (rule compare_result [OF lines al])
  have "subseq ?old ?old" "subseq ?old ?new" by code_simp+
  then have "3 \<le> oc_unchanged (comparison_of ?es False False False w)"
    using comparison_minimal [OF r lines] by (auto simp: comparison_of_def)
  moreover have "oc_unchanged (comparison_of ?es False False False w) + oc_removed (comparison_of ?es False False False w) = 3"
      "oc_unchanged (comparison_of ?es False False False w) + oc_added (comparison_of ?es False False False w) = 4"
    using comparison_minimal [OF r lines] by simp_all
  ultimately show ?thesis using r by (intro exI conjI) auto
qed

subsection \<open>The report is bounded and readable\<close>

text \<open>Characters that cannot disguise the report: visible ones, printable ASCII and the line feed.\<close>

definition readable :: "(u32 \<Rightarrow> bool) \<Rightarrow> u32 \<Rightarrow> bool" where
  "readable invisible c \<longleftrightarrow> c = 0x0a \<or> (0x20 \<le> c \<and> c \<le> 0x7e) \<or> \<not> needs_escape invisible c"

lemma lower_hex_digit_cases: "d < 16 \<Longrightarrow> (0x30 \<le> lower_hex_digit d \<and> lower_hex_digit d \<le> 0x39) \<or>
    (0x61 \<le> lower_hex_digit d \<and> lower_hex_digit d \<le> 0x66)"
proof -
  have "\<forall>d \<in> {..<16}. (0x30 \<le> lower_hex_digit d \<and> lower_hex_digit d \<le> 0x39) \<or>
    (0x61 \<le> lower_hex_digit d \<and> lower_hex_digit d \<le> 0x66)" by code_simp
  then show "d < 16 \<Longrightarrow> ?thesis" by blast
qed

definition hex_char :: "u32 \<Rightarrow> bool" where
  "hex_char c \<longleftrightarrow> (0x30 \<le> c \<and> c \<le> 0x39) \<or> (0x61 \<le> c \<and> c \<le> 0x66)"

lemma hex_chars: "list_all hex_char (hex n)"
proof (induction n rule: hex.induct)
  case (1 n)
  then show ?case
    using lower_hex_digit_cases [of n] lower_hex_digit_cases [of "n mod 16"]
    by (simp add: hex.simps [of n] hex_char_def)
qed

lemma hex_char_readable: "hex_char c \<Longrightarrow> readable invis c"
  by (auto simp: hex_char_def readable_def word_le_nat_alt)

lemma escape_readable: "list_all (readable invis) (shown_char invis c)"
proof -
  have hex: "list_all (readable invis) (hex (unat c))"
    using hex_chars [of "unat c"] hex_char_readable by (auto simp: list_all_iff)
  have ascii: "readable invis 0x5c" "readable invis 0x74" "readable invis 0x72" "readable invis 0x6e"
      "readable invis 0x27" "readable invis 0x22" "readable invis 0x75" "readable invis 0x7b" "readable invis 0x7d"
    by (simp_all add: readable_def)
  show ?thesis
    using hex ascii by (simp add: shown_char_def escape_default_def) (auto simp: readable_def)
qed

lemma printable_readable: "list_all (\<lambda>c. c = 0x0a \<or> (0x20 \<le> c \<and> c \<le> 0x7e)) t \<Longrightarrow> list_all (readable invis) t"
  by (auto simp: list_all_iff readable_def)

lemma fixed_readable:
  "list_all (readable invis) TITLE_LINES" "list_all (readable invis) EARLIER_PARTIAL"
  "list_all (readable invis) LATER_PARTIAL" "list_all (readable invis) COARSE_NOTICE"
  "list_all (readable invis) NO_DIFFERENCES" "list_all (readable invis) IDENTICAL"
  "list_all (readable invis) NO_NEWLINE_NOTICE" "list_all (readable invis) RENDER_LIMIT_NOTICE"
  by (rule printable_readable, code_simp)+

lemma dec_readable: "list_all (readable invis) (map ucast (dec n))"
proof -
  have "0x20 \<le> (ucast b :: u32) \<and> (ucast b :: u32) \<le> 0x7e" if "48 \<le> unat b \<and> unat b \<le> 57" for b :: u8
    using that by (simp add: word_le_nat_alt unat_ucast32)
  then show ?thesis using dec_digits [of n] by (auto simp: list_all_iff readable_def)
qed

lemma range_line_readable: "list_all (readable invis) (range_line old new)"
proof -
  have "list_all (readable invis) (lit ''@@ -'')" "list_all (readable invis) (lit ''0'')"
    "list_all (readable invis) (lit ''1'')" "list_all (readable invis) (lit '','')"
    "list_all (readable invis) (lit '' +'')" "list_all (readable invis) (lit '' @@'')"
    "list_all (readable invis) [0x0a]"
    by (rule printable_readable, code_simp)+
  then show ?thesis using dec_readable by (simp add: range_line_def)
qed

lemma shown_line_readable: "list_all (readable invis) (shown_line invis kl)"
proof -
  have "list_all (readable invis) (kind_marker (fst kl))"
    by (cases "fst kl") (simp_all add: kind_marker_def readable_def)
  moreover have "list_all (readable invis) (concat (map (shown_char invis) cs))" for cs
    using escape_readable by (induction cs) simp_all
  moreover have "readable invis 0x0a" by (simp add: readable_def)
  ultimately show ?thesis using fixed_readable by (simp add: shown_line_def)
qed

lemma report_readable: "list_all (readable invis) (report_text invis old new es coarse)"
proof -
  have "list_all (readable invis) (concat (map (shown_line invis) es))"
    using shown_line_readable by (induction es) simp_all
  then show ?thesis using fixed_readable range_line_readable by (simp add: report_text_def)
qed

text \<open>
  C31: Every comparison returns a report of at most \<open>MAX_RENDER_BYTES\<close> bytes, in which every
  character is a line feed, printable ASCII, or one that is neither a control nor invisible: captured
  output cannot hide or disguise an edit with terminal controls.
\<close>

theorem report_bounded_and_readable:
  "\<exists>r. compare_outputs invis before after = Some r \<and> str_len (oc_text r) \<le> MAX_RENDER_BYTES \<and>
     list_all (readable invis) (oc_text r)"
proof -
  obtain old ol new nl es coarse w where w: "wrote (report_text invis (old, ol) (new, nl) es coarse) writer_new w"
    and r: "compare_outputs invis before after = Some (comparison_of es ol nl coarse w)"
    by (rule compare_cases)
  have "set (rw_text w) \<subseteq> set (report_text invis (old, ol) (new, nl) es coarse)"
    using w by (simp add: wrote_def writer_new_def)
  then have "list_all (readable invis) (rw_text w)"
    using report_readable [of invis "(old, ol)" "(new, nl)" es coarse] by (auto simp: list_all_iff)
  then have "list_all (readable invis) (fst (writer_finish w))"
    using fixed_readable(8) by (simp add: writer_finish_def)
  moreover have "str_len (fst (writer_finish w)) \<le> MAX_RENDER_BYTES"
    using wrote_ok [OF w] by (simp add: writer_finish_def writer_ok_def)
  ultimately show ?thesis using r by (simp add: comparison_of_def)
qed

subsection \<open>The report tells what was compared\<close>

lemma prefix_code_concat:
  assumes code: "\<And>c d r s. f c @ r = f d @ s \<Longrightarrow> c = d \<and> r = s" and ne: "\<And>c. f c \<noteq> []"
  shows "concat (map f xs) = concat (map f ys) \<Longrightarrow> xs = ys"
proof (induction xs arbitrary: ys)
  case Nil
  then show ?case using ne by (cases ys) auto
next
  case (Cons x xs)
  show ?case
  proof (cases ys)
    case Nil
    then show ?thesis using Cons.prems ne by simp
  next
    case (Cons y ys')
    then have "f x @ concat (map f xs) = f y @ concat (map f ys')" using Cons.prems by simp
    then have "x = y" "concat (map f xs) = concat (map f ys')" using code by blast+
    then show ?thesis using Cons.IH Cons by simp
  qed
qed

lemma split_at_first:
  assumes "xs @ a # r = ys @ a # s" "a \<notin> set xs" "a \<notin> set ys"
  shows "xs = ys \<and> r = s"
proof -
  have t: "takeWhile (\<lambda>x. x \<noteq> a) (zs @ a # q) = zs" if "a \<notin> set zs" for zs q
    using that by (induction zs) auto
  have "xs = ys" using t [OF assms(2), of r] t [OF assms(3), of s] assms(1) by (simp only:)
  then show ?thesis using assms(1) by simp
qed

definition hex_value :: "u32 \<Rightarrow> nat" where
  "hex_value c = (if c < 0x3a then unat c - 0x30 else unat c - 0x57)"

lemma hex_value_digit: "d < 16 \<Longrightarrow> hex_value (lower_hex_digit d) = d"
proof -
  assume d: "d < 16"
  have u: "unat (0x30 + of_nat d :: u32) = 48 + d" "unat (0x57 + of_nat d :: u32) = 87 + d"
    using d by (simp_all add: unat_word_ariths unsigned_of_nat take_bit_eq_mod)
  show ?thesis using d u by (simp add: hex_value_def lower_hex_digit_def word_less_nat_alt)
qed

lemma hex_inject: "hex m = hex n \<Longrightarrow> m = n"
proof -
  have "foldl (\<lambda>v c. v * 16 + hex_value c) 0 (hex n) = n" for n
  proof (induction n rule: hex.induct)
    case (1 n)
    then show ?case
      using hex_value_digit [of n] hex_value_digit [of "n mod 16"] by (simp add: hex.simps [of n])
  qed
  then show "hex m = hex n \<Longrightarrow> m = n" by metis
qed

lemma hex_free: "0x7d \<notin> set (hex n)"
  using hex_chars [of n] by (auto simp: list_all_iff hex_char_def)

text \<open>A shown character is itself, a short escape, or an escape with its number.\<close>

lemma shown_char_forms:
  "(shown_char invis c = [c] \<and> c \<noteq> 0x5c) \<or>
   (\<exists>e. shown_char invis c = [0x5c, e] \<and> (c, e) \<in> {(0x09, 0x74), (0x0d, 0x72), (0x0a, 0x6e), (0x27, 0x27),
      (0x22, 0x22), (0x5c, 0x5c)}) \<or>
   shown_char invis c = [0x5c, 0x75, 0x7b] @ hex (unat c) @ [0x7d]"
  by (auto simp: shown_char_def escape_default_def needs_escape_def)

lemma shown_char_code:
  assumes "shown_char invis c @ r = shown_char invis d @ s"
  shows "c = d \<and> r = s"
proof -
  have hex: "hex (unat c) @ 0x7d # r = hex (unat d) @ 0x7d # s \<Longrightarrow> c = d \<and> r = s"
    using split_at_first [of "hex (unat c)" "0x7d" r "hex (unat d)" s] hex_free hex_inject
    by (auto simp: word_unat_eq_iff)
  show ?thesis
    using assms shown_char_forms [of invis c] shown_char_forms [of invis d] hex by auto
qed

lemma shown_char_no_newline: "0x0a \<notin> set (shown_char invis c)"
proof -
  have "0x0a \<notin> set (hex (unat c))"
    using hex_chars [of "unat c"] by (auto simp: list_all_iff hex_char_def)
  then show ?thesis
    by (auto simp: shown_char_def escape_default_def needs_escape_def is_control_def)
qed

lemma shown_line_code:
  assumes eq: "shown_line invis (k, l) @ r = shown_line invis (k', l') @ r'"
    and ok: "line_ok l" "line_ok l'" and free: "r = [] \<or> hd r \<noteq> 0x5c" "r' = [] \<or> hd r' \<noteq> 0x5c"
  shows "k = k' \<and> l = l' \<and> r = r'"
proof -
  let ?C = "\<lambda>l. concat (map (shown_char invis) (line_contents l))"
  let ?T = "\<lambda>l r. (if ends_with l [0x0a] then [] else NO_NEWLINE_NOTICE) @ r"
  have k: "k = k'" "?C l @ 0x0a # ?T l r = ?C l' @ 0x0a # ?T l' r'"
    using eq by (cases k; cases k'; simp add: shown_line_def kind_marker_def)+
  have "?C l = ?C l' \<and> ?T l r = ?T l' r'"
    by (rule split_at_first [OF k(2)]) (use shown_char_no_newline in auto)
  then have c: "?C l = ?C l'" and t: "?T l r = ?T l' r'" by blast+
  have "shown_char invis c \<noteq> []" for c using shown_char_forms [of invis c] by auto
  then have contents: "line_contents l = line_contents l'"
    using prefix_code_concat [where f = "shown_char invis", OF shown_char_code [of invis]] c by blast
  have hd: "NO_NEWLINE_NOTICE \<noteq> []" "hd NO_NEWLINE_NOTICE = 0x5c" by code_simp+
  have e: "ends_with l [0x0a] = ends_with l' [0x0a] \<and> r = r'"
    using t free hd by (cases "ends_with l [0x0a]"; cases "ends_with l' [0x0a]") (auto simp: hd_append)
  let ?n = "\<lambda>l. line_contents l @ (if ends_with l [0x0a] then [0x0a] else [])"
  have "?n l = ?n l'" using contents e by simp
  then have "l = l'"
    by (rule box_equals [OF _ line_contents_ok [OF ok(1), THEN conjunct2, symmetric]
          line_contents_ok [OF ok(2), THEN conjunct2, symmetric]])
  then show ?thesis using k(1) e by blast
qed

lemma shown_line_hd: "shown_line invis e @ r \<noteq> [] \<and> hd (shown_line invis e @ r) \<noteq> 0x5b \<and> hd (shown_line invis e @ r) \<noteq> 0x5c"
  by (cases "fst e") (simp_all add: shown_line_def kind_marker_def)

lemma shown_lines_code:
  assumes "concat (map (shown_line invis) es) @ r = concat (map (shown_line invis) es') @ r'"
    and "\<forall>e \<in> set es. line_ok (snd e)" "\<forall>e \<in> set es'. line_ok (snd e)"
    and "r = [] \<or> hd r = 0x5b" "r' = [] \<or> hd r' = 0x5b"
  shows "es = es' \<and> r = r'"
  using assms(1-3)
proof (induction es arbitrary: es')
  case Nil
  then show ?case
    using assms(4) shown_line_hd [of invis "hd es'" "concat (map (shown_line invis) (tl es')) @ r'"]
    by (cases es') auto
next
  case (Cons e es)
  show ?case
  proof (cases es')
    case Nil
    then show ?thesis
      using Cons.prems(1) assms(5) shown_line_hd [of invis e "concat (map (shown_line invis) es) @ r"] by auto
  next
    case (Cons e' fs)
    let ?R = "\<lambda>es r. concat (map (shown_line invis) es) @ r"
    have free: "?R es q = [] \<or> hd (?R es q) \<noteq> 0x5c" if "q = [] \<or> hd q = 0x5b" for es q
      using that shown_line_hd [of invis "hd es" "?R (tl es) q"] by (cases es) auto
    have "shown_line invis (fst e, snd e) @ ?R es r = shown_line invis (fst e', snd e') @ ?R fs r'"
      using Cons.prems(1) Cons by simp
    then have "fst e = fst e' \<and> snd e = snd e' \<and> ?R es r = ?R fs r'"
      by (rule shown_line_code) (use Cons.prems(2,3) Cons assms(4,5) free in auto)
    then show ?thesis using Cons.IH [of fs] Cons.prems(2,3) Cons by (auto simp: prod_eq_iff)
  qed
qed

lemma opt_code:
  assumes "(if b then t else []) @ x = (if b' then t else []) @ x'"
    and "2 \<le> length t" "take 2 x \<noteq> take 2 t" "take 2 x' \<noteq> take 2 t"
  shows "b = b' \<and> x = x'"
proof -
  have tq: "take 2 (t @ q) = take 2 t" for q using assms(2) by simp
  have "b = b'"
  proof (rule ccontr)
    assume "b \<noteq> b'"
    then have "t @ x = x' \<or> x = t @ x'" using assms(1) by (cases b) auto
    then show False using assms(3,4) tq by metis
  qed
  then show ?thesis using assms(1) by simp
qed

lemma range_line_code:
  assumes "range_line a b @ x = range_line c d @ y"
  shows "x = y"
proof -
  have dec: "0x0a \<notin> set (map ucast (dec n) :: str)" for n
  proof -
    have "(ucast v :: u32) \<noteq> 0x0a" if "48 \<le> unat v \<and> unat v \<le> 57" for v :: u8
      using that unat_ucast32 [of v] by (auto simp: word_unat_eq_iff)
    then show ?thesis using dec_digits [of n] by (auto simp: list_all_iff)
  qed
  have "\<exists>R. range_line a b = R @ [0x0a] \<and> 0x0a \<notin> set R" for a b
    using dec [of "length a"] dec [of "length b"]
    by (intro exI [of _ "butlast (range_line a b)"]) (auto simp: range_line_def butlast_append lit_def)
  then obtain R S where "range_line a b = R @ [0x0a]" "0x0a \<notin> set R" "range_line c d = S @ [0x0a]" "0x0a \<notin> set S"
    by meson
  then show ?thesis using assms split_at_first [of R "0x0a" x S y] by simp
qed

lemma report_text_code:
  assumes eq: "report_text invis (old, ol) (new, nl) es coarse = report_text invis (old', ol') (new', nl') es' coarse'"
    and ok: "\<forall>e \<in> set es. line_ok (snd e)" "\<forall>e \<in> set es'. line_ok (snd e)"
  shows "ol = ol' \<and> nl = nl' \<and> coarse = coarse' \<and> es = es'"
proof -
  let ?trailer = "\<lambda>es ol nl. if count_kind Added es = 0 \<and> count_kind Removed es = 0
      then if ol \<or> nl then NO_DIFFERENCES else IDENTICAL else []"
  let ?body = "\<lambda>old new es ol nl. range_line old new @ concat (map (shown_line invis) es) @ ?trailer es ol nl"
  let ?c = "\<lambda>c X. (if c then COARSE_NOTICE else []) @ X"
  let ?l = "\<lambda>b X. (if b then LATER_PARTIAL else []) @ X"
  let ?e = "\<lambda>b X. (if b then EARLIER_PARTIAL else []) @ X"
  have t2: "take 2 EARLIER_PARTIAL = [0x5b, 0x45]" "take 2 LATER_PARTIAL = [0x5b, 0x4c]"
      "take 2 COARSE_NOTICE = [0x5b, 0x43]" "2 \<le> length EARLIER_PARTIAL" "2 \<le> length LATER_PARTIAL"
      "2 \<le> length COARSE_NOTICE" "hd NO_DIFFERENCES = 0x5b" "hd IDENTICAL = 0x5b"
    by code_simp+
  have b2: "take 2 (range_line a b @ X) = [0x40, 0x40]" for a b X
    by (simp add: range_line_def lit_def)
  have c2: "take 2 (?c c (range_line a b @ X)) \<in> {[0x5b, 0x43], [0x40, 0x40]}" for c a b X
    using t2(3,6) b2 by simp
  have l2: "take 2 (?l d (?c c (range_line a b @ X))) \<in> {[0x5b, 0x4c], [0x5b, 0x43], [0x40, 0x40]}" for d c a b X
    using t2(2,5) c2 [of c a b X] by (cases d) simp_all
  have noE: "take 2 (?l d (?c c (range_line a b @ X))) \<noteq> take 2 EARLIER_PARTIAL" for d c a b X
    unfolding t2(1) by (rule notI) (use l2 [of d c a b X] in \<open>simp only:, simp\<close>)
  have noL: "take 2 (?c c (range_line a b @ X)) \<noteq> take 2 LATER_PARTIAL" for c a b X
    unfolding t2(2) by (rule notI) (use c2 [of c a b X] in \<open>simp only:, simp\<close>)
  have noC: "take 2 (range_line a b @ X) \<noteq> take 2 COARSE_NOTICE" for a b X
    unfolding t2(3) b2 by simp
  have 1: "?e ol (?l nl (?c coarse (?body old new es ol nl))) = ?e ol' (?l nl' (?c coarse' (?body old' new' es' ol' nl')))"
    using eq unfolding report_text_def fst_conv snd_conv by (rule same_append_eq [THEN iffD1])
  have "ol = ol' \<and> ?l nl (?c coarse (?body old new es ol nl)) = ?l nl' (?c coarse' (?body old' new' es' ol' nl'))"
    by (rule opt_code [OF 1 t2(4) noE noE])
  then have ol: "ol = ol'"
    and 2: "?l nl (?c coarse (?body old new es ol nl)) = ?l nl' (?c coarse' (?body old' new' es' ol' nl'))" by blast+
  have "nl = nl' \<and> ?c coarse (?body old new es ol nl) = ?c coarse' (?body old' new' es' ol' nl')"
    by (rule opt_code [OF 2 t2(5) noL noL])
  then have nl: "nl = nl'" and 3: "?c coarse (?body old new es ol nl) = ?c coarse' (?body old' new' es' ol' nl')" by blast+
  have "coarse = coarse' \<and> ?body old new es ol nl = ?body old' new' es' ol' nl'"
    by (rule opt_code [OF 3 t2(6) noC noC])
  then have c: "coarse = coarse'"
    and b: "concat (map (shown_line invis) es) @ ?trailer es ol nl = concat (map (shown_line invis) es') @ ?trailer es' ol' nl'"
    using range_line_code by blast+
  have "es = es' \<and> ?trailer es ol nl = ?trailer es' ol' nl'"
    by (rule shown_lines_code [OF b ok]) (simp_all add: t2)
  then show ?thesis using ol nl c by blast
qed

lemma edits_line_ok:
  assumes "list_all line_ok (before_side es)" "list_all line_ok (after_side es)"
  shows "\<forall>e \<in> set es. line_ok (snd e)"
proof
  fix e assume e: "e \<in> set es"
  show "line_ok (snd e)"
    using assms e by (cases e; cases "fst e = Added") (auto simp: list_all_iff before_side_def after_side_def)
qed

text \<open>
  C32: A report that was not clipped tells exactly what was compared: two of them have the same text if
  and only if the bounded lines of both outputs, and whether they were cut, are the same.  No content
  can be mistaken for another, for an edit marker or for a notice.
\<close>

theorem report_tells_input:
  assumes r: "compare_outputs invis before after = Some r" "\<not> oc_rendering_limited r"
    and r': "compare_outputs invis before' after' = Some r'" "\<not> oc_rendering_limited r'"
  shows "oc_text r = oc_text r' \<longleftrightarrow>
    bounded_lines before = bounded_lines before' \<and> bounded_lines after = bounded_lines after'"
proof -
  have form: "\<exists>old ol new nl es coarse. bounded_lines b = Some (old, ol) \<and> bounded_lines a = Some (new, nl) \<and>
      align old new = Some (es, coarse) \<and> before_side es = old \<and> after_side es = new \<and>
      (\<forall>e \<in> set es. line_ok (snd e)) \<and> oc_text q = report_text invis (old, ol) (new, nl) es coarse"
    if q: "compare_outputs invis b a = Some q" "\<not> oc_rendering_limited q" for b a q
  proof -
    obtain old ol new nl es coarse w where c: "bounded_lines b = Some (old, ol)" "bounded_lines a = Some (new, nl)"
        "align old new = Some (es, coarse)" "wrote (report_text invis (old, ol) (new, nl) es coarse) writer_new w"
        "compare_outputs invis b a = Some (comparison_of es ol nl coarse w)"
      by (rule compare_cases)
    have qd: "q = comparison_of es ol nl coarse w" using q(1) c(5) by simp
    have "\<not> rw_clipped w" and tx: "oc_text q = fst (writer_finish w)"
      using q(2) unfolding qd comparison_of_def by simp_all
    then have "oc_text q = report_text invis (old, ol) (new, nl) es coarse"
      using c(4) tx by (simp add: writer_finish_def wrote_def writer_new_def)
    moreover have "\<forall>e \<in> set es. line_ok (snd e)"
      using align_SomeD [OF c(3)] bounded_lines_SomeD(1) [OF c(1)] bounded_lines_SomeD(1) [OF c(2)]
      by (intro edits_line_ok) simp_all
    ultimately show ?thesis using c(1-3) align_SomeD(1,2) [OF c(3)] by blast
  qed
  obtain old ol new nl es coarse where f: "bounded_lines before = Some (old, ol)" "bounded_lines after = Some (new, nl)"
      "align old new = Some (es, coarse)" "before_side es = old" "after_side es = new" "\<forall>e \<in> set es. line_ok (snd e)"
      "oc_text r = report_text invis (old, ol) (new, nl) es coarse"
    using form [OF r] by blast
  obtain old' ol' new' nl' es' coarse' where g: "bounded_lines before' = Some (old', ol')" "bounded_lines after' = Some (new', nl')"
      "align old' new' = Some (es', coarse')" "before_side es' = old'" "after_side es' = new'" "\<forall>e \<in> set es'. line_ok (snd e)"
      "oc_text r' = report_text invis (old', ol') (new', nl') es' coarse'"
    using form [OF r'] by blast
  show ?thesis
  proof
    assume "oc_text r = oc_text r'"
    then have "ol = ol' \<and> nl = nl' \<and> coarse = coarse' \<and> es = es'"
      using report_text_code [OF _ f(6) g(6)] f(7) g(7) by simp
    then show "bounded_lines before = bounded_lines before' \<and> bounded_lines after = bounded_lines after'"
      using f(1,2,4,5) g(1,2,4,5) by simp
  next
    assume "bounded_lines before = bounded_lines before' \<and> bounded_lines after = bounded_lines after'"
    then show "oc_text r = oc_text r'" using f g by simp
  qed
qed

lemma fits_unclipped: "wrote t writer_new w \<Longrightarrow> str_len t \<le> 400 \<Longrightarrow> \<not> rw_clipped w"
  by (auto simp: wrote_def writer_new_def notice_length MAX_RENDER_BYTES_def)

theorem report_tells_input_witness:
  "\<exists>r r'. compare_outputs (\<lambda>c. False) \<lparr>os_text = [0x09, 0x0a], os_truncated = False\<rparr> \<lparr>os_text = [], os_truncated = False\<rparr> = Some r \<and>
     compare_outputs (\<lambda>c. False) \<lparr>os_text = [0x5c, 0x74, 0x0a], os_truncated = False\<rparr> \<lparr>os_text = [], os_truncated = False\<rparr> = Some r' \<and>
     oc_text r \<noteq> oc_text r'"
proof -
  let ?a = "\<lparr>os_text = [], os_truncated = False\<rparr>"
  let ?t = "\<lparr>os_text = [0x09, 0x0a], os_truncated = False\<rparr>"
  let ?l = "\<lparr>os_text = [0x5c, 0x74, 0x0a], os_truncated = False\<rparr>"
  have len: "str_len [0x09, 0x0a] = 2" "str_len [0x5c, 0x74, 0x0a] = 3" "str_len [] = 0" by code_simp+
  have split: "split_inclusive [0x09, 0x0a] = [[0x09, 0x0a]]" "split_inclusive [] = []"
      "split_inclusive [0x5c, 0x74, 0x0a] = [[0x5c, 0x74, 0x0a]]" by code_simp+
  have b: "bounded_lines ?t = Some ([[0x09, 0x0a]], False)" "bounded_lines ?l = Some ([[0x5c, 0x74, 0x0a]], False)"
      "bounded_lines ?a = Some ([], False)"
    using bounded_lines_small [of "[0x09, 0x0a]" False] bounded_lines_small [of "[0x5c, 0x74, 0x0a]" False]
      bounded_lines_small [of "[]" False]
    unfolding len split by (simp_all add: MAX_INPUT_BYTES_def MAX_INPUT_LINES_def)
  have al: "align [[0x09, 0x0a] :: str] [] = Some ([(Removed, [0x09, 0x0a])], False)"
      "align [[0x5c, 0x74, 0x0a] :: str] [] = Some ([(Removed, [0x5c, 0x74, 0x0a])], False)" by code_simp+
  obtain w where w: "wrote (report_text (\<lambda>c. False) ([[0x09, 0x0a]], False) ([], False) [(Removed, [0x09, 0x0a])] False) writer_new w"
      "compare_outputs (\<lambda>c. False) ?t ?a = Some (comparison_of [(Removed, [0x09, 0x0a])] False False False w)"
    by (rule compare_result [OF b(1,3) al(1)])
  obtain v where v: "wrote (report_text (\<lambda>c. False) ([[0x5c, 0x74, 0x0a]], False) ([], False) [(Removed, [0x5c, 0x74, 0x0a])] False) writer_new v"
      "compare_outputs (\<lambda>c. False) ?l ?a = Some (comparison_of [(Removed, [0x5c, 0x74, 0x0a])] False False False v)"
    by (rule compare_result [OF b(2,3) al(2)])
  have "\<not> rw_clipped w" by (rule fits_unclipped [OF w(1)]) code_simp
  moreover have "\<not> rw_clipped v" by (rule fits_unclipped [OF v(1)]) code_simp
  ultimately have "oc_text (comparison_of [(Removed, [0x09, 0x0a])] False False False w) \<noteq>
      oc_text (comparison_of [(Removed, [0x5c, 0x74, 0x0a])] False False False v)"
    using report_tells_input [OF w(2) _ v(2)] b by (simp add: comparison_of_def)
  then show ?thesis using w(2) v(2) by blast
qed

end
