(* ===== verification/Click_Cursor.thy ===== *)
theory Click_Cursor
  imports Prelude
begin

text \<open>
  Placing the cursor by a click (\<open>src/src/click_cursor.rs\<close>): when a click may move it, to which
  cell, how many characters that is, and the arrow keys it becomes.  Coordinates are \<open>i64\<close> values
  as integers; the saturating operations of the source are written out with \<open>sat64\<close>.
\<close>

definition sat64 :: "int \<Rightarrow> int" where
  "sat64 x = max (- (2 ^ 63)) (min x (2 ^ 63 - 1))"

record click_cell =
  c_row :: int
  c_col :: int

text \<open>\<open>Cell::index\<close>.\<close>

definition cell_index :: "click_cell \<Rightarrow> int \<Rightarrow> int" where
  "cell_index c columns = sat64 (sat64 (c_row c * columns) + c_col c)"

datatype shell_phase = PhaseUnknown | PhaseEditing | PhaseRunning

definition ENABLED_BY_DEFAULT :: bool where "ENABLED_BY_DEFAULT = True"

record guards =
  g_enabled :: bool
  g_mouse_reporting :: bool
  g_alt_screen :: bool
  g_scrolled_back :: bool
  g_phase :: shell_phase

definition click_may_move_cursor :: "guards \<Rightarrow> bool" where
  "click_may_move_cursor g \<longleftrightarrow> g_enabled g \<and> \<not> g_mouse_reporting g \<and> \<not> g_alt_screen g \<and>
     \<not> g_scrolled_back g \<and> g_phase g \<noteq> PhaseRunning"

record input_span =
  sp_start :: click_cell
  sp_end :: click_cell

definition MAX_STEPS :: int where "MAX_STEPS = 4096"

text \<open>The span with its ends in order.\<close>

definition span_ends :: "input_span \<Rightarrow> int \<Rightarrow> click_cell \<times> click_cell" where
  "span_ends span columns =
     (if cell_index (sp_start span) columns \<le> cell_index (sp_end span) columns
      then (sp_start span, sp_end span) else (sp_end span, sp_start span))"

definition target_cell :: "click_cell \<Rightarrow> click_cell \<Rightarrow> int \<Rightarrow> input_span option \<Rightarrow> click_cell option" where
  "target_cell cursor click columns span =
     (if columns \<le> 0 then None
      else
        let moved = (\<lambda>target. if target \<noteq> cursor then Some target else None) in
        case span of
          Some span \<Rightarrow>
            (case span_ends span columns of (lo, hi) \<Rightarrow>
               if c_row click < c_row lo \<or> c_row hi < c_row click then None
               else if cell_index click columns < cell_index lo columns then moved lo
               else if cell_index hi columns < cell_index click columns then moved hi
               else moved click)
        | None \<Rightarrow> if c_row click = c_row cursor then moved click else None)"

text \<open>\<open>+= 1\<close> on an \<open>i64\<close>, which panics on overflow.\<close>

definition inc64 :: "int \<Rightarrow> int option" where
  "inc64 x = (if x < 2 ^ 63 - 1 then Some (x + 1) else None)"

text \<open>
  The walk of \<open>char_steps\<close>.  The wrapping of a row is the source's; since a walk may visit
  unboundedly many cells when all of them continue a wide character, it is a partial function.
\<close>

partial_function (option) count_loop ::
  "(int \<Rightarrow> int \<Rightarrow> bool) \<Rightarrow> int \<Rightarrow> int \<Rightarrow> int \<Rightarrow> int \<Rightarrow> int \<Rightarrow> int option" where
  "count_loop wide columns hi_index row col counted =
     (if cell_index \<lparr>c_row = row, c_col = col\<rparr> columns < hi_index \<and> counted \<le> MAX_STEPS
      then do {
        counted' \<leftarrow> (if wide row col then Some counted else inc64 counted);
        col' \<leftarrow> inc64 col;
        if columns \<le> col' then do {
          row' \<leftarrow> inc64 row;
          count_loop wide columns hi_index row' 0 counted'
        }
        else count_loop wide columns hi_index row col' counted'
      }
      else Some counted)"

definition char_steps :: "click_cell \<Rightarrow> click_cell \<Rightarrow> int \<Rightarrow> (int \<Rightarrow> int \<Rightarrow> bool) \<Rightarrow> int option" where
  "char_steps from to columns wide =
     (if columns \<le> 0 then Some 0
      else
        let forward = cell_index from columns \<le> cell_index to columns;
            (lo, hi) = (if forward then (from, to) else (to, from)) in do {
          counted \<leftarrow> count_loop wide columns (cell_index hi columns) (c_row lo) (c_col lo) 0;
          Some (if forward then counted else - counted)
        })"

record click_tracker =
  ct_pending :: "click_cell option"

definition tracker_press :: "click_cell \<Rightarrow> bool \<Rightarrow> click_tracker \<Rightarrow> click_tracker" where
  "tracker_press c plain t = t\<lparr>ct_pending := if plain then Some c else None\<rparr>"

definition tracker_pointer_at :: "click_cell \<Rightarrow> click_tracker \<Rightarrow> click_tracker" where
  "tracker_pointer_at c t =
     (case ct_pending t of
        Some pressed \<Rightarrow> if pressed \<noteq> c then t\<lparr>ct_pending := None\<rparr> else t
      | None \<Rightarrow> t)"

definition tracker_release :: "click_tracker \<Rightarrow> click_cell option \<times> click_tracker" where
  "tracker_release t = (ct_pending t, t\<lparr>ct_pending := None\<rparr>)"

definition tracker_cancel :: "click_tracker \<Rightarrow> click_tracker" where
  "tracker_cancel t = t\<lparr>ct_pending := None\<rparr>"

text \<open>\<open>i64::clamp\<close> with bounds that are never crossed.\<close>

definition clamp_steps :: "int \<Rightarrow> int \<Rightarrow> int \<Rightarrow> int" where
  "clamp_steps steps max_left max_right = max (- max max_left 0) (min steps (max max_right 0))"

definition arrow_bytes :: "int \<Rightarrow> bool \<Rightarrow> bytes" where
  "arrow_bytes steps application_cursor_keys =
     (if steps = 0 \<or> MAX_STEPS < sat64 \<bar>steps\<bar> then []
      else
        let (right, left) = (if application_cursor_keys
              then ([0x1b] @ ascii ''OC'', [0x1b] @ ascii ''OD'')
              else ([0x1b] @ ascii ''[C'', [0x1b] @ ascii ''[D''));
            sequence = (if 0 < steps then right else left) in
        concat (replicate (nat \<bar>steps\<bar>) sequence))"

end
