(* ===== verification/Click_Cursor_Properties.thy ===== *)
theory Click_Cursor_Properties
  imports Click_Cursor
begin

text \<open>
  A click never walks past the input: what \<open>char_steps\<close> counts, and how it is bounded by the ends
  of the span the click was clamped to; a gesture is a click only if the pointer never left its cell.
\<close>

subsection \<open>Cells of a grid\<close>

text \<open>Cells of a grid whose indices are far from the limits of \<open>i64\<close>.\<close>

definition on_grid :: "int \<Rightarrow> click_cell \<Rightarrow> bool" where
  "on_grid columns c \<longleftrightarrow> 0 \<le> c_col c \<and> c_col c < columns \<and> columns \<le> 2 ^ 31 \<and> \<bar>c_row c\<bar> \<le> 2 ^ 31"

definition flat :: "int \<Rightarrow> click_cell \<Rightarrow> int" where
  "flat columns c = c_row c * columns + c_col c"

lemma sat64_id: "- (2 ^ 63) \<le> x \<Longrightarrow> x < 2 ^ 63 \<Longrightarrow> sat64 x = x"
  by (simp add: sat64_def)

lemma grid_index: "on_grid columns c \<Longrightarrow> cell_index c columns = flat columns c"
proof -
  assume g: "on_grid columns c"
  have r: "\<bar>c_row c * columns\<bar> \<le> 2 ^ 31 * 2 ^ 31"
    using g by (simp only: abs_mult) (intro mult_mono, auto simp: on_grid_def)
  have col: "0 \<le> c_col c" "c_col c < 2 ^ 31" using g by (simp_all add: on_grid_def)
  have "sat64 (c_row c * columns) = c_row c * columns" by (rule sat64_id) (use r in simp_all)
  moreover have "sat64 (c_row c * columns + c_col c) = c_row c * columns + c_col c"
    by (rule sat64_id) (use r col in simp_all)
  ultimately show "cell_index c columns = flat columns c" by (simp add: cell_index_def flat_def)
qed

lemma flat_cell: "on_grid columns c \<Longrightarrow> flat columns c div columns = c_row c \<and> flat columns c mod columns = c_col c"
  by (auto simp: on_grid_def flat_def)

text \<open>The characters in a stretch of cells.\<close>

definition chars_between :: "(int \<Rightarrow> int \<Rightarrow> bool) \<Rightarrow> int \<Rightarrow> int \<Rightarrow> int \<Rightarrow> nat" where
  "chars_between wide columns p h = length (filter (\<lambda>q. \<not> wide (q div columns) (q mod columns)) [p..h - 1])"

lemma chars_between_step:
  "p < h \<Longrightarrow> chars_between wide columns p h =
     (if wide (p div columns) (p mod columns) then 0 else 1) + chars_between wide columns (p + 1) h"
  by (subst chars_between_def, subst upto_rec1) (auto simp: chars_between_def)

lemma chars_between_empty: "h \<le> p \<Longrightarrow> chars_between wide columns p h = 0"
  by (simp add: chars_between_def)

lemma chars_between_split:
  "p \<le> q \<Longrightarrow> q \<le> h \<Longrightarrow>
     chars_between wide columns p h = chars_between wide columns p q + chars_between wide columns q h"
proof (induction "nat (q - p)" arbitrary: p)
  case 0
  then show ?case by (simp add: chars_between_empty)
next
  case (Suc n)
  then show ?case using chars_between_step [of p h] chars_between_step [of p q] by simp
qed

lemma count_loop_counts:
  assumes h: "on_grid columns hi" and "on_grid columns \<lparr>c_row = row, c_col = col\<rparr>" "0 \<le> counted" "counted \<le> MAX_STEPS + 1"
    and "flat columns \<lparr>c_row = row, c_col = col\<rparr> \<le> flat columns hi"
  shows "count_loop wide columns (flat columns hi) row col counted =
    Some (min (counted + int (chars_between wide columns (flat columns \<lparr>c_row = row, c_col = col\<rparr>) (flat columns hi))) (MAX_STEPS + 1))"
  using assms(2-5)
proof (induction "nat (flat columns hi - flat columns \<lparr>c_row = row, c_col = col\<rparr>)" arbitrary: row col counted)
  case 0
  then have "flat columns \<lparr>c_row = row, c_col = col\<rparr> = flat columns hi" by simp
  then show ?case using 0 by (simp add: count_loop.simps grid_index chars_between_empty)
next
  case (Suc n)
  let ?c = "\<lparr>c_row = row, c_col = col\<rparr>"
  have lt: "flat columns ?c < flat columns hi" using Suc.hyps(2) by simp
  show ?case
  proof (cases "counted \<le> MAX_STEPS")
    case False
    then show ?thesis using Suc.prems by (simp add: count_loop.simps grid_index)
  next
    case True
    let ?n = "if columns \<le> col + 1 then \<lparr>c_row = row + 1, c_col = 0\<rparr> else \<lparr>c_row = row, c_col = col + 1\<rparr>"
    let ?k = "if wide row col then counted else counted + 1"
    have g: "0 \<le> col" "col < columns" "columns \<le> 2 ^ 31" "\<bar>row\<bar> \<le> 2 ^ 31"
      using Suc.prems(1) by (simp_all add: on_grid_def)
    have next_flat: "flat columns ?n = flat columns ?c + 1"
      using g by (auto simp: flat_def algebra_simps)
    have row: "row < 2 ^ 31" if "columns \<le> col + 1"
    proof (rule ccontr)
      assume "\<not> row < 2 ^ 31"
      moreover have "c_row hi \<le> 2 ^ 31" using h unfolding on_grid_def by linarith
      ultimately have "c_row hi \<le> row" by linarith
      then have "c_row hi * columns \<le> row * columns" using g by (intro mult_right_mono) simp_all
      then have "flat columns hi \<le> flat columns ?c"
        using that h unfolding flat_def on_grid_def by (simp only: click_cell.simps, linarith)
      then show False using lt by simp
    qed
    have grid: "on_grid columns ?n" using g row by (auto simp: on_grid_def)
    have cell: "flat columns ?c div columns = row" "flat columns ?c mod columns = col"
      using flat_cell [OF Suc.prems(1)] by simp_all
    have "count_loop wide columns (flat columns hi) (c_row ?n) (c_col ?n) ?k =
        Some (min (?k + int (chars_between wide columns (flat columns ?n) (flat columns hi))) (MAX_STEPS + 1))"
      using Suc.hyps(1) [of "c_row ?n" "c_col ?n" ?k] Suc.hyps(2) Suc.prems(2) True grid next_flat lt
      by (auto split: if_splits)
    moreover have "count_loop wide columns (flat columns hi) row col counted =
        count_loop wide columns (flat columns hi) (c_row ?n) (c_col ?n) ?k"
      using lt True g Suc.prems row by (subst count_loop.simps) (auto simp: grid_index inc64_def MAX_STEPS_def)
    ultimately show ?thesis
      using chars_between_step [OF lt, of wide columns] next_flat by (simp add: cell add.assoc)
  qed
qed

lemma cell_eta: "\<lparr>c_row = c_row c, c_col = c_col c\<rparr> = c" for c :: click_cell
  by (cases c) simp

lemma char_steps_counts:
  assumes g: "on_grid columns src" "on_grid columns dst"
  shows "char_steps src dst columns wide = Some
    (if flat columns src \<le> flat columns dst
     then min (int (chars_between wide columns (flat columns src) (flat columns dst))) (MAX_STEPS + 1)
     else - min (int (chars_between wide columns (flat columns dst) (flat columns src))) (MAX_STEPS + 1))"
proof -
  have loop: "count_loop wide columns (flat columns h) (c_row l) (c_col l) 0 =
      Some (min (int (chars_between wide columns (flat columns l) (flat columns h))) (MAX_STEPS + 1))"
    if "on_grid columns h" "on_grid columns l" "flat columns l \<le> flat columns h" for h l
    using count_loop_counts [OF that(1), of "c_row l" "c_col l" 0 wide] that(2,3)
    by (simp add: cell_eta MAX_STEPS_def)
  have "0 < columns" using g(1) by (simp add: on_grid_def)
  then show ?thesis
    using loop [OF g(2,1)] loop [OF g(1,2)] by (simp add: char_steps_def grid_index g)
qed

subsection \<open>Clicks\<close>

lemma target_in_span:
  assumes g: "on_grid columns click" "on_grid columns (sp_start span)" "on_grid columns (sp_end span)"
    and ends: "span_ends span columns = (lo, hi)"
    and t: "target_cell cursor click columns (Some span) = Some target"
  shows "on_grid columns target \<and> flat columns lo \<le> flat columns target \<and> flat columns target \<le> flat columns hi"
proof -
  have lh: "on_grid columns lo" "on_grid columns hi" "flat columns lo \<le> flat columns hi"
    using g ends by (auto simp: span_ends_def grid_index split: if_splits)
  show ?thesis
    using t lh g(1) by (auto simp: target_cell_def ends grid_index Let_def split: if_splits)
qed

text \<open>
  What a line editor reads: the three bytes of a right arrow move by one character forward, those of a
  left arrow back, in the encoding of the keyboard mode it has set.
\<close>

fun key_moves :: "bool \<Rightarrow> bytes \<Rightarrow> int list option" where
  "key_moves app [] = Some []"
| "key_moves app (a # b # c # bs) =
     (if a = 0x1b \<and> b = (if app then 0x4f else 0x5b) \<and> (c = 0x43 \<or> c = 0x44)
      then map_option (\<lambda>ms. (if c = 0x43 then 1 else - 1) # ms) (key_moves app bs) else None)"
| "key_moves app _ = None"

lemma key_moves_replicate:
  "key_moves app (concat (replicate n [0x1b, if app then 0x4f else 0x5b, 0x43])) = Some (replicate n 1)"
  "key_moves app (concat (replicate n [0x1b, if app then 0x4f else 0x5b, 0x44])) = Some (replicate n (- 1))"
  by (induction n) simp_all

text \<open>A move that is too far is not made at all.\<close>

definition moves_made :: "nat \<Rightarrow> nat" where
  "moves_made n = (if int n \<le> MAX_STEPS then n else 0)"

lemma arrow_keys:
  "key_moves app (arrow_bytes (min (int n) (MAX_STEPS + 1)) app) = Some (replicate (moves_made n) 1)"
  "key_moves app (arrow_bytes (- min (int n) (MAX_STEPS + 1)) app) = Some (replicate (moves_made n) (- 1))"
proof -
  have sat: "sat64 (int n) = int n" if "int n \<le> MAX_STEPS"
    using that by (intro sat64_id) (simp_all add: MAX_STEPS_def)
  have far: "arrow_bytes (min (int n) (MAX_STEPS + 1)) app = []" "arrow_bytes (- min (int n) (MAX_STEPS + 1)) app = []"
    if "\<not> int n \<le> MAX_STEPS"
    using that by (auto simp: arrow_bytes_def min_def MAX_STEPS_def sat64_def)
  show "key_moves app (arrow_bytes (min (int n) (MAX_STEPS + 1)) app) = Some (replicate (moves_made n) 1)"
    using key_moves_replicate(1) [of app n] far(1) sat
    by (cases "int n \<le> MAX_STEPS"; cases "n = 0"; cases app)
      (simp_all add: moves_made_def arrow_bytes_def ascii_def min_def)
  show "key_moves app (arrow_bytes (- min (int n) (MAX_STEPS + 1)) app) = Some (replicate (moves_made n) (- 1))"
    using key_moves_replicate(2) [of app n] far(2) sat
    by (cases "int n \<le> MAX_STEPS"; cases "n = 0"; cases app)
      (simp_all add: moves_made_def arrow_bytes_def ascii_def min_def)
qed

text \<open>
  C33: On a grid far from the limits of \<open>i64\<close>, a click inside the rows of the input sends exactly the
  arrow keys that bring the cursor to the clicked cell clamped to the input: one right arrow for each
  character between them when it lies ahead, one left arrow for each when it lies behind, and none
  when there are more than \<open>MAX_STEPS\<close>.  So the keys never go past an end of the input, where a right
  arrow would accept a suggestion.
\<close>

theorem click_never_overshoots:
  assumes g: "on_grid columns cursor" "on_grid columns click" "on_grid columns (sp_start span)" "on_grid columns (sp_end span)"
    and ends: "span_ends span columns = (lo, hi)"
    and inside: "flat columns lo \<le> flat columns cursor" "flat columns cursor \<le> flat columns hi"
    and t: "target_cell cursor click columns (Some span) = Some target"
  shows "\<exists>k. char_steps cursor target columns wide = Some k \<and>
    (if flat columns cursor \<le> flat columns target
     then key_moves app (arrow_bytes k app) =
         Some (replicate (moves_made (chars_between wide columns (flat columns cursor) (flat columns target))) 1) \<and>
       chars_between wide columns (flat columns cursor) (flat columns target) \<le>
         chars_between wide columns (flat columns cursor) (flat columns hi)
     else key_moves app (arrow_bytes k app) =
         Some (replicate (moves_made (chars_between wide columns (flat columns target) (flat columns cursor))) (- 1)) \<and>
       chars_between wide columns (flat columns target) (flat columns cursor) \<le>
         chars_between wide columns (flat columns lo) (flat columns cursor))"
proof -
  have b: "on_grid columns target" "flat columns lo \<le> flat columns target" "flat columns target \<le> flat columns hi"
    using target_in_span [OF g(2-4) ends t] by simp_all
  show ?thesis
  proof (cases "flat columns cursor \<le> flat columns target")
    case True
    then show ?thesis
      using chars_between_split [OF True b(3), of wide columns]
      by (simp add: char_steps_counts [OF g(1) b(1)] arrow_keys)
  next
    case False
    then have le: "flat columns target \<le> flat columns cursor" by simp
    show ?thesis
      using False chars_between_split [OF b(2) le, of wide columns]
      by (simp add: char_steps_counts [OF g(1) b(1)] arrow_keys)
  qed
qed

text \<open>A click beyond the end of two rows of input, one cell of which continues a wide character.\<close>

theorem click_never_overshoots_witness:
  "\<exists>k. char_steps \<lparr>c_row = 10, c_col = 40\<rparr> \<lparr>c_row = 11, c_col = 7\<rparr> 80 (\<lambda>r c. c = 50) = Some k \<and>
    key_moves False (arrow_bytes k False) =
      Some (replicate (moves_made (chars_between (\<lambda>r c. c = 50) 80 840 887)) 1)"
proof -
  let ?span = "\<lparr>sp_start = \<lparr>c_row = 10, c_col = 2\<rparr>, sp_end = \<lparr>c_row = 11, c_col = 7\<rparr>\<rparr>"
  have "target_cell \<lparr>c_row = 10, c_col = 40\<rparr> \<lparr>c_row = 11, c_col = 60\<rparr> 80 (Some ?span) = Some \<lparr>c_row = 11, c_col = 7\<rparr>"
    by (simp add: target_cell_def span_ends_def cell_index_def sat64_def)
  from click_never_overshoots [OF _ _ _ _ _ _ _ this, of "\<lparr>c_row = 10, c_col = 2\<rparr>" "\<lparr>c_row = 11, c_col = 7\<rparr>"
      "\<lambda>r c. c = 50" False]
  show ?thesis
    by (auto simp: on_grid_def flat_def span_ends_def cell_index_def sat64_def)
qed

text \<open>A gesture is a click on a cell exactly if it began there plainly and the pointer never left it.\<close>

lemma tracker_only_clicks:
  "fst (tracker_release (foldl (\<lambda>t p. tracker_pointer_at p t) (tracker_press c plain t0) ps)) =
     (if plain \<and> (\<forall>p \<in> set ps. p = c) then Some c else None)"
proof -
  have none: "ct_pending (foldl (\<lambda>t p. tracker_pointer_at p t) t ps) = None" if "ct_pending t = None" for t ps
    using that by (induction ps arbitrary: t) (auto simp: tracker_pointer_at_def)
  have "ct_pending (foldl (\<lambda>t p. tracker_pointer_at p t) t ps) = (if \<forall>p \<in> set ps. p = c then Some c else None)"
    if "ct_pending t = Some c" for t
    using that
  proof (induction ps arbitrary: t)
    case (Cons p ps)
    then show ?case using none by (auto simp: tracker_pointer_at_def)
  qed simp
  then show ?thesis using none by (simp add: tracker_release_def tracker_press_def)
qed

lemma steps_clamped: "- max max_left 0 \<le> clamp_steps k max_left max_right \<and> clamp_steps k max_left max_right \<le> max max_right 0"
  by (auto simp: clamp_steps_def)

lemma arrow_bytes_bounded: "int (length (arrow_bytes k app)) \<le> 3 * MAX_STEPS"
  by (auto simp: arrow_bytes_def ascii_def length_concat sum_list_replicate MAX_STEPS_def sat64_def max_def min_def split: if_splits)

end
