(* ===== verification/Terminal_Report.thy ===== *)
theory Terminal_Report
  imports Rust_Parse
begin

text \<open>
  Telling the reports the terminal widget writes by itself from the keys a user pressed
  (\<open>src/src/terminal_report.rs\<close>).  One commit of the widget is classified as a whole.
\<close>

datatype terminal_report =
    FocusIn | FocusOut | MouseMotion | MouseButton | MouseWheel | DeviceAttributes | ModeReport
  | ControlString | StatusReport | WindowReport | CursorPosition

definition is_passive :: "terminal_report \<Rightarrow> bool" where
  "is_passive r \<longleftrightarrow> r \<in> {FocusIn, FocusOut, MouseMotion}"

definition is_reply :: "terminal_report \<Rightarrow> bool" where
  "is_reply r \<longleftrightarrow>
     r \<in> {DeviceAttributes, ModeReport, ControlString, StatusReport, WindowReport, CursorPosition}"

text \<open>\<open>slice::strip_suffix\<close> and \<open>split_last\<close>.\<close>

definition strip_suffix :: "'a list \<Rightarrow> 'a list \<Rightarrow> 'a list option" where
  "strip_suffix p xs = (if ends_with xs p then Some (take (length xs - length p) xs) else None)"

definition split_last :: "'a list \<Rightarrow> ('a \<times> 'a list) option" where
  "split_last xs = (if xs = [] then None else Some (last xs, butlast xs))"

text \<open>One non-empty decimal field; the value saturates.\<close>

definition decimal :: "bytes \<Rightarrow> u32 option" where
  "decimal field =
     (if field = [] \<or> \<not> list_all is_ascii_digit field then None
      else Some (of_nat (sat_decimal (2 ^ 32 - 1) field)))"

definition decimal_fields :: "bytes \<Rightarrow> nat option" where
  "decimal_fields params =
     foldM (\<lambda>count field. map_option (\<lambda>_. count + 1) (decimal field)) 0 (split_on 0x3b params)"

text \<open>A range without an upper bound is \<open>1..=usize::MAX\<close>.\<close>

definition fields_in :: "bytes \<Rightarrow> nat \<Rightarrow> nat option \<Rightarrow> bool" where
  "fields_in params least most \<longleftrightarrow>
     (case decimal_fields params of
        Some count \<Rightarrow> least \<le> count \<and> (case most of Some m \<Rightarrow> count \<le> m | None \<Rightarrow> True)
      | None \<Rightarrow> False)"

definition strip_private :: "bytes \<Rightarrow> bytes" where
  "strip_private params = (case strip_prefix [0x3f] params of Some rest \<Rightarrow> rest | None \<Rightarrow> params)"

definition mouse_kind :: "u32 \<Rightarrow> terminal_report" where
  "mouse_kind button =
     (if button AND 32 \<noteq> 0 \<and> button AND 3 = 3 \<and> button < 64 then MouseMotion
      else if button AND 64 \<noteq> 0 then MouseWheel
      else MouseButton)"

definition sgr_mouse :: "bytes \<Rightarrow> terminal_report option" where
  "sgr_mouse params = do {
     (f1, it) \<leftarrow> (case split_on 0x3b params of [] \<Rightarrow> None | f # fs \<Rightarrow> Some (f, fs));
     button \<leftarrow> decimal f1;
     (f2, it) \<leftarrow> (case it of [] \<Rightarrow> None | f # fs \<Rightarrow> Some (f, fs));
     _ \<leftarrow> decimal f2;
     (f3, it) \<leftarrow> (case it of [] \<Rightarrow> None | f # fs \<Rightarrow> Some (f, fs));
     _ \<leftarrow> decimal f3;
     if it \<noteq> [] then None else Some (mouse_kind button)
   }"

definition is_string_body :: "bytes \<Rightarrow> bool" where
  "is_string_body body \<longleftrightarrow> list_all (\<lambda>b. 0x20 \<le> b \<and> b \<noteq> 0x7f) body"

text \<open>The arms of the match, in order; an arm with a guard falls through when the guard fails.\<close>

definition classify_csi :: "bytes \<Rightarrow> bool \<Rightarrow> terminal_report option" where
  "classify_csi csi cpr_outstanding = do {
     (final, head) \<leftarrow> split_last csi;
     if head = [] \<and> final = 0x49 then Some FocusIn
     else if head = [] \<and> final = 0x4f then Some FocusOut
     else if starts_with head [0x3c] \<and> (final = 0x4d \<or> final = 0x6d) then sgr_mouse (tl head)
     else if (starts_with head [0x3f] \<or> starts_with head [0x3e]) \<and> final = 0x63 \<and> fields_in (tl head) 1 None
       then Some DeviceAttributes
     else if ends_with head [0x24] \<and> final = 0x79 \<and> fields_in (strip_private (butlast head)) 2 (Some 2)
       then Some ModeReport
     else if (head = [0x30] \<or> head = [0x33]) \<and> final = 0x6e then Some StatusReport
     else if starts_with head [0x3f] \<and> final = 0x6e \<and> fields_in (tl head) 1 None then Some StatusReport
     else if final = 0x74 \<and> fields_in head 1 (Some 3) then Some WindowReport
     else if starts_with head [0x3f] \<and> final = 0x52 \<and> fields_in (tl head) 2 (Some 3) then Some CursorPosition
     else if head \<noteq> [] \<and> is_ascii_digit (hd head) \<and> final = 0x52 \<and> cpr_outstanding \<and> fields_in head 2 (Some 2)
       then Some CursorPosition
     else None
   }"

definition classify_terminal_report :: "bytes \<Rightarrow> bool \<Rightarrow> terminal_report option" where
  "classify_terminal_report commit cpr_outstanding =
     (case strip_prefix [0x1b, 0x5b] commit of
        Some csi \<Rightarrow> classify_csi csi cpr_outstanding
      | None \<Rightarrow>
        (case strip_prefix [0x1b, 0x50] commit of
           Some body \<Rightarrow> do {
             body \<leftarrow> strip_suffix [0x1b, 0x5c] body;
             if is_string_body body then Some ControlString else None
           }
         | None \<Rightarrow>
           (case strip_prefix [0x1b, 0x5d] commit of
              Some body \<Rightarrow> do {
                body \<leftarrow> (case strip_suffix [0x1b, 0x5c] body of
                    Some b \<Rightarrow> Some b | None \<Rightarrow> strip_suffix [0x07] body);
                if is_string_body body then Some ControlString else None
              }
            | None \<Rightarrow> None)))"

end
