(* ===== verification/Terminal_Report_Properties.thy ===== *)
theory Terminal_Report_Properties
  imports Terminal_Report Rust_Utf8
begin

text \<open>
  The classifier recognises exactly the grammar of the documented reports, and so never takes a key
  press for a report.
\<close>

subsection \<open>The grammar of reports\<close>

definition number :: "bytes \<Rightarrow> bool" where
  "number f \<longleftrightarrow> f \<noteq> [] \<and> list_all is_ascii_digit f"

fun joined :: "bytes list \<Rightarrow> bytes" where
  "joined [] = []"
| "joined [f] = f"
| "joined (f # fs) = f @ 0x3b # joined fs"

inductive report_of :: "bool \<Rightarrow> bytes \<Rightarrow> terminal_report \<Rightarrow> bool" for cpr where
  focus_in: "report_of cpr [0x1b, 0x5b, 0x49] FocusIn"
| focus_out: "report_of cpr [0x1b, 0x5b, 0x4f] FocusOut"
| mouse: "list_all number [b, c, r] \<Longrightarrow> final \<in> {0x4d, 0x6d} \<Longrightarrow>
    report_of cpr ([0x1b, 0x5b, 0x3c] @ joined [b, c, r] @ [final])
      (mouse_kind (of_nat (sat_decimal (2 ^ 32 - 1) b)))"
| device: "list_all number fs \<Longrightarrow> fs \<noteq> [] \<Longrightarrow> mark \<in> {0x3f, 0x3e} \<Longrightarrow>
    report_of cpr ([0x1b, 0x5b, mark] @ joined fs @ [0x63]) DeviceAttributes"
| mode: "list_all number [m, v] \<Longrightarrow> mark \<in> {[], [0x3f]} \<Longrightarrow>
    report_of cpr ([0x1b, 0x5b] @ mark @ joined [m, v] @ [0x24, 0x79]) ModeReport"
| status: "d \<in> {0x30, 0x33} \<Longrightarrow> report_of cpr [0x1b, 0x5b, d, 0x6e] StatusReport"
| private_status: "list_all number fs \<Longrightarrow> fs \<noteq> [] \<Longrightarrow>
    report_of cpr ([0x1b, 0x5b, 0x3f] @ joined fs @ [0x6e]) StatusReport"
| window: "list_all number fs \<Longrightarrow> fs \<noteq> [] \<Longrightarrow> length fs \<le> 3 \<Longrightarrow>
    report_of cpr ([0x1b, 0x5b] @ joined fs @ [0x74]) WindowReport"
| private_position: "list_all number fs \<Longrightarrow> 2 \<le> length fs \<Longrightarrow> length fs \<le> 3 \<Longrightarrow>
    report_of cpr ([0x1b, 0x5b, 0x3f] @ joined fs @ [0x52]) CursorPosition"
| position: "cpr \<Longrightarrow> list_all number [r, c] \<Longrightarrow>
    report_of cpr ([0x1b, 0x5b] @ joined [r, c] @ [0x52]) CursorPosition"
| device_string: "is_string_body body \<Longrightarrow> report_of cpr ([0x1b, 0x50] @ body @ [0x1b, 0x5c]) ControlString"
| system_string: "is_string_body body \<Longrightarrow> terminator \<in> {[0x1b, 0x5c], [0x07]} \<Longrightarrow>
    report_of cpr ([0x1b, 0x5d] @ body @ terminator) ControlString"

subsection \<open>Fields\<close>

lemma split_joined: "fs \<noteq> [] \<Longrightarrow> \<forall>f \<in> set fs. 0x3b \<notin> set f \<Longrightarrow> split_on 0x3b (joined fs) = fs"
proof (induction fs rule: joined.induct)
  case (2 f)
  then show ?case by (simp add: split_on_none)
next
  case (3 f g fs)
  have "split_on 0x3b (xs @ 0x3b # ys) = xs # split_on 0x3b ys" if "0x3b \<notin> set xs" for xs ys :: bytes
    using that by (induction xs) auto
  then show ?case using 3 by simp
qed simp

lemma joined_split: "joined (split_on 0x3b p) = p \<and> split_on 0x3b p \<noteq> []"
proof (induction p)
  case (Cons x p)
  obtain f fs where f: "split_on 0x3b p = f # fs" using Cons by (cases "split_on 0x3b p") auto
  then show ?case using Cons by (cases fs) auto
qed simp

lemma number_free: "number f \<Longrightarrow> 0x3b \<notin> set f"
  by (auto simp: number_def list_all_iff is_ascii_digit_def)

lemma decimal_number: "decimal f = (if number f then Some (of_nat (sat_decimal (2 ^ 32 - 1) f)) else None)"
  by (auto simp: decimal_def number_def)

lemma decimal_fields_split:
  "decimal_fields p = (if list_all number (split_on 0x3b p) then Some (length (split_on 0x3b p)) else None)"
proof -
  have "foldM (\<lambda>count field. map_option (\<lambda>_. count + 1) (decimal field)) n fs =
      (if list_all number fs then Some (n + length fs) else None)" for n fs
    by (induction fs arbitrary: n) (auto simp: decimal_number)
  then show ?thesis by (simp add: decimal_fields_def)
qed

lemma fields_in_joined:
  "fields_in p least most \<longleftrightarrow> (\<exists>fs. p = joined fs \<and> list_all number fs \<and> fs \<noteq> [] \<and> least \<le> length fs \<and>
     (case most of Some m \<Rightarrow> length fs \<le> m | None \<Rightarrow> True))"
proof
  assume "fields_in p least most"
  then show "\<exists>fs. p = joined fs \<and> list_all number fs \<and> fs \<noteq> [] \<and> least \<le> length fs \<and>
     (case most of Some m \<Rightarrow> length fs \<le> m | None \<Rightarrow> True)"
    using joined_split [of p]
    by (intro exI [of _ "split_on 0x3b p"]) (auto simp: fields_in_def decimal_fields_split split: if_splits)
next
  assume "\<exists>fs. p = joined fs \<and> list_all number fs \<and> fs \<noteq> [] \<and> least \<le> length fs \<and>
     (case most of Some m \<Rightarrow> length fs \<le> m | None \<Rightarrow> True)"
  then obtain fs where fs: "p = joined fs" "list_all number fs" "fs \<noteq> []" "least \<le> length fs"
      "case most of Some m \<Rightarrow> length fs \<le> m | None \<Rightarrow> True" by blast
  have "split_on 0x3b p = fs"
    using split_joined [OF fs(3)] fs(1,2) number_free by (simp add: list_all_iff)
  then show "fields_in p least most" using fs by (simp add: fields_in_def decimal_fields_split)
qed

lemma sgr_mouse_joined:
  "sgr_mouse p = Some k \<longleftrightarrow> (\<exists>b c r. p = joined [b, c, r] \<and> list_all number [b, c, r] \<and>
     k = mouse_kind (of_nat (sat_decimal (2 ^ 32 - 1) b)))"
proof
  assume "sgr_mouse p = Some k"
  then have "\<exists>b c r. split_on 0x3b p = [b, c, r] \<and> list_all number [b, c, r] \<and>
     k = mouse_kind (of_nat (sat_decimal (2 ^ 32 - 1) b))"
    by (auto simp: sgr_mouse_def decimal_number bind_eq_Some_conv split: list.splits if_splits)
  then show "\<exists>b c r. p = joined [b, c, r] \<and> list_all number [b, c, r] \<and>
     k = mouse_kind (of_nat (sat_decimal (2 ^ 32 - 1) b))"
    using joined_split [of p] by metis
next
  assume "\<exists>b c r. p = joined [b, c, r] \<and> list_all number [b, c, r] \<and>
     k = mouse_kind (of_nat (sat_decimal (2 ^ 32 - 1) b))"
  then obtain b c r where p: "p = joined [b, c, r]" "list_all number [b, c, r]"
      "k = mouse_kind (of_nat (sat_decimal (2 ^ 32 - 1) b))" by blast
  have "split_on 0x3b p = [b, c, r]"
    unfolding p(1) by (rule split_joined) (use p(2) number_free in auto)
  then show "sgr_mouse p = Some k" using p(2,3) by (simp add: sgr_mouse_def decimal_number)
qed

subsection \<open>Exactness\<close>

lemma split_last_snoc: "split_last (xs @ [x]) = Some (x, xs)"
  by (simp add: split_last_def)

lemma ends_snoc: "ends_with (xs @ [x]) [y] \<longleftrightarrow> x = y" "ends_with ([] :: 'a list) [y] \<longleftrightarrow> False"
  by (auto simp: ends_with_def)

lemma starts_Cons: "starts_with (x # xs) [y] \<longleftrightarrow> x = y" "starts_with [] [y] \<longleftrightarrow> False"
  by (auto simp: starts_with_def)

lemma joined_digit: "list_all number fs \<Longrightarrow> fs \<noteq> [] \<Longrightarrow> joined fs \<noteq> [] \<and> is_ascii_digit (hd (joined fs))"
proof (induction fs rule: joined.induct)
  case (2 f)
  then show ?case by (cases f) (auto simp: number_def)
next
  case (3 f g fs)
  then show ?case by (cases f) (auto simp: number_def)
qed simp

lemma strip_private_cases: "\<exists>mark \<in> {[], [0x3f]}. p = mark @ strip_private p"
proof (cases p)
  case (Cons x xs)
  then show ?thesis by (auto simp: strip_private_def strip_prefix_def)
qed (simp add: strip_private_def strip_prefix_def)

lemma csi_sound:
  assumes "classify_csi (h @ [f]) cpr = Some r"
  shows "report_of cpr ([0x1b, 0x5b] @ h @ [f]) r"
proof -
  have start: "h = x # tl h" if "starts_with h [x]" for x using that by (cases h) (auto simp: starts_Cons)
  consider (1) "h = []" "f = 0x49" "r = FocusIn" | (2) "h = []" "f = 0x4f" "r = FocusOut"
    | (3) "starts_with h [0x3c]" "f \<in> {0x4d, 0x6d}" "sgr_mouse (tl h) = Some r"
    | (4) "starts_with h [0x3f] \<or> starts_with h [0x3e]" "f = 0x63" "fields_in (tl h) 1 None" "r = DeviceAttributes"
    | (5) "ends_with h [0x24]" "f = 0x79" "fields_in (strip_private (butlast h)) 2 (Some 2)" "r = ModeReport"
    | (6) "h = [0x30] \<or> h = [0x33]" "f = 0x6e" "r = StatusReport"
    | (7) "starts_with h [0x3f]" "f = 0x6e" "fields_in (tl h) 1 None" "r = StatusReport"
    | (8) "f = 0x74" "fields_in h 1 (Some 3)" "r = WindowReport"
    | (9) "starts_with h [0x3f]" "f = 0x52" "fields_in (tl h) 2 (Some 3)" "r = CursorPosition"
    | (10) "f = 0x52" "cpr" "fields_in h 2 (Some 2)" "r = CursorPosition"
    using assms by (auto simp: classify_csi_def split_last_snoc split: if_splits)
  then show ?thesis
  proof cases
    case 3
    then obtain b c e where "tl h = joined [b, c, e]" "list_all number [b, c, e]"
        "r = mouse_kind (of_nat (sat_decimal (2 ^ 32 - 1) b))"
      unfolding sgr_mouse_joined by blast
    then show ?thesis using mouse [of b c e f cpr] 3(2) start [OF 3(1)] by simp
  next
    case 4
    then obtain fs where fs: "tl h = joined fs" "list_all number fs" "fs \<noteq> []" unfolding fields_in_joined by blast
    have "\<exists>mark \<in> {0x3f, 0x3e}. h = mark # tl h" using 4(1) start by blast
    then show ?thesis using device [OF fs(2,3)] 4(2,4) fs(1) by (metis append.left_neutral append_Cons)
  next
    case 5
    then obtain fs where fs: "strip_private (butlast h) = joined fs" "list_all number fs" "length fs = 2"
      unfolding fields_in_joined by auto
    then obtain m v where mv: "fs = [m, v]" by (auto simp: length_Suc_conv numeral_2_eq_2)
    have "h = butlast h @ [0x24]"
      using 5(1) by (cases h rule: rev_cases) (auto simp: ends_snoc)
    moreover obtain mark where "mark \<in> {[], [0x3f]}" "butlast h = mark @ joined [m, v]"
      using strip_private_cases [of "butlast h"] fs(1) mv by metis
    ultimately have "h = mark @ joined [m, v] @ [0x24]" and mk: "mark \<in> {[], [0x3f]}" by (metis append.assoc)+
    then show ?thesis using mode [of m v mark cpr] fs(2) mv 5(2,4) by simp
  next
    case 7
    then obtain fs where fs: "tl h = joined fs" "list_all number fs" "fs \<noteq> []" unfolding fields_in_joined by blast
    then show ?thesis using private_status [OF fs(2,3)] 7(2,4) start [OF 7(1)] by simp
  next
    case 8
    then obtain fs where fs: "h = joined fs" "list_all number fs" "fs \<noteq> []" "length fs \<le> 3"
      unfolding fields_in_joined by auto
    then show ?thesis using window [OF fs(2-4)] 8(1,3) by simp
  next
    case 9
    then obtain fs where fs: "tl h = joined fs" "list_all number fs" "2 \<le> length fs" "length fs \<le> 3"
      unfolding fields_in_joined by auto
    then show ?thesis using private_position [OF fs(2-4)] 9(2,4) start [OF 9(1)] by simp
  next
    case 10
    then obtain fs where fs: "h = joined fs" "list_all number fs" "length fs = 2"
      unfolding fields_in_joined by auto
    then obtain a b where "fs = [a, b]" by (auto simp: length_Suc_conv numeral_2_eq_2)
    then show ?thesis using position [OF 10(2), of a b] fs 10(1,4) by simp
  qed (auto intro: report_of.intros)
qed

lemma csi_cases: "classify_terminal_report ([0x1b, 0x5b] @ csi) cpr = classify_csi csi cpr"
  by (simp add: classify_terminal_report_def strip_prefix_def)

lemma report_complete: "report_of cpr bs r \<Longrightarrow> classify_terminal_report bs cpr = Some r"
proof (induction rule: report_of.induct)
  case focus_in
  show ?case by (cases cpr) (code_simp, code_simp)
next
  case focus_out
  show ?case by (cases cpr) (code_simp, code_simp)
next
  case (mouse b c r final)
  have "sgr_mouse (joined [b, c, r]) = Some (mouse_kind (of_nat (sat_decimal (2 ^ 32 - 1) b)))"
    unfolding sgr_mouse_joined using mouse(1) by blast
  then show ?case
    using mouse(2) csi_cases [of "(0x3c # joined [b, c, r]) @ [final]" cpr]
    by (auto simp: classify_csi_def split_last_snoc [of "0x3c # _", simplified] starts_Cons simp del: joined.simps)
next
  case (device fs mark)
  have "fields_in (joined fs) 1 None"
    unfolding fields_in_joined using device(1,2) by (auto simp: Suc_le_eq)
  then show ?case
    using device(3) csi_cases [of "(mark # joined fs) @ [0x63]" cpr]
    by (auto simp: classify_csi_def split_last_snoc [of "_ # _", simplified] starts_Cons)
next
  case (mode m v mark)
  have "fields_in (joined [m, v]) 2 (Some 2)"
    unfolding fields_in_joined using mode(1) by (intro exI [of _ "[m, v]"]) simp
  moreover have "strip_private (mark @ joined [m, v]) = joined [m, v]"
    using mode joined_digit [of "[m, v]"]
    by (cases "joined [m, v]") (auto simp: strip_private_def strip_prefix_def is_ascii_digit_def)
  ultimately have "classify_csi ((mark @ joined [m, v] @ [0x24]) @ [0x79]) cpr = Some ModeReport"
    using ends_snoc(1) [of "mark @ joined [m, v]" "0x24" "0x24"] butlast_snoc [of "mark @ joined [m, v]" "0x24"]
    unfolding classify_csi_def split_last_snoc by (simp del: joined.simps add: butlast_append)
  then show ?case using csi_cases [of "(mark @ joined [m, v] @ [0x24]) @ [0x79]" cpr] by (simp del: joined.simps)
next
  case (status d)
  then show ?case by (cases cpr) (auto, code_simp+)
next
  case (private_status fs)
  have "fields_in (joined fs) 1 None"
    unfolding fields_in_joined using private_status by (auto simp: Suc_le_eq)
  then show ?case
    using csi_cases [of "(0x3f # joined fs) @ [0x6e]" cpr]
    by (auto simp: classify_csi_def split_last_snoc [of "_ # _", simplified] starts_Cons)
next
  case (window fs)
  have "fields_in (joined fs) 1 (Some 3)"
    unfolding fields_in_joined using window by (auto simp: Suc_le_eq)
  then show ?case
    using csi_cases [of "joined fs @ [0x74]" cpr] by (auto simp: classify_csi_def split_last_snoc)
next
  case (private_position fs)
  have "fields_in (joined fs) 2 (Some 3)"
    unfolding fields_in_joined using private_position by (intro exI [of _ fs]) auto
  then show ?case
    using csi_cases [of "(0x3f # joined fs) @ [0x52]" cpr]
    by (auto simp: classify_csi_def split_last_snoc [of "_ # _", simplified] starts_Cons)
next
  case (position r c)
  have "fields_in (joined [r, c]) 2 (Some 2)"
    unfolding fields_in_joined using position(2) by (intro exI [of _ "[r, c]"]) simp
  then show ?case
    using position joined_digit [of "[r, c]"] csi_cases [of "joined [r, c] @ [0x52]" cpr]
    by (auto simp: classify_csi_def split_last_snoc simp del: joined.simps)
next
  case (device_string body)
  have "strip_suffix [0x1b, 0x5c] (body @ [0x1b, 0x5c]) = Some body"
    by (simp add: strip_suffix_def ends_with_def)
  then show ?case using device_string by (simp add: classify_terminal_report_def strip_prefix_def)
next
  case (system_string body terminator)
  have "strip_suffix [0x1b, 0x5c] (body @ [0x07]) = None"
    by (cases body rule: rev_cases) (auto simp: strip_suffix_def ends_with_def)
  moreover have "strip_suffix [0x1b, 0x5c] (body @ [0x1b, 0x5c]) = Some body" "strip_suffix [0x07] (body @ [0x07]) = Some body"
    by (simp_all add: strip_suffix_def ends_with_def)
  ultimately show ?case
    using system_string by (auto simp: classify_terminal_report_def strip_prefix_def)
qed

lemma strip_prefix_Some: "strip_prefix p xs = Some r \<longleftrightarrow> xs = p @ r"
  unfolding strip_prefix_def by (auto simp: append_eq_conv_conj) (metis append_take_drop_id)

lemma strip_suffix_Some: "strip_suffix p xs = Some r \<Longrightarrow> xs = r @ p"
  unfolding strip_suffix_def ends_with_def by (metis append_take_drop_id option.distinct(1) option.inject)

lemma report_sound:
  assumes c: "classify_terminal_report commit cpr = Some r"
  shows "report_of cpr commit r"
proof (cases "strip_prefix [0x1b, 0x5b] commit")
  case (Some csi)
  then have csi: "commit = [0x1b, 0x5b] @ csi" by (simp only: strip_prefix_Some)
  then have "classify_csi csi cpr = Some r" using c csi_cases by simp
  moreover obtain h f where "csi = h @ [f]"
    using calculation by (cases csi rule: rev_cases) (auto simp: classify_csi_def split_last_def)
  ultimately show ?thesis using csi_sound csi by simp
next
  case None
  note csi = None
  show ?thesis
  proof (cases "strip_prefix [0x1b, 0x50] commit")
    case (Some rest)
    then obtain body where "strip_suffix [0x1b, 0x5c] rest = Some body" "is_string_body body" "r = ControlString"
      using c csi by (auto simp: classify_terminal_report_def bind_eq_Some_conv split: if_splits)
    moreover have "commit = [0x1b, 0x50] @ rest" using Some by (simp only: strip_prefix_Some)
    ultimately show ?thesis using device_string [of body cpr] strip_suffix_Some [of "[0x1b, 0x5c]" rest body] by simp
  next
    case None
    then obtain rest where rest: "strip_prefix [0x1b, 0x5d] commit = Some rest"
      using c csi by (auto simp: classify_terminal_report_def split: option.splits)
    then obtain body where b: "strip_suffix [0x1b, 0x5c] rest = Some body \<or> strip_suffix [0x07] rest = Some body"
        "is_string_body body" "r = ControlString"
      using c csi None by (auto simp: classify_terminal_report_def bind_eq_Some_conv split: if_splits option.splits)
    then obtain t where "rest = body @ t" "t \<in> {[0x1b, 0x5c], [0x07]}" using strip_suffix_Some by blast
    moreover have "commit = [0x1b, 0x5d] @ rest" using rest by (simp only: strip_prefix_Some)
    ultimately show ?thesis using system_string [OF b(2), of t cpr] b(3) by simp
  qed
qed

text \<open>
  C34: A commit of the widget is classified as a report exactly if it is, as a whole, one of the
  documented reports, and then as that report; a cursor position in the shape of a modified F3 counts
  only while a query is outstanding.
\<close>

theorem reports_exact: "classify_terminal_report commit cpr = Some r \<longleftrightarrow> report_of cpr commit r"
  using report_sound report_complete by blast

text \<open>
  The commits of key presses: text, controls, Alt with a character, application keys (everything that
  does not open a control sequence or string), Alt with one of the opening characters, and the control
  sequences of the editing, arrow and function keys, of pastes and of the kitty protocol.  Modified F3
  ends in \<open>R\<close> and is a key when no cursor position is owed.
\<close>

definition key_press :: "bool \<Rightarrow> bytes \<Rightarrow> bool" where
  "key_press cpr bs \<longleftrightarrow>
     take 2 bs \<notin> {[0x1b, 0x5b], [0x1b, 0x50], [0x1b, 0x5d]} \<or>
     bs \<in> {[0x1b, 0x5b], [0x1b, 0x50], [0x1b, 0x5d]} \<or>
     (\<exists>h f. bs = [0x1b, 0x5b] @ h @ [f] \<and>
       (f \<in> {0x41, 0x42, 0x43, 0x44, 0x45, 0x46, 0x47, 0x48, 0x50, 0x51, 0x53, 0x5a, 0x7e, 0x75} \<or>
        (f = 0x52 \<and> \<not> cpr \<and> (h = [] \<or> is_ascii_digit (hd h)))))"

lemma csi_report_final:
  assumes "report_of cpr ([0x1b, 0x5b] @ h @ [f]) r"
  shows "f \<in> {0x49, 0x4f, 0x4d, 0x6d, 0x63, 0x79, 0x6e, 0x74} \<or> (f = 0x52 \<and> (cpr \<or> (h \<noteq> [] \<and> hd h = 0x3f)))"
proof -
  have "classify_csi (h @ [f]) cpr = Some r"
    using report_complete [OF assms] csi_cases by simp
  then show ?thesis
    by (cases h) (auto simp: classify_csi_def split_last_snoc starts_Cons split_last_def split: if_splits)
qed

text \<open>No key press is ever taken for a report, whatever the widget owes.\<close>

theorem keys_are_not_reports:
  assumes "key_press cpr bs"
  shows "classify_terminal_report bs cpr = None"
proof (rule ccontr)
  assume "classify_terminal_report bs cpr \<noteq> None"
  then obtain r where r: "report_of cpr bs r" using report_sound by blast
  have "take 2 bs \<in> {[0x1b, 0x5b], [0x1b, 0x50], [0x1b, 0x5d]} \<and> 2 < length bs"
    using r by (cases rule: report_of.cases) auto
  then obtain h f where b: "bs = [0x1b, 0x5b] @ h @ [f]"
      "f \<in> {0x41, 0x42, 0x43, 0x44, 0x45, 0x46, 0x47, 0x48, 0x50, 0x51, 0x53, 0x5a, 0x7e, 0x75} \<or>
        (f = 0x52 \<and> \<not> cpr \<and> (h = [] \<or> is_ascii_digit (hd h)))"
    using assms by (auto simp: key_press_def)
  then show False using csi_report_final [of cpr h f r] r by (auto simp: is_ascii_digit_def)
qed

theorem keys_are_not_reports_witness:
  "classify_terminal_report [0x1b, 0x5b, 0x31, 0x3b, 0x32, 0x52] False = None"
  by (rule keys_are_not_reports) (auto simp: key_press_def is_ascii_digit_def intro!: exI [of _ "[0x31, 0x3b, 0x32]"])

end
