(* ===== verification/Workspace_Query.thy ===== *)
theory Workspace_Query
  imports Agent_Queue Dashboard_Query "HOL-Library.Product_Lexorder"
begin

text \<open>
  The query language of the workspace, \<open>src/src/agent_workspace/query.rs\<close>, and the filter of
  \<open>model.rs\<close>.  Tokens and the values of task fields are those of the dashboard.  \<open>lower\<close> stands for
  \<open>str::to_lowercase\<close> and \<open>from_json4\<close> for the reader of \<open>serde_json\<close> for four texts.
\<close>

definition WORKSPACE_QUERY_MAX_BYTES :: nat where "WORKSPACE_QUERY_MAX_BYTES = 4096"

definition WORKSPACE_MAX_TERMS :: nat where "WORKSPACE_MAX_TERMS = 64"

datatype workspace_sort = SortByRelevance | SortByRecent | SortByOldest | SortByPinned | SortByAttention

definition workspace_sort_label :: "workspace_sort \<Rightarrow> str" where
  "workspace_sort_label s =
     (case s of
        SortByRelevance \<Rightarrow> lit ''Best match'' | SortByRecent \<Rightarrow> lit ''Recent first''
      | SortByOldest \<Rightarrow> lit ''Oldest first'' | SortByPinned \<Rightarrow> lit ''Pinned first''
      | SortByAttention \<Rightarrow> lit ''Needs you first'')"

subsection \<open>Fields\<close>

datatype workspace_field = WfText | WfBody | WfTitle | WfProject | WfBranch | WfId | WfProvider | WfKind
  | WfTag | WfStatus | WfRuntime | WfValidation | WfAttention | WfIs

definition workspace_field_parse :: "str \<Rightarrow> workspace_field option" where
  "workspace_field_parse name =
     (let v = ascii_lowercase name
      in if v = lit ''title'' \<or> v = lit ''name'' then Some WfTitle
         else if v = lit ''project'' \<or> v = lit ''cwd'' \<or> v = lit ''repo'' \<or> v = lit ''workspace'' then Some WfProject
         else if v = lit ''branch'' then Some WfBranch
         else if v = lit ''id'' then Some WfId
         else if v = lit ''provider'' then Some WfProvider
         else if v = lit ''kind'' \<or> v = lit ''type'' then Some WfKind
         else if v = lit ''tag'' then Some WfTag
         else if v = lit ''status'' \<or> v = lit ''state'' then Some WfStatus
         else if v = lit ''runtime'' then Some WfRuntime
         else if v = lit ''validation'' then Some WfValidation
         else if v = lit ''attention'' then Some WfAttention
         else if v = lit ''is'' then Some WfIs
         else if v = lit ''body'' \<or> v = lit ''content'' then Some WfBody
         else None)"

definition has_alternatives :: "workspace_field \<Rightarrow> bool" where
  "has_alternatives f \<longleftrightarrow> f \<in> {WfProvider, WfKind, WfStatus, WfRuntime, WfValidation, WfAttention, WfIs}"

definition workspace_attention_parse :: "str \<Rightarrow> workspace_attention option" where
  "workspace_attention_parse v =
     (if v = lit ''reply'' then Some WaReply
      else List.find (\<lambda>k. workspace_attention_value k = v) workspace_attentions)"

definition runtime_state_parse :: "str \<Rightarrow> runtime_state option" where
  "runtime_state_parse v =
     (if v = lit ''idle'' then Some Idle
      else if v = lit ''starting'' then Some Starting
      else if v = lit ''running'' \<or> v = lit ''detached'' then Some Running
      else if v = lit ''attached'' then Some Attached
      else if v = lit ''stopping'' then Some Stopping
      else if v = lit ''exited'' then Some Exited
      else if v = lit ''failed'' then Some Failed
      else if v = lit ''conflict'' then Some Conflict
      else None)"

definition workspace_field_accepts :: "workspace_field \<Rightarrow> str \<Rightarrow> bool" where
  "workspace_field_accepts f v \<longleftrightarrow>
     (case f of
        WfKind \<Rightarrow> v \<in> set (map lit [''api'', ''chat'', ''cli'', ''terminal'', ''task'', ''native''])
      | WfStatus \<Rightarrow> query_status v \<noteq> None \<or>
          v \<in> set (map lit [''waiting'', ''idle'', ''unknown'', ''running'', ''stopping'', ''interrupted''])
      | WfRuntime \<Rightarrow> query_runtime v \<noteq> None \<or> runtime_state_parse v \<noteq> None
      | WfValidation \<Rightarrow> query_validation v \<noteq> None
      | WfAttention \<Rightarrow> workspace_attention_parse v \<noteq> None \<or> v = lit ''none''
      | WfIs \<Rightarrow> v \<in> set (map lit [''live'', ''running'', ''pinned'', ''archived'', ''attention'', ''needs-you'',
          ''interrupted'', ''preparing'', ''agent-stream'', ''validation-running'', ''not-started'', ''review'',
          ''finished''])
      | _ \<Rightarrow> v \<noteq> [])"

subsection \<open>Parsing\<close>

record workspace_term =
  wt_field :: workspace_field
  wt_values :: "str list"
  wt_absolute_project :: "str list option"
  wt_negated :: bool

type_synonym workspace_query = "workspace_term list"

definition workspace_token_field :: "query_token \<Rightarrow> str + (workspace_field \<times> str)" where
  "workspace_token_field tok =
     (if tk_literal tok then Inr (WfText, tk_value tok)
      else (case split_once 0x3a (tk_value tok) of
              Some (name, value) \<Rightarrow>
                (case workspace_field_parse name of
                   Some f \<Rightarrow> Inr (f, value)
                 | None \<Rightarrow>
                     if address_like name value then Inr (WfText, tk_value tok)
                     else Inl (lit ''Unknown workspace filter '' @ [0x27] @ name @ [0x27] @
                       lit ''. Use title:, project:, branch:, id:, provider:, kind:, tag:, status:, runtime:, validation:, attention:, is: or body:. Quote literal text containing a colon.''))
            | None \<Rightarrow> Inr (WfText, tk_value tok)))"

definition workspace_token_term :: "(str \<Rightarrow> str) \<Rightarrow> query_token \<Rightarrow> str + workspace_term" where
  "workspace_token_term lower tok =
     (case workspace_token_field tok of
        Inl e \<Rightarrow> Inl e
      | Inr (f, value) \<Rightarrow>
          (let project = (if f = WfProject then normalized_absolute value else None);
               values = (if has_alternatives f then map normalize_value (split_on 0x2c value) else [lower value])
           in if list_ex (\<lambda>v. v = [] \<or> \<not> workspace_field_accepts f v) values
              then Inl (lit ''Invalid or empty workspace filter '' @ [0x27] @ tk_value tok @ [0x27, 0x2e])
              else Inr \<lparr>wt_field = f, wt_values = values, wt_absolute_project = project,
                     wt_negated = tk_negated tok\<rparr>))"

fun collect_workspace_terms :: "(str \<Rightarrow> str) \<Rightarrow> query_token list \<Rightarrow> str + workspace_term list" where
  "collect_workspace_terms lower [] = Inr []"
| "collect_workspace_terms lower (tok # toks) =
     (case workspace_token_term lower tok of
        Inl e \<Rightarrow> Inl e
      | Inr t \<Rightarrow> (case collect_workspace_terms lower toks of Inl e \<Rightarrow> Inl e | Inr ts \<Rightarrow> Inr (t # ts)))"

definition workspace_parse :: "(u32 \<Rightarrow> bool) \<Rightarrow> (str \<Rightarrow> str) \<Rightarrow> str \<Rightarrow> str + workspace_query" where
  "workspace_parse invisible lower s =
     (if WORKSPACE_QUERY_MAX_BYTES < str_len s
      then Inl (lit ''Workspace search is limited to '' @ nat_text WORKSPACE_QUERY_MAX_BYTES @ lit '' bytes.'')
      else if list_ex (\<lambda>c. \<not> (c = 0x09 \<or> c = 0x0a \<or> c = 0x0d) \<and> (is_control c \<or> invisible c)) s
      then Inl (lit ''Remove hidden control or direction-changing characters from the search.'')
      else (case tokenize_loop WORKSPACE_MAX_TERMS [] (str_trim s) of
              Inl e \<Rightarrow> Inl e
            | Inr toks \<Rightarrow> collect_workspace_terms lower toks))"

definition plain_terms :: "workspace_query \<Rightarrow> str list" where
  "plain_terms q = concat (map wt_values (filter (\<lambda>t. wt_field t = WfText \<and> \<not> wt_negated t) q))"

definition includes_archived :: "workspace_query \<Rightarrow> bool" where
  "includes_archived q \<longleftrightarrow> list_ex (\<lambda>t. \<not> wt_negated t \<and> (wt_field t = WfIs \<or> wt_field t = WfStatus) \<and>
     lit ''archived'' \<in> set (wt_values t)) q"

subsection \<open>Matching\<close>

record workspace_text =
  xt_id :: str
  xt_native_id :: "str option"
  xt_title :: str
  xt_provider :: str
  xt_cwd :: str
  xt_directory :: "str list option"
  xt_branch :: str
  xt_preview :: str
  xt_tags :: "str list"

definition workspace_text_new ::
  "(str \<Rightarrow> str) \<Rightarrow> (str \<Rightarrow> (str \<times> str \<times> str \<times> str) option) \<Rightarrow> workspace_row \<Rightarrow> workspace_text" where
  "workspace_text_new lower from_json4 r =
     \<lparr>xt_id = lower (row_id r),
      xt_native_id = map_option (\<lambda>(_, _, _, i). lower i) (strip_prefix (lit ''jterm:cli:v1:'') (row_id r) \<bind> from_json4),
      xt_title = lower (row_title r), xt_provider = lower (row_provider r), xt_cwd = lower (row_cwd r),
      xt_directory = normalized_absolute (row_cwd r),
      xt_branch = lower (case f_branch (row_facts r) of Some b \<Rightarrow> b | None \<Rightarrow> []),
      xt_preview = lower (row_preview r), xt_tags = map lower (row_tags r)\<rparr>"

definition workspace_text_fields :: "workspace_text \<Rightarrow> str list" where
  "workspace_text_fields t = [xt_id t, xt_title t, xt_provider t, xt_cwd t, xt_branch t, xt_preview t] @ xt_tags t"

definition matches_status :: "workspace_row \<Rightarrow> str \<Rightarrow> bool" where
  "matches_status r v \<longleftrightarrow>
     (case f_task_status (row_facts r) of
        Some s \<Rightarrow> query_status v = Some s
      | None \<Rightarrow>
        (case f_api_state (row_facts r) of
           Some ApiStarting \<Rightarrow> v = lit ''starting''
         | Some ApiRunning \<Rightarrow> v = lit ''running'' \<or> v = lit ''working''
         | Some ApiStopping \<Rightarrow> v = lit ''stopping''
         | Some ApiCompleted \<Rightarrow> v = lit ''completed'' \<or> v = lit ''done'' \<or> v = lit ''idle''
         | Some ApiCancelled \<Rightarrow> v = lit ''cancelled'' \<or> v = lit ''canceled''
         | Some ApiFailed \<Rightarrow> v = lit ''failed''
         | Some ApiInterrupted \<Rightarrow> v = lit ''interrupted''
         | None \<Rightarrow>
           (case f_recorded_status (row_facts r) of
              Some SessWorking \<Rightarrow> v = lit ''working''
            | Some SessWaiting \<Rightarrow> v = lit ''waiting'' \<or> v = lit ''input'' \<or> v = lit ''waiting-for-human''
            | Some SessIdle \<Rightarrow> v = lit ''idle''
            | Some SessUnknown \<Rightarrow> v = lit ''unknown''
            | Some SessArchived \<Rightarrow> v = lit ''archived''
            | None \<Rightarrow> False)))"

definition matches_kind :: "workspace_row \<Rightarrow> str \<Rightarrow> bool" where
  "matches_kind r v \<longleftrightarrow>
     (if v = lit ''api'' \<or> v = lit ''chat'' then row_kind r = Api
      else if v = lit ''cli'' \<or> v = lit ''terminal'' then row_kind r = Cli
      else if v = lit ''task'' \<or> v = lit ''native'' then row_kind r = Task
      else False)"

definition row_finished :: "workspace_row \<Rightarrow> bool" where
  "row_finished r \<longleftrightarrow>
     f_task_status (row_facts r) \<in> {Some TsCompleted, Some TsFailed, Some TsCancelled} \<or>
     f_api_state (row_facts r) \<in> {Some ApiCompleted, Some ApiCancelled, Some ApiFailed} \<or>
     row_runtime r = Exited"

definition matches_is :: "workspace_row \<Rightarrow> str \<Rightarrow> bool" where
  "matches_is r v \<longleftrightarrow>
     (if v = lit ''live'' \<or> v = lit ''running'' then is_live (row_runtime r)
      else if v = lit ''pinned'' then row_pinned r
      else if v = lit ''archived'' then row_archived r
      else if v = lit ''attention'' \<or> v = lit ''needs-you'' then row_attention r \<noteq> None
      else if v = lit ''interrupted'' then f_interrupted (row_facts r)
      else if v = lit ''preparing'' then f_preparing (row_facts r) \<or> row_runtime r = Starting
      else if v = lit ''agent-stream'' then f_agent_stream (row_facts r)
      else if v = lit ''validation-running'' then f_validation_status (row_facts r) = Some VsRunning
      else if v = lit ''not-started'' then f_task_status (row_facts r) = Some TsCreated
      else if v = lit ''review'' then f_task_status (row_facts r) = Some TsReadyForReview
      else if v = lit ''finished'' then row_finished r
      else False)"

definition workspace_value_matches ::
  "workspace_row \<Rightarrow> workspace_text \<Rightarrow> str option \<Rightarrow> workspace_term \<Rightarrow> str \<Rightarrow> bool" where
  "workspace_value_matches r t body term v \<longleftrightarrow>
     (case wt_field term of
        WfText \<Rightarrow> list_ex (\<lambda>field. str_contains field v) (workspace_text_fields t) \<or>
          (case body of Some b \<Rightarrow> str_contains b v | None \<Rightarrow> False)
      | WfBody \<Rightarrow> (case body of Some b \<Rightarrow> str_contains b v | None \<Rightarrow> False)
      | WfTitle \<Rightarrow> str_contains (xt_title t) v
      | WfProject \<Rightarrow>
          (case wt_absolute_project term of
             Some path \<Rightarrow> (case xt_directory t of Some d \<Rightarrow> starts_with d path | None \<Rightarrow> False)
           | None \<Rightarrow> str_contains (xt_cwd t) v)
      | WfBranch \<Rightarrow> str_contains (xt_branch t) v
      | WfId \<Rightarrow> str_contains (xt_id t) v
      | WfProvider \<Rightarrow> xt_provider t = v \<or> (v = lit ''open-code'' \<and> xt_provider t = lit ''opencode'')
      | WfKind \<Rightarrow> matches_kind r v
      | WfTag \<Rightarrow> v \<in> set (xt_tags t)
      | WfStatus \<Rightarrow> matches_status r v
      | WfRuntime \<Rightarrow> runtime_state_parse v = Some (row_runtime r) \<or>
          (f_task_runtime (row_facts r) \<noteq> None \<and> query_runtime v = f_task_runtime (row_facts r))
      | WfValidation \<Rightarrow> f_validation_status (row_facts r) \<noteq> None \<and>
          query_validation v = f_validation_status (row_facts r)
      | WfAttention \<Rightarrow>
          if v = lit ''none'' then row_attention r = None
          else (case workspace_attention_parse v of Some a \<Rightarrow> row_attention r = Some a | None \<Rightarrow> False)
      | WfIs \<Rightarrow> matches_is r v)"

definition matches_text :: "workspace_query \<Rightarrow> workspace_row \<Rightarrow> workspace_text \<Rightarrow> str option \<Rightarrow> bool" where
  "matches_text q r t body \<longleftrightarrow>
     list_all (\<lambda>term. list_ex (workspace_value_matches r t body term) (wt_values term) \<noteq> wt_negated term) q"

definition workspace_matches ::
  "(str \<Rightarrow> str) \<Rightarrow> (str \<Rightarrow> (str \<times> str \<times> str \<times> str) option) \<Rightarrow> workspace_query \<Rightarrow> workspace_row \<Rightarrow> bool" where
  "workspace_matches lower from_json4 q r \<longleftrightarrow> matches_text q r (workspace_text_new lower from_json4 r) None"

definition matches_document ::
  "(str \<Rightarrow> str) \<Rightarrow> (str \<Rightarrow> (str \<times> str \<times> str \<times> str) option) \<Rightarrow> workspace_query \<Rightarrow> workspace_row \<Rightarrow> str \<Rightarrow> bool" where
  "matches_document lower from_json4 q r body \<longleftrightarrow>
     matches_text q r (workspace_text_new lower from_json4 r) (Some (lower body))"

text \<open>\<open>WorkspaceRow::matches\<close>: a query that does not parse matches nothing.\<close>

definition row_matches ::
  "(u32 \<Rightarrow> bool) \<Rightarrow> (str \<Rightarrow> str) \<Rightarrow> (str \<Rightarrow> (str \<times> str \<times> str \<times> str) option) \<Rightarrow> workspace_row \<Rightarrow> str \<Rightarrow> bool" where
  "row_matches invisible lower from_json4 r s \<longleftrightarrow>
     (case workspace_parse invisible lower s of Inl _ \<Rightarrow> False | Inr q \<Rightarrow> workspace_matches lower from_json4 q r)"

subsection \<open>Scores and the index\<close>

definition value_score :: "workspace_text \<Rightarrow> workspace_field \<Rightarrow> str \<Rightarrow> nat" where
  "value_score t f v =
     (if (f = WfId \<or> f = WfText) \<and> (xt_id t = v \<or> xt_native_id t = Some v) then 1000000
      else if (f = WfTitle \<or> f = WfText) \<and> xt_title t = v then 100000
      else if (f = WfTitle \<or> f = WfText) \<and> starts_with (xt_title t) v then 10000
      else if (f = WfTitle \<or> f = WfText) \<and> str_contains (xt_title t) v then 1000
      else if f = WfText \<and> (str_contains (xt_cwd t) v \<or> str_contains (xt_branch t) v) then 100
      else 0)"

definition query_score :: "workspace_query \<Rightarrow> workspace_text \<Rightarrow> nat" where
  "query_score q t =
     sum_list (map (\<lambda>term. foldl max 0 (map (value_score t (wt_field term)) (wt_values term)))
       (filter (\<lambda>term. \<not> wt_negated term) q))"

record workspace_index =
  wi_rows :: "workspace_row list"
  wi_text :: "workspace_text list"

definition workspace_index_new ::
  "(str \<Rightarrow> str) \<Rightarrow> (str \<Rightarrow> (str \<times> str \<times> str \<times> str) option) \<Rightarrow> workspace_row list \<Rightarrow> workspace_index" where
  "workspace_index_new lower from_json4 rows =
     \<lparr>wi_rows = rows, wi_text = map (workspace_text_new lower from_json4) rows\<rparr>"

text \<open>
  The comparison of the sort as a key: the order of the sort, then the time, latest first, then the
  identity by its bytes.  A descending number is its negation.
\<close>

type_synonym workspace_sort_key = "int \<times> int \<times> nat list"

definition order_key :: "workspace_sort \<Rightarrow> bool \<Rightarrow> nat \<Rightarrow> workspace_row \<Rightarrow> int" where
  "order_key s no_terms score r =
     (case s of
        SortByRelevance \<Rightarrow> if \<not> no_terms then - int score else (if row_pinned r then 0 else 1)
      | SortByPinned \<Rightarrow> if row_pinned r then 0 else 1
      | SortByAttention \<Rightarrow> if row_attention r \<noteq> None then 0 else 1
      | SortByOldest \<Rightarrow> int (unat (row_updated_ms r))
      | SortByRecent \<Rightarrow> - int (unat (row_updated_ms r)))"

definition workspace_key :: "workspace_sort \<Rightarrow> bool \<Rightarrow> nat \<Rightarrow> workspace_row \<Rightarrow> workspace_sort_key" where
  "workspace_key s no_terms score r =
     (order_key s no_terms score r, - int (unat (row_updated_ms r)), map unat (str_bytes (row_id r)))"

definition index_query :: "workspace_index \<Rightarrow> workspace_query \<Rightarrow> workspace_sort \<Rightarrow> nat list" where
  "index_query idx q s =
     (let hits = map (\<lambda>(i, r, t). (i, query_score q t))
            (filter (\<lambda>(i, r, t). matches_text q r t None)
              (zip [0..<length (wi_rows idx)] (zip (wi_rows idx) (wi_text idx))))
      in map fst (sort_key (\<lambda>(i, score). workspace_key s (q = []) score (wi_rows idx ! i)) hits))"

record workspace_filter =
  wf_query :: str
  wf_kind :: "conversation_kind option"
  wf_include_archived :: bool
  wf_live_only :: bool

definition filter_scope :: "workspace_filter \<Rightarrow> workspace_query \<Rightarrow> workspace_row \<Rightarrow> bool" where
  "filter_scope f q r \<longleftrightarrow>
     (wf_include_archived f \<or> includes_archived q \<or> \<not> row_archived r) \<and>
     (case wf_kind f of Some k \<Rightarrow> row_kind r = k | None \<Rightarrow> True) \<and>
     (wf_live_only f \<longrightarrow> is_live (row_runtime r))"

definition index_project ::
  "(u32 \<Rightarrow> bool) \<Rightarrow> (str \<Rightarrow> str) \<Rightarrow> workspace_index \<Rightarrow> workspace_filter \<Rightarrow> workspace_sort \<Rightarrow> str + workspace_row list" where
  "index_project invisible lower idx f s =
     (case workspace_parse invisible lower (wf_query f) of
        Inl e \<Rightarrow> Inl e
      | Inr q \<Rightarrow> Inr (filter (filter_scope f q) (map (\<lambda>i. wi_rows idx ! i) (index_query idx q s))))"

text \<open>\<open>WorkspaceFilter::project_checked\<close>: pinned rows first, then the latest, then by identity.\<close>

definition project_checked ::
  "(u32 \<Rightarrow> bool) \<Rightarrow> (str \<Rightarrow> str) \<Rightarrow> (str \<Rightarrow> (str \<times> str \<times> str \<times> str) option) \<Rightarrow> workspace_filter \<Rightarrow>
     workspace_row list \<Rightarrow> str + workspace_row list" where
  "project_checked invisible lower from_json4 f rows =
     (case workspace_parse invisible lower (wf_query f) of
        Inl e \<Rightarrow> Inl e
      | Inr q \<Rightarrow>
          Inr (sort_key (\<lambda>r. (if row_pinned r then 0 else 1 :: int, - int (unat (row_updated_ms r)),
                 map unat (str_bytes (row_id r))))
            (filter (\<lambda>r. filter_scope f q r \<and> workspace_matches lower from_json4 q r) rows)))"

definition filter_project ::
  "(u32 \<Rightarrow> bool) \<Rightarrow> (str \<Rightarrow> str) \<Rightarrow> (str \<Rightarrow> (str \<times> str \<times> str \<times> str) option) \<Rightarrow> workspace_filter \<Rightarrow>
     workspace_row list \<Rightarrow> workspace_row list" where
  "filter_project invisible lower from_json4 f rows =
     (case project_checked invisible lower from_json4 f rows of Inl _ \<Rightarrow> [] | Inr rs \<Rightarrow> rs)"

definition filter_query_error :: "(u32 \<Rightarrow> bool) \<Rightarrow> (str \<Rightarrow> str) \<Rightarrow> workspace_filter \<Rightarrow> str option" where
  "filter_query_error invisible lower f =
     (case workspace_parse invisible lower (wf_query f) of Inl e \<Rightarrow> Some e | Inr _ \<Rightarrow> None)"

end
