(* ===== verification/Workspace_Properties.thy ===== *)
theory Workspace_Properties
  imports Workspace_Query Dashboard_Facts
begin

text \<open>
  The workspace against its own index, its counts and the task dashboard: the cached index gives the
  rows a fresh filter gives, the overview counts what the rows show, and the filters the two query
  languages share select the same tasks.
\<close>

subsection \<open>The index\<close>

lemma map_insort_key: "map g (insort_key (\<lambda>x. k (g x)) y xs) = insort_key k (g y) (map g xs)"
  by (induction xs) simp_all

lemma map_sort_key: "map g (sort_key (\<lambda>x. k (g x)) xs) = sort_key k (map g xs)"
  by (induction xs) (simp_all add: map_insort_key)

lemma sort_key_cong: "(\<And>x. x \<in> set xs \<Longrightarrow> f x = g x) \<Longrightarrow> sort_key f xs = sort_key g xs"
proof (induction xs)
  case (Cons x xs)
  have "insort_key f x ys = insort_key g x ys" if "set ys \<subseteq> set (x # xs)" for ys
    using that Cons.prems by (induction ys) auto
  with Cons show ?case by (simp add: subset_insertI)
qed simp

text \<open>Filtering the numbered rows and reading them back is filtering the rows.\<close>

lemma numbered_filter:
  "map (\<lambda>(i, r, t). (xs ! i, r, t)) (filter (\<lambda>(i, r, t). P r t)
     (zip [0..<length xs] (zip xs (map g xs)))) = map (\<lambda>r. (r, r, g r)) (filter (\<lambda>r. P r (g r)) xs)"
proof -
  have "map (\<lambda>(i, r, t). (xs ! i, r, t)) (filter (\<lambda>(i, r, t). P r t)
      (zip [m..<length xs] (zip (drop m xs) (map g (drop m xs))))) =
    map (\<lambda>r. (r, r, g r)) (filter (\<lambda>r. P r (g r)) (drop m xs))" if "m \<le> length xs" for m
    using that
  proof (induction m rule: inc_induct)
    case (step m)
    then show ?case by (simp add: Cons_nth_drop_Suc[symmetric] upt_conv_Cons)
  qed simp
  from this[of 0] show ?thesis by simp
qed

lemma index_query_rows:
  "map (\<lambda>i. rows ! i) (index_query (workspace_index_new lower from_json4 rows) q s) =
   sort_key (\<lambda>r. workspace_key s (q = []) (query_score q (workspace_text_new lower from_json4 r)) r)
     (filter (workspace_matches lower from_json4 q) rows)"
proof -
  let ?t = "workspace_text_new lower from_json4"
  define hits where "hits = filter (\<lambda>(i, r, t). matches_text q r t None)
    (zip [0..<length rows] (zip rows (map ?t rows)))"
  have at: "rows ! i = r \<and> t = ?t r" if "(i, r, t) \<in> set hits" for i r t
    using that by (auto simp: hits_def set_zip)
  have "map (\<lambda>(i, r, t). (rows ! i, r, t)) hits =
      map (\<lambda>r. (r, r, ?t r)) (filter (\<lambda>r. matches_text q r (?t r) None) rows)"
    unfolding hits_def by (rule numbered_filter)
  from arg_cong[OF this, of "map fst"]
  have rows: "map (\<lambda>x. rows ! fst x) hits = filter (workspace_matches lower from_json4 q) rows"
    by (simp add: o_def case_prod_beta workspace_matches_def[abs_def])
  have "map (\<lambda>i. rows ! i) (index_query (workspace_index_new lower from_json4 rows) q s) =
      map (\<lambda>(i, sc). rows ! i) (sort_key (\<lambda>(i, sc). workspace_key s (q = []) sc (rows ! i))
        (map (\<lambda>(i, r, t). (i, query_score q t)) hits))"
    by (simp add: index_query_def workspace_index_new_def hits_def o_def case_prod_beta)
  also have "sort_key (\<lambda>(i, sc). workspace_key s (q = []) sc (rows ! i))
      (map (\<lambda>(i, r, t). (i, query_score q t)) hits) =
    map (\<lambda>(i, r, t). (i, query_score q t))
      (sort_key (\<lambda>(i, r, t). workspace_key s (q = []) (query_score q t) (rows ! i)) hits)"
    by (subst map_sort_key[symmetric]) (simp add: case_prod_unfold)
  also have "sort_key (\<lambda>(i, r, t). workspace_key s (q = []) (query_score q t) (rows ! i)) hits =
      sort_key (\<lambda>x. workspace_key s (q = []) (query_score q (?t (rows ! fst x))) (rows ! fst x)) hits"
    by (rule sort_key_cong) (auto dest: at)
  also have "map (\<lambda>(i, sc). rows ! i) (map (\<lambda>(i, r, t). (i, query_score q t)) \<dots>) =
      map (\<lambda>x. rows ! fst x)
       (sort_key (\<lambda>x. workspace_key s (q = []) (query_score q (?t (rows ! fst x))) (rows ! fst x)) hits)"
    by (simp add: o_def case_prod_beta)
  also have "\<dots> = sort_key (\<lambda>r. workspace_key s (q = []) (query_score q (?t r)) r) (map (\<lambda>x. rows ! fst x) hits)"
    by (rule map_sort_key)
  also have "map (\<lambda>x. rows ! fst x) hits = filter (workspace_matches lower from_json4 q) rows"
    by (rule rows)
  finally show ?thesis .
qed

lemma index_project_rows:
  "index_project invisible lower (workspace_index_new lower from_json4 rows) f s =
   (case workspace_parse invisible lower (wf_query f) of
      Inl e \<Rightarrow> Inl e
    | Inr q \<Rightarrow> Inr (sort_key
        (\<lambda>r. workspace_key s (q = []) (query_score q (workspace_text_new lower from_json4 r)) r)
        (filter (\<lambda>r. filter_scope f q r \<and> workspace_matches lower from_json4 q r) rows)))"
proof (cases "workspace_parse invisible lower (wf_query f)")
  case (Inr q)
  have "index_project invisible lower (workspace_index_new lower from_json4 rows) f s =
      Inr (filter (filter_scope f q) (map (\<lambda>i. rows ! i) (index_query (workspace_index_new lower from_json4 rows) q s)))"
    by (simp add: index_project_def Inr workspace_index_new_def)
  then show ?thesis
    by (simp add: index_query_rows Inr filter_sort conj_commute)
qed (simp add: index_project_def)

lemma pinned_key: "workspace_key SortByPinned e sc r =
    (if row_pinned r then 0 else 1, - int (unat (row_updated_ms r)), map unat (str_bytes (row_id r)))"
  by (simp add: workspace_key_def order_key_def)


text \<open>
  C28: The cached index and the direct filter agree: for every filter and sort the index, built
  once from the rows, gives the rows in scope that match the query, ordered by the sort with their
  scores; with pinned rows first this is exactly the direct projection, and a query that does not
  parse is an error for both and shows no row at all.
\<close>

theorem index_agrees_with_filter:
  "index_project invisible lower (workspace_index_new lower from_json4 rows) f s =
   (case workspace_parse invisible lower (wf_query f) of
      Inl e \<Rightarrow> Inl e
    | Inr q \<Rightarrow> Inr (sort_key
        (\<lambda>r. workspace_key s (q = []) (query_score q (workspace_text_new lower from_json4 r)) r)
        (filter (\<lambda>r. filter_scope f q r \<and> workspace_matches lower from_json4 q r) rows)))
   \<and> index_project invisible lower (workspace_index_new lower from_json4 rows) f SortByPinned =
       project_checked invisible lower from_json4 f rows
   \<and> filter_project invisible lower from_json4 f rows =
       (if filter_query_error invisible lower f = None
        then projr (index_project invisible lower (workspace_index_new lower from_json4 rows) f SortByPinned)
        else [])"
proof -
  have pinned: "index_project invisible lower (workspace_index_new lower from_json4 rows) f SortByPinned =
      project_checked invisible lower from_json4 f rows"
    unfolding index_project_rows project_checked_def pinned_key by (rule refl)
  show ?thesis
    by (intro conjI index_project_rows pinned)
      (simp add: pinned filter_project_def filter_query_error_def project_checked_def split: sum.split)
qed

subsection \<open>The overview\<close>

definition count_rows :: "(workspace_row \<Rightarrow> bool) \<Rightarrow> workspace_row list \<Rightarrow> nat" where
  "count_rows P rows = length (filter P rows)"

lemma count_rows_simps [simp]:
  "count_rows P [] = 0"
  "count_rows P (rows @ [r]) = count_rows P rows + (if P r then 1 else 0)"
  by (simp_all add: count_rows_def)

lemma map_count_attention:
  "distinct ks \<Longrightarrow> count_attention k (map (\<lambda>c. (c, n c)) ks) = map (\<lambda>c. (c, n c + (if c = k then 1 else 0))) ks"
  by (induction ks) auto

lemma distinct_attentions: "distinct workspace_attentions"
  by (simp add: workspace_attentions_def)

lemma all_attentions: "k \<in> set workspace_attentions"
  by (cases k) (simp_all add: workspace_attentions_def)

text \<open>One row of the loop, field by field.\<close>

lemma overview_row_fields:
  "ov_catalog_complete (overview_row ov r) = ov_catalog_complete ov"
  "ov_visible (overview_row ov r) = ov_visible ov + 1"
  "ov_attention (overview_row ov r) =
     (case row_attention r of Some k \<Rightarrow> count_attention k (ov_attention ov) | None \<Rightarrow> ov_attention ov)"
  "ov_tasks (overview_row ov r) = ov_tasks ov + (if row_kind r = Task then 1 else 0)"
  "ov_active_cli (overview_row ov r) = ov_active_cli ov +
     (if is_live (row_runtime r) \<and> row_kind r = Cli then 1 else 0)"
  "ov_active_api (overview_row ov r) = ov_active_api ov +
     (if is_live (row_runtime r) \<and> row_kind r = Api then 1 else 0)"
  "ov_active_native (overview_row ov r) = ov_active_native ov +
     (if is_live (row_runtime r) \<and> row_kind r = Task \<and>
         (f_agent_stream (row_facts r) \<or> f_preparing (row_facts r)) then 1 else 0)"
  "ov_active_task_terminals (overview_row ov r) = ov_active_task_terminals ov +
     (if is_live (row_runtime r) \<and> row_kind r = Task \<and> f_agent_terminal (row_facts r) then 1 else 0)"
  "ov_active_unknown_tasks (overview_row ov r) = ov_active_unknown_tasks ov +
     (if is_live (row_runtime r) \<and> row_kind r = Task \<and> \<not> f_agent_stream (row_facts r) \<and>
         \<not> f_preparing (row_facts r) \<and> \<not> f_agent_terminal (row_facts r) \<and>
         f_validation_status (row_facts r) \<noteq> Some VsRunning then 1 else 0)"
  "ov_validation_running (overview_row ov r) = ov_validation_running ov +
     (if is_live (row_runtime r) \<and> row_kind r = Task \<and> f_validation_status (row_facts r) = Some VsRunning
      then 1 else 0)"
  by (cases "row_kind r"; simp add: overview_row_def overview_task_def overview_live_task_def
      Let_def split: option.split)+


definition live_task :: "workspace_row \<Rightarrow> bool" where
  "live_task r \<longleftrightarrow> \<not> row_archived r \<and> is_live (row_runtime r) \<and> row_kind r = Task"

text \<open>The counts after any rows, as filters over them.\<close>

lemma overview_counts:
  fixes rows c
  defines "ov \<equiv> overview_from_rows rows c"
  shows "ov_catalog_complete ov = c"
    and "ov_visible ov = count_rows (\<lambda>r. \<not> row_archived r) rows"
    and "ov_attention ov = workspace_attention_counts rows"
    and "ov_tasks ov = count_rows (\<lambda>r. \<not> row_archived r \<and> row_kind r = Task) rows"
    and "ov_active_cli ov = count_rows (\<lambda>r. \<not> row_archived r \<and> is_live (row_runtime r) \<and> row_kind r = Cli) rows"
    and "ov_active_api ov = count_rows (\<lambda>r. \<not> row_archived r \<and> is_live (row_runtime r) \<and> row_kind r = Api) rows"
    and "count_rows live_task rows \<le> ov_active_native ov + ov_active_task_terminals ov +
          ov_active_unknown_tasks ov + ov_validation_running ov"
    and "ov_active_native ov \<le> count_rows live_task rows"
  unfolding ov_def
proof (induction rows rule: rev_induct)
  case (snoc r rows)
  { case 1 with snoc show ?case by (simp add: overview_from_rows_def overview_row_fields) }
  { case 2 with snoc show ?case by (simp add: overview_from_rows_def overview_row_fields) }
  { case 3
    have archived: "row_archived r \<Longrightarrow> row_attention r = None"
      by (simp add: row_attention_def)
    from snoc(3) archived show ?case
      by (cases "row_attention r")
        (simp_all add: overview_from_rows_def overview_row_fields workspace_attention_counts_def
          map_count_attention distinct_attentions cong: map_cong, auto) }
  { case 4 with snoc show ?case by (simp add: overview_from_rows_def overview_row_fields) }
  { case 5 with snoc show ?case by (simp add: overview_from_rows_def overview_row_fields) }
  { case 6 with snoc show ?case by (simp add: overview_from_rows_def overview_row_fields) }
  { case 7 with snoc(7) show ?case
      by (simp add: overview_from_rows_def overview_row_fields live_task_def) }
  { case 8 with snoc(8) show ?case
      by (simp add: overview_from_rows_def overview_row_fields live_task_def) }
qed (simp_all add: overview_from_rows_def workspace_attention_counts_def)

lemma sum_of_counts:
  "distinct ks \<Longrightarrow> (\<And>r k. r \<in> set rows \<Longrightarrow> a r = Some k \<Longrightarrow> k \<in> set ks) \<Longrightarrow>
    sum_list (map (\<lambda>k. length (filter (\<lambda>r. a r = Some k) rows)) ks) = count_rows (\<lambda>r. a r \<noteq> None) rows"
proof (induction rows)
  case (Cons r rows)
  have ih: "sum_list (map (\<lambda>k. length (filter (\<lambda>r. a r = Some k) rows)) ks) = count_rows (\<lambda>r. a r \<noteq> None) rows"
    by (rule Cons.IH) (use Cons.prems in auto)
  have "sum_list (map (\<lambda>k. if a r = Some k then 1 else 0 :: nat) ks) = (if a r = None then 0 else 1)"
  proof (cases "a r")
    case (Some j)
    then have "j \<in> set ks" by (intro Cons.prems(2)[of r]) simp_all
    then show ?thesis using Cons.prems(1)
      by (simp add: Some sum_list_distinct_conv_sum_set sum.delta')
  qed simp
  then have "sum_list (map (\<lambda>k. (if a r = Some k then 1 else 0) + length (filter (\<lambda>r. a r = Some k) rows)) ks) =
      (if a r = None then 0 else 1) + count_rows (\<lambda>r. a r \<noteq> None) rows"
    using ih by (simp add: sum_list_addf)
  moreover have "(\<lambda>k. length (filter (\<lambda>r. a r = Some k) (r # rows))) =
      (\<lambda>k. (if a r = Some k then 1 else 0) + length (filter (\<lambda>r. a r = Some k) rows))"
    by auto
  ultimately show ?case by (simp add: count_rows_def)
qed (simp add: count_rows_def)

text \<open>
  The overview is a faithful summary of the rows: its attention counts are those of the
  rows and add up to the rows that show an attention (none of them archived), its conversations,
  tasks and live terminals are counted exactly once each, and no live task is missing: each is counted
  as native work, a task terminal, a running validation or a runtime that is not known.
\<close>

theorem overview_counts_rows:
  "attention_total (overview_from_rows rows c) = count_rows (\<lambda>r. row_attention r \<noteq> None) rows
   \<and> ov_attention (overview_from_rows rows c) = workspace_attention_counts rows
   \<and> ov_visible (overview_from_rows rows c) = count_rows (\<lambda>r. \<not> row_archived r) rows
   \<and> ov_tasks (overview_from_rows rows c) = count_rows (\<lambda>r. \<not> row_archived r \<and> row_kind r = Task) rows
   \<and> ov_active_cli (overview_from_rows rows c) =
       count_rows (\<lambda>r. \<not> row_archived r \<and> is_live (row_runtime r) \<and> row_kind r = Cli) rows
   \<and> ov_active_api (overview_from_rows rows c) =
       count_rows (\<lambda>r. \<not> row_archived r \<and> is_live (row_runtime r) \<and> row_kind r = Api) rows
   \<and> ov_active_native (overview_from_rows rows c) \<le> count_rows live_task rows
   \<and> count_rows live_task rows \<le>
       ov_active_native (overview_from_rows rows c) + ov_active_task_terminals (overview_from_rows rows c) +
       ov_active_unknown_tasks (overview_from_rows rows c) + ov_validation_running (overview_from_rows rows c)"
proof -
  have "attention_total (overview_from_rows rows c) = count_rows (\<lambda>r. row_attention r \<noteq> None) rows"
    by (simp add: attention_total_def overview_counts workspace_attention_counts_def o_def
        sum_of_counts distinct_attentions all_attentions)
  then show ?thesis by (simp only: overview_counts simp_thms)
qed


subsection \<open>Task filters\<close>

lemma lowercase_space: "is_whitespace (if 0x41 \<le> c \<and> c \<le> 0x5a then c + 0x20 else c :: u32) = is_whitespace c"
proof (cases "0x41 \<le> c \<and> c \<le> 0x5a")
  case True
  then have n: "0x41 \<le> unat c" "unat c \<le> 0x5a" by (simp_all add: word_le_nat_alt)
  then have "unat (c + 0x20) = unat c + 0x20" by (simp add: unat_word_ariths)
  with n show ?thesis by (simp add: is_whitespace_def word_le_nat_alt word_unat_eq_iff)
qed auto

lemma trim_ends:
  "str_trim s = [] \<or> \<not> is_whitespace (hd (str_trim s)) \<and> \<not> is_whitespace (last (str_trim s))"
proof -
  let ?d = "dropWhile is_whitespace s"
  have "\<not> is_whitespace (last (str_trim s))" if "str_trim s \<noteq> []"
    using that hd_dropWhile[of is_whitespace "rev ?d"] by (simp add: str_trim_def last_rev)
  moreover have "\<not> is_whitespace (hd (str_trim s))" if "str_trim s \<noteq> []"
  proof -
    have "?d = str_trim s @ rev (takeWhile is_whitespace (rev ?d))"
      unfolding str_trim_def by (metis rev_append rev_rev_ident takeWhile_dropWhile_id)
    then have "hd ?d = hd (str_trim s)" using that by (metis hd_append2)
    moreover have "?d \<noteq> []"
      using that unfolding str_trim_def by (metis dropWhile.simps(1) rev.simps(1))
    ultimately show ?thesis using hd_dropWhile[of is_whitespace s] by simp
  qed
  ultimately show ?thesis by blast
qed

lemma normalize_lower [simp]: "ascii_lowercase (str_trim (normalize_value s)) = normalize_value s"
proof (cases "str_trim s = []")
  case False
  let ?l = "\<lambda>c :: u32. if 0x41 \<le> c \<and> c \<le> 0x5a then c + 0x20 else c"
  let ?f = "\<lambda>c :: u32. if c = 0x5f \<or> c = 0x20 then 0x2d else c"
  have n: "normalize_value s = map (\<lambda>c. ?f (?l c)) (str_trim s)"
    by (simp add: normalize_value_def ascii_lowercase_def)
  have ws: "\<not> is_whitespace (?f (?l c))" if "\<not> is_whitespace c" for c
    using that lowercase_space[of c] by (auto simp: is_whitespace_def split: if_splits)
  have "str_trim (normalize_value s) = normalize_value s"
    using trim_ends[of s] False by (intro trim_same) (simp_all only: n hd_map last_map ws map_is_Nil_conv simp_thms)
  moreover have "?l (?f (?l c)) = ?f (?l c)" for c
  proof (cases "0x41 \<le> c \<and> c \<le> 0x5a")
    case True
    then have m: "0x41 \<le> unat c" "unat c \<le> 0x5a" by (simp_all add: word_le_nat_alt)
    then have "unat (c + 0x20) = unat c + 0x20" by (simp add: unat_word_ariths)
    with m show ?thesis by (simp add: word_le_nat_alt word_unat_eq_iff)
  qed auto
  ultimately show ?thesis by (simp add: n ascii_lowercase_def)
next
  case True
  then have "normalize_value s = []" by (simp add: normalize_value_def ascii_lowercase_def)
  then show ?thesis by (simp add: ascii_lowercase_def str_trim_def)
qed

lemma normalize_no_underscore: "0x5f \<notin> set (normalize_value s)"
  by (auto simp: normalize_value_def)

text \<open>The provider a filter names, by the words it accepts.\<close>

lemma provider_word:
  assumes "v = normalize_value s"
  shows "query_provider v = Some p \<longleftrightarrow> v = config_value p \<or> (v = lit ''open-code'' \<and> p = PrOpenCode)"
proof -
  have "v \<noteq> lit ''open_code''"
    using normalize_no_underscore[of s] assms by (auto simp: lit_def)
  moreover have "ascii_lowercase (str_trim v) = v" by (simp add: assms)
  ultimately show ?thesis
    by (cases p) (auto simp: query_provider_def from_config_value_def config_value_def lit_def)
qed


text \<open>The fields the two languages share and the field of the workspace each stands for.\<close>

definition shared_field :: "query_field \<Rightarrow> workspace_field option" where
  "shared_field f =
     (case f of
        QfTitle \<Rightarrow> Some WfTitle | QfProvider \<Rightarrow> Some WfProvider | QfStatus \<Rightarrow> Some WfStatus
      | QfRuntime \<Rightarrow> Some WfRuntime | QfValidation \<Rightarrow> Some WfValidation
      | QfAttention \<Rightarrow> Some WfAttention | QfIs \<Rightarrow> Some WfIs | _ \<Rightarrow> None)"

lemma shared_field_parse:
  "field_parse name = Some f \<Longrightarrow> shared_field f = Some g \<Longrightarrow> workspace_field_parse name = Some g"
  by (auto simp: field_parse_def workspace_field_parse_def shared_field_def Let_def lit_def split: if_splits)

lemma shared_alternatives: "shared_field f = Some g \<Longrightarrow> has_alternatives g = is_enumerated f"
  by (cases f) (auto simp: shared_field_def has_alternatives_def is_enumerated_def)

lemma shared_accepts:
  "shared_field f = Some g \<Longrightarrow> field_accepts f v \<Longrightarrow> v \<noteq> [] \<Longrightarrow> workspace_field_accepts g v"
  by (cases f) (auto simp: shared_field_def field_accepts_def workspace_field_accepts_def query_attention_def
      attention_kinds_def attention_query_value_def workspace_attention_parse_def workspace_attentions_def
      workspace_attention_value_def is_values_def split: if_splits)

lemma shared_token_field:
  assumes "token_field tok = Inr (f, value)" and "shared_field f = Some g"
  shows "workspace_token_field tok = Inr (g, value)"
  using assms shared_field_parse[OF _ assms(2)]
  by (auto simp: token_field_def workspace_token_field_def shared_field_def
      split: if_splits option.splits prod.splits)

lemma shared_term:
  assumes "token_term lower tok = Inr q" and "shared_field (qt_field q) = Some g"
  shows "workspace_token_term lower tok =
    Inr \<lparr>wt_field = g, wt_values = qt_values q, wt_absolute_project = None, wt_negated = qt_negated q\<rparr>"
proof -
  obtain f x where f: "token_field tok = Inr (f, x)"
    using assms(1) by (auto simp: token_term_def split: sum.splits)
  let ?vs = "if is_enumerated f then map normalize_value (split_on 0x2c x) else [lower x]"
  have q: "\<not> list_ex (\<lambda>v. v = [] \<or> \<not> field_accepts f v) ?vs"
      "q = \<lparr>qt_field = f, qt_values = ?vs, qt_negated = tk_negated tok\<rparr>"
    using assms(1) by (simp_all add: token_term_def f Let_def split: if_splits)
  have g: "shared_field f = Some g" using assms(2) q(2) by simp
  then have "g \<noteq> WfProject" by (cases f) (auto simp: shared_field_def)
  moreover have "\<not> list_ex (\<lambda>v. v = [] \<or> \<not> workspace_field_accepts g v) ?vs"
    using q(1) shared_accepts[OF g] by (auto simp: list_ex_iff)
  ultimately show ?thesis
    by (simp add: workspace_token_term_def shared_token_field[OF f g] shared_alternatives[OF g] q(2) Let_def)
qed

lemma enumerated_values:
  assumes "token_term lower tok = Inr q" and "is_enumerated (qt_field q)" and "v \<in> set (qt_values q)"
  shows "v \<in> range normalize_value" and "field_accepts (qt_field q) v"
  using assms by (auto simp: token_term_def Let_def list_ex_iff split: sum.splits if_splits)


text \<open>The fields of the two rows of a task.\<close>

lemma dashboard_fields:
  "dr_status (row_from_task invisible t a) = at_status t"
  "dr_validation (row_from_task invisible t a) = vs_status (at_validation t)"
  "dr_attention (row_from_task invisible t a) \<longleftrightarrow> at_status t \<noteq> TsArchived \<and> needs_attention t"
  "dr_provider (row_from_task invisible t a) = at_provider t"
  "dr_runtime (row_from_task invisible t a) = at_runtime t"
  "dr_activity (row_from_task invisible t a) = a"
  by (simp_all add: row_from_task_def)

lemma workspace_fields:
  fixes i invisible t a
  defines "r \<equiv> workspace_row_of_task invisible i t a"
  shows "row_title r = dr_title (row_from_task invisible t a)"
    and "row_provider r = display_name (at_provider t)"
    and "row_archived r \<longleftrightarrow> at_status t = TsArchived"
    and "row_runtime r = (if ac_agent_terminal a \<or> ac_validation_terminal a \<or> ac_agent_stream a \<or> ac_preparing a
          then Running else Idle)"
    and "f_interrupted (row_facts r) \<longleftrightarrow> False"
    and "f_attention (row_facts r) =
          map_option attention_from_dashboard (row_attention_kind (row_from_task invisible t a))"
    and "f_task_status (row_facts r) = Some (at_status t)"
    and "f_api_state (row_facts r) = None"
    and "f_task_runtime (row_facts r) = Some (at_runtime t)"
    and "f_validation_status (row_facts r) = Some (vs_status (at_validation t))"
    and "f_preparing (row_facts r) = ac_preparing a"
    and "f_agent_stream (row_facts r) = ac_agent_stream a"
  by (simp_all add: r_def workspace_row_of_task_def facts_from_task_def Let_def facts_default_def)

lemma archived_no_attention: "attention_of TsArchived v needs = None"
  by (simp add: attention_of_def)

lemma task_row_attention:
  "row_attention (workspace_row_of_task invisible i t a) =
     map_option attention_from_dashboard (row_attention_kind (row_from_task invisible t a))"
  by (simp add: row_attention_def workspace_fields row_attention_kind_def dashboard_fields archived_no_attention)

lemma task_attention_shown:
  "row_attention_kind (row_from_task invisible t a) \<noteq> None \<longleftrightarrow>
     at_status t \<noteq> TsArchived \<and> needs_attention t"
  unfolding row_attention_kind_def dashboard_fields
  by (cases "at_status t") (auto simp: attention_of_def
      needs_attention_def status_needs_attention_def validation_needs_attention_def)

lemma lit_eq [simp]: "lit s = lit t \<longleftrightarrow> s = t"
proof -
  have "inj (of_char :: char \<Rightarrow> u32)"
  proof (rule injI)
    fix c d :: char
    assume "of_char c = (of_char d :: u32)"
    then have "unat (of_char c :: u32) = unat (of_char d :: u32)" by simp
    moreover have "unat (of_char e :: u32) = of_char e" for e :: char
    proof -
      have "unat (of_nat (of_char e) :: u32) = of_char e"
        unfolding unat_of_nat by (rule mod_less, rule less_trans[OF nat_of_char_less_256]) simp
      then show ?thesis by (simp only: of_nat_of_char)
    qed
    ultimately show "c = d" by simp
  qed
  then show ?thesis by (simp add: lit_def inj_map_eq_map)
qed

lemma attention_word:
  assumes "query_attention v = Some k"
  shows "workspace_attention_parse v = Some (attention_from_dashboard k)" and "v \<noteq> lit ''none''"
  using assms by (auto simp: query_attention_def attention_kinds_def attention_query_value_def
      workspace_attention_parse_def workspace_attentions_def workspace_attention_value_def
      attention_from_dashboard_def lit_def split: if_splits)

lemma attention_from_dashboard_inj: "attention_from_dashboard j = attention_from_dashboard k \<longleftrightarrow> j = k"
  by (cases j; cases k) (simp_all add: attention_from_dashboard_def)

lemma runtime_word: "query_runtime v \<noteq> None \<Longrightarrow> runtime_state_parse v = None"
proof -
  assume "query_runtime v \<noteq> None"
  then have "\<exists>w \<in> {''unassigned'', ''not-started'', ''terminal'', ''pty'', ''native'', ''fallback'',
      ''terminal-fallback''}. v = lit w"
    by (auto simp: query_runtime_def split: if_splits)
  then show ?thesis
    unfolding runtime_state_parse_def by (elim bexE insertE emptyE) simp_all
qed

lemma shared_is:
  assumes "v \<in> set is_values" and "v \<noteq> lit ''running''"
  shows "matches_is (workspace_row_of_task invisible i t a) v = is_matches (row_from_task invisible t a) v"
proof -
  have "row_attention (workspace_row_of_task invisible i t a) \<noteq> None \<longleftrightarrow>
      at_status t \<noteq> TsArchived \<and> needs_attention t"
    unfolding task_row_attention task_attention_shown[of invisible t a, symmetric] by simp
  then have "matches_is (workspace_row_of_task invisible i t a) (lit w) = is_matches (row_from_task invisible t a) (lit w)"
    if "w \<in> {''attention'', ''not-started'', ''review'', ''finished'', ''archived'', ''preparing'',
      ''agent-stream'', ''validation-running''}" for w
    using that unfolding matches_is_def is_matches_def workspace_fields dashboard_fields row_finished_def
    by (elim insertE emptyE) auto
  moreover have "\<exists>w \<in> {''attention'', ''not-started'', ''review'', ''finished'', ''archived'', ''preparing'',
      ''agent-stream'', ''validation-running''}. v = lit w"
    using assms by (auto simp: is_values_def)
  ultimately show ?thesis by blast
qed

lemma shared_value:
  assumes "shared_field f = Some g" and "wt_field term = g"
    and "is_enumerated f \<Longrightarrow> v \<in> range normalize_value \<and> field_accepts f v"
    and "f = QfIs \<Longrightarrow> v \<noteq> lit ''running''"
    and "\<And>p. lower (display_name p) = config_value p"
  shows "workspace_value_matches (workspace_row_of_task invisible i t a)
      (workspace_text_new lower from_json4 (workspace_row_of_task invisible i t a)) body term v \<longleftrightarrow>
    value_matches (row_text_new lower id_text (row_from_task invisible t a)) (row_from_task invisible t a) f v"
proof (cases f)
  case QfProvider
  with assms obtain s where v: "v = normalize_value s" by (auto simp: is_enumerated_def)
  show ?thesis using QfProvider assms
    by (cases "at_provider t") (auto simp: shared_field_def workspace_value_matches_def value_matches_def
        provider_word[OF v] workspace_text_new_def workspace_fields dashboard_fields config_value_def)
next
  case QfRuntime
  with assms have "query_runtime v \<noteq> None" by (simp add: is_enumerated_def field_accepts_def)
  with QfRuntime assms show ?thesis
    by (auto simp: shared_field_def workspace_value_matches_def value_matches_def runtime_word
        workspace_fields dashboard_fields)
next
  case QfAttention
  with assms obtain k where "query_attention v = Some k" by (auto simp: is_enumerated_def field_accepts_def)
  with QfAttention assms attention_word show ?thesis
    by (auto simp: shared_field_def workspace_value_matches_def value_matches_def task_row_attention
        attention_from_dashboard_inj)
next
  case QfIs
  with assms have "v \<in> set is_values" "v \<noteq> lit ''running''" by (simp_all add: is_enumerated_def field_accepts_def)
  with QfIs assms show ?thesis
    by (auto simp: shared_field_def workspace_value_matches_def value_matches_def shared_is)
qed (use assms in \<open>auto simp: shared_field_def workspace_value_matches_def value_matches_def
    workspace_text_new_def row_text_new_def workspace_fields dashboard_fields matches_status_def\<close>)

text \<open>
  C27: The two query languages agree on the filters they share: a filter of the task dashboard by
  title, provider, status, runtime, validation or attention, or by \<open>is:\<close> with any word but \<open>running\<close>,
  is also a filter of the workspace, and selects a task's row there exactly when it selects its row in
  the dashboard, provided that lower-casing gives the names of the four providers in lower case.  Free
  text and the fields \<open>project\<close>, \<open>branch\<close> and \<open>id\<close> are left out, since the two rows show different
  texts there; so is \<open>is:running\<close>, which for the workspace means a live process.
\<close>

theorem task_filters_agree:
  assumes "token_term lower tok = Inr q"
    and "shared_field (qt_field q) \<noteq> None"
    and "qt_field q = QfIs \<Longrightarrow> lit ''running'' \<notin> set (qt_values q)"
    and "\<And>p. lower (display_name p) = config_value p"
  shows "\<exists>w. workspace_token_term lower tok = Inr w \<and>
    (\<forall>invisible i t a. workspace_matches lower from_json4 [w] (workspace_row_of_task invisible i t a) \<longleftrightarrow>
       query_matches lower id_text \<lparr>dq_terms = [q], dq_needs_text = b\<rparr> (row_from_task invisible t a))"
proof -
  obtain g where g: "shared_field (qt_field q) = Some g" using assms(2) by auto
  let ?w = "\<lparr>wt_field = g, wt_values = qt_values q, wt_absolute_project = None, wt_negated = qt_negated q\<rparr>"
  have "workspace_value_matches (workspace_row_of_task invisible i t a)
      (workspace_text_new lower from_json4 (workspace_row_of_task invisible i t a)) None ?w v \<longleftrightarrow>
    value_matches (row_text_new lower id_text (row_from_task invisible t a)) (row_from_task invisible t a) (qt_field q) v"
    if "v \<in> set (qt_values q)" for v invisible i t a
    using that assms(3) enumerated_values[OF assms(1) _ that] by (intro shared_value[OF g _ _ _ assms(4)]) auto
  then have "workspace_matches lower from_json4 [?w] (workspace_row_of_task invisible i t a) \<longleftrightarrow>
      query_matches lower id_text \<lparr>dq_terms = [q], dq_needs_text = b\<rparr> (row_from_task invisible t a)"
    for invisible i t a
    by (simp add: workspace_matches_def matches_text_def query_matches_def term_matches_def list_ex_iff)
  with shared_term[OF assms(1) g] show ?thesis by blast
qed


text \<open>A negated filter of two states, in the spelling of a user.\<close>

theorem task_filters_agree_witness:
  "\<exists>w. workspace_token_term ascii_lowercase
       \<lparr>tk_value = lit ''status:Review,waiting_for_approval'', tk_negated = True, tk_literal = False\<rparr> = Inr w \<and>
    (\<forall>invisible i t a. workspace_matches ascii_lowercase (\<lambda>s. None) [w] (workspace_row_of_task invisible i t a) \<longleftrightarrow>
       query_matches ascii_lowercase (\<lambda>n. [])
         \<lparr>dq_terms = [\<lparr>qt_field = QfStatus, qt_values = [lit ''review'', lit ''waiting-for-approval''],
            qt_negated = True\<rparr>], dq_needs_text = False\<rparr>
         (row_from_task invisible t a))"
proof -
  have parsed: "token_term ascii_lowercase
      \<lparr>tk_value = lit ''status:Review,waiting_for_approval'', tk_negated = True, tk_literal = False\<rparr> =
    Inr \<lparr>qt_field = QfStatus, qt_values = [lit ''review'', lit ''waiting-for-approval''], qt_negated = True\<rparr>"
    by code_simp
  have "ascii_lowercase (display_name p) = config_value p" for p
    by (cases p) (simp_all add: display_name_def config_value_def ascii_lowercase_def lit_def)
  then show ?thesis
    by (intro task_filters_agree[OF parsed]) (simp_all add: shared_field_def)
qed

end
