(* ===== verification/Spec2Isabelle.thy ===== *)
theory Spec2Isabelle
  imports Replay_Chunk_Properties Replay_Table_Properties Vt_Decode_Facts Kitty_Facts
    Pty_Paste_Properties Agent_Queue_Facts Osc_Facts Live_Text_Properties Live_Mode_Properties
    Replay_Loop_Properties Dashboard_Properties Output_Compare_Properties Click_Cursor_Properties
    Terminal_Report_Properties Workspace_Properties
begin

text \<open>
  A verification of the core of \<open>jterm_core\<close>, the library under the terminal emulator
  \<open>jterm\<close>.  It models the parts of the crate that decide what a terminal shows and what reaches
  the shell, and proves what their callers rely on.

  \<^bold>\<open>The program and its model.\<close>

  \<^item> The screen replay (\<open>src/src/screen_replay/\<close>) turns the bytes a command printed into
    the screen and scrollback it left behind.  Bytes go through the parser (\<open>parser.rs\<close>), which
    calls the emulator (\<open>emulator.rs\<close>) for every character, control and escape sequence; the
    emulator keeps two screens of rows of cells (\<open>grid.rs\<close>), a pen (\<open>pen.rs\<close>) and
    interning tables for pens, hyperlinks and grapheme clusters (\<open>tables.rs\<close>); \<open>mod.rs\<close>
    is the interface: create, feed, resize, finish, write plain text or terminal output, take a
    bounded snapshot of the viewport, and tell whether a stream needs all this.
    Theories: \<open>Vt_Parser\<close> (parser.rs), \<open>Sgr_Pen\<close> (pen.rs), \<open>Replay_Grid\<close> (grid.rs),
    \<open>Replay_Tables\<close> and \<open>Replay_Text\<close> (tables.rs and the text of cells),
    \<open>Replay_Emulator\<close>, \<open>Replay_Print\<close>, \<open>Replay_Edit\<close>, \<open>Replay_Perform\<close>,
    \<open>Replay_Snapshot\<close> (emulator.rs: state and scrolling, printing, editing and tabs, the
    dispatch of callbacks and resizing, the snapshot) and \<open>Screen_Replay\<close> (mod.rs).
  \<^item> The stream parser (\<open>parser.rs\<close>) stands between a program and the live terminal: it
    takes the reads of the pseudo-terminal and gives the host a list of events, among them the
    bytes to display, prompt and command marks with their metadata, switches of the alternate
    screen, private modes, protocol queries, colours, clipboard and notifications.  It filters modes whose
    reporting is configured off and keeps unfinished sequences from one read to the next.
    Theories: \<open>Live_Parser\<close> (the record \<open>live\<close>, the window over displayed bytes that
    classifies 9B, one byte in every state, a CSI's final byte, the loop of \<open>feed\<close>) and
    \<open>Osc_Handler\<close> (operating-system commands: OSC 133 fields and their validation, colours,
    clipboard, notifications, and the checks of identities it takes from
    \<open>execution_journal.rs\<close>).
  \<^item> The kitty keyboard protocol (\<open>kitty_keyboard.rs\<close>): \<open>Kitty_Keyboard\<close>.
  \<^item> Input to the shell (\<open>pty_input.rs\<close>): encoding of pastes and prompt insertions, the guard
    over every write, and the reading of what was admitted: \<open>Pty_Input\<close>; the review of text
    before it is inserted or shown (\<open>review_input.rs\<close>): \<open>Review_Input\<close>.
  \<^item> The dependency queue of the agent workspace (\<open>agent_workspace/queue.rs\<close>): intents and
    their validation, changes, the depth-first check for cycles, and the projection of a queue and
    the rows of the workspace to the readiness of every task: \<open>Agent_Queue\<close>.  The rows
    themselves, one for every conversation with an API, a session or a task, with the facts read from
    its source, the attention it asks for and the labels it shows (\<open>model.rs\<close>, \<open>projection.rs\<close>,
    \<open>overview.rs\<close>, the row of \<open>native.rs\<close>): \<open>Workspace_Rows\<close>.  Searching and ordering
    them (\<open>query.rs\<close>), which reuses the lexer and the task states of the dashboard:
    \<open>Workspace_Query\<close>.
  \<^item> The task manager (\<open>agent_task/task.rs\<close>) is the only authority over the life of agent
    tasks: it creates them, binds terminals and validation runs to them, opens the event streams of
    native agents (\<open>event.rs\<close>) and applies their events, takes notice of processes that end, hides and
    restores tasks, and accepts their work.  Theories: \<open>Agent_Types\<close> (statuses, tasks, events,
    errors, the command context of \<open>context.rs\<close>), \<open>Agent_Event\<close> (event.rs, the authored goals of
    \<open>brief.rs\<close> and the sanitised commands of \<open>replay_text.rs\<close>), \<open>Agent_Task\<close> (the record
    \<open>task_manager\<close>, lookup, creation, event streams and \<open>apply_event\<close>), \<open>Agent_Terminal\<close>
    (terminals, validation, status, hiding and accepting).  \<open>Agent_Task_Run\<close> makes commands and
    runs of the operations.  The dashboard (\<open>dashboard.rs\<close>, \<open>query.rs\<close>) shows tasks as rows:
    \<open>Dashboard_Rows\<close> (rows, attention queues, labels), \<open>Dashboard_Query\<close> (tokens, terms and
    matching), \<open>Dashboard\<close> (projection, counts, orders, selection).  Among the commands is the projection of a task that another
    process hosts (\<open>project_hosted_task\<close>).  It replaces a task as a whole and does not touch the indices of
    sessions, so runs admit it (\<open>hostable\<close> in \<open>Agent_Hosted\<close>) for well-formed tasks that bring the terminal
    and validation sessions registered here, or none when the task is new; \<open>unchecked_projection\<close>
    shows a projection outside of this that leaves an index pointing to a task without the session.
    Runs say nothing of such projections.
  \<^item> Three helpers of the views of commands.  The comparison of two captured outputs
    (\<open>output_compare.rs\<close>): \<open>Output_Compare\<close> bounds both texts, aligns their lines over a flat table
    of \<open>u16\<close> lengths and writes a report under a limit.  Placing the cursor by a click
    (\<open>click_cursor.rs\<close>): \<open>Click_Cursor\<close> has the guards, the target cell, the walk that counts
    characters, gestures and arrow keys.  Telling reports of the terminal widget from key presses
    (\<open>terminal_report.rs\<close>): \<open>Terminal_Report\<close>.
  \<^item> \<open>Prelude\<close>, \<open>Rust_Std\<close>, \<open>Rust_Str\<close> and \<open>Rust_Parse\<close> hold what these use of Rust
    and its standard library: the panic monad, slices, vectors, UTF-8, decimal formatting, strings,
    splitting, and the parsing of integers.  \<open>Rust_Utf8\<close> has the facts about UTF-8 and decimals
    they share.

  \<^bold>\<open>Conventions.\<close>  A computation that can panic is an \<open>option\<close>, \<open>None\<close> the panic;
  \<open>runs m P\<close> says that it returns and that the result satisfies \<open>P\<close>.  Errors of the program
  are values of a sum.  Bytes, code points and flags are words of their width; \<open>usize\<close> is
  \<open>nat\<close> with checked subtraction (additions of lengths and positions are bounded by memory and do
  not wrap); the CSI parameters, which the source keeps in \<open>i32\<close>, are integers with the clamps
  of the source written out; mode numbers and saturating decimals of the stream parser are \<open>nat\<close>
  with the saturation of the source.  A mutable struct is a record that is passed and returned.  The
  callbacks of the trait \<open>Perform\<close> are events.

  \<^bold>\<open>Parameters.\<close>  The display widths of the \<open>unicode-width\<close> package (\<open>uw\<close>), the lower-case
  mapping of characters and strings, the text of a uuid, the set of invisible characters of the \<open>jagent\<close> crate and the JSON
  reader and writer of \<open>serde_json\<close> (\<open>from_json\<close> and \<open>from_json4\<close>, used to read ids, and
  \<open>to_json\<close>, used to write one), and the id of the machine (\<open>host\<close>) are arguments; nothing is
  assumed of them, except in \<open>task_filters_agree\<close>, that the lower-case mapping gives the names of the
  four providers in lower case.  Fresh uuids and the clock are arguments of the operations of the task
  manager; the counter of epochs, which all managers of a process share, is passed and returned, and a run lets it
  grow between steps.  A new task's uuid is assumed to be unused (\<open>admissible_op\<close>, which also
  holds the condition on hosted tasks).

  \<^bold>\<open>Lemma groups.\<close>  \<open>Vt_Parser_Facts\<close>: the decoder and the parser's buffers, and that a
  stream may be cut anywhere; \<open>Vt_Decode_Facts\<close>: the byte parser refines the state machine of
  code points over the lossy conversion of the standard library.  \<open>Replay_Tables_Facts\<close> states
  the contract of an interning table as a locale, interpreted for the three tables;
  \<open>Replay_Compaction\<close> and \<open>Replay_Table_Properties\<close>: compaction renames indices and nothing
  else.  \<open>Replay_Invariant\<close> to \<open>Replay_Perform_Facts\<close>: the emulator's invariant
  (\<open>wf_emu\<close>) and that every operation keeps it without panicking.  \<open>Replay_Feed_Facts\<close>
  states what a handler of callbacks must promise (locales \<open>event_sink\<close> and
  \<open>run_splitting_sink\<close>), interpreted for the emulator; \<open>Replay_Run_Facts\<close> and
  \<open>Replay_Chunk_Properties\<close>: the bulk path for ASCII against the path for one character, and
  chunks.  \<open>Replay_Output_Facts\<close> and \<open>Replay_Properties\<close>: outputs and the properties of a
  whole session.  \<open>Kitty_Facts\<close>; \<open>Pty_Input_Facts\<close>, \<open>Pty_Guard_Facts\<close> and
  \<open>Pty_Paste_Properties\<close>: markers, the encoder, the guard and the way of a paste to the shell.
  \<open>Osc_Facts\<close>: the metadata of OSC 133 as a function of its fields, the exit status, and the
  decoders as inverses of encoders.  \<open>Live_Facts\<close> and \<open>Live_Invariant\<close>: the window as the
  last three displayed bytes, the classification of 9B over it, and the invariant \<open>run_ok\<close> of a
  run with its introduction rules; \<open>Live_Properties\<close>: the loop of \<open>feed\<close> with its bulk
  copy of text is the fold of one step per byte, and sessions; \<open>Live_Chunk_Facts\<close> and
  \<open>Live_Chunk_Properties\<close>: the relation \<open>alike\<close> between runs that differ only in how displayed
  bytes are grouped, kept by every step, and its consequence for reads;
  \<open>Live_Text_Properties\<close>: the byte 9B inside characters; \<open>Live_Mode_Properties\<close>: the modes.
  \<open>Agent_Queue_Facts\<close>: the check against the acyclicity of the dependency relation, the
  invariant of the queue, and what readiness means.  \<open>Agent_Task_Facts\<close>: the invariant
  \<open>manager_ok\<close> of the task manager and the laws of replacing a task; \<open>Agent_Task_Invariant\<close> and
  \<open>Agent_Event_Invariant\<close>: every operation keeps it, and \<open>Agent_Hosted\<close>: the projection of hosted
  tasks; \<open>Agent_Lifecycle\<close>: the state machine
  \<open>lifecycle\<close> of one task and the simulation of every operation by it;
  \<open>Agent_Task_Properties\<close>: the properties of runs, tried on one run from creation to acceptance.
  \<open>Dashboard_Facts\<close> and \<open>Dashboard_Properties\<close>: the counts as lengths of filtered rows, the
  projection, the navigation and the phrases of a query.
  \<open>Output_Compare_Facts\<close>: longest common subsequences, the reference alignment \<open>diff\<close>, and the
  table with its walk as an implementation of it; \<open>Output_Compare_Properties\<close>: the writer as a
  bounded concatenation, the counts, and the text of a report as a code of what was compared.
  \<open>Click_Cursor_Properties\<close>: the walk counts the characters between two cells of a grid, and the keys sent,
  read back as moves, are exactly that many in that direction.
  \<open>Terminal_Report_Properties\<close>: the classifier is the grammar \<open>report_of\<close>, and no key press is in it.
  \<open>Workspace_Properties\<close>: the index as sorting and filtering of the rows, the counts of the
  overview, and the filters shared with the dashboard.

  \<^bold>\<open>Termination.\<close>  Every loop of the model is a total function, but for the bulk loop
  \<open>ascii_loop\<close>, whose progress depends on the invariant: it is a partial function, and
  \<open>bulk_loop_terminates\<close> shows that it returns within one turn for every byte, and the walk
  \<open>count_loop\<close> over cells, which returns on every grid whose indices are far from the limits of
  \<open>i64\<close> (\<open>on_grid\<close>).  No fuel is used.

  \<^bold>\<open>Not modelled.\<close>  The capacity hints and scratch buffers of the screen replay (they do not
  change a result), its hash function, the cache of character widths, and the logging of the stream
  parser.  Of the rest of the crate: the drivers, processes, worktrees and views of agent tasks, agent
  sessions, the store and the hosts of the workspace, the AI chat, workflows, journals and histories,
  command correction, the organism and the embedded editor; they are processes, sockets, databases,
  JSON and floating-point animation for the larger part.  Of the workspace, the
  identities of sessions and sources, which resolve paths in the file system, the row of a recorded
  session and the stored records are left out.
\<close>

end
